(* ===== verification/Prelude.thy ===== *)
theory Prelude
  imports Main
begin

text \<open>
  Shared vocabulary of the development: the Go standard-library string functions the
  server and the agent use, the clock, HTTP replies, and the relational tables that GORM
  keeps (rows with an id, time stamps and a soft-delete mark).

  Strings are byte lists (\<^typ>\<open>string\<close>), as Go's are.  Case mapping and white space are
  those of ASCII; Go's functions agree on ASCII text and also treat some bytes above 127.
  Times and durations are whole nanoseconds (\<^typ>\<open>int\<close>), as \<open>time.Time\<close> and
  \<open>time.Duration\<close> count them, without the saturation at 292 years.
\<close>

named_theorems table_simps \<open>equations of the table operations\<close>
named_theorems keeps \<open>frame facts: what an operation leaves unchanged\<close>

subsection \<open>Strings\<close>

definition is_space :: "char \<Rightarrow> bool" where
  "is_space c \<longleftrightarrow> c \<in> {CHR 0x09, CHR 0x0A, CHR 0x0B, CHR 0x0C, CHR 0x0D, CHR 0x20}"

definition trim_space :: "string \<Rightarrow> string" where
  "trim_space s = rev (dropWhile is_space (rev (dropWhile is_space s)))"

definition lower_char :: "char \<Rightarrow> char" where
  "lower_char c = (if 65 \<le> (of_char c :: nat) \<and> (of_char c :: nat) \<le> 90
                   then char_of ((of_char c :: nat) + 32) else c)"

definition upper_char :: "char \<Rightarrow> char" where
  "upper_char c = (if 97 \<le> (of_char c :: nat) \<and> (of_char c :: nat) \<le> 122
                   then char_of ((of_char c :: nat) - 32) else c)"

definition to_lower :: "string \<Rightarrow> string" where
  "to_lower s = map lower_char s"

definition to_upper :: "string \<Rightarrow> string" where
  "to_upper s = map upper_char s"

definition has_prefix :: "string \<Rightarrow> string \<Rightarrow> bool" where
  "has_prefix p s \<longleftrightarrow> take (length p) s = p"

definition has_suffix :: "string \<Rightarrow> string \<Rightarrow> bool" where
  "has_suffix p s \<longleftrightarrow> has_prefix (rev p) (rev s)"

definition trim_prefix :: "string \<Rightarrow> string \<Rightarrow> string" where
  "trim_prefix p s = (if has_prefix p s then drop (length p) s else s)"

definition trim_suffix :: "string \<Rightarrow> string \<Rightarrow> string" where
  "trim_suffix p s = (if has_suffix p s then take (length s - length p) s else s)"

fun contains :: "string \<Rightarrow> string \<Rightarrow> bool" where
  "contains p [] \<longleftrightarrow> p = []"
| "contains p (c # cs) \<longleftrightarrow> has_prefix p (c # cs) \<or> contains p cs"

text \<open>\<open>strings.Split\<close> with a one-byte separator.\<close>

fun split_on :: "char \<Rightarrow> string \<Rightarrow> string list" where
  "split_on d [] = [[]]"
| "split_on d (c # cs) =
     (if c = d then [] # split_on d cs
      else (case split_on d cs of [] \<Rightarrow> [[c]] | w # ws \<Rightarrow> (c # w) # ws))"

text \<open>\<open>strings.Join\<close>.\<close>

fun join_with :: "string \<Rightarrow> string list \<Rightarrow> string" where
  "join_with sep [] = []"
| "join_with sep [x] = x"
| "join_with sep (x # y # ys) = x @ sep @ join_with sep (y # ys)"

text \<open>\<open>strings.ReplaceAll\<close> where the replaced text is a single byte.\<close>

definition replace_char :: "char \<Rightarrow> string \<Rightarrow> string \<Rightarrow> string" where
  "replace_char c new s = concat (map (\<lambda>d. if d = c then new else [d]) s)"

lemma has_prefix_iff: "has_prefix p s \<longleftrightarrow> (\<exists>t. s = p @ t)"
  unfolding has_prefix_def by (metis append_eq_conv_conj append_take_drop_id)

lemma has_prefix_append [simp, intro]: "has_prefix p (p @ t)"
  by (auto simp: has_prefix_iff)

lemma has_prefix_Nil [simp]: "has_prefix [] s"
  by (simp add: has_prefix_def)

lemma has_suffix_iff: "has_suffix p s \<longleftrightarrow> (\<exists>t. s = t @ p)"
proof -
  have "has_suffix p s \<longleftrightarrow> (\<exists>t. rev s = rev p @ t)"
    by (simp add: has_suffix_def has_prefix_iff)
  also have "\<dots> \<longleftrightarrow> (\<exists>t. s = t @ p)"
    by (metis rev_append rev_rev_ident)
  finally show ?thesis .
qed

lemma contains_iff: "contains p s \<longleftrightarrow> (\<exists>a b. s = a @ p @ b)"
proof (induction p s rule: contains.induct)
  case (1 p)
  then show ?case by auto
next
  case (2 p c cs)
  have "(\<exists>a b. c # cs = a @ p @ b) \<longleftrightarrow> (\<exists>b. c # cs = p @ b) \<or> (\<exists>a b. cs = a @ p @ b)"
    by (metis (no_types, lifting) append_Cons append_Nil list.exhaust list.inject)
  then show ?case using 2 by (simp add: has_prefix_iff)
qed

lemma split_on_nonempty [simp]: "split_on d s \<noteq> []"
  by (cases s) (auto split: list.splits)

lemma join_split: "join_with [d] (split_on d s) = s"
proof (induction s)
  case Nil
  then show ?case by simp
next
  case (Cons c cs)
  obtain w ws where w: "split_on d cs = w # ws"
    by (meson list.exhaust split_on_nonempty)
  show ?case using Cons w by (cases ws) auto
qed

lemma split_on_no_sep: "w \<in> set (split_on d s) \<Longrightarrow> d \<notin> set w"
proof (induction s arbitrary: w)
  case Nil
  then show ?case by simp
next
  case (Cons c cs)
  show ?case
  proof (cases "c = d")
    case True
    then show ?thesis using Cons by auto
  next
    case False
    obtain v vs where v: "split_on d cs = v # vs"
      by (meson list.exhaust split_on_nonempty)
    have "w = c # v \<or> w \<in> set vs" using Cons.prems False v by auto
    then show ?thesis using Cons.IH [of v] Cons.IH [of w] v False by auto
  qed
qed

lemma trim_space_ends:
  assumes "trim_space s \<noteq> []"
  shows "\<not> is_space (hd (trim_space s)) \<and> \<not> is_space (last (trim_space s))"
proof -
  let ?a = "dropWhile is_space s"
  let ?b = "dropWhile is_space (rev ?a)"
  have b: "?b \<noteq> []" using assms by (simp add: trim_space_def del: dropWhile_eq_Nil_conv)
  then have l: "\<not> is_space (hd ?b)" by (rule hd_dropWhile)
  have ane: "?a \<noteq> []" using b by (metis dropWhile.simps(1) rev.simps(1))
  have "?a = rev ?b @ rev (takeWhile is_space (rev ?a))"
    by (metis rev_append rev_rev_ident takeWhile_dropWhile_id)
  then have "hd ?a = hd (rev ?b)" using b by (metis hd_append2 rev_is_Nil_conv)
  then have "\<not> is_space (hd (rev ?b))" using hd_dropWhile [OF ane] by simp
  then show ?thesis using l b by (simp add: trim_space_def last_rev)
qed

lemma trim_space_idem [simp]: "trim_space (trim_space s) = trim_space s"
proof (cases "trim_space s = []")
  case False
  let ?t = "trim_space s"
  have "\<not> is_space (hd ?t)" "\<not> is_space (hd (rev ?t))"
    using trim_space_ends [OF False] False by (simp_all add: hd_rev)
  then have "dropWhile is_space ?t = ?t" "dropWhile is_space (rev ?t) = rev ?t"
    using False by (simp_all add: dropWhile_eq_self_iff)
  then show ?thesis by (simp add: trim_space_def [of ?t])
next
  case True
  show ?thesis unfolding True by (simp add: trim_space_def)
qed

text \<open>The dash of some messages, in UTF-8.\<close>

definition em_dash :: string where
  "em_dash = [CHR 0xE2, CHR 0x80, CHR 0x94]"

subsection \<open>Clock\<close>

type_synonym time = int
type_synonym duration = int

definition second :: duration where "second = 1000000000"
definition minute :: duration where "minute = 60 * second"
definition hour :: duration where "hour = 60 * minute"
definition day :: duration where "day = 24 * hour"

lemmas clock_defs = second_def minute_def hour_def day_def

text \<open>\<open>int64(d.Seconds())\<close>: whole seconds, rounded towards zero.\<close>

definition whole_seconds :: "duration \<Rightarrow> int" where
  "whole_seconds d = sgn d * (\<bar>d\<bar> div second)"

lemma whole_seconds_nonneg: "0 \<le> d \<Longrightarrow> whole_seconds d = d div second"
  by (cases "d = 0") (auto simp: whole_seconds_def sgn_if)

subsection \<open>Replies of a handler\<close>

text \<open>A handler answers with a status code and a body, or a status code and an error text.\<close>

datatype 'a reply = Reply nat 'a | Fail nat string

fun status_code :: "'a reply \<Rightarrow> nat" where
  "status_code (Reply n _) = n"
| "status_code (Fail n _) = n"

text \<open>Which labelled database statements fail (connection loss, timeout) during a call.\<close>

type_synonym faults = "string \<Rightarrow> bool"

definition no_faults :: faults where
  "no_faults = (\<lambda>_. False)"

subsection \<open>Tables\<close>

type_synonym uuid = string

record base =
  ID :: uuid
  CreatedAt :: time
  UpdatedAt :: time
  DeletedAt :: "time option"

text \<open>
  Every query of a model with a \<open>gorm.DeletedAt\<close> field sees only rows that are not
  soft-deleted.  A table is the list of its rows in insertion order.
\<close>

definition live :: "'a base_scheme \<Rightarrow> bool" where
  "live r \<longleftrightarrow> DeletedAt r = None"

definition rows :: "('a base_scheme \<Rightarrow> bool) \<Rightarrow> 'a base_scheme list \<Rightarrow> 'a base_scheme list" where
  "rows P t = filter (\<lambda>r. live r \<and> P r) t"

definition first_row :: "('a base_scheme \<Rightarrow> bool) \<Rightarrow> 'a base_scheme list \<Rightarrow> 'a base_scheme option" where
  "first_row P t = List.find (\<lambda>r. live r \<and> P r) t"

definition update_rows ::
    "time \<Rightarrow> ('a base_scheme \<Rightarrow> bool) \<Rightarrow> ('a base_scheme \<Rightarrow> 'a base_scheme)
      \<Rightarrow> 'a base_scheme list \<Rightarrow> 'a base_scheme list" where
  "update_rows now P f t =
     map (\<lambda>r. if live r \<and> P r then (f r)\<lparr>UpdatedAt := now\<rparr> else r) t"

definition delete_rows ::
    "time \<Rightarrow> ('a base_scheme \<Rightarrow> bool) \<Rightarrow> 'a base_scheme list \<Rightarrow> 'a base_scheme list" where
  "delete_rows now P t = map (\<lambda>r. if live r \<and> P r then r\<lparr>DeletedAt := Some now\<rparr> else r) t"

definition affected :: "('a base_scheme \<Rightarrow> bool) \<Rightarrow> 'a base_scheme list \<Rightarrow> nat" where
  "affected P t = length (rows P t)"

text \<open>
  \<open>Create\<close> stamps the row and inserts it, unless its primary key is taken or
  \<open>clash\<close> (the table's unique indexes, as a relation between an old row and the new
  one) holds for a stored row.
\<close>

definition create_row ::
    "time \<Rightarrow> ('a base_scheme \<Rightarrow> 'a base_scheme \<Rightarrow> bool) \<Rightarrow> 'a base_scheme
      \<Rightarrow> 'a base_scheme list \<Rightarrow> 'a base_scheme list option" where
  "create_row now clash r t =
     (let r' = r\<lparr>CreatedAt := now, UpdatedAt := now, DeletedAt := None\<rparr> in
      if (\<exists>x\<in>set t. ID x = ID r' \<or> clash x r') then None else Some (t @ [r']))"

definition unique_ids :: "'a base_scheme list \<Rightarrow> bool" where
  "unique_ids t \<longleftrightarrow> distinct (map ID t)"

lemma first_row_SomeD:
  assumes "first_row P t = Some r"
  shows "r \<in> set t" and "live r" and "P r"
  using assms by (auto simp: first_row_def find_Some_iff)

lemma first_row_None_iff: "first_row P t = None \<longleftrightarrow> (\<forall>r\<in>set t. live r \<longrightarrow> \<not> P r)"
  by (auto simp: first_row_def find_None_iff)

lemma rows_iff [table_simps]: "r \<in> set (rows P t) \<longleftrightarrow> r \<in> set t \<and> live r \<and> P r"
  by (auto simp: rows_def)

lemma rows_Nil_iff: "rows P t = [] \<longleftrightarrow> (\<forall>r\<in>set t. live r \<longrightarrow> \<not> P r)"
  by (auto simp: rows_def filter_empty_conv)

lemma affected_0_iff [table_simps]: "affected P t = 0 \<longleftrightarrow> (\<forall>r\<in>set t. live r \<longrightarrow> \<not> P r)"
  by (simp add: affected_def rows_Nil_iff)

lemma affected_pos_iff: "0 < affected P t \<longleftrightarrow> (\<exists>r\<in>set t. live r \<and> P r)"
  using affected_0_iff [of P t] by auto

lemma update_rows_set [table_simps]:
  "set (update_rows now P f t) =
     (\<lambda>r. if live r \<and> P r then (f r)\<lparr>UpdatedAt := now\<rparr> else r) ` set t"
  by (auto simp: update_rows_def)

lemma delete_rows_set [table_simps]:
  "set (delete_rows now P t) =
     (\<lambda>r. if live r \<and> P r then r\<lparr>DeletedAt := Some now\<rparr> else r) ` set t"
  by (auto simp: delete_rows_def)

lemma create_row_SomeD:
  assumes "create_row now clash r t = Some t'"
  shows "t' = t @ [r\<lparr>CreatedAt := now, UpdatedAt := now, DeletedAt := None\<rparr>]"
    and "\<forall>x\<in>set t. ID x \<noteq> ID r"
    and "\<forall>x\<in>set t. \<not> clash x (r\<lparr>CreatedAt := now, UpdatedAt := now, DeletedAt := None\<rparr>)"
  using assms by (auto simp: create_row_def Let_def split: if_splits)

text \<open>Primary keys stay distinct under every statement that leaves the ids alone.\<close>

lemma unique_ids_Nil [simp]: "unique_ids []"
  by (simp add: unique_ids_def)

lemma unique_ids_update:
  assumes "unique_ids t" and "\<And>r. ID (f r) = ID r"
  shows "unique_ids (update_rows now P f t)"
proof -
  have "map ID (update_rows now P f t) = map ID t"
    using assms(2) by (auto simp: update_rows_def)
  then show ?thesis using assms(1) by (simp add: unique_ids_def)
qed

lemma unique_ids_delete: "unique_ids t \<Longrightarrow> unique_ids (delete_rows now P t)"
proof -
  have "map ID (delete_rows now P t) = map ID t" by (auto simp: delete_rows_def)
  then show "unique_ids t \<Longrightarrow> ?thesis" by (simp add: unique_ids_def)
qed

lemma unique_ids_create:
  "unique_ids t \<Longrightarrow> create_row now clash r t = Some t' \<Longrightarrow> unique_ids t'"
  using create_row_SomeD [of now clash r t t'] by (auto simp: unique_ids_def)

lemma unique_ids_eq:
  "unique_ids t \<Longrightarrow> x \<in> set t \<Longrightarrow> y \<in> set t \<Longrightarrow> ID x = ID y \<Longrightarrow> x = y"
  unfolding unique_ids_def by (metis distinct_map inj_onD)

lemma live_delete_rows:
  assumes "x \<in> set (delete_rows now P t)" and "live x"
  shows "x \<in> set t \<and> \<not> P x"
proof -
  obtain y where y: "y \<in> set t" "x = (if live y \<and> P y then y\<lparr>DeletedAt := Some now\<rparr> else y)"
    using assms(1) unfolding delete_rows_set by blast
  show ?thesis
  proof (cases "live y \<and> P y")
    case True
    then show ?thesis using y(2) assms(2) by (simp add: live_def)
  next
    case False
    then have "x = y" using y(2) by (simp only: if_False)
    then show ?thesis using y(1) False assms(2) by blast
  qed
qed

lemma first_row_delete: "(\<And>x. Q x \<Longrightarrow> P x) \<Longrightarrow> first_row Q (delete_rows now P t) = None"
  unfolding first_row_None_iff using live_delete_rows by blast

text \<open>An update that names one row by its key rewrites that row only.\<close>

lemma update_unique:
  assumes "unique_ids t" and "r \<in> set t" and "live r" and "P r" and "\<And>x. P x \<Longrightarrow> ID x = ID r"
  shows "update_rows now P f t = map (\<lambda>x. if x = r then (f r)\<lparr>UpdatedAt := now\<rparr> else x) t"
  unfolding update_rows_def
proof (rule map_cong [OF refl])
  fix x assume "x \<in> set t"
  then have "P x \<longleftrightarrow> x = r" using assms(2,4,5) unique_ids_eq [OF assms(1)] by blast
  then show "(if live x \<and> P x then (f x)\<lparr>UpdatedAt := now\<rparr> else x) = (if x = r then (f r)\<lparr>UpdatedAt := now\<rparr> else x)"
    using assms(3) by simp
qed

text \<open>
  A property of the live rows of a table is kept by an update when every updated row
  has it again.
\<close>

lemma update_rows_ball:
  assumes "\<forall>r\<in>set t. Q r"
    and "\<And>r. r \<in> set t \<Longrightarrow> live r \<Longrightarrow> P r \<Longrightarrow> Q r \<Longrightarrow> Q ((f r)\<lparr>UpdatedAt := now\<rparr>)"
  shows "\<forall>r\<in>set (update_rows now P f t). Q r"
  using assms by (auto simp: update_rows_set)

lemma create_row_ball:
  assumes "create_row now clash r t = Some t'" and "\<forall>x\<in>set t. Q x"
    and "Q (r\<lparr>CreatedAt := now, UpdatedAt := now, DeletedAt := None\<rparr>)"
  shows "\<forall>x\<in>set t'. Q x"
  using assms(2,3) create_row_SomeD(1) [OF assms(1)] by auto

end
