(* ===== verification/Paths.thy ===== *)
theory Paths
  imports Prelude "HOL-Library.Sublist"
begin

text \<open>
  Go's lexical path functions on Unix (\<open>path.Clean\<close>, \<open>filepath.Join\<close>, \<open>filepath.Rel\<close>,
  \<open>filepath.IsAbs\<close>) and the containment checks the program builds from them: the agent's
  \<open>LocalStorage.resolve\<close> (\<open>agent/internal/storage/local.go\<close>), the zip-slip guard of
  \<open>RestoreLocal\<close> and the storage-path check of \<open>BackupRunHandler.UpdateStatus\<close>.
  A cleaned path is a rooted mark and a list of components; the string checks are shown to
  be prefix tests on components.
\<close>

subsection \<open>Cleaning\<close>

definition sep :: char where "sep = CHR ''/''"

definition IsAbs :: "string \<Rightarrow> bool" where
  "IsAbs p \<longleftrightarrow> has_prefix [sep] p"

fun clean_comps :: "bool \<Rightarrow> string list \<Rightarrow> string list \<Rightarrow> string list" where
  "clean_comps rooted st [] = rev st"
| "clean_comps rooted st (c # cs) =
     (if c = '''' \<or> c = ''.'' then clean_comps rooted st cs
      else if c = ''..'' then
        (case st of
           [] \<Rightarrow> clean_comps rooted (if rooted then [] else [''..'']) cs
         | t # ts \<Rightarrow> if t = ''..'' then clean_comps rooted (''..'' # t # ts) cs
                     else clean_comps rooted ts cs)
      else clean_comps rooted (c # st) cs)"

definition comps :: "string \<Rightarrow> string list" where
  "comps p = clean_comps (IsAbs p) [] (split_on sep p)"

definition render :: "bool \<Rightarrow> string list \<Rightarrow> string" where
  "render rooted cs =
     (if rooted then sep # join_with [sep] cs
      else if cs = [] then ''.'' else join_with [sep] cs)"

definition Clean :: "string \<Rightarrow> string" where
  "Clean p = render (IsAbs p) (comps p)"

definition Join2 :: "string \<Rightarrow> string \<Rightarrow> string" where
  "Join2 a b =
     (if a = '''' then (if b = '''' then '''' else Clean b)
      else if b = '''' then Clean a else Clean (a @ [sep] @ b))"

text \<open>\<open>filepath.Rel\<close>: strip the common components, then climb out of what is left of the base.\<close>

fun strip_common :: "string list \<Rightarrow> string list \<Rightarrow> string list \<times> string list" where
  "strip_common (b # bs) (t # ts) = (if b = t then strip_common bs ts else (b # bs, t # ts))"
| "strip_common bs ts = (bs, ts)"

definition Rel :: "string \<Rightarrow> string \<Rightarrow> string option" where
  "Rel base targ =
     (if Clean targ = Clean base then Some ''.''
      else if IsAbs base \<noteq> IsAbs targ then None
      else let (b, t) = strip_common (comps base) (comps targ) in
        if b \<noteq> [] \<and> hd b = ''..'' then None
        else Some (join_with [sep] (map (\<lambda>_. ''..'') b @ t)))"

subsection \<open>Normal component lists\<close>

definition proper :: "string \<Rightarrow> bool" where
  "proper c \<longleftrightarrow> c \<noteq> '''' \<and> c \<noteq> ''.'' \<and> sep \<notin> set c"

definition normal :: "bool \<Rightarrow> string list \<Rightarrow> bool" where
  "normal rooted cs \<longleftrightarrow> (\<forall>c\<in>set cs. proper c) \<and>
     (\<exists>n ds. cs = replicate n ''..'' @ ds \<and> ''..'' \<notin> set ds \<and> (rooted \<longrightarrow> n = 0))"

lemma normal_no_sep: "normal r cs \<Longrightarrow> c \<in> set cs \<Longrightarrow> sep \<notin> set c"
  by (simp add: normal_def proper_def)

lemma normal_Nil [simp]: "normal r []"
  by (auto simp: normal_def)

lemma normal_snoc:
  assumes "normal r cs" and "proper c" and "c \<noteq> ''..''"
  shows "normal r (cs @ [c])"
proof -
  obtain n ds where "cs = replicate n ''..'' @ ds" "''..'' \<notin> set ds" "r \<longrightarrow> n = 0"
    using assms(1) by (auto simp: normal_def)
  then show ?thesis using assms unfolding normal_def
    by (intro conjI exI [of _ n] exI [of _ "ds @ [c]"]) auto
qed

lemma normal_up:
  assumes "normal False cs" and "cs = [] \<or> last cs = ''..''"
  shows "normal False (cs @ [''..''])"
proof -
  obtain n ds where n: "cs = replicate n ''..'' @ ds" "''..'' \<notin> set ds"
    using assms(1) by (auto simp: normal_def)
  have "ds = []" using n assms(2) by (cases ds rule: rev_cases) auto
  then have "cs @ [''..''] = replicate (Suc n) ''..'' @ []"
    using n by (simp add: replicate_append_same)
  moreover have "proper ''..''" by (simp add: proper_def sep_def)
  ultimately show ?thesis using assms(1) unfolding normal_def
    by (intro conjI exI [of _ "Suc n"] exI [of _ "[]"]) auto
qed

lemma normal_butlast:
  assumes "normal r (cs @ [c])"
  shows "normal r cs"
proof -
  obtain n ds where n: "cs @ [c] = replicate n ''..'' @ ds" "''..'' \<notin> set ds" "r \<longrightarrow> n = 0"
    using assms by (auto simp: normal_def)
  show ?thesis
  proof (cases ds rule: rev_cases)
    case Nil
    then have "cs = butlast (replicate n ''..'')" using n by (metis append_Nil2 butlast_snoc)
    then have "cs = replicate (n - 1) ''..'' @ []" by (simp add: butlast_conv_take)
    then show ?thesis using assms n(3) unfolding normal_def by fastforce
  next
    case (snoc es e)
    then have "cs = replicate n ''..'' @ es" using n by (metis append.assoc butlast_snoc)
    then show ?thesis using assms n snoc unfolding normal_def by fastforce
  qed
qed

lemma normal_last_up_unrooted:
  assumes "normal r cs" and "''..'' \<in> set cs"
  shows "\<not> r"
  using assms by (auto simp: normal_def)

lemma clean_comps_normal:
  assumes "normal r (rev st)" and "\<forall>c\<in>set cs. sep \<notin> set c"
  shows "normal r (clean_comps r st cs)"
  using assms
proof (induction cs arbitrary: st)
  case Nil
  then show ?case by simp
next
  case (Cons c cs)
  have sep: "\<forall>d\<in>set cs. sep \<notin> set d" "sep \<notin> set c" using Cons.prems by auto
  consider "c = '''' \<or> c = ''.''" | "c = ''..''" "st = []" | t ts where "c = ''..''" "st = t # ts"
    | "c \<noteq> ''''" "c \<noteq> ''.''" "c \<noteq> ''..''"
    by (cases st) auto
  then show ?case
  proof cases
    case 1
    then show ?thesis using Cons by auto
  next
    case 2
    then show ?thesis using Cons.IH [of "if r then [] else [''..'']"] sep normal_up [of "[]"] by simp
  next
    case 3
    show ?thesis
    proof (cases "t = ''..''")
      case True
      then have "\<not> r" using Cons.prems(1) 3 normal_last_up_unrooted [of r "rev st"] by simp
      then have "normal r (rev (''..'' # t # ts))"
        using normal_up [of "rev st"] Cons.prems(1) 3 True by simp
      then show ?thesis using Cons.IH 3 True sep by simp
    next
      case False
      then show ?thesis using Cons.IH [of ts] normal_butlast [of r "rev ts" t] Cons.prems 3 sep by simp
    qed
  next
    case 4
    then have "proper c" using sep by (simp add: proper_def)
    then show ?thesis using Cons.IH [of "c # st"] normal_snoc [of r "rev st" c] Cons.prems 4 sep by simp
  qed
qed

lemma comps_normal [simp]: "normal (IsAbs p) (comps p)"
  unfolding comps_def by (rule clean_comps_normal) (auto dest: split_on_no_sep)

subsection \<open>Rendering and parsing\<close>

lemma split_on_append: "split_on d (a @ d # b) = split_on d a @ split_on d b"
proof (induction a)
  case Nil
  then show ?case by simp
next
  case (Cons c a)
  obtain w ws where "split_on d a = w # ws" by (meson list.exhaust split_on_nonempty)
  then show ?case using Cons by simp
qed

lemma split_on_single: "d \<notin> set s \<Longrightarrow> split_on d s = [s]"
  by (induction s) auto

lemma split_join: "cs \<noteq> [] \<Longrightarrow> \<forall>c\<in>set cs. d \<notin> set c \<Longrightarrow> split_on d (join_with [d] cs) = cs"
  by (induction "[d]" cs rule: join_with.induct) (auto simp: split_on_single split_on_append)

lemma join_append:
  "as \<noteq> [] \<Longrightarrow> bs \<noteq> [] \<Longrightarrow> join_with d (as @ bs) = join_with d as @ d @ join_with d bs"
  by (induction d as rule: join_with.induct) (auto simp: neq_Nil_conv)

lemma join_Cons: "bs \<noteq> [] \<Longrightarrow> join_with d (a # bs) = a @ d @ join_with d bs"
  by (cases bs) auto

lemma clean_comps_id:
  "normal r (rev st @ cs) \<Longrightarrow> clean_comps r st cs = rev st @ cs"
proof (induction cs arbitrary: st)
  case Nil
  then show ?case by simp
next
  case (Cons c cs)
  have p: "proper c" using Cons.prems by (simp add: normal_def)
  show ?case
  proof (cases "c = ''..''")
    case False
    then show ?thesis using Cons.IH [of "c # st"] Cons.prems p by (simp add: proper_def)
  next
    case True
    obtain n ds where n: "rev st @ c # cs = replicate n ''..'' @ ds" "''..'' \<notin> set ds" "r \<longrightarrow> n = 0"
      using Cons.prems by (auto simp: normal_def)
    have len: "length st < n"
    proof (rule ccontr)
      assume ge: "\<not> length st < n"
      have "c = (replicate n ''..'' @ ds) ! length st"
        using n(1) by (metis length_rev nth_append_length)
      then have "c = ds ! (length st - n)" using ge by (simp add: nth_append)
      moreover have "length (rev st @ c # cs) = n + length ds" by (simp add: n(1))
      then have "length st - n < length ds" using ge by simp
      ultimately show False using n(2) True by (metis nth_mem)
    qed
    then have up: "\<not> r" using n(3) by auto
    have "t = ''..''" if "st = t # ts" for t ts
    proof -
      have "t \<in> set (take (length st) (rev st @ c # cs))" using that by simp
      also have "\<dots> = set (take (length st) (replicate n ''..'' @ ds))" using n(1) by simp
      finally show ?thesis using len by (auto simp: take_replicate)
    qed
    then show ?thesis
      using Cons.IH [of "c # st"] Cons.prems True up by (cases st) auto
  qed
qed

lemma render_abs: "normal r cs \<Longrightarrow> IsAbs (render r cs) = r"
proof -
  assume n: "normal r cs"
  have "\<not> has_prefix [sep] (join_with [sep] cs)" if "cs \<noteq> []"
  proof -
    obtain c cs' where cs: "cs = c # cs'" using \<open>cs \<noteq> []\<close> by (cases cs) auto
    then have "proper c" using n by (simp add: normal_def)
    then obtain x c' where "c = x # c'" "x \<noteq> sep" by (cases c) (auto simp: proper_def)
    then show ?thesis using cs by (cases cs') (auto simp: has_prefix_def)
  qed
  then show ?thesis by (auto simp: IsAbs_def render_def has_prefix_def sep_def)
qed

lemma comps_render: "normal r cs \<Longrightarrow> comps (render r cs) = cs"
proof -
  assume n: "normal r cs"
  have nosep: "\<forall>c\<in>set cs. sep \<notin> set c" using n by (simp add: normal_def proper_def)
  have id: "clean_comps r [] cs = cs" using clean_comps_id [of r "[]" cs] n by simp
  show ?thesis
  proof (cases "cs = []")
    case True
    then show ?thesis by (auto simp: comps_def render_def IsAbs_def has_prefix_def sep_def)
  next
    case False
    then have "clean_comps r [] (split_on sep (render r cs)) = clean_comps r [] cs"
      using split_join [OF False nosep] by (simp add: render_def)
    then show ?thesis using id render_abs [OF n] by (simp add: comps_def)
  qed
qed

lemma IsAbs_Clean [simp]: "IsAbs (Clean p) = IsAbs p"
  by (simp add: Clean_def render_abs)

lemma comps_Clean [simp]: "comps (Clean p) = comps p"
  by (simp add: Clean_def comps_render)

lemma Clean_Clean [simp]: "Clean (Clean p) = Clean p"
  by (simp add: Clean_def render_abs comps_render)

lemma Clean_eq_iff: "Clean a = Clean b \<longleftrightarrow> IsAbs a = IsAbs b \<and> comps a = comps b"
proof
  assume eq: "Clean a = Clean b"
  have "IsAbs (Clean a) = IsAbs (Clean b)" and "comps (Clean a) = comps (Clean b)"
    by (simp_all only: eq)
  then show "IsAbs a = IsAbs b \<and> comps a = comps b" by simp
next
  assume "IsAbs a = IsAbs b \<and> comps a = comps b"
  then show "Clean a = Clean b" by (simp only: Clean_def)
qed

text \<open>The string test \<open>base + "/"\<close> is a prefix of the path is a prefix test on components.\<close>

lemma below_iff:
  assumes "normal r bs" and "normal r ts" and "bs \<noteq> []"
  shows "has_prefix (render r bs @ [sep]) (render r ts) \<longleftrightarrow> (\<exists>x xs. ts = bs @ x # xs)"
proof
  have nosep: "\<forall>c\<in>set bs. sep \<notin> set c" "\<forall>c\<in>set ts. sep \<notin> set c"
    using assms by (simp_all add: normal_def proper_def)
  assume "has_prefix (render r bs @ [sep]) (render r ts)"
  then obtain rest where "render r ts = render r bs @ sep # rest"
    by (auto simp: has_prefix_iff)
  then have j: "ts \<noteq> [] \<and> join_with [sep] ts = join_with [sep] bs @ sep # rest"
  proof (cases "ts = []")
    case True
    then show ?thesis using \<open>render r ts = render r bs @ sep # rest\<close> assms(3)
      by (cases r; cases bs) (auto simp: render_def sep_def Cons_eq_append_conv)
  next
    case False
    then show ?thesis using \<open>render r ts = render r bs @ sep # rest\<close> assms(3)
      by (auto simp: render_def split: if_splits)
  qed
  then have "ts = split_on sep (join_with [sep] bs @ sep # rest)"
    using split_join [of ts sep] nosep(2) by auto
  also have "\<dots> = bs @ split_on sep rest"
    using split_join [OF assms(3) nosep(1)] by (simp add: split_on_append)
  finally show "\<exists>x xs. ts = bs @ x # xs" by (metis list.exhaust split_on_nonempty)
next
  assume "\<exists>x xs. ts = bs @ x # xs"
  then show "has_prefix (render r bs @ [sep]) (render r ts)"
    using assms(3) by (auto simp: render_def join_append has_prefix_iff)
qed

lemma below_string_iff:
  assumes "IsAbs p = IsAbs q" and "comps p \<noteq> []"
  shows "has_prefix (Clean p @ [sep]) (Clean q) \<or> Clean q = Clean p \<longleftrightarrow> prefix (comps p) (comps q)"
proof -
  have "has_prefix (Clean p @ [sep]) (Clean q) \<longleftrightarrow> (\<exists>x xs. comps q = comps p @ x # xs)"
  proof -
    have "normal (IsAbs q) (comps p)" by (simp only: assms(1) [symmetric] comps_normal)
    from below_iff [OF this comps_normal assms(2)] show ?thesis
      using assms(1) by (simp only: Clean_def)
  qed
  moreover have "Clean q = Clean p \<longleftrightarrow> comps q = comps p"
    using assms(1) by (auto simp: Clean_eq_iff)
  moreover have "prefix (comps p) (comps q) \<longleftrightarrow>
      (\<exists>x xs. comps q = comps p @ x # xs) \<or> comps q = comps p"
    unfolding prefix_def by (metis append_Nil2 list.exhaust)
  ultimately show ?thesis by blast
qed

subsection \<open>The checks of the program\<close>

definition isParentRef :: "string \<Rightarrow> bool" where
  "isParentRef rel \<longleftrightarrow> 3 \<le> length rel \<and> take 3 rel = ''..'' @ [sep]"

definition resolve_target :: "string \<Rightarrow> string \<Rightarrow> string" where
  "resolve_target root key = (if IsAbs key then Clean key else Join2 root (Clean key))"

definition resolve :: "string \<Rightarrow> string \<Rightarrow> string + string" where
  "resolve root key =
     (if IsAbs key then
        let clean = Clean key in
        case Rel root clean of
          None \<Rightarrow> Inl (''storage path escapes root: '' @ key)
        | Some rel \<Rightarrow> if rel = ''..'' \<or> isParentRef rel
                      then Inl (''storage path escapes root: '' @ key) else Inr clean
      else
        let dest = Join2 root (Clean key) in
        case Rel root dest of
          None \<Rightarrow> Inl (''storage key escapes root: '' @ key)
        | Some rel \<Rightarrow> if rel = ''..'' \<or> isParentRef rel
                      then Inl (''storage key escapes root: '' @ key) else Inr dest)"

text \<open>The zip-slip guard of \<open>RestoreLocal\<close> and the check of a reported storage path.\<close>

definition escapes_dest :: "string \<Rightarrow> string \<Rightarrow> bool" where
  "escapes_dest destDir name \<longleftrightarrow>
     (let target = Join2 destDir name in
      \<not> has_prefix (Clean destDir @ [sep]) (Clean target) \<and> Clean target \<noteq> Clean destDir)"

definition storage_path_ok :: "string \<Rightarrow> string \<Rightarrow> bool" where
  "storage_path_ok base p \<longleftrightarrow> has_prefix (Clean base @ [sep]) (Clean p) \<or> Clean p = Clean base"

text \<open>\<open>inside base p\<close>: the path lies at or below the base, without climbing.\<close>

definition inside :: "string \<Rightarrow> string \<Rightarrow> bool" where
  "inside base p \<longleftrightarrow> IsAbs p = IsAbs base \<and>
     take (length (comps base)) (comps p) = comps base \<and>
     ''..'' \<notin> set (drop (length (comps base)) (comps p))"

lemma inside_iff:
  "inside base p \<longleftrightarrow> IsAbs p = IsAbs base \<and> (\<exists>rest. comps p = comps base @ rest \<and> ''..'' \<notin> set rest)"
  unfolding inside_def by (metis append_eq_conv_conj)

lemma IsAbs_append: "a \<noteq> '''' \<Longrightarrow> IsAbs (a @ b) = IsAbs a"
  by (cases a) (auto simp: IsAbs_def has_prefix_def)

lemma Clean_nonempty [simp]: "Clean p \<noteq> ''''"
proof (cases "comps p")
  case Nil
  then show ?thesis by (simp add: Clean_def render_def)
next
  case (Cons c cs)
  then have "c \<noteq> ''''" using comps_normal [of p] by (simp add: normal_def proper_def)
  then show ?thesis using Cons by (cases cs) (auto simp: Clean_def render_def)
qed

lemma IsAbs_Join2: "a \<noteq> '''' \<Longrightarrow> IsAbs (Join2 a b) = IsAbs a"
  using IsAbs_append [of a "[sep] @ b"] by (simp add: Join2_def)

lemma Clean_Join2: "a \<noteq> '''' \<Longrightarrow> Clean (Join2 a b) = Join2 a b"
  by (simp add: Join2_def)

lemma strip_common_spec:
  "strip_common bs ts = (b, t) \<Longrightarrow>
     \<exists>c. bs = c @ b \<and> ts = c @ t \<and> (b = [] \<or> t = [] \<or> hd b \<noteq> hd t)"
proof (induction bs ts rule: strip_common.induct)
  case (1 x bs y ts)
  show ?case
  proof (cases "x = y")
    case True
    then obtain c where "bs = c @ b" "ts = c @ t" "b = [] \<or> t = [] \<or> hd b \<noteq> hd t"
      using 1 by auto
    then show ?thesis using True by (intro exI [of _ "x # c"]) simp
  next
    case False
    then show ?thesis using 1 by auto
  qed
qed auto

lemma parent_ref_iff:
  assumes "cs \<noteq> []" and "\<forall>c\<in>set cs. sep \<notin> set c"
  shows "join_with [sep] cs = ''..'' \<or> isParentRef (join_with [sep] cs) \<longleftrightarrow> hd cs = ''..''"
proof
  assume "join_with [sep] cs = ''..'' \<or> isParentRef (join_with [sep] cs)"
  then have "\<exists>y. split_on sep (join_with [sep] cs) = ''..'' # y"
  proof
    assume "join_with [sep] cs = ''..''"
    then show ?thesis by (simp add: sep_def)
  next
    assume "isParentRef (join_with [sep] cs)"
    then obtain y where "join_with [sep] cs = ''..'' @ sep # y"
      unfolding isParentRef_def by (metis append_Cons append_assoc append_take_drop_id self_append_conv2)
    then show ?thesis by (simp add: split_on_append) (simp add: sep_def)
  qed
  then show "hd cs = ''..''" using split_join [OF assms] by auto
next
  assume "hd cs = ''..''"
  then obtain ds where "cs = ''..'' # ds" using assms(1) by (cases cs) auto
  then show "join_with [sep] cs = ''..'' \<or> isParentRef (join_with [sep] cs)"
    by (cases ds) (simp_all add: isParentRef_def)
qed

lemma normal_tail_climbs:
  assumes "normal r (cs @ t)" and "''..'' \<in> set t"
  shows "hd t = ''..''"
proof -
  obtain n ds where n: "cs @ t = replicate n ''..'' @ ds" "''..'' \<notin> set ds"
    using assms(1) by (auto simp: normal_def)
  have "length cs < n"
  proof (rule ccontr)
    assume ge: "\<not> length cs < n"
    then have "t = drop (length cs - n) ds"
      using arg_cong [OF n(1), of "drop (length cs)"] by simp
    then show False using assms(2) n(2) by (auto dest: in_set_dropD)
  qed
  moreover have "t \<noteq> []" using assms(2) by auto
  ultimately show ?thesis using arg_cong [OF n(1), of "\<lambda>l. l ! length cs"]
    by (simp add: nth_append hd_conv_nth)
qed

lemma Rel_inside:
  assumes "Clean p = p"
  shows "(\<exists>rel. Rel root p = Some rel \<and> rel \<noteq> ''..'' \<and> \<not> isParentRef rel) \<longleftrightarrow> inside root p"
proof (cases "Clean p = Clean root")
  case True
  then have "IsAbs p = IsAbs root" "comps p = comps root" by (simp_all add: Clean_eq_iff)
  then have "inside root p" by (simp add: inside_iff)
  moreover have "Rel root p = Some ''.''" using True by (simp add: Rel_def)
  ultimately show ?thesis by (auto simp: isParentRef_def)
next
  case False
  show ?thesis
  proof (cases "IsAbs root = IsAbs p")
    case diff: False
    then show ?thesis using False by (simp add: Rel_def inside_iff)
  next
    case same: True
    obtain b t where bt: "strip_common (comps root) (comps p) = (b, t)" by fastforce
    obtain c where c: "comps root = c @ b" "comps p = c @ t" "b = [] \<or> t = [] \<or> hd b \<noteq> hd t"
      using strip_common_spec [OF bt] by blast
    let ?l = "map (\<lambda>_. ''..'') b @ t"
    have ne: "?l \<noteq> []" using False same c by (auto simp: Clean_eq_iff)
    have nosep: "\<forall>x\<in>set ?l. sep \<notin> set x"
    proof
      fix x assume "x \<in> set ?l"
      then consider "x = ''..''" | "x \<in> set (comps p)" using c(2) by auto
      then show "sep \<notin> set x" by cases (simp_all add: sep_def normal_no_sep [OF comps_normal, unfolded sep_def])
    qed
    have rel: "(\<exists>rel. Rel root p = Some rel \<and> rel \<noteq> ''..'' \<and> \<not> isParentRef rel) \<longleftrightarrow>
        \<not> (b \<noteq> [] \<and> hd b = ''..'') \<and> hd ?l \<noteq> ''..''"
      using parent_ref_iff [OF ne nosep] same False bt by (auto simp: Rel_def)
    show ?thesis
    proof (cases "b = []")
      case True
      then have "inside root p \<longleftrightarrow> ''..'' \<notin> set t" using c same by (simp add: inside_iff)
      also have "\<dots> \<longleftrightarrow> hd t \<noteq> ''..''"
      proof
        assume "''..'' \<notin> set t"
        then show "hd t \<noteq> ''..''" using ne True hd_in_set [of t] by force
      next
        have "normal (IsAbs p) (c @ t)" using comps_normal [of p] c(2) by simp
        then show "hd t \<noteq> ''..'' \<Longrightarrow> ''..'' \<notin> set t" using normal_tail_climbs by blast
      qed
      finally show ?thesis unfolding rel using True by simp
    next
      case nb: False
      then have "\<not> inside root p"
        using c by (cases t; cases b) (auto simp: inside_iff)
      moreover have "hd ?l = ''..''" using nb by (cases b) auto
      ultimately show ?thesis unfolding rel by simp
    qed
  qed
qed

lemma resolve_iff:
  "root \<noteq> '''' \<Longrightarrow> resolve root key = Inr p \<longleftrightarrow>
     p = resolve_target root key \<and> inside root (resolve_target root key)"
  using Rel_inside [of "resolve_target root key" root]
  by (auto simp: resolve_def resolve_target_def Let_def Clean_Join2 split: option.splits if_splits)

lemma below_abs: "has_prefix (Clean p @ [sep]) (Clean q) \<Longrightarrow> IsAbs p = IsAbs q"
proof -
  assume "has_prefix (Clean p @ [sep]) (Clean q)"
  then obtain t where "Clean q = Clean p @ (sep # t)" by (auto simp: has_prefix_iff)
  then have "IsAbs (Clean q) = IsAbs (Clean p)"
    using IsAbs_append [of "Clean p" "sep # t"] by simp
  then show "IsAbs p = IsAbs q" by simp
qed

text \<open>C12. \<open>LocalStorage.resolve\<close> is exact: for a configured root it returns a path precisely when
  the cleaned target of the key lies at or below the root, and then it returns that target;
  every key that would climb out is refused, absolute or relative.\<close>

theorem resolve_contained:
  assumes "root \<noteq> ''''"
  shows "resolve root key = Inr p \<longleftrightarrow> p = resolve_target root key \<and> inside root p"
  by (auto simp: resolve_iff [OF assms])


theorem resolve_contained_witness:
  "resolve ''/data'' ''orgs/../x'' = Inr ''/data/x'' \<and> resolve ''/data'' ''../etc'' \<noteq> Inr ''/etc''"
proof
  have i: "inside ''/data'' ''/data/x''" and t: "''/data/x'' = resolve_target ''/data'' ''orgs/../x''"
    by code_simp+
  show "resolve ''/data'' ''orgs/../x'' = Inr ''/data/x''"
    by (rule resolve_contained [THEN iffD2, OF _ conjI [OF t i]]) simp
  have "\<not> inside ''/data'' ''/etc''" by code_simp
  then show "resolve ''/data'' ''../etc'' \<noteq> Inr ''/etc''"
    using resolve_contained [of "''/data''" "''../etc''" "''/etc''"] by blast
qed

lemma storage_path_ok_iff:
  assumes "comps base \<noteq> []"
  shows "storage_path_ok base p \<longleftrightarrow> IsAbs p = IsAbs base \<and> prefix (comps base) (comps p)"
proof (cases "IsAbs base = IsAbs p")
  case True
  show ?thesis using below_string_iff [OF True assms] True by (simp add: storage_path_ok_def)
next
  case False
  then have "\<not> has_prefix (Clean base @ [sep]) (Clean p)" using below_abs by blast
  then show ?thesis using False by (auto simp: storage_path_ok_def Clean_eq_iff)
qed

lemma normal_rooted_no_up: "normal True cs \<Longrightarrow> ''..'' \<notin> set cs"
  by (auto simp: normal_def)

lemma abs_inside_iff: "IsAbs base \<Longrightarrow> inside base p \<longleftrightarrow> IsAbs p \<and> prefix (comps base) (comps p)"
proof -
  assume base: "IsAbs base"
  have "''..'' \<notin> set rest" if "IsAbs p" "comps p = comps base @ rest" for rest
    using normal_rooted_no_up [of "comps p"] comps_normal [of p] that by simp
  then show ?thesis using base by (auto simp: inside_iff prefix_def)
qed

lemma storage_path_ok_inside:
  "IsAbs base \<Longrightarrow> comps base \<noteq> [] \<Longrightarrow> storage_path_ok base p \<longleftrightarrow> inside base p"
  by (auto simp: storage_path_ok_iff abs_inside_iff)

lemma storage_path_ok_root:
  assumes "comps base = []" and "IsAbs base"
  shows "storage_path_ok base p \<longleftrightarrow> Clean p = ''/''"
proof -
  have b: "Clean base = [sep]" using assms by (simp add: Clean_def render_def)
  have "\<not> has_prefix [sep, sep] (Clean p)"
  proof
    assume h: "has_prefix [sep, sep] (Clean p)"
    then have "IsAbs (Clean p)" by (auto simp: IsAbs_def has_prefix_iff)
    then have "IsAbs p" by simp
    then have r: "Clean p = sep # join_with [sep] (comps p)" by (simp add: Clean_def render_def)
    then obtain c cs where c: "comps p = c # cs" using h by (cases "comps p") (auto simp: has_prefix_def)
    then obtain x c' where "c = x # c'" "x \<noteq> sep"
      using comps_normal [of p] by (cases c) (auto simp: normal_def proper_def)
    then show False using h r c by (cases cs) (auto simp: has_prefix_def)
  qed
  then show ?thesis using b by (simp add: storage_path_ok_def sep_def)
qed

lemma escapes_dest_ok: "escapes_dest d n \<longleftrightarrow> \<not> storage_path_ok d (Join2 d n)"
  by (auto simp: escapes_dest_def storage_path_ok_def Let_def)

end
