(* ===== verification/Files.thy ===== *)
theory Files
  imports Paths
begin

text \<open>
  The operating system's files, as the agent's storage and restore code uses them: regular files with
  their contents and directories, both named by their component lists (so two spellings of a path name
  one file).  The operations are those of Go's \<open>os\<close> package, with the errors they raise on a
  tree of plain files and directories; other failures (disk full, permissions) are raised by the
  callers' \<open>io\<close> parameter.  Symbolic links in the file system are not modelled.
\<close>

type_synonym path = "string list"

record files =
  fs_files :: "(path \<times> string) list"
  fs_dirs :: "path list"

definition no_files :: files where
  "no_files = \<lparr>fs_files = [], fs_dirs = []\<rparr>"

definition file_at :: "files \<Rightarrow> path \<Rightarrow> string option" where
  "file_at fs p = map_of (fs_files fs) p"

definition is_dir :: "files \<Rightarrow> path \<Rightarrow> bool" where
  "is_dir fs p \<longleftrightarrow> p = [] \<or> p \<in> set (fs_dirs fs)"

text \<open>The directories on the way to \<open>p\<close>, \<open>p\<close> included.\<close>

definition upto_path :: "path \<Rightarrow> path list" where
  "upto_path p = map (\<lambda>n. take n p) [1..<Suc (length p)]"

text \<open>\<open>os.MkdirAll\<close>: fails when a file is in the way.\<close>

definition mkdir_all :: "path \<Rightarrow> files \<Rightarrow> files option" where
  "mkdir_all p fs =
     (if list_ex (\<lambda>q. file_at fs q \<noteq> None) (upto_path p) then None
      else Some (fs\<lparr>fs_dirs := fs_dirs fs @ filter (\<lambda>q. q \<notin> set (fs_dirs fs)) (upto_path p)\<rparr>))"

definition set_file :: "path \<Rightarrow> string \<Rightarrow> files \<Rightarrow> files" where
  "set_file p x fs = fs\<lparr>fs_files := (p, x) # filter (\<lambda>e. fst e \<noteq> p) (fs_files fs)\<rparr>"

definition drop_file :: "path \<Rightarrow> files \<Rightarrow> files" where
  "drop_file p fs = fs\<lparr>fs_files := filter (\<lambda>e. fst e \<noteq> p) (fs_files fs)\<rparr>"

text \<open>\<open>os.Create\<close>: truncates or creates; the parent must be a directory and the path must not be one.\<close>

definition create_file :: "path \<Rightarrow> files \<Rightarrow> files option" where
  "create_file p fs = (if is_dir fs p \<or> \<not> is_dir fs (butlast p) then None else Some (set_file p '''' fs))"

text \<open>\<open>os.Remove\<close>: \<open>Inr\<close> when something was removed, \<open>Inl True\<close> for \<open>os.IsNotExist\<close>, \<open>Inl False\<close> otherwise
  (a directory that is not empty, a file on the way).\<close>

definition children :: "files \<Rightarrow> path \<Rightarrow> bool" where
  "children fs p \<longleftrightarrow> list_ex (\<lambda>q. q \<noteq> p \<and> take (length p) q = p) (map fst (fs_files fs) @ fs_dirs fs)"

definition remove_path :: "path \<Rightarrow> files \<Rightarrow> bool + files" where
  "remove_path p fs =
     (if file_at fs p \<noteq> None then Inr (drop_file p fs)
      else if list_ex (\<lambda>q. file_at fs q \<noteq> None) (upto_path (butlast p)) then Inl False
      else if \<not> is_dir fs p then Inl True
      else if p = [] \<or> children fs p then Inl False
      else Inr (fs\<lparr>fs_dirs := filter (\<lambda>q. q \<noteq> p) (fs_dirs fs)\<rparr>))"

subsection \<open>Laws\<close>

lemma map_of_filter_ne: "map_of (filter (\<lambda>e. fst e \<noteq> p) xs) q = (if q = p then None else map_of xs q)"
  by (induction xs) auto

lemma file_at_set [simp]: "file_at (set_file p x fs) q = (if q = p then Some x else file_at fs q)"
  by (simp add: file_at_def set_file_def map_of_filter_ne)

lemma file_at_drop [simp]: "file_at (drop_file p fs) q = (if q = p then None else file_at fs q)"
  by (simp add: file_at_def drop_file_def map_of_filter_ne)

lemma mkdir_all_SomeD:
  assumes "mkdir_all p fs = Some fs'"
  shows "fs' = fs\<lparr>fs_dirs := fs_dirs fs @ filter (\<lambda>q. q \<notin> set (fs_dirs fs)) (upto_path p)\<rparr>"
    and "q \<in> set (upto_path p) \<Longrightarrow> file_at fs q = None"
proof -
  have free: "\<not> list_ex (\<lambda>q. file_at fs q \<noteq> None) (upto_path p)"
    using assms unfolding mkdir_all_def by (rule contrapos_pn) (simp only: if_True option.distinct not_False_eq_True)
  then show "fs' = fs\<lparr>fs_dirs := fs_dirs fs @ filter (\<lambda>q. q \<notin> set (fs_dirs fs)) (upto_path p)\<rparr>"
    using assms by (simp only: mkdir_all_def if_False option.inject)
  show "q \<in> set (upto_path p) \<Longrightarrow> file_at fs q = None"
    using free unfolding list_ex_iff by blast
qed

lemma mkdir_all_files [simp]: "mkdir_all p fs = Some fs' \<Longrightarrow> file_at fs' q = file_at fs q"
  by (drule mkdir_all_SomeD(1)) (simp add: file_at_def)

lemma create_file_SomeD: "create_file p fs = Some fs' \<Longrightarrow> fs' = set_file p '''' fs"
  by (simp add: create_file_def split: if_splits)

lemma remove_path_files: "remove_path p fs = Inr fs' \<Longrightarrow> file_at fs' q = (if q = p then None else file_at fs q)"
  by (auto simp: remove_path_def file_at_def drop_file_def map_of_filter_ne split: if_splits)

lemma remove_path_missing: "remove_path p fs = Inl True \<Longrightarrow> file_at fs p = None"
  by (simp add: remove_path_def split: if_splits)

text \<open>A tree is sound when no path is both a file and a directory and every ancestor is a directory.\<close>

definition files_ok :: "files \<Rightarrow> bool" where
  "files_ok fs \<longleftrightarrow> (\<forall>p. file_at fs p \<noteq> None \<longrightarrow> \<not> is_dir fs p \<and> is_dir fs (butlast p)) \<and>
     (\<forall>p\<in>set (fs_dirs fs). is_dir fs (butlast p))"

lemma files_ok_empty: "files_ok no_files"
  by (simp add: files_ok_def no_files_def file_at_def)

lemma is_dir_set [simp]: "is_dir (set_file p x fs) q = is_dir fs q" "is_dir (drop_file p fs) q = is_dir fs q"
  by (simp_all add: is_dir_def set_file_def drop_file_def)

lemma dirs_set [simp]: "fs_dirs (set_file p x fs) = fs_dirs fs" "fs_dirs (drop_file p fs) = fs_dirs fs"
  by (simp_all add: set_file_def drop_file_def)

lemma files_ok_set: "files_ok fs \<Longrightarrow> \<not> is_dir fs p \<Longrightarrow> is_dir fs (butlast p) \<Longrightarrow> files_ok (set_file p x fs)"
  by (simp add: files_ok_def)

lemma files_ok_drop: "files_ok fs \<Longrightarrow> files_ok (drop_file p fs)"
  by (simp add: files_ok_def)

lemma mkdir_all_dirs:
  assumes "mkdir_all p fs = Some fs'"
  shows "is_dir fs' q \<longleftrightarrow> is_dir fs q \<or> q \<in> set (upto_path p)"
  unfolding mkdir_all_SomeD(1) [OF assms] by (auto simp: is_dir_def)

lemma upto_path_iff: "q \<in> set (upto_path p) \<longleftrightarrow> q \<noteq> [] \<and> (\<exists>r. p = q @ r)"
proof
  assume "q \<in> set (upto_path p)"
  then obtain n where n: "1 \<le> n" "n \<le> length p" "q = take n p" by (auto simp: upto_path_def)
  then have "length q = n" by simp
  then have "q \<noteq> []" using n(1) by (cases q) simp_all
  moreover have "p = q @ drop n p" using n(3) by simp
  ultimately show "q \<noteq> [] \<and> (\<exists>r. p = q @ r)" by blast
next
  assume "q \<noteq> [] \<and> (\<exists>r. p = q @ r)"
  then obtain r where r: "p = q @ r" "1 \<le> length q" by (cases q) auto
  then have "take (length q) p = q" "length q < Suc (length p)" by simp_all
  then show "q \<in> set (upto_path p)"
    unfolding upto_path_def set_map using r(2) by (intro image_eqI [of _ _ "length q"]) (simp_all del: upt_Suc)
qed

lemma mkdir_all_ok:
  assumes "files_ok fs" and m: "mkdir_all p fs = Some fs'"
  shows "files_ok fs'"
proof -
  note free = mkdir_all_SomeD(2) [OF m]
  have up: "is_dir fs' (butlast q)" if "q \<in> set (upto_path p)" for q
  proof (cases "butlast q = []")
    case False
    obtain r where r: "p = q @ r" "q \<noteq> []" using \<open>q \<in> set (upto_path p)\<close> by (auto simp: upto_path_iff)
    then have "p = butlast q @ ([last q] @ r)" by simp
    then have "butlast q \<in> set (upto_path p)" using False unfolding upto_path_iff by blast
    then show ?thesis unfolding mkdir_all_dirs [OF m] by blast
  qed (simp add: is_dir_def)
  have dirs: "q \<in> set (fs_dirs fs) \<or> q \<in> set (upto_path p)" if "q \<in> set (fs_dirs fs')" for q
    using that unfolding mkdir_all_SomeD(1) [OF m] by auto
  have files: "\<not> is_dir fs' q \<and> is_dir fs' (butlast q)" if "file_at fs q \<noteq> None" for q
  proof -
    have "\<not> is_dir fs q" "is_dir fs (butlast q)" using assms(1) that unfolding files_ok_def by blast+
    moreover have "q \<notin> set (upto_path p)" using free [of q] that by (rule contrapos_nn [rotated])
    ultimately show ?thesis unfolding mkdir_all_dirs [OF m] by simp
  qed
  have "is_dir fs' (butlast q)" if "q \<in> set (fs_dirs fs')" for q
    using dirs [OF that] up assms(1) unfolding files_ok_def mkdir_all_dirs [OF m] by blast
  then show ?thesis unfolding files_ok_def mkdir_all_files [OF m] using files by blast
qed

end
