(* ===== verification/Objects.thy ===== *)
theory Objects
  imports Files
begin

text \<open>
  Where finished payloads live: \<open>agent/internal/storage\<close>.  The provider interface of
  \<open>storage.go\<close> is a record of operations over a provider state; \<open>local_storage\<close> is
  \<open>LocalStorage\<close> of \<open>local.go\<close> over the files of \<^theory_text>\<open>Files\<close>, and the S3 provider, whose
  client is not part of the repository, is any other value of the record.

  \<open>sha\<close> is the hex SHA-256 of a byte string and \<open>io\<close> says which file-system calls fail beyond the
  errors of \<open>Files\<close>.  \<open>dsz\<close> is the size \<open>stat\<close> reports for a directory.
\<close>

subsection \<open>The provider interface\<close>

record object_info =
  oi_Key :: string
  oi_Size :: int
  oi_ETag :: string
  oi_ChecksumSHA256 :: string
  oi_Location :: string
  oi_Metadata :: "string \<Rightarrow> string option"

record put_options =
  po_ContentType :: string
  po_Metadata :: "(string \<times> string) list"

record 's provider =
  pr_Put :: "string \<Rightarrow> string \<Rightarrow> int \<Rightarrow> put_options \<Rightarrow> 's \<Rightarrow> 's \<times> (string + object_info)"
  pr_Get :: "string \<Rightarrow> 's \<Rightarrow> string + (string \<times> object_info)"
  pr_Delete :: "string \<Rightarrow> 's \<Rightarrow> 's \<times> (string + unit)"
  pr_Head :: "string \<Rightarrow> 's \<Rightarrow> string + object_info"

definition MetaChecksumSHA256 :: string where "MetaChecksumSHA256 = ''vaultguard-checksum-sha256''"
definition MetaRunID :: string where "MetaRunID = ''vaultguard-run-id''"
definition MetaArtifactName :: string where "MetaArtifactName = ''vaultguard-artifact-name''"
definition MetaVersion :: string where "MetaVersion = ''vaultguard-format-version''"
definition FormatVersion :: string where "FormatVersion = ''1''"

text \<open>\<open>path.Join\<close> skips empty elements and cleans the rest.\<close>

definition path_Join :: "string list \<Rightarrow> string" where
  "path_Join es = (let ne = filter (\<lambda>e. e \<noteq> '''') es in if ne = [] then '''' else Clean (join_with [sep] ne))"

definition BuildKey :: "string \<Rightarrow> string \<Rightarrow> string \<Rightarrow> string \<Rightarrow> string" where
  "BuildKey orgID jobID runID filename = path_Join [''orgs'', orgID, ''jobs'', jobID, ''runs'', runID, filename]"

text \<open>\<open>[^a-zA-Z0-9._-]+\<close> replaced by one underscore.\<close>

definition safe_char :: "char \<Rightarrow> bool" where
  "safe_char c \<longleftrightarrow> (let n = (of_char c :: nat) in
     97 \<le> n \<and> n \<le> 122 \<or> 65 \<le> n \<and> n \<le> 90 \<or> 48 \<le> n \<and> n \<le> 57) \<or> c \<in> {CHR ''.'', CHR ''_'', CHR ''-''}"

fun replace_unsafe :: "bool \<Rightarrow> string \<Rightarrow> string" where
  "replace_unsafe _ [] = []"
| "replace_unsafe in_run (c # cs) =
     (if safe_char c then c # replace_unsafe False cs
      else if in_run then replace_unsafe True cs else CHR ''_'' # replace_unsafe True cs)"

definition known_extensions :: "string list" where
  "known_extensions = [''.tar.gz'', ''.sql.gz'', ''.sql'', ''.bak'', ''.archive.gz'', ''.json.gz'', ''.json'',
     ''.csv.gz'', ''.csv'', ''.vgm'']"

definition ArtifactFilename :: "string \<Rightarrow> string \<Rightarrow> string \<Rightarrow> string" where
  "ArtifactFilename jobName runID archivePath =
     (let base0 = to_lower (replace_unsafe False jobName);
          base = (if base0 = '''' then ''backup'' else base0);
          probe = trim_suffix ''.enc'' archivePath;
          ext0 = (case List.find (\<lambda>x. has_suffix x probe) known_extensions of None \<Rightarrow> ''.tar'' | Some x \<Rightarrow> x);
          ext = (if has_suffix ''.enc'' archivePath then ext0 @ ''.enc'' else ext0)
      in base @ ''_'' @ runID @ ext)"

definition ContentTypeForName :: "string \<Rightarrow> string" where
  "ContentTypeForName name =
     (let l = to_lower name in
      if has_suffix ''.tar.gz'' l \<or> has_suffix ''.gz'' l then ''application/gzip''
      else if has_suffix ''.tar'' l then ''application/x-tar''
      else if has_suffix ''.sql'' l then ''application/sql''
      else if has_suffix ''.json'' l then ''application/json''
      else if has_suffix ''.csv'' l then ''text/csv''
      else ''application/octet-stream'')"

subsection \<open>Local storage\<close>

definition NewLocalStorage :: "(string \<Rightarrow> bool) \<Rightarrow> string \<Rightarrow> files \<Rightarrow> files \<times> (string + string)" where
  "NewLocalStorage io root fs =
     (if root = '''' then (fs, Inl ''LOCAL storage target has no path configured'')
      else (case (if io ''mkdir root'' then None else mkdir_all (comps root) fs) of
        None \<Rightarrow> (fs, Inl ''create storage dir'')
      | Some fs1 \<Rightarrow> (fs1, Inr root)))"

definition put_metadata :: "string \<Rightarrow> put_options \<Rightarrow> string \<Rightarrow> string option" where
  "put_metadata digest opts =
     map_of (rev (po_Metadata opts) @ [(MetaChecksumSHA256, digest), (MetaVersion, FormatVersion)])"

text \<open>A failed copy or close removes the file it had created; what it held before is gone by then.\<close>

definition local_put ::
    "(string \<Rightarrow> bool) \<Rightarrow> (string \<Rightarrow> string) \<Rightarrow> string \<Rightarrow> string \<Rightarrow> string \<Rightarrow> int \<Rightarrow> put_options \<Rightarrow> files
      \<Rightarrow> files \<times> (string + object_info)" where
  "local_put io sha root key data sz opts fs =
     (if io ''ctx'' then (fs, Inl ''context canceled'')
      else (case resolve root key of
        Inl msg \<Rightarrow> (fs, Inl msg)
      | Inr dest \<Rightarrow>
          (case (if io ''mkdir'' then None else mkdir_all (butlast (comps dest)) fs) of
             None \<Rightarrow> (fs, Inl ''create storage dir'')
           | Some fs1 \<Rightarrow>
               (case (if io ''create'' then None else create_file (comps dest) fs1) of
                  None \<Rightarrow> (fs1, Inl ''create'')
                | Some fs2 \<Rightarrow>
                    if io ''copy'' \<or> io ''close'' then (drop_file (comps dest) fs2, Inl ''write'')
                    else (set_file (comps dest) data fs2,
                          Inr \<lparr>oi_Key = key, oi_Size = int (length data), oi_ETag = '''',
                               oi_ChecksumSHA256 = sha data, oi_Location = dest,
                               oi_Metadata = put_metadata (sha data) opts\<rparr>)))))"

definition plain_info :: "string \<Rightarrow> int \<Rightarrow> string \<Rightarrow> object_info" where
  "plain_info key sz dest = \<lparr>oi_Key = key, oi_Size = sz, oi_ETag = '''', oi_ChecksumSHA256 = '''',
     oi_Location = dest, oi_Metadata = Map.empty\<rparr>"

text \<open>Opening a directory succeeds but reading it fails; both count as failing here.\<close>

definition local_get :: "(string \<Rightarrow> bool) \<Rightarrow> string \<Rightarrow> string \<Rightarrow> files \<Rightarrow> string + (string \<times> object_info)" where
  "local_get io root key fs =
     (case resolve root key of
        Inl msg \<Rightarrow> Inl msg
      | Inr dest \<Rightarrow>
          (case (if io ''open'' then None else file_at fs (comps dest)) of
             None \<Rightarrow> Inl ''open''
           | Some x \<Rightarrow> Inr (x, plain_info key (int (length x)) dest)))"

definition local_delete :: "(string \<Rightarrow> bool) \<Rightarrow> string \<Rightarrow> string \<Rightarrow> files \<Rightarrow> files \<times> (string + unit)" where
  "local_delete io root key fs =
     (case resolve root key of
        Inl msg \<Rightarrow> (fs, Inl msg)
      | Inr dest \<Rightarrow>
          if io ''remove'' then (fs, Inl ''remove'')
          else (case remove_path (comps dest) fs of
            Inr fs1 \<Rightarrow> (fs1, Inr ())
          | Inl missing \<Rightarrow> (fs, if missing then Inr () else Inl ''remove'')))"

definition local_head :: "(string \<Rightarrow> bool) \<Rightarrow> int \<Rightarrow> string \<Rightarrow> string \<Rightarrow> files \<Rightarrow> string + object_info" where
  "local_head io dsz root key fs =
     (case resolve root key of
        Inl msg \<Rightarrow> Inl msg
      | Inr dest \<Rightarrow>
          if io ''stat'' then Inl ''stat''
          else (case file_at fs (comps dest) of
            Some x \<Rightarrow> Inr (plain_info key (int (length x)) dest)
          | None \<Rightarrow> if is_dir fs (comps dest) then Inr (plain_info key dsz dest) else Inl ''stat''))"

definition local_storage ::
    "(string \<Rightarrow> bool) \<Rightarrow> (string \<Rightarrow> string) \<Rightarrow> int \<Rightarrow> string \<Rightarrow> files provider" where
  "local_storage io sha dsz root =
     \<lparr>pr_Put = local_put io sha root, pr_Get = local_get io root, pr_Delete = local_delete io root,
      pr_Head = local_head io dsz root\<rparr>"

subsection \<open>S3 storage\<close>

record s3_config =
  s3_Bucket :: string
  s3_Region :: string
  s3_Endpoint :: string
  s3_UsePathStyle :: bool
  s3_AccessKey :: string
  s3_SecretKey :: string

text \<open>What the client of the AWS SDK offers: upload, get, head and delete of a bucket's objects.  Replies
  carry the content length when the service sends one.\<close>

record object_output =
  oo_ContentLength :: "int option"
  oo_ETag :: string
  oo_Metadata :: "string \<Rightarrow> string option"

record 's s3_client =
  c_Upload :: "string \<Rightarrow> string \<Rightarrow> string \<Rightarrow> string \<Rightarrow> (string \<Rightarrow> string option) \<Rightarrow> 's \<Rightarrow> 's \<times> (string + string)"
  c_Get :: "string \<Rightarrow> string \<Rightarrow> 's \<Rightarrow> string + (string \<times> object_output)"
  c_Delete :: "string \<Rightarrow> string \<Rightarrow> 's \<Rightarrow> 's \<times> (string + unit)"
  c_Head :: "string \<Rightarrow> string \<Rightarrow> 's \<Rightarrow> string + object_output"

definition s3_config_error :: "s3_config option \<Rightarrow> string option" where
  "s3_config_error cfg =
     (case cfg of
        None \<Rightarrow> Some ''S3 storage target has no configuration''
      | Some c \<Rightarrow>
          if trim_space (s3_Bucket c) = '''' then Some ''S3 storage target has no bucket configured''
          else if trim_space (s3_AccessKey c) = '''' \<or> trim_space (s3_SecretKey c) = ''''
          then Some ''S3 storage target has no credentials configured''
          else None)"

definition or_empty :: "string option \<Rightarrow> string" where
  "or_empty x = (case x of None \<Rightarrow> '''' | Some y \<Rightarrow> y)"

definition trim_quotes :: "string \<Rightarrow> string" where
  "trim_quotes s = rev (dropWhile (\<lambda>c. c = CHR 0x22) (rev (dropWhile (\<lambda>c. c = CHR 0x22) s)))"

definition s3_metadata :: "put_options \<Rightarrow> string \<Rightarrow> string option" where
  "s3_metadata opts = map_of (rev (po_Metadata opts) @ [(MetaVersion, FormatVersion)])"

definition s3_put :: "'s s3_client \<Rightarrow> (string \<Rightarrow> bool) \<Rightarrow> string \<Rightarrow> string \<Rightarrow> string \<Rightarrow> int \<Rightarrow> put_options \<Rightarrow> 's
    \<Rightarrow> 's \<times> (string + object_info)" where
  "s3_put c io bucket key data sz opts s =
     (if io ''ctx'' then (s, Inl ''context canceled'')
      else if trim_space key = '''' then (s, Inl ''S3 object key is empty'')
      else
        let ctype = (if po_ContentType opts = '''' then ContentTypeForName key else po_ContentType opts) in
        (case c_Upload c bucket key data ctype (s3_metadata opts) s of
           (s1, Inl e) \<Rightarrow> (s1, Inl e)
         | (s1, Inr etag) \<Rightarrow> (s1, Inr \<lparr>oi_Key = key, oi_Size = sz, oi_ETag = trim_quotes etag,
             oi_ChecksumSHA256 = or_empty (s3_metadata opts MetaChecksumSHA256),
             oi_Location = key, oi_Metadata = s3_metadata opts\<rparr>)))"

definition s3_info :: "string \<Rightarrow> object_output \<Rightarrow> object_info" where
  "s3_info key out = \<lparr>oi_Key = key, oi_Size = (case oo_ContentLength out of None \<Rightarrow> 0 | Some n \<Rightarrow> n),
     oi_ETag = trim_quotes (oo_ETag out), oi_ChecksumSHA256 = or_empty (oo_Metadata out MetaChecksumSHA256),
     oi_Location = key, oi_Metadata = oo_Metadata out\<rparr>"

definition s3_get :: "'s s3_client \<Rightarrow> string \<Rightarrow> string \<Rightarrow> 's \<Rightarrow> string + (string \<times> object_info)" where
  "s3_get c bucket key s =
     (case c_Get c bucket key s of Inl e \<Rightarrow> Inl e | Inr (x, out) \<Rightarrow> Inr (x, s3_info key out))"

definition s3_delete :: "'s s3_client \<Rightarrow> string \<Rightarrow> string \<Rightarrow> 's \<Rightarrow> 's \<times> (string + unit)" where
  "s3_delete c bucket key s = c_Delete c bucket key s"

definition s3_head :: "'s s3_client \<Rightarrow> string \<Rightarrow> string \<Rightarrow> 's \<Rightarrow> string + object_info" where
  "s3_head c bucket key s = (case c_Head c bucket key s of Inl e \<Rightarrow> Inl e | Inr out \<Rightarrow> Inr (s3_info key out))"

definition s3_storage :: "'s s3_client \<Rightarrow> (string \<Rightarrow> bool) \<Rightarrow> string \<Rightarrow> 's provider" where
  "s3_storage c io bucket =
     \<lparr>pr_Put = s3_put c io bucket, pr_Get = s3_get c bucket, pr_Delete = s3_delete c bucket, pr_Head = s3_head c bucket\<rparr>"

subsection \<open>Choosing the provider\<close>

datatype storage_choice = UseLocal string | UseS3 s3_config

definition ForJob :: "(string \<Rightarrow> bool) \<Rightarrow> string \<Rightarrow> string \<Rightarrow> s3_config option \<Rightarrow> files
    \<Rightarrow> files \<times> (string + storage_choice)" where
  "ForJob io storageType root s3 fs =
     (let t = to_upper (trim_space storageType) in
      if t = '''' \<or> t = ''LOCAL'' then
        (case NewLocalStorage io root fs of
           (fs1, Inl msg) \<Rightarrow> (fs1, Inl msg) | (fs1, Inr r) \<Rightarrow> (fs1, Inr (UseLocal r)))
      else if t = ''S3'' then
        (case s3_config_error s3 of
           Some msg \<Rightarrow> (fs, Inl msg)
         | None \<Rightarrow> (fs, case s3 of None \<Rightarrow> Inl '''' | Some c \<Rightarrow> Inr (UseS3 c)))
      else (fs, Inl (''unsupported storage type '' @ storageType)))"

subsection \<open>The promise of a store\<close>

text \<open>
  What the runner relies on, for any provider: \<open>content\<close> reads the object behind a location, \<open>loc\<close> the
  location a key names.  A successful put stores exactly the bytes it was given, a put or delete touches
  no other location, a failed put stores nothing under the location or leaves what was there, and
  reading reports what is stored.
\<close>

locale object_store =
  fixes pr :: "'s provider"
    and sound :: "'s \<Rightarrow> bool"
    and content :: "'s \<Rightarrow> 'l \<Rightarrow> string option"
    and loc :: "string \<Rightarrow> 'l"
  assumes put_sound: "sound s \<Longrightarrow> sound (fst (pr_Put pr k d n opts s))"
    and delete_sound: "sound s \<Longrightarrow> sound (fst (pr_Delete pr k s))"
    and put_stores: "pr_Put pr k d n opts s = (s', Inr i) \<Longrightarrow>
      content s' (loc k) = Some d \<and> (n = int (length d) \<longrightarrow> oi_Size i = int (length d))"
    and put_failed: "pr_Put pr k d n opts s = (s', Inl e) \<Longrightarrow>
      content s' (loc k) = content s (loc k) \<or> content s' (loc k) = None"
    and put_elsewhere: "l \<noteq> loc k \<Longrightarrow> content (fst (pr_Put pr k d n opts s)) l = content s l"
    and get_reads: "pr_Get pr k s = Inr (x, i) \<Longrightarrow> content s (loc k) = Some x"
    and delete_erases: "pr_Delete pr k s = (s', Inr ()) \<Longrightarrow> content s' (loc k) = None"
    and delete_failed: "pr_Delete pr k s = (s', Inl e) \<Longrightarrow> s' = s"
    and delete_elsewhere: "l \<noteq> loc k \<Longrightarrow> content (fst (pr_Delete pr k s)) l = content s l"
    and head_size: "pr_Head pr k s = Inr i \<Longrightarrow> content s (loc k) = Some x \<Longrightarrow> oi_Size i = int (length x)"
begin

lemma put_then_get:
  assumes "pr_Put pr k d n opts s = (s', Inr i)" and "pr_Get pr k s' = Inr (x, i')"
  shows "x = d"
  using put_stores [OF assms(1)] get_reads [OF assms(2)] by simp

lemma put_then_head:
  assumes "pr_Put pr k d n opts s = (s', Inr i)" and "n = int (length d)" and "pr_Head pr k s' = Inr h"
  shows "oi_Size h = oi_Size i"
  using put_stores [OF assms(1)] head_size [OF assms(3)] assms(2) by simp

lemma put_keeps_others:
  assumes "loc k \<noteq> loc k'" and "content s (loc k') = Some x"
  shows "content (fst (pr_Put pr k d n opts s)) (loc k') = Some x"
  using put_elsewhere [of "loc k'" k] assms by simp

lemma delete_keeps_others:
  assumes "loc k \<noteq> loc k'" and "content s (loc k') = Some x"
  shows "content (fst (pr_Delete pr k s)) (loc k') = Some x"
  using delete_elsewhere [of "loc k'" k] assms by simp

lemma delete_then_get:
  assumes "pr_Delete pr k s = (s', Inr ())"
  shows "pr_Get pr k s' \<noteq> Inr (x, i)"
  using delete_erases [OF assms] get_reads [of k s' x i] by auto

end

text \<open>Local storage keeps the promise, with the files of the tree as content and the resolved path of a
  key as its location.\<close>

definition local_loc :: "string \<Rightarrow> string \<Rightarrow> path" where
  "local_loc root key = comps (resolve_target root key)"

lemma resolve_Inr_target: "resolve root key = Inr dest \<Longrightarrow> dest = resolve_target root key"
  by (auto simp: resolve_def resolve_target_def Let_def split: option.splits if_splits)

lemma local_put_cases:
  assumes "local_put io sha root key d n opts fs = (fs', r)"
  obtains (refused) e where "fs' = fs" "r = Inl e"
  | (no_file) e where "mkdir_all (butlast (local_loc root key)) fs = Some fs'" "r = Inl e"
  | (copy_failed) e fs1 fs2 where "mkdir_all (butlast (local_loc root key)) fs = Some fs1"
      "create_file (local_loc root key) fs1 = Some fs2" "fs' = drop_file (local_loc root key) fs2" "r = Inl e"
  | (stored) fs1 fs2 where "mkdir_all (butlast (local_loc root key)) fs = Some fs1"
      "create_file (local_loc root key) fs1 = Some fs2" "fs' = set_file (local_loc root key) d fs2"
      "r = Inr \<lparr>oi_Key = key, oi_Size = int (length d), oi_ETag = '''', oi_ChecksumSHA256 = sha d,
         oi_Location = resolve_target root key, oi_Metadata = put_metadata (sha d) opts\<rparr>"
  using assms
  by (auto simp: local_put_def local_loc_def dest!: resolve_Inr_target split: if_splits option.splits sum.splits)

lemma local_put_ok:
  assumes "local_put io sha root key d n opts fs = (fs', Inr i)"
  shows "i = \<lparr>oi_Key = key, oi_Size = int (length d), oi_ETag = '''', oi_ChecksumSHA256 = sha d,
         oi_Location = resolve_target root key, oi_Metadata = put_metadata (sha d) opts\<rparr>"
    and "file_at fs' (local_loc root key) = Some d"
  using assms by (cases rule: local_put_cases; simp)+

lemma local_put_content:
  assumes "local_put io sha root key d n opts fs = (fs', r)"
  shows "case r of Inr _ \<Rightarrow> file_at fs' = (file_at fs)(local_loc root key \<mapsto> d)
    | Inl _ \<Rightarrow> file_at fs' \<in> {file_at fs, (file_at fs)(local_loc root key := None)}"
  using assms
proof (cases rule: local_put_cases)
  case no_file
  then show ?thesis by (auto simp: fun_eq_iff)
next
  case (copy_failed e fs1 fs2)
  then show ?thesis by (auto simp: fun_eq_iff dest!: create_file_SomeD)
next
  case (stored fs1 fs2)
  then show ?thesis by (auto simp: fun_eq_iff dest!: create_file_SomeD)
qed (auto simp: fun_eq_iff)

lemma create_file_ok: "files_ok fs \<Longrightarrow> create_file p fs = Some fs' \<Longrightarrow> files_ok fs' \<and> \<not> is_dir fs p \<and> is_dir fs (butlast p)"
  by (auto simp: create_file_def files_ok_set split: if_splits)

lemma local_put_sound: "files_ok fs \<Longrightarrow> files_ok (fst (local_put io sha root key d n opts fs))"
proof (cases "local_put io sha root key d n opts fs" rule: prod.exhaust)
  case (Pair fs' r)
  assume ok: "files_ok fs"
  from Pair have "files_ok fs'"
  proof (cases rule: local_put_cases)
    case (no_file e)
    then show ?thesis using ok mkdir_all_ok by blast
  next
    case (copy_failed e fs1 fs2)
    then show ?thesis using mkdir_all_ok [OF ok] create_file_ok files_ok_drop by blast
  next
    case (stored fs1 fs2)
    have f1: "files_ok fs1" using mkdir_all_ok [OF ok] stored(1) by blast
    note c = create_file_ok [OF f1 stored(2)] create_file_SomeD [OF stored(2)]
    show ?thesis unfolding stored(3) using c by (intro files_ok_set) simp_all
  qed (simp add: ok)
  then show ?thesis using Pair by simp
qed

lemma remove_path_sound:
  assumes ok: "files_ok fs" and r: "remove_path p fs = Inr fs'"
  shows "files_ok fs'"
proof (cases "file_at fs p = None")
  case False
  then have "fs' = drop_file p fs" using r by (simp add: remove_path_def split: if_splits)
  then show ?thesis using files_ok_drop [OF ok] by simp
next
  case True
  then have p: "is_dir fs p" "p \<noteq> []" "\<not> children fs p"
    and fs': "fs' = fs\<lparr>fs_dirs := filter (\<lambda>q. q \<noteq> p) (fs_dirs fs)\<rparr>"
    using r by (simp_all add: remove_path_def split: if_splits)
  have above: "butlast q \<noteq> p" if "q \<in> fst ` set (fs_files fs) \<union> set (fs_dirs fs)" "q \<noteq> []" for q
  proof
    assume b: "butlast q = p"
    then have "q = p @ [last q]" using that(2) append_butlast_last_id [of q] by simp
    then have "q \<noteq> p" "take (length p) q = p" by (metis append_eq_conv_conj not_Cons_self2 self_append_conv)+
    then show False using p(3) that(1) unfolding children_def list_ex_iff by auto
  qed
  have dir: "is_dir fs' q \<longleftrightarrow> is_dir fs q \<and> q \<noteq> p" for q unfolding is_dir_def fs' using p(2) by auto
  have f: "\<not> is_dir fs' q \<and> is_dir fs' (butlast q)" if "file_at fs q \<noteq> None" for q
  proof -
    have q: "\<not> is_dir fs q" "is_dir fs (butlast q)" using ok that unfolding files_ok_def by blast+
    then have "q \<noteq> []" by (auto simp: is_dir_def)
    moreover have "q \<in> fst ` set (fs_files fs)" using that by (auto simp: file_at_def map_of_eq_None_iff)
    ultimately have "butlast q \<noteq> p" using above by blast
    then show ?thesis using q by (simp add: dir)
  qed
  have d: "is_dir fs' (butlast q)" if "q \<in> set (fs_dirs fs')" for q
  proof -
    have q: "q \<in> set (fs_dirs fs)" using that unfolding fs' by simp
    then have "is_dir fs (butlast q)" using ok unfolding files_ok_def by blast
    moreover have "butlast q \<noteq> p" using above [of q] q p(2) by (cases q) auto
    ultimately show ?thesis by (simp add: dir)
  qed
  have "file_at fs' = file_at fs" unfolding fs' by (simp add: file_at_def fun_eq_iff)
  then show ?thesis unfolding files_ok_def using f d by simp
qed

lemma local_delete_cases:
  assumes "local_delete io root key fs = (fs', r)"
  obtains (failed) e where "fs' = fs" "r = Inl e"
  | (missing) "fs' = fs" "r = Inr ()" "file_at fs (local_loc root key) = None"
  | (removed) "remove_path (local_loc root key) fs = Inr fs'" "r = Inr ()"
  using assms
  by (auto simp: local_delete_def local_loc_def dest!: resolve_Inr_target
        dest: remove_path_missing split: if_splits sum.splits)

lemma local_delete_content:
  assumes "local_delete io root key fs = (fs', r)"
  shows "file_at fs' = (case r of Inr _ \<Rightarrow> (file_at fs)(local_loc root key := None) | Inl _ \<Rightarrow> file_at fs)"
  using assms
proof (cases rule: local_delete_cases)
  case failed
  then show ?thesis by simp
next
  case missing
  then show ?thesis by (simp add: fun_eq_iff)
next
  case removed
  show ?thesis unfolding removed(2) using remove_path_files [OF removed(1)] by (simp add: fun_eq_iff)
qed

lemma local_delete_sound: "files_ok fs \<Longrightarrow> files_ok (fst (local_delete io root key fs))"
proof (cases "local_delete io root key fs" rule: prod.exhaust)
  case (Pair fs' r)
  assume ok: "files_ok fs"
  from Pair have "files_ok fs'"
    by (cases rule: local_delete_cases) (simp_all add: ok remove_path_sound [OF ok])
  then show ?thesis using Pair by simp
qed

lemma local_get_iff:
  "local_get io root key fs = Inr (x, i) \<longleftrightarrow>
     (\<exists>dest. resolve root key = Inr dest \<and> \<not> io ''open'' \<and> file_at fs (local_loc root key) = Some x \<and>
        i = plain_info key (int (length x)) dest)"
  by (auto simp: local_get_def local_loc_def dest: resolve_Inr_target split: sum.splits option.splits if_splits)

lemma local_head_size:
  "local_head io dsz root key fs = Inr i \<Longrightarrow> file_at fs (local_loc root key) = Some x \<Longrightarrow> oi_Size i = int (length x)"
  by (auto simp: local_head_def local_loc_def plain_info_def dest!: resolve_Inr_target
        split: sum.splits option.splits if_splits)

interpretation local_store: object_store "local_storage io sha dsz root" files_ok file_at "local_loc root"
  for io sha dsz root
proof (unfold_locales, goal_cases)
  case (1 s k d n opts)
  then show ?case by (simp add: local_storage_def local_put_sound)
next
  case (2 s k)
  then show ?case by (simp add: local_storage_def local_delete_sound)
next
  case (3 k d n opts s s' i)
  then have "local_put io sha root k d n opts s = (s', Inr i)" by (simp add: local_storage_def)
  then show ?case using local_put_ok by fastforce
next
  case (4 k d n opts s s' e)
  then have "local_put io sha root k d n opts s = (s', Inl e)" by (simp add: local_storage_def)
  from local_put_content [OF this] show ?case by auto
next
  case (5 l k d n opts s)
  obtain s' r where p: "local_put io sha root k d n opts s = (s', r)" by (cases rule: prod.exhaust)
  from local_put_content [OF p] 5 have "file_at s' l = file_at s l" by (auto split: sum.splits)
  then show ?case by (simp add: local_storage_def p)
next
  case (6 k s x i)
  then show ?case by (auto simp: local_storage_def local_get_iff)
next
  case (7 k s s')
  then have "local_delete io root k s = (s', Inr ())" by (simp add: local_storage_def)
  from local_delete_content [OF this] show ?case by simp
next
  case (8 k s s' e)
  then have "local_delete io root k s = (s', Inl e)" by (simp add: local_storage_def)
  then show ?case by (cases rule: local_delete_cases) simp_all
next
  case (9 l k s)
  obtain s' r where p: "local_delete io root k s = (s', r)" by (cases rule: prod.exhaust)
  from local_delete_content [OF p] 9 have "file_at s' l = file_at s l" by (cases r) simp_all
  then show ?case by (simp add: local_storage_def p)
next
  case (10 k s i x)
  then show ?case using local_head_size by (simp add: local_storage_def)
qed

text \<open>A client is an honest S3 service when \<open>obj\<close> says what a bucket holds, an upload stores the body or
  nothing at all, deletes erase, and content lengths are sent and true.\<close>

definition s3_service :: "'s s3_client \<Rightarrow> ('s \<Rightarrow> string \<Rightarrow> string \<Rightarrow> string option) \<Rightarrow> bool" where
  "s3_service c obj \<longleftrightarrow>
     (\<forall>b k d ct m s s' r. c_Upload c b k d ct m s = (s', r) \<longrightarrow>
        obj s' b = (case r of Inl _ \<Rightarrow> obj s b | Inr _ \<Rightarrow> (obj s b)(k \<mapsto> d))) \<and>
     (\<forall>b k s x out. c_Get c b k s = Inr (x, out) \<longrightarrow> obj s b k = Some x) \<and>
     (\<forall>b k s s' r. c_Delete c b k s = (s', r) \<longrightarrow>
        (case r of Inl _ \<Rightarrow> s' = s | Inr _ \<Rightarrow> obj s' b = (obj s b)(k := None))) \<and>
     (\<forall>b k s x out. c_Head c b k s = Inr out \<longrightarrow> obj s b k = Some x \<longrightarrow> oo_ContentLength out = Some (int (length x)))"

lemma s3_put_cases:
  assumes "s3_put c io b k d n opts s = (s', r)"
  obtains (refused) e where "s' = s" "r = Inl e"
  | (failed) ct m e where "c_Upload c b k d ct m s = (s', Inl e)" "r = Inl e"
  | (uploaded) ct m tag i where "c_Upload c b k d ct m s = (s', Inr tag)" "r = Inr i" "oi_Size i = n"
proof (cases "io ''ctx'' \<or> trim_space k = []")
  case True
  then have "s' = s \<and> (\<exists>e. r = Inl e)" using assms by (auto simp: s3_put_def split: if_splits)
  then show ?thesis using refused by blast
next
  case False
  let ?ct = "if po_ContentType opts = [] then ContentTypeForName k else po_ContentType opts"
  obtain s1 r1 where u: "c_Upload c b k d ?ct (s3_metadata opts) s = (s1, r1)" by (rule prod.exhaust)
  show ?thesis
  proof (cases r1)
    case (Inl e)
    then show ?thesis using assms u False by (intro failed) (auto simp: s3_put_def Let_def)
  next
    case (Inr tag)
    then show ?thesis using assms u False uploaded by (simp add: s3_put_def Let_def) (metis object_info.select_convs(2))
  qed
qed

lemma s3_keeps_promise:
  assumes "s3_service c obj"
  shows "object_store (s3_storage c io b) (\<lambda>_. True) (\<lambda>s. obj s b) (\<lambda>k. k)"
proof (unfold_locales, goal_cases)
  case (3 k d n opts s s' i)
  then have "s3_put c io b k d n opts s = (s', Inr i)" by (simp add: s3_storage_def)
  then show ?case
  proof (cases rule: s3_put_cases)
    case (uploaded ct m tag j)
    then have "obj s' b = (obj s b)(k \<mapsto> d)" using assms unfolding s3_service_def by fastforce
    then show ?thesis using uploaded by simp
  qed simp_all
next
  case (4 k d n opts s s' e)
  then have "s3_put c io b k d n opts s = (s', Inl e)" by (simp add: s3_storage_def)
  then show ?case
  proof (cases rule: s3_put_cases)
    case (failed ct m e')
    then have "obj s' b = obj s b" using assms unfolding s3_service_def by fastforce
    then show ?thesis by simp
  qed simp_all
next
  case (5 l k d n opts s)
  obtain s' r where p: "s3_put c io b k d n opts s = (s', r)" by (rule prod.exhaust)
  then have "obj s' b l = obj s b l"
  proof (cases rule: s3_put_cases)
    case (failed ct m e')
    then have "obj s' b = obj s b" using assms unfolding s3_service_def by fastforce
    then show ?thesis by simp
  next
    case (uploaded ct m tag j)
    then have "obj s' b = (obj s b)(k \<mapsto> d)" using assms unfolding s3_service_def by fastforce
    then show ?thesis using 5 by simp
  qed simp
  then show ?case using p by (simp add: s3_storage_def)
next
  case (6 k s x i)
  then have "\<exists>out. c_Get c b k s = Inr (x, out)" by (auto simp: s3_storage_def s3_get_def split: sum.splits)
  then show ?case using assms unfolding s3_service_def by blast
next
  case (7 k s s')
  then have "c_Delete c b k s = (s', Inr ())" by (simp add: s3_storage_def s3_delete_def)
  then have "obj s' b = (obj s b)(k := None)" using assms unfolding s3_service_def by fastforce
  then show ?case by simp
next
  case (8 k s s' e)
  then have "c_Delete c b k s = (s', Inl e)" by (simp add: s3_storage_def s3_delete_def)
  then show ?case using assms unfolding s3_service_def by fastforce
next
  case (9 l k s)
  obtain s' r where p: "c_Delete c b k s = (s', r)" by (rule prod.exhaust)
  then have "case r of Inl _ \<Rightarrow> s' = s | Inr _ \<Rightarrow> obj s' b = (obj s b)(k := None)"
    using assms unfolding s3_service_def by blast
  then show ?case using p 9 by (simp add: s3_storage_def s3_delete_def split: sum.splits)
next
  case (10 k s i x)
  then obtain out where "c_Head c b k s = Inr out" "i = s3_info k out"
    by (auto simp: s3_storage_def s3_head_def split: sum.splits)
  moreover from this have "oo_ContentLength out = Some (int (length x))"
    using assms 10(2) unfolding s3_service_def by blast
  ultimately show ?case by (simp add: s3_info_def)
qed simp_all

subsection \<open>Keys and tenants\<close>

definition plain_segment :: "string \<Rightarrow> bool" where
  "plain_segment s \<longleftrightarrow> proper s \<and> s \<noteq> ''..''"

lemma normal_plain: "list_all plain_segment cs \<Longrightarrow> normal r cs"
  unfolding normal_def list_all_iff plain_segment_def by (intro conjI exI [of _ 0] exI [of _ cs]) auto

lemma normal_append_plain: "normal r cs \<Longrightarrow> list_all plain_segment ds \<Longrightarrow> normal r (cs @ ds)"
proof (induction ds arbitrary: cs)
  case (Cons d ds)
  then have "normal r (cs @ [d])" by (intro normal_snoc) (simp_all add: plain_segment_def)
  then show ?case using Cons.IH [of "cs @ [d]"] Cons.prems(2) by simp
qed simp

lemma clean_comps_plain: "list_all plain_segment cs \<Longrightarrow> clean_comps r st cs = rev st @ cs"
  by (induction cs arbitrary: st) (simp_all add: plain_segment_def proper_def)

lemma clean_comps_append: "clean_comps r st (a @ b) = clean_comps r (rev (clean_comps r st a)) b"
proof (induction a arbitrary: st)
  case (Cons c cs)
  then show ?case by (cases st) simp_all
qed simp

lemma comps_slash: "a \<noteq> '''' \<Longrightarrow> comps (a @ [sep] @ b) = clean_comps (IsAbs a) (rev (comps a)) (split_on sep b)"
  using IsAbs_append [of a "[sep] @ b"] by (simp add: comps_def split_on_append clean_comps_append)

lemma comps_Join2:
  assumes "a \<noteq> ''''" and "b \<noteq> ''''"
  shows "comps (Join2 a b) = clean_comps (IsAbs a) (rev (comps a)) (split_on sep b)"
  using assms comps_slash [OF assms(1)] by (simp add: Join2_def)

lemma split_on_plain: "plain_segment s \<Longrightarrow> split_on sep s = [s]"
  using split_join [of "[s]" sep] by (simp add: plain_segment_def proper_def)

lemma split_join_plain: "list_all plain_segment cs \<Longrightarrow> cs \<noteq> [] \<Longrightarrow> split_on sep (join_with [sep] cs) = cs"
  by (rule split_join) (auto simp: list_all_iff plain_segment_def proper_def)

lemma path_Join_plain:
  assumes "list_all plain_segment cs" and "cs \<noteq> []"
  shows "path_Join cs = join_with [sep] cs" and "comps (path_Join cs) = cs" and "\<not> IsAbs (path_Join cs)"
proof -
  have ne: "filter (\<lambda>e. e \<noteq> '''') cs = cs"
    using assms(1) by (auto simp: filter_id_conv list_all_iff plain_segment_def proper_def)
  obtain d ds where cs: "cs = d # ds" using assms(2) by (cases cs) auto
  have d: "d \<noteq> ''''" "sep \<notin> set d" using assms(1) by (simp_all add: cs plain_segment_def proper_def)
  have rel: "\<not> IsAbs (join_with [sep] cs)"
    using d by (cases d; cases ds) (auto simp: cs IsAbs_def has_prefix_def)
  have c: "comps (join_with [sep] cs) = cs"
    unfolding comps_def split_join_plain [OF assms] using clean_comps_plain [OF assms(1)] by simp
  show j: "path_Join cs = join_with [sep] cs"
    using rel assms(2) by (simp add: path_Join_def ne Clean_def c render_def)
  show "comps (path_Join cs) = cs" "\<not> IsAbs (path_Join cs)" using c rel by (simp_all add: j)
qed

lemma Clean_path_Join: "list_all plain_segment cs \<Longrightarrow> cs \<noteq> [] \<Longrightarrow> Clean (path_Join cs) = join_with [sep] cs"
  using path_Join_plain [of cs] by (simp add: Clean_def render_def)

lemma local_loc_plain:
  assumes "root \<noteq> ''''" and "list_all plain_segment cs" and "cs \<noteq> []"
  shows "local_loc root (path_Join cs) = comps root @ cs"
    and "resolve root (path_Join cs) = Inr (resolve_target root (path_Join cs))"
proof -
  note key = path_Join_plain [OF assms(2,3)]
  have "join_with [sep] cs \<noteq> ''''" using Clean_path_Join [OF assms(2,3)] Clean_nonempty [of "path_Join cs"] by simp
  then have c: "comps (Join2 root (join_with [sep] cs)) = comps root @ cs"
    by (simp add: comps_Join2 assms(1) split_join_plain [OF assms(2,3)] clean_comps_plain [OF assms(2)])
  then show loc: "local_loc root (path_Join cs) = comps root @ cs"
    by (simp add: local_loc_def resolve_target_def key(3) Clean_path_Join [OF assms(2,3)])
  have "''..'' \<notin> set cs" using assms(2) by (auto simp: list_all_iff plain_segment_def)
  then have "inside root (resolve_target root (path_Join cs))"
    using c by (simp add: inside_def resolve_target_def key(3) Clean_path_Join [OF assms(2,3)] IsAbs_Join2 [OF assms(1)])
  then show "resolve root (path_Join cs) = Inr (resolve_target root (path_Join cs))"
    using resolve_iff [OF assms(1)] by simp
qed

lemma plain_literals: "list_all plain_segment [''orgs'', ''jobs'', ''runs'']"
  by (simp add: plain_segment_def proper_def sep_def)

lemma artifact_location:
  assumes "root \<noteq> ''''" and "list_all plain_segment [oid, jid, rid, f]"
  shows "local_loc root (BuildKey oid jid rid f) = comps root @ [''orgs'', oid, ''jobs'', jid, ''runs'', rid, f]"
    and "resolve root (BuildKey oid jid rid f) = Inr (resolve_target root (BuildKey oid jid rid f))"
  using local_loc_plain [OF assms(1), of "[''orgs'', oid, ''jobs'', jid, ''runs'', rid, f]"] assms(2) plain_literals
  by (simp_all add: BuildKey_def)

text \<open>C18. The local store implements a map from locations to contents: a successful put is a map update
  with exactly the given bytes, a failed one leaves the map alone or loses that one object, a delete
  removes at most the one object, and a get returns what the map holds.  Files and directories stay
  consistent throughout.\<close>

theorem local_store_refines_map:
  assumes "files_ok fs"
  shows "files_ok (fst (local_put io sha root key d n opts fs)) \<and> files_ok (fst (local_delete io root key fs)) \<and>
    (case local_put io sha root key d n opts fs of
       (fs', Inr i) \<Rightarrow> file_at fs' = (file_at fs)(local_loc root key \<mapsto> d) \<and> oi_Size i = int (length d) \<and>
                      oi_ChecksumSHA256 i = sha d
     | (fs', Inl e) \<Rightarrow> file_at fs' = file_at fs \<or> file_at fs' = (file_at fs)(local_loc root key := None)) \<and>
    (case local_delete io root key fs of
       (fs', Inr _) \<Rightarrow> file_at fs' = (file_at fs)(local_loc root key := None)
     | (fs', Inl _) \<Rightarrow> fs' = fs) \<and>
    (case local_get io root key fs of
       Inr (x, i) \<Rightarrow> file_at fs (local_loc root key) = Some x \<and> oi_Size i = int (length x)
     | Inl _ \<Rightarrow> True)"
proof -
  obtain fs1 r1 where p: "local_put io sha root key d n opts fs = (fs1, r1)" by (cases rule: prod.exhaust)
  obtain fs2 r2 where q: "local_delete io root key fs = (fs2, r2)" by (cases rule: prod.exhaust)
  have "r1 = Inr i \<Longrightarrow> oi_Size i = int (length d) \<and> oi_ChecksumSHA256 i = sha d" for i
    using local_put_ok(1) p by (metis object_info.select_convs(2,4))
  then have put: "case (fs1, r1) of
       (fs', Inr i) \<Rightarrow> file_at fs' = (file_at fs)(local_loc root key \<mapsto> d) \<and> oi_Size i = int (length d) \<and>
                      oi_ChecksumSHA256 i = sha d
     | (fs', Inl e) \<Rightarrow> file_at fs' = file_at fs \<or> file_at fs' = (file_at fs)(local_loc root key := None)"
    using local_put_content [OF p] by (cases r1) simp_all
  have del: "case (fs2, r2) of
       (fs', Inr _) \<Rightarrow> file_at fs' = (file_at fs)(local_loc root key := None) | (fs', Inl _) \<Rightarrow> fs' = fs"
    using local_delete_content [OF q] q by (cases r2; cases rule: local_delete_cases [OF q]) simp_all
  have get: "case local_get io root key fs of
       Inr (x, i) \<Rightarrow> file_at fs (local_loc root key) = Some x \<and> oi_Size i = int (length x) | Inl _ \<Rightarrow> True"
    by (cases "local_get io root key fs") (auto simp: local_get_iff plain_info_def split: prod.split)
  show ?thesis unfolding p q using put del get local_put_sound [OF assms] local_delete_sound [OF assms] p q
    by (metis fst_conv)
qed

theorem local_store_refines_map_witness:
  "file_at (fst (local_put (\<lambda>_. False) (\<lambda>d. ''sum'') ''/data'' ''k'' ''hello'' 5
       \<lparr>po_ContentType = '''', po_Metadata = []\<rparr> no_files)) [''data'', ''k''] = Some ''hello''"
proof -
  let ?opts = "\<lparr>po_ContentType = '''', po_Metadata = []\<rparr>"
  have ok: "case snd (local_put (\<lambda>_. False) (\<lambda>d. ''sum'') ''/data'' ''k'' ''hello'' 5 ?opts no_files) of
      Inr i \<Rightarrow> True | Inl _ \<Rightarrow> False" by code_simp
  have l: "local_loc ''/data'' ''k'' = [''data'', ''k'']" by code_simp
  show ?thesis
    using local_store_refines_map [OF files_ok_empty, of "\<lambda>_. False" "\<lambda>d. ''sum''" "''/data''" "''k''" "''hello''" 5 ?opts] ok
    unfolding l by (auto split: prod.splits sum.splits)
qed

text \<open>Artifacts of different runs never touch each other: under \<open>BuildKey\<close> with plain segments, storing
  or deleting one run's object leaves the object of every other (tenant, job, run, name) as it was.\<close>

theorem artifacts_isolated:
  assumes "root \<noteq> ''''" and "list_all plain_segment [oid, jid, rid, f]"
    and "list_all plain_segment [oid', jid', rid', f']"
    and "(oid, jid, rid, f) \<noteq> (oid', jid', rid', f')"
    and "file_at fs (local_loc root (BuildKey oid jid rid f)) = Some x"
  shows "file_at (fst (local_put io sha root (BuildKey oid' jid' rid' f') d n opts fs))
           (local_loc root (BuildKey oid jid rid f)) = Some x \<and>
         file_at (fst (local_delete io root (BuildKey oid' jid' rid' f') fs))
           (local_loc root (BuildKey oid jid rid f)) = Some x"
proof
  have ne: "local_loc root (BuildKey oid' jid' rid' f') \<noteq> local_loc root (BuildKey oid jid rid f)"
    unfolding artifact_location(1) [OF assms(1,2)] artifact_location(1) [OF assms(1,3)] using assms(4) by auto
  show "file_at (fst (local_put io sha root (BuildKey oid' jid' rid' f') d n opts fs))
           (local_loc root (BuildKey oid jid rid f)) = Some x"
    using local_store.put_keeps_others [OF ne assms(5), of io sha 0] by (simp add: local_storage_def)
  show "file_at (fst (local_delete io root (BuildKey oid' jid' rid' f') fs))
           (local_loc root (BuildKey oid jid rid f)) = Some x"
    using local_store.delete_keeps_others [OF ne assms(5), of io sha 0] by (simp add: local_storage_def)
qed

theorem artifacts_isolated_witness:
  "file_at (fst (local_delete (\<lambda>_. False) ''/data'' (BuildKey ''o'' ''j'' ''r2'' ''db'')
       (set_file [''data'', ''orgs'', ''o'', ''jobs'', ''j'', ''runs'', ''r1'', ''db''] ''x'' no_files)))
     (local_loc ''/data'' (BuildKey ''o'' ''j'' ''r1'' ''db'')) = Some ''x''"
  by (rule artifacts_isolated [of "''/data''" "''o''" "''j''" "''r1''" "''db''" "''o''" "''j''" "''r2''" "''db''",
        THEN conjunct2]) code_simp+

text \<open>The segments matter: the runner names an artifact after the job, and a job called
  \<open>../../../../../orgs/b/x\<close> is stored under another tenant's prefix.\<close>

lemma job_name_escapes_prefix:
  "comps (BuildKey ''a'' ''j'' ''r'' (''../../../../../../orgs/b/x'' @ ''_'' @ ''r'')) = [''orgs'', ''b'', ''x_r'']"
  by code_simp

end
