(* ===== verification/Archive.thy ===== *)
theory Archive
  imports Objects
begin

text \<open>
  File-system backups and their restore: \<open>agent/internal/agent/backup.go\<close> and \<open>restore.go\<close>.  The source
  is the tree that \<open>filepath.Walk\<close> sees (children in the order it visits them), an archive is the list of
  tar entries, the destination the files of \<^theory_text>\<open>Files\<close> together with the symbolic links already there.
  The tar and gzip formats belong to Go's library: \<open>pack\<close> and \<open>untar\<close> are parameters.  \<open>io op rel\<close> says
  that the named operation fails on the entry \<open>rel\<close>.  Path matching works on ASCII names.
\<close>

subsection \<open>Pattern matching\<close>

text \<open>\<open>path.Match\<close>: patterns are cut into chunks at stars; a star never crosses a slash.\<close>

fun scan_chunk :: "bool \<Rightarrow> string \<Rightarrow> string \<times> string" where
  "scan_chunk inrange [] = ([], [])"
| "scan_chunk inrange (c # p) =
     (if c = CHR 0x5C then
        (case p of [] \<Rightarrow> ([c], [])
         | d # q \<Rightarrow> (let (a, b) = scan_chunk inrange q in (c # d # a, b)))
      else if c = CHR ''*'' \<and> \<not> inrange then ([], c # p)
      else let (a, b) = scan_chunk (if c = CHR ''['' then True else if c = CHR '']'' then False else inrange) p
           in (c # a, b))"

fun drop_stars :: "string \<Rightarrow> string" where
  "drop_stars [] = []"
| "drop_stars (c # p) = (if c = CHR ''*'' then drop_stars p else c # p)"

text \<open>\<open>getEsc\<close>: one possibly escaped character of a class; \<open>None\<close> is \<open>ErrBadPattern\<close>.\<close>

fun get_esc :: "string \<Rightarrow> (char \<times> string) option" where
  "get_esc [] = None"
| "get_esc (c # p) =
     (if c = CHR ''-'' \<or> c = CHR '']'' then None
      else if c = CHR 0x5C then
        (case p of [] \<Rightarrow> None | d # q \<Rightarrow> if q = [] then None else Some (d, q))
      else if p = [] then None else Some (c, p))"

lemma get_esc_shorter: "get_esc p = Some (c, q) \<Longrightarrow> length q < length p \<and> q \<noteq> []"
  by (cases p) (auto split: if_splits list.splits)

text \<open>The ranges of a class up to its closing bracket: whether \<open>r\<close> is in one of them, and the rest.\<close>

function class_ranges :: "char \<Rightarrow> bool \<Rightarrow> bool \<Rightarrow> string \<Rightarrow> (bool \<times> string) option" where
  "class_ranges r some hit p =
     (if p \<noteq> [] \<and> hd p = CHR '']'' \<and> some then Some (hit, tl p)
      else (case get_esc p of
          None \<Rightarrow> None
        | Some (lo, q) \<Rightarrow>
            if hd q = CHR ''-'' then
              (case get_esc (tl q) of
                 None \<Rightarrow> None
               | Some (hi, q') \<Rightarrow>
                   class_ranges r True (hit \<or> (of_char lo :: nat) \<le> of_char r \<and> (of_char r :: nat) \<le> of_char hi) q')
            else class_ranges r True (hit \<or> lo = r) q))"
  by pat_completeness auto
termination
  by (relation "measure (\<lambda>(_, _, _, p). length p)")
    (auto dest!: get_esc_shorter simp: length_tl)

declare class_ranges.simps [simp del]

lemma class_ranges_shorter: "class_ranges r some hit p = Some (m, q) \<Longrightarrow> length q < length p"
proof (induction r some hit p rule: class_ranges.induct)
  case (1 r some hit p)
  show ?case
  proof (cases "p \<noteq> [] \<and> hd p = CHR '']'' \<and> some")
    case True
    then have "q = tl p" using "1.prems" by (subst (asm) class_ranges.simps) simp
    then show ?thesis using True by (cases p) simp_all
  next
    case False
    obtain lo q1 where g: "get_esc p = Some (lo, q1)"
      using "1.prems" False by (subst (asm) class_ranges.simps) (auto split: option.splits)
    note shorter = get_esc_shorter [OF g]
    show ?thesis
    proof (cases "hd q1 = CHR ''-''")
      case True
      obtain hi q2 where h: "get_esc (tl q1) = Some (hi, q2)"
        using "1.prems" False g True by (subst (asm) class_ranges.simps) (auto split: option.splits)
      then have "length q < length q2"
        using "1.IH"(1) [OF False g refl True h refl] "1.prems" False g True
        by (subst (asm) (2) class_ranges.simps) simp
      then show ?thesis using get_esc_shorter [OF h] shorter by (cases q1) simp_all
    next
      case dash: False
      then have "length q < length q1"
        using "1.IH"(2) [OF False g refl dash] "1.prems" False g
        by (subst (asm) (2) class_ranges.simps) simp
      then show ?thesis using shorter by simp
    qed
  qed
qed

datatype chunk_result = BadPattern | NoMatch | Matched string

text \<open>\<open>matchChunk\<close>: after a mismatch it keeps checking the pattern's syntax.\<close>

function match_chunk :: "bool \<Rightarrow> string \<Rightarrow> string \<Rightarrow> chunk_result" where
  "match_chunk failed [] s = (if failed then NoMatch else Matched s)"
| "match_chunk failed (c # p) s =
     (let failed1 = (failed \<or> s = []); r = (if failed1 then CHR 0x00 else hd s); s' = (if failed1 then s else tl s) in
      if c = CHR ''['' then
        (let negated = (p \<noteq> [] \<and> hd p = CHR ''^'') in
         case class_ranges r False False (if negated then tl p else p) of
           None \<Rightarrow> BadPattern
         | Some (m, q) \<Rightarrow> match_chunk (failed1 \<or> m = negated) q s')
      else if c = CHR ''?'' then match_chunk (failed1 \<or> r = sep) p s'
      else if c = CHR 0x5C then
        (case p of [] \<Rightarrow> BadPattern | d # q \<Rightarrow> match_chunk (failed1 \<or> d \<noteq> r) q s')
      else match_chunk (failed1 \<or> c \<noteq> r) p s')"
  by pat_completeness auto
termination
  by (relation "measure (\<lambda>(_, p, _). length p)")
    (auto dest!: class_ranges_shorter split: if_splits)

fun skip_match :: "string \<Rightarrow> bool \<Rightarrow> string \<Rightarrow> string option" where
  "skip_match chunk final [] = None"
| "skip_match chunk final (c # name) =
     (if c = sep then None
      else (case match_chunk False chunk name of
          Matched t \<Rightarrow> if final \<and> t \<noteq> [] then skip_match chunk final name else Some t
        | BadPattern \<Rightarrow> None
        | NoMatch \<Rightarrow> skip_match chunk final name))"

lemma scan_chunk_length: "length (fst (scan_chunk i p)) + length (snd (scan_chunk i p)) = length p"
proof (induction i p rule: scan_chunk.induct)
  case (2 inrange c p)
  then show ?case by (cases p) (simp_all add: case_prod_beta Let_def)
qed simp

lemma drop_stars_length: "length (drop_stars p) \<le> length p"
  by (induction p) auto

lemma scan_chunk_progress: "q \<noteq> [] \<Longrightarrow> hd q \<noteq> CHR ''*'' \<Longrightarrow> length (snd (scan_chunk False q)) < length q"
proof -
  assume q: "q \<noteq> []" "hd q \<noteq> CHR ''*''"
  then obtain c p where cp: "q = c # p" by (cases q) auto
  have "fst (scan_chunk False q) \<noteq> []"
    using q(2) unfolding cp by (cases p) (simp_all add: case_prod_beta Let_def)
  then show ?thesis using scan_chunk_length [of False q] by (cases "fst (scan_chunk False q)") simp_all
qed

lemma drop_stars_hd: "drop_stars p \<noteq> [] \<Longrightarrow> hd (drop_stars p) \<noteq> CHR ''*''"
  by (induction p) auto

lemma rest_shorter: "p \<noteq> [] \<Longrightarrow> length (snd (scan_chunk False (drop_stars p))) < length p"
proof (cases "drop_stars p = []")
  case True
  then show "p \<noteq> [] \<Longrightarrow> ?thesis" by simp
next
  case False
  then show ?thesis
    using scan_chunk_progress [OF False drop_stars_hd] drop_stars_length [of p] by simp
qed

text \<open>The first result of \<open>path.Match\<close> (false when the pattern is malformed).\<close>

function path_Match :: "string \<Rightarrow> string \<Rightarrow> bool" where
  "path_Match pat name =
     (if pat = [] then name = []
      else
        let star = (hd pat = CHR ''*''); (chunk, rest) = scan_chunk False (drop_stars pat) in
        if star \<and> chunk = [] then sep \<notin> set name
        else (case match_chunk False chunk name of
            BadPattern \<Rightarrow> False
          | NoMatch \<Rightarrow>
              if star then
                (case skip_match chunk (rest = []) name of None \<Rightarrow> False | Some t \<Rightarrow> path_Match rest t)
              else False
          | Matched t \<Rightarrow>
              if t = [] \<or> rest \<noteq> [] then path_Match rest t
              else if star then
                (case skip_match chunk (rest = []) name of None \<Rightarrow> False | Some t' \<Rightarrow> path_Match rest t')
              else False))"
  by pat_completeness auto
termination
proof (relation "measure (\<lambda>(p, _). length p)", goal_cases)
  case 1
  then show ?case by simp
qed (metis (no_types, lifting) rest_shorter in_measure case_prod_conv snd_conv)+

declare path_Match.simps [simp del]

subsection \<open>Selecting entries\<close>

definition splitPatterns :: "string \<Rightarrow> string list" where
  "splitPatterns s = filter (\<lambda>p. p \<noteq> '''') (map trim_space (split_on (CHR '','') s))"

definition path_Base :: "string \<Rightarrow> string" where
  "path_Base p =
     (if p = '''' then ''.''
      else let q = rev (dropWhile (\<lambda>c. c = sep) (rev p)) in
        if q = '''' then [sep] else rev (takeWhile (\<lambda>c. c \<noteq> sep) (rev q)))"

definition matchAny :: "string \<Rightarrow> string list \<Rightarrow> bool" where
  "matchAny rel patterns \<longleftrightarrow>
     list_ex (\<lambda>p. path_Match p rel \<or> path_Match p (path_Base rel) \<or> rel = p \<or> has_prefix (p @ [sep]) rel) patterns"

definition included :: "string \<Rightarrow> string list \<Rightarrow> string list \<Rightarrow> bool" where
  "included rel inc exc \<longleftrightarrow> rel = ''.'' \<or> \<not> (inc \<noteq> [] \<and> \<not> matchAny rel inc) \<and> \<not> matchAny rel exc"

subsection \<open>Backing up\<close>

datatype node = RegFile string | Directory "(string \<times> node) list" | Symlink string | Special

datatype entry_type = TypeReg | TypeDir | TypeLink | TypeOther

record tar_entry =
  te_Name :: string
  te_Type :: entry_type
  te_Body :: string
  te_Broken :: bool

text \<open>The relative name of an entry; the root is a dot.\<close>

definition rel_name :: "path \<Rightarrow> string" where
  "rel_name rel = (if rel = [] then ''.'' else join_with [sep] rel)"

text \<open>\<open>writeEntry\<close>: \<open>Inl\<close> when the link cannot be read, the header not be built or the file not be copied.\<close>

definition writeEntry :: "(string \<Rightarrow> path \<Rightarrow> bool) \<Rightarrow> path \<Rightarrow> string \<Rightarrow> node \<Rightarrow> string + tar_entry" where
  "writeEntry io rel name nd =
     (let entry = (\<lambda>ty body. \<lparr>te_Name = name, te_Type = ty, te_Body = body, te_Broken = False\<rparr>) in
      case nd of
        Symlink t \<Rightarrow> if io ''readlink'' rel then Inl ''readlink'' else Inr (entry TypeLink '''')
      | Directory _ \<Rightarrow> Inr (entry TypeDir '''')
      | RegFile x \<Rightarrow> if io ''read'' rel then Inl ''read'' else Inr (entry TypeReg x)
      | Special \<Rightarrow> if io ''header'' rel then Inl ''header'' else Inr (entry TypeOther ''''))"

definition seq_entries :: "string + tar_entry list \<Rightarrow> string + tar_entry list \<Rightarrow> string + tar_entry list" where
  "seq_entries a b = (case a of Inl e \<Rightarrow> Inl e | Inr xs \<Rightarrow> (case b of Inl e \<Rightarrow> Inl e | Inr ys \<Rightarrow> Inr (xs @ ys)))"

text \<open>The callback of \<open>filepath.Walk\<close> at an entry, before descending into it.\<close>

definition visit :: "(string \<Rightarrow> path \<Rightarrow> bool) \<Rightarrow> path \<Rightarrow> node \<Rightarrow> string + tar_entry list" where
  "visit io rel nd =
     (if rel = [] \<or> nd = Special then Inr []
      else (case writeEntry io rel (rel_name rel) nd of Inl e \<Rightarrow> Inl e | Inr t \<Rightarrow> Inr [t]))"

fun walk :: "(string \<Rightarrow> path \<Rightarrow> bool) \<Rightarrow> string list \<Rightarrow> string list \<Rightarrow> path \<Rightarrow> node \<Rightarrow> string + tar_entry list"
  and walk_children :: "(string \<Rightarrow> path \<Rightarrow> bool) \<Rightarrow> string list \<Rightarrow> string list \<Rightarrow> path \<Rightarrow> (string \<times> node) list
    \<Rightarrow> string + tar_entry list" where
  "walk io inc exc rel nd =
     (if io ''lstat'' rel then Inl ''lstat''
      else if \<not> included (rel_name rel) inc exc then Inr []
      else (case nd of
          Directory cs \<Rightarrow>
            seq_entries (visit io rel nd)
              (if io ''readdir'' rel then Inl ''readdir'' else walk_children io inc exc rel cs)
        | _ \<Rightarrow> visit io rel nd))"
| "walk_children io inc exc rel [] = Inr []"
| "walk_children io inc exc rel ((n, nd) # cs) =
     seq_entries (walk io inc exc (rel @ [n]) nd) (walk_children io inc exc rel cs)"

record backup_result =
  br_ArchivePath :: path
  br_BytesRead :: int
  br_BytesCompressed :: int
  br_Checksum :: string
  br_FilesCount :: int

text \<open>What goes into the archive.  A source that is a link to a directory passes \<open>os.Stat\<close>, but
  \<open>filepath.Walk\<close> starts from \<open>os.Lstat\<close> and does not descend.\<close>

definition source_entries :: "(string \<Rightarrow> path \<Rightarrow> bool) \<Rightarrow> string list \<Rightarrow> string list \<Rightarrow> string \<Rightarrow> node \<Rightarrow> node
    \<Rightarrow> string + tar_entry list" where
  "source_entries io inc exc sourcePath st lst =
     (case st of
        Directory _ \<Rightarrow> walk io inc exc [] lst
      | _ \<Rightarrow> (case writeEntry io [] (path_Base sourcePath) st of Inl e \<Rightarrow> Inl e | Inr t \<Rightarrow> Inr [t]))"

definition BackupFilesystem ::
    "(string \<Rightarrow> path \<Rightarrow> bool) \<Rightarrow> (bool \<Rightarrow> tar_entry list \<Rightarrow> string) \<Rightarrow> (string \<Rightarrow> string) \<Rightarrow> path \<Rightarrow> string \<Rightarrow> string
      \<Rightarrow> string list \<Rightarrow> string list \<Rightarrow> node option \<Rightarrow> node \<Rightarrow> files \<Rightarrow> files \<times> (string + backup_result)" where
  "BackupFilesystem io pack sha tmpPath sourcePath mode inc exc st lst fs =
     (case st of
        None \<Rightarrow> (fs, Inl ''source not accessible'')
      | Some st_node \<Rightarrow>
          (case (if io ''createtemp'' [] then None else create_file tmpPath fs) of
             None \<Rightarrow> (fs, Inl ''create temp'')
           | Some fs1 \<Rightarrow>
               (case source_entries io inc exc sourcePath st_node lst of
                  Inl e \<Rightarrow> (drop_file tmpPath fs1, Inl e)
                | Inr es \<Rightarrow>
                    let files = filter (\<lambda>t. te_Type t = TypeReg) es;
                        out = pack (to_upper mode = ''COMPRESSED'') es in
                    if io ''write'' [] then (drop_file tmpPath fs1, Inl ''write archive'')
                    else if files = [] then (drop_file tmpPath fs1, Inl ''source contains no files to back up'')
                    else (set_file tmpPath out fs1,
                      Inr \<lparr>br_ArchivePath = tmpPath, br_BytesRead = int (length (concat (map te_Body files))),
                           br_BytesCompressed = int (length out), br_Checksum = sha out,
                           br_FilesCount = int (length files)\<rparr>))))"

subsection \<open>Restoring\<close>

text \<open>Where a path really leads: \<open>links\<close> maps a symbolic link to the directory it points at (itself free of
  links).  \<open>os.OpenFile\<close> and \<open>os.MkdirAll\<close> follow the links on the way.\<close>

fun physical :: "(path \<Rightarrow> path option) \<Rightarrow> path \<Rightarrow> path \<Rightarrow> path" where
  "physical links cur [] = cur"
| "physical links cur (c # cs) =
     (case links (cur @ [c]) of None \<Rightarrow> physical links (cur @ [c]) cs | Some t \<Rightarrow> physical links t cs)"

text \<open>\<open>os.Lstat\<close> of a path resolves every component but the last.\<close>

definition lstat_link :: "(path \<Rightarrow> path option) \<Rightarrow> path \<Rightarrow> bool" where
  "lstat_link links p \<longleftrightarrow> p \<noteq> [] \<and> links (physical links [] (butlast p) @ [last p]) \<noteq> None"

definition mkdir_io :: "(string \<Rightarrow> path \<Rightarrow> bool) \<Rightarrow> (path \<Rightarrow> path option) \<Rightarrow> path \<Rightarrow> files \<Rightarrow> files option" where
  "mkdir_io io links p fs = (if io ''mkdir'' p then None else mkdir_all (physical links [] p) fs)"

definition restore_regular ::
    "(string \<Rightarrow> path \<Rightarrow> bool) \<Rightarrow> (path \<Rightarrow> path option) \<Rightarrow> path \<Rightarrow> tar_entry \<Rightarrow> files \<Rightarrow> files \<times> string option" where
  "restore_regular io links p t fs =
     (if lstat_link links p then (fs, Some ''refusing to overwrite symlink'')
      else (case mkdir_io io links (butlast p) fs of
        None \<Rightarrow> (fs, Some ''mkdir'')
      | Some fs1 \<Rightarrow>
          (case (if io ''openfile'' p then None else create_file (physical links [] p) fs1) of
             None \<Rightarrow> (fs1, Some ''open'')
           | Some fs2 \<Rightarrow> (set_file (physical links [] p) (te_Body t) fs2,
               if te_Broken t \<or> io ''copy'' p then Some ''copy'' else None))))"

definition restore_entry ::
    "(string \<Rightarrow> path \<Rightarrow> bool) \<Rightarrow> (path \<Rightarrow> path option) \<Rightarrow> string \<Rightarrow> tar_entry \<Rightarrow> files \<Rightarrow> files \<times> string option" where
  "restore_entry io links destDir t fs =
     (if escapes_dest destDir (te_Name t) then (fs, Some ''archive entry escapes destination'')
      else
        let p = comps (Join2 destDir (te_Name t)) in
        case te_Type t of
          TypeDir \<Rightarrow> (case mkdir_io io links p fs of None \<Rightarrow> (fs, Some ''mkdir'') | Some fs1 \<Rightarrow> (fs1, None))
        | TypeReg \<Rightarrow> restore_regular io links p t fs
        | TypeLink \<Rightarrow> (fs, Some ''archive contains link entry'')
        | TypeOther \<Rightarrow> (fs, None))"

text \<open>The loop: the first error ends it, with what was written so far left in place.\<close>

fun restore_entries ::
    "(string \<Rightarrow> path \<Rightarrow> bool) \<Rightarrow> (path \<Rightarrow> path option) \<Rightarrow> string \<Rightarrow> tar_entry list \<Rightarrow> files \<Rightarrow> files \<times> string option" where
  "restore_entries io links destDir [] fs = (fs, None)"
| "restore_entries io links destDir (t # ts) fs =
     (case restore_entry io links destDir t fs of
        (fs1, Some e) \<Rightarrow> (fs1, Some e)
      | (fs1, None) \<Rightarrow> restore_entries io links destDir ts fs1)"

definition gzip_magic :: string where "gzip_magic = [CHR 0x1F, CHR 0x8B]"

text \<open>\<open>untar gz bytes\<close>: the entries the tar reader delivers and the error it ends with, if any; \<open>None\<close> when the
  gzip header is bad.\<close>

definition RestoreLocal ::
    "(string \<Rightarrow> path \<Rightarrow> bool) \<Rightarrow> (bool \<Rightarrow> string \<Rightarrow> (tar_entry list \<times> string option) option) \<Rightarrow> (path \<Rightarrow> path option)
      \<Rightarrow> path \<Rightarrow> string \<Rightarrow> files \<Rightarrow> files \<times> string option" where
  "RestoreLocal io untar links archivePath destDir fs =
     (if destDir = '''' then (fs, Some ''destination_path is required for FILESYSTEM restore'')
      else (case mkdir_io io links (comps destDir) fs of
        None \<Rightarrow> (fs, Some ''create destination dir'')
      | Some fs1 \<Rightarrow>
          (case (if io ''open'' archivePath then None else file_at fs1 archivePath) of
             None \<Rightarrow> (fs1, Some ''open archive'')
           | Some x \<Rightarrow>
               if length x < 2 then (fs1, Some ''read archive header'')
               else (case untar (take 2 x = gzip_magic) x of
                   None \<Rightarrow> (fs1, Some ''open gzip'')
                 | Some (es, e) \<Rightarrow>
                     (case restore_entries io links destDir es fs1 of
                        (fs2, Some e') \<Rightarrow> (fs2, Some e')
                      | (fs2, None) \<Rightarrow> (fs2, e))))))"

subsection \<open>What is archived\<close>

text \<open>The reference: every entry of the tree in the order of the walk, kept when the entry and every directory
  above it pass the patterns.\<close>

fun nodes :: "path \<Rightarrow> node \<Rightarrow> (path \<times> node) list"
  and nodes_children :: "path \<Rightarrow> (string \<times> node) list \<Rightarrow> (path \<times> node) list" where
  "nodes rel nd = (rel, nd) # (case nd of Directory cs \<Rightarrow> nodes_children rel cs | _ \<Rightarrow> [])"
| "nodes_children rel [] = []"
| "nodes_children rel ((n, nd) # cs) = nodes (rel @ [n]) nd @ nodes_children rel cs"

definition selected :: "string list \<Rightarrow> string list \<Rightarrow> path \<Rightarrow> bool" where
  "selected inc exc rel \<longleftrightarrow> list_all (\<lambda>k. included (rel_name (take k rel)) inc exc) [0..<Suc (length rel)]"

definition keeps :: "string list \<Rightarrow> string list \<Rightarrow> path \<times> node \<Rightarrow> bool" where
  "keeps inc exc = (\<lambda>(rel, nd). rel \<noteq> [] \<and> nd \<noteq> Special \<and> selected inc exc rel)"

definition entry_for :: "path \<times> node \<Rightarrow> tar_entry" where
  "entry_for = (\<lambda>(rel, nd). \<lparr>te_Name = rel_name rel,
     te_Type = (case nd of RegFile _ \<Rightarrow> TypeReg | Directory _ \<Rightarrow> TypeDir | Symlink _ \<Rightarrow> TypeLink | Special \<Rightarrow> TypeOther),
     te_Body = (case nd of RegFile x \<Rightarrow> x | _ \<Rightarrow> ''''), te_Broken = False\<rparr>)"

lemma nodes_prefix:
  "p \<in> set (nodes rel nd) \<Longrightarrow> prefix rel (fst p)"
  "p \<in> set (nodes_children rel cs) \<Longrightarrow> \<exists>n. n \<in> fst ` set cs \<and> prefix (rel @ [n]) (fst p)"
proof (induction rel nd and rel cs arbitrary: p and p rule: nodes_nodes_children.induct)
  case (1 rel nd)
  show ?case
  proof (cases "p = (rel, nd)")
    case False
    then obtain cs where cs: "nd = Directory cs" "p \<in> set (nodes_children rel cs)"
      using "1.prems" by (cases nd) auto
    then obtain n where "prefix (rel @ [n]) (fst p)" using "1.IH" by blast
    then show ?thesis by (metis append_prefixD)
  qed simp
next
  case (3 rel n nd cs)
  show ?case
  proof (cases "p \<in> set (nodes (rel @ [n]) nd)")
    case True
    then have "prefix (rel @ [n]) (fst p)" using "3.IH"(1) by blast
    then show ?thesis by (intro exI [of _ n]) simp
  next
    case False
    then have "p \<in> set (nodes_children rel cs)" using "3.prems" unfolding nodes_children.simps set_append by blast
    then obtain m where "m \<in> fst ` set cs \<and> prefix (rel @ [m]) (fst p)" using "3.IH"(2) by blast
    then show ?thesis by (intro exI [of _ m]) simp
  qed
qed simp

lemma selected_prefix: "selected inc exc q \<Longrightarrow> prefix p q \<Longrightarrow> selected inc exc p"
proof -
  assume s: "selected inc exc q" and "prefix p q"
  then obtain r where q: "q = p @ r" by (auto simp: prefix_def)
  have "included (rel_name (take k p)) inc exc" if "k \<le> length p" for k
  proof -
    have k: "k \<in> set [0..<Suc (length q)]" and t: "take k q = take k p" using that by (auto simp: q)
    have "included (rel_name (take k q)) inc exc"
      using s k unfolding selected_def list_all_iff by blast
    then show ?thesis unfolding t .
  qed
  then show "selected inc exc p" by (simp add: selected_def list_all_iff less_Suc_eq_le del: upt_Suc)
qed

lemma selected_snoc:
  "selected inc exc (rel @ [n]) \<longleftrightarrow> selected inc exc rel \<and> included (rel_name (rel @ [n])) inc exc"
  by (auto simp: selected_def list_all_iff)

lemma selected_included: "selected inc exc rel \<Longrightarrow> included (rel_name rel) inc exc"
  by (simp add: selected_def list_all_iff)

lemma selected_Nil [simp]: "selected inc exc []"
  by (simp add: selected_def rel_name_def included_def)

lemma visit_Inr: "visit io rel nd = Inr es \<Longrightarrow> es = (if rel = [] \<or> nd = Special then [] else [entry_for (rel, nd)])"
  by (cases nd) (auto simp: visit_def writeEntry_def entry_for_def Let_def split: if_splits)

lemma seq_entries_Inr: "seq_entries a b = Inr es \<longleftrightarrow> (\<exists>xs ys. a = Inr xs \<and> b = Inr ys \<and> es = xs @ ys)"
  by (auto simp: seq_entries_def split: sum.splits)

lemma walk_keeps:
  "walk io inc exc rel nd = Inr es \<Longrightarrow> rel = [] \<or> selected inc exc (butlast rel) \<Longrightarrow>
     es = map entry_for (filter (keeps inc exc) (nodes rel nd))"
  "walk_children io inc exc rel cs = Inr es \<Longrightarrow> selected inc exc rel \<Longrightarrow>
     es = map entry_for (filter (keeps inc exc) (nodes_children rel cs))"
proof (induction rel nd and rel cs arbitrary: es and es rule: nodes_nodes_children.induct)
  case (1 rel nd)
  show ?case
  proof (cases "included (rel_name rel) inc exc")
    case False
    then have "\<not> selected inc exc rel" using selected_included by blast
    then have "\<not> keeps inc exc p" if "p \<in> set (nodes rel nd)" for p
      using nodes_prefix(1) [OF that] selected_prefix unfolding keeps_def by (auto split: prod.split)
    then have "filter (keeps inc exc) (nodes rel nd) = []" unfolding filter_empty_conv by blast
    moreover have "es = []" using False "1.prems"(1) by (simp split: if_splits)
    ultimately show ?thesis by simp
  next
    case True
    then have sel: "selected inc exc rel"
      using "1.prems"(2) selected_snoc [of inc exc "butlast rel" "last rel"] by (cases "rel = []") auto
    have own: "visit io rel nd = Inr xs \<Longrightarrow> xs = map entry_for (filter (keeps inc exc) [(rel, nd)])" for xs
      using visit_Inr [of io rel nd xs] sel by (auto simp: keeps_def)
    show ?thesis
    proof (cases nd)
      case (Directory cs)
      then obtain xs ys where v: "visit io rel nd = Inr xs" and w: "walk_children io inc exc rel cs = Inr ys"
        and es: "es = xs @ ys"
        using "1.prems"(1) True by (auto simp: seq_entries_Inr split: if_splits)
      have "ys = map entry_for (filter (keeps inc exc) (nodes_children rel cs))"
        using "1.IH" [OF Directory w sel] .
      then show ?thesis using own [OF v] es Directory by simp
    qed (use "1.prems"(1) True own in \<open>auto split: if_splits\<close>)
  qed
next
  case (2 rel)
  then show ?case by simp
next
  case (3 rel n nd cs)
  obtain xs ys where w: "walk io inc exc (rel @ [n]) nd = Inr xs" "walk_children io inc exc rel cs = Inr ys"
    and es: "es = xs @ ys" using "3.prems"(1) unfolding walk_children.simps seq_entries_Inr by blast
  have "xs = map entry_for (filter (keeps inc exc) (nodes (rel @ [n]) nd))"
    using "3.IH"(1) [OF w(1)] "3.prems"(2) by simp
  moreover have "ys = map entry_for (filter (keeps inc exc) (nodes_children rel cs))"
    using "3.IH"(2) [OF w(2) "3.prems"(2)] .
  ultimately show ?case using es by simp
qed

lemma walk_returns:
  assumes "io = (\<lambda>op q. False)"
  shows "\<exists>es. walk io inc exc rel nd = Inr es" and "\<exists>es. walk_children io inc exc rel cs = Inr es"
proof (induction rel nd and rel cs rule: nodes_nodes_children.induct)
  case (1 rel nd)
  have v: "\<exists>xs. visit io rel nd = Inr xs" for nd
    using assms by (cases nd) (auto simp: visit_def writeEntry_def Let_def)
  show ?case
  proof (cases nd)
    case (Directory cs)
    then show ?thesis using "1.IH" [OF Directory] v [of nd] assms by (auto simp: seq_entries_Inr)
  qed (use v [of nd] assms in auto)
next
  case (3 rel n nd cs)
  then show ?case by (auto simp: seq_entries_Inr simp del: walk.simps)
qed simp

subsection \<open>Where a restore writes\<close>

lemma physical_no_links [simp]: "physical Map.empty cur p = cur @ p"
  by (induction p arbitrary: cur) simp_all

lemma lstat_no_links [simp]: "\<not> lstat_link Map.empty p"
  by (simp add: lstat_link_def)

lemma mkdir_no_links: "mkdir_io io Map.empty p fs = (if io ''mkdir'' p then None else mkdir_all p fs)"
  by (simp add: mkdir_io_def)

lemma not_escapes_below: "\<not> escapes_dest destDir name \<Longrightarrow> prefix (comps destDir) (comps (Join2 destDir name))"
  using storage_path_ok_iff [of destDir "Join2 destDir name"] escapes_dest_ok [of destDir name]
  by (cases "comps destDir = []") auto

text \<open>Nothing outside the destination changes: no file, and no directory except the destination's ancestors.\<close>

definition contained :: "path \<Rightarrow> files \<Rightarrow> files \<Rightarrow> bool" where
  "contained D fs fs' \<longleftrightarrow>
     (\<forall>q. prefix D q \<or> file_at fs' q = file_at fs q) \<and>
     (\<forall>q. prefix D q \<or> prefix q D \<or> is_dir fs' q = is_dir fs q)"

lemma contained_refl [simp]: "contained D fs fs"
  by (simp add: contained_def)

lemma contained_trans: "contained D a b \<Longrightarrow> contained D b c \<Longrightarrow> contained D a c"
  unfolding contained_def by metis

lemma contained_mkdir:
  assumes "mkdir_all p fs = Some fs'" and "prefix D p \<or> prefix p D"
  shows "contained D fs fs'"
proof -
  have "prefix D q \<or> prefix q D" if "q \<in> set (upto_path p)" for q
  proof -
    have "prefix q p" using that by (auto simp: upto_path_iff)
    then show ?thesis using assms(2) prefix_same_cases [of D p q] prefix_order.trans [of q p D] by blast
  qed
  then show ?thesis
    unfolding contained_def using mkdir_all_files [OF assms(1)] mkdir_all_dirs [OF assms(1)] by blast
qed

lemma contained_set: "prefix D p \<Longrightarrow> contained D fs (set_file p x fs)"
  by (auto simp: contained_def)

lemma restore_regular_cases:
  assumes "restore_regular io Map.empty p t fs = (fs', r)"
  obtains (no_dir) "fs' = fs" "r \<noteq> None"
  | (no_file) "mkdir_all (butlast p) fs = Some fs'" "r \<noteq> None"
  | (written) fs1 where "mkdir_all (butlast p) fs = Some fs1" "create_file p fs1 = Some (set_file p '''' fs1)"
      "fs' = set_file p (te_Body t) (set_file p '''' fs1)" "r = (if te_Broken t \<or> io ''copy'' p then Some ''copy'' else None)"
proof (cases "mkdir_io io Map.empty (butlast p) fs")
  case None
  then show ?thesis using assms by (intro no_dir) (auto simp: restore_regular_def)
next
  case (Some fs1)
  then have m: "mkdir_all (butlast p) fs = Some fs1" by (simp add: mkdir_no_links split: if_splits)
  show ?thesis
  proof (cases "if io ''openfile'' p then None else create_file p fs1")
    case None
    then show ?thesis using m Some assms by (intro no_file) (auto simp: restore_regular_def split: if_splits)
  next
    case fs2: (Some fs2)
    then have c: "create_file p fs1 = Some fs2" "\<not> io ''openfile'' p" by (simp_all split: if_splits)
    then have "fs2 = set_file p '''' fs1" by (simp add: create_file_SomeD)
    then show ?thesis
      using written [OF m] c Some assms by (simp add: restore_regular_def)
  qed
qed

lemma restore_regular_contained:
  assumes "prefix D p"
  shows "contained D fs (fst (restore_regular io Map.empty p t fs))"
proof (cases "restore_regular io Map.empty p t fs" rule: prod.exhaust)
  case (Pair fs' r)
  have up: "prefix D (butlast p) \<or> prefix (butlast p) D"
    using assms prefix_same_cases [of D p "butlast p"] prefixeq_butlast [of p] by blast
  from Pair have "contained D fs fs'"
  proof (cases rule: restore_regular_cases)
    case no_file
    then show ?thesis using contained_mkdir up by blast
  next
    case (written fs1)
    then show ?thesis using contained_mkdir [OF _ up] contained_set [OF assms] contained_trans by metis
  qed simp
  then show ?thesis using Pair by simp
qed

lemma restore_entry_contained: "contained (comps destDir) fs (fst (restore_entry io Map.empty destDir t fs))"
proof (cases "escapes_dest destDir (te_Name t)")
  case True
  then show ?thesis by (simp add: restore_entry_def)
next
  case False
  note below = not_escapes_below [OF False]
  have "contained (comps destDir) fs fs1"
    if "mkdir_io io Map.empty (comps (Join2 destDir (te_Name t))) fs = Some fs1" for fs1
    using that contained_mkdir below by (simp add: mkdir_no_links split: if_splits)
  then show ?thesis
    using False restore_regular_contained [OF below]
    by (simp add: restore_entry_def Let_def split: entry_type.split option.split)
qed

lemma restore_entries_contained: "contained (comps destDir) fs (fst (restore_entries io Map.empty destDir ts fs))"
proof (induction ts arbitrary: fs)
  case (Cons t ts)
  obtain fs1 e where r: "restore_entry io Map.empty destDir t fs = (fs1, e)" by (rule prod.exhaust)
  then have "contained (comps destDir) fs fs1" using restore_entry_contained [of destDir fs io t] by simp
  then show ?case using Cons.IH [of fs1] contained_trans r by (cases e) auto
qed simp


text \<open>With a link planted below the destination the guard does not help: \<open>os.Lstat\<close> looks at the last
  component only, and an entry below the link is written where the link points.\<close>

lemma planted_link_followed:
  "file_at (fst (restore_entry (\<lambda>_ _. False) (\<lambda>p. if p = [''dest'', ''link''] then Some [''etc''] else None) ''/dest''
     \<lparr>te_Name = ''link/passwd'', te_Type = TypeReg, te_Body = ''owned'', te_Broken = False\<rparr>
     \<lparr>fs_files = [], fs_dirs = [[''dest''], [''etc'']]\<rparr>)) [''etc'', ''passwd''] = Some ''owned''"
  by code_simp

subsection \<open>Backup, then restore\<close>

text \<open>A tree as a file system has it: plain names, distinct among siblings.\<close>

fun wf_node :: "node \<Rightarrow> bool" and wf_children :: "(string \<times> node) list \<Rightarrow> bool" where
  "wf_node nd = (case nd of Directory cs \<Rightarrow> wf_children cs | _ \<Rightarrow> True)"
| "wf_children [] = True"
| "wf_children ((n, nd) # cs) = (plain_segment n \<and> n \<notin> fst ` set cs \<and> wf_node nd \<and> wf_children cs)"

definition is_reg :: "node \<Rightarrow> bool" where
  "is_reg nd \<longleftrightarrow> (case nd of RegFile _ \<Rightarrow> True | _ \<Rightarrow> False)"

text \<open>No regular file is on the way to another entry, in either order.\<close>

definition apart :: "path \<times> node \<Rightarrow> path \<times> node \<Rightarrow> bool" where
  "apart a b \<longleftrightarrow> \<not> (is_reg (snd a) \<and> prefix (fst a) (fst b)) \<and> \<not> (is_reg (snd b) \<and> prefix (fst b) (fst a))"

lemma apart_forked:
  assumes "prefix (rel @ [m]) (fst a)" and "prefix (rel @ [n]) (fst b)" and "m \<noteq> n"
  shows "apart a b"
proof -
  have "\<not> prefix (fst a) (fst b)" "\<not> prefix (fst b) (fst a)"
    using assms by (auto simp: prefix_def append_eq_append_conv2)
  then show ?thesis by (simp add: apart_def)
qed

lemma nodes_apart:
  "wf_node nd \<Longrightarrow> sorted_wrt apart (nodes rel nd)"
  "wf_children cs \<Longrightarrow> sorted_wrt apart (nodes_children rel cs)"
proof (induction rel nd and rel cs rule: nodes_nodes_children.induct)
  case (1 rel nd)
  show ?case
  proof (cases nd)
    case (Directory cs)
    have "apart (rel, nd) p" if p: "p \<in> set (nodes_children rel cs)" for p
    proof -
      obtain n where "prefix (rel @ [n]) (fst p)" using nodes_prefix(2) [OF p] by blast
      then have "\<not> prefix (fst p) rel" by (auto simp: prefix_def)
      then show ?thesis by (simp add: apart_def is_reg_def Directory)
    qed
    then show ?thesis using 1 Directory by simp
  qed simp_all
next
  case (3 rel n nd cs)
  have "apart p q" if p: "p \<in> set (nodes (rel @ [n]) nd)" and q: "q \<in> set (nodes_children rel cs)" for p q
  proof -
    obtain m where m: "m \<in> fst ` set cs" "prefix (rel @ [m]) (fst q)" using nodes_prefix(2) [OF q] by blast
    moreover have "n \<noteq> m" using m(1) "3.prems" by auto
    ultimately show ?thesis using nodes_prefix(1) [OF p] by (intro apart_forked) auto
  qed
  then show ?case using 3 by (simp only: nodes_children.simps wf_children.simps sorted_wrt_append) blast
qed simp

lemma nodes_plain:
  "p \<in> set (nodes rel nd) \<Longrightarrow> wf_node nd \<Longrightarrow> list_all plain_segment rel \<Longrightarrow> list_all plain_segment (fst p)"
  "p \<in> set (nodes_children rel cs) \<Longrightarrow> wf_children cs \<Longrightarrow> list_all plain_segment rel \<Longrightarrow> list_all plain_segment (fst p)"
proof (induction rel nd and rel cs arbitrary: p and p rule: nodes_nodes_children.induct)
  case (1 rel nd)
  show ?case
  proof (cases "p = (rel, nd)")
    case False
    then obtain cs where cs: "nd = Directory cs" "p \<in> set (nodes_children rel cs)"
      using "1.prems"(1) by (cases nd) auto
    then show ?thesis using "1.IH" [OF cs] "1.prems" by simp
  qed (simp add: "1.prems")
next
  case (3 rel n nd cs)
  show ?case
  proof (cases "p \<in> set (nodes (rel @ [n]) nd)")
    case True
    then show ?thesis using 3 by simp
  next
    case False
    then have "p \<in> set (nodes_children rel cs)" using "3.prems"(1) unfolding nodes_children.simps set_append by blast
    then show ?thesis using 3 by simp
  qed
qed simp

lemma entry_target:
  assumes "destDir \<noteq> ''''" and "list_all plain_segment rel" and "rel \<noteq> []"
  shows "comps (Join2 destDir (rel_name rel)) = comps destDir @ rel"
    and "comps destDir \<noteq> [] \<Longrightarrow> \<not> escapes_dest destDir (rel_name rel)"
proof -
  have name: "rel_name rel = join_with [sep] rel" using assms(3) by (simp add: rel_name_def)
  have "join_with [sep] rel \<noteq> ''''"
    using Clean_path_Join [OF assms(2,3)] Clean_nonempty [of "path_Join rel"] by simp
  then show c: "comps (Join2 destDir (rel_name rel)) = comps destDir @ rel"
    by (simp add: name comps_Join2 assms(1) split_join_plain [OF assms(2,3)] clean_comps_plain [OF assms(2)])
  show "comps destDir \<noteq> [] \<Longrightarrow> \<not> escapes_dest destDir (rel_name rel)"
    by (simp add: escapes_dest_ok storage_path_ok_iff IsAbs_Join2 assms(1) c)
qed

text \<open>The destination after the entries \<open>ps\<close>: its files are exactly theirs, its directories lead to them.\<close>

definition holds :: "path \<Rightarrow> (path \<times> node) list \<Rightarrow> files \<Rightarrow> bool" where
  "holds D ps fs \<longleftrightarrow>
     (\<forall>q. file_at fs q \<noteq> None \<longrightarrow> prefix D q \<or> prefix q D \<longrightarrow> (\<exists>p\<in>set ps. is_reg (snd p) \<and> q = D @ fst p)) \<and>
     (\<forall>q. is_dir fs (D @ q) \<longrightarrow> q = [] \<or> (\<exists>p\<in>set ps. prefix q (fst p) \<and> (q = fst p \<longrightarrow> \<not> is_reg (snd p)))) \<and>
     (\<forall>p\<in>set ps. \<forall>x. snd p = RegFile x \<longrightarrow> file_at fs (D @ fst p) = Some x)"

lemma mkdir_allI: "(\<And>q. prefix q p \<Longrightarrow> file_at fs q = None) \<Longrightarrow> \<exists>fs'. mkdir_all p fs = Some fs'"
proof -
  assume free: "\<And>q. prefix q p \<Longrightarrow> file_at fs q = None"
  have "\<not> list_ex (\<lambda>q. file_at fs q \<noteq> None) (upto_path p)"
    unfolding list_ex_iff using free by (auto simp: upto_path_iff)
  then show ?thesis unfolding mkdir_all_def by (simp only: if_False) blast
qed

lemma holds_mkdir:
  assumes h: "holds D ps fs" and ap: "\<forall>p\<in>set ps. apart p (rel, nd)" and T: "prefix T rel"
  obtains fs' where "mkdir_all (D @ T) fs = Some fs'"
proof -
  have "file_at fs q = None" if q: "prefix q (D @ T)" for q
  proof (rule ccontr)
    assume f: "file_at fs q \<noteq> None"
    have "prefix D q \<or> prefix q D" using q prefix_same_cases [of D "D @ T" q] by simp
    then obtain p where p: "p \<in> set ps" "is_reg (snd p)" "q = D @ fst p"
      using h f unfolding holds_def by blast
    then have "prefix (fst p) rel" using q T prefix_order.trans by simp
    then show False using ap p(1,2) by (auto simp: apart_def)
  qed
  then show ?thesis using mkdir_allI that by blast
qed

lemma holds_add_dir:
  assumes h: "holds D ps fs" and ap: "\<forall>p\<in>set ps. apart p (rel, nd)" and "\<not> is_reg nd"
    and m: "mkdir_all (D @ rel) fs = Some fs'"
  shows "holds D (ps @ [(rel, nd)]) fs'"
  unfolding holds_def
proof (intro conjI allI impI ballI)
  fix q assume "file_at fs' q \<noteq> None" "prefix D q \<or> prefix q D"
  then show "\<exists>p\<in>set (ps @ [(rel, nd)]). is_reg (snd p) \<and> q = D @ fst p"
    using h mkdir_all_files [OF m] unfolding holds_def by auto
next
  fix q assume "is_dir fs' (D @ q)"
  then have "is_dir fs (D @ q) \<or> prefix (D @ q) (D @ rel)"
    unfolding mkdir_all_dirs [OF m] by (auto simp: upto_path_iff)
  then show "q = [] \<or> (\<exists>p\<in>set (ps @ [(rel, nd)]). prefix q (fst p) \<and> (q = fst p \<longrightarrow> \<not> is_reg (snd p)))"
    using h assms(3) unfolding holds_def by auto
next
  fix p x assume "p \<in> set (ps @ [(rel, nd)])" "snd p = RegFile x"
  then show "file_at fs' (D @ fst p) = Some x"
    using h assms(3) mkdir_all_files [OF m] unfolding holds_def by (auto simp: is_reg_def)
qed

lemma holds_add_file:
  assumes h: "holds D ps fs" and ap: "\<forall>p\<in>set ps. apart p (rel, RegFile x)" and rel: "rel \<noteq> []"
    and m: "mkdir_all (D @ butlast rel) fs = Some fs1"
  shows "create_file (D @ rel) fs1 = Some (set_file (D @ rel) '''' fs1)"
    and "holds D (ps @ [(rel, RegFile x)]) (set_file (D @ rel) x (set_file (D @ rel) '''' fs1))"
proof -
  have shorter: "\<not> prefix rel (butlast rel)" using rel prefix_length_le [of rel "butlast rel"] by (cases rel) auto
  have parent: "is_dir fs1 (D @ butlast rel)"
    unfolding mkdir_all_dirs [OF m] by (auto simp: upto_path_iff is_dir_def)
  have dirs: "is_dir fs1 (D @ q) \<longleftrightarrow> is_dir fs (D @ q) \<or> D @ q \<noteq> [] \<and> prefix q (butlast rel)" for q
    unfolding mkdir_all_dirs [OF m] upto_path_iff prefix_def by auto
  have "\<not> is_dir fs1 (D @ rel)"
  proof
    assume "is_dir fs1 (D @ rel)"
    then have "is_dir fs (D @ rel)" using dirs shorter by blast
    then obtain p where "p \<in> set ps" "prefix rel (fst p)" using h rel unfolding holds_def by blast
    then show False using ap by (auto simp: apart_def is_reg_def)
  qed
  then show "create_file (D @ rel) fs1 = Some (set_file (D @ rel) '''' fs1)"
    using parent rel by (simp add: create_file_def butlast_append)
  let ?fs = "set_file (D @ rel) x (set_file (D @ rel) '''' fs1)"
  show "holds D (ps @ [(rel, RegFile x)]) ?fs"
    unfolding holds_def
  proof (intro conjI allI impI ballI)
    fix q assume q: "file_at ?fs q \<noteq> None" "prefix D q \<or> prefix q D"
    show "\<exists>p\<in>set (ps @ [(rel, RegFile x)]). is_reg (snd p) \<and> q = D @ fst p"
    proof (cases "q = D @ rel")
      case False
      then have "file_at fs q \<noteq> None" using q(1) mkdir_all_files [OF m] by simp
      then show ?thesis using h q(2) unfolding holds_def by auto
    qed (simp add: is_reg_def)
  next
    fix q assume "is_dir ?fs (D @ q)"
    then consider "is_dir fs (D @ q)" | "prefix q (butlast rel)" using dirs by auto
    then show "q = [] \<or> (\<exists>p\<in>set (ps @ [(rel, RegFile x)]). prefix q (fst p) \<and> (q = fst p \<longrightarrow> \<not> is_reg (snd p)))"
    proof cases
      case 1
      then show ?thesis using h unfolding holds_def by auto
    next
      case 2
      then have "prefix q rel" "q \<noteq> rel" using prefix_order.trans [OF 2 prefixeq_butlast] shorter by auto
      then show ?thesis by auto
    qed
  next
    fix p y assume p: "p \<in> set (ps @ [(rel, RegFile x)])" "snd p = RegFile y"
    show "file_at ?fs (D @ fst p) = Some y"
    proof (cases "p \<in> set ps")
      case True
      then have "apart p (rel, RegFile x)" using ap by blast
      then have "fst p \<noteq> rel" using p(2) by (auto simp: apart_def is_reg_def)
      moreover have "file_at fs (D @ fst p) = Some y" using h True p(2) unfolding holds_def by blast
      ultimately show ?thesis using mkdir_all_files [OF m] by simp
    next
      case False
      then show ?thesis using p by auto
    qed
  qed
qed

lemma restore_holds:
  assumes "destDir \<noteq> ''''" and D: "comps destDir \<noteq> []"
    and "\<forall>p\<in>set ts. fst p \<noteq> [] \<and> list_all plain_segment (fst p) \<and> (is_reg (snd p) \<or> (\<exists>cs. snd p = Directory cs))"
    and "sorted_wrt apart (ps @ ts)" and "holds (comps destDir) ps fs"
  shows "\<exists>fs'. restore_entries (\<lambda>_ _. False) Map.empty destDir (map entry_for ts) fs = (fs', None) \<and>
    holds (comps destDir) (ps @ ts) fs'"
  using assms(3-)
proof (induction ts arbitrary: ps fs)
  case (Cons t ts)
  obtain rel nd where t: "t = (rel, nd)" by (cases t)
  have rel: "rel \<noteq> []" "list_all plain_segment rel" and nd: "is_reg nd \<or> (\<exists>cs. nd = Directory cs)"
    using Cons.prems(1) by (simp_all add: t)
  have ap: "\<forall>p\<in>set ps. apart p (rel, nd)" using Cons.prems(2) by (simp add: t sorted_wrt_append)
  note target = entry_target [OF assms(1) rel(2,1)]
  have name: "te_Name (entry_for (rel, nd)) = rel_name rel" by (simp add: entry_for_def)
  have "\<exists>fs1. restore_entry (\<lambda>_ _. False) Map.empty destDir (entry_for (rel, nd)) fs = (fs1, None) \<and>
      holds (comps destDir) (ps @ [(rel, nd)]) fs1"
  proof (cases nd)
    case (RegFile x)
    obtain fs1 where m: "mkdir_all (comps destDir @ butlast rel) fs = Some fs1"
      using holds_mkdir [OF Cons.prems(3) ap, of "butlast rel"] prefixeq_butlast by blast
    note added = holds_add_file [OF Cons.prems(3) ap [unfolded RegFile] rel(1) m]
    have "restore_entry (\<lambda>_ _. False) Map.empty destDir (entry_for (rel, nd)) fs =
        (set_file (comps destDir @ rel) x (set_file (comps destDir @ rel) '''' fs1), None)"
      using target D rel(1) m added(1)
      by (simp add: restore_entry_def entry_for_def RegFile restore_regular_def mkdir_no_links butlast_append Let_def)
    then show ?thesis using added(2) RegFile by simp
  next
    case (Directory cs)
    obtain fs1 where m: "mkdir_all (comps destDir @ rel) fs = Some fs1"
      using holds_mkdir [OF Cons.prems(3) ap, of rel] by auto
    have "restore_entry (\<lambda>_ _. False) Map.empty destDir (entry_for (rel, nd)) fs = (fs1, None)"
      using target D m by (simp add: restore_entry_def entry_for_def Directory mkdir_no_links)
    moreover have "\<not> is_reg nd" by (simp add: Directory is_reg_def)
    ultimately show ?thesis using holds_add_dir [OF Cons.prems(3) ap _ m] by blast
  qed (use nd in \<open>auto simp: is_reg_def\<close>)
  then obtain fs1 where e: "restore_entry (\<lambda>_ _. False) Map.empty destDir (entry_for (rel, nd)) fs = (fs1, None)"
    and h1: "holds (comps destDir) (ps @ [(rel, nd)]) fs1" by blast
  have "\<exists>fs'. restore_entries (\<lambda>_ _. False) Map.empty destDir (map entry_for ts) fs1 = (fs', None) \<and>
      holds (comps destDir) ((ps @ [(rel, nd)]) @ ts) fs'"
    using Cons.IH [of "ps @ [(rel, nd)]" fs1] Cons.prems(1,2) h1 t by simp
  then show ?case using e t by simp
qed auto

text \<open>The destination is fresh: no file on the way to it, nothing below it.\<close>

definition fresh_dest :: "path \<Rightarrow> files \<Rightarrow> bool" where
  "fresh_dest D fs \<longleftrightarrow>
     list_all (\<lambda>q. \<not> prefix D q \<and> \<not> prefix q D) (map fst (fs_files fs)) \<and>
     list_all (\<lambda>q. \<not> strict_prefix D q) (fs_dirs fs)"

lemma fresh_holds:
  assumes "fresh_dest D fs" and m: "mkdir_all D fs = Some fs'" and "D \<noteq> []"
  shows "holds D [] fs'"
proof -
  have files: "\<not> prefix D q \<and> \<not> prefix q D" if "file_at fs q \<noteq> None" for q
  proof -
    obtain x where "(q, x) \<in> set (fs_files fs)" using \<open>file_at fs q \<noteq> None\<close> by (auto simp: file_at_def dest: map_of_SomeD)
    then show ?thesis using assms(1) unfolding fresh_dest_def list_all_iff by fastforce
  qed
  have "q = []" if "is_dir fs' (D @ q)" for q
  proof (rule ccontr)
    assume q: "q \<noteq> []"
    have "is_dir fs (D @ q) \<or> prefix (D @ q) D" using that unfolding mkdir_all_dirs [OF m] by (auto simp: upto_path_iff)
    then have "D @ q \<in> set (fs_dirs fs)" using q assms(3) by (auto simp: is_dir_def prefix_def)
    then show False using assms(1) q by (auto simp: fresh_dest_def list_all_iff strict_prefix_def)
  qed
  then show ?thesis using files mkdir_all_files [OF m] by (auto simp: holds_def)
qed

lemma fresh_mkdir: "fresh_dest D fs \<Longrightarrow> \<exists>fs'. mkdir_all D fs = Some fs'"
proof (rule mkdir_allI)
  fix q assume f: "fresh_dest D fs" and "prefix q D"
  then have "q \<notin> fst ` set (fs_files fs)" by (auto simp: fresh_dest_def list_all_iff)
  then show "file_at fs q = None" by (simp add: file_at_def map_of_eq_None_iff)
qed

definition tar_laws :: "(bool \<Rightarrow> tar_entry list \<Rightarrow> string) \<Rightarrow>
    (bool \<Rightarrow> string \<Rightarrow> (tar_entry list \<times> string option) option) \<Rightarrow> bool" where
  "tar_laws pack untar \<longleftrightarrow>
     (\<forall>c es. 2 \<le> length (pack c es) \<and> untar (take 2 (pack c es) = gzip_magic) (pack c es) = Some (es, None))"

lemma BackupFilesystem_OkD:
  assumes "BackupFilesystem io pack sha tmp src mode inc exc st lst fs = (fs1, Inr r)"
  obtains n es c where "st = Some n" "source_entries io inc exc src n lst = Inr es" "file_at fs1 tmp = Some (pack c es)"
    "br_Checksum r = sha (pack c es)" "br_ArchivePath r = tmp" "filter (\<lambda>t. te_Type t = TypeReg) es \<noteq> []"
    "br_BytesCompressed r = int (length (pack c es))"
  using assms by (auto simp: BackupFilesystem_def Let_def split: option.splits sum.splits if_splits)

subsection \<open>Instances\<close>

text \<open>A simple archive format that meets \<open>tar_laws\<close>, and a small source tree.\<close>

definition enc_str :: "string \<Rightarrow> string" where
  "enc_str s = concat (map (\<lambda>c. [CHR ''+'', c]) s) @ ''-''"

fun dec_str :: "string \<Rightarrow> string \<times> string" where
  "dec_str (m # c # r) = (if m = CHR ''+'' then (let (a, b) = dec_str r in (c # a, b)) else ([], c # r))"
| "dec_str x = ([], [])"

definition type_char :: "entry_type \<Rightarrow> char" where
  "type_char ty = (case ty of TypeReg \<Rightarrow> CHR ''0'' | TypeLink \<Rightarrow> CHR ''2'' | TypeDir \<Rightarrow> CHR ''5'' | TypeOther \<Rightarrow> CHR ''6'')"

definition char_type :: "char \<Rightarrow> entry_type" where
  "char_type c = (if c = CHR ''0'' then TypeReg else if c = CHR ''2'' then TypeLink
     else if c = CHR ''5'' then TypeDir else TypeOther)"

definition enc_entry :: "tar_entry \<Rightarrow> string" where
  "enc_entry t = type_char (te_Type t) # (if te_Broken t then CHR ''!'' else CHR ''.'') #
     enc_str (te_Name t) @ enc_str (te_Body t)"

fun dec_entries :: "nat \<Rightarrow> string \<Rightarrow> tar_entry list" where
  "dec_entries (Suc n) (ty # br # x) =
     (let (name, y) = dec_str x; (body, z) = dec_str y in
      \<lparr>te_Name = name, te_Type = char_type ty, te_Body = body, te_Broken = (br = CHR ''!'')\<rparr> # dec_entries n z)"
| "dec_entries n x = []"

definition toy_pack :: "bool \<Rightarrow> tar_entry list \<Rightarrow> string" where
  "toy_pack c es = ''tar'' @ concat (map enc_entry es) @ ''.''"

definition toy_untar :: "bool \<Rightarrow> string \<Rightarrow> (tar_entry list \<times> string option) option" where
  "toy_untar gz x = Some (dec_entries (length x) (drop 3 x), None)"

lemma dec_str_enc: "r \<noteq> [] \<Longrightarrow> dec_str (enc_str s @ r) = (s, r)"
proof (induction s)
  case Nil
  then show ?case by (cases r) (simp_all add: enc_str_def)
next
  case (Cons c s)
  then show ?case by (simp add: enc_str_def)
qed

lemma enc_str_nonempty [simp]: "enc_str s \<noteq> []"
  by (simp add: enc_str_def)

lemma dec_entries_enc: "length es \<le> n \<Longrightarrow> dec_entries n (concat (map enc_entry es) @ ''.'') = es"
proof (induction es arbitrary: n)
  case Nil
  then show ?case by (cases n) simp_all
next
  case (Cons t ts)
  then obtain m where "n = Suc m" "length ts \<le> m" by (cases n) auto
  moreover have "char_type (type_char (te_Type t)) = te_Type t"
    by (cases "te_Type t") (simp_all add: char_type_def type_char_def)
  ultimately show ?case using Cons.IH [of m] by (simp add: enc_entry_def dec_str_enc)
qed

lemma entries_length: "length es \<le> length (concat (map enc_entry es))"
  by (induction es) (simp_all add: enc_entry_def)

lemma toy_tar: "tar_laws toy_pack toy_untar"
proof -
  have "length es \<le> length (toy_pack c es)" for c es using entries_length [of es] by (simp add: toy_pack_def)
  then show ?thesis
    by (simp add: tar_laws_def toy_untar_def dec_entries_enc toy_pack_def)
qed

definition web_root :: "(string \<times> node) list" where
  "web_root = [(''a.txt'', RegFile ''alpha''), (''sub'', Directory [(''b.txt'', RegFile ''beta'')])]"

definition tmp_tree :: files where
  "tmp_tree = \<lparr>fs_files = [], fs_dirs = [[''tmp'']]\<rparr>"

abbreviation backup_of :: "(string \<times> node) list \<Rightarrow> files \<times> (string + backup_result)" where
  "backup_of cs \<equiv> BackupFilesystem (\<lambda>_ _. False) toy_pack (\<lambda>_. ''d'') [''tmp'', ''x.tar''] ''/www'' ''NORMAL'' [] []
     (Some (Directory cs)) (Directory cs) tmp_tree"





text \<open>A pattern selects nothing below a directory it does not match itself: \<open>*.log\<close> matches
  \<open>sub/app.log\<close>, but a walk restricted to it skips \<open>sub\<close>.\<close>

lemma include_skips_subdirectory:
  "included ''sub/app.log'' [''*.log''] [] \<and>
   walk (\<lambda>_ _. False) [''*.log''] [] [] (Directory [(''a.log'', RegFile ''1''), (''sub'', Directory [(''app.log'', RegFile ''2'')])])
     = Inr [entry_for ([''a.log''], RegFile ''1'')]"
  by code_simp

lemma link_entry_stops:
  "list_ex (\<lambda>t. te_Type t = TypeLink) es \<Longrightarrow> snd (restore_entries io links destDir es fs) \<noteq> None"
proof (induction es arbitrary: fs)
  case (Cons t ts)
  show ?case
  proof (cases "te_Type t = TypeLink")
    case True
    then show ?thesis by (simp add: restore_entry_def)
  next
    case False
    then have "list_ex (\<lambda>t. te_Type t = TypeLink) ts" using Cons.prems by simp
    then show ?thesis using Cons.IH by (auto split: prod.split option.split)
  qed
qed simp

text \<open>A backup that contains a symbolic link can never be restored: the link is archived as a link, and
  \<open>RestoreLocal\<close> refuses every archive with a link entry.\<close>

theorem link_backup_unrestorable:
  assumes "tar_laws pack untar"
    and "BackupFilesystem io pack sha tmp src mode inc exc (Some (Directory cs)) nd fs = (fs1, Inr r)"
    and "(rel, Symlink targ) \<in> set (filter (keeps inc exc) (nodes [] nd))"
  shows "snd (RestoreLocal io' untar links tmp destDir fs1) \<noteq> None"
proof -
  obtain es c where es: "walk io inc exc [] nd = Inr es" and tmp: "file_at fs1 tmp = Some (pack c es)"
    using assms(2) by (rule BackupFilesystem_OkD) (auto simp: source_entries_def simp del: walk.simps)
  have all: "es = map entry_for (filter (keeps inc exc) (nodes [] nd))" using walk_keeps(1) [OF es] by simp
  have "entry_for (rel, Symlink targ) \<in> set es"
    using assms(3) unfolding all set_map by (rule imageI)
  moreover have "te_Type (entry_for (rel, Symlink targ)) = TypeLink" by (simp add: entry_for_def)
  ultimately have link: "list_ex (\<lambda>t. te_Type t = TypeLink) es" unfolding list_ex_iff by blast
  have law: "untar (take 2 (pack c es) = gzip_magic) (pack c es) = Some (es, None)"
    using assms(1) unfolding tar_laws_def by blast
  show ?thesis
  proof (cases "mkdir_io io' links (comps destDir) fs1")
    case (Some fs2)
    have "file_at fs2 tmp = Some (pack c es)"
      using Some tmp mkdir_all_files by (auto simp: mkdir_io_def split: if_splits)
    moreover obtain fs3 e where "restore_entries io' links destDir es fs2 = (fs3, Some e)"
      using link_entry_stops [OF link, of io' links destDir fs2]
      by (cases "restore_entries io' links destDir es fs2") auto
    ultimately show ?thesis using Some law by (simp add: RestoreLocal_def)
  qed (simp add: RestoreLocal_def)
qed

theorem link_backup_unrestorable_witness:
  "snd (RestoreLocal (\<lambda>_ _. False) toy_untar Map.empty [''tmp'', ''x.tar''] ''/out''
     (fst (backup_of ((''z'', Symlink ''a.txt'') # web_root)))) \<noteq> None"
proof -
  let ?cs = "(''z'', Symlink ''a.txt'') # web_root"
  obtain r where r: "backup_of ?cs = (fst (backup_of ?cs), Inr r)"
  proof (cases "snd (backup_of ?cs)")
    case (Inl e)
    moreover have "case snd (backup_of ?cs) of Inl _ \<Rightarrow> False | Inr _ \<Rightarrow> True" by code_simp
    ultimately show ?thesis by simp
  qed (metis prod.collapse that)
  have "hd (filter (keeps [] []) (nodes [] (Directory ?cs))) = ([''z''], Symlink ''a.txt'')"
    "filter (keeps [] []) (nodes [] (Directory ?cs)) \<noteq> []" by code_simp+
  then have "([''z''], Symlink ''a.txt'') \<in> set (filter (keeps [] []) (nodes [] (Directory ?cs)))"
    by (metis list.set_sel(1))
  then show ?thesis by (rule link_backup_unrestorable [OF toy_tar r])
qed

end
