(* ===== verification/Models.thy ===== *)
theory Models
  imports Prelude
begin

text \<open>
  The data model of \<open>server/internal/models\<close>: one record per table, the string
  enumerations as datatypes (a constructor \<open>...Other\<close> carries any text a client may
  send), and the pure decisions that live beside them: the two transition tables, the
  severity order, the agent life cycle and the resolution of a job's effective policy.
  A relation that GORM preloads is a field of the row it is loaded into; it is
  \<open>None\<close> in a stored row.
\<close>

subsection \<open>Organizations and members\<close>

datatype member_role = RoleOwner | RoleAdmin | RoleOperator | RoleViewer | RoleOther string

record organization = base +
  org_Name :: string
  org_Slug :: string
  org_UserLimit :: int

record organization_member = base +
  mem_OrganizationID :: uuid
  mem_UserID :: uuid
  mem_Role :: member_role

record user = base +
  user_Email :: string
  user_Name :: string
  user_PasswordHash :: string

record audit_log = base +
  aud_OrganizationID :: uuid
  aud_UserID :: uuid
  aud_Action :: string
  aud_Resource :: string
  aud_ResourceID :: string
  aud_IPAddress :: string

subsection \<open>Agents\<close>

datatype agent_status = AgentOnline | AgentOffline

datatype lifecycle = LifecyclePending | LifecycleOnline | LifecycleOffline | LifecycleRevoked

definition OnlineThreshold :: duration where
  "OnlineThreshold = 3 * minute"

record agent = base +
  ag_OrganizationID :: uuid
  ag_Name :: string
  ag_TokenHash :: "string option"
  ag_TokenRotatedAt :: "time option"
  ag_Status :: agent_status
  ag_Version :: string
  ag_LastSeenAt :: "time option"
  ag_RegistrationKey :: "string option"
  ag_Platform :: string
  ag_Architecture :: string
  ag_MachineName :: string
  ag_InstalledAt :: "time option"
  ag_RevokedAt :: "time option"
  ag_RegistrationExpiresAt :: "time option"

definition Lifecycle :: "time \<Rightarrow> agent \<Rightarrow> lifecycle" where
  "Lifecycle now a =
     (if ag_RevokedAt a \<noteq> None then LifecycleRevoked
      else if ag_TokenHash a = None then LifecyclePending
      else (case ag_LastSeenAt a of
              Some seen \<Rightarrow> if now - seen < OnlineThreshold then LifecycleOnline
                           else LifecycleOffline
            | None \<Rightarrow> LifecycleOffline))"

record enrollment_token = base +
  tok_OrganizationID :: uuid
  tok_AgentID :: "uuid option"
  tok_TokenHash :: string
  tok_ExpiresAt :: time
  tok_UsedAt :: "time option"
  tok_RevokedAt :: "time option"
  tok_CreatedBy :: "uuid option"

record machine = base +
  mach_OrganizationID :: uuid
  mach_AgentID :: uuid
  mach_Hostname :: string
  mach_OS :: string
  mach_IPAddress :: string

subsection \<open>Storage targets and connections\<close>

datatype storage_type = StorageS3 | StorageLocal | StorageSMB | StorageOther string

record storage_target = base +
  st_OrganizationID :: uuid
  st_Name :: string
  st_Type :: storage_type
  st_Bucket :: string
  st_Region :: string
  st_Endpoint :: string
  st_UsePathStyle :: bool
  st_EncryptedAccessKey :: string
  st_EncryptedSecretKey :: string
  st_Path :: string

datatype connection_status =
  ConnectionUnknown | ConnectionConnected | ConnectionDisconnected | ConnectionError

record database_connection = base +
  conn_OrganizationID :: uuid
  conn_AgentID :: uuid
  conn_Name :: string
  conn_Type :: string
  conn_Host :: string
  conn_Port :: int
  conn_Username :: string
  conn_EncryptedPassword :: string
  conn_Status :: connection_status
  conn_LastCheckedAt :: "time option"
  conn_DatabaseNames :: string
  conn_DatabaseMetadata :: string

subsection \<open>Policies, schedules and jobs\<close>

definition ModeNormal :: string where "ModeNormal = ''NORMAL''"
definition ModeCompressed :: string where "ModeCompressed = ''COMPRESSED''"
definition StrategyFull :: string where "StrategyFull = ''FULL''"

record backup_policy = base +
  pol_OrganizationID :: uuid
  pol_Name :: string
  pol_Strategy :: string
  pol_CronExpr :: string
  pol_Timezone :: string
  pol_Enabled :: bool
  pol_Mode :: string
  pol_Encrypted :: bool
  pol_RetentionDays :: int
  pol_VerificationEnabled :: bool
  pol_MaxRetries :: int
  pol_RetryDelaySeconds :: int
  pol_SLATargetMinutes :: int
  pol_RPOTargetMinutes :: int
  pol_RTOTargetMinutes :: int

record backup_schedule = base +
  sch_BackupJobID :: uuid
  sch_CronExpr :: string
  sch_Timezone :: string

record backup_job = base +
  job_OrganizationID :: uuid
  job_AgentID :: uuid
  job_StorageTargetID :: uuid
  job_PolicyID :: "uuid option"
  job_Name :: string
  job_SourceType :: string
  job_ConnectionID :: "uuid option"
  job_SourcePath :: string
  job_SourceDatabase :: string
  job_IncludePatterns :: string
  job_ExcludePatterns :: string
  job_ExportFormat :: string
  job_Mode :: string
  job_Encrypted :: bool
  job_RetentionDays :: int
  job_Enabled :: bool
  job_SLATargetMinutes :: int
  job_RPOTargetMinutes :: int
  job_RTOTargetMinutes :: int
  job_Schedule :: "backup_schedule option"
  job_Policy :: "backup_policy option"

record backup_size_baseline = base +
  bl_BackupJobID :: uuid
  bl_AvgBytes :: int
  bl_SampleCount :: int
  bl_LastUpdatedAt :: time

record resolved_policy =
  rp_CronExpr :: string
  rp_Timezone :: string
  rp_Enabled :: bool
  rp_Mode :: string
  rp_Encrypted :: bool
  rp_RetentionDays :: int
  rp_VerificationEnabled :: bool
  rp_MaxRetries :: int
  rp_RetryDelaySeconds :: int
  rp_SLATargetMinutes :: int
  rp_RPOTargetMinutes :: int
  rp_RTOTargetMinutes :: int
  rp_FromPolicy :: bool
  rp_PolicyID :: "uuid option"

definition EffectivePolicy :: "backup_job \<Rightarrow> resolved_policy" where
  "EffectivePolicy job =
    (case (job_Policy job, job_PolicyID job) of
       (Some p, Some pid) \<Rightarrow>
         let tz = (if pol_Timezone p = '''' then ''UTC'' else pol_Timezone p);
             (c, t) = (if pol_CronExpr p \<noteq> '''' then (pol_CronExpr p, tz)
                       else case job_Schedule job of
                              Some s \<Rightarrow> (sch_CronExpr s, sch_Timezone s)
                            | None \<Rightarrow> ('''', ''''))
         in \<lparr>rp_CronExpr = c, rp_Timezone = (if t = '''' then ''UTC'' else t),
              rp_Enabled = pol_Enabled p, rp_Mode = pol_Mode p,
              rp_Encrypted = pol_Encrypted p, rp_RetentionDays = pol_RetentionDays p,
              rp_VerificationEnabled = pol_VerificationEnabled p,
              rp_MaxRetries = pol_MaxRetries p, rp_RetryDelaySeconds = pol_RetryDelaySeconds p,
              rp_SLATargetMinutes = pol_SLATargetMinutes p,
              rp_RPOTargetMinutes = pol_RPOTargetMinutes p,
              rp_RTOTargetMinutes = pol_RTOTargetMinutes p,
              rp_FromPolicy = True, rp_PolicyID = Some pid\<rparr>
     | _ \<Rightarrow>
         let (c, t) = (case job_Schedule job of
                         Some s \<Rightarrow> (sch_CronExpr s,
                                    if sch_Timezone s = '''' then ''UTC'' else sch_Timezone s)
                       | None \<Rightarrow> ('''', ''UTC''))
         in \<lparr>rp_CronExpr = c, rp_Timezone = t,
              rp_Enabled = job_Enabled job, rp_Mode = job_Mode job,
              rp_Encrypted = job_Encrypted job, rp_RetentionDays = job_RetentionDays job,
              rp_VerificationEnabled = True, rp_MaxRetries = 0, rp_RetryDelaySeconds = 300,
              rp_SLATargetMinutes = job_SLATargetMinutes job,
              rp_RPOTargetMinutes = job_RPOTargetMinutes job,
              rp_RTOTargetMinutes = job_RTOTargetMinutes job,
              rp_FromPolicy = False, rp_PolicyID = None\<rparr>)"

subsection \<open>Runs, artifacts and chunks\<close>

datatype run_status =
  RunPending | RunRunning | RunUploading | RunVerifying
| RunCompleted | RunFailed | RunCancelled | RunOther string

text \<open>\<open>models.CanTransition\<close>, and the set of states the in-flight guards count.\<close>

fun CanTransition :: "run_status \<Rightarrow> run_status \<Rightarrow> bool" where
  "CanTransition RunPending to \<longleftrightarrow> to = RunRunning \<or> to = RunCancelled"
| "CanTransition RunRunning to \<longleftrightarrow> to = RunUploading \<or> to = RunFailed \<or> to = RunCancelled"
| "CanTransition RunUploading to \<longleftrightarrow> to = RunVerifying \<or> to = RunFailed \<or> to = RunCancelled"
| "CanTransition RunVerifying to \<longleftrightarrow> to = RunCompleted \<or> to = RunFailed \<or> to = RunCancelled"
| "CanTransition _ to \<longleftrightarrow> False"

fun run_status_text :: "run_status \<Rightarrow> string" where
  "run_status_text RunPending = ''PENDING''"
| "run_status_text RunRunning = ''RUNNING''"
| "run_status_text RunUploading = ''UPLOADING''"
| "run_status_text RunVerifying = ''VERIFYING''"
| "run_status_text RunCompleted = ''COMPLETED''"
| "run_status_text RunFailed = ''FAILED''"
| "run_status_text RunCancelled = ''CANCELLED''"
| "run_status_text (RunOther s) = s"

record backup_run = base +
  run_OrganizationID :: uuid
  run_BackupJobID :: uuid
  run_AgentID :: uuid
  run_StorageTargetID :: uuid
  run_Status :: run_status
  run_ScheduledFor :: "time option"
  run_CancelRequested :: bool
  run_RetryOfRunID :: "uuid option"
  run_RetryAttempt :: int
  run_StartedAt :: "time option"
  run_CompletedAt :: "time option"
  run_BytesRead :: int
  run_BytesCompressed :: int
  run_BytesUploaded :: int
  run_DurationSeconds :: int
  run_SourceType :: string
  run_ErrorMessage :: string
  run_FailureCategory :: string
  run_StoragePath :: string
  run_Checksum :: string
  run_DataKeyEncrypted :: string

definition ArtifactUnverified :: string where "ArtifactUnverified = ''PENDING''"
definition ArtifactVerified :: string where "ArtifactVerified = ''VERIFIED''"
definition ArtifactVerifyFail :: string where "ArtifactVerifyFail = ''FAILED''"

record backup_artifact = base +
  art_BackupRunID :: uuid
  art_Name :: string
  art_Size :: int
  art_Checksum :: string
  art_StoragePath :: string
  art_StorageTargetID :: uuid
  art_VerifiedAt :: "time option"
  art_VerificationStatus :: string

record backup_chunk = base +
  chk_ArtifactID :: uuid
  chk_Index :: int
  chk_Size :: int
  chk_Checksum :: string
  chk_StoragePath :: string
  chk_Uploaded :: bool

subsection \<open>Restores\<close>

datatype restore_status =
  RestorePending | RestoreRunning | RestoreCompleted | RestoreFailed | RestoreOther string

fun CanRestoreTransition :: "restore_status \<Rightarrow> restore_status \<Rightarrow> bool" where
  "CanRestoreTransition RestorePending to \<longleftrightarrow> to = RestoreRunning \<or> to = RestoreFailed"
| "CanRestoreTransition RestoreRunning to \<longleftrightarrow> to = RestoreCompleted \<or> to = RestoreFailed"
| "CanRestoreTransition _ to \<longleftrightarrow> False"

record restore_job = base +
  rs_OrganizationID :: uuid
  rs_BackupRunID :: uuid
  rs_AgentID :: uuid
  rs_ConnectionID :: "uuid option"
  rs_Status :: restore_status
  rs_DestinationPath :: string
  rs_TargetDatabase :: string
  rs_StartedAt :: "time option"
  rs_CompletedAt :: "time option"
  rs_DurationSeconds :: int
  rs_ErrorMessage :: string

subsection \<open>Alerts and notification settings\<close>

datatype alert_type =
  AlertBackupFailed | AlertBackupMissed | AlertAgentOffline
| AlertStorageLow | AlertRestoreFailed | AlertVerifyFailed

datatype severity = SeverityInfo | SeverityWarning | SeverityCritical | SeverityOther string

fun SeverityRank :: "severity \<Rightarrow> int" where
  "SeverityRank SeverityCritical = 3"
| "SeverityRank SeverityWarning = 2"
| "SeverityRank _ = 1"

datatype alert_status = AlertFiring | AlertAcked | AlertResolved

fun DefaultSeverity :: "alert_type \<Rightarrow> severity" where
  "DefaultSeverity AlertBackupFailed = SeverityCritical"
| "DefaultSeverity AlertBackupMissed = SeverityCritical"
| "DefaultSeverity AlertAgentOffline = SeverityCritical"
| "DefaultSeverity AlertRestoreFailed = SeverityCritical"
| "DefaultSeverity _ = SeverityWarning"

record alert = base +
  al_OrganizationID :: uuid
  al_Type :: alert_type
  al_Severity :: severity
  al_Status :: alert_status
  al_Title :: string
  al_Message :: string
  al_Read :: bool
  al_DedupKey :: "string option"
  al_OccurrenceCount :: int
  al_AcknowledgedBy :: "uuid option"
  al_AcknowledgedAt :: "time option"
  al_ResolvedAt :: "time option"
  al_LastOccurredAt :: "time option"
  al_BackupJobID :: "uuid option"
  al_AgentID :: "uuid option"

text \<open>These two tables have no soft delete and are keyed by their owner.\<close>

record notification_settings =
  ns_OrganizationID :: uuid
  ns_WebhookURL :: string
  ns_WebhookEnabled :: bool
  ns_WebhookSecret :: string
  ns_QuietHoursStart :: int
  ns_QuietHoursEnd :: int
  ns_MinEmailSeverity :: severity
  ns_OfflineThresholdMin :: int
  ns_MissedWindowMult :: int
  ns_UpdatedAt :: time

record user_notification_prefs =
  np_UserID :: uuid
  np_EmailEnabled :: bool
  np_MinSeverity :: severity
  np_UpdatedAt :: time

subsection \<open>Life cycles\<close>

text \<open>
  What the two transition tables share: every step climbs a rank, so a life cycle is a
  finite climb and a state without successors is final.
\<close>

locale life_cycle =
  fixes can :: "'s \<Rightarrow> 's \<Rightarrow> bool"
    and rank :: "'s \<Rightarrow> nat"
    and top :: nat
  assumes climbs: "can a b \<Longrightarrow> rank a < rank b"
    and bounded: "rank a \<le> top"
begin

lemma no_self_step: "\<not> can a a"
  using climbs [of a a] by blast

lemma steps_climb: "can\<^sup>+\<^sup>+ a b \<Longrightarrow> rank a < rank b"
  by (induction rule: tranclp_induct) (auto dest: climbs)

lemma never_returns: "can\<^sup>+\<^sup>+ a b \<Longrightarrow> \<not> can\<^sup>*\<^sup>* b a"
proof
  assume "can\<^sup>+\<^sup>+ a b" and "can\<^sup>*\<^sup>* b a"
  then have "can\<^sup>+\<^sup>+ a a" by (rule tranclp_rtranclp_tranclp)
  then show False using steps_climb by blast
qed

lemma relpow_climbs: "(can ^^ n) a b \<Longrightarrow> rank a + n \<le> rank b"
proof (induction n arbitrary: b)
  case 0
  then show ?case by simp
next
  case (Suc n)
  then obtain c where "(can ^^ n) a c" and "can c b" by auto
  then show ?case using Suc.IH [of c] climbs [of c b] by simp
qed

lemma bounded_history: "(can ^^ n) a b \<Longrightarrow> n \<le> top"
  using relpow_climbs [of n a b] bounded [of b] by simp

lemma final_stays: "(\<And>b. \<not> can a b) \<Longrightarrow> can\<^sup>*\<^sup>* a b \<Longrightarrow> b = a"
  by (metis converse_rtranclpE)

end

fun run_rank :: "run_status \<Rightarrow> nat" where
  "run_rank RunPending = 0"
| "run_rank RunRunning = 1"
| "run_rank RunUploading = 2"
| "run_rank RunVerifying = 3"
| "run_rank _ = 4"

fun restore_rank :: "restore_status \<Rightarrow> nat" where
  "restore_rank RestorePending = 0"
| "restore_rank RestoreRunning = 1"
| "restore_rank _ = 2"

definition run_terminal :: "run_status \<Rightarrow> bool" where
  "run_terminal s \<longleftrightarrow> s \<in> {RunCompleted, RunFailed, RunCancelled}"

definition run_in_flight :: "run_status \<Rightarrow> bool" where
  "run_in_flight s \<longleftrightarrow> s \<in> {RunPending, RunRunning, RunUploading, RunVerifying}"

interpretation run_cycle: life_cycle CanTransition run_rank 4
proof
  show "CanTransition a b \<Longrightarrow> run_rank a < run_rank b" for a b
    by (cases a) auto
  show "run_rank a \<le> 4" for a
    by (cases a) auto
qed

interpretation restore_cycle: life_cycle CanRestoreTransition restore_rank 2
proof
  show "CanRestoreTransition a b \<Longrightarrow> restore_rank a < restore_rank b" for a b
    by (cases a) auto
  show "restore_rank a \<le> 2" for a
    by (cases a) auto
qed

lemma CanTransition_source: "CanTransition a b \<Longrightarrow> run_in_flight a"
  by (cases a) (auto simp: run_in_flight_def)

lemma CanTransition_target: "CanTransition a b \<Longrightarrow> run_in_flight b \<or> run_terminal b"
  by (cases a) (auto simp: run_in_flight_def run_terminal_def)

lemma terminal_no_transition: "run_terminal a \<Longrightarrow> \<not> CanTransition a b"
  by (auto simp: run_terminal_def)

lemma in_flight_not_terminal: "run_in_flight a \<Longrightarrow> \<not> run_terminal a"
  by (auto simp: run_in_flight_def run_terminal_def)

lemma in_flight_can_cancel: "run_in_flight a \<Longrightarrow> CanTransition a RunCancelled"
  by (auto simp: run_in_flight_def)

lemma can_cancel_iff: "CanTransition a RunCancelled \<longleftrightarrow> run_in_flight a"
  by (cases a) (auto simp: run_in_flight_def)

end
