(* ===== verification/Database.thy ===== *)
theory Database
  imports Models
begin

text \<open>
  The server's persistent state: the record \<open>db\<close> of all tables the handlers read and
  write (\<open>server/internal/db\<close> creates them; the unique indexes come from its
  migrations), and an outbox of the effects a call hands to other systems: events for the
  dashboards, commands for the agents, emails and webhooks.

  \<open>Find\<close> without an \<open>Order\<close> reads rows in insertion order.  A query by \<open>First\<close> names
  a primary key or the columns of a unique index wherever the code uses it, so at most one
  row matches.  A statement that the code does not check for errors is taken to succeed.
\<close>

subsection \<open>Effects\<close>

datatype effect =
  PublishRun uuid uuid run_status
| PublishPresence uuid uuid agent_status
| PublishEntity uuid string string uuid
| PublishAlert uuid uuid alert_status
| AgentCancel uuid uuid
| GrpcRunBackup uuid uuid uuid
| GrpcCancelBackup uuid uuid
| GrpcStartRestore uuid uuid uuid
| GrpcDisconnect uuid
| SendEmail "string list" string string
| PostWebhook string uuid
| RemoveFile string

subsection \<open>State\<close>

record db =
  db_orgs :: "organization list"
  db_users :: "user list"
  db_members :: "organization_member list"
  db_agents :: "agent list"
  db_tokens :: "enrollment_token list"
  db_machines :: "machine list"
  db_targets :: "storage_target list"
  db_conns :: "database_connection list"
  db_policies :: "backup_policy list"
  db_schedules :: "backup_schedule list"
  db_jobs :: "backup_job list"
  db_runs :: "backup_run list"
  db_artifacts :: "backup_artifact list"
  db_chunks :: "backup_chunk list"
  db_restores :: "restore_job list"
  db_baselines :: "backup_size_baseline list"
  db_alerts :: "alert list"
  db_settings :: "notification_settings list"
  db_prefs :: "user_notification_prefs list"
  db_audits :: "audit_log list"
  outbox :: "effect list"

definition empty_db :: db where
  "empty_db = \<lparr>db_orgs = [], db_users = [], db_members = [], db_agents = [], db_tokens = [],
     db_machines = [], db_targets = [], db_conns = [], db_policies = [], db_schedules = [],
     db_jobs = [], db_runs = [], db_artifacts = [], db_chunks = [], db_restores = [],
     db_baselines = [], db_alerts = [], db_settings = [], db_prefs = [], db_audits = [],
     outbox = []\<rparr>"

definition emit :: "effect \<Rightarrow> db \<Rightarrow> db" where
  "emit e d = d\<lparr>outbox := outbox d @ [e]\<rparr>"

lemma emit_keeps [simp]:
  "db_orgs (emit e d) = db_orgs d" "db_users (emit e d) = db_users d"
  "db_members (emit e d) = db_members d" "db_agents (emit e d) = db_agents d"
  "db_tokens (emit e d) = db_tokens d" "db_machines (emit e d) = db_machines d"
  "db_targets (emit e d) = db_targets d" "db_conns (emit e d) = db_conns d"
  "db_policies (emit e d) = db_policies d" "db_schedules (emit e d) = db_schedules d"
  "db_jobs (emit e d) = db_jobs d" "db_runs (emit e d) = db_runs d"
  "db_artifacts (emit e d) = db_artifacts d" "db_chunks (emit e d) = db_chunks d"
  "db_restores (emit e d) = db_restores d" "db_baselines (emit e d) = db_baselines d"
  "db_alerts (emit e d) = db_alerts d" "db_settings (emit e d) = db_settings d"
  "db_prefs (emit e d) = db_prefs d" "db_audits (emit e d) = db_audits d"
  "outbox (emit e d) = outbox d @ [e]"
  by (simp_all add: emit_def)

subsection \<open>Unique indexes\<close>

text \<open>Two nullable columns agree in an index only when both hold the same value.\<close>

fun same_key :: "'a option \<Rightarrow> 'a option \<Rightarrow> bool" where
  "same_key (Some a) (Some b) \<longleftrightarrow> a = b"
| "same_key _ _ \<longleftrightarrow> False"

lemma same_key_iff [simp]: "same_key x y \<longleftrightarrow> (\<exists>k. x = Some k \<and> y = Some k)"
  by (cases "(x, y)" rule: same_key.cases) auto

declare same_key.simps [simp del]

text \<open>\<open>idx_backup_runs_job_scheduled\<close>: NULLs never collide; soft-deleted rows count.\<close>

definition run_clash :: "backup_run \<Rightarrow> backup_run \<Rightarrow> bool" where
  "run_clash x r \<longleftrightarrow> run_BackupJobID x = run_BackupJobID r \<and>
     same_key (run_ScheduledFor x) (run_ScheduledFor r)"

text \<open>\<open>idx_alerts_dedup_firing\<close>: partial, live firing rows with a key.\<close>

definition alert_clash :: "alert \<Rightarrow> alert \<Rightarrow> bool" where
  "alert_clash x r \<longleftrightarrow> live x \<and> live r \<and> al_Status x = AlertFiring \<and> al_Status r = AlertFiring \<and>
     al_OrganizationID x = al_OrganizationID r \<and>
     same_key (al_DedupKey x) (al_DedupKey r)"

text \<open>\<open>idx_artifacts_run_name\<close>, \<open>idx_chunk_artifact_index\<close>, \<open>idx_restores_pending_dedupe\<close>
  and \<open>idx_members_org_user\<close>: partial, live rows.\<close>

definition artifact_clash :: "backup_artifact \<Rightarrow> backup_artifact \<Rightarrow> bool" where
  "artifact_clash x r \<longleftrightarrow> live x \<and> live r \<and>
     art_BackupRunID x = art_BackupRunID r \<and> art_Name x = art_Name r"

definition chunk_clash :: "backup_chunk \<Rightarrow> backup_chunk \<Rightarrow> bool" where
  "chunk_clash x r \<longleftrightarrow> live x \<and> live r \<and>
     chk_ArtifactID x = chk_ArtifactID r \<and> chk_Index x = chk_Index r"

definition restore_clash :: "restore_job \<Rightarrow> restore_job \<Rightarrow> bool" where
  "restore_clash x r \<longleftrightarrow> live x \<and> live r \<and> rs_Status x = RestorePending \<and>
     rs_Status r = RestorePending \<and> rs_BackupRunID x = rs_BackupRunID r \<and>
     rs_AgentID x = rs_AgentID r \<and> rs_DestinationPath x = rs_DestinationPath r \<and>
     rs_TargetDatabase x = rs_TargetDatabase r"

definition member_clash :: "organization_member \<Rightarrow> organization_member \<Rightarrow> bool" where
  "member_clash x r \<longleftrightarrow> live x \<and> live r \<and>
     mem_OrganizationID x = mem_OrganizationID r \<and> mem_UserID x = mem_UserID r"

text \<open>\<open>idx_agents_token_hash\<close>, \<open>idx_agents_registration_key\<close>, \<open>idx_enrollment_tokens_token_hash\<close>,
  \<open>idx_organizations_slug\<close> and \<open>idx_users_email\<close>: total, NULLs never collide.\<close>

definition agent_clash :: "agent \<Rightarrow> agent \<Rightarrow> bool" where
  "agent_clash x r \<longleftrightarrow>
     same_key (ag_TokenHash x) (ag_TokenHash r) \<or>
     same_key (ag_RegistrationKey x) (ag_RegistrationKey r)"

definition token_clash :: "enrollment_token \<Rightarrow> enrollment_token \<Rightarrow> bool" where
  "token_clash x r \<longleftrightarrow> tok_TokenHash x = tok_TokenHash r"

definition org_clash :: "organization \<Rightarrow> organization \<Rightarrow> bool" where
  "org_clash x r \<longleftrightarrow> org_Slug x = org_Slug r"

definition user_clash :: "user \<Rightarrow> user \<Rightarrow> bool" where
  "user_clash x r \<longleftrightarrow> user_Email x = user_Email r"

definition no_clash :: "'a \<Rightarrow> 'a \<Rightarrow> bool" where
  "no_clash x r \<longleftrightarrow> False"

subsection \<open>Preloads and lookups\<close>

definition preload_job :: "db \<Rightarrow> backup_job \<Rightarrow> backup_job" where
  "preload_job d j =
     j\<lparr>job_Schedule := first_row (\<lambda>s. sch_BackupJobID s = ID j) (db_schedules d),
       job_Policy := (case job_PolicyID j of
                        None \<Rightarrow> None
                      | Some p \<Rightarrow> first_row (\<lambda>q. ID q = p) (db_policies d))\<rparr>"

lemma preload_job_keeps [simp]:
  "ID (preload_job d j) = ID j" "job_AgentID (preload_job d j) = job_AgentID j"
  "job_OrganizationID (preload_job d j) = job_OrganizationID j"
  "job_StorageTargetID (preload_job d j) = job_StorageTargetID j"
  "job_SourceType (preload_job d j) = job_SourceType j"
  "job_Name (preload_job d j) = job_Name j"
  "job_Enabled (preload_job d j) = job_Enabled j"
  "job_PolicyID (preload_job d j) = job_PolicyID j"
  by (simp_all add: preload_job_def)

definition in_flight_count :: "uuid \<Rightarrow> db \<Rightarrow> nat" where
  "in_flight_count jid d =
     affected (\<lambda>r. run_BackupJobID r = jid \<and> run_in_flight (run_Status r)) (db_runs d)"

subsection \<open>Audit trail\<close>

text \<open>The caller of a dashboard request: the user's id and the client's address.\<close>

type_synonym caller = "uuid \<times> string"

definition add_audit :: "time \<Rightarrow> uuid \<Rightarrow> uuid \<Rightarrow> caller \<Rightarrow> string \<Rightarrow> string \<Rightarrow> string \<Rightarrow> db \<Rightarrow> db" where
  "add_audit now nid org who action resource rid d =
     (case create_row now no_clash
        \<lparr>ID = nid, CreatedAt = now, UpdatedAt = now, DeletedAt = None, aud_OrganizationID = org,
         aud_UserID = fst who, aud_Action = action, aud_Resource = resource, aud_ResourceID = rid,
         aud_IPAddress = snd who\<rparr>
        (db_audits d) of
        None \<Rightarrow> d | Some t \<Rightarrow> d\<lparr>db_audits := t\<rparr>)"

lemma add_audit_keeps [simp]:
  "db_orgs (add_audit now nid org who act res rid d) = db_orgs d"
  "db_users (add_audit now nid org who act res rid d) = db_users d"
  "db_members (add_audit now nid org who act res rid d) = db_members d"
  "db_agents (add_audit now nid org who act res rid d) = db_agents d"
  "db_tokens (add_audit now nid org who act res rid d) = db_tokens d"
  "db_machines (add_audit now nid org who act res rid d) = db_machines d"
  "db_targets (add_audit now nid org who act res rid d) = db_targets d"
  "db_conns (add_audit now nid org who act res rid d) = db_conns d"
  "db_policies (add_audit now nid org who act res rid d) = db_policies d"
  "db_schedules (add_audit now nid org who act res rid d) = db_schedules d"
  "db_jobs (add_audit now nid org who act res rid d) = db_jobs d"
  "db_runs (add_audit now nid org who act res rid d) = db_runs d"
  "db_artifacts (add_audit now nid org who act res rid d) = db_artifacts d"
  "db_chunks (add_audit now nid org who act res rid d) = db_chunks d"
  "db_restores (add_audit now nid org who act res rid d) = db_restores d"
  "db_baselines (add_audit now nid org who act res rid d) = db_baselines d"
  "db_alerts (add_audit now nid org who act res rid d) = db_alerts d"
  "db_settings (add_audit now nid org who act res rid d) = db_settings d"
  "db_prefs (add_audit now nid org who act res rid d) = db_prefs d"
  "outbox (add_audit now nid org who act res rid d) = outbox d"
  by (simp_all add: add_audit_def split: option.split)

subsection \<open>How a table may evolve\<close>

text \<open>
  The contract between a table and the operations that write it: a reflexive and
  transitive relation \<open>R\<close> between a row and its later version.  An operation respects it
  when every old row is still there, at its place, in an \<open>R\<close>-later version; new rows are
  only appended.
\<close>

locale row_evolution =
  fixes R :: "'a base_scheme \<Rightarrow> 'a base_scheme \<Rightarrow> bool"
  assumes R_refl: "R r r"
    and R_trans: "R a b \<Longrightarrow> R b c \<Longrightarrow> R a c"
begin

definition evolves :: "'a base_scheme list \<Rightarrow> 'a base_scheme list \<Rightarrow> bool" where
  "evolves t t' \<longleftrightarrow> length t \<le> length t' \<and> (\<forall>i<length t. R (t ! i) (t' ! i))"

lemma evolves_refl: "evolves t t"
  by (simp add: evolves_def R_refl)

lemma evolves_trans: "evolves a b \<Longrightarrow> evolves b c \<Longrightarrow> evolves a c"
  unfolding evolves_def by (meson R_trans less_le_trans order_trans)

lemma evolves_update:
  assumes "\<And>r. r \<in> set t \<Longrightarrow> live r \<Longrightarrow> P r \<Longrightarrow> R r ((f r)\<lparr>UpdatedAt := now\<rparr>)"
  shows "evolves t (update_rows now P f t)"
  using assms by (auto simp: evolves_def update_rows_def R_refl)

lemma evolves_delete:
  assumes "\<And>r. r \<in> set t \<Longrightarrow> live r \<Longrightarrow> P r \<Longrightarrow> R r (r\<lparr>DeletedAt := Some now\<rparr>)"
  shows "evolves t (delete_rows now P t)"
  using assms by (auto simp: evolves_def delete_rows_def R_refl)

lemma evolves_create: "create_row now clash r t = Some t' \<Longrightarrow> evolves t t'"
  using create_row_SomeD(1) [of now clash r t t']
  by (auto simp: evolves_def nth_append R_refl)

lemma evolves_member:
  assumes "evolves t t'" and "r \<in> set t"
  shows "\<exists>r'\<in>set t'. R r r'"
proof -
  obtain i where "i < length t" and "t ! i = r" using assms(2) by (auto simp: in_set_conv_nth)
  then show ?thesis using assms(1) by (auto simp: evolves_def intro!: bexI [of _ "t' ! i"])
qed

end


subsection \<open>Indexes and row invariants\<close>

text \<open>
  The contract between a table's unique indexes, given as a clash of two rows, the
  invariant of its rows, and the three statements that write it.
\<close>

locale indexed_table =
  fixes clash :: "'a base_scheme \<Rightarrow> 'a base_scheme \<Rightarrow> bool"
    and ok :: "'a base_scheme \<Rightarrow> bool"
  assumes sym: "clash x y \<Longrightarrow> clash y x"
    and clash_stamp: "clash (x\<lparr>UpdatedAt := u\<rparr>) y \<Longrightarrow> clash x y"
    and clash_delete: "clash (x\<lparr>DeletedAt := Some u\<rparr>) y \<Longrightarrow> live x \<Longrightarrow> clash x y"
    and ok_stamp: "ok x \<Longrightarrow> ok (x\<lparr>UpdatedAt := u\<rparr>)"
    and ok_delete: "ok x \<Longrightarrow> ok (x\<lparr>DeletedAt := v\<rparr>)"
    and ok_create: "ok x \<Longrightarrow> ok (x\<lparr>CreatedAt := u\<rparr>)"
begin

definition wf :: "'a base_scheme list \<Rightarrow> bool" where
  "wf t \<longleftrightarrow> unique_ids t \<and> (\<forall>x\<in>set t. \<forall>y\<in>set t. clash x y \<longrightarrow> ID x = ID y) \<and> (\<forall>x\<in>set t. ok x)"

lemma wf_unique: "wf t \<Longrightarrow> unique_ids t"
  by (simp add: wf_def)

lemma wf_ok: "wf t \<Longrightarrow> x \<in> set t \<Longrightarrow> ok x"
  by (simp add: wf_def)

lemma wf_eq: "wf t \<Longrightarrow> x \<in> set t \<Longrightarrow> y \<in> set t \<Longrightarrow> clash x y \<Longrightarrow> x = y"
  unfolding wf_def using unique_ids_eq by blast

lemma wf_id: "wf t \<Longrightarrow> x \<in> set t \<Longrightarrow> y \<in> set t \<Longrightarrow> ID x = ID y \<Longrightarrow> x = y"
  unfolding wf_def using unique_ids_eq by blast

lemma wf_Nil: "wf []"
  by (simp add: wf_def)

lemma wf_map:
  assumes "wf t" and id: "\<And>x. ID (g x) = ID x"
    and clash: "\<And>x y. x \<in> set t \<Longrightarrow> clash (g x) y \<Longrightarrow> clash x y"
    and ok: "\<And>x. x \<in> set t \<Longrightarrow> ok x \<Longrightarrow> ok (g x)"
  shows "wf (map g t)"
proof -
  have "map ID (map g t) = map ID t" using id by simp
  then have "unique_ids (map g t)" using assms(1) unfolding wf_def unique_ids_def by metis
  moreover have "ID (g x) = ID (g y)" if "x \<in> set t" "y \<in> set t" "clash (g x) (g y)" for x y
  proof -
    have "clash (g y) x" by (rule sym) (rule clash [OF that(1,3)])
    then have "clash y x" by (rule clash [OF that(2)])
    then show ?thesis using assms(1) that(1,2) id unfolding wf_def by metis
  qed
  moreover have "ok (g x)" if "x \<in> set t" for x
    using assms(1) that ok unfolding wf_def by blast
  ultimately show ?thesis unfolding wf_def by auto
qed

lemma wf_update:
  assumes "wf t" and id: "\<And>x. ID (f x) = ID x"
    and clash: "\<And>x y. x \<in> set t \<Longrightarrow> live x \<Longrightarrow> P x \<Longrightarrow> clash (f x) y \<Longrightarrow> clash x y"
    and ok: "\<And>x. x \<in> set t \<Longrightarrow> live x \<Longrightarrow> P x \<Longrightarrow> ok x \<Longrightarrow> ok (f x)"
  shows "wf (update_rows now P f t)"
  unfolding update_rows_def
proof (rule wf_map [OF assms(1)])
  fix x y assume x: "x \<in> set t"
  show "clash x y" if "clash (if live x \<and> P x then (f x)\<lparr>UpdatedAt := now\<rparr> else x) y"
    using that clash [OF x] clash_stamp by (cases "live x \<and> P x") auto
  show "ok (if live x \<and> P x then (f x)\<lparr>UpdatedAt := now\<rparr> else x)" if "ok x"
    using that ok [OF x] ok_stamp by auto
qed (simp add: id)

lemma wf_delete: "wf t \<Longrightarrow> wf (delete_rows now P t)"
  unfolding delete_rows_def
  by (erule wf_map) (auto dest: clash_delete intro: ok_delete split: if_splits)

lemma wf_create:
  assumes "wf t" and "create_row now clash r t = Some t'" and "ok r"
  shows "wf t'"
proof -
  note c = create_row_SomeD [OF assms(2)]
  have "ok (r\<lparr>CreatedAt := now, UpdatedAt := now, DeletedAt := None\<rparr>)"
    using ok_delete [OF ok_stamp [OF ok_create [OF assms(3)]]] by simp
  moreover have "unique_ids t'" using assms(1,2) unique_ids_create unfolding wf_def by blast
  ultimately show ?thesis using assms(1) c(2,3) unfolding wf_def c(1) by (auto dest: sym)
qed

end

end
