(* ===== verification/Alerts.thy ===== *)
theory Alerts
  imports Database
begin

text \<open>
  \<open>server/internal/services/alerts.go\<close>, \<open>mailer.go\<close> and the alert handlers
  (\<open>server/internal/handlers/alert.go\<close>): raising with deduplication, resolution, email
  routing by severity and quiet hours, webhooks, and the acknowledge/resolve life cycle.

  The environment says whether SMTP is configured and what \<open>net/url\<close> makes of a webhook
  address (its scheme, \<open>None\<close> when it does not parse).
\<close>

subsection \<open>Quiet hours and severities\<close>

record env =
  mail_on :: bool
  url_scheme :: "string \<Rightarrow> string option"

definition utc_hour :: "time \<Rightarrow> int" where
  "utc_hour at = (at div hour) mod 24"

definition inQuietHours :: "notification_settings \<Rightarrow> time \<Rightarrow> bool" where
  "inQuietHours s at =
     (if ns_QuietHoursStart s < 0 \<or> ns_QuietHoursEnd s < 0
         \<or> ns_QuietHoursStart s = ns_QuietHoursEnd s then False
      else let h = utc_hour at in
        if ns_QuietHoursStart s < ns_QuietHoursEnd s
        then ns_QuietHoursStart s \<le> h \<and> h < ns_QuietHoursEnd s
        else ns_QuietHoursStart s \<le> h \<or> h < ns_QuietHoursEnd s)"

lemma utc_hour_range: "0 \<le> utc_hour at \<and> utc_hour at < 24"
  by (simp add: utc_hour_def)

subsection \<open>Email\<close>

definition find_settings :: "uuid \<Rightarrow> db \<Rightarrow> notification_settings option" where
  "find_settings org d = List.find (\<lambda>s. ns_OrganizationID s = org) (db_settings d)"

definition find_prefs :: "uuid \<Rightarrow> db \<Rightarrow> user_notification_prefs option" where
  "find_prefs uid d = List.find (\<lambda>p. np_UserID p = uid) (db_prefs d)"

definition default_settings :: "uuid \<Rightarrow> notification_settings" where
  "default_settings org = \<lparr>ns_OrganizationID = org, ns_WebhookURL = '''',
     ns_WebhookEnabled = False, ns_WebhookSecret = '''', ns_QuietHoursStart = -1,
     ns_QuietHoursEnd = -1, ns_MinEmailSeverity = SeverityWarning,
     ns_OfflineThresholdMin = 0, ns_MissedWindowMult = 0, ns_UpdatedAt = 0\<rparr>"

definition member_email :: "db \<Rightarrow> organization_member \<Rightarrow> string" where
  "member_email d m =
     (case first_row (\<lambda>u. ID u = mem_UserID m) (db_users d) of
        None \<Rightarrow> '''' | Some u \<Rightarrow> trim_space (user_Email u))"

definition prefs_allow :: "severity \<Rightarrow> uuid \<Rightarrow> db \<Rightarrow> bool" where
  "prefs_allow sev uid d =
     (case find_prefs uid d of
        None \<Rightarrow> True
      | Some p \<Rightarrow> np_EmailEnabled p \<and> SeverityRank (np_MinSeverity p) \<le> SeverityRank sev)"

fun recipients :: "db \<Rightarrow> severity \<Rightarrow> string list \<Rightarrow> organization_member list \<Rightarrow> string list" where
  "recipients d sev seen [] = []"
| "recipients d sev seen (m # ms) =
     (let email = member_email d m in
      if email = '''' \<or> email \<in> set seen then recipients d sev seen ms
      else if \<not> prefs_allow sev (mem_UserID m) d then recipients d sev seen ms
      else email # recipients d sev (email # seen) ms)"

definition NotifyAlert ::
    "env \<Rightarrow> time \<Rightarrow> uuid \<Rightarrow> severity \<Rightarrow> string \<Rightarrow> string \<Rightarrow> db \<Rightarrow> db" where
  "NotifyAlert e now org sev subject body d =
     (if \<not> mail_on e then d
      else let s = (case find_settings org d of None \<Rightarrow> default_settings org | Some s \<Rightarrow> s) in
        if SeverityRank sev < SeverityRank (ns_MinEmailSeverity s) then d
        else if inQuietHours s now \<and> sev \<noteq> SeverityCritical then d
        else let to = recipients d sev []
               (rows (\<lambda>m. mem_OrganizationID m = org \<and> mem_Role m \<in> {RoleOwner, RoleAdmin})
                  (db_members d)) in
          if to = [] then d else emit (SendEmail to subject body) d)"

subsection \<open>Webhooks\<close>

definition dispatchWebhook :: "env \<Rightarrow> uuid \<Rightarrow> uuid \<Rightarrow> db \<Rightarrow> db" where
  "dispatchWebhook e org alert_id d =
     (case find_settings org d of
        None \<Rightarrow> d
      | Some s \<Rightarrow>
          if \<not> ns_WebhookEnabled s \<or> ns_WebhookURL s = '''' then d
          else (case url_scheme e (ns_WebhookURL s) of
                  None \<Rightarrow> d
                | Some sc \<Rightarrow> if sc \<noteq> ''http'' \<and> sc \<noteq> ''https'' then d
                             else emit (PostWebhook (ns_WebhookURL s) alert_id) d))"

subsection \<open>Raising and resolving\<close>

record alert_input =
  in_OrgID :: uuid
  in_Type :: alert_type
  in_Title :: string
  in_Message :: string
  in_BackupJobID :: "uuid option"
  in_AgentID :: "uuid option"
  in_DedupKey :: string
  in_Severity :: "severity option"
  in_EmailSubject :: string
  in_EmailBody :: string

definition publishAlert :: "alert \<Rightarrow> db \<Rightarrow> db" where
  "publishAlert a d = emit (PublishAlert (al_OrganizationID a) (ID a) (al_Status a)) d"

definition firing_for :: "uuid \<Rightarrow> string \<Rightarrow> alert \<Rightarrow> bool" where
  "firing_for org key a \<longleftrightarrow> al_OrganizationID a = org \<and> al_DedupKey a = Some key \<and>
     al_Status a = AlertFiring"

definition bump :: "time \<Rightarrow> string \<Rightarrow> alert \<Rightarrow> alert" where
  "bump now message a =
     a\<lparr>al_OccurrenceCount := al_OccurrenceCount a + 1, al_LastOccurredAt := Some now,
       al_Message := (if message \<noteq> '''' then message else al_Message a)\<rparr>"

definition coalesceFiring ::
    "faults \<Rightarrow> time \<Rightarrow> uuid \<Rightarrow> string \<Rightarrow> string \<Rightarrow> db \<Rightarrow> (alert \<times> db) option" where
  "coalesceFiring flt now org key message d =
     (if key = '''' then None
      else case first_row (firing_for org key) (db_alerts d) of
        None \<Rightarrow> None
      | Some a \<Rightarrow>
          if flt ''coalesce'' then None
          else let a' = bump now message a;
                   d' = d\<lparr>db_alerts := update_rows now (\<lambda>x. ID x = ID a) (bump now message) (db_alerts d)\<rparr>
               in Some (a', publishAlert a' d'))"

definition new_alert :: "uuid \<Rightarrow> time \<Rightarrow> severity \<Rightarrow> alert_input \<Rightarrow> alert" where
  "new_alert nid now sev i =
     \<lparr>ID = nid, CreatedAt = now, UpdatedAt = now, DeletedAt = None,
      al_OrganizationID = in_OrgID i, al_Type = in_Type i, al_Severity = sev,
      al_Status = AlertFiring, al_Title = in_Title i, al_Message = in_Message i,
      al_Read = False,
      al_DedupKey = (if in_DedupKey i \<noteq> '''' then Some (in_DedupKey i) else None),
      al_OccurrenceCount = 1, al_AcknowledgedBy = None, al_AcknowledgedAt = None,
      al_ResolvedAt = None, al_LastOccurredAt = Some now,
      al_BackupJobID = in_BackupJobID i, al_AgentID = in_AgentID i\<rparr>"

definition RaiseAlert ::
    "env \<Rightarrow> faults \<Rightarrow> time \<Rightarrow> uuid \<Rightarrow> alert_input \<Rightarrow> db \<Rightarrow> db \<times> alert option \<times> bool" where
  "RaiseAlert e flt now nid i d =
     (let sev = (case in_Severity i of None \<Rightarrow> DefaultSeverity (in_Type i) | Some s \<Rightarrow> s) in
      case coalesceFiring flt now (in_OrgID i) (in_DedupKey i) (in_Message i) d of
        Some (a, d') \<Rightarrow> (d', Some a, False)
      | None \<Rightarrow>
          let a = new_alert nid now sev i in
          (case (if flt ''create alert'' then None else create_row now alert_clash a (db_alerts d)) of
             None \<Rightarrow>
               (case coalesceFiring flt now (in_OrgID i) (in_DedupKey i) (in_Message i) d of
                  Some (x, d') \<Rightarrow> (d', Some x, False)
                | None \<Rightarrow> (d, None, False))
           | Some t \<Rightarrow>
               let d1 = publishAlert a (d\<lparr>db_alerts := t\<rparr>);
                   d2 = (if in_EmailSubject i \<noteq> ''''
                         then NotifyAlert e now (in_OrgID i) sev (in_EmailSubject i) (in_EmailBody i) d1
                         else d1)
               in (dispatchWebhook e (in_OrgID i) nid d2, Some a, True)))"

definition resolve_row :: "time \<Rightarrow> alert \<Rightarrow> alert" where
  "resolve_row now a = a\<lparr>al_Status := AlertResolved, al_ResolvedAt := Some now\<rparr>"

definition ResolveAlerts ::
    "faults \<Rightarrow> time \<Rightarrow> uuid \<Rightarrow> alert_type \<Rightarrow> string \<Rightarrow> db \<Rightarrow> db \<times> nat" where
  "ResolveAlerts flt now org typ key d =
     (if key = '''' then (d, 0)
      else let firing = rows (\<lambda>a. firing_for org key a \<and> al_Type a = typ) (db_alerts d) in
        if firing = [] then (d, 0)
        else if flt ''resolve'' then (d, 0)
        else let d' = d\<lparr>db_alerts :=
                 update_rows now (\<lambda>x. ID x \<in> ID ` set firing) (resolve_row now) (db_alerts d)\<rparr>
             in (fold (\<lambda>a. publishAlert (resolve_row now a)) firing d', length firing))"

subsection \<open>Alert handlers\<close>

text \<open>An identifier from the request path is \<open>None\<close> when \<open>uuid.Parse\<close> rejects it.\<close>

definition transition ::
    "faults \<Rightarrow> time \<Rightarrow> uuid \<Rightarrow> uuid option \<Rightarrow> (alert \<Rightarrow> bool) \<Rightarrow> (alert \<Rightarrow> alert) \<Rightarrow> db
      \<Rightarrow> db \<times> alert option reply" where
  "transition flt now org idp guard f d =
     (case idp of
        None \<Rightarrow> (d, Fail 400 ''invalid id'')
      | Some i \<Rightarrow>
          let P = (\<lambda>a. ID a = i \<and> al_OrganizationID a = org \<and> guard a) in
          if flt ''update alert'' then (d, Fail 500 ''failed to update alert'')
          else if affected P (db_alerts d) = 0
          then (d, Fail 409 ''alert not found or not in a valid state'')
          else let d' = d\<lparr>db_alerts := update_rows now P f (db_alerts d)\<rparr>;
                   a = first_row (\<lambda>x. ID x = i \<and> al_OrganizationID x = org) (db_alerts d')
               in ((case a of None \<Rightarrow> d' | Some x \<Rightarrow> publishAlert x d'), Reply 200 a))"

definition Ack ::
    "faults \<Rightarrow> time \<Rightarrow> uuid \<Rightarrow> uuid \<Rightarrow> uuid option \<Rightarrow> db \<Rightarrow> db \<times> alert option reply" where
  "Ack flt now org userID idp d =
     transition flt now org idp (\<lambda>a. al_Status a = AlertFiring)
       (\<lambda>a. a\<lparr>al_Status := AlertAcked, al_AcknowledgedBy := Some userID,
              al_AcknowledgedAt := Some now\<rparr>) d"

definition Resolve ::
    "faults \<Rightarrow> time \<Rightarrow> uuid \<Rightarrow> uuid option \<Rightarrow> db \<Rightarrow> db \<times> alert option reply" where
  "Resolve flt now org idp d =
     transition flt now org idp (\<lambda>a. al_Status a \<in> {AlertFiring, AlertAcked}) (resolve_row now) d"

definition MarkRead :: "faults \<Rightarrow> time \<Rightarrow> uuid \<Rightarrow> uuid option \<Rightarrow> db \<Rightarrow> db \<times> bool reply" where
  "MarkRead flt now org idp d =
     (case idp of
        None \<Rightarrow> (d, Fail 400 ''invalid id'')
      | Some i \<Rightarrow>
          let P = (\<lambda>a. ID a = i \<and> al_OrganizationID a = org) in
          if flt ''mark read'' then (d, Fail 500 ''failed to mark alert as read'')
          else if affected P (db_alerts d) = 0 then (d, Fail 404 ''alert not found'')
          else (d\<lparr>db_alerts := update_rows now P (\<lambda>a. a\<lparr>al_Read := True\<rparr>) (db_alerts d)\<rparr>,
                Reply 200 True))"

definition MarkAllRead :: "faults \<Rightarrow> time \<Rightarrow> uuid \<Rightarrow> db \<Rightarrow> db \<times> nat reply" where
  "MarkAllRead flt now org d =
     (let P = (\<lambda>a. al_OrganizationID a = org \<and> \<not> al_Read a) in
      if flt ''mark all'' then (d, Fail 500 ''failed to mark alerts as read'')
      else (d\<lparr>db_alerts := update_rows now P (\<lambda>a. a\<lparr>al_Read := True\<rparr>) (db_alerts d)\<rparr>,
            Reply 200 (affected P (db_alerts d))))"

subsection \<open>What alert operations leave alone\<close>

definition only_alerts :: "db \<Rightarrow> db \<Rightarrow> bool" where
  "only_alerts d d' \<longleftrightarrow>
     db_orgs d' = db_orgs d \<and>
     db_users d' = db_users d \<and>
     db_members d' = db_members d \<and>
     db_agents d' = db_agents d \<and>
     db_tokens d' = db_tokens d \<and>
     db_machines d' = db_machines d \<and>
     db_targets d' = db_targets d \<and>
     db_conns d' = db_conns d \<and>
     db_policies d' = db_policies d \<and>
     db_schedules d' = db_schedules d \<and>
     db_jobs d' = db_jobs d \<and>
     db_runs d' = db_runs d \<and>
     db_artifacts d' = db_artifacts d \<and>
     db_chunks d' = db_chunks d \<and>
     db_restores d' = db_restores d \<and>
     db_baselines d' = db_baselines d \<and>
     db_settings d' = db_settings d \<and>
     db_prefs d' = db_prefs d \<and>
     db_audits d' = db_audits d"

definition only_outbox :: "db \<Rightarrow> db \<Rightarrow> bool" where
  "only_outbox d d' \<longleftrightarrow> only_alerts d d' \<and> db_alerts d' = db_alerts d"

lemma only_alerts_refl [simp]: "only_alerts d d"
  by (simp add: only_alerts_def)

lemma only_alerts_trans: "only_alerts a b \<Longrightarrow> only_alerts b c \<Longrightarrow> only_alerts a c"
  by (simp add: only_alerts_def)

lemmas only_alertsD = only_alerts_def [THEN iffD1]

lemma only_outbox_refl [simp]: "only_outbox d d"
  by (simp add: only_outbox_def)

lemma only_outbox_trans: "only_outbox a b \<Longrightarrow> only_outbox b c \<Longrightarrow> only_outbox a c"
  by (auto simp: only_outbox_def intro: only_alerts_trans)

lemma only_outbox_emit [simp]: "only_outbox d (emit e d)"
  by (simp add: only_outbox_def only_alerts_def)

lemma only_outbox_alerts: "only_outbox d d' \<Longrightarrow> only_alerts d d'"
  by (simp add: only_outbox_def)

lemma only_outboxD: "only_outbox d d' \<Longrightarrow> db_alerts d' = db_alerts d"
  by (simp add: only_outbox_def)

lemma only_alerts_update [simp]: "only_alerts d (d\<lparr>db_alerts := t\<rparr>)"
  by (simp add: only_alerts_def)

lemma only_outbox_publish_all: "only_outbox d (fold (\<lambda>a. publishAlert (g a)) xs d)"
  by (induction xs arbitrary: d)
     (auto simp: publishAlert_def intro: only_outbox_trans [OF only_outbox_emit])

lemma NotifyAlert_frame: "only_outbox d (NotifyAlert e now org sev subject body d)"
  by (simp add: NotifyAlert_def Let_def)

lemma dispatchWebhook_frame: "only_outbox d (dispatchWebhook e org i d)"
  by (simp add: dispatchWebhook_def split: option.split)

lemma publishAlert_frame: "only_outbox d (publishAlert a d)"
  by (simp add: publishAlert_def)

lemmas outbox_frames = NotifyAlert_frame dispatchWebhook_frame publishAlert_frame
  only_outbox_publish_all

lemma publishAlert_alerts [simp]: "db_alerts (publishAlert a d) = db_alerts d"
  by (simp add: publishAlert_def)

lemma publish_all_alerts [simp]: "db_alerts (fold (\<lambda>a. publishAlert (g a)) xs d) = db_alerts d"
  using only_outbox_publish_all [of d g xs] by (rule only_outboxD)

lemma coalesceFiring_SomeD:
  assumes "coalesceFiring flt now org key message d = Some (a', d')"
  obtains a where "first_row (firing_for org key) (db_alerts d) = Some a" and "key \<noteq> ''''"
    and "a' = bump now message a"
    and "d' = publishAlert a' (d\<lparr>db_alerts :=
           update_rows now (\<lambda>x. ID x = ID a) (bump now message) (db_alerts d)\<rparr>)"
  using assms by (auto simp: coalesceFiring_def Let_def split: if_splits option.splits)

text \<open>What \<^const>\<open>RaiseAlert\<close> does to the alert table: a bump, one appended row, or nothing.\<close>

lemma RaiseAlert_cases:
  assumes "RaiseAlert e flt now nid i d = (d', r, fresh)"
  obtains (coalesced) a where "first_row (firing_for (in_OrgID i) (in_DedupKey i)) (db_alerts d) = Some a"
      and "in_DedupKey i \<noteq> ''''" and "\<not> fresh" and "r = Some (bump now (in_Message i) a)"
      and "db_alerts d' = update_rows now (\<lambda>x. ID x = ID a) (bump now (in_Message i)) (db_alerts d)"
      and "outbox d' = outbox d @ [PublishAlert (al_OrganizationID a) (ID a) AlertFiring]"
      and "only_alerts d d'"
  | (created) sev where "fresh" and "r = Some (new_alert nid now sev i)"
      and "create_row now alert_clash (new_alert nid now sev i) (db_alerts d) = Some (db_alerts d')"
      and "only_alerts d d'"
      and "sev = (case in_Severity i of None \<Rightarrow> DefaultSeverity (in_Type i) | Some s \<Rightarrow> s)"
  | (failed) "\<not> fresh" and "r = None" and "d' = d"
proof -
  define sev where "sev = (case in_Severity i of None \<Rightarrow> DefaultSeverity (in_Type i) | Some s \<Rightarrow> s)"
  let ?a = "new_alert nid now sev i"
  let ?cf = "coalesceFiring flt now (in_OrgID i) (in_DedupKey i) (in_Message i) d"
  let ?cr = "if flt ''create alert'' then None else create_row now alert_clash ?a (db_alerts d)"
  consider (c) a1 d1 where "?cf = Some (a1, d1)" | (n) "?cf = None" "?cr = None"
    | (k) t where "?cf = None" "?cr = Some t"
    by (cases ?cf; cases ?cr) auto
  then show ?thesis
  proof cases
    case c
    then have eq: "d' = d1" "r = Some a1" "\<not> fresh"
      using assms by (auto simp: RaiseAlert_def Let_def)
    from c obtain a where a: "first_row (firing_for (in_OrgID i) (in_DedupKey i)) (db_alerts d) = Some a"
      "in_DedupKey i \<noteq> ''''" "a1 = bump now (in_Message i) a"
      "d1 = publishAlert a1 (d\<lparr>db_alerts :=
         update_rows now (\<lambda>x. ID x = ID a) (bump now (in_Message i)) (db_alerts d)\<rparr>)"
      by (rule coalesceFiring_SomeD)
    have "al_Status a = AlertFiring" using first_row_SomeD(3) [OF a(1)] by (simp add: firing_for_def)
    then show ?thesis
      by (intro coalesced [OF a(1,2)])
         (use a eq in \<open>simp_all add: publishAlert_def bump_def only_alerts_def\<close>)
  next
    case n
    then show ?thesis using assms failed
      by (simp add: RaiseAlert_def Let_def sev_def [symmetric])
  next
    case k
    let ?d1 = "publishAlert ?a (d\<lparr>db_alerts := t\<rparr>)"
    let ?d2 = "if in_EmailSubject i \<noteq> '''' then
      NotifyAlert e now (in_OrgID i) sev (in_EmailSubject i) (in_EmailBody i) ?d1 else ?d1"
    have d': "d' = dispatchWebhook e (in_OrgID i) nid ?d2" "r = Some ?a" "fresh"
      using assms k by (simp_all add: RaiseAlert_def Let_def sev_def [symmetric])
    have f1: "only_outbox (d\<lparr>db_alerts := t\<rparr>) ?d1" by (rule publishAlert_frame)
    have f2: "only_outbox ?d1 ?d2" by (simp add: NotifyAlert_frame)
    have f3: "only_outbox ?d2 d'" unfolding d' by (rule dispatchWebhook_frame)
    have fr: "only_outbox (d\<lparr>db_alerts := t\<rparr>) d'"
      by (rule only_outbox_trans [OF only_outbox_trans [OF f1 f2] f3])
    then have "db_alerts d' = t" using only_outboxD by fastforce
    moreover have "only_alerts d d'"
      by (rule only_alerts_trans [OF only_alerts_update only_outbox_alerts [OF fr]])
    ultimately show ?thesis using k d' created [OF _ _ _ _ sev_def]
      by (auto split: if_splits)
  qed
qed

lemma RaiseAlert_frame: "only_alerts d (fst (RaiseAlert e flt now nid i d))"
proof -
  obtain d' r fresh where *: "RaiseAlert e flt now nid i d = (d', r, fresh)" by (metis surj_pair)
  then show ?thesis by (cases rule: RaiseAlert_cases) (use * in simp_all)
qed

lemma ResolveAlerts_frame: "only_alerts d (fst (ResolveAlerts flt now org typ key d))"
  by (auto simp: ResolveAlerts_def Let_def
      intro: only_alerts_trans [OF only_alerts_update only_outbox_alerts [OF only_outbox_publish_all]])

lemma transition_frame: "only_alerts d (fst (transition flt now org idp guard f d))"
  by (auto simp: transition_def Let_def split: option.split
      intro: only_alerts_trans [OF only_alerts_update only_outbox_alerts [OF publishAlert_frame]])

subsection \<open>Evolution and well-formedness of the alert table\<close>

fun al_rank :: "alert_status \<Rightarrow> nat" where
  "al_rank AlertFiring = 0"
| "al_rank AlertAcked = 1"
| "al_rank AlertResolved = 2"

definition alert_later :: "alert \<Rightarrow> alert \<Rightarrow> bool" where
  "alert_later a b \<longleftrightarrow>
     ID b = ID a \<and> al_OrganizationID b = al_OrganizationID a \<and> al_Type b = al_Type a \<and>
     al_Severity b = al_Severity a \<and> al_Title b = al_Title a \<and> al_DedupKey b = al_DedupKey a \<and>
     CreatedAt b = CreatedAt a \<and>
     al_rank (al_Status a) \<le> al_rank (al_Status b) \<and>
     al_OccurrenceCount a \<le> al_OccurrenceCount b \<and> (al_Read a \<longrightarrow> al_Read b) \<and>
     (DeletedAt a \<noteq> None \<longrightarrow> b = a)"

interpretation alert_table: row_evolution alert_later
  by unfold_locales (auto simp: alert_later_def)

definition single_firing :: "alert list \<Rightarrow> bool" where
  "single_firing t \<longleftrightarrow> (\<forall>x\<in>set t. \<forall>y\<in>set t. alert_clash x y \<longrightarrow> ID x = ID y)"

definition alert_ok :: "alert \<Rightarrow> bool" where
  "alert_ok a \<longleftrightarrow> 1 \<le> al_OccurrenceCount a \<and>
     (al_Status a = AlertResolved \<longleftrightarrow> al_ResolvedAt a \<noteq> None) \<and>
     (al_Status a = AlertAcked \<longrightarrow> al_AcknowledgedBy a \<noteq> None)"

definition alerts_wf :: "alert list \<Rightarrow> bool" where
  "alerts_wf t \<longleftrightarrow> unique_ids t \<and> single_firing t \<and> (\<forall>a\<in>set t. alert_ok a)"

text \<open>
  The shape shared by every update of an alert: the identity, the organization, the key
  and the deletion mark stay, and nothing fires again.
\<close>

definition alert_edit :: "(alert \<Rightarrow> alert) \<Rightarrow> bool" where
  "alert_edit f \<longleftrightarrow> (\<forall>a. ID (f a) = ID a \<and> al_OrganizationID (f a) = al_OrganizationID a \<and>
     al_DedupKey (f a) = al_DedupKey a \<and> DeletedAt (f a) = DeletedAt a \<and>
     (al_Status (f a) = AlertFiring \<longrightarrow> al_Status a = AlertFiring))"

lemma alert_edits [simp]:
  "alert_edit (bump now message)" "alert_edit (resolve_row now)"
  "alert_edit (\<lambda>a. a\<lparr>al_Read := True\<rparr>)"
  "alert_edit (\<lambda>a. a\<lparr>al_Status := AlertAcked, al_AcknowledgedBy := x, al_AcknowledgedAt := y\<rparr>)"
  by (simp_all add: alert_edit_def bump_def resolve_row_def)

lemma alert_edit_clash:
  assumes "alert_edit f"
    and "alert_clash (if P x then (f x)\<lparr>UpdatedAt := u\<rparr> else x) (if P y then (f y)\<lparr>UpdatedAt := u\<rparr> else y)"
  shows "alert_clash x y"
  using assms by (auto simp: alert_edit_def alert_clash_def live_def split: if_splits)

lemma single_firing_update:
  assumes "single_firing t" and f: "alert_edit f"
  shows "single_firing (update_rows now P f t)"
  unfolding single_firing_def
proof (intro ballI impI)
  let ?g = "\<lambda>r. if live r \<and> P r then (f r)\<lparr>UpdatedAt := now\<rparr> else r"
  have id: "ID (?g r) = ID r" for r using f by (simp add: alert_edit_def)
  fix a b assume ab: "a \<in> set (update_rows now P f t)" "b \<in> set (update_rows now P f t)"
    and c: "alert_clash a b"
  then obtain x y where xy: "x \<in> set t" "y \<in> set t" "a = ?g x" "b = ?g y"
    by (auto simp: update_rows_set)
  have "alert_clash x y"
    using alert_edit_clash [OF f, of "\<lambda>r. live r \<and> P r" x now y] c xy(3,4) by simp
  then have "ID x = ID y" using assms(1) xy by (auto simp: single_firing_def)
  then show "ID a = ID b" using xy(3,4) id by simp
qed

lemma alerts_wf_update:
  assumes "alerts_wf t" and f: "alert_edit f"
    and ok: "\<And>a. P a \<Longrightarrow> alert_ok a \<Longrightarrow> alert_ok (f a)"
  shows "alerts_wf (update_rows now P f t)"
proof -
  have stamp: "alert_ok (a\<lparr>UpdatedAt := u\<rparr>) = alert_ok a" for a u by (simp add: alert_ok_def)
  have "unique_ids (update_rows now P f t)"
    using assms(1) f by (intro unique_ids_update) (auto simp: alerts_wf_def alert_edit_def)
  moreover have "\<forall>a\<in>set (update_rows now P f t). alert_ok a"
    using assms(1) ok by (intro update_rows_ball) (auto simp: alerts_wf_def stamp)
  ultimately show ?thesis
    using assms(1) f by (simp add: alerts_wf_def single_firing_update)
qed

lemma alerts_wf_create:
  assumes "alerts_wf t" and "create_row now alert_clash a t = Some t'" and "alert_ok a"
  shows "alerts_wf t'"
proof -
  let ?a = "a\<lparr>CreatedAt := now, UpdatedAt := now, DeletedAt := None\<rparr>"
  note c = create_row_SomeD [OF assms(2)]
  have sym: "alert_clash x y \<Longrightarrow> alert_clash y x" for x y by (auto simp: alert_clash_def)
  have "single_firing t'"
    unfolding single_firing_def
  proof (intro ballI impI)
    fix x y assume xy: "x \<in> set t'" "y \<in> set t'" "alert_clash x y"
    from xy(1,2) consider "x \<in> set t" "y \<in> set t" | "x = ?a" "y = ?a"
      | "x \<in> set t" "y = ?a" | "x = ?a" "y \<in> set t"
      unfolding c(1) by auto
    then show "ID x = ID y"
    proof cases
      case 1
      then show ?thesis using assms(1) xy(3) unfolding alerts_wf_def single_firing_def by blast
    next
      case 3
      then show ?thesis using c(3) xy(3) by blast
    next
      case 4
      then show ?thesis using c(3) sym [OF xy(3)] by blast
    qed simp
  qed
  moreover have "alert_ok ?a" using assms(3) by (simp add: alert_ok_def)
  ultimately show ?thesis
    using assms(1) unique_ids_create [OF _ assms(2)] c(1) by (auto simp: alerts_wf_def)
qed

lemma RaiseAlert_wf:
  assumes "alerts_wf (db_alerts d)"
  shows "alerts_wf (db_alerts (fst (RaiseAlert e flt now nid i d)))"
proof -
  obtain d' r fresh where *: "RaiseAlert e flt now nid i d = (d', r, fresh)" by (metis surj_pair)
  then show ?thesis
  proof (cases rule: RaiseAlert_cases)
    case (coalesced a)
    have "alerts_wf (update_rows now (\<lambda>x. ID x = ID a) (bump now (in_Message i)) (db_alerts d))"
      by (rule alerts_wf_update [OF assms]) (simp_all add: alert_ok_def bump_def)
    then show ?thesis using coalesced * by simp
  next
    case (created sev)
    have "alert_ok (new_alert nid now sev i)" by (simp add: alert_ok_def new_alert_def)
    then have "alerts_wf (db_alerts d')" by (rule alerts_wf_create [OF assms created(3)])
    then show ?thesis using * by simp
  qed (use assms * in simp)
qed

lemma ResolveAlerts_wf:
  assumes "alerts_wf (db_alerts d)"
  shows "alerts_wf (db_alerts (fst (ResolveAlerts flt now org typ key d)))"
  using assms by (auto simp: ResolveAlerts_def Let_def intro!: alerts_wf_update)
     (auto simp: alert_ok_def resolve_row_def)

lemma transition_wf:
  assumes "alerts_wf (db_alerts d)" and "alert_edit f" and "\<And>a. alert_ok a \<Longrightarrow> guard a \<Longrightarrow> alert_ok (f a)"
  shows "alerts_wf (db_alerts (fst (transition flt now org idp guard f d)))"
  using assms by (auto simp: transition_def Let_def split: option.split intro!: alerts_wf_update)

lemma Ack_wf: "alerts_wf (db_alerts d) \<Longrightarrow> alerts_wf (db_alerts (fst (Ack flt now org u idp d)))"
  unfolding Ack_def by (rule transition_wf) (auto simp: alert_ok_def)

lemma Resolve_wf: "alerts_wf (db_alerts d) \<Longrightarrow> alerts_wf (db_alerts (fst (Resolve flt now org idp d)))"
  unfolding Resolve_def by (rule transition_wf) (auto simp: alert_ok_def resolve_row_def)

lemma MarkRead_wf: "alerts_wf (db_alerts d) \<Longrightarrow> alerts_wf (db_alerts (fst (MarkRead flt now org idp d)))"
  by (auto simp: MarkRead_def Let_def alert_ok_def split: option.split intro!: alerts_wf_update)

lemma MarkAllRead_wf: "alerts_wf (db_alerts d) \<Longrightarrow> alerts_wf (db_alerts (fst (MarkAllRead flt now org d)))"
  by (auto simp: MarkAllRead_def Let_def alert_ok_def intro!: alerts_wf_update)

lemmas alert_wf_rules = RaiseAlert_wf ResolveAlerts_wf Ack_wf Resolve_wf MarkRead_wf MarkAllRead_wf

lemma bump_later: "live a \<Longrightarrow> alert_later a ((bump now m a)\<lparr>UpdatedAt := u\<rparr>)"
  by (simp add: alert_later_def bump_def live_def)

lemma resolve_later: "live a \<Longrightarrow> alert_later a ((resolve_row now a)\<lparr>UpdatedAt := u\<rparr>)"
  by (cases "al_Status a") (simp_all add: alert_later_def resolve_row_def live_def)

lemma RaiseAlert_evolves:
  "alert_table.evolves (db_alerts d) (db_alerts (fst (RaiseAlert e flt now nid i d)))"
proof -
  obtain d' r fresh where *: "RaiseAlert e flt now nid i d = (d', r, fresh)" by (metis surj_pair)
  then show ?thesis
  proof (cases rule: RaiseAlert_cases)
    case (coalesced a)
    then show ?thesis using * by (auto intro!: alert_table.evolves_update bump_later)
  next
    case (created sev)
    then show ?thesis using * by (auto intro: alert_table.evolves_create)
  qed (use * in \<open>simp add: alert_table.evolves_refl\<close>)
qed

lemma ResolveAlerts_evolves:
  "alert_table.evolves (db_alerts d) (db_alerts (fst (ResolveAlerts flt now org typ key d)))"
  by (auto simp: ResolveAlerts_def Let_def alert_table.evolves_refl
      intro!: alert_table.evolves_update resolve_later)

lemma Ack_evolves: "alert_table.evolves (db_alerts d) (db_alerts (fst (Ack flt now org u idp d)))"
  by (auto simp: Ack_def transition_def Let_def alert_table.evolves_refl alert_later_def live_def
      split: option.split intro!: alert_table.evolves_update)

lemma Resolve_evolves: "alert_table.evolves (db_alerts d) (db_alerts (fst (Resolve flt now org idp d)))"
  by (auto simp: Resolve_def transition_def Let_def alert_table.evolves_refl
      split: option.split intro!: alert_table.evolves_update resolve_later)

subsection \<open>Properties\<close>

text \<open>Without faults and with a fresh id, raising leaves a firing row for the key.\<close>

lemma RaiseAlert_fires:
  assumes "\<not> flt ''coalesce''" "\<not> flt ''create alert''" and key: "in_DedupKey i \<noteq> ''''"
    and fresh: "\<forall>a\<in>set (db_alerts d). ID a \<noteq> nid"
  shows "\<exists>a\<in>set (db_alerts (fst (RaiseAlert e flt now nid i d))). live a \<and> firing_for (in_OrgID i) (in_DedupKey i) a"
proof -
  obtain d' r b where *: "RaiseAlert e flt now nid i d = (d', r, b)" by (metis surj_pair)
  then show ?thesis
  proof (cases rule: RaiseAlert_cases)
    case (coalesced a)
    note aD = first_row_SomeD [OF coalesced(1)]
    let ?a = "(bump now (in_Message i) a)\<lparr>UpdatedAt := now\<rparr>"
    have "?a \<in> set (db_alerts d')" using aD coalesced(5) by (auto simp: update_rows_set)
    moreover have "live ?a" "firing_for (in_OrgID i) (in_DedupKey i) ?a"
      using aD(2,3) by (simp_all add: bump_def live_def firing_for_def)
    ultimately show ?thesis using * by auto
  next
    case (created sev)
    show ?thesis using * create_row_SomeD(1) [OF created(3)] key
      by (auto simp: new_alert_def live_def firing_for_def)
  next
    case failed
    define sev where "sev = (case in_Severity i of None \<Rightarrow> DefaultSeverity (in_Type i) | Some s \<Rightarrow> s)"
    have none: "first_row (firing_for (in_OrgID i) (in_DedupKey i)) (db_alerts d) = None"
    proof (rule ccontr)
      assume "first_row (firing_for (in_OrgID i) (in_DedupKey i)) (db_alerts d) \<noteq> None"
      then obtain x d1 where "coalesceFiring flt now (in_OrgID i) (in_DedupKey i) (in_Message i) d = Some (x, d1)"
        using assms(1) key by (auto simp: coalesceFiring_def Let_def)
      then show False using * failed by (simp add: RaiseAlert_def Let_def)
    qed
    have "create_row now alert_clash (new_alert nid now sev i) (db_alerts d) \<noteq> None"
      using none fresh key
      by (auto simp: create_row_def Let_def first_row_None_iff alert_clash_def new_alert_def firing_for_def)
    then obtain t where "create_row now alert_clash (new_alert nid now sev i) (db_alerts d) = Some t" by blast
    moreover have "coalesceFiring flt now (in_OrgID i) (in_DedupKey i) (in_Message i) d = None"
      using none by (simp add: coalesceFiring_def)
    ultimately show ?thesis using * failed assms(2) by (simp add: RaiseAlert_def Let_def sev_def)
  qed
qed

lemma first_firing:
  assumes "alerts_wf t" and "a \<in> set t" and "live a" and "firing_for org key a"
  shows "first_row (firing_for org key) t = Some a"
proof -
  obtain b where b: "first_row (firing_for org key) t = Some b"
    using assms(2-4) first_row_None_iff [of "firing_for org key" t] by (cases "first_row (firing_for org key) t") auto
  note bD = first_row_SomeD [OF b]
  have "alert_clash b a" using bD(2,3) assms(3,4) by (simp add: alert_clash_def firing_for_def)
  then have "ID b = ID a"
    using assms(1,2) bD(1) unfolding alerts_wf_def single_firing_def by blast
  then have "b = a" using assms(1,2) bD(1) unique_ids_eq unfolding alerts_wf_def by blast
  with b show ?thesis by simp
qed

definition sample_input :: alert_input where
  "sample_input = \<lparr>in_OrgID = ''o1'', in_Type = AlertAgentOffline, in_Title = ''Agent Offline'',
     in_Message = ''Agent web-1 stopped reporting'', in_BackupJobID = None, in_AgentID = Some ''g1'',
     in_DedupKey = ''agent-offline:g1'', in_Severity = None,
     in_EmailSubject = ''[VaultGuard] Agent Offline'', in_EmailBody = ''body''\<rparr>"

definition sample_env :: env where
  "sample_env = \<lparr>mail_on = True, url_scheme = (\<lambda>u. if has_prefix ''https:'' u then Some ''https'' else None)\<rparr>"

definition sample_alert_db :: db where
  "sample_alert_db = empty_db\<lparr>db_alerts := [new_alert ''a1'' 0 SeverityCritical sample_input]\<rparr>"

lemma sample_alert_db_wf: "alerts_wf (db_alerts sample_alert_db)"
  by (simp add: sample_alert_db_def alerts_wf_def unique_ids_def single_firing_def alert_ok_def new_alert_def)

text \<open>While an alert fires, raising its condition again adds no row, sends no email and calls
  no webhook: the firing row's occurrence count goes up by one, its message and last
  occurrence are refreshed, every other row is untouched, and one update event is published.\<close>

theorem raise_alert_coalesces:
  assumes wf: "alerts_wf (db_alerts d)"
    and a: "a \<in> set (db_alerts d)" "live a" "firing_for (in_OrgID i) (in_DedupKey i) a"
    and key: "in_DedupKey i \<noteq> ''''" and flt: "\<not> flt ''coalesce''"
  shows "RaiseAlert e flt now nid i d =
     (emit (PublishAlert (in_OrgID i) (ID a) AlertFiring)
        (d\<lparr>db_alerts := map (\<lambda>x. if x = a then (bump now (in_Message i) a)\<lparr>UpdatedAt := now\<rparr> else x)
              (db_alerts d)\<rparr>),
      Some (bump now (in_Message i) a), False)"
proof -
  have f: "first_row (firing_for (in_OrgID i) (in_DedupKey i)) (db_alerts d) = Some a"
    by (rule first_firing [OF wf a])
  have "x = a" if "x \<in> set (db_alerts d)" "ID x = ID a" for x
    using wf a(1) that unique_ids_eq unfolding alerts_wf_def by blast
  then have "update_rows now (\<lambda>x. ID x = ID a) (bump now (in_Message i)) (db_alerts d) =
      map (\<lambda>x. if x = a then (bump now (in_Message i) a)\<lparr>UpdatedAt := now\<rparr> else x) (db_alerts d)"
    unfolding update_rows_def using a(2) by (intro map_cong) auto
  then show ?thesis using f key flt a(3)
    by (simp add: RaiseAlert_def coalesceFiring_def publishAlert_def bump_def firing_for_def Let_def)
qed

theorem raise_alert_coalesces_witness:
  "RaiseAlert sample_env no_faults 50 ''a2'' sample_input sample_alert_db =
     (emit (PublishAlert ''o1'' ''a1'' AlertFiring)
        (sample_alert_db\<lparr>db_alerts :=
           [(bump 50 (in_Message sample_input) (new_alert ''a1'' 0 SeverityCritical sample_input))\<lparr>UpdatedAt := 50\<rparr>]\<rparr>),
      Some (bump 50 (in_Message sample_input) (new_alert ''a1'' 0 SeverityCritical sample_input)), False)"
  using raise_alert_coalesces [OF sample_alert_db_wf,
      of "new_alert ''a1'' 0 SeverityCritical sample_input" sample_input no_faults sample_env 50 "''a2''"]
  by (simp add: sample_alert_db_def new_alert_def live_def firing_for_def sample_input_def no_faults_def)

lemma set_recipients:
  "set (recipients d sev seen ms) =
     {member_email d m | m. m \<in> set ms \<and> member_email d m \<noteq> '''' \<and> prefs_allow sev (mem_UserID m) d}
       - set seen"
proof (induction ms arbitrary: seen)
  case Nil
  then show ?case by simp
next
  case (Cons m ms)
  then show ?case by (auto simp: Let_def)
qed

lemma distinct_recipients: "distinct (recipients d sev seen ms)"
  by (induction ms arbitrary: seen) (auto simp: Let_def set_recipients)

text \<open>Alert email goes out exactly when SMTP is configured, the severity reaches the
  organization's floor, quiet hours do not hold it back (they never hold back a critical
  alert) and somebody is left to address; it is one message, to each owner and admin of the
  organization with an address whose own preferences admit it, each address once.\<close>

theorem notify_alert_routing:
  fixes d :: db and org :: uuid and sev :: severity
  defines "s \<equiv> (case find_settings org d of None \<Rightarrow> default_settings org | Some s \<Rightarrow> s)"
    and "who \<equiv> {member_email d m | m. m \<in> set (db_members d) \<and> live m \<and>
            mem_OrganizationID m = org \<and> mem_Role m \<in> {RoleOwner, RoleAdmin} \<and>
            member_email d m \<noteq> '''' \<and> prefs_allow sev (mem_UserID m) d}"
  shows "\<exists>to. set to = who \<and> distinct to \<and>
     NotifyAlert e now org sev subject body d =
       (if mail_on e \<and> SeverityRank (ns_MinEmailSeverity s) \<le> SeverityRank sev \<and>
           (sev = SeverityCritical \<or> \<not> inQuietHours s now) \<and> who \<noteq> {}
        then emit (SendEmail to subject body) d else d)"
proof -
  let ?to = "recipients d sev []
     (rows (\<lambda>m. mem_OrganizationID m = org \<and> mem_Role m \<in> {RoleOwner, RoleAdmin}) (db_members d))"
  have to: "set ?to = who" by (auto simp: set_recipients rows_iff who_def)
  then have "?to = [] \<longleftrightarrow> who = {}" by (metis set_empty)
  then have "NotifyAlert e now org sev subject body d =
       (if mail_on e \<and> SeverityRank (ns_MinEmailSeverity s) \<le> SeverityRank sev \<and>
           (sev = SeverityCritical \<or> \<not> inQuietHours s now) \<and> who \<noteq> {}
        then emit (SendEmail ?to subject body) d else d)"
    by (simp add: NotifyAlert_def s_def Let_def)
  then show ?thesis using to distinct_recipients by blast
qed

theorem notify_alert_routing_witness:
  "\<exists>to. distinct to \<and> NotifyAlert sample_env 0 ''o1'' SeverityCritical ''s'' ''b'' empty_db = empty_db"
  using notify_alert_routing [where org = "''o1''" and d = empty_db and sev = SeverityCritical
      and e = sample_env and now = 0 and subject = "''s''" and body = "''b''"]
  by (auto simp: empty_db_def)

text \<open>For hours of the clock, the quiet window is the cyclic interval from start to end: the
  hours since the start are fewer than the hours from start to end, counted modulo 24.  A
  window whose ends agree is empty.\<close>

theorem quiet_hours_cyclic:
  assumes "0 \<le> ns_QuietHoursStart s" "ns_QuietHoursStart s < 24"
    and "0 \<le> ns_QuietHoursEnd s" "ns_QuietHoursEnd s < 24"
  shows "inQuietHours s at \<longleftrightarrow>
     (utc_hour at - ns_QuietHoursStart s) mod 24 < (ns_QuietHoursEnd s - ns_QuietHoursStart s) mod 24"
proof -
  have cyc: "(x - y) mod 24 = (if y \<le> x then x - y else x - y + 24)"
    if "0 \<le> x" "x < 24" "0 \<le> y" "y < 24" for x y :: int
  proof (cases "y \<le> x")
    case True
    then show ?thesis using that by (simp add: mod_pos_pos_trivial)
  next
    case False
    have "(x - y) mod 24 = (x - y + 24) mod 24" by simp
    also have "\<dots> = x - y + 24" using False that by (intro mod_pos_pos_trivial) auto
    finally show ?thesis using False by simp
  qed
  let ?h = "utc_hour at" and ?a = "ns_QuietHoursStart s" and ?b = "ns_QuietHoursEnd s"
  have h: "0 \<le> ?h" "?h < 24" using utc_hour_range by auto
  show ?thesis
    unfolding inQuietHours_def Let_def cyc [OF h assms(1,2)] cyc [OF assms(3,4,1,2)]
    using assms h by auto
qed

theorem quiet_hours_cyclic_witness:
  "inQuietHours ((default_settings ''o1'')\<lparr>ns_QuietHoursStart := 22, ns_QuietHoursEnd := 6\<rparr>) (23 * hour)"
  by (subst quiet_hours_cyclic) (simp_all add: utc_hour_def clock_defs)

end
