(* ===== verification/Agents.thy ===== *)
theory Agents
  imports Database
begin

text \<open>
  The agent life cycle: authentication (\<open>middleware/agent_auth.go\<close>, the polling protocol's
  \<open>authenticateAgent\<close> and \<open>touch\<close> in \<open>handlers/agent_work.go\<close>, the socket's \<open>authAgent\<close>
  in \<open>realtime/hub.go\<close>), enrollment (\<open>handlers/enrollment.go\<close>) and the agent handlers
  (\<open>handlers/agent.go\<close>).

  bcrypt, SHA-256 and the random source are parameters: \<open>bcrypt_ok hash token\<close>,
  \<open>bcrypt_hash token\<close> (\<open>None\<close> on failure), \<open>sha token\<close>, and the drawn token and ids.
  Each handler is one atomic step at one reading of the clock.
\<close>

subsection \<open>Authentication\<close>

definition extractBearerToken :: "string \<Rightarrow> string" where
  "extractBearerToken h = (if length h > 7 \<and> take 7 h = ''Bearer '' then drop 7 h else '''')"

definition AgentAuth ::
    "(string \<Rightarrow> string \<Rightarrow> bool) \<Rightarrow> string \<Rightarrow> uuid option \<Rightarrow> db \<Rightarrow> (nat \<times> string) + agent" where
  "AgentAuth bcrypt_ok auth agentID d =
     (let raw = (if length auth > 7 \<and> take 7 auth = ''Bearer '' then drop 7 auth else '''') in
      if raw = '''' then Inl (401, ''missing agent token'')
      else case agentID of
        None \<Rightarrow> Inl (401, ''missing or invalid X-Agent-ID header'')
      | Some i \<Rightarrow>
          (case first_row (\<lambda>a. ID a = i) (db_agents d) of
             None \<Rightarrow> Inl (401, ''invalid agent token'')
           | Some a \<Rightarrow>
               (case ag_TokenHash a of
                  None \<Rightarrow> Inl (401, ''invalid agent token'')
                | Some h \<Rightarrow>
                    if \<not> bcrypt_ok h raw then Inl (401, ''invalid agent token'')
                    else if ag_RevokedAt a \<noteq> None then Inl (401, ''agent revoked'')
                    else Inr a)))"

definition authenticateAgent ::
    "(string \<Rightarrow> string \<Rightarrow> bool) \<Rightarrow> string \<Rightarrow> uuid option \<Rightarrow> db \<Rightarrow> (nat \<times> string) + agent" where
  "authenticateAgent bcrypt_ok auth agentID d =
     (let raw = extractBearerToken auth in
      if raw = '''' then Inl (401, ''missing agent token'')
      else case agentID of
        None \<Rightarrow> Inl (401, ''missing or invalid X-Agent-ID header'')
      | Some i \<Rightarrow>
          (case first_row (\<lambda>a. ID a = i) (db_agents d) of
             None \<Rightarrow> Inl (401, ''invalid agent token'')
           | Some a \<Rightarrow>
               (case ag_TokenHash a of
                  None \<Rightarrow> Inl (401, ''invalid agent token'')
                | Some h \<Rightarrow>
                    if \<not> bcrypt_ok h raw then Inl (401, ''invalid agent token'')
                    else if ag_RevokedAt a \<noteq> None then Inl (401, ''agent revoked'')
                    else Inr a)))"

text \<open>The socket's own check: it has no revocation test.\<close>

definition authAgent ::
    "(string \<Rightarrow> string \<Rightarrow> bool) \<Rightarrow> string \<Rightarrow> uuid option \<Rightarrow> db \<Rightarrow> uuid option" where
  "authAgent bcrypt_ok auth agentID d =
     (if length auth \<le> 7 \<or> take 7 auth \<noteq> ''Bearer '' then None
      else case agentID of
        None \<Rightarrow> None
      | Some i \<Rightarrow>
          (case first_row (\<lambda>a. ID a = i) (db_agents d) of
             None \<Rightarrow> None
           | Some a \<Rightarrow>
               (case ag_TokenHash a of
                  None \<Rightarrow> None
                | Some h \<Rightarrow> if bcrypt_ok h (drop 7 auth) then Some (ID a) else None)))"

definition touch :: "time \<Rightarrow> agent \<Rightarrow> db \<Rightarrow> db" where
  "touch now a d =
     (let d' = d\<lparr>db_agents := update_rows now (\<lambda>x. ID x = ID a)
            (\<lambda>x. x\<lparr>ag_Status := AgentOnline, ag_LastSeenAt := Some now\<rparr>) (db_agents d)\<rparr>
      in if ag_Status a \<noteq> AgentOnline
         then emit (PublishPresence (ag_OrganizationID a) (ID a) AgentOnline) d' else d')"

subsection \<open>Shared statements\<close>

text \<open>An update of one agent, refused as a whole when it would break a unique index.\<close>

definition update_agent :: "time \<Rightarrow> uuid \<Rightarrow> (agent \<Rightarrow> agent) \<Rightarrow> agent list \<Rightarrow> agent list option" where
  "update_agent now i f t =
     (let t' = update_rows now (\<lambda>a. ID a = i) f t in
      if (\<exists>x\<in>set t'. \<exists>y\<in>set t'. ID x \<noteq> ID y \<and> agent_clash x y) then None else Some t')"

text \<open>
  \<open>Where("agent_id = ?").Assign(machine).FirstOrCreate\<close>: the non-empty fields overwrite the
  agent's first machine row, or a row is created.
\<close>

definition assign_machine ::
    "time \<Rightarrow> uuid \<Rightarrow> uuid \<Rightarrow> uuid \<Rightarrow> string \<Rightarrow> string \<Rightarrow> string \<Rightarrow> machine list \<Rightarrow> machine list option" where
  "assign_machine now nid org aid hostname os ip t =
     (case first_row (\<lambda>m. mach_AgentID m = aid) t of
        Some m \<Rightarrow> Some (update_rows now (\<lambda>x. ID x = ID m)
          (\<lambda>x. x\<lparr>mach_OrganizationID := org,
                 mach_Hostname := (if hostname = '''' then mach_Hostname x else hostname),
                 mach_OS := (if os = '''' then mach_OS x else os),
                 mach_IPAddress := (if ip = '''' then mach_IPAddress x else ip)\<rparr>) t)
      | None \<Rightarrow> create_row now no_clash
          \<lparr>ID = nid, CreatedAt = now, UpdatedAt = now, DeletedAt = None, mach_OrganizationID = org,
           mach_AgentID = aid, mach_Hostname = hostname, mach_OS = os, mach_IPAddress = ip\<rparr> t)"

definition pending_agent :: "uuid \<Rightarrow> uuid \<Rightarrow> string \<Rightarrow> string option \<Rightarrow> agent" where
  "pending_agent i org name key =
     \<lparr>ID = i, CreatedAt = 0, UpdatedAt = 0, DeletedAt = None, ag_OrganizationID = org,
      ag_Name = name, ag_TokenHash = None, ag_TokenRotatedAt = None, ag_Status = AgentOffline,
      ag_Version = '''', ag_LastSeenAt = None, ag_RegistrationKey = key, ag_Platform = '''',
      ag_Architecture = '''', ag_MachineName = '''', ag_InstalledAt = None, ag_RevokedAt = None,
      ag_RegistrationExpiresAt = None\<rparr>"

subsection \<open>Enrollment\<close>

definition enrollmentExpired :: "time \<Rightarrow> time \<Rightarrow> bool" where
  "enrollmentExpired expiresAt now \<longleftrightarrow> \<not> now < expiresAt"

record enroll_draws =
  dr_AgentID :: uuid
  dr_TokenID :: uuid
  dr_Token :: string
  dr_Suffix :: string

definition GenerateEnrollmentToken ::
    "(string \<Rightarrow> string) \<Rightarrow> time \<Rightarrow> enroll_draws \<Rightarrow> uuid \<Rightarrow> uuid option \<Rightarrow> (string \<times> int) option \<Rightarrow> db
      \<Rightarrow> db \<times> (uuid \<times> string \<times> time) reply" where
  "GenerateEnrollmentToken sha now dr org userID req d =
     (case req of
        None \<Rightarrow> (d, Fail 400 ''bad request'')
      | Some (rawname, minutes) \<Rightarrow>
          let ttl = (if minutes = 0 then 30 else minutes) in
          if ttl < 1 \<or> ttl > 1440 then (d, Fail 400 ''expires_minutes must be 1-1440'')
          else
            let trimmed = trim_space rawname;
                name = (if trimmed = '''' then ''pending-'' @ dr_Suffix dr else trimmed);
                expiresAt = now + ttl * minute;
                tok = \<lparr>ID = dr_TokenID dr, CreatedAt = now, UpdatedAt = now, DeletedAt = None,
                       tok_OrganizationID = org, tok_AgentID = Some (dr_AgentID dr),
                       tok_TokenHash = sha (dr_Token dr), tok_ExpiresAt = expiresAt,
                       tok_UsedAt = None, tok_RevokedAt = None, tok_CreatedBy = userID\<rparr>
            in (case create_row now agent_clash (pending_agent (dr_AgentID dr) org name None) (db_agents d) of
                  None \<Rightarrow> (d, Fail 500 ''failed to create enrollment token'')
                | Some ags \<Rightarrow>
                    (case create_row now token_clash tok (db_tokens d) of
                       None \<Rightarrow> (d, Fail 500 ''failed to create enrollment token'')
                     | Some toks \<Rightarrow>
                         (emit (PublishEntity org ''agents'' ''token-created'' (dr_AgentID dr))
                            (d\<lparr>db_agents := ags, db_tokens := toks\<rparr>),
                          Reply 201 (dr_AgentID dr, dr_Token dr, expiresAt)))))"

record enroll_request =
  er_Token :: string
  er_MachineName :: string
  er_Platform :: string
  er_Architecture :: string
  er_AgentVersion :: string
  er_Hostname :: string
  er_OS :: string
  er_IPAddress :: string

text \<open>The transaction body: claim the token, then write the agent and its machine.\<close>

definition enroll_agent :: "time \<Rightarrow> string \<Rightarrow> string \<Rightarrow> enroll_request \<Rightarrow> agent \<Rightarrow> agent" where
  "enroll_agent now name tokenHash req a =
     a\<lparr>ag_Name := name, ag_MachineName := trim_space (er_MachineName req),
       ag_Platform := to_lower (trim_space (er_Platform req)),
       ag_Architecture := to_lower (trim_space (er_Architecture req)),
       ag_Version := trim_space (er_AgentVersion req), ag_TokenHash := Some tokenHash,
       ag_Status := AgentOnline, ag_LastSeenAt := Some now, ag_InstalledAt := Some now,
       ag_RegistrationKey := None\<rparr>"

definition enroll_tx ::
    "time \<Rightarrow> uuid \<Rightarrow> string \<Rightarrow> enroll_request \<Rightarrow> enrollment_token \<Rightarrow> uuid \<Rightarrow> string \<Rightarrow> db \<Rightarrow> db option" where
  "enroll_tx now mid name req tok aid tokenHash d =
     (let P = (\<lambda>t. ID t = ID tok \<and> tok_UsedAt t = None \<and> tok_RevokedAt t = None) in
      if affected P (db_tokens d) = 0 then None
      else
        let toks = update_rows now P (\<lambda>t. t\<lparr>tok_UsedAt := Some now\<rparr>) (db_tokens d) in
        (case first_row (\<lambda>a. ID a = aid \<and> ag_OrganizationID a = tok_OrganizationID tok) (db_agents d) of
           None \<Rightarrow> None
         | Some a \<Rightarrow>
             if ag_RevokedAt a \<noteq> None then None
             else (case update_agent now (ID a) (enroll_agent now name tokenHash req) (db_agents d) of
                     None \<Rightarrow> None
                   | Some ags \<Rightarrow>
                       (case assign_machine now mid (ag_OrganizationID a) (ID a) name (er_OS req)
                               (er_IPAddress req) (db_machines d) of
                          None \<Rightarrow> None
                        | Some ms \<Rightarrow> Some (d\<lparr>db_tokens := toks, db_agents := ags, db_machines := ms\<rparr>)))))"

definition Enroll ::
    "(string \<Rightarrow> string) \<Rightarrow> (string \<Rightarrow> string option) \<Rightarrow> time \<Rightarrow> string \<Rightarrow> uuid \<Rightarrow> enroll_request option \<Rightarrow> db
      \<Rightarrow> db \<times> (uuid \<times> string) reply" where
  "Enroll sha bcrypt_hash now token mid req d =
     (case req of
        None \<Rightarrow> (d, Fail 400 ''bad request'')
      | Some q \<Rightarrow>
          if er_Token q = '''' \<or> er_MachineName q = '''' then (d, Fail 400 ''bad request'')
          else
          (case first_row (\<lambda>t. tok_TokenHash t = sha (trim_space (er_Token q)) \<and> tok_RevokedAt t = None)
                  (db_tokens d) of
             None \<Rightarrow> (d, Fail 401 ''invalid enrollment token'')
           | Some tok \<Rightarrow>
               if tok_UsedAt tok \<noteq> None \<or> enrollmentExpired (tok_ExpiresAt tok) now
               then (d, Fail 401 ''invalid enrollment token'')
               else (case tok_AgentID tok of
                 None \<Rightarrow> (d, Fail 401 ''invalid enrollment token'')
               | Some aid \<Rightarrow>
                   (case bcrypt_hash token of
                      None \<Rightarrow> (d, Fail 500 ''token generation failed'')
                    | Some h \<Rightarrow>
                        let mn = trim_space (er_MachineName q);
                            name = (if mn = '''' then trim_space (er_Hostname q) else mn) in
                        (case enroll_tx now mid name q tok aid h d of
                           None \<Rightarrow> (d, Fail 401 ''invalid enrollment token'')
                         | Some d' \<Rightarrow>
                             (case first_row (\<lambda>a. ID a = aid) (db_agents d') of
                                None \<Rightarrow> (d', Reply 200 ('''', token))
                              | Some a \<Rightarrow>
                                  (emit (PublishPresence (ag_OrganizationID a) (ID a) (ag_Status a)) d',
                                   Reply 200 (ID a, token))))))))"

definition Heartbeat :: "time \<Rightarrow> agent \<Rightarrow> string \<Rightarrow> db \<Rightarrow> db \<times> time reply" where
  "Heartbeat now a version d =
     (let v = trim_space version in
      (d\<lparr>db_agents := update_rows now (\<lambda>x. ID x = ID a)
          (\<lambda>x. let y = x\<lparr>ag_Status := AgentOnline, ag_LastSeenAt := Some now\<rparr> in
               if v \<noteq> '''' \<and> length v \<le> 32 then y\<lparr>ag_Version := v\<rparr> else y) (db_agents d)\<rparr>,
       Reply 200 now))"

definition Revoke :: "time \<Rightarrow> uuid \<Rightarrow> uuid option \<Rightarrow> db \<Rightarrow> db \<times> bool reply" where
  "Revoke now org idp d =
     (case idp of
        None \<Rightarrow> (d, Fail 400 ''invalid id'')
      | Some i \<Rightarrow>
          (case first_row (\<lambda>a. ID a = i \<and> ag_OrganizationID a = org) (db_agents d) of
             None \<Rightarrow> (d, Fail 404 ''not found'')
           | Some a \<Rightarrow>
               (emit (PublishEntity org ''agents'' ''revoked'' (ID a)) (emit (GrpcDisconnect (ID a))
                  (d\<lparr>db_agents := update_rows now (\<lambda>x. ID x = ID a)
                       (\<lambda>x. x\<lparr>ag_RevokedAt := Some now, ag_Status := AgentOffline\<rparr>) (db_agents d)\<rparr>)),
                Reply 200 True)))"

definition RevokeToken :: "faults \<Rightarrow> time \<Rightarrow> uuid \<Rightarrow> uuid option \<Rightarrow> db \<Rightarrow> db \<times> unit reply" where
  "RevokeToken flt now org idp d =
     (case idp of
        None \<Rightarrow> (d, Fail 400 ''invalid id'')
      | Some i \<Rightarrow>
          let P = (\<lambda>t. ID t = i \<and> tok_OrganizationID t = org \<and> tok_UsedAt t = None \<and> tok_RevokedAt t = None) in
          if flt ''revoke token'' then (d, Fail 500 ''revoke failed'')
          else if affected P (db_tokens d) = 0 then (d, Fail 404 ''not found'')
          else (emit (PublishEntity org ''agents'' ''token-revoked'' i)
                  (d\<lparr>db_tokens := update_rows now P (\<lambda>t. t\<lparr>tok_RevokedAt := Some now\<rparr>) (db_tokens d)\<rparr>),
                Reply 204 ()))"

text \<open>\<open>ListTokens\<close> answers with metadata only; the tuple has no field for the hash.\<close>

definition ListTokens :: "uuid \<Rightarrow> db \<Rightarrow> (uuid \<times> uuid \<times> string \<times> time \<times> time option \<times> time option) list" where
  "ListTokens org d =
     map (\<lambda>t. (ID t, tok_OrganizationID t, (case tok_AgentID t of None \<Rightarrow> '''' | Some i \<Rightarrow> i),
               tok_ExpiresAt t, tok_UsedAt t, tok_RevokedAt t))
       (rev (sort_key CreatedAt (rows (\<lambda>t. tok_OrganizationID t = org) (db_tokens d))))"

subsection \<open>Agent handlers\<close>

text \<open>
  The \<open>lifecycle\<close> filter of \<open>List\<close>, a SQL condition per name; an unknown name filters nothing.
  A comparison with a NULL column does not hold.
\<close>

fun lifecycle_filter :: "time \<Rightarrow> string \<Rightarrow> agent \<Rightarrow> bool" where
  "lifecycle_filter now name a =
     (if name = ''REVOKED'' then ag_RevokedAt a \<noteq> None
      else if name = ''PENDING'' then ag_RevokedAt a = None \<and> ag_TokenHash a = None
      else if name = ''ONLINE'' then ag_RevokedAt a = None \<and> ag_TokenHash a \<noteq> None \<and>
        (case ag_LastSeenAt a of None \<Rightarrow> False | Some s \<Rightarrow> now - OnlineThreshold < s)
      else if name = ''OFFLINE'' then ag_RevokedAt a = None \<and> ag_TokenHash a \<noteq> None \<and>
        (case ag_LastSeenAt a of None \<Rightarrow> True | Some s \<Rightarrow> s \<le> now - OnlineThreshold)
      else True)"

definition GetAgent :: "time \<Rightarrow> uuid \<Rightarrow> uuid option \<Rightarrow> db \<Rightarrow> (agent \<times> lifecycle) reply" where
  "GetAgent now org idp d =
     (case idp of
        None \<Rightarrow> Fail 400 ''invalid id''
      | Some i \<Rightarrow>
          (case first_row (\<lambda>a. ID a = i \<and> ag_OrganizationID a = org) (db_agents d) of
             None \<Rightarrow> Fail 404 ''not found''
           | Some a \<Rightarrow> Reply 200 (a, Lifecycle now a)))"

definition GenerateRegistrationToken ::
    "(string \<Rightarrow> string) \<Rightarrow> time \<Rightarrow> enroll_draws \<Rightarrow> uuid \<Rightarrow> db \<Rightarrow> db \<times> (uuid \<times> string) reply" where
  "GenerateRegistrationToken sha now dr org d =
     (case create_row now agent_clash
        (pending_agent (dr_AgentID dr) org (''pending-'' @ dr_Suffix dr) (Some (sha (dr_Token dr)))) (db_agents d) of
        None \<Rightarrow> (d, Fail 500 ''failed to create agent'')
      | Some ags \<Rightarrow>
          (emit (PublishEntity org ''agents'' ''token-created'' (dr_AgentID dr)) (d\<lparr>db_agents := ags\<rparr>),
           Reply 201 (dr_AgentID dr, dr_Token dr)))"

record register_request =
  rg_Key :: string
  rg_Hostname :: string
  rg_OS :: string
  rg_Version :: string
  rg_IPAddress :: string

definition Register ::
    "(string \<Rightarrow> string) \<Rightarrow> (string \<Rightarrow> string option) \<Rightarrow> time \<Rightarrow> string \<Rightarrow> uuid \<Rightarrow> uuid \<Rightarrow> caller
      \<Rightarrow> register_request option \<Rightarrow> db \<Rightarrow> db \<times> (uuid \<times> string) reply" where
  "Register sha bcrypt_hash now token mid auid who req d =
     (case req of
        None \<Rightarrow> (d, Fail 400 ''bad request'')
      | Some q \<Rightarrow>
          if rg_Key q = '''' \<or> rg_Hostname q = '''' then (d, Fail 400 ''bad request'')
          else
          (case first_row (\<lambda>a. ag_RegistrationKey a = Some (sha (rg_Key q))) (db_agents d) of
             None \<Rightarrow> (d, Fail 401 ''invalid registration key'')
           | Some a \<Rightarrow>
               if ag_RevokedAt a \<noteq> None then (d, Fail 401 ''invalid registration key'')
               else (case bcrypt_hash token of
                 None \<Rightarrow> (d, Fail 500 ''token generation failed'')
               | Some h \<Rightarrow>
                   let ags = (case update_agent now (ID a)
                          (\<lambda>x. x\<lparr>ag_Name := rg_Hostname q, ag_TokenHash := Some h, ag_Version := rg_Version q,
                                 ag_Status := AgentOnline, ag_RegistrationKey := None\<rparr>) (db_agents d) of
                          None \<Rightarrow> db_agents d | Some t \<Rightarrow> t);
                       ms = (case assign_machine now mid (ag_OrganizationID a) (ID a) (rg_Hostname q)
                               (rg_OS q) (rg_IPAddress q) (db_machines d) of
                          None \<Rightarrow> db_machines d | Some t \<Rightarrow> t)
                   in (add_audit now auid (ag_OrganizationID a) who ''AGENT_REGISTERED'' ''agent'' (ID a)
                         (d\<lparr>db_agents := ags, db_machines := ms\<rparr>),
                       Reply 200 (ID a, token)))))"

definition DeleteAgent :: "faults \<Rightarrow> time \<Rightarrow> uuid \<Rightarrow> uuid option \<Rightarrow> db \<Rightarrow> db \<times> unit reply" where
  "DeleteAgent flt now org idp d =
     (case idp of
        None \<Rightarrow> (d, Fail 400 ''invalid id'')
      | Some i \<Rightarrow>
          if flt ''delete agent'' then (d, Fail 500 ''delete failed'')
          else (emit (PublishEntity org ''agents'' ''deleted'' i)
                  (d\<lparr>db_agents := delete_rows now (\<lambda>a. ID a = i \<and> ag_OrganizationID a = org) (db_agents d)\<rparr>),
                Reply 204 ()))"

definition Rename :: "faults \<Rightarrow> time \<Rightarrow> uuid \<Rightarrow> uuid option \<Rightarrow> string option \<Rightarrow> db \<Rightarrow> db \<times> uuid reply" where
  "Rename flt now org idp req d =
     (case idp of
        None \<Rightarrow> (d, Fail 400 ''invalid id'')
      | Some i \<Rightarrow>
          (case req of
             None \<Rightarrow> (d, Fail 400 ''bad request'')
           | Some raw \<Rightarrow>
               let name = trim_space raw in
               if name = '''' \<or> length name > 100 then (d, Fail 400 ''name must be 1-100 characters'')
               else (case first_row (\<lambda>a. ID a = i \<and> ag_OrganizationID a = org) (db_agents d) of
                  None \<Rightarrow> (d, Fail 404 ''not found'')
                | Some a \<Rightarrow>
                    if flt ''rename'' then (d, Fail 500 ''rename failed'')
                    else (emit (PublishEntity org ''agents'' ''renamed'' (ID a))
                            (d\<lparr>db_agents := update_rows now (\<lambda>x. ID x = ID a) (\<lambda>x. x\<lparr>ag_Name := name\<rparr>) (db_agents d)\<rparr>),
                          Reply 200 (ID a)))))"

definition RotateToken ::
    "(string \<Rightarrow> string option) \<Rightarrow> time \<Rightarrow> string \<Rightarrow> uuid \<Rightarrow> caller \<Rightarrow> uuid \<Rightarrow> uuid option \<Rightarrow> db
      \<Rightarrow> db \<times> (uuid \<times> string) reply" where
  "RotateToken bcrypt_hash now token auid who org idp d =
     (case idp of
        None \<Rightarrow> (d, Fail 400 ''invalid id'')
      | Some i \<Rightarrow>
          (case bcrypt_hash token of
             None \<Rightarrow> (d, Fail 500 ''token generation failed'')
           | Some h \<Rightarrow>
               (case first_row (\<lambda>a. ID a = i \<and> ag_OrganizationID a = org) (db_agents d) of
                  None \<Rightarrow> (d, Fail 404 ''not found'')
                | Some a \<Rightarrow>
                    if ag_RevokedAt a \<noteq> None then (d, Fail 404 ''not found'')
                    else (case update_agent now (ID a)
                             (\<lambda>x. x\<lparr>ag_TokenHash := Some h, ag_TokenRotatedAt := Some now\<rparr>) (db_agents d) of
                            None \<Rightarrow> (d, Fail 404 ''not found'')
                          | Some ags \<Rightarrow>
                              (add_audit now auid org who ''AGENT_TOKEN_ROTATED'' ''agent'' (ID a)
                                 (emit (GrpcDisconnect (ID a)) (d\<lparr>db_agents := ags\<rparr>)),
                               Reply 200 (ID a, token))))))"


subsection \<open>Authentication, exactly\<close>

lemma bearer_iff: "length h > 7 \<and> take 7 h = ''Bearer '' \<and> drop 7 h = r \<longleftrightarrow> h = ''Bearer '' @ r \<and> r \<noteq> ''''"
proof
  assume *: "length h > 7 \<and> take 7 h = ''Bearer '' \<and> drop 7 h = r"
  then have "h = ''Bearer '' @ r" by (metis append_take_drop_id)
  moreover have "r \<noteq> ''''" using * by (metis drop_eq_Nil not_less)
  ultimately show "h = ''Bearer '' @ r \<and> r \<noteq> ''''" ..
qed auto

lemma extractBearerToken_iff:
  "r \<noteq> '''' \<Longrightarrow> extractBearerToken h = r \<longleftrightarrow> h = ''Bearer '' @ r"
  using bearer_iff [of h r] by (auto simp: extractBearerToken_def)

lemma find_by_id:
  "unique_ids t \<Longrightarrow> first_row (\<lambda>a. ID a = i) t = Some a \<longleftrightarrow> a \<in> set t \<and> live a \<and> ID a = i"
proof
  assume "first_row (\<lambda>a. ID a = i) t = Some a"
  then show "a \<in> set t \<and> live a \<and> ID a = i" using first_row_SomeD by fastforce
next
  assume u: "unique_ids t" and a: "a \<in> set t \<and> live a \<and> ID a = i"
  then obtain b where b: "first_row (\<lambda>a. ID a = i) t = Some b"
    using first_row_None_iff [of "\<lambda>a. ID a = i" t] by (cases "first_row (\<lambda>a. ID a = i) t") auto
  then have "b = a" using u a unique_ids_eq first_row_SomeD [OF b] by blast
  then show "first_row (\<lambda>a. ID a = i) t = Some a" using b by simp
qed

text \<open>The polling handlers repeat the middleware's check.\<close>

lemma authenticateAgent_eq: "authenticateAgent bcrypt_ok auth i d = AgentAuth bcrypt_ok auth i d"
  by (simp add: authenticateAgent_def AgentAuth_def extractBearerToken_def)

definition may_authenticate :: "(string \<Rightarrow> string \<Rightarrow> bool) \<Rightarrow> string \<Rightarrow> agent \<Rightarrow> bool" where
  "may_authenticate bcrypt_ok token a \<longleftrightarrow> live a \<and> ag_RevokedAt a = None \<and>
     (case ag_TokenHash a of None \<Rightarrow> False | Some h \<Rightarrow> bcrypt_ok h token)"

lemma bearer_ex:
  "extractBearerToken h \<noteq> '''' \<and> Q (extractBearerToken h) \<longleftrightarrow>
     (\<exists>token. token \<noteq> '''' \<and> h = ''Bearer '' @ token \<and> Q token)"
  using extractBearerToken_iff by metis

lemma AgentAuth_Inr:
  assumes "unique_ids (db_agents d)"
  shows "AgentAuth bcrypt_ok auth idp d = Inr a \<longleftrightarrow>
     (\<exists>token. token \<noteq> '''' \<and> auth = ''Bearer '' @ token \<and> idp = Some (ID a) \<and>
        a \<in> set (db_agents d) \<and> may_authenticate bcrypt_ok token a)"
proof -
  have "AgentAuth bcrypt_ok auth idp d = Inr a \<longleftrightarrow>
      extractBearerToken auth \<noteq> '''' \<and> (idp = Some (ID a) \<and>
      first_row (\<lambda>x. ID x = ID a) (db_agents d) = Some a \<and>
      ag_RevokedAt a = None \<and> (\<exists>h. ag_TokenHash a = Some h \<and> bcrypt_ok h (extractBearerToken auth)))"
    by (auto simp: AgentAuth_def extractBearerToken_def [symmetric] Let_def
        dest: first_row_SomeD(3) split: option.splits if_splits)
  also have "\<dots> \<longleftrightarrow> extractBearerToken auth \<noteq> '''' \<and> (idp = Some (ID a) \<and>
        a \<in> set (db_agents d) \<and> may_authenticate bcrypt_ok (extractBearerToken auth) a)"
    unfolding find_by_id [OF assms] may_authenticate_def by (auto split: option.splits)
  also have "\<dots> \<longleftrightarrow> (\<exists>token. token \<noteq> '''' \<and> auth = ''Bearer '' @ token \<and> idp = Some (ID a) \<and>
        a \<in> set (db_agents d) \<and> may_authenticate bcrypt_ok token a)"
    by (rule bearer_ex)
  finally show ?thesis .
qed

subsection \<open>How agents and tokens evolve\<close>

definition agent_later :: "agent \<Rightarrow> agent \<Rightarrow> bool" where
  "agent_later a b \<longleftrightarrow> ID b = ID a \<and> ag_OrganizationID b = ag_OrganizationID a \<and>
     CreatedAt b = CreatedAt a \<and>
     (ag_RevokedAt a \<noteq> None \<longrightarrow> ag_RevokedAt b \<noteq> None) \<and>
     (ag_TokenHash a \<noteq> None \<longrightarrow> ag_TokenHash b \<noteq> None) \<and>
     (DeletedAt a \<noteq> None \<longrightarrow> b = a)"

interpretation agent_table: row_evolution agent_later
  by unfold_locales (auto simp: agent_later_def)

definition token_later :: "enrollment_token \<Rightarrow> enrollment_token \<Rightarrow> bool" where
  "token_later a b \<longleftrightarrow> ID b = ID a \<and> tok_OrganizationID b = tok_OrganizationID a \<and>
     tok_AgentID b = tok_AgentID a \<and> tok_TokenHash b = tok_TokenHash a \<and>
     tok_ExpiresAt b = tok_ExpiresAt a \<and> CreatedAt b = CreatedAt a \<and>
     (tok_UsedAt a \<noteq> None \<longrightarrow> tok_UsedAt b = tok_UsedAt a) \<and>
     (tok_RevokedAt a \<noteq> None \<longrightarrow> tok_RevokedAt b = tok_RevokedAt a) \<and>
     (DeletedAt a \<noteq> None \<longrightarrow> b = a)"

interpretation token_table: row_evolution token_later
  by unfold_locales (auto simp: token_later_def)

definition agents_wf :: "agent list \<Rightarrow> bool" where
  "agents_wf t \<longleftrightarrow> unique_ids t \<and> (\<forall>x\<in>set t. \<forall>y\<in>set t. agent_clash x y \<longrightarrow> ID x = ID y)"

definition tokens_wf :: "enrollment_token list \<Rightarrow> bool" where
  "tokens_wf t \<longleftrightarrow> unique_ids t \<and> (\<forall>x\<in>set t. \<forall>y\<in>set t. token_clash x y \<longrightarrow> ID x = ID y)"

lemma update_agent_SomeD:
  assumes "update_agent now i f t = Some t'"
  shows "t' = update_rows now (\<lambda>a. ID a = i) f t"
    and "\<forall>x\<in>set t'. \<forall>y\<in>set t'. agent_clash x y \<longrightarrow> ID x = ID y"
  using assms by (auto simp: update_agent_def Let_def split: if_splits)

lemma update_agent_wf:
  assumes "agents_wf t" and "update_agent now i f t = Some t'" and "\<And>a. ID (f a) = ID a"
  shows "agents_wf t'"
  using assms update_agent_SomeD [OF assms(2)] unique_ids_update [of t f now]
  by (auto simp: agents_wf_def)

lemma update_agent_evolves:
  assumes "update_agent now i f t = Some t'" and "\<And>a. live a \<Longrightarrow> agent_later a ((f a)\<lparr>UpdatedAt := now\<rparr>)"
  shows "agent_table.evolves t t'"
  using update_agent_SomeD(1) [OF assms(1)] assms(2) by (auto intro: agent_table.evolves_update)

interpretation agent_index: indexed_table agent_clash "\<lambda>_. True"
  by unfold_locales (auto simp: agent_clash_def)

interpretation token_index: indexed_table token_clash "\<lambda>_. True"
  by unfold_locales (auto simp: token_clash_def)

lemma agents_wf_iff: "agents_wf t \<longleftrightarrow> agent_index.wf t"
  by (simp add: agents_wf_def agent_index.wf_def)

lemma tokens_wf_iff: "tokens_wf t \<longleftrightarrow> token_index.wf t"
  by (simp add: tokens_wf_def token_index.wf_def)

text \<open>An edit that leaves ids and the unique columns alone keeps the table well-formed.\<close>

lemma agents_wf_edit:
  assumes "agents_wf t"
    and f: "\<And>a. ID (f a) = ID a" "\<And>a. ag_TokenHash (f a) = ag_TokenHash a"
      "\<And>a. ag_RegistrationKey (f a) = ag_RegistrationKey a"
  shows "agents_wf (update_rows now P f t)"
  using assms(1) unfolding agents_wf_iff
  by (rule agent_index.wf_update) (simp_all add: agent_clash_def f)

lemma tokens_wf_edit:
  assumes "tokens_wf t" and f: "\<And>a. ID (f a) = ID a" "\<And>a. tok_TokenHash (f a) = tok_TokenHash a"
  shows "tokens_wf (update_rows now P f t)"
  using assms(1) unfolding tokens_wf_iff
  by (rule token_index.wf_update) (simp_all add: token_clash_def f)

lemma agents_wf_delete: "agents_wf t \<Longrightarrow> agents_wf (delete_rows now P t)"
  unfolding agents_wf_iff by (rule agent_index.wf_delete)

lemma agents_wf_create: "agents_wf t \<Longrightarrow> create_row now agent_clash r t = Some t' \<Longrightarrow> agents_wf t'"
  unfolding agents_wf_iff by (rule agent_index.wf_create) simp_all

lemma tokens_wf_create: "tokens_wf t \<Longrightarrow> create_row now token_clash r t = Some t' \<Longrightarrow> tokens_wf t'"
  unfolding tokens_wf_iff by (rule token_index.wf_create) simp_all

subsection \<open>What the agent operations do to the tables\<close>

definition only_agents :: "db \<Rightarrow> db \<Rightarrow> bool" where
  "only_agents d d' \<longleftrightarrow>
     db_orgs d' = db_orgs d \<and> db_users d' = db_users d \<and> db_members d' = db_members d \<and>
     db_targets d' = db_targets d \<and> db_conns d' = db_conns d \<and> db_policies d' = db_policies d \<and>
     db_schedules d' = db_schedules d \<and> db_jobs d' = db_jobs d \<and> db_runs d' = db_runs d \<and>
     db_artifacts d' = db_artifacts d \<and> db_chunks d' = db_chunks d \<and>
     db_restores d' = db_restores d \<and> db_baselines d' = db_baselines d \<and>
     db_alerts d' = db_alerts d \<and> db_settings d' = db_settings d \<and> db_prefs d' = db_prefs d"

text \<open>
  The contract of every agent operation: the other tables are untouched, agents and
  enrollment tokens only evolve, and the unique indexes stay intact.
\<close>

definition agents_step :: "db \<Rightarrow> db \<Rightarrow> bool" where
  "agents_step d d' \<longleftrightarrow> only_agents d d' \<and>
     agent_table.evolves (db_agents d) (db_agents d') \<and>
     token_table.evolves (db_tokens d) (db_tokens d') \<and>
     (agents_wf (db_agents d) \<longrightarrow> agents_wf (db_agents d')) \<and>
     (tokens_wf (db_tokens d) \<longrightarrow> tokens_wf (db_tokens d'))"

lemma agents_step_refl [simp]: "agents_step d d"
  by (simp add: agents_step_def only_agents_def agent_table.evolves_refl token_table.evolves_refl)

lemma agents_step_trans: "agents_step a b \<Longrightarrow> agents_step b c \<Longrightarrow> agents_step a c"
  unfolding agents_step_def
  by (auto simp: only_agents_def intro: agent_table.evolves_trans token_table.evolves_trans)

lemma agents_step_emit [simp]: "agents_step d (emit e x) = agents_step d x"
  by (simp add: agents_step_def only_agents_def)

lemma agents_step_audit [simp]: "agents_step d (add_audit now nid org u action res rid x) = agents_step d x"
  by (simp add: agents_step_def only_agents_def add_audit_def split: option.split)

lemma agents_step_machines [simp]: "agents_step d (x\<lparr>db_machines := m\<rparr>) = agents_step d x"
  by (simp add: agents_step_def only_agents_def)

lemma agents_step_agents:
  assumes "agent_table.evolves (db_agents d) t" and "agents_wf (db_agents d) \<Longrightarrow> agents_wf t"
  shows "agents_step d (d\<lparr>db_agents := t\<rparr>)"
  using assms by (simp add: agents_step_def only_agents_def token_table.evolves_refl)

lemma agents_step_tokens:
  assumes "token_table.evolves (db_tokens d) t" and "tokens_wf (db_tokens d) \<Longrightarrow> tokens_wf t"
  shows "agents_step d (d\<lparr>db_tokens := t\<rparr>)"
  using assms by (simp add: agents_step_def only_agents_def agent_table.evolves_refl)

lemma agents_step_update:
  assumes "\<And>a. live a \<Longrightarrow> agent_later a ((f a)\<lparr>UpdatedAt := now\<rparr>)"
    and "\<And>a. ag_TokenHash (f a) = ag_TokenHash a" and "\<And>a. ag_RegistrationKey (f a) = ag_RegistrationKey a"
    and "\<And>a. ID (f a) = ID a"
  shows "agents_step d (d\<lparr>db_agents := update_rows now P f (db_agents d)\<rparr>)"
  using assms by (intro agents_step_agents agent_table.evolves_update agents_wf_edit) auto

lemma agents_step_update_agent:
  assumes "update_agent now i f (db_agents d) = Some t"
    and "\<And>a. live a \<Longrightarrow> agent_later a ((f a)\<lparr>UpdatedAt := now\<rparr>)" and "\<And>a. ID (f a) = ID a"
  shows "agents_step d (d\<lparr>db_agents := t\<rparr>)"
  using assms by (intro agents_step_agents update_agent_evolves [OF assms(1)]) (auto intro: update_agent_wf)

lemma agents_step_create:
  "create_row now agent_clash r (db_agents d) = Some t \<Longrightarrow> agents_step d (d\<lparr>db_agents := t\<rparr>)"
  by (intro agents_step_agents agent_table.evolves_create) (auto intro: agents_wf_create)

lemma touch_step: "agents_step d (touch now a d)"
  by (auto simp: touch_def Let_def agent_later_def live_def intro!: agents_step_update)

lemma Heartbeat_step: "agents_step d (fst (Heartbeat now a v d))"
  by (auto simp: Heartbeat_def Let_def agent_later_def live_def intro!: agents_step_update)

lemma Revoke_step: "agents_step d (fst (Revoke now org idp d))"
  by (auto simp: Revoke_def agent_later_def live_def split: option.split intro!: agents_step_update)

lemma Rename_step: "agents_step d (fst (Rename flt now org idp req d))"
  by (auto simp: Rename_def Let_def agent_later_def live_def split: option.split intro!: agents_step_update)

lemma DeleteAgent_step: "agents_step d (fst (DeleteAgent flt now org idp d))"
  by (auto simp: DeleteAgent_def agent_later_def live_def agents_wf_delete split: option.split
      intro!: agents_step_agents agent_table.evolves_delete)

lemma RotateToken_step: "agents_step d (fst (RotateToken bh now token auid u org idp d))"
  by (auto simp: RotateToken_def agent_later_def live_def split: option.split
      elim!: agents_step_update_agent)

lemma RevokeToken_step: "agents_step d (fst (RevokeToken flt now org idp d))"
  by (auto simp: RevokeToken_def Let_def token_later_def live_def split: option.split
      intro!: agents_step_tokens token_table.evolves_update tokens_wf_edit)

lemma GenerateRegistrationToken_step: "agents_step d (fst (GenerateRegistrationToken sha now dr org d))"
  by (auto simp: GenerateRegistrationToken_def split: option.split intro: agents_step_create)

lemma agents_step_two:
  assumes "agents_step d (d\<lparr>db_agents := a\<rparr>)" and "agents_step d (d\<lparr>db_tokens := t\<rparr>)"
  shows "agents_step d (d\<lparr>db_agents := a, db_tokens := t\<rparr>)" "agents_step d (d\<lparr>db_tokens := t, db_agents := a\<rparr>)"
  using assms by (simp_all add: agents_step_def only_agents_def)

lemma GenerateEnrollmentToken_step: "agents_step d (fst (GenerateEnrollmentToken sha now dr org u req d))"
proof -
  have "agents_step d (d\<lparr>db_tokens := t\<rparr>)" if "create_row now token_clash r (db_tokens d) = Some t" for r t
    using that by (intro agents_step_tokens token_table.evolves_create) (auto intro: tokens_wf_create)
  then show ?thesis
    by (auto simp: GenerateEnrollmentToken_def Let_def split: option.split
        intro!: agents_step_two(1) agents_step_create)
qed

lemma Register_step: "agents_step d (fst (Register sha bh now token mid auid u req d))"
  by (auto simp: Register_def Let_def agent_later_def live_def split: option.split
      elim!: agents_step_update_agent)

text \<open>The enrollment transaction, taken apart.\<close>

lemma enroll_tx_SomeD:
  assumes "enroll_tx now mid name req tok aid h d = Some d'"
  obtains a ags ms where
    "0 < affected (\<lambda>t. ID t = ID tok \<and> tok_UsedAt t = None \<and> tok_RevokedAt t = None) (db_tokens d)"
    and "first_row (\<lambda>a. ID a = aid \<and> ag_OrganizationID a = tok_OrganizationID tok) (db_agents d) = Some a"
    and "ag_RevokedAt a = None"
    and "update_agent now (ID a) (enroll_agent now name h req) (db_agents d) = Some ags"
    and "d' = d\<lparr>db_tokens := update_rows now (\<lambda>t. ID t = ID tok \<and> tok_UsedAt t = None \<and> tok_RevokedAt t = None)
                  (\<lambda>t. t\<lparr>tok_UsedAt := Some now\<rparr>) (db_tokens d), db_agents := ags, db_machines := ms\<rparr>"
  using assms by (auto simp: enroll_tx_def Let_def split: option.splits if_splits)

lemma enroll_tx_step: "enroll_tx now mid name req tok aid h d = Some d' \<Longrightarrow> agents_step d d'"
proof (erule enroll_tx_SomeD)
  fix a ags ms
  assume u: "update_agent now (ID a) (enroll_agent now name h req) (db_agents d) = Some ags"
    and d': "d' = d\<lparr>db_tokens := update_rows now (\<lambda>t. ID t = ID tok \<and> tok_UsedAt t = None \<and> tok_RevokedAt t = None)
                  (\<lambda>t. t\<lparr>tok_UsedAt := Some now\<rparr>) (db_tokens d), db_agents := ags, db_machines := ms\<rparr>"
  have 1: "agents_step d (d\<lparr>db_agents := ags\<rparr>)"
    by (rule agents_step_update_agent [OF u]) (simp_all add: agent_later_def enroll_agent_def live_def)
  have 2: "agents_step d (d\<lparr>db_tokens := update_rows now
      (\<lambda>t. ID t = ID tok \<and> tok_UsedAt t = None \<and> tok_RevokedAt t = None) (\<lambda>t. t\<lparr>tok_UsedAt := Some now\<rparr>) (db_tokens d)\<rparr>)"
    by (intro agents_step_tokens token_table.evolves_update tokens_wf_edit) (auto simp: token_later_def live_def)
  show "agents_step d d'" unfolding d' using agents_step_two(2) [OF 1 2] by simp
qed

text \<open>A reply of \<open>Enroll\<close> and its state.\<close>

lemma Enroll_cases:
  assumes "Enroll sha bh now token mid req d = (d', r)"
  obtains (refused) n msg where "d' = d" and "r = Fail n msg"
  | (enrolled) q tok aid h name d1 where "req = Some q"
      and "first_row (\<lambda>t. tok_TokenHash t = sha (trim_space (er_Token q)) \<and> tok_RevokedAt t = None)
             (db_tokens d) = Some tok"
      and "tok_UsedAt tok = None" and "now < tok_ExpiresAt tok" and "tok_AgentID tok = Some aid"
      and "bh token = Some h" and "enroll_tx now mid name q tok aid h d = Some d1"
      and "(d', r) = (case first_row (\<lambda>a. ID a = aid) (db_agents d1) of
              None \<Rightarrow> (d1, Reply 200 ('''', token))
            | Some a \<Rightarrow> (emit (PublishPresence (ag_OrganizationID a) (ID a) (ag_Status a)) d1, Reply 200 (ID a, token)))"
proof (cases "\<exists>n msg. d' = d \<and> r = Fail n msg")
  case True
  then show ?thesis using refused by blast
next
  case False
  then show ?thesis using assms
    by (auto simp: Enroll_def Let_def enrollmentExpired_def split: option.splits if_splits
        intro!: enrolled)
qed

lemma Enroll_step: "agents_step d (fst (Enroll sha bh now token mid req d))"
proof -
  obtain d' r where *: "Enroll sha bh now token mid req d = (d', r)" by fastforce
  then show ?thesis
  proof (cases rule: Enroll_cases)
    case (enrolled q tok aid h name d1)
    then show ?thesis using * enroll_tx_step [OF enrolled(7)] by (simp split: option.splits)
  qed (use * in simp)
qed

lemmas agents_steps = touch_step Heartbeat_step Revoke_step Rename_step DeleteAgent_step RotateToken_step
  RevokeToken_step GenerateRegistrationToken_step GenerateEnrollmentToken_step Register_step Enroll_step


subsection \<open>Properties\<close>

lemma agents_wf_unique: "agents_wf t \<Longrightarrow> unique_ids t"
  by (simp add: agents_wf_def)

text \<open>C23. A request authenticates as an agent exactly when it carries a non-empty bearer token, names
  that agent's id, and the stored agent is live, enrolled, not revoked and its hash accepts the
  token; the polling handlers' own copy of the check decides the same.\<close>

theorem agent_auth_exact:
  assumes "agents_wf (db_agents d)"
  shows "(AgentAuth ok auth idp d = Inr a \<longleftrightarrow>
     (\<exists>token. token \<noteq> '''' \<and> auth = ''Bearer '' @ token \<and> idp = Some (ID a) \<and>
        a \<in> set (db_agents d) \<and> may_authenticate ok token a)) \<and>
     authenticateAgent ok auth idp d = AgentAuth ok auth idp d"
  using AgentAuth_Inr [OF agents_wf_unique [OF assms]] by (simp add: authenticateAgent_eq)

definition sample_agent :: agent where
  "sample_agent = (pending_agent ''g1'' ''o1'' ''web-1'' None)\<lparr>ag_TokenHash := Some ''h:secret'',
     ag_Status := AgentOnline, ag_LastSeenAt := Some 5\<rparr>"

definition sample_bcrypt :: "string \<Rightarrow> string \<Rightarrow> bool" where
  "sample_bcrypt h t \<longleftrightarrow> h = ''h:'' @ t"

definition sample_token :: enrollment_token where
  "sample_token = \<lparr>ID = ''t1'', CreatedAt = 0, UpdatedAt = 0, DeletedAt = None,
     tok_OrganizationID = ''o1'', tok_AgentID = Some ''g2'', tok_TokenHash = ''s:enroll'',
     tok_ExpiresAt = 100, tok_UsedAt = None, tok_RevokedAt = None, tok_CreatedBy = None\<rparr>"

definition sample_agent_db :: db where
  "sample_agent_db = empty_db\<lparr>db_agents := [sample_agent, pending_agent ''g2'' ''o1'' ''pending'' None],
     db_tokens := [sample_token]\<rparr>"

lemma sample_agent_db_wf:
  "agents_wf (db_agents sample_agent_db)" "tokens_wf (db_tokens sample_agent_db)"
  by (auto simp: agents_wf_def tokens_wf_def unique_ids_def agent_clash_def sample_agent_db_def
      sample_agent_def pending_agent_def)

theorem agent_auth_exact_witness:
  "AgentAuth sample_bcrypt ''Bearer secret'' (Some ''g1'') sample_agent_db = Inr sample_agent \<and>
   (\<forall>auth. AgentAuth sample_bcrypt auth (Some ''g2'') sample_agent_db
             \<noteq> Inr (pending_agent ''g2'' ''o1'' ''pending'' None))"
proof -
  note exact = agent_auth_exact [OF sample_agent_db_wf(1), THEN conjunct1]
  have "may_authenticate sample_bcrypt ''secret'' sample_agent"
    by (simp add: may_authenticate_def sample_agent_def pending_agent_def live_def sample_bcrypt_def)
  then have "\<exists>token. token \<noteq> '''' \<and> ''Bearer secret'' = ''Bearer '' @ token \<and>
      Some ''g1'' = Some (ID sample_agent) \<and> sample_agent \<in> set (db_agents sample_agent_db) \<and>
      may_authenticate sample_bcrypt token sample_agent"
    by (intro exI [of _ "''secret''"]) (simp add: sample_agent_db_def sample_agent_def pending_agent_def)
  then show ?thesis unfolding exact by (simp add: may_authenticate_def pending_agent_def)
qed

definition same_token :: "(string \<Rightarrow> string) \<Rightarrow> enroll_request \<Rightarrow> enroll_request \<Rightarrow> bool" where
  "same_token sha p q \<longleftrightarrow> sha (trim_space (er_Token p)) = sha (trim_space (er_Token q))"

lemma Enroll_200:
  assumes "Enroll sha bh now token mid req d = (d', Reply n (i, t))" and "agents_wf (db_agents d)"
  obtains q tok h a where "req = Some q"
    and "first_row (\<lambda>t. tok_TokenHash t = sha (trim_space (er_Token q)) \<and> tok_RevokedAt t = None)
           (db_tokens d) = Some tok"
    and "tok_UsedAt tok = None" and "now < tok_ExpiresAt tok" and "tok_AgentID tok = Some i"
    and "bh token = Some h" and "t = token" and "n = 200"
    and "a \<in> set (db_agents d')" and "live a" and "ID a = i" and "ag_TokenHash a = Some h"
    and "ag_RevokedAt a = None" and "ag_OrganizationID a = tok_OrganizationID tok"
    and "ag_LastSeenAt a = Some now"
    and "db_tokens d' = update_rows now (\<lambda>t. ID t = ID tok \<and> tok_UsedAt t = None \<and> tok_RevokedAt t = None)
           (\<lambda>t. t\<lparr>tok_UsedAt := Some now\<rparr>) (db_tokens d)"
    and "agents_wf (db_agents d')"
  using assms(1)
proof (cases rule: Enroll_cases)
  case (enrolled q tok aid h name d1)
  from enrolled(7) obtain a ags ms where
      a: "first_row (\<lambda>a. ID a = aid \<and> ag_OrganizationID a = tok_OrganizationID tok) (db_agents d) = Some a"
      "ag_RevokedAt a = None"
      and u: "update_agent now (ID a) (enroll_agent now name h q) (db_agents d) = Some ags"
      and d1: "d1 = d\<lparr>db_tokens := update_rows now (\<lambda>t. ID t = ID tok \<and> tok_UsedAt t = None \<and> tok_RevokedAt t = None)
                  (\<lambda>t. t\<lparr>tok_UsedAt := Some now\<rparr>) (db_tokens d), db_agents := ags, db_machines := ms\<rparr>"
    by (rule enroll_tx_SomeD) 
  note aD = first_row_SomeD [OF a(1)]
  let ?b = "(enroll_agent now name h q a)\<lparr>UpdatedAt := now\<rparr>"
  have wf: "agents_wf ags" by (rule update_agent_wf [OF assms(2) u]) (simp add: enroll_agent_def)
  have b: "?b \<in> set ags" "live ?b" "ID ?b = aid"
    using aD unfolding update_agent_SomeD(1) [OF u] by (auto simp: update_rows_set enroll_agent_def live_def)
  have "first_row (\<lambda>x. ID x = aid) ags = Some ?b"
    using find_by_id [OF agents_wf_unique [OF wf], of aid ?b] b by blast
  then have d': "d' = emit (PublishPresence (ag_OrganizationID ?b) (ID ?b) (ag_Status ?b)) d1"
      "n = 200" "i = ID ?b" "t = token"
    using enrolled(8) by (simp_all add: d1)
  show ?thesis
    by (rule that [OF enrolled(1-4) _ enrolled(6) d'(4,2), where a = ?b]) (use b wf aD a(2) d' enrolled(5) in \<open>simp_all add: d1 enroll_agent_def\<close>)
qed simp

text \<open>C24. Enrollment and authentication fit together: when \<open>Enroll\<close> answers 200, the credential it
  returns authenticates as the agent the enrollment token names, in the token's organization,
  and that agent is online.\<close>

theorem enroll_then_authenticate:
  assumes wf: "agents_wf (db_agents d)"
    and ok: "Enroll sha bh now token mid req d = (d', Reply n (i, t))"
    and bcrypt: "\<And>h. bh token = Some h \<Longrightarrow> bcrypt_ok h token" and "token \<noteq> ''''"
  shows "\<exists>tok a. tok \<in> set (db_tokens d) \<and> tok_AgentID tok = Some i \<and>
     AgentAuth bcrypt_ok (''Bearer '' @ t) (Some i) d' = Inr a \<and>
     ag_OrganizationID a = tok_OrganizationID tok \<and> Lifecycle now a = LifecycleOnline"
proof (rule Enroll_200 [OF ok wf])
  fix q tok h a
  assume tok: "first_row (\<lambda>t. tok_TokenHash t = sha (trim_space (er_Token q)) \<and> tok_RevokedAt t = None)
           (db_tokens d) = Some tok" "tok_AgentID tok = Some i"
    and h: "bh token = Some h" "t = token"
    and a: "a \<in> set (db_agents d')" "live a" "ID a = i" "ag_TokenHash a = Some h" "ag_RevokedAt a = None"
      "ag_OrganizationID a = tok_OrganizationID tok" "ag_LastSeenAt a = Some now"
    and wf': "agents_wf (db_agents d')"
  have "may_authenticate bcrypt_ok t a"
    using a h bcrypt by (simp add: may_authenticate_def)
  then have "AgentAuth bcrypt_ok (''Bearer '' @ t) (Some i) d' = Inr a"
    unfolding AgentAuth_Inr [OF agents_wf_unique [OF wf']] using a h(2) assms(4) by blast
  moreover have "Lifecycle now a = LifecycleOnline"
    using a by (simp add: Lifecycle_def OnlineThreshold_def clock_defs)
  ultimately show ?thesis using first_row_SomeD(1) [OF tok(1)] tok(2) a(6) by blast
qed

definition sample_enroll :: enroll_request where
  "sample_enroll = \<lparr>er_Token = '' enroll '', er_MachineName = ''db-2'', er_Platform = ''Linux'',
     er_Architecture = ''AMD64'', er_AgentVersion = ''1.2'', er_Hostname = ''db-2.local'',
     er_OS = ''linux'', er_IPAddress = ''10.0.0.2''\<rparr>"

definition sample_sha :: "string \<Rightarrow> string" where
  "sample_sha t = ''s:'' @ t"

definition sample_hash :: "string \<Rightarrow> string option" where
  "sample_hash t = Some (''h:'' @ t)"

definition enrolled_db :: db where
  "enrolled_db = fst (Enroll sample_sha sample_hash 7 ''fresh'' ''m1'' (Some sample_enroll) sample_agent_db)"

lemma sample_enrolls:
  "Enroll sample_sha sample_hash 7 ''fresh'' ''m1'' (Some sample_enroll) sample_agent_db =
     (enrolled_db, Reply 200 (''g2'', ''fresh''))"
proof -
  have "snd (Enroll sample_sha sample_hash 7 ''fresh'' ''m1'' (Some sample_enroll) sample_agent_db)
      = Reply 200 (''g2'', ''fresh'')" by code_simp
  then show ?thesis unfolding enrolled_db_def by (metis prod.collapse)
qed

theorem enroll_then_authenticate_witness:
  "\<exists>a. AgentAuth sample_bcrypt ''Bearer fresh'' (Some ''g2'') enrolled_db = Inr a"
  using enroll_then_authenticate [OF sample_agent_db_wf(1) sample_enrolls, of sample_bcrypt]
  by (auto simp: sample_hash_def sample_bcrypt_def)

text \<open>C25. An enrollment token works once: after a successful enrollment, every later attempt with the
  same token is refused with 401 and changes nothing, however the token and agent tables have
  evolved in between.\<close>

theorem enrollment_token_single_use:
  assumes wf: "agents_wf (db_agents d)"
    and ok: "Enroll sha bh now token mid (Some p) d = (d', Reply n (i, t))"
    and later: "token_table.evolves (db_tokens d') (db_tokens d'')" "tokens_wf (db_tokens d'')"
    and q: "same_token sha p q" "er_Token q \<noteq> ''''" "er_MachineName q \<noteq> ''''"
  shows "Enroll sha bh now' token' mid' (Some q) d'' = (d'', Fail 401 ''invalid enrollment token'')"
proof (rule Enroll_200 [OF ok wf])
  fix p' tok h a
  let ?hash = "sha (trim_space (er_Token q))"
  assume p: "Some p = Some p'"
    and tok: "first_row (\<lambda>t. tok_TokenHash t = sha (trim_space (er_Token p')) \<and> tok_RevokedAt t = None)
           (db_tokens d) = Some tok" "tok_UsedAt tok = None"
    and d': "db_tokens d' = update_rows now (\<lambda>t. ID t = ID tok \<and> tok_UsedAt t = None \<and> tok_RevokedAt t = None)
           (\<lambda>t. t\<lparr>tok_UsedAt := Some now\<rparr>) (db_tokens d)"
  note tD = first_row_SomeD [OF tok(1)]
  have "tok\<lparr>tok_UsedAt := Some now, UpdatedAt := now\<rparr> \<in> set (db_tokens d')"
    unfolding d' update_rows_set using tD tok(2) by (intro image_eqI [of _ _ tok]) auto
  then obtain u where u: "u \<in> set (db_tokens d'')"
      and l: "token_later (tok\<lparr>tok_UsedAt := Some now, UpdatedAt := now\<rparr>) u"
    using token_table.evolves_member [OF later(1)] by blast
  have hash: "tok_TokenHash tok = ?hash" using tD(3) p q(1) by (simp add: same_token_def)
  have u2: "tok_UsedAt u = Some now" "tok_TokenHash u = ?hash"
    using l hash by (simp_all add: token_later_def)
  have only: "x = u" if x: "x \<in> set (db_tokens d'')" "tok_TokenHash x = ?hash" for x
  proof -
    have "token_clash x u" using x u2 by (simp add: token_clash_def)
    then have "ID x = ID u" using later(2) u x(1) unfolding tokens_wf_def by blast
    then show ?thesis using later(2) u x(1) unique_ids_eq unfolding tokens_wf_def by blast
  qed
  show ?thesis
  proof (cases "first_row (\<lambda>t. tok_TokenHash t = ?hash \<and> tok_RevokedAt t = None) (db_tokens d'')")
    case None
    then show ?thesis using q by (simp add: Enroll_def)
  next
    case (Some x)
    then have "x = u" using only first_row_SomeD [OF Some] by blast
    then show ?thesis using q Some u2(1) by (simp add: Enroll_def Let_def)
  qed
qed

theorem enrollment_token_single_use_witness:
  "Enroll sample_sha sample_hash 8 ''again'' ''m2'' (Some sample_enroll) enrolled_db =
     (enrolled_db, Fail 401 ''invalid enrollment token'')"
proof (rule enrollment_token_single_use [OF sample_agent_db_wf(1) sample_enrolls token_table.evolves_refl])
  show "tokens_wf (db_tokens enrolled_db)"
    using Enroll_step [of sample_agent_db] sample_agent_db_wf(2)
    unfolding enrolled_db_def agents_step_def by blast
qed (simp_all add: same_token_def sample_enroll_def)


text \<open>The socket's credential check admits an agent exactly when the middleware would accept it or
  would refuse it only because it has been revoked.\<close>

theorem socket_auth_ignores_revocation:
  "authAgent ok auth (Some i) d = Some i \<longleftrightarrow>
     (\<exists>a. AgentAuth ok auth (Some i) d = Inr a) \<or> AgentAuth ok auth (Some i) d = Inl (401, ''agent revoked'')"
proof (cases "extractBearerToken auth = ''''")
  case True
  then show ?thesis
    by (auto simp: authAgent_def AgentAuth_def extractBearerToken_def Let_def split: if_splits)
next
  case False
  then have b: "7 < length auth" "take 7 auth = ''Bearer ''"
    by (auto simp: extractBearerToken_def split: if_splits)
  show ?thesis
    using b by (auto simp: authAgent_def AgentAuth_def Let_def split: option.splits dest: first_row_SomeD(3))
qed

text \<open>The SQL conditions of the agent list agree with the life cycle computed for each row: every
  agent is listed under its own state's name and under no other.\<close>

fun lifecycle_name :: "lifecycle \<Rightarrow> string" where
  "lifecycle_name LifecyclePending = ''PENDING''"
| "lifecycle_name LifecycleOnline = ''ONLINE''"
| "lifecycle_name LifecycleOffline = ''OFFLINE''"
| "lifecycle_name LifecycleRevoked = ''REVOKED''"

theorem lifecycle_filter_agrees:
  "lifecycle_filter now (lifecycle_name l) a \<longleftrightarrow> Lifecycle now a = l"
  by (cases l) (auto simp: Lifecycle_def split: option.splits)

text \<open>Rotating an agent's token retires the old one at once: afterwards a request authenticates as
  that agent only with a token the new hash accepts, and the agent's open command stream is
  cut.\<close>

theorem rotate_token_retires_old:
  assumes wf: "agents_wf (db_agents d)"
    and ok: "RotateToken bh now token auid u org idp d = (d', Reply n (i, t))"
    and auth: "AgentAuth bcrypt_ok (''Bearer '' @ presented) (Some i) d' = Inr a"
  shows "\<exists>h. bh token = Some h \<and> bcrypt_ok h presented \<and> GrpcDisconnect i \<in> set (outbox d')"
proof -
  obtain b h ags where b: "first_row (\<lambda>a. Some (ID a) = idp \<and> ag_OrganizationID a = org) (db_agents d) = Some b"
    and h: "bh token = Some h"
    and up: "update_agent now (ID b) (\<lambda>x. x\<lparr>ag_TokenHash := Some h, ag_TokenRotatedAt := Some now\<rparr>) (db_agents d) = Some ags"
    and d': "d' = add_audit now auid org u ''AGENT_TOKEN_ROTATED'' ''agent'' (ID b)
          (emit (GrpcDisconnect (ID b)) (d\<lparr>db_agents := ags\<rparr>))" and i: "i = ID b"
    using ok by (auto simp: RotateToken_def split: option.splits if_splits)
  have keep: "db_agents (add_audit nw nd o1 u1 a1 r1 i1 x) = db_agents x"
    "outbox (add_audit nw nd o1 u1 a1 r1 i1 x) = outbox x" for nw nd o1 u1 a1 r1 i1 x
    by (simp_all add: add_audit_def split: option.split)
  have wf': "agents_wf (db_agents d')"
    using RotateToken_step [of d bh now token auid u org idp] ok wf by (simp add: agents_step_def)
  have a: "a \<in> set ags" "ID a = i" "live a" "may_authenticate bcrypt_ok presented a"
    using auth keep unfolding AgentAuth_Inr [OF agents_wf_unique [OF wf']]
    by (auto simp: d' may_authenticate_def)
  then obtain a0 where "a0 \<in> set (db_agents d)"
      "a = (if live a0 \<and> ID a0 = ID b then a0\<lparr>ag_TokenHash := Some h, ag_TokenRotatedAt := Some now, UpdatedAt := now\<rparr> else a0)"
    unfolding update_agent_SomeD(1) [OF up] update_rows_set by auto
  then have "ag_TokenHash a = Some h" using a i by (auto split: if_splits)
  then show ?thesis using a(4) h i keep by (simp add: may_authenticate_def d')
qed

theorem rotate_token_retires_old_witness:
  "\<not> (\<exists>a. AgentAuth sample_bcrypt ''Bearer secret'' (Some ''g1'')
        (fst (RotateToken sample_hash 9 ''new'' ''x1'' (''u1'', ''10.0.0.9'') ''o1'' (Some ''g1'') sample_agent_db)) = Inr a)"
proof
  let ?r = "RotateToken sample_hash 9 ''new'' ''x1'' (''u1'', ''10.0.0.9'') ''o1'' (Some ''g1'') sample_agent_db"
  have "snd ?r = Reply 200 (''g1'', ''new'')" by code_simp
  then have r: "?r = (fst ?r, Reply 200 (''g1'', ''new''))" by (metis prod.collapse)
  assume "\<exists>a. AgentAuth sample_bcrypt ''Bearer secret'' (Some ''g1'') (fst ?r) = Inr a"
  then obtain a where "AgentAuth sample_bcrypt (''Bearer '' @ ''secret'') (Some ''g1'') (fst ?r) = Inr a" by auto
  from rotate_token_retires_old [OF sample_agent_db_wf(1) r this]
  show False by (auto simp: sample_hash_def sample_bcrypt_def)
qed

end
