(* ===== verification/Evolution.thy ===== *)
theory Evolution
  imports Alerts Agents
begin

text \<open>
  What every request handler, polling call and monitor pass owes the database: the tables
  only evolve (rows keep their identity, status columns move forward, finished records are
  sealed, deleted rows are frozen) and the unique indexes and row invariants stay intact.
  \<open>db_step\<close> states it for the whole database; the component theories prove it for each
  operation, and it is reflexive and transitive.
\<close>

subsection \<open>Runs\<close>

definition run_identity where
  "run_identity r = (ID r, CreatedAt r, run_OrganizationID r, run_BackupJobID r, run_AgentID r,
     run_StorageTargetID r, run_ScheduledFor r, run_RetryOfRunID r, run_RetryAttempt r, run_SourceType r)"

definition run_record where
  "run_record r = (run_Status r, run_BytesRead r, run_BytesCompressed r, run_BytesUploaded r,
     run_DurationSeconds r, run_ErrorMessage r, run_StoragePath r, run_Checksum r,
     run_DataKeyEncrypted r, run_StartedAt r, run_CompletedAt r, run_CancelRequested r)"

definition run_later :: "backup_run \<Rightarrow> backup_run \<Rightarrow> bool" where
  "run_later a b \<longleftrightarrow> run_identity b = run_identity a \<and>
     CanTransition\<^sup>*\<^sup>* (run_Status a) (run_Status b) \<and>
     (run_CancelRequested a \<longrightarrow> run_CancelRequested b) \<and>
     (run_terminal (run_Status a) \<longrightarrow> run_record b = run_record a) \<and>
     (DeletedAt a \<noteq> None \<longrightarrow> b = a)"

lemma run_record_status: "run_record a = run_record b \<Longrightarrow> run_Status a = run_Status b"
  by (simp add: run_record_def)

interpretation run_table: row_evolution run_later
proof
  show "run_later r r" for r by (simp add: run_later_def)
  show "run_later a c" if "run_later a b" "run_later b c" for a b c
    using that run_record_status [of b a] unfolding run_later_def by (auto intro: rtranclp_trans)
qed

text \<open>One update of a run that is still in flight.\<close>

lemma run_later_step:
  assumes "live a" and "\<not> run_terminal (run_Status a)" and "run_identity b = run_identity a"
    and "run_Status b = run_Status a \<or> CanTransition (run_Status a) (run_Status b)"
    and "run_CancelRequested a \<Longrightarrow> run_CancelRequested b"
  shows "run_later a b"
  using assms by (auto simp: run_later_def live_def)

lemma run_later_delete: "live a \<Longrightarrow> run_later a (a\<lparr>DeletedAt := v\<rparr>)"
  by (simp add: run_later_def live_def run_identity_def run_record_def)

definition run_ok :: "backup_run \<Rightarrow> bool" where
  "run_ok r \<longleftrightarrow> 0 \<le> run_BytesRead r \<and> 0 \<le> run_BytesCompressed r \<and> 0 \<le> run_BytesUploaded r \<and>
     (run_in_flight (run_Status r) \<or> run_terminal (run_Status r)) \<and>
     (run_Status r \<in> {RunCompleted, RunFailed} \<longrightarrow> run_CompletedAt r \<noteq> None)"

interpretation run_index: indexed_table run_clash run_ok
  by unfold_locales (auto simp: run_clash_def run_ok_def)

subsection \<open>Artifacts and chunks\<close>

definition artifact_later :: "backup_artifact \<Rightarrow> backup_artifact \<Rightarrow> bool" where
  "artifact_later a b \<longleftrightarrow> ID b = ID a \<and> CreatedAt b = CreatedAt a \<and>
     art_BackupRunID b = art_BackupRunID a \<and> art_Name b = art_Name a \<and> art_Size b = art_Size a \<and>
     art_Checksum b = art_Checksum a \<and> art_StoragePath b = art_StoragePath a \<and>
     art_StorageTargetID b = art_StorageTargetID a \<and> (DeletedAt a \<noteq> None \<longrightarrow> b = a)"

interpretation artifact_table: row_evolution artifact_later
  by unfold_locales (auto simp: artifact_later_def)

definition artifact_ok :: "backup_artifact \<Rightarrow> bool" where
  "artifact_ok a \<longleftrightarrow> 0 \<le> art_Size a \<and> art_Name a \<noteq> '''' \<and>
     (art_VerificationStatus a \<noteq> ArtifactUnverified \<longrightarrow> art_VerifiedAt a \<noteq> None)"

interpretation artifact_index: indexed_table artifact_clash artifact_ok
  by unfold_locales (auto simp: artifact_clash_def artifact_ok_def live_def)

definition chunk_later :: "backup_chunk \<Rightarrow> backup_chunk \<Rightarrow> bool" where
  "chunk_later a b \<longleftrightarrow> b = a \<or> live a \<and> (\<exists>t. b = a\<lparr>DeletedAt := Some t\<rparr>)"

interpretation chunk_table: row_evolution chunk_later
  by unfold_locales (auto simp: chunk_later_def live_def)

definition chunk_ok :: "backup_chunk \<Rightarrow> bool" where
  "chunk_ok c \<longleftrightarrow> 0 \<le> chk_Index c \<and> 0 \<le> chk_Size c"

interpretation chunk_index: indexed_table chunk_clash chunk_ok
  by unfold_locales (auto simp: chunk_clash_def chunk_ok_def live_def)

subsection \<open>Restores\<close>

definition restore_identity where
  "restore_identity r = (ID r, CreatedAt r, rs_OrganizationID r, rs_BackupRunID r, rs_AgentID r,
     rs_ConnectionID r, rs_DestinationPath r, rs_TargetDatabase r)"

definition restore_record where
  "restore_record r = (rs_Status r, rs_StartedAt r, rs_CompletedAt r, rs_DurationSeconds r, rs_ErrorMessage r)"

definition restore_final :: "restore_status \<Rightarrow> bool" where
  "restore_final s \<longleftrightarrow> s \<in> {RestoreCompleted, RestoreFailed}"

definition restore_later :: "restore_job \<Rightarrow> restore_job \<Rightarrow> bool" where
  "restore_later a b \<longleftrightarrow> restore_identity b = restore_identity a \<and>
     CanRestoreTransition\<^sup>*\<^sup>* (rs_Status a) (rs_Status b) \<and>
     (restore_final (rs_Status a) \<longrightarrow> restore_record b = restore_record a) \<and>
     (DeletedAt a \<noteq> None \<longrightarrow> b = a)"

interpretation restore_table: row_evolution restore_later
proof
  show "restore_later r r" for r by (simp add: restore_later_def)
  show "restore_later a c" if "restore_later a b" "restore_later b c" for a b c
  proof -
    have "rs_Status b = rs_Status a" if "restore_record b = restore_record a"
      using that by (simp add: restore_record_def)
    then show ?thesis using that unfolding restore_later_def by (auto intro: rtranclp_trans)
  qed
qed

lemma restore_later_step:
  assumes "live a" and "\<not> restore_final (rs_Status a)" and "restore_identity b = restore_identity a"
    and "CanRestoreTransition (rs_Status a) (rs_Status b)"
  shows "restore_later a b"
  using assms by (auto simp: restore_later_def live_def)

definition restore_ok :: "restore_job \<Rightarrow> bool" where
  "restore_ok r \<longleftrightarrow> rs_Status r \<in> {RestorePending, RestoreRunning, RestoreCompleted, RestoreFailed} \<and>
     (restore_final (rs_Status r) \<longrightarrow> rs_CompletedAt r \<noteq> None) \<and>
     (rs_Status r = RestorePending \<longrightarrow> rs_StartedAt r = None) \<and>
     (rs_Status r = RestoreRunning \<longrightarrow> rs_StartedAt r \<noteq> None)"

interpretation restore_index: indexed_table restore_clash restore_ok
  by unfold_locales (auto simp: restore_clash_def restore_ok_def live_def)

subsection \<open>Claiming\<close>

text \<open>
  The contract of the polling protocol's compare-and-set: a table whose rows carry a status that
  never returns to the initial one.  Whoever moves a row out of that status is the only one.
\<close>

locale claimable = row_evolution R for R :: "'a base_scheme \<Rightarrow> 'a base_scheme \<Rightarrow> bool" +
  fixes status :: "'a base_scheme \<Rightarrow> 's"
    and can :: "'s \<Rightarrow> 's \<Rightarrow> bool"
    and initial :: 's
  assumes R_id: "R a b \<Longrightarrow> ID b = ID a"
    and R_status: "R a b \<Longrightarrow> can\<^sup>*\<^sup>* (status a) (status b)"
    and no_return: "can\<^sup>+\<^sup>+ initial s \<Longrightarrow> \<not> can\<^sup>*\<^sup>* s initial"
    and status_stamp: "status (a\<lparr>UpdatedAt := u\<rparr>) = status a"
begin

lemma stays_left:
  assumes "evolves t t'" and "unique_ids t'" and "x \<in> set t" and "can\<^sup>+\<^sup>+ initial (status x)"
    and "y \<in> set t'" and "ID y = ID x"
  shows "status y \<noteq> initial"
proof -
  obtain z where z: "z \<in> set t'" "R x z" using evolves_member [OF assms(1,3)] by blast
  have "y = z" using unique_ids_eq [OF assms(2,5) z(1)] assms(6) R_id [OF z(2)] by simp
  then show ?thesis using R_status [OF z(2)] no_return [OF assms(4)] by auto
qed

lemma claimed_once:
  assumes "affected P t \<noteq> 0" and P: "\<And>x. P x \<Longrightarrow> ID x = i"
    and f: "\<And>x. P x \<Longrightarrow> ID (f x) = ID x \<and> can\<^sup>+\<^sup>+ initial (status (f x))"
    and later: "evolves (update_rows now P f t) t'" "unique_ids t'"
    and Q: "\<And>x. Q x \<Longrightarrow> ID x = i \<and> status x = initial"
  shows "affected Q t' = 0"
proof -
  obtain x where x: "x \<in> set t" "live x" "P x" using assms(1) by (auto simp: affected_0_iff)
  let ?y = "(f x)\<lparr>UpdatedAt := now\<rparr>"
  have "?y \<in> set (update_rows now P f t)"
    unfolding update_rows_set using x by (intro image_eqI [of _ _ x]) auto
  then have "status z \<noteq> initial" if "z \<in> set t'" "ID z = i" for z
    using stays_left [OF later, of ?y z] that f [OF x(3)] P [OF x(3)] by (simp add: status_stamp)
  then show ?thesis using Q by (auto simp: affected_0_iff)
qed

end

interpretation run_claim: claimable run_later run_Status CanTransition RunPending
  by unfold_locales (auto simp: run_later_def run_identity_def dest: run_cycle.never_returns)

interpretation restore_claim: claimable restore_later rs_Status CanRestoreTransition RestorePending
  by unfold_locales (auto simp: restore_later_def restore_identity_def dest: restore_cycle.never_returns)

subsection \<open>The whole database\<close>

definition db_wf :: "db \<Rightarrow> bool" where
  "db_wf d \<longleftrightarrow> agents_wf (db_agents d) \<and> tokens_wf (db_tokens d) \<and> alerts_wf (db_alerts d) \<and>
     run_index.wf (db_runs d) \<and> artifact_index.wf (db_artifacts d) \<and> chunk_index.wf (db_chunks d) \<and>
     restore_index.wf (db_restores d)"

definition db_later :: "db \<Rightarrow> db \<Rightarrow> bool" where
  "db_later d d' \<longleftrightarrow> agent_table.evolves (db_agents d) (db_agents d') \<and>
     token_table.evolves (db_tokens d) (db_tokens d') \<and>
     run_table.evolves (db_runs d) (db_runs d') \<and>
     artifact_table.evolves (db_artifacts d) (db_artifacts d') \<and>
     chunk_table.evolves (db_chunks d) (db_chunks d') \<and>
     restore_table.evolves (db_restores d) (db_restores d')"

definition db_step :: "db \<Rightarrow> db \<Rightarrow> bool" where
  "db_step d d' \<longleftrightarrow> (db_wf d \<longrightarrow> db_later d d' \<and> db_wf d')"

lemmas tables_refl = agent_table.evolves_refl token_table.evolves_refl run_table.evolves_refl
  artifact_table.evolves_refl chunk_table.evolves_refl restore_table.evolves_refl

lemma db_step_refl [simp]: "db_step d d"
  by (simp add: db_step_def db_later_def tables_refl)

lemma db_step_trans: "db_step a b \<Longrightarrow> db_step b c \<Longrightarrow> db_step a c"
  unfolding db_step_def db_later_def
  by (auto intro: agent_table.evolves_trans token_table.evolves_trans run_table.evolves_trans
      artifact_table.evolves_trans chunk_table.evolves_trans restore_table.evolves_trans)

lemma db_step_emit [simp]: "db_step d (emit e x) = db_step d x"
  by (simp add: db_step_def db_later_def db_wf_def)

lemma db_step_audit [simp]: "db_step d (add_audit now nid org who act res rid x) = db_step d x"
  by (simp add: db_step_def db_later_def db_wf_def)

lemma db_step_runs:
  assumes "run_index.wf (db_runs d) \<Longrightarrow> run_table.evolves (db_runs d) t"
    and "run_index.wf (db_runs d) \<Longrightarrow> run_index.wf t"
  shows "db_step d (d\<lparr>db_runs := t\<rparr>)"
  using assms by (simp add: db_step_def db_later_def db_wf_def tables_refl)

lemma db_step_artifacts:
  assumes "artifact_index.wf (db_artifacts d) \<Longrightarrow> artifact_table.evolves (db_artifacts d) t"
    and "artifact_index.wf (db_artifacts d) \<Longrightarrow> artifact_index.wf t"
  shows "db_step d (d\<lparr>db_artifacts := t\<rparr>)"
  using assms by (simp add: db_step_def db_later_def db_wf_def tables_refl)

lemma db_step_chunks:
  assumes "chunk_index.wf (db_chunks d) \<Longrightarrow> chunk_table.evolves (db_chunks d) t"
    and "chunk_index.wf (db_chunks d) \<Longrightarrow> chunk_index.wf t"
  shows "db_step d (d\<lparr>db_chunks := t\<rparr>)"
  using assms by (simp add: db_step_def db_later_def db_wf_def tables_refl)

lemma db_step_restores:
  assumes "restore_index.wf (db_restores d) \<Longrightarrow> restore_table.evolves (db_restores d) t"
    and "restore_index.wf (db_restores d) \<Longrightarrow> restore_index.wf t"
  shows "db_step d (d\<lparr>db_restores := t\<rparr>)"
  using assms by (simp add: db_step_def db_later_def db_wf_def tables_refl)

lemma agents_step_db_step: "agents_step d d' \<Longrightarrow> db_step d d'"
  unfolding agents_step_def db_step_def db_later_def db_wf_def
  by (simp add: only_agents_def tables_refl)

lemma only_alerts_db_step:
  assumes "only_alerts d d'" and "alerts_wf (db_alerts d) \<Longrightarrow> alerts_wf (db_alerts d')"
  shows "db_step d d'"
  using assms unfolding db_step_def db_later_def db_wf_def
  by (simp add: only_alerts_def tables_refl)

lemma RaiseAlert_step: "db_step d (fst (RaiseAlert e flt now nid i d))"
  by (rule only_alerts_db_step [OF RaiseAlert_frame RaiseAlert_wf])

lemma ResolveAlerts_step: "db_step d (fst (ResolveAlerts flt now org typ key d))"
  by (rule only_alerts_db_step [OF ResolveAlerts_frame ResolveAlerts_wf])

lemma Ack_step: "db_step d (fst (Ack flt now org u idp d))"
  unfolding Ack_def by (rule only_alerts_db_step [OF transition_frame]) (rule Ack_wf [unfolded Ack_def])

lemma Resolve_step: "db_step d (fst (Resolve flt now org idp d))"
  unfolding Resolve_def by (rule only_alerts_db_step [OF transition_frame]) (rule Resolve_wf [unfolded Resolve_def])

lemma MarkRead_step: "db_step d (fst (MarkRead flt now org idp d))"
  by (rule only_alerts_db_step [OF _ MarkRead_wf])
     (auto simp: MarkRead_def Let_def only_alerts_def split: option.split)

lemma MarkAllRead_step: "db_step d (fst (MarkAllRead flt now org d))"
  by (rule only_alerts_db_step [OF _ MarkAllRead_wf]) (auto simp: MarkAllRead_def Let_def only_alerts_def)

end
