(* ===== verification/Runs.thy ===== *)
theory Runs
  imports Evolution Paths
begin

text \<open>
  Backup runs: the handlers of \<open>handlers/backup_run.go\<close> (cancel, status reports, verification,
  artifacts, chunks) and the run half of the polling protocol \<open>handlers/agent_work.go\<close> (pending
  runs, claiming).

  A status report reads the run, validates, and then updates under the condition that the
  status is still the one it read.  \<open>report_check\<close> is the first half and \<open>report_commit\<close> the
  second, so other calls may come between; \<open>UpdateStatus\<close> composes them on one state.
  Encryption under the server key is the parameter \<open>enc\<close>/\<open>dec\<close> (\<open>None\<close> on failure), and
  \<open>file_sum\<close> hashes a stored file.  GORM may or may not write an update back into the struct it
  was called with; \<open>Cancel\<close> takes that as the parameter \<open>wb\<close>.
\<close>

subsection \<open>Failure categories\<close>

definition classifyFailure :: "string \<Rightarrow> string" where
  "classifyFailure msg =
     (let m = to_lower msg; has = (\<lambda>ws. list_ex (\<lambda>w. contains w m) ws) in
      if has [''authentication'', ''password'', ''permission denied'', ''access denied'', ''invalid credentials'']
        then ''AUTH_ERROR''
      else if has [''no space left'', ''disk full'', ''not enough space''] then ''DISK_FULL''
      else if has [''connection refused'', ''no such host'', ''network'', ''dial tcp'', ''i/o timeout'']
        then ''NETWORK_ERROR''
      else if has [''s3'', ''bucket'', ''storage'', ''upload''] then ''STORAGE_ERROR''
      else if has [''timeout'', ''deadline exceeded'', ''context deadline''] then ''TIMEOUT''
      else if has [''encrypt'', ''decrypt'', ''data key''] then ''ENCRYPTION_ERROR''
      else if has [''cancelled'', ''canceled''] then ''CANCELLED''
      else if has [''source'', ''pg_dump'', ''mongodump'', ''backup database''] then ''SOURCE_ERROR''
      else if has [''verification'', ''checksum'', ''hash mismatch''] then ''VERIFICATION_ERROR''
      else ''UNKNOWN'')"

subsection \<open>Reading runs\<close>

definition find_run :: "uuid \<Rightarrow> uuid \<Rightarrow> db \<Rightarrow> backup_run option" where
  "find_run org i d = first_row (\<lambda>r. ID r = i \<and> run_OrganizationID r = org) (db_runs d)"

definition find_agent_run :: "uuid \<Rightarrow> uuid \<Rightarrow> db \<Rightarrow> backup_run option" where
  "find_agent_run aid i d = first_row (\<lambda>r. ID r = i \<and> run_AgentID r = aid) (db_runs d)"

definition GetRun :: "uuid \<Rightarrow> uuid option \<Rightarrow> db \<Rightarrow> backup_run reply" where
  "GetRun org idp d =
     (case idp of
        None \<Rightarrow> Fail 400 ''invalid id''
      | Some i \<Rightarrow> (case find_run org i d of None \<Rightarrow> Fail 404 ''not found'' | Some r \<Rightarrow> Reply 200 r))"

definition ListArtifacts :: "uuid \<Rightarrow> uuid option \<Rightarrow> db \<Rightarrow> backup_artifact list reply" where
  "ListArtifacts org idp d =
     (case idp of
        None \<Rightarrow> Fail 400 ''invalid id''
      | Some i \<Rightarrow> (case find_run org i d of
          None \<Rightarrow> Fail 404 ''not found''
        | Some r \<Rightarrow> Reply 200 (rows (\<lambda>a. art_BackupRunID a = i) (db_artifacts d))))"

definition publishRun :: "backup_run \<Rightarrow> run_status \<Rightarrow> db \<Rightarrow> db" where
  "publishRun r s d = emit (PublishRun (run_OrganizationID r) (ID r) s) d"

subsection \<open>Cancelling\<close>

definition cancel_row :: "run_status \<Rightarrow> backup_run \<Rightarrow> backup_run" where
  "cancel_row read x = x\<lparr>run_CancelRequested := True,
     run_Status := (if read = RunPending then RunCancelled else run_Status x)\<rparr>"

definition Cancel ::
    "bool \<Rightarrow> time \<Rightarrow> uuid \<Rightarrow> caller \<Rightarrow> uuid \<Rightarrow> uuid option \<Rightarrow> db \<Rightarrow> db \<times> run_status reply" where
  "Cancel wb now auid who org idp d =
     (case idp of
        None \<Rightarrow> (d, Fail 400 ''invalid id'')
      | Some i \<Rightarrow>
          (case find_run org i d of
             None \<Rightarrow> (d, Fail 404 ''not found'')
           | Some r \<Rightarrow>
               if run_Status r = RunCancelled then (d, Reply 200 RunCancelled)
               else if \<not> CanTransition (run_Status r) RunCancelled
               then (d, Fail 400 (''cannot cancel run in status: '' @ run_status_text (run_Status r)))
               else
                 let d1 = d\<lparr>db_runs := update_rows now (\<lambda>x. ID x = ID r) (cancel_row (run_Status r)) (db_runs d)\<rparr>;
                     seen = (if wb \<and> run_Status r = RunPending then RunCancelled else run_Status r);
                     d2 = (if seen = RunPending then publishRun r RunCancelled d1
                           else publishRun r seen (emit (AgentCancel (run_AgentID r) (ID r)) d1));
                     d3 = emit (GrpcCancelBackup (run_AgentID r) (ID r)) d2
                 in (add_audit now auid (run_OrganizationID r) who ''BACKUP_CANCELLED'' ''backup_run'' (ID r) d3,
                     Reply 200 RunCancelled)))"

subsection \<open>Status reports\<close>

record status_report =
  rq_Status :: run_status
  rq_BytesRead :: int
  rq_BytesCompressed :: int
  rq_BytesUploaded :: int
  rq_ErrorMessage :: string
  rq_StoragePath :: string
  rq_Checksum :: string
  rq_DataKey :: string

datatype report_plan =
  Refuse nat string
| Echo
| Progress backup_run status_report
| Advance backup_run status_report

text \<open>The reported path against the run's target, when that still exists and has a path.\<close>

definition reported_path_ok :: "backup_run \<Rightarrow> string \<Rightarrow> db \<Rightarrow> bool" where
  "reported_path_ok r p d \<longleftrightarrow> p = '''' \<or>
     (case first_row (\<lambda>t. ID t = run_StorageTargetID r) (db_targets d) of
        None \<Rightarrow> True
      | Some t \<Rightarrow> st_Path t = '''' \<or> storage_path_ok (st_Path t) p)"

definition report_check :: "agent \<Rightarrow> uuid option \<Rightarrow> status_report option \<Rightarrow> db \<Rightarrow> report_plan" where
  "report_check ag idp req d =
     (case idp of
        None \<Rightarrow> Refuse 400 ''invalid id''
      | Some i \<Rightarrow>
          (case req of
             None \<Rightarrow> Refuse 400 ''bad request''
           | Some q \<Rightarrow>
               if rq_BytesRead q < 0 \<or> rq_BytesCompressed q < 0 \<or> rq_BytesUploaded q < 0
               then Refuse 400 ''byte counters must be >= 0''
               else (case find_agent_run (ID ag) i d of
                 None \<Rightarrow> Refuse 404 ''run not found''
               | Some r \<Rightarrow>
                   if \<not> CanTransition (run_Status r) (rq_Status q) then
                     (if rq_Status q = run_Status r then
                        (if run_Status r \<in> {RunRunning, RunUploading, RunVerifying} then Progress r q else Echo)
                      else Refuse 400 (''invalid status transition: '' @ run_status_text (run_Status r)
                             @ '' -> '' @ run_status_text (rq_Status q)))
                   else if \<not> reported_path_ok r (rq_StoragePath q) d
                   then Refuse 400 ''storage_path is outside the configured storage target directory''
                   else Advance r q)))"

definition progress_row :: "status_report \<Rightarrow> backup_run \<Rightarrow> backup_run" where
  "progress_row q x = x\<lparr>run_BytesRead := rq_BytesRead q, run_BytesCompressed := rq_BytesCompressed q,
     run_BytesUploaded := rq_BytesUploaded q\<rparr>"

definition report_progress :: "time \<Rightarrow> backup_run \<Rightarrow> status_report \<Rightarrow> db \<Rightarrow> db" where
  "report_progress now r q d =
     publishRun r (rq_Status q)
       (d\<lparr>db_runs := update_rows now (\<lambda>x. ID x = ID r) (progress_row q) (db_runs d)\<rparr>)"

definition advance_row :: "time \<Rightarrow> backup_run \<Rightarrow> status_report \<Rightarrow> string option \<Rightarrow> backup_run \<Rightarrow> backup_run" where
  "advance_row now r q wrapped x =
     (let y = x\<lparr>run_Status := rq_Status q, run_BytesRead := rq_BytesRead q,
                run_BytesCompressed := rq_BytesCompressed q, run_BytesUploaded := rq_BytesUploaded q,
                run_ErrorMessage := rq_ErrorMessage q, run_StoragePath := rq_StoragePath q,
                run_Checksum := rq_Checksum q\<rparr>;
          z = (if rq_Status q = RunCompleted \<or> rq_Status q = RunFailed
               then y\<lparr>run_CompletedAt := Some now,
                      run_DurationSeconds := (case run_StartedAt r of
                          None \<Rightarrow> run_DurationSeconds y | Some s \<Rightarrow> whole_seconds (now - s))\<rparr>
               else y)
      in case wrapped of None \<Rightarrow> z | Some w \<Rightarrow> z\<lparr>run_DataKeyEncrypted := w\<rparr>)"

definition nl :: string where "nl = [CHR 0x0A]"

definition failed_input :: "agent \<Rightarrow> backup_run \<Rightarrow> string \<Rightarrow> string \<Rightarrow> alert_input" where
  "failed_input ag r jobName msg =
     \<lparr>in_OrgID = run_OrganizationID r, in_Type = AlertBackupFailed,
      in_Title = ''Backup Failed: '' @ jobName, in_Message = msg,
      in_BackupJobID = Some (run_BackupJobID r), in_AgentID = Some (ID ag),
      in_DedupKey = ''backup-failed:run:'' @ ID r, in_Severity = None,
      in_EmailSubject = ''[VaultGuard] Backup Failed: '' @ jobName,
      in_EmailBody = ''Backup job '' @ jobName @ '' failed on agent '' @ ag_Name ag @ '':'' @ nl @ nl @ msg\<rparr>"

definition storage_low_input :: "agent \<Rightarrow> backup_run \<Rightarrow> string \<Rightarrow> string \<Rightarrow> alert_input" where
  "storage_low_input ag r jobName msg =
     \<lparr>in_OrgID = run_OrganizationID r, in_Type = AlertStorageLow,
      in_Title = ''Storage Low: '' @ jobName,
      in_Message = ''Backup failed because storage is full: '' @ msg,
      in_BackupJobID = Some (run_BackupJobID r), in_AgentID = Some (ID ag),
      in_DedupKey = ''storage-low:job:'' @ run_BackupJobID r, in_Severity = None,
      in_EmailSubject = ''[VaultGuard] Storage Low: '' @ jobName,
      in_EmailBody = ''A backup for job '' @ jobName @ '' failed because the storage target is full:'' @ nl @ nl @ msg\<rparr>"

text \<open>What follows the status update: artifacts become verified, alerts are cleared or raised.\<close>

definition after_completed :: "faults \<Rightarrow> time \<Rightarrow> backup_run \<Rightarrow> db \<Rightarrow> db" where
  "after_completed flt now r d =
     fst (ResolveAlerts flt now (run_OrganizationID r) AlertBackupMissed (''backup-missed:'' @ run_BackupJobID r)
       (d\<lparr>db_artifacts := update_rows now
           (\<lambda>a. art_BackupRunID a = ID r \<and> art_VerificationStatus a = ArtifactUnverified)
           (\<lambda>a. a\<lparr>art_VerificationStatus := ArtifactVerified, art_VerifiedAt := Some now\<rparr>) (db_artifacts d)\<rparr>))"

definition after_failed :: "env \<Rightarrow> faults \<Rightarrow> time \<Rightarrow> uuid \<Rightarrow> uuid \<Rightarrow> agent \<Rightarrow> backup_run \<Rightarrow> string \<Rightarrow> db \<Rightarrow> db" where
  "after_failed e flt now nid1 nid2 ag r msg d =
     (let jobName = (case first_row (\<lambda>j. ID j = run_BackupJobID r) (db_jobs d) of
                       None \<Rightarrow> run_BackupJobID r | Some j \<Rightarrow> job_Name j);
          category = classifyFailure msg;
          d1 = d\<lparr>db_runs := update_rows now (\<lambda>x. ID x = ID r) (\<lambda>x. x\<lparr>run_FailureCategory := category\<rparr>) (db_runs d)\<rparr>;
          d2 = fst (RaiseAlert e flt now nid1 (failed_input ag r jobName msg) d1)
      in if category = ''DISK_FULL''
         then fst (RaiseAlert e flt now nid2 (storage_low_input ag r jobName msg) d2) else d2)"

definition report_commit ::
    "env \<Rightarrow> faults \<Rightarrow> (string \<Rightarrow> string option) \<Rightarrow> time \<Rightarrow> uuid \<Rightarrow> uuid \<Rightarrow> agent \<Rightarrow> backup_run \<Rightarrow> status_report
      \<Rightarrow> db \<Rightarrow> db \<times> bool reply" where
  "report_commit e flt enc now nid1 nid2 ag r q d =
     (case (if rq_DataKey q = '''' then Some None
            else (case enc (rq_DataKey q) of None \<Rightarrow> None | Some w \<Rightarrow> Some (Some w))) of
        None \<Rightarrow> (d, Fail 500 ''failed to store data key'')
      | Some wrapped \<Rightarrow>
          let P = (\<lambda>x. ID x = ID r \<and> run_Status x = run_Status r) in
          if flt ''update run'' then (d, Fail 500 ''update failed'')
          else if affected P (db_runs d) = 0
          then (d, Fail 409 ''run status changed concurrently, please retry'')
          else
            let d1 = d\<lparr>db_runs := update_rows now P (advance_row now r q wrapped) (db_runs d)\<rparr>;
                cancel = (case first_row (\<lambda>x. ID x = ID r) (db_runs d1) of
                            None \<Rightarrow> False | Some x \<Rightarrow> run_CancelRequested x);
                d2 = publishRun r (rq_Status q) d1;
                d3 = (if rq_Status q = RunCompleted then after_completed flt now r d2 else d2);
                d4 = (if rq_Status q = RunFailed
                      then after_failed e flt now nid1 nid2 ag r (rq_ErrorMessage q) d3 else d3)
            in (d4, Reply 200 cancel))"

text \<open>The reply carries \<open>cancel_requested\<close>; where the code leaves it out it is \<open>False\<close>.\<close>

definition UpdateStatus ::
    "env \<Rightarrow> faults \<Rightarrow> (string \<Rightarrow> string option) \<Rightarrow> time \<Rightarrow> uuid \<Rightarrow> uuid \<Rightarrow> agent \<Rightarrow> uuid option
      \<Rightarrow> status_report option \<Rightarrow> db \<Rightarrow> db \<times> bool reply" where
  "UpdateStatus e flt enc now nid1 nid2 ag idp req d =
     (case report_check ag idp req d of
        Refuse n msg \<Rightarrow> (d, Fail n msg)
      | Echo \<Rightarrow> (d, Reply 200 False)
      | Progress r q \<Rightarrow> (report_progress now r q d, Reply 200 False)
      | Advance r q \<Rightarrow> report_commit e flt enc now nid1 nid2 ag r q d)"


subsection \<open>Verification of a stored file\<close>

datatype verify_result = VerifyMatch string | VerifyMismatch string string

definition verify_input :: "backup_run \<Rightarrow> string \<Rightarrow> alert_input" where
  "verify_input r digest =
     \<lparr>in_OrgID = run_OrganizationID r, in_Type = AlertVerifyFailed,
      in_Title = ''Backup verification failed'',
      in_Message = ''stored file hash mismatch for run '' @ ID r @ '' (expected '' @ run_Checksum r
        @ '', got '' @ digest @ '')'',
      in_BackupJobID = Some (run_BackupJobID r), in_AgentID = Some (run_AgentID r),
      in_DedupKey = ''verify-failed:run:'' @ ID r, in_Severity = None,
      in_EmailSubject = ''[VaultGuard] Backup verification failed'',
      in_EmailBody = ''Stored file for run '' @ ID r @ '' does not match its recorded checksum.'' @ nl
        @ ''Expected: '' @ run_Checksum r @ nl @ ''Actual:   '' @ digest @ nl @ nl
        @ ''Treat this recovery point as suspect until investigated.''\<rparr>"

definition stamp_artifacts :: "time \<Rightarrow> uuid \<Rightarrow> string \<Rightarrow> db \<Rightarrow> db" where
  "stamp_artifacts now rid status d =
     d\<lparr>db_artifacts := update_rows now (\<lambda>a. art_BackupRunID a = rid)
         (\<lambda>a. a\<lparr>art_VerificationStatus := status, art_VerifiedAt := Some now\<rparr>) (db_artifacts d)\<rparr>"

definition Verify ::
    "env \<Rightarrow> faults \<Rightarrow> (string \<Rightarrow> string option) \<Rightarrow> time \<Rightarrow> uuid \<Rightarrow> uuid \<Rightarrow> uuid option \<Rightarrow> db
      \<Rightarrow> db \<times> verify_result reply" where
  "Verify e flt file_sum now nid org idp d =
     (case idp of
        None \<Rightarrow> (d, Fail 400 ''invalid id'')
      | Some i \<Rightarrow>
          (case find_run org i d of
             None \<Rightarrow> (d, Fail 404 ''not found'')
           | Some r \<Rightarrow>
               if run_Status r \<noteq> RunCompleted then (d, Fail 400 ''only COMPLETED runs can be verified'')
               else if run_Checksum r = '''' then (d, Fail 400 ''run has no recorded checksum'')
               else (case first_row (\<lambda>t. ID t = run_StorageTargetID r) (db_targets d) of
                 None \<Rightarrow> (d, Fail 404 ''storage target not found'')
               | Some t \<Rightarrow>
                   if st_Type t \<noteq> StorageLocal
                   then (d, Fail 400 ''verification is only supported for LOCAL storage targets'')
                   else (case file_sum (run_StoragePath r) of
                     None \<Rightarrow> (d, Fail 502 ''could not read stored file'')
                   | Some digest \<Rightarrow>
                       if digest \<noteq> to_lower (run_Checksum r) then
                         (fst (RaiseAlert e flt now nid (verify_input r digest)
                            (stamp_artifacts now (ID r) ArtifactVerifyFail d)),
                          Reply 200 (VerifyMismatch (run_Checksum r) digest))
                       else (stamp_artifacts now (ID r) ArtifactVerified d, Reply 200 (VerifyMatch digest))))))"

subsection \<open>Artifacts and chunks\<close>

record artifact_request =
  ar_Name :: string
  ar_Size :: int
  ar_Checksum :: string
  ar_StoragePath :: string

definition artifact_for :: "uuid \<Rightarrow> string \<Rightarrow> db \<Rightarrow> backup_artifact option" where
  "artifact_for rid name d =
     first_row (\<lambda>a. art_BackupRunID a = rid \<and> art_Name a = name) (db_artifacts d)"

definition new_artifact :: "time \<Rightarrow> uuid \<Rightarrow> backup_run \<Rightarrow> artifact_request \<Rightarrow> backup_artifact" where
  "new_artifact now nid r q =
     \<lparr>ID = nid, CreatedAt = now, UpdatedAt = now, DeletedAt = None, art_BackupRunID = ID r,
      art_Name = ar_Name q, art_Size = ar_Size q, art_Checksum = ar_Checksum q,
      art_StoragePath = ar_StoragePath q, art_StorageTargetID = run_StorageTargetID r,
      art_VerifiedAt = None, art_VerificationStatus = ArtifactUnverified\<rparr>"

definition RegisterArtifact ::
    "faults \<Rightarrow> time \<Rightarrow> uuid \<Rightarrow> agent \<Rightarrow> uuid option \<Rightarrow> artifact_request option \<Rightarrow> db
      \<Rightarrow> db \<times> backup_artifact reply" where
  "RegisterArtifact flt now nid ag idp req d =
     (case idp of
        None \<Rightarrow> (d, Fail 400 ''invalid run id'')
      | Some i \<Rightarrow>
          (case find_agent_run (ID ag) i d of
             None \<Rightarrow> (d, Fail 404 ''run not found'')
           | Some r \<Rightarrow>
               (case req of
                  None \<Rightarrow> (d, Fail 400 ''bad request'')
                | Some q \<Rightarrow>
                    if ar_Name q = '''' then (d, Fail 400 ''bad request'')
                    else if ar_Size q < 0 then (d, Fail 400 ''size must be >= 0'')
                    else (case artifact_for i (ar_Name q) d of
                      Some a \<Rightarrow> (d, Reply 200 a)
                    | None \<Rightarrow>
                        let a = new_artifact now nid r q in
                        (case (if flt ''create artifact'' then None
                               else create_row now artifact_clash a (db_artifacts d)) of
                           None \<Rightarrow>
                             (case artifact_for i (ar_Name q) d of
                                Some w \<Rightarrow> (d, Reply 200 w)
                              | None \<Rightarrow> (d, Fail 500 ''failed to register artifact''))
                         | Some t \<Rightarrow> (d\<lparr>db_artifacts := t\<rparr>, Reply 201 a))))))"

record chunk_request =
  cr_Index :: int
  cr_Size :: int
  cr_Checksum :: string
  cr_StoragePath :: string
  cr_Uploaded :: bool

definition chunk_for :: "uuid \<Rightarrow> int \<Rightarrow> db \<Rightarrow> backup_chunk option" where
  "chunk_for aid ix d = first_row (\<lambda>c. chk_ArtifactID c = aid \<and> chk_Index c = ix) (db_chunks d)"

definition RegisterChunk ::
    "faults \<Rightarrow> time \<Rightarrow> uuid \<Rightarrow> agent \<Rightarrow> uuid option \<Rightarrow> chunk_request option \<Rightarrow> db
      \<Rightarrow> db \<times> backup_chunk reply" where
  "RegisterChunk flt now nid ag aidp req d =
     (case aidp of
        None \<Rightarrow> (d, Fail 400 ''invalid artifact_id'')
      | Some aid \<Rightarrow>
          (case first_row (\<lambda>a. ID a = aid) (db_artifacts d) of
             None \<Rightarrow> (d, Fail 404 ''artifact not found'')
           | Some a \<Rightarrow>
               (case find_agent_run (ID ag) (art_BackupRunID a) d of
                  None \<Rightarrow> (d, Fail 403 ''access denied'')
                | Some r \<Rightarrow>
                    (case req of
                       None \<Rightarrow> (d, Fail 400 ''bad request'')
                     | Some q \<Rightarrow>
                         if cr_Index q < 0 \<or> cr_Size q < 0
                         then (d, Fail 400 ''index and size must be >= 0'')
                         else (case chunk_for aid (cr_Index q) d of
                           Some c \<Rightarrow>
                             if chk_Checksum c \<noteq> cr_Checksum q
                             then (d, Fail 409 ''chunk already exists with a different checksum'')
                             else (d, Reply 200 c)
                         | None \<Rightarrow>
                             let c = \<lparr>ID = nid, CreatedAt = now, UpdatedAt = now, DeletedAt = None,
                                      chk_ArtifactID = aid, chk_Index = cr_Index q, chk_Size = cr_Size q,
                                      chk_Checksum = cr_Checksum q, chk_StoragePath = cr_StoragePath q,
                                      chk_Uploaded = cr_Uploaded q\<rparr> in
                             (case (if flt ''create chunk'' then None
                                    else create_row now chunk_clash c (db_chunks d)) of
                                None \<Rightarrow> (d, Fail 500 ''failed to register chunk'')
                              | Some t \<Rightarrow> (d\<lparr>db_chunks := t\<rparr>, Reply 201 c)))))))"

subsection \<open>The polling protocol\<close>

definition nil_uuid :: uuid where
  "nil_uuid = ''00000000-0000-0000-0000-000000000000''"

text \<open>The zero value of a relation that \<open>Preload\<close> did not find.\<close>

definition zero_job :: backup_job where
  "zero_job = \<lparr>ID = nil_uuid, CreatedAt = 0, UpdatedAt = 0, DeletedAt = None,
     job_OrganizationID = nil_uuid, job_AgentID = nil_uuid, job_StorageTargetID = nil_uuid,
     job_PolicyID = None, job_Name = '''', job_SourceType = '''', job_ConnectionID = None,
     job_SourcePath = '''', job_SourceDatabase = '''', job_IncludePatterns = '''',
     job_ExcludePatterns = '''', job_ExportFormat = '''', job_Mode = '''', job_Encrypted = False,
     job_RetentionDays = 0, job_Enabled = False, job_SLATargetMinutes = 0,
     job_RPOTargetMinutes = 0, job_RTOTargetMinutes = 0, job_Schedule = None, job_Policy = None\<rparr>"

definition zero_target :: storage_target where
  "zero_target = \<lparr>ID = nil_uuid, CreatedAt = 0, UpdatedAt = 0, DeletedAt = None,
     st_OrganizationID = nil_uuid, st_Name = '''', st_Type = StorageOther '''', st_Bucket = '''',
     st_Region = '''', st_Endpoint = '''', st_UsePathStyle = False, st_EncryptedAccessKey = '''',
     st_EncryptedSecretKey = '''', st_Path = ''''\<rparr>"

definition job_of_run :: "uuid \<Rightarrow> db \<Rightarrow> backup_job" where
  "job_of_run jid d = (case first_row (\<lambda>j. ID j = jid) (db_jobs d) of None \<Rightarrow> zero_job | Some j \<Rightarrow> j)"

definition target_of_job :: "backup_job \<Rightarrow> db \<Rightarrow> storage_target" where
  "target_of_job j d =
     (case first_row (\<lambda>t. ID t = job_StorageTargetID j) (db_targets d) of None \<Rightarrow> zero_target | Some t \<Rightarrow> t)"

definition connection_row :: "uuid option \<Rightarrow> db \<Rightarrow> database_connection option" where
  "connection_row cid d =
     (case cid of None \<Rightarrow> None | Some c \<Rightarrow> first_row (\<lambda>x. ID x = c) (db_conns d))"

definition preload_policy :: "db \<Rightarrow> backup_job \<Rightarrow> backup_job" where
  "preload_policy d j =
     j\<lparr>job_Policy := (case job_PolicyID j of
                        None \<Rightarrow> None | Some p \<Rightarrow> first_row (\<lambda>q. ID q = p) (db_policies d))\<rparr>"

record agent_run_dto =
  dto_ID :: uuid
  dto_BackupJobID :: uuid
  dto_Status :: run_status
  dto_CreatedAt :: time

record agent_storage_config =
  sc_Type :: storage_type
  sc_Path :: string
  sc_Bucket :: string
  sc_Region :: string
  sc_Endpoint :: string
  sc_UsePathStyle :: bool
  sc_AccessKey :: string
  sc_SecretKey :: string

record agent_connection =
  ac_ID :: uuid
  ac_Type :: string
  ac_Host :: string
  ac_Port :: int
  ac_Username :: string
  ac_Password :: string

record agent_job_config =
  jc_JobID :: uuid
  jc_OrganizationID :: uuid
  jc_Name :: string
  jc_SourceType :: string
  jc_ConnectionID :: string
  jc_SourcePath :: string
  jc_SourceDatabase :: string
  jc_IncludePatterns :: string
  jc_ExcludePatterns :: string
  jc_Mode :: string
  jc_Encrypted :: bool
  jc_RetentionDays :: int
  jc_ExportFormat :: string
  jc_Connection :: "agent_connection option"
  jc_StorageType :: storage_type
  jc_StorageBucket :: string
  jc_StorageRegion :: string
  jc_StorageEndpoint :: string
  jc_StoragePath :: string
  jc_Storage :: agent_storage_config

definition run_dto :: "backup_run \<Rightarrow> agent_run_dto" where
  "run_dto r = \<lparr>dto_ID = ID r, dto_BackupJobID = run_BackupJobID r, dto_Status = run_Status r,
     dto_CreatedAt = CreatedAt r\<rparr>"

definition connectionFor ::
    "(string \<Rightarrow> string option) \<Rightarrow> uuid option \<Rightarrow> database_connection option \<Rightarrow> agent_connection option" where
  "connectionFor dec cid loaded =
     (case cid of
        None \<Rightarrow> None
      | Some c \<Rightarrow>
          (case loaded of
             None \<Rightarrow> None
           | Some x \<Rightarrow>
               if ID x \<noteq> c then None
               else (case dec (conn_EncryptedPassword x) of
                 None \<Rightarrow> None
               | Some pw \<Rightarrow> Some \<lparr>ac_ID = ID x, ac_Type = conn_Type x, ac_Host = conn_Host x,
                     ac_Port = conn_Port x, ac_Username = conn_Username x, ac_Password = pw\<rparr>)))"

definition storageConfigFor :: "(string \<Rightarrow> string option) \<Rightarrow> storage_target \<Rightarrow> agent_storage_config" where
  "storageConfigFor dec t =
     (let key = (\<lambda>c. if st_Type t = StorageS3 then (case dec c of None \<Rightarrow> '''' | Some k \<Rightarrow> k) else '''') in
      \<lparr>sc_Type = st_Type t, sc_Path = st_Path t, sc_Bucket = st_Bucket t, sc_Region = st_Region t,
       sc_Endpoint = st_Endpoint t, sc_UsePathStyle = st_UsePathStyle t,
       sc_AccessKey = key (st_EncryptedAccessKey t), sc_SecretKey = key (st_EncryptedSecretKey t)\<rparr>)"

definition job_config :: "(string \<Rightarrow> string option) \<Rightarrow> backup_run \<Rightarrow> db \<Rightarrow> agent_job_config" where
  "job_config dec r d =
     (let j = preload_policy d (job_of_run (run_BackupJobID r) d); t = target_of_job j d;
          eff = EffectivePolicy j in
      \<lparr>jc_JobID = ID j, jc_OrganizationID = run_OrganizationID r, jc_Name = job_Name j,
       jc_SourceType = job_SourceType j,
       jc_ConnectionID = (case job_ConnectionID j of None \<Rightarrow> '''' | Some c \<Rightarrow> c),
       jc_SourcePath = job_SourcePath j, jc_SourceDatabase = job_SourceDatabase j,
       jc_IncludePatterns = job_IncludePatterns j, jc_ExcludePatterns = job_ExcludePatterns j,
       jc_Mode = rp_Mode eff, jc_Encrypted = rp_Encrypted eff, jc_RetentionDays = rp_RetentionDays eff,
       jc_ExportFormat = job_ExportFormat j,
       jc_Connection = connectionFor dec (job_ConnectionID j) (connection_row (job_ConnectionID j) d),
       jc_StorageType = st_Type t, jc_StorageBucket = st_Bucket t, jc_StorageRegion = st_Region t,
       jc_StorageEndpoint = st_Endpoint t, jc_StoragePath = st_Path t,
       jc_Storage = storageConfigFor dec t\<rparr>)"

definition PendingRuns ::
    "(string \<Rightarrow> string \<Rightarrow> bool) \<Rightarrow> string \<Rightarrow> uuid option \<Rightarrow> time \<Rightarrow> db \<Rightarrow> db \<times> agent_run_dto list reply" where
  "PendingRuns ok auth hdr now d =
     (case authenticateAgent ok auth hdr d of
        Inl (n, msg) \<Rightarrow> (d, Fail n msg)
      | Inr a \<Rightarrow>
          let d1 = touch now a d in
          (d1, Reply 200 (map run_dto (sort_key CreatedAt
             (rows (\<lambda>r. run_AgentID r = ID a \<and> run_Status r = RunPending) (db_runs d1))))))"

definition claim_row :: "time \<Rightarrow> backup_run \<Rightarrow> backup_run" where
  "claim_row now x = x\<lparr>run_Status := RunRunning, run_StartedAt := Some now\<rparr>"

definition ClaimRun ::
    "(string \<Rightarrow> string \<Rightarrow> bool) \<Rightarrow> faults \<Rightarrow> (string \<Rightarrow> string option) \<Rightarrow> string \<Rightarrow> uuid option \<Rightarrow> time
      \<Rightarrow> uuid option \<Rightarrow> db \<Rightarrow> db \<times> (agent_run_dto \<times> bool \<times> agent_job_config) reply" where
  "ClaimRun ok flt dec auth hdr now idp d =
     (case authenticateAgent ok auth hdr d of
        Inl (n, msg) \<Rightarrow> (d, Fail n msg)
      | Inr a \<Rightarrow>
          let d1 = touch now a d in
          (case idp of
             None \<Rightarrow> (d1, Fail 400 ''invalid id'')
           | Some i \<Rightarrow>
               let P = (\<lambda>r. ID r = i \<and> run_AgentID r = ID a \<and> run_Status r = RunPending) in
               if flt ''claim run'' then (d1, Fail 500 ''claim failed'')
               else if affected P (db_runs d1) = 0 then
                 (case find_agent_run (ID a) i d1 of
                    None \<Rightarrow> (d1, Fail 404 ''run not found'')
                  | Some _ \<Rightarrow> (d1, Fail 409 ''run already claimed''))
               else
                 let d2 = d1\<lparr>db_runs := update_rows now P (claim_row now) (db_runs d1)\<rparr> in
                 (case first_row (\<lambda>r. ID r = i) (db_runs d2) of
                    None \<Rightarrow> (d2, Fail 500 ''failed to load run'')
                  | Some r \<Rightarrow>
                      (publishRun r RunRunning d2,
                       Reply 200 (run_dto r, run_CancelRequested r, job_config dec r d2)))))"


subsection \<open>Every operation is a step of the database\<close>

lemma run_stamp [simp]:
  "run_identity (x\<lparr>UpdatedAt := u\<rparr>) = run_identity x" "run_record (x\<lparr>UpdatedAt := u\<rparr>) = run_record x"
  by (simp_all add: run_identity_def run_record_def)

lemma run_later_stamp: "live x \<Longrightarrow> run_later x y \<Longrightarrow> run_later x (y\<lparr>UpdatedAt := u\<rparr>)"
  by (auto simp: run_later_def live_def)

lemma db_step_update_runs:
  assumes id: "\<And>x. run_identity (f x) = run_identity x"
    and later: "\<And>x. x \<in> set (db_runs d) \<Longrightarrow> live x \<Longrightarrow> P x \<Longrightarrow> run_index.wf (db_runs d) \<Longrightarrow> run_later x (f x)"
    and ok: "\<And>x. x \<in> set (db_runs d) \<Longrightarrow> live x \<Longrightarrow> P x \<Longrightarrow> run_index.wf (db_runs d) \<Longrightarrow> run_ok x \<Longrightarrow> run_ok (f x)"
  shows "db_step d (d\<lparr>db_runs := update_rows now P f (db_runs d)\<rparr>)"
proof (rule db_step_runs)
  assume wf: "run_index.wf (db_runs d)"
  have keys: "ID (f x) = ID x" "run_BackupJobID (f x) = run_BackupJobID x"
    "run_ScheduledFor (f x) = run_ScheduledFor x" for x
    using id [of x] by (simp_all add: run_identity_def)
  show "run_table.evolves (db_runs d) (update_rows now P f (db_runs d))"
    by (rule run_table.evolves_update) (use later wf run_later_stamp in blast)
  show "run_index.wf (update_rows now P f (db_runs d))"
    by (rule run_index.wf_update [OF wf]) (use keys ok wf in \<open>auto simp: run_clash_def\<close>)
qed

lemma db_step_update_run:
  assumes r: "r \<in> set (db_runs d)" "\<not> run_terminal (run_Status r)"
    and id: "\<And>x. run_identity (f x) = run_identity x"
    and "run_Status (f r) = run_Status r \<or> CanTransition (run_Status r) (run_Status (f r))"
    and "run_CancelRequested r \<Longrightarrow> run_CancelRequested (f r)" and "run_ok r \<Longrightarrow> run_ok (f r)"
  shows "db_step d (d\<lparr>db_runs := update_rows now (\<lambda>x. ID x = ID r) f (db_runs d)\<rparr>)"
proof (rule db_step_update_runs [OF id])
  fix x assume x: "x \<in> set (db_runs d)" "live x" "ID x = ID r" and wf: "run_index.wf (db_runs d)"
  have [simp]: "x = r" by (rule run_index.wf_id [OF wf x(1) r(1) x(3)])
  show "run_later x (f x)" using run_later_step [of r "f r"] x(2) r(2) id assms(4,5) by simp
  show "run_ok x \<Longrightarrow> run_ok (f x)" using assms(6) by simp
qed

lemma publishRun_step [simp]: "db_step d (publishRun r s x) = db_step d x"
  by (simp add: publishRun_def)

lemma publishRun_keeps [simp]:
  "db_runs (publishRun r s d) = db_runs d" "db_alerts (publishRun r s d) = db_alerts d"
  "db_artifacts (publishRun r s d) = db_artifacts d" "db_agents (publishRun r s d) = db_agents d"
  by (simp_all add: publishRun_def)

lemma cancel_row_step:
  assumes "r \<in> set (db_runs d)" and "CanTransition (run_Status r) RunCancelled"
  shows "db_step d (d\<lparr>db_runs := update_rows now (\<lambda>x. ID x = ID r) (cancel_row (run_Status r)) (db_runs d)\<rparr>)"
proof (rule db_step_update_run [OF assms(1)])
  show "\<not> run_terminal (run_Status r)" using assms(2) terminal_no_transition by blast
  show "run_ok r \<Longrightarrow> run_ok (cancel_row (run_Status r) r)"
    by (auto simp: run_ok_def cancel_row_def run_terminal_def)
qed (use assms(2) in \<open>auto simp: cancel_row_def run_identity_def\<close>)

lemma Cancel_step: "db_step d (fst (Cancel wb now auid who org idp d))"
  by (auto simp: Cancel_def Let_def find_run_def split: option.split
      intro!: cancel_row_step dest: first_row_SomeD(1))

lemma report_progress_step:
  assumes "r \<in> set (db_runs d)" and "run_Status r \<in> {RunRunning, RunUploading, RunVerifying}"
    and "0 \<le> rq_BytesRead q" "0 \<le> rq_BytesCompressed q" "0 \<le> rq_BytesUploaded q"
  shows "db_step d (report_progress now r q d)"
  unfolding report_progress_def publishRun_step
  by (rule db_step_update_run [OF assms(1)])
     (use assms(2-) in \<open>auto simp: progress_row_def run_identity_def run_ok_def run_terminal_def\<close>)

lemma advance_row_fields [simp]:
  "run_identity (advance_row now r q w x) = run_identity x"
  "run_Status (advance_row now r q w x) = rq_Status q"
  "run_CancelRequested (advance_row now r q w x) = run_CancelRequested x"
  "ID (advance_row now r q w x) = ID x" "DeletedAt (advance_row now r q w x) = DeletedAt x"
  by (simp_all add: advance_row_def run_identity_def Let_def split: option.split)

lemma advance_row_ok:
  assumes "CanTransition s (rq_Status q)"
    and "0 \<le> rq_BytesRead q" "0 \<le> rq_BytesCompressed q" "0 \<le> rq_BytesUploaded q"
  shows "run_ok (advance_row now r q w x)"
  using assms CanTransition_target [OF assms(1)]
  by (auto simp: run_ok_def advance_row_def Let_def split: option.split)

lemma advance_step:
  assumes can: "CanTransition (run_Status r) (rq_Status q)"
    and "0 \<le> rq_BytesRead q" "0 \<le> rq_BytesCompressed q" "0 \<le> rq_BytesUploaded q"
  shows "db_step d (d\<lparr>db_runs := update_rows now (\<lambda>x. ID x = ID r \<and> run_Status x = run_Status r)
            (advance_row now r q w) (db_runs d)\<rparr>)"
proof (rule db_step_update_runs)
  fix x :: backup_run assume "live x" "ID x = ID r \<and> run_Status x = run_Status r"
  then show "run_later x (advance_row now r q w x)"
    using can terminal_no_transition by (intro run_later_step) auto
qed (use advance_row_ok [OF assms] in simp_all)

lemma db_step_update_artifacts:
  assumes "\<And>x. live x \<Longrightarrow> P x \<Longrightarrow> artifact_later x ((f x)\<lparr>UpdatedAt := now\<rparr>)"
    and "\<And>x. ID (f x) = ID x \<and> art_BackupRunID (f x) = art_BackupRunID x \<and> art_Name (f x) = art_Name x \<and> DeletedAt (f x) = DeletedAt x"
    and "\<And>x. artifact_ok x \<Longrightarrow> artifact_ok (f x)"
  shows "db_step d (d\<lparr>db_artifacts := update_rows now P f (db_artifacts d)\<rparr>)"
  using assms by (intro db_step_artifacts artifact_table.evolves_update artifact_index.wf_update)
     (auto simp: artifact_clash_def live_def)

lemma stamp_artifacts_step: "db_step d (stamp_artifacts now rid s d)"
  unfolding stamp_artifacts_def
  by (rule db_step_update_artifacts) (auto simp: artifact_later_def live_def artifact_ok_def)

lemma after_completed_step: "db_step d (after_completed flt now r d)"
  unfolding after_completed_def
  by (rule db_step_trans [OF db_step_update_artifacts ResolveAlerts_step])
     (auto simp: artifact_later_def live_def artifact_ok_def)

lemma after_failed_step: "db_step d (after_failed e flt now nid1 nid2 ag r msg d)"
proof -
  have c: "db_step x (x\<lparr>db_runs := update_rows now P (\<lambda>x. x\<lparr>run_FailureCategory := c\<rparr>) (db_runs x)\<rparr>)" for P c x
    by (rule db_step_update_runs)
       (auto simp: run_identity_def run_later_def live_def run_record_def run_ok_def)
  note two = db_step_trans [OF db_step_trans [OF c RaiseAlert_step] RaiseAlert_step]
    and one = db_step_trans [OF c RaiseAlert_step]
  show ?thesis
    by (cases "classifyFailure msg = ''DISK_FULL''") (simp_all add: after_failed_def Let_def one two)
qed

lemma report_commit_step:
  assumes "CanTransition (run_Status r) (rq_Status q)"
    and "0 \<le> rq_BytesRead q" "0 \<le> rq_BytesCompressed q" "0 \<le> rq_BytesUploaded q"
  shows "db_step d (fst (report_commit e flt enc now nid1 nid2 ag r q d))"
  using advance_step [OF assms]
  by (auto simp: report_commit_def Let_def split: option.split
      intro!: db_step_trans [OF _ after_completed_step] db_step_trans [OF _ after_failed_step])

lemma find_agent_run_SomeD:
  "find_agent_run aid i d = Some r \<Longrightarrow> r \<in> set (db_runs d) \<and> live r \<and> ID r = i \<and> run_AgentID r = aid"
  unfolding find_agent_run_def using first_row_SomeD by fastforce

lemma find_run_SomeD:
  "find_run org i d = Some r \<Longrightarrow> r \<in> set (db_runs d) \<and> live r \<and> ID r = i \<and> run_OrganizationID r = org"
  unfolding find_run_def using first_row_SomeD by fastforce

definition good_counters :: "status_report \<Rightarrow> bool" where
  "good_counters q \<longleftrightarrow> 0 \<le> rq_BytesRead q \<and> 0 \<le> rq_BytesCompressed q \<and> 0 \<le> rq_BytesUploaded q"

lemma report_check_ProgressD:
  assumes "report_check ag idp req d = Progress r q"
  shows "req = Some q \<and> idp = Some (ID r) \<and> find_agent_run (ID ag) (ID r) d = Some r \<and>
     rq_Status q = run_Status r \<and> run_Status r \<in> {RunRunning, RunUploading, RunVerifying} \<and> good_counters q"
  using assms find_agent_run_SomeD
  by (fastforce simp: report_check_def good_counters_def split: option.splits if_splits)

lemma report_check_AdvanceD:
  assumes "report_check ag idp req d = Advance r q"
  shows "req = Some q \<and> idp = Some (ID r) \<and> find_agent_run (ID ag) (ID r) d = Some r \<and>
     CanTransition (run_Status r) (rq_Status q) \<and> reported_path_ok r (rq_StoragePath q) d \<and> good_counters q"
  using assms find_agent_run_SomeD
  by (fastforce simp: report_check_def good_counters_def split: option.splits if_splits)

lemma UpdateStatus_step: "db_step d (fst (UpdateStatus e flt enc now nid1 nid2 ag idp req d))"
proof (cases "report_check ag idp req d")
  case (Progress r q)
  then show ?thesis using report_check_ProgressD [OF Progress] report_progress_step [of r d q now]
      find_agent_run_SomeD [of "ID ag" "ID r" d r] by (simp add: UpdateStatus_def good_counters_def)
next
  case (Advance r q)
  then show ?thesis using report_check_AdvanceD [OF Advance] report_commit_step [of r q]
    by (simp add: UpdateStatus_def good_counters_def)
qed (simp_all add: UpdateStatus_def)

lemma Verify_step: "db_step d (fst (Verify e flt fs now nid org idp d))"
  by (auto simp: Verify_def split: option.split
      intro: stamp_artifacts_step db_step_trans [OF stamp_artifacts_step RaiseAlert_step])

lemma RegisterArtifact_step: "db_step d (fst (RegisterArtifact flt now nid ag idp req d))"
proof -
  have "db_step d (d\<lparr>db_artifacts := t\<rparr>)"
    if "create_row now artifact_clash (new_artifact now nid r q) (db_artifacts d) = Some t"
      "ar_Name q \<noteq> ''''" "\<not> ar_Size q < 0" for r q t
    using that by (intro db_step_artifacts artifact_table.evolves_create artifact_index.wf_create [OF _ that(1)])
       (auto simp: artifact_ok_def new_artifact_def)
  then show ?thesis
    by (auto simp: RegisterArtifact_def Let_def split: option.split)
qed

lemma RegisterChunk_step: "db_step d (fst (RegisterChunk flt now nid ag aidp req d))"
proof -
  have "db_step d (d\<lparr>db_chunks := t\<rparr>)"
    if "create_row now chunk_clash c (db_chunks d) = Some t" "chunk_ok c" for c t
    using that by (intro db_step_chunks chunk_table.evolves_create chunk_index.wf_create [OF _ that(1)]) auto
  then show ?thesis
    by (auto simp: RegisterChunk_def Let_def chunk_ok_def split: option.split)
qed

lemma touch_db_step: "db_step d (touch now a d)"
  by (rule agents_step_db_step [OF touch_step])

lemma PendingRuns_step: "db_step d (fst (PendingRuns ok auth hdr now d))"
  by (auto simp: PendingRuns_def touch_db_step Let_def split: sum.split)

lemma claim_step:
  "db_step d (d\<lparr>db_runs := update_rows now (\<lambda>r. ID r = i \<and> run_AgentID r = aid \<and> run_Status r = RunPending)
     (claim_row now) (db_runs d)\<rparr>)"
  by (rule db_step_update_runs)
     (auto simp: run_identity_def claim_row_def run_ok_def run_in_flight_def run_terminal_def
       intro: run_later_step)

lemma ClaimRun_step: "db_step d (fst (ClaimRun ok flt dec auth hdr now idp d))"
  by (auto simp: ClaimRun_def Let_def touch_db_step split: sum.split option.split
      intro: db_step_trans [OF touch_db_step claim_step])

lemmas run_steps = Cancel_step UpdateStatus_step Verify_step RegisterArtifact_step RegisterChunk_step
  PendingRuns_step ClaimRun_step


subsection \<open>Properties\<close>

text \<open>A small database for the witnesses: one job with a run waiting for agent \<open>g1\<close>.\<close>

definition sample_run :: backup_run where
  "sample_run = \<lparr>ID = ''r1'', CreatedAt = 1, UpdatedAt = 1, DeletedAt = None,
     run_OrganizationID = ''o1'', run_BackupJobID = ''j1'', run_AgentID = ''g1'',
     run_StorageTargetID = ''s1'', run_Status = RunPending, run_ScheduledFor = None,
     run_CancelRequested = False, run_RetryOfRunID = None, run_RetryAttempt = 0,
     run_StartedAt = None, run_CompletedAt = None, run_BytesRead = 0, run_BytesCompressed = 0,
     run_BytesUploaded = 0, run_DurationSeconds = 0, run_SourceType = ''FILESYSTEM'',
     run_ErrorMessage = '''', run_FailureCategory = '''', run_StoragePath = '''', run_Checksum = '''',
     run_DataKeyEncrypted = ''''\<rparr>"

definition sample_target :: storage_target where
  "sample_target = zero_target\<lparr>ID := ''s1'', st_OrganizationID := ''o1'', st_Type := StorageLocal,
     st_Path := ''/backups''\<rparr>"

definition run_db :: "run_status \<Rightarrow> db" where
  "run_db s = sample_agent_db\<lparr>db_runs := [sample_run\<lparr>run_Status := s, run_CompletedAt := Some 4,
       run_StartedAt := Some 2, run_Checksum := ''ab''\<rparr>],
     db_targets := [sample_target]\<rparr>"

lemma run_db_wf: "run_terminal s \<or> run_in_flight s \<Longrightarrow> db_wf (run_db s)"
  using sample_agent_db_wf
  by (auto simp: db_wf_def run_db_def sample_agent_db_def empty_db_def sample_run_def
      run_index.wf_def artifact_index.wf_def chunk_index.wf_def restore_index.wf_def
      unique_ids_def run_ok_def alerts_wf_def single_firing_def)

definition sample_report :: "run_status \<Rightarrow> status_report" where
  "sample_report s = \<lparr>rq_Status = s, rq_BytesRead = 9, rq_BytesCompressed = 8, rq_BytesUploaded = 7,
     rq_ErrorMessage = '''', rq_StoragePath = ''/backups/a.zip'', rq_Checksum = ''cd'', rq_DataKey = ''''\<rparr>"

text \<open>The write of a status report is a compare-and-set: if, between reading the run and writing it,
  anything has moved the run to another status, the report changes nothing and answers 409
  (or 500, if encryption or the database failed).\<close>

theorem status_commit_is_cas:
  assumes "\<forall>x\<in>set (db_runs d). live x \<and> ID x = ID r \<longrightarrow> run_Status x \<noteq> run_Status r"
  shows "fst (report_commit e flt enc now nid1 nid2 ag r q d) = d \<and>
     status_code (snd (report_commit e flt enc now nid1 nid2 ag r q d)) \<in> {409, 500}"
proof -
  have "affected (\<lambda>x. ID x = ID r \<and> run_Status x = run_Status r) (db_runs d) = 0"
    using assms by (auto simp: affected_0_iff)
  then show ?thesis by (simp add: report_commit_def Let_def split: option.split)
qed

theorem status_commit_is_cas_witness:
  "fst (report_commit sample_env no_faults Some 9 ''n1'' ''n2'' sample_agent
      (sample_run\<lparr>run_Status := RunVerifying\<rparr>) (sample_report RunCompleted) (run_db RunCancelled)) = run_db RunCancelled"
proof -
  have "\<forall>x\<in>set (db_runs (run_db RunCancelled)). live x \<and> ID x = ID (sample_run\<lparr>run_Status := RunVerifying\<rparr>) \<longrightarrow>
      run_Status x \<noteq> run_Status (sample_run\<lparr>run_Status := RunVerifying\<rparr>)"
    by (simp add: run_db_def)
  from status_commit_is_cas [OF this] show ?thesis by blast
qed

text \<open>An update addressed by primary key rewrites exactly that row.\<close>

lemma update_by_id:
  assumes "run_index.wf t" and "r \<in> set t" and "live r"
  shows "update_rows now (\<lambda>x. ID x = ID r) f t = map (\<lambda>x. if x = r then (f r)\<lparr>UpdatedAt := now\<rparr> else x) t"
  using assms by (intro update_unique run_index.wf_unique) simp_all

lemma find_run_eq:
  assumes "run_index.wf (db_runs d)" and "r \<in> set (db_runs d)" and "live r"
  shows "find_agent_run (run_AgentID r) (ID r) d = Some r" "find_run (run_OrganizationID r) (ID r) d = Some r"
proof -
  have *: "first_row (\<lambda>x. ID x = ID r \<and> P x) (db_runs d) = Some r" if "P r" for P
  proof (cases "first_row (\<lambda>x. ID x = ID r \<and> P x) (db_runs d)")
    case None
    then show ?thesis using assms(2,3) that by (auto simp: first_row_None_iff)
  next
    case (Some x)
    then show ?thesis using run_index.wf_id [OF assms(1) _ assms(2)] first_row_SomeD [OF Some] by blast
  qed
  show "find_agent_run (run_AgentID r) (ID r) d = Some r" "find_run (run_OrganizationID r) (ID r) d = Some r"
    using * by (simp_all add: find_agent_run_def find_run_def)
qed

text \<open>A finished run is sealed against reports: whatever the agent sends for it, nothing changes,
  and only an echo of the recorded status is answered 200.\<close>

theorem finished_run_refuses_reports:
  assumes "find_agent_run (ID ag) i d = Some r" and "run_terminal (run_Status r)"
  shows "fst (UpdateStatus e flt enc now nid1 nid2 ag (Some i) req d) = d \<and>
     (status_code (snd (UpdateStatus e flt enc now nid1 nid2 ag (Some i) req d)) = 200 \<longrightarrow>
        (\<exists>q. req = Some q \<and> rq_Status q = run_Status r))"
proof (cases req)
  case None
  then show ?thesis by (simp add: UpdateStatus_def report_check_def)
next
  case (Some q)
  have "\<not> CanTransition (run_Status r) (rq_Status q)" "run_Status r \<notin> {RunRunning, RunUploading, RunVerifying}"
    using assms(2) terminal_no_transition by (auto simp: run_terminal_def)
  then show ?thesis using assms(1) Some by (simp add: UpdateStatus_def report_check_def)
qed

theorem finished_run_refuses_reports_witness:
  "fst (UpdateStatus sample_env no_faults Some 9 ''n1'' ''n2'' sample_agent (Some ''r1'')
      (Some (sample_report RunFailed)) (run_db RunCompleted)) = run_db RunCompleted"
proof -
  let ?r = "sample_run\<lparr>run_Status := RunCompleted, run_CompletedAt := Some 4, run_StartedAt := Some 2,
      run_Checksum := ''ab''\<rparr>"
  have "find_agent_run (ID sample_agent) ''r1'' (run_db RunCompleted) = Some ?r"
    by (simp add: find_agent_run_def first_row_def run_db_def sample_run_def live_def sample_agent_def pending_agent_def)
  from finished_run_refuses_reports [OF this] show ?thesis by (simp add: run_terminal_def)
qed

lemma after_completed_runs [simp]: "db_runs (after_completed flt now r d) = db_runs d"
  using ResolveAlerts_frame by (simp add: after_completed_def only_alerts_def)

lemma after_failed_runs:
  "db_runs (after_failed e flt now nid1 nid2 ag r msg d) =
     update_rows now (\<lambda>x. ID x = ID r) (\<lambda>x. x\<lparr>run_FailureCategory := classifyFailure msg\<rparr>) (db_runs d)"
proof -
  have "db_runs (fst (RaiseAlert e flt nw nid i x)) = db_runs x" for nw nid i x
    using RaiseAlert_frame by (simp add: only_alerts_def)
  then show ?thesis by (simp add: after_failed_def Let_def)
qed

lemma advance_effect:
  assumes wf: "run_index.wf (db_runs d)"
    and chk: "report_check ag (Some i) (Some q) d = Advance r q"
    and enc: "rq_DataKey q = '''' \<and> w = None \<or> rq_DataKey q \<noteq> '''' \<and> (\<exists>c. enc (rq_DataKey q) = Some c \<and> w = Some c)"
    and flt: "\<not> flt ''update run''"
  shows "UpdateStatus e flt enc now nid1 nid2 ag (Some i) (Some q) d =
       (fst (UpdateStatus e flt enc now nid1 nid2 ag (Some i) (Some q) d), Reply 200 (run_CancelRequested r)) \<and>
     db_runs (fst (UpdateStatus e flt enc now nid1 nid2 ag (Some i) (Some q) d)) =
       map (\<lambda>x. if x = r then (advance_row now r q w r)\<lparr>UpdatedAt := now,
              run_FailureCategory := (if rq_Status q = RunFailed then classifyFailure (rq_ErrorMessage q)
                                      else run_FailureCategory r)\<rparr> else x) (db_runs d)"
proof -
  note c = report_check_AdvanceD [OF chk]
  note r = find_agent_run_SomeD [OF c [THEN conjunct2, THEN conjunct2, THEN conjunct1]]
  have same: "x = r" if "x \<in> set (db_runs d)" "ID x = ID r" for x
    using run_index.wf_id [OF wf that(1)] r that(2) by blast
  let ?P = "\<lambda>x. ID x = ID r \<and> run_Status x = run_Status r"
  have up: "update_rows now ?P f (db_runs d) = map (\<lambda>x. if x = r then (f r)\<lparr>UpdatedAt := now\<rparr> else x) (db_runs d)" for f
    unfolding update_rows_def using r same by (intro map_cong) auto
  have aff: "affected ?P (db_runs d) \<noteq> 0" using r by (auto simp: affected_0_iff)
  let ?a = "(advance_row now r q w r)\<lparr>UpdatedAt := now\<rparr>"
  have cancel: "first_row (\<lambda>x. ID x = ID r) (map (\<lambda>x. if x = r then ?a else x) (db_runs d)) = Some ?a"
  proof (cases "first_row (\<lambda>x. ID x = ID r) (map (\<lambda>x. if x = r then ?a else x) (db_runs d))")
    case None
    then have "\<not> (live ?a \<and> ID ?a = ID r)" using r by (auto simp: first_row_None_iff)
    then show ?thesis using r by (simp add: live_def)
  next
    case (Some y)
    then show ?thesis using first_row_SomeD [OF Some] same by auto
  qed
  have fc: "run_FailureCategory ?a = run_FailureCategory r" "?a\<lparr>run_FailureCategory := run_FailureCategory ?a\<rparr> = ?a"
    by (simp_all add: advance_row_def Let_def split: option.split)
  have up2: "update_rows now (\<lambda>x. ID x = ID r) (\<lambda>x. x\<lparr>run_FailureCategory := c\<rparr>)
        (map (\<lambda>x. if x = r then ?a else x) (db_runs d)) =
      map (\<lambda>x. if x = r then ?a\<lparr>run_FailureCategory := c\<rparr> else x) (db_runs d)" for c
    unfolding update_rows_def map_map using r same by (intro map_cong) (auto simp: live_def)
  have wrap: "(if rq_DataKey q = [] then Some None
      else (case enc (rq_DataKey q) of None \<Rightarrow> None | Some w \<Rightarrow> Some (Some w))) = Some w"
    using enc by auto
  let ?res = "report_commit e flt enc now nid1 nid2 ag r q d"
  have snd: "snd ?res = Reply 200 (run_CancelRequested r)"
    using flt aff cancel by (simp add: report_commit_def Let_def up wrap)
  have runs: "db_runs (fst ?res) = (if rq_Status q = RunFailed
      then map (\<lambda>x. if x = r then ?a\<lparr>run_FailureCategory := classifyFailure (rq_ErrorMessage q)\<rparr> else x) (db_runs d)
      else map (\<lambda>x. if x = r then ?a else x) (db_runs d))"
    using flt aff by (simp add: report_commit_def Let_def up wrap after_failed_runs up2)
  have res: "UpdateStatus e flt enc now nid1 nid2 ag (Some i) (Some q) d = ?res"
    using chk by (simp add: UpdateStatus_def)
  show ?thesis
  proof (cases "rq_Status q = RunFailed")
    case True
    then show ?thesis using runs snd by (simp add: res prod_eq_iff)
  next
    case False
    then show ?thesis using runs snd fc by (simp add: res prod_eq_iff)
  qed
qed

text \<open>C9. An accepted transition does exactly what was reported: the run carries the reported status,
  counters, error, path and checksum, gets its completion time and duration when it completed or
  failed and its failure category when it failed, keeps its identity, and no other run changes.\<close>

theorem accepted_report_effect:
  assumes wf: "run_index.wf (db_runs d)"
    and chk: "report_check ag (Some i) (Some q) d = Advance r q"
    and enc: "rq_DataKey q = '''' \<and> w = None \<or> rq_DataKey q \<noteq> '''' \<and> (\<exists>c. enc (rq_DataKey q) = Some c \<and> w = Some c)"
    and flt: "\<not> flt ''update run''"
  shows "\<exists>d' r'. UpdateStatus e flt enc now nid1 nid2 ag (Some i) (Some q) d = (d', Reply 200 (run_CancelRequested r)) \<and>
     db_runs d' = map (\<lambda>x. if x = r then r' else x) (db_runs d) \<and> run_identity r' = run_identity r \<and>
     run_Status r' = rq_Status q \<and> run_ErrorMessage r' = rq_ErrorMessage q \<and>
     (run_BytesRead r', run_BytesCompressed r', run_BytesUploaded r') = (rq_BytesRead q, rq_BytesCompressed q, rq_BytesUploaded q) \<and>
     (run_StoragePath r', run_Checksum r') = (rq_StoragePath q, rq_Checksum q) \<and>
     run_DataKeyEncrypted r' = (case w of None \<Rightarrow> run_DataKeyEncrypted r | Some c \<Rightarrow> c) \<and>
     (run_CancelRequested r', run_StartedAt r') = (run_CancelRequested r, run_StartedAt r) \<and>
     (run_CompletedAt r', run_DurationSeconds r') =
       (if rq_Status q = RunCompleted \<or> rq_Status q = RunFailed
        then (Some now, case run_StartedAt r of None \<Rightarrow> run_DurationSeconds r | Some s \<Rightarrow> whole_seconds (now - s))
        else (run_CompletedAt r, run_DurationSeconds r)) \<and>
     run_FailureCategory r' = (if rq_Status q = RunFailed then classifyFailure (rq_ErrorMessage q) else run_FailureCategory r)"
  by (intro exI conjI, rule advance_effect [where enc = enc and flt = flt, OF assms, THEN conjunct1],
      rule advance_effect [where enc = enc and flt = flt, OF assms, THEN conjunct2])
     (simp_all add: advance_row_def run_identity_def Let_def split: option.split)

theorem accepted_report_effect_witness:
  "run_Status (hd (db_runs (fst (UpdateStatus sample_env no_faults Some 9 ''n1'' ''n2'' sample_agent (Some ''r1'')
      (Some (sample_report RunCompleted)) (run_db RunVerifying))))) = RunCompleted"
proof -
  let ?r = "sample_run\<lparr>run_Status := RunVerifying, run_CompletedAt := Some 4, run_StartedAt := Some 2,
      run_Checksum := ''ab''\<rparr>"
  have "report_check sample_agent (Some ''r1'') (Some (sample_report RunCompleted)) (run_db RunVerifying)
      = Advance ?r (sample_report RunCompleted)" by code_simp
  moreover have "run_index.wf (db_runs (run_db RunVerifying))"
    using run_db_wf [of RunVerifying] by (simp add: db_wf_def run_in_flight_def)
  ultimately obtain d' r' where "UpdateStatus sample_env no_faults Some 9 ''n1'' ''n2'' sample_agent (Some ''r1'')
      (Some (sample_report RunCompleted)) (run_db RunVerifying) = (d', Reply 200 (run_CancelRequested ?r))"
      "db_runs d' = map (\<lambda>x. if x = ?r then r' else x) (db_runs (run_db RunVerifying))" "run_Status r' = RunCompleted"
    using accepted_report_effect [of "run_db RunVerifying" sample_agent "''r1''" "sample_report RunCompleted" ?r None
        Some no_faults sample_env 9 "''n1''" "''n2''"]
    by (auto simp: sample_report_def no_faults_def)
  then show ?thesis by (simp add: run_db_def)
qed


text \<open>A reported storage path cannot leave the run's target: when a report that moves the run to a
  new status is answered 200, its path, if any, lies at or below the target's directory.\<close>

theorem reported_path_confined:
  assumes ok: "UpdateStatus e flt enc now nid1 nid2 ag (Some i) (Some q) d = (d', Reply n c)"
    and r: "find_agent_run (ID ag) i d = Some r" "rq_Status q \<noteq> run_Status r"
    and t: "first_row (\<lambda>t. ID t = run_StorageTargetID r) (db_targets d) = Some t"
    and base: "IsAbs (st_Path t)" "comps (st_Path t) \<noteq> []" and p: "rq_StoragePath q \<noteq> ''''"
  shows "inside (st_Path t) (rq_StoragePath q)"
proof -
  have "reported_path_ok r (rq_StoragePath q) d"
    using ok r by (auto simp: UpdateStatus_def report_check_def split: if_splits)
  then have "storage_path_ok (st_Path t) (rq_StoragePath q)"
    using t base p by (auto simp: reported_path_ok_def comps_def IsAbs_def)
  then show ?thesis using storage_path_ok_inside [OF base] by blast
qed

theorem reported_path_confined_witness:
  "inside ''/backups'' ''/backups/a.zip'' \<and>
   status_code (snd (UpdateStatus sample_env no_faults Some 9 ''n1'' ''n2'' sample_agent (Some ''r1'')
     (Some ((sample_report RunCompleted)\<lparr>rq_StoragePath := ''/backups/../etc/x''\<rparr>)) (run_db RunVerifying))) = 400"
proof
  let ?r = "sample_run\<lparr>run_Status := RunVerifying, run_CompletedAt := Some 4, run_StartedAt := Some 2,
      run_Checksum := ''ab''\<rparr>"
  let ?u = "UpdateStatus sample_env no_faults Some 9 ''n1'' ''n2'' sample_agent (Some ''r1'')
      (Some (sample_report RunCompleted)) (run_db RunVerifying)"
  have "snd ?u = Reply 200 False" by code_simp
  then have u: "?u = (fst ?u, Reply 200 False)" by (metis prod.collapse)
  have r: "find_agent_run (ID sample_agent) ''r1'' (run_db RunVerifying) = Some ?r" by code_simp
  have t: "first_row (\<lambda>t. ID t = run_StorageTargetID ?r) (db_targets (run_db RunVerifying)) = Some sample_target"
    by code_simp
  have b: "IsAbs (st_Path sample_target)" "comps (st_Path sample_target) \<noteq> []" by code_simp+
  show "inside ''/backups'' ''/backups/a.zip''"
    using reported_path_confined [OF u r _ t b] by (simp add: sample_report_def sample_target_def)
  show "status_code (snd (UpdateStatus sample_env no_faults Some 9 ''n1'' ''n2'' sample_agent (Some ''r1'')
     (Some ((sample_report RunCompleted)\<lparr>rq_StoragePath := ''/backups/../etc/x''\<rparr>)) (run_db RunVerifying))) = 400"
    by code_simp
qed

lemma touch_runs [simp]: "db_runs (touch now a d) = db_runs d"
  by (simp add: touch_def Let_def)

text \<open>C8. A run is claimed once: after one agent has been given it, however the database has evolved, no
  further claim of that run is answered 200 or changes any run.\<close>

theorem claim_exclusive:
  assumes ok: "ClaimRun ok flt dec auth hdr now (Some i) d = (d1, Reply n b)"
    and later: "db_later d1 d2" "db_wf d2"
  shows "status_code (snd (ClaimRun ok' flt' dec' auth' hdr' now' (Some i) d2)) \<noteq> 200 \<and>
     db_runs (fst (ClaimRun ok' flt' dec' auth' hdr' now' (Some i) d2)) = db_runs d2"
proof -
  obtain a where auth: "authenticateAgent ok auth hdr d = Inr a"
    using ok by (cases "authenticateAgent ok auth hdr d") (auto simp: ClaimRun_def)
  let ?P = "\<lambda>a r. ID r = i \<and> run_AgentID r = ID (a :: agent) \<and> run_Status r = RunPending"
  have "affected (?P a) (db_runs d) \<noteq> 0" and d1: "db_runs d1 = update_rows now (?P a) (claim_row now) (db_runs d)"
    using ok by (auto simp: ClaimRun_def auth Let_def split: option.splits if_splits)
  moreover have "run_table.evolves (db_runs d1) (db_runs d2)" "unique_ids (db_runs d2)"
    using later run_index.wf_unique by (auto simp: db_later_def db_wf_def)
  ultimately have "affected (?P b) (db_runs d2) = 0" for b
    by (intro run_claim.claimed_once [where P = "?P a" and f = "claim_row now"])
       (auto simp: claim_row_def)
  then show ?thesis by (auto simp: ClaimRun_def Let_def authenticateAgent_def split: sum.splits option.splits)
qed

definition pending_db :: db where
  "pending_db = sample_agent_db\<lparr>db_runs := [sample_run], db_targets := [sample_target]\<rparr>"

lemma pending_db_wf: "db_wf pending_db"
  using sample_agent_db_wf
  by (auto simp: db_wf_def pending_db_def sample_agent_db_def empty_db_def sample_run_def
      run_index.wf_def artifact_index.wf_def chunk_index.wf_def restore_index.wf_def
      unique_ids_def run_ok_def alerts_wf_def single_firing_def run_in_flight_def)

definition claimed_db :: db where
  "claimed_db = fst (ClaimRun sample_bcrypt no_faults Some ''Bearer secret'' (Some ''g1'') 5 (Some ''r1'') pending_db)"

theorem claim_exclusive_witness:
  "status_code (snd (ClaimRun sample_bcrypt no_faults Some ''Bearer secret'' (Some ''g1'') 6 (Some ''r1'') claimed_db)) \<noteq> 200"
proof -
  let ?c = "ClaimRun sample_bcrypt no_faults Some ''Bearer secret'' (Some ''g1'') 5 (Some ''r1'') pending_db"
  have "(case snd ?c of Reply n b \<Rightarrow> n = 200 | Fail n m \<Rightarrow> False)" by code_simp
  then obtain b where "snd ?c = Reply 200 b" by (cases "snd ?c") simp_all
  then have c: "?c = (claimed_db, Reply 200 b)" unfolding claimed_db_def by (metis prod.collapse)
  have "db_wf claimed_db"
    using ClaimRun_step pending_db_wf unfolding claimed_db_def db_step_def by blast
  moreover have "db_later claimed_db claimed_db" by (simp add: db_later_def tables_refl)
  ultimately show ?thesis using claim_exclusive [OF c] by blast
qed

text \<open>Cancelling: a cancelled run is reported as such, any other finished run is refused, and both are
  left alone; a run in flight gets its cancel flag, becomes cancelled at once if nobody had claimed
  it and keeps its status otherwise, and the agent is told.\<close>

theorem cancel_outcome:
  assumes wf: "db_wf d" and r: "find_run org i d = Some r"
  shows "let (d', rep) = Cancel wb now auid who org (Some i) d in
     if run_Status r = RunCancelled then d' = d \<and> rep = Reply 200 RunCancelled
     else if \<not> run_in_flight (run_Status r) then d' = d \<and> status_code rep = 400
     else rep = Reply 200 RunCancelled \<and>
       db_runs d' = map (\<lambda>x. if x = r then r\<lparr>run_CancelRequested := True, UpdatedAt := now,
           run_Status := (if run_Status r = RunPending then RunCancelled else run_Status r)\<rparr> else x) (db_runs d) \<and>
       GrpcCancelBackup (run_AgentID r) (ID r) \<in> set (outbox d') \<and>
       (run_Status r \<noteq> RunPending \<longrightarrow> AgentCancel (run_AgentID r) (ID r) \<in> set (outbox d'))"
proof -
  note rD = find_run_SomeD [OF r]
  let ?f = "cancel_row (run_Status r)"
  have up: "update_rows now (\<lambda>x. ID x = ID r) ?f (db_runs d) =
      map (\<lambda>x. if x = r then (?f r)\<lparr>UpdatedAt := now\<rparr> else x) (db_runs d)"
    using wf rD by (intro update_by_id) (auto simp: db_wf_def)
  have row: "(?f r)\<lparr>UpdatedAt := now\<rparr> = r\<lparr>run_CancelRequested := True, UpdatedAt := now,
      run_Status := (if run_Status r = RunPending then RunCancelled else run_Status r)\<rparr>"
    by (simp add: cancel_row_def)
  note code = Cancel_def r option.case Let_def publishRun_def can_cancel_iff up row
  consider "run_Status r = RunCancelled" | "\<not> run_in_flight (run_Status r)" "run_Status r \<noteq> RunCancelled"
    | "run_in_flight (run_Status r)" by blast
  then show ?thesis
  proof cases
    case 3
    then have "run_Status r \<noteq> RunCancelled" by (auto simp: run_in_flight_def)
    with 3 show ?thesis unfolding code by simp
  qed (simp_all add: Cancel_def r can_cancel_iff)
qed

theorem cancel_outcome_witness:
  "run_Status (hd (db_runs (fst (Cancel True 9 ''x'' (''u1'', ''10.0.0.9'') ''o1'' (Some ''r1'') pending_db)))) = RunCancelled"
proof -
  have "find_run ''o1'' ''r1'' pending_db = Some sample_run" by code_simp
  from cancel_outcome [OF pending_db_wf this, of True 9 "''x''" "(''u1'', ''10.0.0.9'')"]
  show ?thesis by (simp add: sample_run_def run_in_flight_def pending_db_def split: prod.splits)
qed


text \<open>Registering an artifact is idempotent: once a registration has succeeded, a retry for the same run
  and name, with whatever contents, returns the recorded artifact and adds nothing.\<close>

theorem register_artifact_idempotent:
  assumes first: "RegisterArtifact flt now nid ag (Some i) (Some p) d = (d1, Reply n a)"
    and q: "ar_Name q = ar_Name p" "0 \<le> ar_Size q"
  shows "RegisterArtifact flt' now' nid' ag (Some i) (Some q) d1 = (d1, Reply 200 a)"
proof -
  obtain r where r: "find_agent_run (ID ag) i d = Some r" and name: "ar_Name p \<noteq> ''''"
    using first by (auto simp: RegisterArtifact_def split: option.splits if_splits)
  have i: "ID r = i" using find_agent_run_SomeD [OF r] by simp
  have "find_agent_run (ID ag) i d1 = Some r \<and> artifact_for i (ar_Name p) d1 = Some a"
  proof (cases "artifact_for i (ar_Name p) d")
    case (Some x)
    then show ?thesis using first r name by (auto simp: RegisterArtifact_def split: if_splits)
  next
    case None
    let ?a = "new_artifact now nid r p"
    let ?cr = "if flt ''create artifact'' then None else create_row now artifact_clash ?a (db_artifacts d)"
    obtain t where cr: "?cr = Some t"
      using first r name None by (cases ?cr) (simp_all add: RegisterArtifact_def split: if_splits)
    then have t: "create_row now artifact_clash ?a (db_artifacts d) = Some t" "d1 = d\<lparr>db_artifacts := t\<rparr>" "a = ?a"
      using first r name None by (simp_all add: RegisterArtifact_def split: if_splits)
    have stamped: "?a\<lparr>CreatedAt := now, UpdatedAt := now, DeletedAt := None\<rparr> = ?a" "live ?a"
      "art_BackupRunID ?a = i" "art_Name ?a = ar_Name p"
      by (simp_all add: new_artifact_def live_def i)
    have "t = db_artifacts d @ [?a]" using create_row_SomeD(1) [OF t(1)] stamped(1) by simp
    moreover have "List.find (\<lambda>r. live r \<and> art_BackupRunID r = i \<and> art_Name r = ar_Name p) (xs @ [?a]) = Some ?a"
      if "List.find (\<lambda>r. live r \<and> art_BackupRunID r = i \<and> art_Name r = ar_Name p) xs = None" for xs
      using that stamped by (induction xs) (auto split: if_splits)
    ultimately show ?thesis using r None t by (simp add: artifact_for_def first_row_def find_agent_run_def)
  qed
  then show ?thesis using q name by (simp add: RegisterArtifact_def)
qed

lemma update_rows_member:
  "a \<in> set (update_rows now P f t) \<Longrightarrow> \<exists>x\<in>set t. a = (if live x \<and> P x then (f x)\<lparr>UpdatedAt := now\<rparr> else x)"
  unfolding update_rows_def by force

definition sample_artifact_request :: artifact_request where
  "sample_artifact_request = \<lparr>ar_Name = ''a.zip'', ar_Size = 7, ar_Checksum = ''cd'', ar_StoragePath = ''/backups/a.zip''\<rparr>"

theorem register_artifact_idempotent_witness:
  "\<exists>d1 a. RegisterArtifact no_faults 6 ''a1'' sample_agent (Some ''r1'') (Some sample_artifact_request) pending_db
       = (d1, Reply 201 a) \<and>
     RegisterArtifact no_faults 7 ''a2'' sample_agent (Some ''r1'') (Some sample_artifact_request) d1 = (d1, Reply 200 a)"
proof -
  let ?f = "RegisterArtifact no_faults 6 ''a1'' sample_agent (Some ''r1'') (Some sample_artifact_request) pending_db"
  have "(case snd ?f of Reply n a \<Rightarrow> n = 201 | Fail n m \<Rightarrow> False)" by code_simp
  then obtain a where "snd ?f = Reply 201 a" by (cases "snd ?f") simp_all
  then have f: "?f = (fst ?f, Reply 201 a)" by (metis prod.collapse)
  have "RegisterArtifact no_faults 7 ''a2'' sample_agent (Some ''r1'') (Some sample_artifact_request) (fst ?f)
      = (fst ?f, Reply 200 a)"
    by (rule register_artifact_idempotent [OF f]) (simp_all add: sample_artifact_request_def)
  with f show ?thesis by blast
qed

text \<open>A chunk's content cannot be replaced: once chunk \<open>index\<close> of an artifact is recorded, a later
  registration of that index is answered with the recorded chunk when the checksum agrees and is
  refused with 409 when it does not; either way nothing changes.\<close>

theorem chunk_content_fixed:
  assumes first: "RegisterChunk flt now nid ag (Some aid) (Some p) d = (d1, Reply n c)"
    and q: "cr_Index q = cr_Index p" "0 \<le> cr_Size q"
  shows "chk_Checksum c = cr_Checksum p \<and>
     RegisterChunk flt' now' nid' ag (Some aid) (Some q) d1 =
       (d1, if cr_Checksum q = cr_Checksum p then Reply 200 c
            else Fail 409 ''chunk already exists with a different checksum'')"
proof -
  obtain a r where a: "first_row (\<lambda>a. ID a = aid) (db_artifacts d) = Some a"
    and r: "find_agent_run (ID ag) (art_BackupRunID a) d = Some r" and ix: "\<not> (cr_Index p < 0 \<or> cr_Size p < 0)"
    using first by (auto simp: RegisterChunk_def split: option.splits if_splits)
  have keep: "first_row (\<lambda>a. ID a = aid) (db_artifacts d1) = Some a \<and>
      find_agent_run (ID ag) (art_BackupRunID a) d1 = Some r \<and> chunk_for aid (cr_Index p) d1 = Some c \<and>
      chk_Checksum c = cr_Checksum p"
  proof (cases "chunk_for aid (cr_Index p) d")
    case (Some x)
    then show ?thesis using first a r ix by (auto simp: RegisterChunk_def split: if_splits)
  next
    case None
    define k where "k = \<lparr>ID = nid, CreatedAt = now, UpdatedAt = now, DeletedAt = None,
                chk_ArtifactID = aid, chk_Index = cr_Index p, chk_Size = cr_Size p,
                chk_Checksum = cr_Checksum p, chk_StoragePath = cr_StoragePath p, chk_Uploaded = cr_Uploaded p\<rparr>"
    let ?cr = "if flt ''create chunk'' then None else create_row now chunk_clash k (db_chunks d)"
    obtain t where cr: "?cr = Some t"
      using first a r ix None by (cases ?cr) (simp_all add: RegisterChunk_def k_def [symmetric])
    then have t: "create_row now chunk_clash c (db_chunks d) = Some t" "d1 = d\<lparr>db_chunks := t\<rparr>" and c: "c = k"
      using first a r ix None by (simp_all add: RegisterChunk_def k_def [symmetric] split: if_splits)
    note c = c [unfolded k_def]
    have "t = db_chunks d @ [c]" using create_row_SomeD(1) [OF t(1)] c by simp
    moreover have "List.find (\<lambda>x. live x \<and> chk_ArtifactID x = aid \<and> chk_Index x = cr_Index p) (xs @ [c]) = Some c"
      if "List.find (\<lambda>x. live x \<and> chk_ArtifactID x = aid \<and> chk_Index x = cr_Index p) xs = None" for xs
      using that c by (induction xs) (auto simp: live_def split: if_splits)
    ultimately show ?thesis using a r None t c
      by (simp add: chunk_for_def first_row_def find_agent_run_def)
  qed
  then show ?thesis using q ix by (simp add: RegisterChunk_def)
qed

definition artifact_db :: db where
  "artifact_db = fst (RegisterArtifact no_faults 6 ''a1'' sample_agent (Some ''r1'') (Some sample_artifact_request) pending_db)"

definition sample_chunk_request :: chunk_request where
  "sample_chunk_request = \<lparr>cr_Index = 0, cr_Size = 4, cr_Checksum = ''c0'', cr_StoragePath = ''/backups/a.0'', cr_Uploaded = True\<rparr>"

theorem chunk_content_fixed_witness:
  "\<exists>d1 c. RegisterChunk no_faults 7 ''k1'' sample_agent (Some ''a1'') (Some sample_chunk_request) artifact_db
       = (d1, Reply 201 c) \<and>
     RegisterChunk no_faults 8 ''k2'' sample_agent (Some ''a1'') (Some (sample_chunk_request\<lparr>cr_Checksum := ''zz''\<rparr>)) d1
       = (d1, Fail 409 ''chunk already exists with a different checksum'')"
proof -
  let ?f = "RegisterChunk no_faults 7 ''k1'' sample_agent (Some ''a1'') (Some sample_chunk_request) artifact_db"
  have "(case snd ?f of Reply n a \<Rightarrow> n = 201 | Fail n m \<Rightarrow> False)" by code_simp
  then obtain c where "snd ?f = Reply 201 c" by (cases "snd ?f") simp_all
  then have f: "?f = (fst ?f, Reply 201 c)" by (metis prod.collapse)
  have "RegisterChunk no_faults 8 ''k2'' sample_agent (Some ''a1'') (Some (sample_chunk_request\<lparr>cr_Checksum := ''zz''\<rparr>)) (fst ?f)
       = (fst ?f, Fail 409 ''chunk already exists with a different checksum'')"
    using chunk_content_fixed [OF f, of "sample_chunk_request\<lparr>cr_Checksum := ''zz''\<rparr>"]
    by (simp add: sample_chunk_request_def)
  with f show ?thesis by blast
qed

text \<open>Verification records what it finds: when it answers 200, every artifact of the run carries the
  verdict (verified exactly when the stored file's hash is the recorded checksum, in lower case),
  the run itself is untouched, and a mismatch leaves a firing alert for the run.\<close>

theorem verify_records_verdict:
  assumes ok: "Verify e flt file_sum now nid org (Some i) d = (d', Reply n v)"
    and flt: "\<not> flt ''coalesce''" "\<not> flt ''create alert''" and fresh: "\<forall>a\<in>set (db_alerts d). ID a \<noteq> nid"
  shows "\<exists>r digest. find_run org i d = Some r \<and> file_sum (run_StoragePath r) = Some digest \<and>
     db_runs d' = db_runs d \<and>
     (\<forall>a\<in>set (db_artifacts d'). live a \<and> art_BackupRunID a = i \<longrightarrow>
        art_VerifiedAt a = Some now \<and>
        art_VerificationStatus a = (if digest = to_lower (run_Checksum r) then ArtifactVerified else ArtifactVerifyFail)) \<and>
     (digest \<noteq> to_lower (run_Checksum r) \<longrightarrow>
        (\<exists>a\<in>set (db_alerts d'). live a \<and> firing_for (run_OrganizationID r) (''verify-failed:run:'' @ i) a))"
proof -
  have find: "find_run org i d \<noteq> None" using ok by (auto simp: Verify_def split: option.splits)
  then obtain r where r: "find_run org i d = Some r" by blast
  have i: "ID r = i" using find_run_SomeD [OF r] by simp
  obtain digest where s: "file_sum (run_StoragePath r) = Some digest"
  proof (cases "file_sum (run_StoragePath r)")
    case None
    then show ?thesis using ok r by (simp add: Verify_def split: option.splits if_splits)
  qed (rule that)
  have arts: "\<forall>a\<in>set (db_artifacts (stamp_artifacts now i st d)). live a \<and> art_BackupRunID a = i \<longrightarrow>
      art_VerifiedAt a = Some now \<and> art_VerificationStatus a = st" for st
  proof (intro ballI impI)
    fix a assume "a \<in> set (db_artifacts (stamp_artifacts now i st d))" and a: "live a \<and> art_BackupRunID a = i"
    then have "a \<in> set (update_rows now (\<lambda>a. art_BackupRunID a = i)
        (\<lambda>a. a\<lparr>art_VerificationStatus := st, art_VerifiedAt := Some now\<rparr>) (db_artifacts d))"
      by (simp add: stamp_artifacts_def)
    then obtain x where "a = (if live x \<and> art_BackupRunID x = i
        then x\<lparr>art_VerificationStatus := st, art_VerifiedAt := Some now, UpdatedAt := now\<rparr> else x)"
      using update_rows_member by blast
    then show "art_VerifiedAt a = Some now \<and> art_VerificationStatus a = st"
      using a by (cases "live x \<and> art_BackupRunID x = i") simp_all
  qed
  have frame: "db_runs (fst (RaiseAlert e flt now nid x y)) = db_runs y"
    "db_artifacts (fst (RaiseAlert e flt now nid x y)) = db_artifacts y" for x y
    using RaiseAlert_frame by (simp_all add: only_alerts_def)
  have keep: "db_runs (stamp_artifacts now i st d) = db_runs d" "db_alerts (stamp_artifacts now i st d) = db_alerts d" for st
    by (simp_all add: stamp_artifacts_def)
  show ?thesis
  proof (cases "digest = to_lower (run_Checksum r)")
    case True
    then have "d' = stamp_artifacts now i ArtifactVerified d"
      using ok r s i by (auto simp: Verify_def split: option.splits if_splits)
    then show ?thesis using r s True arts keep by simp
  next
    case False
    let ?v = "verify_input r digest"
    have d': "d' = fst (RaiseAlert e flt now nid ?v (stamp_artifacts now i ArtifactVerifyFail d))"
      using ok r s i False by (auto simp: Verify_def split: option.splits if_splits)
    have "\<exists>a\<in>set (db_alerts d'). live a \<and> firing_for (in_OrgID ?v) (in_DedupKey ?v) a"
      unfolding d' using flt fresh by (intro RaiseAlert_fires) (simp_all add: keep verify_input_def)
    then have "\<exists>a\<in>set (db_alerts d'). live a \<and> firing_for (run_OrganizationID r) (''verify-failed:run:'' @ i) a"
      by (simp add: verify_input_def i)
    then show ?thesis using r s False arts keep frame d' by simp
  qed
qed

theorem verify_records_verdict_witness:
  "\<exists>a\<in>set (db_alerts (fst (Verify sample_env no_faults (\<lambda>_. Some ''ff'') 9 ''n1'' ''o1'' (Some ''r1'') (run_db RunCompleted)))).
     live a \<and> firing_for ''o1'' ''verify-failed:run:r1'' a"
proof -
  let ?f = "Verify sample_env no_faults (\<lambda>_. Some ''ff'') 9 ''n1'' ''o1'' (Some ''r1'') (run_db RunCompleted)"
  let ?r = "sample_run\<lparr>run_Status := RunCompleted, run_CompletedAt := Some 4, run_StartedAt := Some 2,
      run_Checksum := ''ab''\<rparr>"
  have "snd ?f = Reply 200 (VerifyMismatch ''ab'' ''ff'')" by code_simp
  then have f: "?f = (fst ?f, Reply 200 (VerifyMismatch ''ab'' ''ff''))" by (metis prod.collapse)
  have r: "find_run ''o1'' ''r1'' (run_db RunCompleted) = Some ?r" by code_simp
  have ne: "''ff'' \<noteq> to_lower (run_Checksum ?r)" by code_simp
  have "\<forall>a\<in>set (db_alerts (run_db RunCompleted)). ID a \<noteq> ''n1''"
    by (simp add: run_db_def sample_agent_db_def empty_db_def)
  from verify_records_verdict [OF f _ _ this] r ne show ?thesis
    by (auto simp: no_faults_def sample_run_def)
qed

end
