(* ===== verification/Scheduler.thy ===== *)
theory Scheduler
  imports Runs "HOL-Library.List_Lexorder" "HOL-Library.Char_ord"
begin

text \<open>
  \<open>server/internal/services/scheduler.go\<close>: due cron boundaries become pending runs, failed runs
  are retried as new linked runs, and a job never accumulates a backlog.

  The cron library is the parameter \<open>cron\<close>: \<open>cron expr = None\<close> when the expression does not
  parse, otherwise \<open>cron expr = Some next\<close>, where \<open>next loc t\<close> is \<open>Schedule.Next\<close> in the
  location \<open>loc\<close>.  \<open>tz_ok\<close> says which time zone names load.  \<open>ids j k\<close> are the identifiers
  drawn while job \<open>j\<close> is handled.
\<close>

subsection \<open>Boundaries\<close>

type_synonym cron = "string \<Rightarrow> (string \<Rightarrow> time \<Rightarrow> time) option"

definition boundaryFor :: "cron \<Rightarrow> (string \<Rightarrow> bool) \<Rightarrow> string \<Rightarrow> string \<Rightarrow> time \<Rightarrow> time \<Rightarrow> time option" where
  "boundaryFor cron tz_ok expr tz prev now =
     (if expr = '''' then None
      else (case cron expr of
              None \<Rightarrow> None
            | Some sched \<Rightarrow>
                let loc = (if tz \<noteq> '''' \<and> tz_ok tz then tz else ''UTC'');
                    nxt = sched loc prev
                in if now < nxt then None else Some nxt))"

definition boundary :: "cron \<Rightarrow> (string \<Rightarrow> bool) \<Rightarrow> backup_job \<Rightarrow> time \<Rightarrow> time \<Rightarrow> time option" where
  "boundary cron tz_ok job prev now =
     (case job_Schedule job of
        None \<Rightarrow> None
      | Some s \<Rightarrow> boundaryFor cron tz_ok (sch_CronExpr s) (sch_Timezone s) prev now)"

definition due :: "cron \<Rightarrow> (string \<Rightarrow> bool) \<Rightarrow> backup_job \<Rightarrow> time \<Rightarrow> time \<Rightarrow> bool" where
  "due cron tz_ok job prev now \<longleftrightarrow> boundary cron tz_ok job prev now \<noteq> None"

subsection \<open>New runs\<close>

definition new_run :: "time \<Rightarrow> uuid \<Rightarrow> backup_job \<Rightarrow> time option \<Rightarrow> uuid option \<Rightarrow> int \<Rightarrow> backup_run" where
  "new_run now nid job scheduled retry_of attempt =
     \<lparr>ID = nid, CreatedAt = now, UpdatedAt = now, DeletedAt = None,
      run_OrganizationID = job_OrganizationID job, run_BackupJobID = ID job,
      run_AgentID = job_AgentID job, run_StorageTargetID = job_StorageTargetID job,
      run_Status = RunPending, run_ScheduledFor = scheduled, run_CancelRequested = False,
      run_RetryOfRunID = retry_of, run_RetryAttempt = attempt, run_StartedAt = None,
      run_CompletedAt = None, run_BytesRead = 0, run_BytesCompressed = 0, run_BytesUploaded = 0,
      run_DurationSeconds = 0, run_SourceType = job_SourceType job, run_ErrorMessage = '''',
      run_FailureCategory = '''', run_StoragePath = '''', run_Checksum = '''', run_DataKeyEncrypted = ''''\<rparr>"

text \<open>\<open>ORDER BY created_at DESC, id LIMIT 1\<close>.\<close>

definition latest_run :: "uuid \<Rightarrow> db \<Rightarrow> backup_run option" where
  "latest_run jid d =
     (case rows (\<lambda>r. run_BackupJobID r = jid) (db_runs d) of
        [] \<Rightarrow> None
      | r # rs \<Rightarrow> Some (fold (\<lambda>x best.
            if CreatedAt best < CreatedAt x \<or> CreatedAt best = CreatedAt x \<and> ID x < ID best then x else best) rs r))"

definition retry_delay :: "resolved_policy \<Rightarrow> duration" where
  "retry_delay eff = (if rp_RetryDelaySeconds eff \<le> 0 then 300 else rp_RetryDelaySeconds eff) * second"

definition maybeFire ::
    "faults \<Rightarrow> time \<Rightarrow> uuid \<Rightarrow> backup_job \<Rightarrow> resolved_policy \<Rightarrow> db \<Rightarrow> db \<times> string option" where
  "maybeFire flt now nid job eff d =
     (if \<not> rp_Enabled eff \<or> rp_MaxRetries eff \<le> 0 then (d, None)
      else if flt ''count runs'' then (d, Some ''count failed'')
      else if in_flight_count (ID job) d > 0 then (d, None)
      else if flt ''latest run'' then (d, Some ''query failed'')
      else (case latest_run (ID job) d of
              None \<Rightarrow> (d, None)
            | Some latest \<Rightarrow>
                if run_Status latest \<noteq> RunFailed then (d, None)
                else if run_RetryAttempt latest \<ge> rp_MaxRetries eff then (d, None)
                else (case run_CompletedAt latest of
                        None \<Rightarrow> (d, None)
                      | Some c \<Rightarrow>
                          if now - c < retry_delay eff then (d, None)
                          else (case (if flt ''create run'' then None
                                      else create_row now run_clash
                                        (new_run now nid job None (Some (ID latest)) (run_RetryAttempt latest + 1))
                                        (db_runs d)) of
                                  None \<Rightarrow> (d, Some ''create failed'')
                                | Some t \<Rightarrow> (emit (GrpcRunBackup (job_AgentID job) nid (ID job)) (d\<lparr>db_runs := t\<rparr>), None)))))"

text \<open>
  The insertion ignores a conflict on the job's boundary.  It is separate from the in-flight
  check because another scheduler may act between the two.
\<close>

definition fire_insert :: "faults \<Rightarrow> time \<Rightarrow> uuid \<Rightarrow> backup_job \<Rightarrow> time \<Rightarrow> db \<Rightarrow> db" where
  "fire_insert flt now nid job scheduledFor d =
     (case (if flt ''create run'' then None
            else create_row now run_clash (new_run now nid job (Some scheduledFor) None 0) (db_runs d)) of
        None \<Rightarrow> d
      | Some t \<Rightarrow> emit (GrpcRunBackup (job_AgentID job) nid (ID job)) (d\<lparr>db_runs := t\<rparr>))"

definition fire :: "faults \<Rightarrow> time \<Rightarrow> uuid \<Rightarrow> backup_job \<Rightarrow> time \<Rightarrow> db \<Rightarrow> db" where
  "fire flt now nid job scheduledFor d =
     (if in_flight_count (ID job) d > 0 then d else fire_insert flt now nid job scheduledFor d)"

definition tick_job ::
    "faults \<Rightarrow> cron \<Rightarrow> (string \<Rightarrow> bool) \<Rightarrow> (uuid \<Rightarrow> nat \<Rightarrow> uuid) \<Rightarrow> time \<Rightarrow> time \<Rightarrow> backup_job \<Rightarrow> db \<Rightarrow> db" where
  "tick_job flt cron tz_ok ids prev now job d =
     (let eff = EffectivePolicy job in
      if \<not> rp_Enabled eff then d
      else let d1 = fst (maybeFire flt now (ids (ID job) 0) job eff d) in
        if rp_CronExpr eff = '''' then d1
        else (case boundaryFor cron tz_ok (rp_CronExpr eff) (rp_Timezone eff) prev now of
                None \<Rightarrow> d1
              | Some b \<Rightarrow> fire flt now (ids (ID job) 1) job b d1))"

text \<open>One tick; the first component is the scheduler's \<open>lastTick\<close>.\<close>

definition tick ::
    "faults \<Rightarrow> cron \<Rightarrow> (string \<Rightarrow> bool) \<Rightarrow> (uuid \<Rightarrow> nat \<Rightarrow> uuid) \<Rightarrow> time \<Rightarrow> time \<times> db \<Rightarrow> time \<times> db" where
  "tick flt cron tz_ok ids now s =
     (now,
      if flt ''list jobs'' then snd s
      else fold (tick_job flt cron tz_ok ids (fst s) now)
             (map (preload_job (snd s)) (rows job_Enabled (db_jobs (snd s)))) (snd s))"

subsection \<open>Ticks are steps of the database\<close>

lemma create_run_step:
  assumes "create_row now run_clash (new_run now nid job sch retry att) (db_runs d) = Some t"
  shows "db_step d (d\<lparr>db_runs := t\<rparr>)"
  by (intro db_step_runs run_table.evolves_create [OF assms] run_index.wf_create [OF _ assms])
     (simp_all add: new_run_def run_ok_def run_in_flight_def)

lemma maybeFire_step: "db_step d (fst (maybeFire flt now nid job eff d))"
  by (auto simp: maybeFire_def split: option.split intro: create_run_step)

lemma fire_step: "db_step d (fire flt now nid job b d)"
  by (auto simp: fire_def fire_insert_def split: option.split intro: create_run_step)

lemma tick_job_step: "db_step d (tick_job flt cron tz_ok ids prev now job d)"
  by (auto simp: tick_job_def Let_def split: option.split
      intro: maybeFire_step db_step_trans [OF maybeFire_step fire_step])

lemma fold_step: "(\<And>x d. db_step d (f x d)) \<Longrightarrow> db_step d (fold f xs d)"
  by (induction xs arbitrary: d) (auto intro: db_step_trans)

lemma tick_step: "db_step (snd s) (snd (tick flt cron tz_ok ids now s))"
  by (simp add: tick_def fold_step tick_job_step)

subsection \<open>At most one run in flight per job\<close>

definition single_flight :: "db \<Rightarrow> bool" where
  "single_flight d \<longleftrightarrow> (\<forall>r\<in>set (db_runs d). in_flight_count (run_BackupJobID r) d \<le> 1)"

lemma in_flight_le1: "single_flight d \<Longrightarrow> in_flight_count j d \<le> 1"
proof (cases "in_flight_count j d = 0")
  case False
  then obtain r where "r \<in> set (db_runs d)" "run_BackupJobID r = j"
    by (auto simp: in_flight_count_def affected_0_iff)
  then show "single_flight d \<Longrightarrow> ?thesis" by (auto simp: single_flight_def)
qed simp

lemma single_flightI: "(\<And>j. in_flight_count j d \<le> 1) \<Longrightarrow> single_flight d"
  by (simp add: single_flight_def)

lemma single_flight_create:
  assumes "single_flight d" and "create_row now run_clash (new_run now nid job sch retry att) (db_runs d) = Some t"
    and "in_flight_count (ID job) d = 0"
  shows "single_flight (d\<lparr>db_runs := t\<rparr>)"
proof (rule single_flightI)
  fix j
  have "in_flight_count j (d\<lparr>db_runs := t\<rparr>) = in_flight_count j d + (if j = ID job then 1 else 0)"
    using create_row_SomeD(1) [OF assms(2)]
    by (auto simp: in_flight_count_def affected_def rows_def new_run_def live_def run_in_flight_def)
  then show "in_flight_count j (d\<lparr>db_runs := t\<rparr>) \<le> 1"
    using assms(3) in_flight_le1 [OF assms(1), of j] by auto
qed

lemma single_flight_emit [simp]: "single_flight (emit e d) = single_flight d"
  by (simp add: single_flight_def in_flight_count_def)

lemma maybeFire_single: "single_flight d \<Longrightarrow> single_flight (fst (maybeFire flt now nid job eff d))"
  by (auto simp: maybeFire_def split: option.split intro: single_flight_create)

lemma fire_single: "single_flight d \<Longrightarrow> single_flight (fire flt now nid job b d)"
  by (auto simp: fire_def fire_insert_def split: option.split intro: single_flight_create)

lemma tick_job_single: "single_flight d \<Longrightarrow> single_flight (tick_job flt cron tz_ok ids prev now job d)"
  by (auto simp: tick_job_def Let_def maybeFire_single fire_single split: option.split)

lemma fold_inv: "(\<And>x d. P d \<Longrightarrow> P (f x d)) \<Longrightarrow> P d \<Longrightarrow> P (fold f xs d)"
  by (induction xs arbitrary: d) auto


subsection \<open>Properties\<close>

definition sample_job :: backup_job where
  "sample_job = zero_job\<lparr>ID := ''j1'', job_OrganizationID := ''o1'', job_AgentID := ''g1'',
     job_StorageTargetID := ''s1'', job_Enabled := True, job_PolicyID := Some ''p1''\<rparr>"

definition sample_policy :: backup_policy where
  "sample_policy = \<lparr>ID = ''p1'', CreatedAt = 0, UpdatedAt = 0, DeletedAt = None,
     pol_OrganizationID = ''o1'', pol_Name = ''hourly'', pol_Strategy = StrategyFull,
     pol_CronExpr = ''* * * * *'', pol_Timezone = '''', pol_Enabled = True, pol_Mode = ModeCompressed,
     pol_Encrypted = True, pol_RetentionDays = 30, pol_VerificationEnabled = True, pol_MaxRetries = 2,
     pol_RetryDelaySeconds = 60, pol_SLATargetMinutes = 0, pol_RPOTargetMinutes = 0, pol_RTOTargetMinutes = 0\<rparr>"

definition every_minute :: cron where
  "every_minute e = (if e = ''* * * * *'' then Some (\<lambda>_ t. (t div minute + 1) * minute) else None)"

definition sched_db :: "backup_run list \<Rightarrow> db" where
  "sched_db rs = sample_agent_db\<lparr>db_jobs := [sample_job], db_policies := [sample_policy], db_runs := rs\<rparr>"

lemma sched_db_wf: "run_index.wf rs \<Longrightarrow> db_wf (sched_db rs)"
  using sample_agent_db_wf
  by (auto simp: db_wf_def sched_db_def sample_agent_db_def empty_db_def
      artifact_index.wf_def chunk_index.wf_def restore_index.wf_def
      unique_ids_def alerts_wf_def single_firing_def)

text \<open>A schedule fires on the first fire time of the window: when the cron library's \<open>Next\<close> is the
  least fire time after its argument, \<open>boundaryFor\<close> returns exactly the earliest fire time after
  the last tick, and only when it is not in the future.\<close>

theorem boundary_is_first:
  assumes parse: "expr \<noteq> ''''" "cron expr = Some sched"
    and loc: "loc = (if tz \<noteq> '''' \<and> tz_ok tz then tz else ''UTC'')"
    and least: "sched loc prev \<in> F" "prev < sched loc prev" "\<forall>x\<in>F. prev < x \<longrightarrow> sched loc prev \<le> x"
  shows "boundaryFor cron tz_ok expr tz prev now = Some b \<longleftrightarrow>
     b \<in> F \<and> prev < b \<and> b \<le> now \<and> (\<forall>x\<in>F. prev < x \<longrightarrow> b \<le> x)"
proof -
  have "boundaryFor cron tz_ok expr tz prev now = Some b \<longleftrightarrow> b = sched loc prev \<and> b \<le> now"
    using parse loc by (auto simp: boundaryFor_def Let_def)
  also have "\<dots> \<longleftrightarrow> b \<in> F \<and> prev < b \<and> b \<le> now \<and> (\<forall>x\<in>F. prev < x \<longrightarrow> b \<le> x)"
    using least by (auto intro: order.antisym)
  finally show ?thesis .
qed

theorem boundary_is_first_witness:
  "boundaryFor every_minute (\<lambda>_. False) ''* * * * *'' ''Mars/Base'' (90 * second) (150 * second) = Some (2 * minute) \<and>
   (\<forall>b. boundaryFor every_minute (\<lambda>_. False) ''* * * * *'' ''Mars/Base'' (90 * second) (100 * second) \<noteq> Some b)"
proof -
  let ?F = "range (\<lambda>k. k * minute)"
  let ?n = "\<lambda>_ t. (t div minute + 1) * minute"
  have n: "?n ''UTC'' (90 * second) = 2 * minute" by (simp add: clock_defs)
  have l: "?n ''UTC'' (90 * second) \<in> ?F" "90 * second < ?n ''UTC'' (90 * second)"
    unfolding n by (auto simp: clock_defs)
  have m: "\<forall>x\<in>?F. 90 * second < x \<longrightarrow> ?n ''UTC'' (90 * second) \<le> x"
    unfolding n by (auto simp: clock_defs)
  have e: "every_minute ''* * * * *'' = Some ?n" by (simp add: every_minute_def)
  have first: "boundaryFor every_minute (\<lambda>_. False) ''* * * * *'' ''Mars/Base'' (90 * second) now = Some b \<longleftrightarrow>
      b \<in> ?F \<and> 90 * second < b \<and> b \<le> now \<and> (\<forall>x\<in>?F. 90 * second < x \<longrightarrow> b \<le> x)" for now b
    using l m by (intro boundary_is_first [where sched = ?n and loc = "''UTC''"]) (simp_all add: e)
  have two: "2 * minute \<in> ?F" by blast
  have o: "90 * second < 2 * minute" "2 * minute \<le> 150 * second" "100 * second < 2 * minute"
    by (simp_all add: clock_defs)
  have "boundaryFor every_minute (\<lambda>_. False) ''* * * * *'' ''Mars/Base'' (90 * second) (150 * second) = Some (2 * minute)"
    unfolding first using m two o(1,2) unfolding n by blast
  moreover have "boundaryFor every_minute (\<lambda>_. False) ''* * * * *'' ''Mars/Base'' (90 * second) (100 * second) \<noteq> Some b" for b
  proof
    assume "boundaryFor every_minute (\<lambda>_. False) ''* * * * *'' ''Mars/Base'' (90 * second) (100 * second) = Some b"
    then have "b \<in> ?F" "90 * second < b" "b \<le> 100 * second" unfolding first by auto
    then have "2 * minute \<le> b" using m unfolding n by blast
    then show False using \<open>b \<le> 100 * second\<close> o(3) by simp
  qed
  ultimately show ?thesis by blast
qed

text \<open>A tick never builds a backlog: if every job has at most one run in flight before the tick, so it has
  after it, whatever retries and boundaries fired.\<close>

theorem tick_no_backlog:
  assumes "single_flight (snd s)"
  shows "single_flight (snd (tick flt cron tz_ok ids now s))"
  unfolding tick_def snd_conv
  by (cases "flt ''list jobs''") (simp_all add: assms fold_inv [where P = single_flight] tick_job_single)

theorem tick_no_backlog_witness:
  "single_flight (snd (tick no_faults every_minute (\<lambda>_. True) (\<lambda>j k. j @ ''-run'') (150 * second)
      (90 * second, sched_db [])))"
  by (rule tick_no_backlog) (simp add: single_flight_def sched_db_def)

definition ticks ::
    "cron \<Rightarrow> (string \<Rightarrow> bool) \<Rightarrow> (faults \<times> (uuid \<Rightarrow> nat \<Rightarrow> uuid) \<times> time \<times> time) list \<Rightarrow> db \<Rightarrow> db" where
  "ticks cron tz_ok ts d = fold (\<lambda>(flt, ids, prev, now) x. snd (tick flt cron tz_ok ids now (prev, x))) ts d"

lemma ticks_step: "db_step d (ticks cron tz_ok ts d)"
proof -
  have "db_step x (snd (tick flt cron tz_ok ids now (prev, x)))" for x flt ids now prev
    using tick_step [of "(prev, x)"] by simp
  then show ?thesis unfolding ticks_def by (intro fold_step) (auto split: prod.split)
qed




text \<open>Two schedulers that both passed the in-flight check still create one run: once the insertion for a
  boundary has gone through, the other instance's insertion for it neither adds a run nor
  dispatches a command.\<close>

theorem lost_race_is_silent:
  assumes fresh: "\<forall>x\<in>set (db_runs d). ID x \<noteq> nid" and flt: "\<not> flt ''create run''"
  shows "fire_insert flt' now' nid' job b (fire_insert flt now nid job b d) = fire_insert flt now nid job b d"
proof -
  have "\<exists>x\<in>set (db_runs (fire_insert flt now nid job b d)). run_clash x (new_run now' nid' job (Some b) None 0)"
  proof (cases "create_row now run_clash (new_run now nid job (Some b) None 0) (db_runs d)")
    case None
    then obtain x where "x \<in> set (db_runs d)" "run_clash x (new_run now nid job (Some b) None 0)"
      using fresh by (auto simp: create_row_def Let_def new_run_def run_clash_def split: if_splits)
    moreover have "fire_insert flt now nid job b d = d" using None by (simp add: fire_insert_def)
    ultimately show ?thesis by (auto simp: run_clash_def new_run_def intro!: bexI [of _ x])
  next
    case (Some t)
    then have "db_runs (fire_insert flt now nid job b d) = t" using flt by (simp add: fire_insert_def)
    then show ?thesis using create_row_SomeD(1) [OF Some] by (simp add: run_clash_def new_run_def)
  qed
  then have "create_row now' run_clash (new_run now' nid' job (Some b) None 0)
      (db_runs (fire_insert flt now nid job b d)) = None"
    by (auto simp: create_row_def Let_def run_clash_def new_run_def)
  then show ?thesis by (simp add: fire_insert_def [of flt'])
qed

theorem lost_race_is_silent_witness:
  "fire_insert no_faults 11 ''n2'' sample_job 60 (fire_insert no_faults 10 ''n1'' sample_job 60 (sched_db [])) =
     fire_insert no_faults 10 ''n1'' sample_job 60 (sched_db [])"
  by (rule lost_race_is_silent) (simp_all add: sched_db_def no_faults_def)

lemma fold_pick: "fold (\<lambda>x best. if P best x then x else best) rs r \<in> insert r (set rs)"
proof (induction rs arbitrary: r)
  case (Cons a rs)
  show ?case using Cons [of "if P r a then a else r"] by (auto split: if_splits)
qed simp

lemma latest_run_SomeD:
  assumes "latest_run j d = Some r"
  shows "r \<in> set (db_runs d) \<and> live r \<and> run_BackupJobID r = j"
proof -
  obtain a rs where a: "rows (\<lambda>r. run_BackupJobID r = j) (db_runs d) = a # rs"
    using assms by (auto simp: latest_run_def split: list.splits)
  then have "r \<in> insert a (set rs)"
    using assms fold_pick [of "\<lambda>best x. CreatedAt best < CreatedAt x \<or> CreatedAt best = CreatedAt x \<and> ID x < ID best" rs a]
    by (simp add: latest_run_def)
  then have "r \<in> set (rows (\<lambda>r. run_BackupJobID r = j) (db_runs d))" using a by simp
  then show ?thesis by (simp add: rows_iff)
qed

lemma maybeFire_cases:
  obtains (idle) "fst (maybeFire flt now nid job eff d) = d"
  | (retry) l c where "in_flight_count (ID job) d = 0" and "latest_run (ID job) d = Some l"
      and "run_Status l = RunFailed" and "run_RetryAttempt l < rp_MaxRetries eff"
      and "run_CompletedAt l = Some c" and "retry_delay eff \<le> now - c" and "rp_Enabled eff"
      and "db_runs (fst (maybeFire flt now nid job eff d)) =
        db_runs d @ [new_run now nid job None (Some (ID l)) (run_RetryAttempt l + 1)]"
proof (cases "fst (maybeFire flt now nid job eff d) = d")
  case False
  obtain l where l: "latest_run (ID job) d = Some l" using False
    by (cases "latest_run (ID job) d") (auto simp: maybeFire_def split: if_splits)
  obtain c where c: "run_CompletedAt l = Some c" using False l
    by (cases "run_CompletedAt l") (auto simp: maybeFire_def split: if_splits)
  let ?n = "new_run now nid job None (Some (ID l)) (run_RetryAttempt l + 1)"
  have g: "rp_Enabled eff" "in_flight_count (ID job) d = 0" "run_Status l = RunFailed"
      "run_RetryAttempt l < rp_MaxRetries eff" "retry_delay eff \<le> now - c"
    using False l c by (auto simp: maybeFire_def split: if_splits)
  obtain t where t: "create_row now run_clash ?n (db_runs d) = Some t" "\<not> flt ''create run''" using False l c
    by (cases "create_row now run_clash ?n (db_runs d)") (auto simp: maybeFire_def split: if_splits)
  have "db_runs (fst (maybeFire flt now nid job eff d)) = t"
    using False l c t by (auto simp: maybeFire_def split: if_splits)
  moreover have "t = db_runs d @ [?n]" using create_row_SomeD(1) [OF t(1)] by (simp add: new_run_def)
  ultimately show thesis using retry [OF g(2) l g(3,4) c g(5,1)] by simp
qed


definition failed_run :: backup_run where
  "failed_run = sample_run\<lparr>run_Status := RunFailed, run_CompletedAt := Some (10 * second)\<rparr>"


text \<open>An attached policy governs a job wholesale: changing any of the job's inline settings leaves the
  effective settings as they are, and the effective time zone is never empty.\<close>

theorem policy_governs_job:
  assumes "job_Policy j = Some p" and "job_PolicyID j = Some i"
  shows "EffectivePolicy (j\<lparr>job_Mode := m, job_Encrypted := en, job_RetentionDays := rd, job_Enabled := on,
       job_SLATargetMinutes := sla, job_RPOTargetMinutes := rpo, job_RTOTargetMinutes := rto\<rparr>) = EffectivePolicy j \<and>
     rp_FromPolicy (EffectivePolicy j) \<and> rp_Enabled (EffectivePolicy j) = pol_Enabled p \<and>
     rp_RetentionDays (EffectivePolicy j) = pol_RetentionDays p \<and> rp_Timezone (EffectivePolicy j) \<noteq> ''''"
  using assms by (simp add: EffectivePolicy_def Let_def split: option.split)

theorem policy_governs_job_witness:
  "rp_Mode (EffectivePolicy ((preload_job (sched_db []) sample_job)\<lparr>job_Mode := ModeNormal, job_Encrypted := False,
      job_RetentionDays := 1, job_Enabled := False, job_SLATargetMinutes := 5, job_RPOTargetMinutes := 6,
      job_RTOTargetMinutes := 7\<rparr>)) = ModeCompressed"
proof -
  let ?j = "preload_job (sched_db []) sample_job"
  have "job_Policy ?j = Some sample_policy" "job_PolicyID ?j = Some ''p1''" by code_simp+
  note governs = policy_governs_job [OF this, THEN conjunct1]
  have "rp_Mode (EffectivePolicy ?j) = ModeCompressed" by code_simp
  then show ?thesis by (simp only: governs)
qed

end
