(* ===== verification/Jobs.thy ===== *)
theory Jobs
  imports Scheduler
begin

text \<open>
  Backup jobs and policies: the handlers of \<open>handlers/backup_job.go\<close> (create, get, update,
  delete, run now, enable, disable; the list is in \<open>Listing\<close>) and of \<open>handlers/policy.go\<close>.

  \<open>parse\<close> is \<open>uuid.Parse\<close>.  The relations \<open>Agent\<close>, \<open>StorageTarget\<close> and
  \<open>Connection\<close> that a reply preloads are not part of the job record.  Where GORM omits
  zero-valued columns that have a database default, \<open>policy_defaults\<close> gives the row as inserted.
\<close>

subsection \<open>Requests\<close>

record job_request =
  jq_AgentID :: string
  jq_StorageTargetID :: string
  jq_Name :: string
  jq_SourceType :: string
  jq_ConnectionID :: string
  jq_SourcePath :: string
  jq_SourceDatabase :: string
  jq_IncludePatterns :: string
  jq_ExcludePatterns :: string
  jq_Mode :: string
  jq_Encrypted :: bool
  jq_RetentionDays :: int
  jq_ExportFormat :: string
  jq_CronExpr :: string
  jq_Timezone :: string
  jq_PolicyID :: string
  jq_SLATargetMinutes :: int
  jq_RPOTargetMinutes :: int
  jq_RTOTargetMinutes :: int

text \<open>\<open>binding:"required"\<close> refuses empty fields.\<close>

definition bind_job :: "job_request option \<Rightarrow> job_request option" where
  "bind_job req =
     (case req of
        None \<Rightarrow> None
      | Some q \<Rightarrow> if jq_AgentID q = '''' \<or> jq_StorageTargetID q = '''' \<or> jq_Name q = '''' \<or> jq_SourceType q = ''''
                  then None else Some q)"

definition normalizeExportFormat :: "string \<Rightarrow> string \<Rightarrow> string + string" where
  "normalizeExportFormat sourceType raw =
     (let f = to_upper (trim_space raw); format = (if f = '''' then ''ARCHIVE'' else f) in
      if sourceType = ''MONGODB'' then
        (if format \<in> {''ARCHIVE'', ''JSON'', ''CSV''} then Inr format
         else Inl ''export_format must be ARCHIVE, JSON, or CSV'')
      else if raw \<noteq> '''' then Inl ''export_format only applies to MONGODB jobs''
      else Inr format)"

definition isDatabaseSource :: "string \<Rightarrow> bool" where
  "isDatabaseSource t \<longleftrightarrow> t \<in> {''POSTGRES'', ''MONGODB'', ''SQL_SERVER'', ''MSSQL_SERVER''}"

subsection \<open>Creating and updating a job\<close>

definition org_connection :: "uuid \<Rightarrow> uuid \<Rightarrow> db \<Rightarrow> database_connection option" where
  "org_connection org c d = first_row (\<lambda>x. ID x = c \<and> conn_OrganizationID x = org) (db_conns d)"

definition org_policy :: "uuid \<Rightarrow> uuid \<Rightarrow> db \<Rightarrow> backup_policy option" where
  "org_policy org p d = first_row (\<lambda>x. ID x = p \<and> pol_OrganizationID x = org) (db_policies d)"

definition job_connection ::
    "(string \<Rightarrow> uuid option) \<Rightarrow> uuid \<Rightarrow> uuid \<Rightarrow> job_request \<Rightarrow> db \<Rightarrow> string + uuid option" where
  "job_connection parse org aid q d =
     (if trim_space (jq_ConnectionID q) \<noteq> '''' then
        (case parse (jq_ConnectionID q) of
           None \<Rightarrow> Inl ''invalid connection_id''
         | Some c \<Rightarrow>
             (case org_connection org c d of
                None \<Rightarrow> Inl ''connection not found in this organization''
              | Some x \<Rightarrow>
                  if isDatabaseSource (jq_SourceType q) \<and> conn_AgentID x \<noteq> aid
                  then Inl ''connection belongs to a different agent; select the connection's agent''
                  else Inr (Some c)))
      else if isDatabaseSource (jq_SourceType q) \<and> trim_space (jq_SourceDatabase q) = ''''
      then Inl ''source_database is required for database jobs''
      else Inr None)"

definition job_policy_ref :: "(string \<Rightarrow> uuid option) \<Rightarrow> uuid \<Rightarrow> job_request \<Rightarrow> db \<Rightarrow> string + uuid option" where
  "job_policy_ref parse org q d =
     (if trim_space (jq_PolicyID q) = '''' then Inr None
      else (case parse (jq_PolicyID q) of
        None \<Rightarrow> Inl ''invalid policy_id''
      | Some p \<Rightarrow> (case org_policy org p d of
          None \<Rightarrow> Inl ''policy not found in this organization''
        | Some _ \<Rightarrow> Inr (Some p))))"

definition new_job ::
    "time \<Rightarrow> uuid \<Rightarrow> uuid \<Rightarrow> uuid \<Rightarrow> uuid \<Rightarrow> uuid option \<Rightarrow> uuid option \<Rightarrow> string \<Rightarrow> job_request \<Rightarrow> backup_job" where
  "new_job now nid org aid sid cid pid format q =
     \<lparr>ID = nid, CreatedAt = now, UpdatedAt = now, DeletedAt = None, job_OrganizationID = org, job_AgentID = aid,
      job_StorageTargetID = sid, job_PolicyID = pid, job_Name = jq_Name q, job_SourceType = jq_SourceType q,
      job_ConnectionID = cid, job_SourcePath = jq_SourcePath q, job_SourceDatabase = jq_SourceDatabase q,
      job_IncludePatterns = jq_IncludePatterns q, job_ExcludePatterns = jq_ExcludePatterns q,
      job_ExportFormat = format, job_Mode = (if jq_Mode q = '''' then ModeNormal else jq_Mode q),
      job_Encrypted = jq_Encrypted q,
      job_RetentionDays = (if jq_RetentionDays q = 0 then 30 else jq_RetentionDays q), job_Enabled = True,
      job_SLATargetMinutes = jq_SLATargetMinutes q, job_RPOTargetMinutes = jq_RPOTargetMinutes q,
      job_RTOTargetMinutes = jq_RTOTargetMinutes q, job_Schedule = None, job_Policy = None\<rparr>"

definition schedule_clash :: "backup_schedule \<Rightarrow> backup_schedule \<Rightarrow> bool" where
  "schedule_clash x s \<longleftrightarrow> sch_BackupJobID x = sch_BackupJobID s"

definition create_schedule :: "time \<Rightarrow> uuid \<Rightarrow> uuid \<Rightarrow> job_request \<Rightarrow> db \<Rightarrow> db" where
  "create_schedule now snid jid q d =
     (case create_row now schedule_clash
        \<lparr>ID = snid, CreatedAt = now, UpdatedAt = now, DeletedAt = None, sch_BackupJobID = jid,
         sch_CronExpr = jq_CronExpr q, sch_Timezone = (if jq_Timezone q = '''' then ''UTC'' else jq_Timezone q)\<rparr>
        (db_schedules d) of
        None \<Rightarrow> d | Some t \<Rightarrow> d\<lparr>db_schedules := t\<rparr>)"

text \<open>The closing reload with its preloads.\<close>

definition reload_job :: "db \<Rightarrow> backup_job \<Rightarrow> backup_job" where
  "reload_job d j = (case first_row (\<lambda>x. ID x = ID j) (db_jobs d) of None \<Rightarrow> j | Some x \<Rightarrow> preload_job d x)"

definition CreateJob ::
    "(string \<Rightarrow> uuid option) \<Rightarrow> faults \<Rightarrow> time \<Rightarrow> uuid \<Rightarrow> uuid \<Rightarrow> uuid \<Rightarrow> job_request option \<Rightarrow> db
      \<Rightarrow> db \<times> backup_job reply" where
  "CreateJob parse flt now nid snid org req d =
     (case bind_job req of
        None \<Rightarrow> (d, Fail 400 ''bad request'')
      | Some q \<Rightarrow>
          (case parse (jq_AgentID q) of
             None \<Rightarrow> (d, Fail 400 ''invalid agent_id'')
           | Some aid \<Rightarrow>
               (case parse (jq_StorageTargetID q) of
                  None \<Rightarrow> (d, Fail 400 ''invalid storage_target_id'')
                | Some sid \<Rightarrow>
                    (case normalizeExportFormat (jq_SourceType q) (jq_ExportFormat q) of
                       Inl msg \<Rightarrow> (d, Fail 400 msg)
                     | Inr format \<Rightarrow>
                         (case job_connection parse org aid q d of
                            Inl msg \<Rightarrow> (d, Fail 400 msg)
                          | Inr cid \<Rightarrow>
                              (case job_policy_ref parse org q d of
                                 Inl msg \<Rightarrow> (d, Fail 400 msg)
                               | Inr pid \<Rightarrow>
                                   let j = new_job now nid org aid sid cid pid format q in
                                   (case (if flt ''create job'' then None
                                          else create_row now no_clash j (db_jobs d)) of
                                      None \<Rightarrow> (d, Fail 500 ''create failed'')
                                    | Some t \<Rightarrow>
                                        let d1 = d\<lparr>db_jobs := t\<rparr>;
                                            d2 = (if jq_CronExpr q = '''' then d1 else create_schedule now snid nid q d1)
                                        in (emit (PublishEntity org ''jobs'' ''created'' nid) d2,
                                            Reply 201 (reload_job d2 j)))))))))"

definition find_job :: "uuid \<Rightarrow> uuid \<Rightarrow> db \<Rightarrow> backup_job option" where
  "find_job org i d = first_row (\<lambda>j. ID j = i \<and> job_OrganizationID j = org) (db_jobs d)"

definition GetJob :: "uuid \<Rightarrow> uuid option \<Rightarrow> db \<Rightarrow> backup_job reply" where
  "GetJob org idp d =
     (case idp of
        None \<Rightarrow> Fail 400 ''invalid id''
      | Some i \<Rightarrow> (case find_job org i d of
          None \<Rightarrow> Fail 404 ''not found'' | Some j \<Rightarrow> Reply 200 (preload_job d j)))"

text \<open>In an update an absent reference leaves the stored one alone.\<close>

definition update_refs ::
    "(string \<Rightarrow> uuid option) \<Rightarrow> uuid \<Rightarrow> job_request \<Rightarrow> db \<Rightarrow> string + uuid option \<times> uuid option" where
  "update_refs parse org q d =
     (case (if trim_space (jq_ConnectionID q) = '''' then Inr None
            else (case parse (jq_ConnectionID q) of
                    None \<Rightarrow> Inl ''invalid connection_id''
                  | Some c \<Rightarrow> (case org_connection org c d of
                      None \<Rightarrow> Inl ''connection not found in this organization''
                    | Some _ \<Rightarrow> Inr (Some c)))) of
        Inl msg \<Rightarrow> Inl msg
      | Inr cid \<Rightarrow>
          (case job_policy_ref parse org q d of
             Inl msg \<Rightarrow> Inl msg
           | Inr pid \<Rightarrow> Inr (cid, pid)))"

definition update_job_row :: "string \<Rightarrow> uuid option \<Rightarrow> uuid option \<Rightarrow> job_request \<Rightarrow> backup_job \<Rightarrow> backup_job" where
  "update_job_row format cid pid q j =
     j\<lparr>job_Name := jq_Name q, job_SourcePath := jq_SourcePath q, job_SourceDatabase := jq_SourceDatabase q,
       job_IncludePatterns := jq_IncludePatterns q, job_ExcludePatterns := jq_ExcludePatterns q,
       job_Mode := jq_Mode q, job_Encrypted := jq_Encrypted q, job_RetentionDays := jq_RetentionDays q,
       job_ExportFormat := format, job_SLATargetMinutes := jq_SLATargetMinutes q,
       job_RPOTargetMinutes := jq_RPOTargetMinutes q, job_RTOTargetMinutes := jq_RTOTargetMinutes q,
       job_ConnectionID := (case cid of None \<Rightarrow> job_ConnectionID j | Some c \<Rightarrow> Some c),
       job_PolicyID := (case pid of None \<Rightarrow> job_PolicyID j | Some p \<Rightarrow> Some p)\<rparr>"

definition put_schedule :: "time \<Rightarrow> uuid \<Rightarrow> uuid \<Rightarrow> job_request \<Rightarrow> db \<Rightarrow> db" where
  "put_schedule now snid jid q d =
     (case first_row (\<lambda>s. sch_BackupJobID s = jid) (db_schedules d) of
        None \<Rightarrow> create_schedule now snid jid q d
      | Some s \<Rightarrow> d\<lparr>db_schedules := update_rows now (\<lambda>x. ID x = ID s)
            (\<lambda>x. x\<lparr>sch_CronExpr := jq_CronExpr q,
                    sch_Timezone := (if jq_Timezone q = '''' then ''UTC'' else jq_Timezone q)\<rparr>) (db_schedules d)\<rparr>)"

definition UpdateJob ::
    "(string \<Rightarrow> uuid option) \<Rightarrow> time \<Rightarrow> uuid \<Rightarrow> uuid \<Rightarrow> uuid option \<Rightarrow> job_request option \<Rightarrow> db
      \<Rightarrow> db \<times> backup_job reply" where
  "UpdateJob parse now snid org idp req d =
     (case idp of
        None \<Rightarrow> (d, Fail 400 ''invalid id'')
      | Some i \<Rightarrow>
          (case find_job org i d of
             None \<Rightarrow> (d, Fail 404 ''not found'')
           | Some j \<Rightarrow>
               (case bind_job req of
                  None \<Rightarrow> (d, Fail 400 ''bad request'')
                | Some q \<Rightarrow>
                    (case normalizeExportFormat (job_SourceType j) (jq_ExportFormat q) of
                       Inl msg \<Rightarrow> (d, Fail 400 msg)
                     | Inr format \<Rightarrow>
                         (case update_refs parse org q d of
                            Inl msg \<Rightarrow> (d, Fail 400 msg)
                          | Inr (cid, pid) \<Rightarrow>
                              let d1 = d\<lparr>db_jobs := update_rows now (\<lambda>x. ID x = ID j)
                                     (update_job_row format cid pid q) (db_jobs d)\<rparr>;
                                  d2 = (if jq_CronExpr q = '''' then d1 else put_schedule now snid (ID j) q d1)
                              in (emit (PublishEntity org ''jobs'' ''updated'' (ID j)) d2,
                                  Reply 200 (reload_job d2 j)))))))"

definition DeleteJob :: "time \<Rightarrow> uuid \<Rightarrow> uuid option \<Rightarrow> db \<Rightarrow> db \<times> unit reply" where
  "DeleteJob now org idp d =
     (case idp of
        None \<Rightarrow> (d, Fail 400 ''invalid id'')
      | Some i \<Rightarrow>
          (emit (PublishEntity org ''jobs'' ''deleted'' i)
             (d\<lparr>db_jobs := delete_rows now (\<lambda>j. ID j = i \<and> job_OrganizationID j = org) (db_jobs d)\<rparr>),
           Reply 204 ()))"

definition setEnabled :: "time \<Rightarrow> bool \<Rightarrow> uuid \<Rightarrow> uuid option \<Rightarrow> db \<Rightarrow> db \<times> bool reply" where
  "setEnabled now enabled org idp d =
     (case idp of
        None \<Rightarrow> (d, Fail 400 ''invalid id'')
      | Some i \<Rightarrow>
          (emit (PublishEntity org ''jobs'' (if enabled then ''enabled'' else ''disabled'') i)
             (d\<lparr>db_jobs := update_rows now (\<lambda>j. ID j = i \<and> job_OrganizationID j = org)
                  (\<lambda>j. j\<lparr>job_Enabled := enabled\<rparr>) (db_jobs d)\<rparr>),
           Reply 200 enabled))"

subsection \<open>Run now\<close>

definition manual_run :: "time \<Rightarrow> uuid \<Rightarrow> uuid \<Rightarrow> backup_job \<Rightarrow> backup_run" where
  "manual_run now nid org j = (new_run now nid j None None 0)\<lparr>run_OrganizationID := org\<rparr>"

text \<open>The insertion is not checked: the event and the command are sent whether it worked or not.\<close>

definition run_now_insert :: "faults \<Rightarrow> time \<Rightarrow> uuid \<Rightarrow> uuid \<Rightarrow> backup_job \<Rightarrow> db \<Rightarrow> db" where
  "run_now_insert flt now nid org j d =
     (let r = manual_run now nid org j;
          d1 = (case (if flt ''create run'' then None else create_row now run_clash r (db_runs d)) of
                  None \<Rightarrow> d | Some t \<Rightarrow> d\<lparr>db_runs := t\<rparr>)
      in emit (GrpcRunBackup (job_AgentID j) nid (ID j)) (publishRun r RunPending d1))"

definition RunNow ::
    "faults \<Rightarrow> time \<Rightarrow> uuid \<Rightarrow> uuid \<Rightarrow> uuid option \<Rightarrow> db \<Rightarrow> db \<times> backup_run reply" where
  "RunNow flt now nid org idp d =
     (case idp of
        None \<Rightarrow> (d, Fail 400 ''invalid id'')
      | Some i \<Rightarrow>
          (case find_job org i d of
             None \<Rightarrow> (d, Fail 404 ''not found'')
           | Some j \<Rightarrow>
               if in_flight_count (ID j) d > 0
               then (d, Fail 409 ''a run for this job is already in progress'')
               else (run_now_insert flt now nid org j d, Reply 201 (manual_run now nid org j))))"

subsection \<open>Policies\<close>

record policy_request =
  pq_Name :: string
  pq_Strategy :: string
  pq_CronExpr :: string
  pq_Timezone :: string
  pq_Enabled :: "bool option"
  pq_Mode :: string
  pq_Encrypted :: "bool option"
  pq_RetentionDays :: "int option"
  pq_VerificationEnabled :: "bool option"
  pq_MaxRetries :: "int option"
  pq_RetryDelaySeconds :: "int option"
  pq_SLATargetMinutes :: "int option"
  pq_RPOTargetMinutes :: "int option"
  pq_RTOTargetMinutes :: "int option"

text \<open>\<open>boolOr\<close> and \<open>intOr\<close>.\<close>

definition opt_or :: "'a option \<Rightarrow> 'a \<Rightarrow> 'a" where
  "opt_or v def = (case v of None \<Rightarrow> def | Some x \<Rightarrow> x)"

definition str_or :: "string \<Rightarrow> string \<Rightarrow> string" where
  "str_or s def = (if s = '''' then def else s)"

definition validatePolicy :: "cron \<Rightarrow> policy_request \<Rightarrow> string + backup_policy" where
  "validatePolicy cron q =
     (let strategy = str_or (to_upper (trim_space (pq_Strategy q))) StrategyFull;
          mode = str_or (to_upper (trim_space (pq_Mode q))) ModeNormal;
          retention = opt_or (pq_RetentionDays q) 30;
          retries = opt_or (pq_MaxRetries q) 0;
          delay = opt_or (pq_RetryDelaySeconds q) 300;
          expr = trim_space (pq_CronExpr q);
          tz = str_or (trim_space (pq_Timezone q)) ''UTC''
      in if trim_space (pq_Name q) = '''' then Inl ''name is required''
         else if strategy \<noteq> StrategyFull
         then Inl ''strategy must be FULL (incremental/differential are not implemented)''
         else if mode \<noteq> ModeNormal \<and> mode \<noteq> ModeCompressed then Inl ''mode must be NORMAL or COMPRESSED''
         else if retention < 0 \<or> 3650 < retention then Inl ''retention_days must be 0-3650''
         else if retries < 0 \<or> 10 < retries then Inl ''max_retries must be 0-10''
         else if delay < 0 \<or> 86400 < delay then Inl ''retry_delay_seconds must be 0-86400''
         else if list_ex (\<lambda>v. case v of None \<Rightarrow> False | Some m \<Rightarrow> m < 0 \<or> 525600 < m)
                [pq_SLATargetMinutes q, pq_RPOTargetMinutes q, pq_RTOTargetMinutes q]
         then Inl ''SLA/RPO/RTO targets must be 0-525600 minutes''
         else if expr \<noteq> '''' \<and> cron expr = None then Inl ''invalid cron_expr''
         else Inr \<lparr>ID = '''', CreatedAt = 0, UpdatedAt = 0, DeletedAt = None, pol_OrganizationID = '''',
                pol_Name = trim_space (pq_Name q), pol_Strategy = strategy, pol_CronExpr = expr,
                pol_Timezone = tz, pol_Enabled = opt_or (pq_Enabled q) True, pol_Mode = mode,
                pol_Encrypted = opt_or (pq_Encrypted q) False, pol_RetentionDays = retention,
                pol_VerificationEnabled = opt_or (pq_VerificationEnabled q) True, pol_MaxRetries = retries,
                pol_RetryDelaySeconds = delay, pol_SLATargetMinutes = opt_or (pq_SLATargetMinutes q) 0,
                pol_RPOTargetMinutes = opt_or (pq_RPOTargetMinutes q) 0,
                pol_RTOTargetMinutes = opt_or (pq_RTOTargetMinutes q) 0\<rparr>)"

text \<open>The column defaults GORM lets the database fill in for zero values.\<close>

definition policy_defaults :: "backup_policy \<Rightarrow> backup_policy" where
  "policy_defaults p =
     p\<lparr>pol_Strategy := (if pol_Strategy p = '''' then StrategyFull else pol_Strategy p),
       pol_Timezone := (if pol_Timezone p = '''' then ''UTC'' else pol_Timezone p), pol_Enabled := True,
       pol_Mode := (if pol_Mode p = '''' then ModeNormal else pol_Mode p),
       pol_RetentionDays := (if pol_RetentionDays p = 0 then 30 else pol_RetentionDays p),
       pol_VerificationEnabled := True,
       pol_RetryDelaySeconds := (if pol_RetryDelaySeconds p = 0 then 300 else pol_RetryDelaySeconds p)\<rparr>"

text \<open>The map update that writes the validated columns, zero values included.\<close>

definition policy_columns :: "backup_policy \<Rightarrow> backup_policy \<Rightarrow> backup_policy" where
  "policy_columns w x =
     x\<lparr>pol_Name := pol_Name w, pol_Strategy := pol_Strategy w, pol_CronExpr := pol_CronExpr w,
       pol_Timezone := pol_Timezone w, pol_Enabled := pol_Enabled w, pol_Mode := pol_Mode w,
       pol_Encrypted := pol_Encrypted w, pol_RetentionDays := pol_RetentionDays w,
       pol_VerificationEnabled := pol_VerificationEnabled w, pol_MaxRetries := pol_MaxRetries w,
       pol_RetryDelaySeconds := pol_RetryDelaySeconds w, pol_SLATargetMinutes := pol_SLATargetMinutes w,
       pol_RPOTargetMinutes := pol_RPOTargetMinutes w, pol_RTOTargetMinutes := pol_RTOTargetMinutes w\<rparr>"

text \<open>Inserting a validated policy: the insertion, the repair of the defaulted columns, the reload.\<close>

definition store_policy ::
    "faults \<Rightarrow> time \<Rightarrow> uuid \<Rightarrow> backup_policy \<Rightarrow> db \<Rightarrow> db \<times> backup_policy reply" where
  "store_policy flt now org want d =
     (case (if flt ''create policy'' then None
            else create_row now no_clash (policy_defaults want) (db_policies d)) of
        None \<Rightarrow> (d, Fail 500 ''create failed'')
      | Some t \<Rightarrow>
          if flt ''repair policy'' then (d\<lparr>db_policies := t\<rparr>, Fail 500 ''create failed'')
          else
            let d1 = d\<lparr>db_policies := update_rows now (\<lambda>x. ID x = ID want) (policy_columns want) t\<rparr> in
            (case first_row (\<lambda>x. ID x = ID want) (db_policies d1) of
               None \<Rightarrow> (d1, Fail 500 ''create failed'')
             | Some x \<Rightarrow> (emit (PublishEntity org ''policies'' ''created'' (ID want)) d1, Reply 201 x)))"

definition CreatePolicy ::
    "cron \<Rightarrow> faults \<Rightarrow> time \<Rightarrow> uuid \<Rightarrow> uuid \<Rightarrow> policy_request option \<Rightarrow> db \<Rightarrow> db \<times> backup_policy reply" where
  "CreatePolicy cron flt now nid org req d =
     (case req of
        None \<Rightarrow> (d, Fail 400 ''bad request'')
      | Some q \<Rightarrow>
          (case validatePolicy cron q of
             Inl msg \<Rightarrow> (d, Fail 400 msg)
           | Inr p \<Rightarrow> store_policy flt now org (p\<lparr>ID := nid, pol_OrganizationID := org\<rparr>) d))"

definition GetPolicy :: "uuid \<Rightarrow> uuid option \<Rightarrow> db \<Rightarrow> (backup_policy \<times> nat) reply" where
  "GetPolicy org idp d =
     (case idp of
        None \<Rightarrow> Fail 400 ''invalid id''
      | Some i \<Rightarrow> (case org_policy org i d of
          None \<Rightarrow> Fail 404 ''not found''
        | Some p \<Rightarrow> Reply 200 (p, affected (\<lambda>j. job_PolicyID j = Some i \<and> job_OrganizationID j = org) (db_jobs d))))"

definition ListPolicies :: "uuid \<Rightarrow> db \<Rightarrow> backup_policy list reply" where
  "ListPolicies org d = Reply 200 (sort_key CreatedAt (rows (\<lambda>p. pol_OrganizationID p = org) (db_policies d)))"

definition UpdatePolicy ::
    "cron \<Rightarrow> faults \<Rightarrow> time \<Rightarrow> uuid \<Rightarrow> uuid option \<Rightarrow> policy_request option \<Rightarrow> db \<Rightarrow> db \<times> backup_policy reply" where
  "UpdatePolicy cron flt now org idp req d =
     (case idp of
        None \<Rightarrow> (d, Fail 400 ''invalid id'')
      | Some i \<Rightarrow>
          (case org_policy org i d of
             None \<Rightarrow> (d, Fail 404 ''not found'')
           | Some p \<Rightarrow>
               (case req of
                  None \<Rightarrow> (d, Fail 400 ''bad request'')
                | Some q \<Rightarrow>
                    (case validatePolicy cron q of
                       Inl msg \<Rightarrow> (d, Fail 400 msg)
                     | Inr want \<Rightarrow>
                         if flt ''update policy'' then (d, Fail 500 ''update failed'')
                         else
                           let d1 = d\<lparr>db_policies := update_rows now (\<lambda>x. ID x = ID p) (policy_columns want)
                                  (db_policies d)\<rparr>
                           in (emit (PublishEntity org ''policies'' ''updated'' (ID p)) d1,
                               Reply 200 (case first_row (\<lambda>x. ID x = ID p) (db_policies d1) of
                                            None \<Rightarrow> p | Some x \<Rightarrow> x))))))"

definition detach_policy :: "time \<Rightarrow> uuid \<Rightarrow> uuid \<Rightarrow> db \<Rightarrow> db" where
  "detach_policy now org i d =
     d\<lparr>db_jobs := update_rows now (\<lambda>j. job_PolicyID j = Some i \<and> job_OrganizationID j = org)
         (\<lambda>j. j\<lparr>job_PolicyID := None\<rparr>) (db_jobs d)\<rparr>"

definition DeletePolicy :: "faults \<Rightarrow> time \<Rightarrow> uuid \<Rightarrow> uuid option \<Rightarrow> db \<Rightarrow> db \<times> unit reply" where
  "DeletePolicy flt now org idp d =
     (case idp of
        None \<Rightarrow> (d, Fail 400 ''invalid id'')
      | Some i \<Rightarrow>
          let d1 = detach_policy now org i d; P = (\<lambda>p. ID p = i \<and> pol_OrganizationID p = org) in
          if flt ''delete policy'' then (d1, Fail 500 ''delete failed'')
          else if affected P (db_policies d1) = 0 then (d1, Fail 404 ''not found'')
          else (emit (PublishEntity org ''policies'' ''deleted'' i)
                  (d1\<lparr>db_policies := delete_rows now P (db_policies d1)\<rparr>), Reply 204 ()))"

subsection \<open>Every operation is a step of the database\<close>

lemma db_step_config [simp]:
  "db_step d (x\<lparr>db_jobs := js\<rparr>) = db_step d x" "db_step d (x\<lparr>db_policies := ps\<rparr>) = db_step d x"
  "db_step d (x\<lparr>db_schedules := ss\<rparr>) = db_step d x" "db_step d (x\<lparr>db_conns := cs\<rparr>) = db_step d x"
  "db_step d (x\<lparr>db_targets := ts\<rparr>) = db_step d x" "db_step d (x\<lparr>db_users := us\<rparr>) = db_step d x"
  "db_step d (x\<lparr>db_members := ms\<rparr>) = db_step d x" "db_step d (x\<lparr>db_orgs := os\<rparr>) = db_step d x"
  by (simp_all add: db_step_def db_later_def db_wf_def)

lemma create_schedule_step [simp]: "db_step d (create_schedule now snid jid q x) = db_step d x"
  by (simp add: create_schedule_def split: option.split)

lemma put_schedule_step [simp]: "db_step d (put_schedule now snid jid q x) = db_step d x"
  by (simp add: put_schedule_def split: option.split)

lemma CreateJob_step: "db_step d (fst (CreateJob parse flt now nid snid org req d))"
  by (auto simp: CreateJob_def Let_def split: option.split sum.split)

lemma UpdateJob_step: "db_step d (fst (UpdateJob parse now snid org idp req d))"
  by (auto simp: UpdateJob_def Let_def split: option.split sum.split)

lemma DeleteJob_step: "db_step d (fst (DeleteJob now org idp d))"
  by (simp add: DeleteJob_def split: option.split)

lemma setEnabled_step: "db_step d (fst (setEnabled now enabled org idp d))"
  by (simp add: setEnabled_def split: option.split)

lemma RunNow_step: "db_step d (fst (RunNow flt now nid org idp d))"
proof -
  have "db_step d (run_now_insert flt now nid org j d)" for j
    by (auto simp: run_now_insert_def Let_def manual_run_def new_run_def run_ok_def run_in_flight_def
        split: option.split intro!: db_step_runs run_table.evolves_create elim!: run_index.wf_create)
  then show ?thesis by (simp add: RunNow_def split: option.split)
qed

lemma CreatePolicy_step: "db_step d (fst (CreatePolicy cron flt now nid org req d))"
  by (auto simp: CreatePolicy_def store_policy_def Let_def split: option.split sum.split)

lemma UpdatePolicy_step: "db_step d (fst (UpdatePolicy cron flt now org idp req d))"
  by (auto simp: UpdatePolicy_def Let_def split: option.split sum.split)

lemma DeletePolicy_step: "db_step d (fst (DeletePolicy flt now org idp d))"
  by (auto simp: DeletePolicy_def detach_policy_def Let_def split: option.split)

lemmas job_steps = CreateJob_step UpdateJob_step DeleteJob_step setEnabled_step RunNow_step
  CreatePolicy_step UpdatePolicy_step DeletePolicy_step

subsection \<open>Properties\<close>

definition sample_policy_request :: policy_request where
  "sample_policy_request = \<lparr>pq_Name = '' nightly '', pq_Strategy = ''full'', pq_CronExpr = ''* * * * *'', pq_Timezone = '''',
     pq_Enabled = Some False, pq_Mode = ''compressed'', pq_Encrypted = Some True, pq_RetentionDays = Some 0,
     pq_VerificationEnabled = Some False, pq_MaxRetries = Some 3, pq_RetryDelaySeconds = Some 0,
     pq_SLATargetMinutes = None, pq_RPOTargetMinutes = Some 60, pq_RTOTargetMinutes = None\<rparr>"

lemma store_policy_201:
  assumes "store_policy flt now org w d = (d', Reply 201 x)"
  shows "x = w\<lparr>CreatedAt := now, UpdatedAt := now, DeletedAt := None\<rparr> \<and> db_policies d' = db_policies d @ [x]"
proof -
  let ?cr = "if flt ''create policy'' then None else create_row now no_clash (policy_defaults w) (db_policies d)"
  obtain t where cr: "?cr = Some t" using assms by (cases ?cr) (simp_all add: store_policy_def Let_def)
  then have c: "create_row now no_clash (policy_defaults w) (db_policies d) = Some t" by (simp split: if_splits)
  let ?x = "w\<lparr>CreatedAt := now, UpdatedAt := now, DeletedAt := None\<rparr>"
  have fresh: "\<forall>y\<in>set (db_policies d). ID y \<noteq> ID w" using create_row_SomeD(2) [OF c] by (simp add: policy_defaults_def)
  have "policy_columns w ((policy_defaults w)\<lparr>CreatedAt := now, UpdatedAt := now, DeletedAt := None\<rparr>) = ?x"
    by (simp add: policy_columns_def policy_defaults_def)
  then have up: "update_rows now (\<lambda>y. ID y = ID w) (policy_columns w) t = db_policies d @ [?x]"
    using fresh unfolding create_row_SomeD(1) [OF c]
    by (auto simp: update_rows_def live_def policy_defaults_def intro!: map_idI)
  have "List.find (\<lambda>y. live y \<and> ID y = ID w) (ys @ [?x]) = Some ?x" if "\<forall>y\<in>set ys. ID y \<noteq> ID w" for ys
    using that by (induction ys) (auto simp: live_def)
  then have "first_row (\<lambda>y. ID y = ID w) (db_policies d @ [?x]) = Some ?x" using fresh by (simp add: first_row_def)
  then show ?thesis using assms cr by (simp add: store_policy_def Let_def up split: if_splits) auto
qed

text \<open>A policy is stored as it was validated: when creation answers 201, the reply and the new row hold
  exactly the validated values, zero and false ones included, which the insertion alone would have
  replaced by the column defaults; the other policies are untouched.\<close>

theorem policy_stored_verbatim:
  assumes "CreatePolicy cron flt now nid org (Some q) d = (d', Reply 201 x)"
  shows "\<exists>p. validatePolicy cron q = Inr p \<and>
     x = p\<lparr>ID := nid, pol_OrganizationID := org, CreatedAt := now, UpdatedAt := now, DeletedAt := None\<rparr> \<and>
     db_policies d' = db_policies d @ [x]"
proof (cases "validatePolicy cron q")
  case (Inr p)
  then have "store_policy flt now org (p\<lparr>ID := nid, pol_OrganizationID := org\<rparr>) d = (d', Reply 201 x)"
    using assms by (simp add: CreatePolicy_def)
  from store_policy_201 [OF this] show ?thesis using Inr by simp
qed (use assms in \<open>simp add: CreatePolicy_def\<close>)

theorem policy_stored_verbatim_witness:
  "\<exists>x. snd (CreatePolicy every_minute no_faults 5 ''p9'' ''o1'' (Some sample_policy_request) empty_db) = Reply 201 x \<and>
     \<not> pol_Enabled x \<and> pol_RetentionDays x = 0 \<and> pol_Name x = ''nightly''"
proof -
  let ?c = "CreatePolicy every_minute no_faults 5 ''p9'' ''o1'' (Some sample_policy_request) empty_db"
  have "(case snd ?c of Reply n b \<Rightarrow> n = 201 | Fail n m \<Rightarrow> False)" by code_simp
  then obtain x where s: "snd ?c = Reply 201 x" by (cases "snd ?c") simp_all
  then have c: "?c = (fst ?c, Reply 201 x)" by (metis prod.collapse)
  from policy_stored_verbatim [OF c]
  obtain p where p: "validatePolicy every_minute sample_policy_request = Inr p"
    and x: "x = p\<lparr>ID := ''p9'', pol_OrganizationID := ''o1'', CreatedAt := 5, UpdatedAt := 5, DeletedAt := None\<rparr>" by blast
  have "(case validatePolicy every_minute sample_policy_request of Inl _ \<Rightarrow> False
     | Inr p \<Rightarrow> \<not> pol_Enabled p \<and> pol_RetentionDays p = 0 \<and> pol_Name p = ''nightly'')" by code_simp
  then show ?thesis using p s by (simp add: x)
qed

definition policy_ok :: "cron \<Rightarrow> backup_policy \<Rightarrow> bool" where
  "policy_ok cron p \<longleftrightarrow> trim_space (pol_Name p) = pol_Name p \<and> pol_Name p \<noteq> '''' \<and> pol_Strategy p = StrategyFull \<and>
     pol_Mode p \<in> {ModeNormal, ModeCompressed} \<and> pol_Timezone p \<noteq> '''' \<and>
     (pol_CronExpr p = '''' \<or> cron (pol_CronExpr p) \<noteq> None) \<and>
     0 \<le> pol_RetentionDays p \<and> pol_RetentionDays p \<le> 3650 \<and> 0 \<le> pol_MaxRetries p \<and> pol_MaxRetries p \<le> 10 \<and>
     0 \<le> pol_RetryDelaySeconds p \<and> pol_RetryDelaySeconds p \<le> 86400 \<and>
     0 \<le> pol_SLATargetMinutes p \<and> pol_SLATargetMinutes p \<le> 525600 \<and>
     0 \<le> pol_RPOTargetMinutes p \<and> pol_RPOTargetMinutes p \<le> 525600 \<and>
     0 \<le> pol_RTOTargetMinutes p \<and> pol_RTOTargetMinutes p \<le> 525600"

lemma target_in_range:
  "\<not> (case v of None \<Rightarrow> False | Some m \<Rightarrow> m < 0 \<or> 525600 < m) \<Longrightarrow> 0 \<le> opt_or v 0 \<and> opt_or v 0 \<le> (525600 :: int)"
  by (cases v) (simp_all add: opt_or_def)

lemma validatePolicy_ok:
  assumes "validatePolicy cron q = Inr p"
  shows "policy_ok cron p"
proof -
  have tz: "str_or (trim_space (pq_Timezone q)) ''UTC'' \<noteq> ''''" by (simp add: str_or_def)
  show ?thesis
    using assms tz unfolding policy_ok_def
    by (simp only: validatePolicy_def Let_def sum.simps split: if_split_asm) (clarsimp, drule target_in_range, drule target_in_range, drule target_in_range, simp)
qed

lemma policy_ok_stamp [simp]:
  "policy_ok cron (p\<lparr>UpdatedAt := u\<rparr>) = policy_ok cron p" "policy_ok cron (p\<lparr>CreatedAt := u\<rparr>) = policy_ok cron p"
  "policy_ok cron (p\<lparr>DeletedAt := v\<rparr>) = policy_ok cron p" "policy_ok cron (p\<lparr>ID := i\<rparr>) = policy_ok cron p"
  "policy_ok cron (p\<lparr>pol_OrganizationID := org\<rparr>) = policy_ok cron p"
  by (simp_all add: policy_ok_def)

lemma policy_ok_columns [simp]: "policy_ok cron (policy_columns w x) = policy_ok cron w"
  by (simp add: policy_ok_def policy_columns_def)

lemma policy_ok_defaults: "policy_ok cron w \<Longrightarrow> policy_ok cron (policy_defaults w)"
  unfolding policy_ok_def by (elim conjE, intro conjI) (simp_all add: policy_defaults_def)
lemma policies_kept [simp]:
  "db_policies (detach_policy now org i d) = db_policies d"
  by (simp add: detach_policy_def)

lemma store_policy_ok:
  assumes "\<forall>p\<in>set (db_policies d). policy_ok cron p" and w: "policy_ok cron w"
  shows "\<forall>p\<in>set (db_policies (fst (store_policy flt now org w d))). policy_ok cron p"
proof (cases "create_row now no_clash (policy_defaults w) (db_policies d)")
  case (Some t)
  have t: "\<forall>x\<in>set t. policy_ok cron x"
    using create_row_ball [OF Some assms(1)] policy_ok_defaults [OF w] by simp
  have "\<forall>x\<in>set (update_rows now P (policy_columns w) t). policy_ok cron x" for P
    using w by (intro update_rows_ball [OF t]) simp
  then show ?thesis using assms(1) t by (simp add: store_policy_def Some Let_def split: option.split)
qed (use assms(1) in \<open>simp add: store_policy_def\<close>)

text \<open>Every stored policy is within bounds: whatever is requested and whichever statement fails, creating,
  updating and deleting policies keeps all of them executable (a name, the FULL strategy, a known
  mode, a cron expression that parses, retention, retries, delay and targets in range).\<close>

theorem policies_in_bounds:
  assumes "\<forall>p\<in>set (db_policies d). policy_ok cron p"
  shows "(\<forall>p\<in>set (db_policies (fst (CreatePolicy cron flt now nid org req d))). policy_ok cron p) \<and>
     (\<forall>p\<in>set (db_policies (fst (UpdatePolicy cron flt now org idp req d))). policy_ok cron p) \<and>
     (\<forall>p\<in>set (db_policies (fst (DeletePolicy flt now org idp d))). policy_ok cron p)"
proof (intro conjI)
  show "\<forall>p\<in>set (db_policies (fst (CreatePolicy cron flt now nid org req d))). policy_ok cron p"
  proof -
    have "\<forall>x\<in>set (db_policies (fst (store_policy flt now org (p\<lparr>ID := nid, pol_OrganizationID := org\<rparr>) d))). policy_ok cron x"
      if "validatePolicy cron q = Inr p" for p q
      using validatePolicy_ok [OF that] by (intro store_policy_ok [OF assms]) simp
    then show ?thesis using assms by (simp add: CreatePolicy_def split: option.split sum.split)
  qed
  have "\<forall>x\<in>set (update_rows now P (policy_columns w) (db_policies d)). policy_ok cron x"
    if "validatePolicy cron q = Inr w" for P w q
    using assms validatePolicy_ok [OF that] by (intro update_rows_ball) simp_all
  then show "\<forall>p\<in>set (db_policies (fst (UpdatePolicy cron flt now org idp req d))). policy_ok cron p"
    using assms by (simp add: UpdatePolicy_def Let_def split: option.split sum.split)
  show "\<forall>p\<in>set (db_policies (fst (DeletePolicy flt now org idp d))). policy_ok cron p"
    using assms by (auto simp: DeletePolicy_def Let_def delete_rows_set split: option.split)
qed

theorem policies_in_bounds_witness:
  "list_all (policy_ok every_minute) (db_policies (fst (CreatePolicy every_minute no_faults 5 ''p9'' ''o1'' (Some sample_policy_request)
     (empty_db\<lparr>db_policies := [sample_policy\<lparr>pol_Timezone := ''UTC''\<rparr>]\<rparr>))))"
proof -
  have "policy_ok every_minute (sample_policy\<lparr>pol_Timezone := ''UTC''\<rparr>)" by code_simp
  then have "\<forall>p\<in>set (db_policies (empty_db\<lparr>db_policies := [sample_policy\<lparr>pol_Timezone := ''UTC''\<rparr>]\<rparr>)). policy_ok every_minute p"
    by simp
  from policies_in_bounds [OF this, THEN conjunct1] show ?thesis unfolding list_all_iff .
qed

lemma inline_settings:
  assumes "job_PolicyID j = None"
  shows "\<not> rp_FromPolicy (EffectivePolicy (preload_job d j)) \<and>
     rp_Enabled (EffectivePolicy (preload_job d j)) = job_Enabled j \<and>
     rp_Mode (EffectivePolicy (preload_job d j)) = job_Mode j \<and>
     rp_Encrypted (EffectivePolicy (preload_job d j)) = job_Encrypted j \<and>
     rp_RetentionDays (EffectivePolicy (preload_job d j)) = job_RetentionDays j \<and>
     rp_RPOTargetMinutes (EffectivePolicy (preload_job d j)) = job_RPOTargetMinutes j \<and>
     rp_MaxRetries (EffectivePolicy (preload_job d j)) = 0 \<and>
     rp_CronExpr (EffectivePolicy (preload_job d j)) =
       (case first_row (\<lambda>s. sch_BackupJobID s = ID j) (db_schedules d) of None \<Rightarrow> '''' | Some s \<Rightarrow> sch_CronExpr s)"
  using assms by (cases "first_row (\<lambda>s. sch_BackupJobID s = ID j) (db_schedules d)")
    (simp_all add: EffectivePolicy_def preload_job_def Let_def)

text \<open>Deleting a policy never orphans a job: after a 204 the policy is gone from the organization, exactly the
  attached jobs lost their reference, and what governs such a job from then on is its own inline
  settings.\<close>

theorem delete_policy_falls_back:
  assumes "DeletePolicy flt now org (Some i) d = (d', Reply 204 ())"
  shows "org_policy org i d' = None \<and>
     db_jobs d' = map (\<lambda>j. if live j \<and> job_PolicyID j = Some i \<and> job_OrganizationID j = org
       then j\<lparr>job_PolicyID := None, UpdatedAt := now\<rparr> else j) (db_jobs d) \<and>
     (\<forall>j\<in>set (db_jobs d'). live j \<and> job_OrganizationID j = org \<longrightarrow> job_PolicyID j \<noteq> Some i) \<and>
     (\<forall>j\<in>set (db_jobs d). live j \<and> job_PolicyID j = Some i \<and> job_OrganizationID j = org \<longrightarrow>
       (let eff = EffectivePolicy (preload_job d' (j\<lparr>job_PolicyID := None, UpdatedAt := now\<rparr>)) in
        \<not> rp_FromPolicy eff \<and> rp_Enabled eff = job_Enabled j \<and> rp_Mode eff = job_Mode j \<and>
        rp_Encrypted eff = job_Encrypted j \<and> rp_RetentionDays eff = job_RetentionDays j \<and>
        rp_RPOTargetMinutes eff = job_RPOTargetMinutes j \<and> rp_MaxRetries eff = 0 \<and>
        rp_CronExpr eff = (case first_row (\<lambda>s. sch_BackupJobID s = ID j) (db_schedules d) of
                             None \<Rightarrow> '''' | Some s \<Rightarrow> sch_CronExpr s)))"
proof -
  let ?P = "\<lambda>p. ID p = i \<and> pol_OrganizationID p = org"
  have d': "d' = emit (PublishEntity org ''policies'' ''deleted'' i)
      ((detach_policy now org i d)\<lparr>db_policies := delete_rows now ?P (db_policies d)\<rparr>)"
    using assms by (simp add: DeletePolicy_def Let_def split: if_splits)
  have jobs: "db_jobs d' = map (\<lambda>j. if live j \<and> job_PolicyID j = Some i \<and> job_OrganizationID j = org
       then j\<lparr>job_PolicyID := None, UpdatedAt := now\<rparr> else j) (db_jobs d)"
    by (simp add: d' detach_policy_def update_rows_def)
  have gone: "org_policy org i d' = None"
    by (simp add: d' org_policy_def first_row_delete)
  have other: "\<forall>j\<in>set (db_jobs d'). live j \<and> job_OrganizationID j = org \<longrightarrow> job_PolicyID j \<noteq> Some i"
  proof (intro ballI impI)
    fix j assume "j \<in> set (db_jobs d')" and j: "live j \<and> job_OrganizationID j = org"
    then have "j \<in> set (update_rows now (\<lambda>j. job_PolicyID j = Some i \<and> job_OrganizationID j = org)
        (\<lambda>j. j\<lparr>job_PolicyID := None\<rparr>) (db_jobs d))" by (simp add: d' detach_policy_def)
    from update_rows_member [OF this] obtain x where
      x: "j = (if live x \<and> job_PolicyID x = Some i \<and> job_OrganizationID x = org
               then x\<lparr>job_PolicyID := None, UpdatedAt := now\<rparr> else x)" by auto
    show "job_PolicyID j \<noteq> Some i"
    proof (cases "live x \<and> job_PolicyID x = Some i \<and> job_OrganizationID x = org")
      case True
      then show ?thesis unfolding x by simp
    next
      case False
      then have "j = x" unfolding x by (simp only: if_False)
      then show ?thesis using False j by blast
    qed
  qed
  have sch: "db_schedules d' = db_schedules d" by (simp add: d' detach_policy_def)
  have inline: "let eff = EffectivePolicy (preload_job d' (j\<lparr>job_PolicyID := None, UpdatedAt := now\<rparr>)) in
        \<not> rp_FromPolicy eff \<and> rp_Enabled eff = job_Enabled j \<and> rp_Mode eff = job_Mode j \<and>
        rp_Encrypted eff = job_Encrypted j \<and> rp_RetentionDays eff = job_RetentionDays j \<and>
        rp_RPOTargetMinutes eff = job_RPOTargetMinutes j \<and> rp_MaxRetries eff = 0 \<and>
        rp_CronExpr eff = (case first_row (\<lambda>s. sch_BackupJobID s = ID j) (db_schedules d) of
                             None \<Rightarrow> '''' | Some s \<Rightarrow> sch_CronExpr s)" for j
    using inline_settings [of "j\<lparr>job_PolicyID := None, UpdatedAt := now\<rparr>" d'] by (simp add: sch Let_def)
  show ?thesis using gone jobs other inline by blast
qed

theorem delete_policy_falls_back_witness:
  "map job_PolicyID (db_jobs (fst (DeletePolicy no_faults 9 ''o1'' (Some ''p1'') (sched_db [])))) = [None]"
proof -
  have "snd (DeletePolicy no_faults 9 ''o1'' (Some ''p1'') (sched_db [])) = Reply 204 ()" by code_simp
  then have "DeletePolicy no_faults 9 ''o1'' (Some ''p1'') (sched_db []) =
      (fst (DeletePolicy no_faults 9 ''o1'' (Some ''p1'') (sched_db [])), Reply 204 ())" by (metis prod.collapse)
  from delete_policy_falls_back [OF this, THEN conjunct2, THEN conjunct1]
  show ?thesis by (simp add: sched_db_def sample_job_def zero_job_def live_def)
qed

lemma RunNow_single:
  assumes single: "single_flight d"
  shows "single_flight (fst (RunNow flt now nid org idp d))"
proof -
  have "single_flight (d\<lparr>db_runs := t\<rparr>)"
    if "find_job org i d = Some j" "create_row now run_clash (new_run now nid j None None 0) (db_runs d) = Some t" "in_flight_count (ID j) d = 0"
    for i j t
    using single_flight_create [OF single that(2,3)] .
  moreover have "manual_run now nid org j = new_run now nid j None None 0" if "find_job org i d = Some j" for i j
    using first_row_SomeD [OF that [unfolded find_job_def]] by (simp add: manual_run_def new_run_def)
  ultimately show ?thesis
    using single by (auto simp: RunNow_def run_now_insert_def Let_def publishRun_def split: option.split)
qed

text \<open>Running a job by hand respects the single flight: with a run of the job in flight the request answers 409
  and changes nothing; otherwise it adds exactly one pending run for the job's agent and target; and
  a database with at most one run in flight per job keeps that.\<close>

theorem run_now_single_flight:
  assumes single: "single_flight d" and j: "find_job org i d = Some j"
  shows "single_flight (fst (RunNow flt now nid org (Some i) d)) \<and>
     (in_flight_count i d > 0 \<longrightarrow> RunNow flt now nid org (Some i) d = (d, Fail 409 ''a run for this job is already in progress'')) \<and>
     (in_flight_count i d = 0 \<and> \<not> flt ''create run'' \<and> (\<forall>r\<in>set (db_runs d). ID r \<noteq> nid) \<longrightarrow>
        db_runs (fst (RunNow flt now nid org (Some i) d)) = db_runs d @ [manual_run now nid org j] \<and>
        GrpcRunBackup (job_AgentID j) nid i \<in> set (outbox (fst (RunNow flt now nid org (Some i) d))))"
proof -
  have jD: "ID j = i" "job_OrganizationID j = org"
    using first_row_SomeD [OF j [unfolded find_job_def]] by simp_all
  then have run: "manual_run now nid org j = new_run now nid j None None 0"
    by (simp add: manual_run_def new_run_def)
  have "create_row now run_clash (new_run now nid j None None 0) (db_runs d) =
      Some (db_runs d @ [new_run now nid j None None 0])" if "\<forall>r\<in>set (db_runs d). ID r \<noteq> nid"
    using that by (simp add: create_row_def new_run_def run_clash_def Let_def)
  then show ?thesis
    by (intro conjI RunNow_single [OF single]) (simp_all add: RunNow_def j jD run run_now_insert_def Let_def publishRun_def)
qed

theorem run_now_single_flight_witness:
  "map run_Status (db_runs (fst (RunNow no_faults 9 ''r7'' ''o1'' (Some ''j1'') (sched_db [])))) = [RunPending] \<and>
   single_flight (fst (RunNow no_faults 9 ''r7'' ''o1'' (Some ''j1'') (sched_db [])))"
proof -
  have s: "single_flight (sched_db [])" by (simp add: single_flight_def sched_db_def)
  have j: "find_job ''o1'' ''j1'' (sched_db []) = Some sample_job" by code_simp
  have "in_flight_count ''j1'' (sched_db []) = 0" "db_runs (sched_db []) = []" by code_simp+
  with run_now_single_flight [OF s j, of no_faults 9 "''r7''"] show ?thesis
    by (simp add: no_faults_def manual_run_def new_run_def)
qed

text \<open>Nothing ties a job's storage target to its organization: whoever names the id of any live target when
  creating a job has the job stored with it, and an agent that claims a run of the job is handed that
  target's decrypted access keys.\<close>

theorem job_target_unchecked:
  assumes "CreateJob parse flt now nid snid org (Some q) d = (d', Reply 201 j)"
    and "parse (jq_StorageTargetID q) = Some sid"
    and "first_row (\<lambda>t. ID t = sid) (db_targets d) = Some t"
    and "run_BackupJobID r = nid"
  shows "jc_Storage (job_config dec r d') = storageConfigFor dec t"
proof -
  obtain aid cid pid format where
    t: "create_row now no_clash (new_job now nid org aid sid cid pid format q) (db_jobs d) = Some (db_jobs d')"
    and targets: "db_targets d' = db_targets d"
    using assms(1,2) by (auto simp: CreateJob_def bind_job_def create_schedule_def Let_def split: option.splits sum.splits if_splits)
  let ?j = "new_job now nid org aid sid cid pid format q"
  have jobs: "db_jobs d' = db_jobs d @ [?j]" and fresh: "\<forall>x\<in>set (db_jobs d). ID x \<noteq> nid"
    using create_row_SomeD [OF t] by (simp_all add: new_job_def)
  have "List.find (\<lambda>y. live y \<and> ID y = nid) (ys @ [?j]) = Some ?j" if "\<forall>y\<in>set ys. ID y \<noteq> nid" for ys
    using that by (induction ys) (auto simp: live_def new_job_def)
  then have "first_row (\<lambda>y. ID y = nid) (db_jobs d') = Some ?j" using fresh jobs by (simp add: first_row_def)
  then show ?thesis
    using assms(3,4) by (simp add: job_config_def Let_def job_of_run_def target_of_job_def targets preload_policy_def new_job_def)
qed

definition foreign_target :: storage_target where
  "foreign_target = zero_target\<lparr>ID := ''s9'', st_OrganizationID := ''o2'', st_Type := StorageS3, st_Bucket := ''b'',
     st_EncryptedAccessKey := ''k1'', st_EncryptedSecretKey := ''k2''\<rparr>"

definition sample_job_request :: job_request where
  "sample_job_request = \<lparr>jq_AgentID = ''g1'', jq_StorageTargetID = ''s9'', jq_Name = ''files'', jq_SourceType = ''FILESYSTEM'',
     jq_ConnectionID = '''', jq_SourcePath = ''/data'', jq_SourceDatabase = '''', jq_IncludePatterns = '''',
     jq_ExcludePatterns = '''', jq_Mode = '''', jq_Encrypted = False, jq_RetentionDays = 0, jq_ExportFormat = '''',
     jq_CronExpr = '''', jq_Timezone = '''', jq_PolicyID = '''', jq_SLATargetMinutes = 0, jq_RPOTargetMinutes = 0,
     jq_RTOTargetMinutes = 0\<rparr>"

theorem job_target_unchecked_witness:
  "\<exists>d' j. CreateJob Some no_faults 3 ''j9'' ''h9'' ''o1'' (Some sample_job_request) (sample_agent_db\<lparr>db_targets := [foreign_target]\<rparr>)
       = (d', Reply 201 j) \<and>
     jc_Storage (job_config Some (sample_run\<lparr>run_BackupJobID := ''j9''\<rparr>) d') = storageConfigFor Some foreign_target \<and>
     sc_SecretKey (storageConfigFor Some foreign_target) = ''k2''"
proof -
  let ?d = "sample_agent_db\<lparr>db_targets := [foreign_target]\<rparr>"
  let ?c = "CreateJob Some no_faults 3 ''j9'' ''h9'' ''o1'' (Some sample_job_request) ?d"
  have "(case snd ?c of Reply n b \<Rightarrow> n = 201 | Fail n m \<Rightarrow> False)" by code_simp
  then obtain j where s: "snd ?c = Reply 201 j" by (cases "snd ?c") simp_all
  then have c: "?c = (fst ?c, Reply 201 j)" by (metis prod.collapse)
  have sid: "Some (jq_StorageTargetID sample_job_request) = Some ''s9''" by (simp add: sample_job_request_def)
  have t: "first_row (\<lambda>t. ID t = ''s9'') (db_targets ?d) = Some foreign_target" by code_simp
  have "jc_Storage (job_config Some (sample_run\<lparr>run_BackupJobID := ''j9''\<rparr>) (fst ?c)) = storageConfigFor Some foreign_target"
    by (rule job_target_unchecked [OF c sid t]) simp
  moreover have "sc_SecretKey (storageConfigFor Some foreign_target) = ''k2''" by code_simp
  ultimately show ?thesis using c by blast
qed

end
