(* ===== verification/Restores.thy ===== *)
theory Restores
  imports Runs
begin

text \<open>
  Restores: the dashboard's and the agent's handlers of \<open>handlers/restore.go\<close> (create, get,
  status reports) and the restore half of the polling protocol \<open>handlers/agent_work.go\<close>
  (pending restores, claiming, the credentials handed over).

  Creating a restore looks for a pending duplicate and then inserts; the partial unique index
  decides when two requests interleave.  \<open>restore_admit\<close> is the part before the insertion and
  \<open>restore_insert\<close> the rest, so other calls may come between.  In the same way
  \<open>restore_check\<close> and \<open>restore_commit\<close> split a status report.
\<close>

subsection \<open>Creating a restore\<close>

text \<open>The bound request; the ids are \<open>None\<close> where \<open>uuid.Parse\<close> fails.\<close>

record restore_request =
  rr_BackupRunID :: "uuid option"
  rr_AgentID :: "uuid option"
  rr_DestinationPath :: string
  rr_TargetDatabase :: string
  rr_Confirmed :: bool

definition live_restore :: "uuid \<Rightarrow> uuid \<Rightarrow> restore_request \<Rightarrow> db \<Rightarrow> restore_job option" where
  "live_restore rid aid q d =
     first_row (\<lambda>x. rs_BackupRunID x = rid \<and> rs_AgentID x = aid \<and> rs_DestinationPath x = rr_DestinationPath q \<and>
       rs_TargetDatabase x = rr_TargetDatabase q \<and> rs_Status x = RestorePending) (db_restores d)"

definition new_restore :: "time \<Rightarrow> uuid \<Rightarrow> uuid \<Rightarrow> uuid \<Rightarrow> uuid \<Rightarrow> uuid option \<Rightarrow> restore_request \<Rightarrow> restore_job" where
  "new_restore now nid org rid aid cid q =
     \<lparr>ID = nid, CreatedAt = now, UpdatedAt = now, DeletedAt = None, rs_OrganizationID = org,
      rs_BackupRunID = rid, rs_AgentID = aid, rs_ConnectionID = cid, rs_Status = RestorePending,
      rs_DestinationPath = rr_DestinationPath q, rs_TargetDatabase = rr_TargetDatabase q,
      rs_StartedAt = None, rs_CompletedAt = None, rs_DurationSeconds = 0, rs_ErrorMessage = ''''\<rparr>"

text \<open>The connection to pin: \<open>Inl\<close> when it belongs to another agent; a connection that is gone pins nothing.\<close>

definition pinned_connection :: "uuid \<Rightarrow> uuid \<Rightarrow> backup_job \<Rightarrow> db \<Rightarrow> string + uuid option" where
  "pinned_connection org aid j d =
     (case job_ConnectionID j of
        None \<Rightarrow> Inr None
      | Some c \<Rightarrow>
          (case first_row (\<lambda>x. ID x = c \<and> conn_OrganizationID x = org) (db_conns d) of
             None \<Rightarrow> Inr None
           | Some x \<Rightarrow> if conn_AgentID x \<noteq> aid then Inl ''restore must run on the connection's agent''
                       else Inr (Some c)))"

datatype restore_plan =
  RefuseRestore nat string
| ExistingRestore restore_job
| AdmitRestore uuid uuid "uuid option" restore_request

definition restore_admit :: "uuid \<Rightarrow> restore_request option \<Rightarrow> db \<Rightarrow> restore_plan" where
  "restore_admit org req d =
     (case req of
        None \<Rightarrow> RefuseRestore 400 ''bad request''
      | Some q \<Rightarrow>
          if \<not> rr_Confirmed q then RefuseRestore 400 ''confirmed must be true to proceed with restore''
          else (case rr_BackupRunID q of
            None \<Rightarrow> RefuseRestore 400 ''invalid backup_run_id''
          | Some rid \<Rightarrow>
              (case rr_AgentID q of
                 None \<Rightarrow> RefuseRestore 400 ''invalid agent_id''
               | Some aid \<Rightarrow>
                   (case first_row (\<lambda>a. ID a = aid \<and> ag_OrganizationID a = org) (db_agents d) of
                      None \<Rightarrow> RefuseRestore 404 ''agent not found in this organization''
                    | Some a \<Rightarrow>
                        (case find_run org rid d of
                           None \<Rightarrow> RefuseRestore 404 ''backup run not found''
                         | Some r \<Rightarrow>
                             if run_Status r \<noteq> RunCompleted
                             then RefuseRestore 400 (''only COMPLETED runs can be restored (status: ''
                                    @ run_status_text (run_Status r) @ '')'')
                             else (case pinned_connection org aid (job_of_run (run_BackupJobID r) d) d of
                               Inl msg \<Rightarrow> RefuseRestore 400 msg
                             | Inr cid \<Rightarrow>
                                 (case live_restore rid aid q d of
                                    Some x \<Rightarrow> ExistingRestore x
                                  | None \<Rightarrow> AdmitRestore rid aid cid q)))))))"

definition restore_insert ::
    "faults \<Rightarrow> time \<Rightarrow> uuid \<Rightarrow> uuid \<Rightarrow> uuid \<Rightarrow> uuid \<Rightarrow> uuid option \<Rightarrow> restore_request \<Rightarrow> db
      \<Rightarrow> db \<times> restore_job reply" where
  "restore_insert flt now nid org rid aid cid q d =
     (let x = new_restore now nid org rid aid cid q in
      case (if flt ''create restore'' then None else create_row now restore_clash x (db_restores d)) of
        None \<Rightarrow>
          (case live_restore rid aid q d of
             Some w \<Rightarrow> (d, Reply 200 w)
           | None \<Rightarrow> (d, Fail 500 ''failed to create restore''))
      | Some t \<Rightarrow>
          (emit (GrpcStartRestore aid nid rid)
             (emit (PublishEntity org ''restores'' ''created'' nid) (d\<lparr>db_restores := t\<rparr>)),
           Reply 201 x))"

definition CreateRestore ::
    "faults \<Rightarrow> time \<Rightarrow> uuid \<Rightarrow> uuid \<Rightarrow> restore_request option \<Rightarrow> db \<Rightarrow> db \<times> restore_job reply" where
  "CreateRestore flt now nid org req d =
     (case restore_admit org req d of
        RefuseRestore n msg \<Rightarrow> (d, Fail n msg)
      | ExistingRestore x \<Rightarrow> (d, Reply 200 x)
      | AdmitRestore rid aid cid q \<Rightarrow> restore_insert flt now nid org rid aid cid q d)"

definition GetRestore :: "uuid \<Rightarrow> uuid option \<Rightarrow> db \<Rightarrow> restore_job reply" where
  "GetRestore org idp d =
     (case idp of
        None \<Rightarrow> Fail 400 ''invalid id''
      | Some i \<Rightarrow> (case first_row (\<lambda>x. ID x = i \<and> rs_OrganizationID x = org) (db_restores d) of
          None \<Rightarrow> Fail 404 ''not found'' | Some x \<Rightarrow> Reply 200 x))"

subsection \<open>Status reports\<close>

record restore_report =
  rrp_Status :: restore_status
  rrp_ErrorMessage :: string

definition find_agent_restore :: "uuid \<Rightarrow> uuid \<Rightarrow> db \<Rightarrow> restore_job option" where
  "find_agent_restore aid i d = first_row (\<lambda>x. ID x = i \<and> rs_AgentID x = aid) (db_restores d)"

datatype restore_verdict =
  RefuseReport nat string
| EchoReport
| CommitReport restore_job restore_report

fun restore_status_text :: "restore_status \<Rightarrow> string" where
  "restore_status_text RestorePending = ''PENDING''"
| "restore_status_text RestoreRunning = ''RUNNING''"
| "restore_status_text RestoreCompleted = ''COMPLETED''"
| "restore_status_text RestoreFailed = ''FAILED''"
| "restore_status_text (RestoreOther s) = s"

definition restore_check :: "agent \<Rightarrow> uuid option \<Rightarrow> restore_report option \<Rightarrow> db \<Rightarrow> restore_verdict" where
  "restore_check ag idp req d =
     (case idp of
        None \<Rightarrow> RefuseReport 400 ''invalid id''
      | Some i \<Rightarrow>
          (case req of
             None \<Rightarrow> RefuseReport 400 ''bad request''
           | Some q \<Rightarrow>
               (case find_agent_restore (ID ag) i d of
                  None \<Rightarrow> RefuseReport 404 ''not found''
                | Some x \<Rightarrow>
                    if rrp_Status q = rs_Status x \<and> (rs_Status x = RestoreCompleted \<or> rs_Status x = RestoreFailed)
                    then EchoReport
                    else if \<not> CanRestoreTransition (rs_Status x) (rrp_Status q)
                    then RefuseReport 400 (''invalid restore transition: '' @ restore_status_text (rs_Status x)
                           @ '' -> '' @ restore_status_text (rrp_Status q))
                    else CommitReport x q)))"

definition restore_row :: "time \<Rightarrow> restore_job \<Rightarrow> restore_report \<Rightarrow> restore_job \<Rightarrow> restore_job" where
  "restore_row now x q y =
     (let a = y\<lparr>rs_Status := rrp_Status q\<rparr>;
          b = (if rrp_ErrorMessage q \<noteq> '''' then a\<lparr>rs_ErrorMessage := rrp_ErrorMessage q\<rparr> else a);
          c = (if rrp_Status q = RestoreRunning \<and> rs_StartedAt x = None then b\<lparr>rs_StartedAt := Some now\<rparr> else b)
      in if rrp_Status q = RestoreCompleted \<or> rrp_Status q = RestoreFailed
         then c\<lparr>rs_CompletedAt := Some now,
                rs_DurationSeconds := (case rs_StartedAt x of
                   None \<Rightarrow> rs_DurationSeconds c | Some s \<Rightarrow> whole_seconds (now - s))\<rparr>
         else c)"

definition restore_commit :: "time \<Rightarrow> agent \<Rightarrow> restore_job \<Rightarrow> restore_report \<Rightarrow> db \<Rightarrow> db" where
  "restore_commit now ag x q d =
     emit (PublishEntity (ag_OrganizationID ag) ''restores'' ''updated'' (ID x))
       (d\<lparr>db_restores := update_rows now (\<lambda>y. ID y = ID x \<and> rs_AgentID y = ID ag \<and> rs_Status y = rs_Status x)
            (restore_row now x q) (db_restores d)\<rparr>)"

definition UpdateRestore ::
    "time \<Rightarrow> agent \<Rightarrow> uuid option \<Rightarrow> restore_report option \<Rightarrow> db \<Rightarrow> db \<times> unit reply" where
  "UpdateRestore now ag idp req d =
     (case restore_check ag idp req d of
        RefuseReport n msg \<Rightarrow> (d, Fail n msg)
      | EchoReport \<Rightarrow> (d, Reply 200 ())
      | CommitReport x q \<Rightarrow> (restore_commit now ag x q d, Reply 200 ()))"

subsection \<open>The polling protocol\<close>

record agent_restore_dto =
  rdto_ID :: uuid
  rdto_BackupRunID :: uuid
  rdto_DestinationPath :: string
  rdto_TargetDatabase :: string
  rdto_Status :: restore_status
  rdto_StoragePath :: string
  rdto_StorageType :: storage_type
  rdto_Storage :: agent_storage_config
  rdto_DataKey :: string
  rdto_Connection :: "agent_connection option"
  rdto_SourceType :: string
  rdto_SourceDatabase :: string
  rdto_ExportFormat :: string
  rdto_CreatedAt :: time

text \<open>The restore's own connection when it is still there and decrypts to a password; else the job's.\<close>

definition connectionForRestore ::
    "(string \<Rightarrow> string option) \<Rightarrow> restore_job \<Rightarrow> backup_job \<Rightarrow> db \<Rightarrow> agent_connection option" where
  "connectionForRestore dec x j d =
     (let own = (case connection_row (rs_ConnectionID x) d of
            None \<Rightarrow> None
          | Some c \<Rightarrow> (case dec (conn_EncryptedPassword c) of
              None \<Rightarrow> None
            | Some pw \<Rightarrow> if pw = '''' then None
                else Some \<lparr>ac_ID = ID c, ac_Type = conn_Type c, ac_Host = conn_Host c, ac_Port = conn_Port c,
                       ac_Username = conn_Username c, ac_Password = pw\<rparr>))
      in case own of
           Some a \<Rightarrow> Some a
         | None \<Rightarrow> connectionFor dec (job_ConnectionID j) (connection_row (job_ConnectionID j) d))"

definition toAgentRestoreDTO :: "(string \<Rightarrow> string option) \<Rightarrow> db \<Rightarrow> restore_job \<Rightarrow> agent_restore_dto" where
  "toAgentRestoreDTO dec d x =
     (let run = first_row (\<lambda>r. ID r = rs_BackupRunID x) (db_runs d);
          path = (case run of None \<Rightarrow> '''' | Some r \<Rightarrow> run_StoragePath r);
          key = (case run of None \<Rightarrow> '''' | Some r \<Rightarrow> run_DataKeyEncrypted r);
          j = (case run of None \<Rightarrow> zero_job | Some r \<Rightarrow> job_of_run (run_BackupJobID r) d);
          t = target_of_job j d
      in \<lparr>rdto_ID = ID x, rdto_BackupRunID = rs_BackupRunID x, rdto_DestinationPath = rs_DestinationPath x,
          rdto_TargetDatabase = rs_TargetDatabase x, rdto_Status = rs_Status x, rdto_StoragePath = path,
          rdto_StorageType = st_Type t, rdto_Storage = storageConfigFor dec t,
          rdto_DataKey = (if key = '''' then '''' else case dec key of None \<Rightarrow> '''' | Some raw \<Rightarrow> raw),
          rdto_Connection = connectionForRestore dec x j d, rdto_SourceType = job_SourceType j,
          rdto_SourceDatabase = job_SourceDatabase j, rdto_ExportFormat = job_ExportFormat j,
          rdto_CreatedAt = CreatedAt x\<rparr>)"

definition PendingRestores ::
    "(string \<Rightarrow> string \<Rightarrow> bool) \<Rightarrow> (string \<Rightarrow> string option) \<Rightarrow> string \<Rightarrow> uuid option \<Rightarrow> time \<Rightarrow> db
      \<Rightarrow> db \<times> agent_restore_dto list reply" where
  "PendingRestores ok dec auth hdr now d =
     (case authenticateAgent ok auth hdr d of
        Inl (n, msg) \<Rightarrow> (d, Fail n msg)
      | Inr a \<Rightarrow>
          let d1 = touch now a d in
          (d1, Reply 200 (map (toAgentRestoreDTO dec d1) (sort_key CreatedAt
             (rows (\<lambda>x. rs_AgentID x = ID a \<and> rs_Status x = RestorePending) (db_restores d1))))))"

definition claim_restore_row :: "time \<Rightarrow> restore_job \<Rightarrow> restore_job" where
  "claim_restore_row now x = x\<lparr>rs_Status := RestoreRunning, rs_StartedAt := Some now\<rparr>"

definition ClaimRestore ::
    "(string \<Rightarrow> string \<Rightarrow> bool) \<Rightarrow> faults \<Rightarrow> (string \<Rightarrow> string option) \<Rightarrow> string \<Rightarrow> uuid option \<Rightarrow> time
      \<Rightarrow> uuid option \<Rightarrow> db \<Rightarrow> db \<times> agent_restore_dto reply" where
  "ClaimRestore ok flt dec auth hdr now idp d =
     (case authenticateAgent ok auth hdr d of
        Inl (n, msg) \<Rightarrow> (d, Fail n msg)
      | Inr a \<Rightarrow>
          let d1 = touch now a d in
          (case idp of
             None \<Rightarrow> (d1, Fail 400 ''invalid id'')
           | Some i \<Rightarrow>
               let P = (\<lambda>x. ID x = i \<and> rs_AgentID x = ID a \<and> rs_Status x = RestorePending) in
               if flt ''claim restore'' then (d1, Fail 500 ''claim failed'')
               else if affected P (db_restores d1) = 0 then
                 (case find_agent_restore (ID a) i d1 of
                    None \<Rightarrow> (d1, Fail 404 ''restore not found'')
                  | Some _ \<Rightarrow> (d1, Fail 409 ''restore already claimed''))
               else
                 let d2 = d1\<lparr>db_restores := update_rows now P (claim_restore_row now) (db_restores d1)\<rparr> in
                 (case first_row (\<lambda>x. ID x = i) (db_restores d2) of
                    None \<Rightarrow> (d2, Fail 500 ''failed to load restore'')
                  | Some x \<Rightarrow> (d2, Reply 200 (toAgentRestoreDTO dec d2 x)))))"

subsection \<open>Every operation is a step of the database\<close>

lemma restore_later_stamp: "live x \<Longrightarrow> restore_later x y \<Longrightarrow> restore_later x (y\<lparr>UpdatedAt := u\<rparr>)"
  by (auto simp: restore_later_def live_def restore_identity_def restore_record_def)

lemma db_step_update_restores:
  assumes id: "\<And>x. restore_identity (f x) = restore_identity x \<and> rs_Status (f x) = s"
    and P: "\<And>x. P x \<Longrightarrow> CanRestoreTransition (rs_Status x) s"
    and ok: "\<And>x. P x \<Longrightarrow> restore_ok x \<Longrightarrow> restore_ok (f x)"
  shows "db_step d (d\<lparr>db_restores := update_rows now P f (db_restores d)\<rparr>)"
proof (rule db_step_restores)
  assume wf: "restore_index.wf (db_restores d)"
  have no: "s \<noteq> RestorePending" if "P x" for x using P [OF that] by (cases "rs_Status x") auto
  show "restore_table.evolves (db_restores d) (update_rows now P f (db_restores d))"
  proof (rule restore_table.evolves_update)
    fix x assume x: "live x" "P x"
    have "\<not> restore_final (rs_Status x)" using P [OF x(2)] by (auto simp: restore_final_def)
    then show "restore_later x ((f x)\<lparr>UpdatedAt := now\<rparr>)"
      using x P id by (intro restore_later_stamp restore_later_step) auto
  qed
  show "restore_index.wf (update_rows now P f (db_restores d))"
    by (rule restore_index.wf_update [OF wf])
       (use id ok no in \<open>auto simp: restore_clash_def restore_identity_def\<close>)
qed

lemma CreateRestore_step: "db_step d (fst (CreateRestore flt now nid org req d))"
proof -
  have "db_step d (fst (restore_insert flt now nid org rid aid cid q d))" for rid aid cid q
    by (auto simp: restore_insert_def Let_def new_restore_def restore_ok_def restore_final_def
        split: option.split intro!: db_step_restores restore_table.evolves_create
        elim!: restore_index.wf_create)
  then show ?thesis by (simp add: CreateRestore_def split: restore_plan.split)
qed

lemma restore_row_fields:
  "restore_identity (restore_row now x q y) = restore_identity y \<and> rs_Status (restore_row now x q y) = rrp_Status q"
  by (simp add: restore_row_def restore_identity_def Let_def split: option.split)

lemma restore_row_ok:
  assumes "CanRestoreTransition (rs_Status x) (rrp_Status q)" and "rs_Status y = rs_Status x" and "restore_ok x"
  shows "restore_ok (restore_row now x q y)"
  using assms by (cases "rs_Status x") (auto simp: restore_ok_def restore_row_def restore_final_def Let_def split: option.splits)

lemma restore_commit_step:
  assumes "CanRestoreTransition (rs_Status x) (rrp_Status q)" and "restore_ok x"
  shows "db_step d (restore_commit now ag x q d)"
  unfolding restore_commit_def db_step_emit
  by (rule db_step_update_restores) (use assms restore_row_fields restore_row_ok in auto)

lemma restore_check_CommitD:
  assumes "restore_check ag idp req d = CommitReport x q"
  shows "req = Some q" "CanRestoreTransition (rs_Status x) (rrp_Status q)"
    "\<exists>i. idp = Some i \<and> find_agent_restore (ID ag) i d = Some x"
  using assms by (auto simp: restore_check_def split: option.splits if_splits)

lemma find_agent_restore_SomeD:
  assumes "find_agent_restore aid i d = Some x"
  shows "x \<in> set (db_restores d)" "live x" "ID x = i" "rs_AgentID x = aid"
  using first_row_SomeD [OF assms [unfolded find_agent_restore_def]] by simp_all

lemma UpdateRestore_step: "db_step d (fst (UpdateRestore now ag idp req d))"
proof (cases "restore_check ag idp req d")
  case (CommitReport x q)
  note c = restore_check_CommitD [OF CommitReport]
  show ?thesis
  proof (cases "db_wf d")
    case True
    then have "restore_ok x"
      using c(3) find_agent_restore_SomeD(1) restore_index.wf_ok unfolding db_wf_def by blast
    then show ?thesis using restore_commit_step [OF c(2)] by (simp add: UpdateRestore_def CommitReport)
  qed (simp add: db_step_def)
qed (simp_all add: UpdateRestore_def)

lemma PendingRestores_step: "db_step d (fst (PendingRestores ok dec auth hdr now d))"
  by (auto simp: PendingRestores_def touch_db_step Let_def split: sum.split)

lemma claim_restore_step:
  "db_step d (d\<lparr>db_restores := update_rows now (\<lambda>x. ID x = i \<and> rs_AgentID x = aid \<and> rs_Status x = RestorePending)
     (claim_restore_row now) (db_restores d)\<rparr>)"
  by (rule db_step_update_restores [where s = RestoreRunning])
     (auto simp: claim_restore_row_def restore_identity_def restore_ok_def restore_final_def)

lemma ClaimRestore_step: "db_step d (fst (ClaimRestore ok flt dec auth hdr now idp d))"
  by (auto simp: ClaimRestore_def Let_def touch_db_step split: sum.split option.split
      intro: db_step_trans [OF touch_db_step claim_restore_step])

lemmas restore_steps = CreateRestore_step UpdateRestore_step PendingRestores_step ClaimRestore_step

subsection \<open>Properties\<close>

lemma restore_admit_AdmitD:
  assumes "restore_admit org req d = AdmitRestore rid aid cid q"
  shows "req = Some q \<and> rr_Confirmed q \<and> rr_BackupRunID q = Some rid \<and> rr_AgentID q = Some aid \<and>
     live_restore rid aid q d = None \<and>
     (\<exists>a. first_row (\<lambda>a. ID a = aid \<and> ag_OrganizationID a = org) (db_agents d) = Some a) \<and>
     (\<exists>r. find_run org rid d = Some r \<and> run_Status r = RunCompleted \<and>
        pinned_connection org aid (job_of_run (run_BackupJobID r) d) d = Inr cid)"
  using assms by (auto simp: restore_admit_def split: option.splits sum.splits if_splits)

lemma restore_admit_ExistingD:
  assumes "restore_admit org (Some q) d = ExistingRestore x"
    and "rr_BackupRunID q = Some rid" "rr_AgentID q = Some aid"
  shows "live_restore rid aid q d = Some x"
  using assms by (auto simp: restore_admit_def split: option.splits sum.splits if_splits)

text \<open>C22. A restore is created only from a trusted source: a 201 answer means the caller confirmed, the run is a
  completed run of the caller's organization, the agent is an agent of that organization and, where
  the job's connection still exists there, the agent of that connection, which is then pinned.
  The stored row is pending, and the start command goes to that agent.\<close>

theorem restore_source_trusted:
  assumes "CreateRestore flt now nid org (Some q) d = (d', Reply 201 x)"
  shows "rr_Confirmed q \<and> rs_Status x = RestorePending \<and> rs_OrganizationID x = org \<and>
     rr_BackupRunID q = Some (rs_BackupRunID x) \<and> rr_AgentID q = Some (rs_AgentID x) \<and>
     (\<exists>a\<in>set (db_agents d). live a \<and> ID a = rs_AgentID x \<and> ag_OrganizationID a = org) \<and>
     (\<exists>r. find_run org (rs_BackupRunID x) d = Some r \<and> run_Status r = RunCompleted \<and>
        (\<forall>c. rs_ConnectionID x = Some c \<longrightarrow> job_ConnectionID (job_of_run (run_BackupJobID r) d) = Some c) \<and>
        (\<forall>c k. job_ConnectionID (job_of_run (run_BackupJobID r) d) = Some c \<and>
            first_row (\<lambda>y. ID y = c \<and> conn_OrganizationID y = org) (db_conns d) = Some k \<longrightarrow>
            conn_AgentID k = rs_AgentID x \<and> rs_ConnectionID x = Some c)) \<and>
     db_restores d' = db_restores d @ [x] \<and> GrpcStartRestore (rs_AgentID x) nid (rs_BackupRunID x) \<in> set (outbox d')"
proof -
  obtain rid aid cid where adm: "restore_admit org (Some q) d = AdmitRestore rid aid cid q"
    and ins: "restore_insert flt now nid org rid aid cid q d = (d', Reply 201 x)"
    using assms restore_admit_AdmitD by (cases "restore_admit org (Some q) d") (fastforce simp: CreateRestore_def)+
  note adm = restore_admit_AdmitD [OF adm]
  let ?x = "new_restore now nid org rid aid cid q"
  let ?cr = "if flt ''create restore'' then None else create_row now restore_clash ?x (db_restores d)"
  obtain t where cr: "?cr = Some t"
    using ins by (cases ?cr) (auto simp: restore_insert_def Let_def split: option.splits)
  then have t: "x = ?x" "db_restores d' = t" "GrpcStartRestore aid nid rid \<in> set (outbox d')"
    using ins by (auto simp: restore_insert_def Let_def)
  have x: "rs_Status x = RestorePending" "rs_OrganizationID x = org" "rs_BackupRunID x = rid" "rs_AgentID x = aid"
    "rs_ConnectionID x = cid" by (simp_all add: t(1) new_restore_def)
  have "create_row now restore_clash ?x (db_restores d) = Some t" using cr by (simp split: if_splits)
  from create_row_SomeD(1) [OF this] have "db_restores d' = db_restores d @ [x]" by (simp add: t new_restore_def)
  moreover have "\<exists>a\<in>set (db_agents d). live a \<and> ID a = aid \<and> ag_OrganizationID a = org"
    using adm first_row_SomeD by blast
  moreover obtain r where r: "find_run org rid d = Some r" "run_Status r = RunCompleted"
    and pin: "pinned_connection org aid (job_of_run (run_BackupJobID r) d) d = Inr cid" using adm by blast
  moreover have "\<forall>c. cid = Some c \<longrightarrow> job_ConnectionID (job_of_run (run_BackupJobID r) d) = Some c"
    using pin by (auto simp: pinned_connection_def split: option.splits if_splits)
  moreover have "\<forall>c k. job_ConnectionID (job_of_run (run_BackupJobID r) d) = Some c \<and>
     first_row (\<lambda>y. ID y = c \<and> conn_OrganizationID y = org) (db_conns d) = Some k \<longrightarrow>
     conn_AgentID k = aid \<and> cid = Some c"
    using pin by (auto simp: pinned_connection_def split: if_splits)
  ultimately show ?thesis using t(3) adm unfolding x by blast
qed

definition completed_db :: db where
  "completed_db = (run_db RunCompleted)\<lparr>db_jobs := [zero_job\<lparr>ID := ''j1'', job_ConnectionID := Some ''c1''\<rparr>],
     db_conns := [\<lparr>ID = ''c1'', CreatedAt = 0, UpdatedAt = 0, DeletedAt = None, conn_OrganizationID = ''o1'',
        conn_AgentID = ''g1'', conn_Name = ''pg'', conn_Type = ''POSTGRES'', conn_Host = ''db'', conn_Port = 5432,
        conn_Username = ''u'', conn_EncryptedPassword = ''pw'', conn_Status = ConnectionUnknown,
        conn_LastCheckedAt = None, conn_DatabaseNames = '''', conn_DatabaseMetadata = ''''\<rparr>]\<rparr>"

definition sample_restore_request :: restore_request where
  "sample_restore_request = \<lparr>rr_BackupRunID = Some ''r1'', rr_AgentID = Some ''g1'', rr_DestinationPath = ''/restore'',
     rr_TargetDatabase = '''', rr_Confirmed = True\<rparr>"

definition restored_db :: db where
  "restored_db = fst (CreateRestore no_faults 8 ''x1'' ''o1'' (Some sample_restore_request) completed_db)"

definition sample_restore :: restore_job where
  "sample_restore = new_restore 8 ''x1'' ''o1'' ''r1'' ''g1'' (Some ''c1'') sample_restore_request"

lemma sample_restore_created:
  "CreateRestore no_faults 8 ''x1'' ''o1'' (Some sample_restore_request) completed_db = (restored_db, Reply 201 sample_restore)"
proof -
  have "snd (CreateRestore no_faults 8 ''x1'' ''o1'' (Some sample_restore_request) completed_db) = Reply 201 sample_restore"
    by code_simp
  then show ?thesis unfolding restored_db_def by (metis prod.collapse)
qed

theorem restore_source_trusted_witness:
  "rs_Status sample_restore = RestorePending \<and> db_restores restored_db = db_restores completed_db @ [sample_restore]"
  using restore_source_trusted [OF sample_restore_created] by blast

text \<open>The same destructive restore is never queued twice: while a restore of the run to that agent and
  destination is pending, a new request is refused or answered with the pending one, and so is a
  request that had passed the check before that restore was stored; nothing changes either way.\<close>

theorem restore_not_queued_twice:
  assumes w: "live_restore rid aid q d = Some w"
    and q: "rr_BackupRunID q = Some rid" "rr_AgentID q = Some aid"
  shows "restore_insert flt now nid org rid aid cid q d = (d, Reply 200 w) \<and>
     fst (CreateRestore flt now nid org (Some q) d) = d \<and>
     (snd (CreateRestore flt now nid org (Some q) d) = Reply 200 w \<or>
      (\<exists>n msg. snd (CreateRestore flt now nid org (Some q) d) = Fail n msg))"
proof -
  note wD = first_row_SomeD [OF w [unfolded live_restore_def]]
  have "restore_clash w ((new_restore now nid org rid aid cid q)\<lparr>CreatedAt := now, UpdatedAt := now, DeletedAt := None\<rparr>)"
    using wD(2,3) by (simp add: restore_clash_def new_restore_def live_def)
  then have "create_row now restore_clash (new_restore now nid org rid aid cid q) (db_restores d) = None"
    using wD(1) by (auto simp: create_row_def Let_def)
  then have "restore_insert flt now nid org rid aid cid q d = (d, Reply 200 w)"
    using w by (simp add: restore_insert_def Let_def)
  moreover have "(\<exists>n msg. restore_admit org (Some q) d = RefuseRestore n msg) \<or> restore_admit org (Some q) d = ExistingRestore w"
  proof (cases "restore_admit org (Some q) d")
    case (ExistingRestore x)
    from restore_admit_ExistingD [OF this q] w show ?thesis by (simp add: ExistingRestore)
  next
    case (AdmitRestore rid' aid' cid' q')
    from restore_admit_AdmitD [OF this] q w show ?thesis by force
  qed simp
  ultimately show ?thesis unfolding CreateRestore_def by force
qed

theorem restore_not_queued_twice_witness:
  "CreateRestore no_faults 9 ''x2'' ''o1'' (Some sample_restore_request) restored_db = (restored_db, Reply 200 sample_restore)"
proof -
  let ?c = "CreateRestore no_faults 9 ''x2'' ''o1'' (Some sample_restore_request) restored_db"
  have "live_restore ''r1'' ''g1'' sample_restore_request restored_db = Some sample_restore" by code_simp
  from restore_not_queued_twice [OF this, of no_faults 9 "''x2''" "''o1''" None]
  have "fst ?c = restored_db" by (simp add: sample_restore_request_def)
  moreover have "snd ?c = Reply 200 sample_restore" by code_simp
  ultimately show ?thesis by (metis prod.collapse)
qed

lemma touch_restores [simp]: "db_restores (touch now a d) = db_restores d"
  by (simp add: touch_def Let_def)

text \<open>A restore is handed out once: after one claim was answered 200, however the database has evolved, no
  further claim of that restore is answered 200 or changes any restore.\<close>

theorem restore_claimed_once:
  assumes ok: "ClaimRestore ok flt dec auth hdr now (Some i) d = (d1, Reply n b)"
    and later: "db_later d1 d2" "db_wf d2"
  shows "status_code (snd (ClaimRestore ok' flt' dec' auth' hdr' now' (Some i) d2)) \<noteq> 200 \<and>
     db_restores (fst (ClaimRestore ok' flt' dec' auth' hdr' now' (Some i) d2)) = db_restores d2"
proof -
  obtain a where auth: "authenticateAgent ok auth hdr d = Inr a"
    using ok by (cases "authenticateAgent ok auth hdr d") (auto simp: ClaimRestore_def)
  let ?P = "\<lambda>a x. ID x = i \<and> rs_AgentID x = ID (a :: agent) \<and> rs_Status x = RestorePending"
  have "affected (?P a) (db_restores d) \<noteq> 0"
    and "db_restores d1 = update_rows now (?P a) (claim_restore_row now) (db_restores d)"
    using ok by (auto simp: ClaimRestore_def auth Let_def split: option.splits if_splits)
  moreover have "restore_table.evolves (db_restores d1) (db_restores d2)" "unique_ids (db_restores d2)"
    using later restore_index.wf_unique by (auto simp: db_later_def db_wf_def)
  ultimately have "affected (?P b) (db_restores d2) = 0" for b
    by (intro restore_claim.claimed_once [where P = "?P a" and f = "claim_restore_row now"])
       (auto simp: claim_restore_row_def)
  then show ?thesis by (auto simp: ClaimRestore_def Let_def authenticateAgent_def split: sum.splits option.splits)
qed

definition claimed_restore_db :: db where
  "claimed_restore_db = fst (ClaimRestore sample_bcrypt no_faults Some ''Bearer secret'' (Some ''g1'') 9 (Some ''x1'') restored_db)"

lemma restored_db_wf: "db_wf restored_db"
proof -
  have "db_wf (run_db RunCompleted)" by (rule run_db_wf) (simp add: run_terminal_def)
  then have "db_wf completed_db" by (simp add: db_wf_def completed_db_def)
  then show ?thesis using CreateRestore_step unfolding restored_db_def db_step_def by blast
qed

theorem restore_claimed_once_witness:
  "status_code (snd (ClaimRestore sample_bcrypt no_faults Some ''Bearer secret'' (Some ''g1'') 10 (Some ''x1'') claimed_restore_db)) \<noteq> 200"
proof -
  let ?c = "ClaimRestore sample_bcrypt no_faults Some ''Bearer secret'' (Some ''g1'') 9 (Some ''x1'') restored_db"
  have "(case snd ?c of Reply n b \<Rightarrow> n = 200 | Fail n m \<Rightarrow> False)" by code_simp
  then obtain b where "snd ?c = Reply 200 b" by (cases "snd ?c") simp_all
  then have c: "?c = (claimed_restore_db, Reply 200 b)" unfolding claimed_restore_db_def by (metis prod.collapse)
  have "db_wf claimed_restore_db"
    using ClaimRestore_step restored_db_wf unfolding claimed_restore_db_def db_step_def by blast
  moreover have "db_later claimed_restore_db claimed_restore_db" by (simp add: db_later_def tables_refl)
  ultimately show ?thesis using restore_claimed_once [OF c] by blast
qed

text \<open>What an agent's report does to its restore, for every status: a repeated final report is acknowledged
  and changes nothing; a report the transition table allows rewrites that row only, as
  \<open>restore_row\<close> says, and stamps the completion time when it is final; any other report is refused
  with 400 and changes nothing.\<close>

theorem restore_report_effect:
  assumes wf: "db_wf d" and x: "find_agent_restore (ID ag) i d = Some x"
  shows "UpdateRestore now ag (Some i) (Some q) d =
     (if rrp_Status q = rs_Status x \<and> restore_final (rs_Status x) then (d, Reply 200 ())
      else if CanRestoreTransition (rs_Status x) (rrp_Status q) then
        (emit (PublishEntity (ag_OrganizationID ag) ''restores'' ''updated'' i)
           (d\<lparr>db_restores := map (\<lambda>y. if y = x then (restore_row now x q x)\<lparr>UpdatedAt := now\<rparr> else y) (db_restores d)\<rparr>),
         Reply 200 ())
      else (d, Fail 400 (''invalid restore transition: '' @ restore_status_text (rs_Status x) @ '' -> ''
             @ restore_status_text (rrp_Status q))))"
proof -
  note xD = find_agent_restore_SomeD [OF x]
  have u: "unique_ids (db_restores d)" using wf restore_index.wf_unique by (simp add: db_wf_def)
  have up: "update_rows now (\<lambda>y. ID y = i \<and> rs_AgentID y = ID ag \<and> rs_Status y = rs_Status x) (restore_row now x q) (db_restores d) =
      map (\<lambda>y. if y = x then (restore_row now x q x)\<lparr>UpdatedAt := now\<rparr> else y) (db_restores d)"
    using xD by (intro update_unique [OF u]) simp_all
  have "restore_check ag (Some i) (Some q) d =
      (if rrp_Status q = rs_Status x \<and> restore_final (rs_Status x) then EchoReport
       else if CanRestoreTransition (rs_Status x) (rrp_Status q) then CommitReport x q
       else RefuseReport 400 (''invalid restore transition: '' @ restore_status_text (rs_Status x) @ '' -> ''
             @ restore_status_text (rrp_Status q)))"
    by (simp add: restore_check_def x restore_final_def)
  then show ?thesis by (simp add: UpdateRestore_def restore_commit_def xD(3) up)
qed

theorem restore_report_effect_witness:
  "map (\<lambda>x. (rs_Status x, rs_CompletedAt x, rs_DurationSeconds x))
     (db_restores (fst (UpdateRestore (9 + 5 * second) sample_agent (Some ''x1'') (Some \<lparr>rrp_Status = RestoreCompleted, rrp_ErrorMessage = ''''\<rparr>)
        claimed_restore_db))) = [(RestoreCompleted, Some (9 + 5 * second), 5)]"
proof -
  have wf: "db_wf claimed_restore_db"
    using ClaimRestore_step restored_db_wf unfolding claimed_restore_db_def db_step_def by blast
  let ?x = "sample_restore\<lparr>rs_Status := RestoreRunning, rs_StartedAt := Some 9, UpdatedAt := 9\<rparr>"
  have x: "find_agent_restore (ID sample_agent) ''x1'' claimed_restore_db = Some ?x" by code_simp
  have r: "db_restores claimed_restore_db = [?x]" by code_simp
  show ?thesis
    by (simp add: restore_report_effect [OF wf x] r restore_final_def restore_row_def Let_def whole_seconds_def second_def)
qed

end
