(* ===== verification/Listing.thy ===== *)
theory Listing
  imports Jobs Restores "HOL-Library.Product_Lexorder" "HOL-Library.Multiset" "HOL-Library.Word"
begin

text \<open>
  Collection endpoints: \<open>handlers/pagination.go\<close>, \<open>escapeLike\<close> of \<open>handlers/helpers.go\<close>
  and the \<open>List\<close> handlers of runs, jobs, restores, agents and alerts.

  A query string is a map from keys to values.  Go's \<open>int\<close> has 64 bits, so the offset wraps;
  GORM writes no \<open>OFFSET\<close> for a negative one.  \<open>LIKE\<close> is PostgreSQL's: a backslash escapes,
  \<open>%\<close> matches any text and \<open>_\<close> any character; \<open>ILIKE\<close> ignores case.  \<open>col k r\<close> is where the
  database puts row \<open>r\<close> in the order of column \<open>k\<close> (collation, missing values last); rows that
  tie in all columns stay in insertion order.
\<close>

subsection \<open>Parameters of a list\<close>

type_synonym query = "string \<Rightarrow> string option"

definition query_or :: "query \<Rightarrow> string \<Rightarrow> string \<Rightarrow> string" where
  "query_or c k def = (case c k of None \<Rightarrow> def | Some v \<Rightarrow> v)"

text \<open>\<open>strconv.Atoi\<close> with its error dropped: 0 for a malformed number, the nearest bound out of range.\<close>

definition is_digit :: "char \<Rightarrow> bool" where
  "is_digit c \<longleftrightarrow> 48 \<le> (of_char c :: nat) \<and> (of_char c :: nat) \<le> 57"

definition digits_value :: "string \<Rightarrow> int" where
  "digits_value s = foldl (\<lambda>n c. 10 * n + (of_char c - 48)) 0 s"

definition Atoi :: "string \<Rightarrow> int" where
  "Atoi s =
     (let neg = (case s of [] \<Rightarrow> False | c # _ \<Rightarrow> c = CHR ''-'');
          ds = (case s of [] \<Rightarrow> [] | c # cs \<Rightarrow> if c = CHR ''-'' \<or> c = CHR ''+'' then cs else s)
      in if ds = [] \<or> \<not> list_all is_digit ds then 0
         else max (- (2 ^ 63)) (min (2 ^ 63 - 1) (if neg then - digits_value ds else digits_value ds)))"

definition int64 :: "int \<Rightarrow> int" where
  "int64 i = sint (word_of_int i :: 64 word)"

record list_params =
  lp_Page :: int
  lp_Limit :: int
  lp_Offset :: int
  lp_Search :: string
  lp_Desc :: bool

definition parseListParams :: "query \<Rightarrow> list_params" where
  "parseListParams c =
     (let page0 = Atoi (query_or c ''page'' ''1''); limit0 = Atoi (query_or c ''limit'' ''50'');
          page = (if page0 < 1 then 1 else page0);
          limit = (if limit0 < 1 \<or> 200 < limit0 then 50 else limit0)
      in \<lparr>lp_Page = page, lp_Limit = limit, lp_Offset = int64 (int64 (page - 1) * limit),
          lp_Search = trim_space (query_or c ''search'' ''''),
          lp_Desc = (to_lower (query_or c ''order'' '''') \<noteq> ''asc'')\<rparr>)"

definition sortColumn :: "query \<Rightarrow> string list \<Rightarrow> string \<Rightarrow> string" where
  "sortColumn c allowed def = (let k = query_or c ''sort'' '''' in if k \<in> set allowed then k else def)"

record 'a page =
  pg_data :: "'a list"
  pg_total :: nat
  pg_page :: int
  pg_limit :: int

definition respondPaginated :: "list_params \<Rightarrow> 'a list \<Rightarrow> 'a page" where
  "respondPaginated p xs =
     \<lparr>pg_data = take (nat (lp_Limit p)) (drop (nat (lp_Offset p)) xs), pg_total = length xs,
      pg_page = lp_Page p, pg_limit = lp_Limit p\<rparr>"

definition order_rows :: "bool \<Rightarrow> ('a \<Rightarrow> 'k::linorder) \<Rightarrow> 'a list \<Rightarrow> 'a list" where
  "order_rows desc key xs = (if desc then rev (sort_key key xs) else sort_key key xs)"

subsection \<open>Search\<close>

definition escapeLike :: "string \<Rightarrow> string" where
  "escapeLike s = replace_char (CHR ''_'') [CHR 0x5C, CHR ''_'']
     (replace_char (CHR ''%'') [CHR 0x5C, CHR ''%''] (replace_char (CHR 0x5C) [CHR 0x5C, CHR 0x5C] s))"

fun like :: "string \<Rightarrow> string \<Rightarrow> bool" where
  "like [] t \<longleftrightarrow> t = []"
| "like (p # ps) t \<longleftrightarrow>
     (if p = CHR ''%'' then list_ex (\<lambda>n. like ps (drop n t)) [0..<Suc (length t)]
      else if p = CHR ''_'' then t \<noteq> [] \<and> like ps (tl t)
      else if p = CHR 0x5C then
        (case ps of [] \<Rightarrow> False | c # cs \<Rightarrow> t \<noteq> [] \<and> hd t = c \<and> like cs (tl t))
      else t \<noteq> [] \<and> hd t = p \<and> like ps (tl t))"

definition ilike :: "string \<Rightarrow> string \<Rightarrow> bool" where
  "ilike p t \<longleftrightarrow> like (to_lower p) (to_lower t)"

definition search_pattern :: "string \<Rightarrow> string" where
  "search_pattern s = ''%'' @ escapeLike s @ ''%''"

definition found :: "string \<Rightarrow> string \<Rightarrow> bool" where
  "found s t \<longleftrightarrow> ilike (search_pattern s) t"

subsection \<open>The list handlers\<close>

fun agent_status_text :: "agent_status \<Rightarrow> string" where
  "agent_status_text AgentOnline = ''ONLINE''"
| "agent_status_text AgentOffline = ''OFFLINE''"

fun alert_type_text :: "alert_type \<Rightarrow> string" where
  "alert_type_text AlertBackupFailed = ''BACKUP_FAILED''"
| "alert_type_text AlertBackupMissed = ''BACKUP_MISSED''"
| "alert_type_text AlertAgentOffline = ''AGENT_OFFLINE''"
| "alert_type_text AlertStorageLow = ''STORAGE_LOW''"
| "alert_type_text AlertRestoreFailed = ''RESTORE_FAILED''"
| "alert_type_text AlertVerifyFailed = ''VERIFY_FAILED''"

fun severity_text :: "severity \<Rightarrow> string" where
  "severity_text SeverityInfo = ''info''"
| "severity_text SeverityWarning = ''warning''"
| "severity_text SeverityCritical = ''critical''"
| "severity_text (SeverityOther s) = s"

fun alert_status_text :: "alert_status \<Rightarrow> string" where
  "alert_status_text AlertFiring = ''firing''"
| "alert_status_text AlertAcked = ''acknowledged''"
| "alert_status_text AlertResolved = ''resolved''"

text \<open>An absent or empty filter constrains nothing.\<close>

definition filter_eq :: "query \<Rightarrow> string \<Rightarrow> string \<Rightarrow> bool" where
  "filter_eq c k v \<longleftrightarrow> (let q = query_or c k '''' in q = '''' \<or> q = v)"

definition filter_eq_all :: "query \<Rightarrow> string \<Rightarrow> string \<Rightarrow> bool" where
  "filter_eq_all c k v \<longleftrightarrow> (let q = query_or c k '''' in q = '''' \<or> q = ''all'' \<or> q = v)"

definition search_in :: "query \<Rightarrow> string list \<Rightarrow> bool" where
  "search_in c texts \<longleftrightarrow> (let s = lp_Search (parseListParams c) in s = '''' \<or> list_ex (found s) texts)"

text \<open>The joined job row, soft-deleted or not.\<close>

definition joined_job :: "uuid \<Rightarrow> db \<Rightarrow> backup_job option" where
  "joined_job jid d = List.find (\<lambda>j. ID j = jid) (db_jobs d)"

definition job_names :: "uuid \<Rightarrow> db \<Rightarrow> string list" where
  "job_names jid d = (case joined_job jid d of None \<Rightarrow> [] | Some j \<Rightarrow> [job_Name j])"

definition run_matches :: "query \<Rightarrow> uuid \<Rightarrow> db \<Rightarrow> backup_run \<Rightarrow> bool" where
  "run_matches c org d r \<longleftrightarrow> run_OrganizationID r = org \<and> filter_eq c ''job_id'' (run_BackupJobID r) \<and>
     filter_eq c ''status'' (run_status_text (run_Status r)) \<and> search_in c (job_names (run_BackupJobID r) d)"

definition ListRuns ::
    "(string \<Rightarrow> backup_run \<Rightarrow> 'k::linorder) \<Rightarrow> query \<Rightarrow> uuid \<Rightarrow> db \<Rightarrow> backup_run page reply" where
  "ListRuns col c org d =
     (let p = parseListParams c;
          k = sortColumn c [''job'', ''started'', ''duration'', ''uploaded'', ''created''] ''created'';
          matching = rows (run_matches c org d) (db_runs d);
          ordered = (if lp_Desc p then order_rows True (\<lambda>r. (col k r, CreatedAt r)) matching
                     else order_rows False (\<lambda>r. (col k r, - CreatedAt r)) matching)
      in Reply 200 (respondPaginated p ordered))"

text \<open>The dashboard's canonical source name also matches the legacy alias.\<close>

definition source_filter :: "query \<Rightarrow> string \<Rightarrow> bool" where
  "source_filter c v \<longleftrightarrow> (let q = query_or c ''source_type'' '''' in
     q = '''' \<or> (if q = ''MSSQL_SERVER'' then v = ''MSSQL_SERVER'' \<or> v = ''SQL_SERVER'' else v = q))"

definition enabled_filter :: "query \<Rightarrow> bool \<Rightarrow> bool" where
  "enabled_filter c v \<longleftrightarrow> (let q = query_or c ''enabled'' '''' in
     (q = ''true'' \<or> q = ''false'') \<longrightarrow> (v \<longleftrightarrow> q = ''true''))"

definition job_matches :: "query \<Rightarrow> uuid \<Rightarrow> backup_job \<Rightarrow> bool" where
  "job_matches c org j \<longleftrightarrow> job_OrganizationID j = org \<and> source_filter c (job_SourceType j) \<and>
     enabled_filter c (job_Enabled j) \<and> search_in c [job_Name j, job_SourcePath j]"

definition canonical_source :: "backup_job \<Rightarrow> string" where
  "canonical_source j = (if job_SourceType j = ''SQL_SERVER'' then ''MSSQL_SERVER'' else job_SourceType j)"

record job_counts =
  jct_total :: nat
  jct_enabled :: nat
  jct_disabled :: nat
  jct_by_source :: "(string \<times> nat) list"

definition count_jobs :: "uuid \<Rightarrow> db \<Rightarrow> job_counts" where
  "count_jobs org d =
     (let of_org = rows (\<lambda>j. job_OrganizationID j = org) (db_jobs d);
          on = affected (\<lambda>j. job_OrganizationID j = org \<and> job_Enabled j = True) (db_jobs d);
          off = affected (\<lambda>j. job_OrganizationID j = org \<and> job_Enabled j = False) (db_jobs d)
      in \<lparr>jct_total = on + off, jct_enabled = on, jct_disabled = off,
          jct_by_source = map (\<lambda>s. (s, length (filter (\<lambda>j. canonical_source j = s) of_org)))
            (remdups (map canonical_source of_org))\<rparr>)"

definition ListJobs ::
    "(string \<Rightarrow> backup_job \<Rightarrow> 'k::linorder) \<Rightarrow> query \<Rightarrow> uuid \<Rightarrow> db \<Rightarrow> (backup_job page \<times> job_counts) reply" where
  "ListJobs col c org d =
     (let p = parseListParams c; k = sortColumn c [''name'', ''created'', ''updated'', ''enabled''] ''created'';
          ordered = order_rows (lp_Desc p) (\<lambda>j. (col k j, ID j)) (rows (job_matches c org) (db_jobs d))
      in Reply 200 (respondPaginated p (map (preload_job d) ordered), count_jobs org d))"

definition restore_matches :: "query \<Rightarrow> uuid \<Rightarrow> db \<Rightarrow> restore_job \<Rightarrow> bool" where
  "restore_matches c org d x \<longleftrightarrow> rs_OrganizationID x = org \<and>
     filter_eq c ''status'' (restore_status_text (rs_Status x)) \<and>
     search_in c (rs_DestinationPath x # rs_TargetDatabase x #
       (case List.find (\<lambda>r. ID r = rs_BackupRunID x) (db_runs d) of
          None \<Rightarrow> [] | Some r \<Rightarrow> job_names (run_BackupJobID r) d))"

definition ListRestores ::
    "(string \<Rightarrow> restore_job \<Rightarrow> 'k::linorder) \<Rightarrow> query \<Rightarrow> uuid \<Rightarrow> db \<Rightarrow> restore_job page reply" where
  "ListRestores col c org d =
     (let p = parseListParams c; k = sortColumn c [''created'', ''started'', ''duration'', ''status''] ''created''
      in Reply 200 (respondPaginated p
           (order_rows (lp_Desc p) (\<lambda>x. (col k x, ID x)) (rows (restore_matches c org d) (db_restores d)))))"

definition agent_matches :: "query \<Rightarrow> time \<Rightarrow> uuid \<Rightarrow> agent \<Rightarrow> bool" where
  "agent_matches c now org a \<longleftrightarrow> ag_OrganizationID a = org \<and> filter_eq c ''status'' (agent_status_text (ag_Status a)) \<and>
     lifecycle_filter now (query_or c ''lifecycle'' '''') a \<and> search_in c [ag_Name a, ag_MachineName a]"

definition ListAgents ::
    "(string \<Rightarrow> agent \<Rightarrow> 'k::linorder) \<Rightarrow> query \<Rightarrow> time \<Rightarrow> uuid \<Rightarrow> db \<Rightarrow> (agent \<times> lifecycle) page reply" where
  "ListAgents col c now org d =
     (let p = parseListParams c; k = sortColumn c [''name'', ''created'', ''last_seen'', ''status''] ''created''
      in Reply 200 (respondPaginated p (map (\<lambda>a. (a, Lifecycle now a))
           (order_rows (lp_Desc p) (\<lambda>a. (col k a, ID a)) (rows (agent_matches c now org) (db_agents d))))))"

definition alert_matches :: "query \<Rightarrow> uuid \<Rightarrow> alert \<Rightarrow> bool" where
  "alert_matches c org a \<longleftrightarrow> al_OrganizationID a = org \<and> (query_or c ''unread'' '''' = ''true'' \<longrightarrow> \<not> al_Read a) \<and>
     filter_eq c ''type'' (alert_type_text (al_Type a)) \<and>
     filter_eq_all c ''status'' (alert_status_text (al_Status a)) \<and>
     filter_eq_all c ''severity'' (severity_text (al_Severity a)) \<and> search_in c [al_Title a, al_Message a]"

definition ListAlerts ::
    "(string \<Rightarrow> alert \<Rightarrow> 'k::linorder) \<Rightarrow> query \<Rightarrow> uuid \<Rightarrow> db \<Rightarrow> alert page reply" where
  "ListAlerts col c org d =
     (let p = parseListParams c;
          k = sortColumn c [''created'', ''type'', ''title'', ''severity'', ''status'', ''occurred''] ''created''
      in Reply 200 (respondPaginated p
           (order_rows (lp_Desc p) (\<lambda>a. (col k a, ID a)) (rows (alert_matches c org) (db_alerts d)))))"

subsection \<open>Properties\<close>

text \<open>One escaped character.\<close>

definition esc :: "char \<Rightarrow> string" where
  "esc c = (if c \<in> {CHR 0x5C, CHR ''%'', CHR ''_''} then [CHR 0x5C, c] else [c])"

lemma replace_char_append: "replace_char c w (s @ t) = replace_char c w s @ replace_char c w t"
  by (simp add: replace_char_def)

lemma escapeLike_Cons: "escapeLike (c # s) = esc c @ escapeLike s"
proof -
  have "replace_char x w (a # u) = (if a = x then w else [a]) @ replace_char x w u" "replace_char x w [] = []" for x w a u
    by (simp_all add: replace_char_def)
  then show ?thesis by (simp add: escapeLike_def replace_char_append esc_def)
qed

lemma like_esc: "like (esc c @ ps) t \<longleftrightarrow> (\<exists>u. t = c # u \<and> like ps u)"
proof (cases "c \<in> {CHR 0x5C, CHR ''%'', CHR ''_''}")
  case True
  then have "esc c = [CHR 0x5C, c]" by (simp add: esc_def)
  then show ?thesis by (cases t) auto
next
  case False
  then have "esc c = [c]" by (simp add: esc_def)
  then show ?thesis using False by (cases t) auto
qed
lemma like_escapeLike: "like (escapeLike s @ ps) t \<longleftrightarrow> (\<exists>u. t = s @ u \<and> like ps u)"
proof (induction s arbitrary: t)
  case Nil
  then show ?case by (simp add: escapeLike_def replace_char_def)
next
  case (Cons c s)
  then show ?case by (auto simp: escapeLike_Cons like_esc)
qed

lemma like_any: "like ''%'' t"
  by (auto simp: list_ex_iff intro!: bexI [of _ "length t"])

lemma to_lower_esc: "to_lower (esc c) = esc (lower_char c)"
proof (cases "65 \<le> (of_char c :: nat) \<and> (of_char c :: nat) \<le> 90")
  case True
  then have "(of_char (lower_char c) :: nat) = of_char c + 32" by (simp add: lower_char_def)
  then have n: "97 \<le> (of_char (lower_char c) :: nat)" "(of_char (lower_char c) :: nat) \<le> 122" using True by simp_all
  have "c \<notin> {CHR 0x5C, CHR ''%'', CHR ''_''}" using True by auto
  moreover have "lower_char c \<notin> {CHR 0x5C, CHR ''%'', CHR ''_''}" using n by auto
  ultimately show ?thesis by (simp add: esc_def to_lower_def)
next
  case False
  then have "lower_char c = c" unfolding lower_char_def by (rule if_not_P)
  moreover have "lower_char (CHR 0x5C) = CHR 0x5C" by code_simp
  ultimately show ?thesis by (simp add: esc_def to_lower_def)
qed

lemma to_lower_escapeLike: "to_lower (escapeLike s) = escapeLike (to_lower s)"
proof (induction s)
  case Nil
  then show ?case by (simp add: escapeLike_def replace_char_def to_lower_def)
next
  case (Cons c s)
  have "to_lower (x @ y) = to_lower x @ to_lower y" for x y by (simp add: to_lower_def)
  then show ?case using Cons to_lower_esc [of c] by (simp add: escapeLike_Cons to_lower_def)
qed

text \<open>Search input is literal: a row is found exactly when the searched text contains the search string,
  letter case aside, whatever wildcards or backslashes the string holds.\<close>

theorem search_is_literal:
  "found s t \<longleftrightarrow> contains (to_lower s) (to_lower t)"
proof -
  have pattern: "to_lower (search_pattern s) = CHR ''%'' # escapeLike (to_lower s) @ ''%''"
    by (simp add: search_pattern_def to_lower_escapeLike [symmetric]) (simp add: to_lower_def lower_char_def)
  have "like (CHR ''%'' # escapeLike p @ ''%'') x \<longleftrightarrow> contains p x" for p x
  proof -
    have "like (CHR ''%'' # escapeLike p @ ''%'') x \<longleftrightarrow> (\<exists>n\<le>length x. \<exists>u. drop n x = p @ u)"
      by (auto simp: list_ex_iff like_escapeLike like_any less_Suc_eq_le simp del: upt_Suc)
    also have "\<dots> \<longleftrightarrow> contains p x"
      unfolding contains_iff by (metis append_take_drop_id append_eq_conv_conj linear drop_all take_all append_Nil2 length_append le_add1)
    finally show ?thesis .
  qed
  then show ?thesis by (simp add: found_def ilike_def pattern)
qed

theorem search_is_literal_witness:
  "found ''50%_A'' ''rate 50%_a'' \<and> \<not> found ''50%'' ''50 percent''"
  unfolding search_is_literal by code_simp

lemma int64_id: "- (2 ^ 63) \<le> i \<Longrightarrow> i < 2 ^ 63 \<Longrightarrow> int64 i = i"
  by (simp add: int64_def int_word_sint)

text \<open>Page parameters are clamped and do not overflow in reach: up to page \<open>2^63 div 200\<close> the offset is
  the exact product.\<close>

lemma list_params_bounded:
  "1 \<le> lp_Page (parseListParams c) \<and> 1 \<le> lp_Limit (parseListParams c) \<and> lp_Limit (parseListParams c) \<le> 200 \<and>
   (lp_Page (parseListParams c) \<le> 2 ^ 63 div 200 \<longrightarrow>
      lp_Offset (parseListParams c) = (lp_Page (parseListParams c) - 1) * lp_Limit (parseListParams c))"
proof -
  have exact: "int64 (int64 (page - 1) * limit) = (page - 1) * limit"
    if "1 \<le> page" "page \<le> 2 ^ 63 div 200" "1 \<le> limit" "limit \<le> 200" for page limit :: int
  proof -
    have "(page - 1) * limit \<le> (2 ^ 63 div 200) * 200" using that by (intro mult_mono) simp_all
    moreover have "0 \<le> (page - 1) * limit" using that by simp
    moreover have "int64 (page - 1) = page - 1" using that by (intro int64_id) simp_all
    ultimately show ?thesis by (simp add: int64_id)
  qed
  define page where "page = lp_Page (parseListParams c)"
  define limit where "limit = lp_Limit (parseListParams c)"
  have "1 \<le> page" "1 \<le> limit" "limit \<le> 200" "lp_Offset (parseListParams c) = int64 (int64 (page - 1) * limit)"
    by (simp_all add: page_def limit_def parseListParams_def Let_def)
  then show ?thesis using exact by (simp add: page_def [symmetric] limit_def [symmetric])
qed

lemma take_drop_pages: "concat (map (\<lambda>k. take l (drop (k * l) xs)) [0..<n]) = take (n * l) xs"
proof (induction n)
  case (Suc n)
  have "concat (map (\<lambda>k. take l (drop (k * l) xs)) [0..<Suc n]) = take (n * l) xs @ take l (drop (n * l) xs)"
    using Suc by simp
  also have "\<dots> = take (n * l + l) xs" by (simp add: take_add)
  finally show ?case by (simp add: add.commute)
qed simp

lemma order_rows_perm: "mset (order_rows desc key xs) = mset xs"
  by (simp add: order_rows_def)

text \<open>Paging through a list visits every matching row exactly once: the pages 1 to n with the same limit,
  put together, are the first rows of the ordering, and from the last page on they are all of
  them; the reported total is their number.\<close>

theorem pages_visit_each_row_once:
  fixes key :: "'a \<Rightarrow> 'k::linorder"
  assumes pages: "\<And>k. k < n \<Longrightarrow> lp_Page (parseListParams (c k)) = int k + 1 \<and> lp_Limit (parseListParams (c k)) = int l"
    and reach: "int n \<le> 2 ^ 63 div 200"
    and all: "length xs \<le> n * l"
  shows "concat (map (\<lambda>k. pg_data (respondPaginated (parseListParams (c k)) (order_rows desc key xs))) [0..<n])
       = order_rows desc key xs \<and>
     mset (order_rows desc key xs) = mset xs \<and>
     (\<forall>k. pg_total (respondPaginated (parseListParams (c k)) (order_rows desc key xs)) = length xs)"
proof -
  have off: "lp_Offset (parseListParams (c k)) = int (k * l)" if "k < n" for k
    using list_params_bounded [of "c k"] pages [OF that] that reach by (simp add: algebra_simps)
  have len: "length (order_rows desc key xs) = length xs" by (simp add: order_rows_def)
  have "concat (map (\<lambda>k. pg_data (respondPaginated (parseListParams (c k)) (order_rows desc key xs))) [0..<n])
      = concat (map (\<lambda>k. take l (drop (k * l) (order_rows desc key xs))) [0..<n])"
  proof (rule arg_cong [where f = concat], rule map_cong [OF refl])
    fix k assume "k \<in> set [0..<n]"
    then have "k < n" by simp
    then show "pg_data (respondPaginated (parseListParams (c k)) (order_rows desc key xs))
        = take l (drop (k * l) (order_rows desc key xs))"
      using off pages by (simp add: respondPaginated_def flip: of_nat_mult)
  qed
  also have "\<dots> = order_rows desc key xs" using all len by (simp add: take_drop_pages)
  finally show ?thesis using order_rows_perm len by (simp add: respondPaginated_def)
qed

definition page_query :: "string \<Rightarrow> query" where
  "page_query n = [''page'' \<mapsto> n, ''limit'' \<mapsto> ''2'']"

theorem pages_visit_each_row_once_witness:
  "concat (map (\<lambda>k. pg_data (respondPaginated (parseListParams (page_query ([''1'', ''2''] ! k)))
      (order_rows True (\<lambda>x. x) [3, 9, 5 :: nat]))) [0..<2]) = [9, 5, 3]"
proof -
  have p: "lp_Page (parseListParams (page_query ([''1'', ''2''] ! k))) = int k + 1 \<and>
      lp_Limit (parseListParams (page_query ([''1'', ''2''] ! k))) = int 2" if "k < 2" for k
  proof -
    have "k = 0 \<or> k = 1" using that by auto
    moreover have "lp_Page (parseListParams (page_query ''1'')) = 1" "lp_Limit (parseListParams (page_query ''1'')) = 2"
      "lp_Page (parseListParams (page_query ''2'')) = 2" "lp_Limit (parseListParams (page_query ''2'')) = 2" by code_simp+
    ultimately show ?thesis by auto
  qed
  have "order_rows True (\<lambda>x. x) [3, 9, 5 :: nat] = [9, 5, 3]" by code_simp
  then show ?thesis
    using pages_visit_each_row_once [where n = 2 and l = 2 and c = "\<lambda>k. page_query ([''1'', ''2''] ! k)"
        and xs = "[3, 9, 5 :: nat]" and key = "\<lambda>x. x" and desc = True, OF p] by simp
qed

end
