(* ===== verification/Connect.thy ===== *)
theory Connect
  imports Objects Runs Listing
begin

text \<open>
  What the agent derives from a claimed job before it runs a tool: connection parameters and connection
  strings (\<open>runner.go\<close>), SQL and T-SQL quoting (\<open>postgres_exec.go\<close>, \<open>mssql_exec.go\<close>), redaction of
  credentials (\<open>mongo_exec.go\<close>, \<open>mongo_native.go\<close>) and the choice of storage provider.
\<close>

subsection \<open>Strings\<close>

fun replace_with :: "char \<Rightarrow> string \<Rightarrow> string \<Rightarrow> string" where
  "replace_with c r [] = []"
| "replace_with c r (x # xs) = (if x = c then r @ replace_with c r xs else x # replace_with c r xs)"

definition escapeUser :: "string \<Rightarrow> string" where
  "escapeUser s =
     replace_with (CHR '':'') ''%3A'' (replace_with (CHR ''/'') ''%2F''
       (replace_with (CHR ''@'') ''%40'' (replace_with (CHR ''%'') ''%25'' s)))"

text \<open>The digit loop of \<open>itoa\<close>, last digit first; negating the least 64-bit integer leaves it negative.\<close>

function digits :: "int \<Rightarrow> string" where
  "digits n = (if n \<le> 0 then [] else digits (n div 10) @ [char_of (nat (48 + n mod 10))])"
  by pat_completeness auto
termination by (relation "measure nat") auto

declare digits.simps [simp del]

definition itoa :: "int \<Rightarrow> string" where
  "itoa n =
     (if n = 0 then ''0''
      else let neg = n < 0; m = (if neg \<and> n \<noteq> - (2 ^ 63) then - n else n)
           in (if neg then ''-'' else '''') @ digits m)"

definition buildMongoURI :: "string \<Rightarrow> string \<Rightarrow> string \<Rightarrow> int \<Rightarrow> string" where
  "buildMongoURI user password host port =
     (if user = '''' then ''mongodb://'' @ host @ '':'' @ itoa port @ ''/?authSource=admin''
      else ''mongodb://'' @ escapeUser user @ '':'' @ escapeUser password @ ''@'' @ host @ '':'' @ itoa port @
           ''/?authSource=admin'')"

subsection \<open>Connections\<close>

record pg_config =
  pg_Host :: string
  pg_Port :: int
  pg_User :: string
  pg_Password :: string

record mssql_config =
  ms_Server :: string
  ms_User :: string
  ms_Password :: string
  ms_BackupDir :: string

definition pgForConn :: "agent_connection option \<Rightarrow> pg_config \<Rightarrow> pg_config" where
  "pgForConn conn fb =
     (case conn of
        None \<Rightarrow> fb
      | Some c \<Rightarrow> \<lparr>pg_Host = (if ac_Host c = '''' then pg_Host fb else ac_Host c),
                   pg_Port = (if ac_Port c = 0 then 5432 else ac_Port c),
                   pg_User = (if ac_Username c = '''' then pg_User fb else ac_Username c),
                   pg_Password = ac_Password c\<rparr>)"

definition mongoURIForConn :: "agent_connection option \<Rightarrow> string \<Rightarrow> string" where
  "mongoURIForConn conn fb =
     (case conn of
        None \<Rightarrow> fb
      | Some c \<Rightarrow> buildMongoURI (ac_Username c) (ac_Password c)
                   (if ac_Host c = '''' then ''localhost'' else ac_Host c) (if ac_Port c = 0 then 27017 else ac_Port c))"

definition mssqlForConn :: "agent_connection option \<Rightarrow> mssql_config \<Rightarrow> mssql_config" where
  "mssqlForConn conn fb =
     (case conn of
        None \<Rightarrow> fb
      | Some c \<Rightarrow>
          let host = (if ac_Host c = '''' then ms_Server fb
                      else if ac_Port c \<noteq> 0 \<and> ac_Port c \<noteq> 1433 then ac_Host c @ '','' @ itoa (ac_Port c) else ac_Host c)
          in \<lparr>ms_Server = host,
              ms_User = (if ac_Username c = '''' then ms_User fb else ac_Username c),
              ms_Password = (if ac_Username c = '''' then ms_Password fb else ac_Password c),
              ms_BackupDir = ms_BackupDir fb\<rparr>)"

definition pgFor :: "agent_job_config option \<Rightarrow> pg_config \<Rightarrow> pg_config" where
  "pgFor job fb = (case job of None \<Rightarrow> fb | Some j \<Rightarrow> pgForConn (jc_Connection j) fb)"

definition mongoURIFor :: "agent_job_config option \<Rightarrow> string \<Rightarrow> string" where
  "mongoURIFor job fb = (case job of None \<Rightarrow> fb | Some j \<Rightarrow> mongoURIForConn (jc_Connection j) fb)"

definition mssqlFor :: "agent_job_config option \<Rightarrow> mssql_config \<Rightarrow> mssql_config" where
  "mssqlFor job fb = (case job of None \<Rightarrow> fb | Some j \<Rightarrow> mssqlForConn (jc_Connection j) fb)"

definition clearConnection :: "agent_job_config \<Rightarrow> agent_job_config" where
  "clearConnection job = job\<lparr>jc_Connection := map_option (\<lambda>c. c\<lparr>ac_Password := ''''\<rparr>) (jc_Connection job)\<rparr>"

definition isMssqlSource :: "string \<Rightarrow> bool" where
  "isMssqlSource t \<longleftrightarrow> t = ''MSSQL_SERVER'' \<or> t = ''SQL_SERVER''"

subsection \<open>Quoting and redaction\<close>

definition pgEscape :: "string \<Rightarrow> string" where
  "pgEscape s = [CHR 0x27] @ replace_with (CHR 0x27) [CHR 0x27, CHR 0x27] s @ [CHR 0x27]"

definition mssqlQuote :: "string \<Rightarrow> string" where
  "mssqlQuote name = ''['' @ replace_with (CHR '']'') '']]'' name @ '']''"

definition mssqlString :: "string \<Rightarrow> string" where
  "mssqlString s = CHR ''N'' # pgEscape s"

definition safeFileStem :: "string \<Rightarrow> string" where
  "safeFileStem name =
     (let s = to_lower (replace_unsafe False (trim_space name)) in if s = '''' then ''db'' else s)"

definition sqlcmdAuth :: "string list \<Rightarrow> mssql_config \<Rightarrow> string list" where
  "sqlcmdAuth args cfg =
     (if ms_User cfg = '''' then args @ [''-E'']
      else args @ [''-U'', ms_User cfg] @ (if ms_Password cfg = '''' then [] else [''-P'', ms_Password cfg]))"

definition pgEnv :: "string list \<Rightarrow> pg_config \<Rightarrow> string list" where
  "pgEnv env pg = (if pg_Password pg = '''' then env else env @ [''PGPASSWORD='' @ pg_Password pg])"

fun index_of :: "string \<Rightarrow> string \<Rightarrow> nat option" where
  "index_of p [] = (if p = [] then Some 0 else None)"
| "index_of p (c # s) = (if has_prefix p (c # s) then Some 0 else map_option Suc (index_of p s))"

definition last_index :: "char \<Rightarrow> string \<Rightarrow> nat option" where
  "last_index c s =
     (if c \<in> set s then Some (length s - 1 - length (takeWhile (\<lambda>x. x \<noteq> c) (rev s))) else None)"

definition redacted :: "string \<Rightarrow> string" where
  "redacted msg =
     (case (last_index (CHR ''@'') msg, index_of ''://'' msg) of
        (Some i, Some j) \<Rightarrow> if j < i then take (j + 3) msg @ ''***'' @ drop i msg else msg
      | _ \<Rightarrow> msg)"

subsection \<open>The storage of a job\<close>

fun storage_type_text :: "storage_type \<Rightarrow> string" where
  "storage_type_text StorageS3 = ''S3''"
| "storage_type_text StorageLocal = ''LOCAL''"
| "storage_type_text StorageSMB = ''SMB''"
| "storage_type_text (StorageOther s) = s"

text \<open>The arguments of \<open>storage.ForJob\<close>.\<close>

definition storage_args :: "agent_storage_config \<Rightarrow> string \<times> string \<times> s3_config option" where
  "storage_args st =
     (let t = storage_type_text (sc_Type st) in
      (t, sc_Path st,
       if to_lower (trim_space t) = ''s3''
       then Some \<lparr>s3_Bucket = sc_Bucket st, s3_Region = sc_Region st, s3_Endpoint = sc_Endpoint st,
                  s3_UsePathStyle = sc_UsePathStyle st, s3_AccessKey = sc_AccessKey st, s3_SecretKey = sc_SecretKey st\<rparr>
       else None))"

definition storageForJob :: "agent_job_config \<Rightarrow> string \<times> string \<times> s3_config option" where
  "storageForJob job =
     storage_args
       (if trim_space (storage_type_text (sc_Type (jc_Storage job))) = ''''
        then \<lparr>sc_Type = jc_StorageType job, sc_Path = jc_StoragePath job, sc_Bucket = jc_StorageBucket job,
              sc_Region = jc_StorageRegion job, sc_Endpoint = jc_StorageEndpoint job, sc_UsePathStyle = False,
              sc_AccessKey = '''', sc_SecretKey = ''''\<rparr>
        else jc_Storage job)"

subsection \<open>Laws\<close>

lemma replace_with_set: "c \<notin> set r \<Longrightarrow> c \<notin> set (replace_with c r s)"
  by (induction s) auto

lemma replace_with_other: "d \<notin> set r \<Longrightarrow> d \<notin> set s \<Longrightarrow> d \<notin> set (replace_with c r s)"
  by (induction s) auto

text \<open>No escaped user or password can end the credential part of the URI.\<close>

lemma escapeUser_safe: "set (escapeUser s) \<inter> {CHR ''@'', CHR ''/'', CHR '':''} = {}"
proof -
  have "CHR '':'' \<notin> set (escapeUser s)" by (simp add: escapeUser_def replace_with_set)
  moreover have "CHR ''/'' \<notin> set (escapeUser s)"
    unfolding escapeUser_def by (rule replace_with_other) (simp_all add: replace_with_set)
  moreover have "CHR ''@'' \<notin> set (escapeUser s)"
    unfolding escapeUser_def
    by (rule replace_with_other, simp, rule replace_with_other, simp, rule replace_with_set, simp)
  ultimately show ?thesis by auto
qed

text \<open>A reader of a doubled quote inside quotes: the value, and what follows the closing quote.\<close>

fun unquote :: "char \<Rightarrow> string \<Rightarrow> (string \<times> string) option" where
  "unquote q [] = None"
| "unquote q (c # s) =
     (if c = q then
        (case s of
           d # s' \<Rightarrow> if d = q then map_option (\<lambda>(v, r). (q # v, r)) (unquote q s') else Some ([], s)
         | [] \<Rightarrow> Some ([], []))
      else map_option (\<lambda>(v, r). (c # v, r)) (unquote q s))"

lemma unquote_replace:
  "r = [] \<or> hd r \<noteq> q \<Longrightarrow> unquote q (replace_with q [q, q] s @ q # r) = Some (s, r)"
proof (induction s)
  case Nil
  then show ?case by (cases r) simp_all
qed simp_all

text \<open>What is quoted reads back as itself, so no database or object name can leave its literal.\<close>

lemma quoting_is_safe:
  assumes "rest = [] \<or> hd rest \<noteq> CHR 0x27" and "rest' = [] \<or> hd rest' \<noteq> CHR '']''"
  shows "unquote (CHR 0x27) (tl (pgEscape s) @ rest) = Some (s, rest)"
    and "unquote (CHR '']'') (tl (mssqlQuote s) @ rest') = Some (s, rest')"
  using unquote_replace [OF assms(1), of s] unquote_replace [OF assms(2), of s]
  by (simp_all add: pgEscape_def mssqlQuote_def)

lemma digits_spec: "0 \<le> n \<Longrightarrow> digits_value (digits n) = n \<and> list_all is_digit (digits n) \<and> (0 < n \<longrightarrow> digits n \<noteq> [])"
proof (induction n rule: digits.induct)
  case (1 n)
  show ?case
  proof (cases "n \<le> 0")
    case True
    then show ?thesis using 1 by (subst (1 2 3) digits.simps) (simp add: digits_value_def)
  next
    case False
    have d: "digits n = digits (n div 10) @ [char_of (nat (48 + n mod 10))]" using False by (subst digits.simps) simp
    have c: "of_char (char_of (nat (48 + n mod 10))) = 48 + n mod 10" "is_digit (char_of (nat (48 + n mod 10)))"
    proof -
      let ?m = "nat (48 + n mod 10)"
      have r: "0 \<le> n mod 10" "n mod 10 < 10" by simp_all
      have m: "of_char (char_of ?m) = ?m" using r by simp
      then show "of_char (char_of ?m) = 48 + n mod 10"
        using r by (metis of_nat_of_char int_nat_eq add_nonneg_nonneg zero_le_numeral)
      show "is_digit (char_of ?m)" unfolding is_digit_def m using r by linarith
    qed
    have "digits_value (digits (n div 10)) = n div 10" "list_all is_digit (digits (n div 10))"
      using 1 False by simp_all
    then show ?thesis unfolding d using c by (simp add: digits_value_def)
  qed
qed

text \<open>Parsing what \<open>itoa\<close> printed gives the number back, for every 64-bit integer but the least.\<close>

lemma itoa_roundtrip:
  assumes "- (2 ^ 63) < n" and "n < 2 ^ 63"
  shows "Atoi (itoa n) = n"
proof (cases "n = 0")
  case True
  then show ?thesis by (simp add: itoa_def Atoi_def is_digit_def digits_value_def)
next
  case False
  define m where "m = \<bar>n\<bar>"
  have m: "0 < m" "m < 2 ^ 63" using assms False by (simp_all add: m_def)
  note d = digits_spec [of m]
  have first: "\<exists>c cs. digits m = c # cs \<and> c \<noteq> CHR ''-'' \<and> c \<noteq> CHR ''+''"
    using d m(1) by (cases "digits m") (auto simp: is_digit_def)
  then obtain c cs where cs: "digits m = c # cs" "c \<noteq> CHR ''-''" "c \<noteq> CHR ''+''" by blast
  have v: "digits_value (c # cs) = m" "list_all is_digit (c # cs)" using d m(1) cs(1) by simp_all
  have i: "itoa n = (if n < 0 then ''-'' else '''') @ (c # cs)"
    using False assms(1) by (auto simp: itoa_def Let_def m_def [symmetric] cs(1) [symmetric])
      (simp_all add: m_def)
  show ?thesis
    using v m(2) cs(2,3) unfolding i by (auto simp: Atoi_def Let_def m_def)
qed

end
