(* ===== verification/Crypto.thy ===== *)
theory Crypto
  imports Files "HOL-Library.Word"
begin

text \<open>
  The encrypted container of \<open>agent/internal/agent/crypto.go\<close>: \<open>EncryptFile\<close> cuts a payload into 1 MiB
  chunks and writes \<open>magic | prefix | frames\<close>, one AES-GCM frame per chunk; \<open>DecryptFile\<close> reads it back.
  Bytes are characters.  AES-GCM itself belongs to Go's library: \<open>seal\<close> and \<open>opn\<close> are parameters, and
  \<open>gcm_laws\<close> is what its documentation promises.  \<open>prefix\<close> stands for the four random bytes, \<open>sha\<close> for
  hex SHA-256, \<open>io\<close> for failing file operations.  Source and destination are different files (the
  callers append \<open>.enc\<close> or \<open>.dec\<close>).
\<close>

subsection \<open>Big-endian integers\<close>

fun be_bytes :: "nat \<Rightarrow> nat \<Rightarrow> string" where
  "be_bytes 0 n = []"
| "be_bytes (Suc w) n = be_bytes w (n div 256) @ [char_of (n mod 256)]"

definition be_value :: "string \<Rightarrow> nat" where
  "be_value bs = foldl (\<lambda>a c. a * 256 + of_char c) 0 bs"

lemma length_be_bytes [simp]: "length (be_bytes w n) = w"
  by (induction w arbitrary: n) simp_all

lemma be_value_bytes: "be_value (be_bytes w n) = n mod 256 ^ w"
proof (induction w arbitrary: n)
  case (Suc w)
  have "be_value (be_bytes (Suc w) n) = (n div 256 mod 256 ^ w) * 256 + n mod 256"
    using Suc [of "n div 256"] by (simp add: be_value_def)
  also have "\<dots> = n mod 256 ^ Suc w" by (simp add: mod_mult2_eq mult.commute)
  finally show ?case .
qed (simp add: be_value_def)

lemma be_bytes_inj:
  assumes "be_bytes w m = be_bytes w n" and "m < 256 ^ w" and "n < 256 ^ w"
  shows "m = n"
proof -
  have "be_value (be_bytes w m) = be_value (be_bytes w n)" using assms(1) by (rule arg_cong)
  then show ?thesis using assms(2,3) by (simp add: be_value_bytes)
qed

subsection \<open>The container\<close>

definition encMagic :: string where "encMagic = ''VG01''"
definition encChunkSize :: nat where "encChunkSize = 2 ^ 20"
definition gcm_overhead :: nat where "gcm_overhead = 16"

definition gcm_laws :: "(string \<Rightarrow> string \<Rightarrow> string \<Rightarrow> string) \<Rightarrow> (string \<Rightarrow> string \<Rightarrow> string \<Rightarrow> string option) \<Rightarrow> bool" where
  "gcm_laws seal opn \<longleftrightarrow>
     (\<forall>key nonce pt. length key = 32 \<longrightarrow> length nonce = 12 \<longrightarrow>
        opn key nonce (seal key nonce pt) = Some pt \<and>
        length (seal key nonce pt) = length pt + gcm_overhead)"

definition nonceFor :: "string \<Rightarrow> 64 word \<Rightarrow> string" where
  "nonceFor pre counter = take 4 (pre @ replicate 4 (char_of (0 :: nat))) @ be_bytes 8 (unat counter)"

text \<open>One pass of the loop of \<open>EncryptFile\<close>: \<open>io.ReadFull\<close> fills the buffer, a short or empty read ends the
  loop.  A frame is its nonce and ciphertext.\<close>

function enc_frames :: "(string \<Rightarrow> string \<Rightarrow> string \<Rightarrow> string) \<Rightarrow> string \<Rightarrow> string \<Rightarrow> 64 word \<Rightarrow> string
    \<Rightarrow> (string \<times> string) list" where
  "enc_frames seal key pre counter src =
     (let buf = take encChunkSize src; nonce = nonceFor pre counter in
      if buf = [] then []
      else (nonce, seal key nonce buf) #
        (if length buf < encChunkSize then []
         else enc_frames seal key pre (counter + 1) (drop encChunkSize src)))"
  by pat_completeness auto
termination
  by (relation "measure (\<lambda>(_, _, _, _, src). length src)") (auto simp: encChunkSize_def)

declare enc_frames.simps [simp del]

definition frame_bytes :: "string \<times> string \<Rightarrow> string" where
  "frame_bytes fr = fst fr @ be_bytes 4 (length (snd fr)) @ snd fr"

definition container :: "string \<Rightarrow> (string \<times> string) list \<Rightarrow> string" where
  "container pre frs = encMagic @ pre @ concat (map frame_bytes frs)"

definition EncryptFile :: "(string \<Rightarrow> bool) \<Rightarrow> (string \<Rightarrow> string \<Rightarrow> string \<Rightarrow> string) \<Rightarrow> (string \<Rightarrow> string) \<Rightarrow> string
    \<Rightarrow> string \<Rightarrow> path \<Rightarrow> path \<Rightarrow> files \<Rightarrow> files \<times> (string + string)" where
  "EncryptFile io seal sha pre key srcPath dstPath fs =
     (if length key \<noteq> 32 then (fs, Inl ''data key must be 32 bytes'')
      else (case (if io ''open'' then None else file_at fs srcPath) of
        None \<Rightarrow> (fs, Inl ''open plaintext'')
      | Some src \<Rightarrow>
          (case (if io ''create'' then None else create_file dstPath fs) of
             None \<Rightarrow> (fs, Inl ''create ciphertext'')
           | Some fs1 \<Rightarrow>
               let out = container pre (enc_frames seal key pre 0 src) in
               if io ''write'' \<or> io ''read'' \<or> io ''close'' then (fs1, Inl ''write ciphertext'')
               else (set_file dstPath out fs1, Inr (sha out)))))"

definition ChecksumFile :: "(string \<Rightarrow> bool) \<Rightarrow> (string \<Rightarrow> string) \<Rightarrow> path \<Rightarrow> files \<Rightarrow> string + string" where
  "ChecksumFile io sha p fs =
     (case (if io ''open'' \<or> io ''read'' then None else file_at fs p) of
        None \<Rightarrow> Inl ''open'' | Some x \<Rightarrow> Inr (sha x))"

text \<open>The loop of \<open>DecryptFile\<close> over the bytes after the header.\<close>

function dec_frames :: "(string \<Rightarrow> string \<Rightarrow> string \<Rightarrow> string option) \<Rightarrow> string \<Rightarrow> string \<Rightarrow> string + string" where
  "dec_frames opn key src =
     (if src = [] then Inr []
      else if length src < 16 then Inl ''truncated frame header''
      else
        let n = be_value (take 4 (drop 12 src)); rest = drop 16 src in
        if n = 0 \<or> n > encChunkSize + gcm_overhead + 16 then Inl ''corrupt frame length''
        else if length rest < n then Inl ''truncated frame body''
        else (case opn key (take 12 src) (take n rest) of
            None \<Rightarrow> Inl ''authentication failed''
          | Some pt \<Rightarrow>
              (case dec_frames opn key (drop n rest) of Inl e \<Rightarrow> Inl e | Inr pts \<Rightarrow> Inr (pt @ pts))))"
  by pat_completeness auto
termination
  by (relation "measure (\<lambda>(_, _, src). length src)") auto

declare dec_frames.simps [simp del]

definition DecryptFile :: "(string \<Rightarrow> bool) \<Rightarrow> (string \<Rightarrow> string \<Rightarrow> string \<Rightarrow> string option) \<Rightarrow> string
    \<Rightarrow> path \<Rightarrow> path \<Rightarrow> files \<Rightarrow> files \<times> (string + unit)" where
  "DecryptFile io opn key srcPath dstPath fs =
     (if length key \<noteq> 32 then (fs, Inl ''data key must be 32 bytes'')
      else (case (if io ''open'' then None else file_at fs srcPath) of
        None \<Rightarrow> (fs, Inl ''open ciphertext'')
      | Some src \<Rightarrow>
          if take 4 src \<noteq> encMagic then (fs, Inl ''not a VaultGuard encrypted file'')
          else if length src < 8 then (fs, Inl ''truncated header'')
          else (case (if io ''create'' then None else create_file dstPath fs) of
             None \<Rightarrow> (fs, Inl ''create plaintext'')
           | Some fs1 \<Rightarrow>
               (case dec_frames opn key (drop 8 src) of
                  Inl e \<Rightarrow> (drop_file dstPath fs1, Inl e)
                | Inr pt \<Rightarrow>
                    if io ''write'' then (drop_file dstPath fs1, Inl ''write plaintext'')
                    else (set_file dstPath pt fs1, if io ''close'' then Inl ''close'' else Inr ())))))"

subsection \<open>Chunks and nonces\<close>

text \<open>The plaintext chunks, in order.\<close>

function chunks :: "string \<Rightarrow> string list" where
  "chunks src =
     (if src = [] then []
      else take encChunkSize src # (if length src < encChunkSize then [] else chunks (drop encChunkSize src)))"
  by pat_completeness auto
termination
  by (relation "measure length") (auto simp: encChunkSize_def)

declare chunks.simps [simp del]

lemma encChunkSize_pos [simp]: "0 < encChunkSize" "encChunkSize \<noteq> 0"
  by (simp_all add: encChunkSize_def)

lemma take_chunk_Nil [simp]: "take encChunkSize src = [] \<longleftrightarrow> src = []"
  by simp

lemma concat_chunks: "concat (chunks src) = src"
proof (induction src rule: chunks.induct)
  case (1 src)
  then show ?case by (subst chunks.simps) simp
qed

lemma chunk_length: "c \<in> set (chunks src) \<Longrightarrow> 0 < length c \<and> length c \<le> encChunkSize"
proof (induction src rule: chunks.induct)
  case (1 src)
  then show ?case by (subst (asm) chunks.simps) (auto split: if_splits)
qed

lemma enc_frames_chunks:
  "enc_frames seal key pre c src =
     map (\<lambda>(i, buf). (nonceFor pre (c + of_nat i), seal key (nonceFor pre (c + of_nat i)) buf)) (enumerate 0 (chunks src))"
proof (induction src arbitrary: c rule: chunks.induct)
  case (1 src)
  have shift: "map (\<lambda>(i, buf). f (c + 1 + of_nat i) buf) (enumerate 0 xs) =
      map (\<lambda>(i, buf). f (c + of_nat i) buf) (enumerate (Suc 0) xs)" for f :: "64 word \<Rightarrow> string \<Rightarrow> string \<times> string" and xs
  proof -
    have "map (\<lambda>(i, buf). f (c + 1 + of_nat i) buf) (enumerate n xs) =
        map (\<lambda>(i, buf). f (c + of_nat i) buf) (enumerate (Suc n) xs)" for n
      by (induction xs arbitrary: n) (simp_all add: add.assoc)
    then show ?thesis .
  qed
  show ?case
  proof (cases "src = [] \<or> length src < encChunkSize")
    case True
    then show ?thesis by (subst enc_frames.simps, subst chunks.simps) (auto simp: Let_def)
  next
    case False
    then show ?thesis
      using 1 [of "c + 1"] shift [of "\<lambda>c buf. (nonceFor pre c, seal key (nonceFor pre c) buf)" "chunks (drop encChunkSize src)"]
      by (subst enc_frames.simps, subst chunks.simps) (simp add: Let_def)
  qed
qed

lemma length_chunks: "length (chunks src) * encChunkSize < length src + encChunkSize"
proof (induction src rule: chunks.induct)
  case (1 src)
  then show ?case by (subst chunks.simps) auto
qed

lemma length_nonceFor [simp]: "length (nonceFor pre c) = 12"
  by (simp add: nonceFor_def)

lemma unat_64: "unat (c :: 64 word) < 18446744073709551616"
  using unsigned_less [of c] by simp

lemma nonceFor_inj: "nonceFor pre c = nonceFor pre d \<Longrightarrow> c = d"
proof -
  assume "nonceFor pre c = nonceFor pre d"
  then have "be_bytes 8 (unat c) = be_bytes 8 (unat d)" by (simp add: nonceFor_def)
  then have "unat c = unat d"
    using unat_64 by (intro be_bytes_inj [of 8]) simp_all
  then show "c = d" by (simp add: word_unat_eq_iff)
qed

subsection \<open>Reading back\<close>

text \<open>A frame list that \<open>EncryptFile\<close> could have written, with the plaintexts inside.\<close>

definition sealed_frames :: "(string \<Rightarrow> string \<Rightarrow> string \<Rightarrow> string) \<Rightarrow> string \<Rightarrow> (string \<times> string) list \<Rightarrow> string list \<Rightarrow> bool" where
  "sealed_frames seal key frs pts \<longleftrightarrow>
     list_all2 (\<lambda>fr pt. length (fst fr) = 12 \<and> snd fr = seal key (fst fr) pt \<and> length pt \<le> encChunkSize) frs pts"

lemma dec_frames_step:
  assumes laws: "gcm_laws seal opn" and "length key = 32" and "length nonce = 12" and pt: "length pt \<le> encChunkSize"
  shows "dec_frames opn key (frame_bytes (nonce, seal key nonce pt) @ rest) =
    (case dec_frames opn key rest of Inl e \<Rightarrow> Inl e | Inr pts \<Rightarrow> Inr (pt @ pts))"
proof -
  let ?ct = "seal key nonce pt"
  define src where "src = frame_bytes (nonce, ?ct) @ rest"
  have ct: "length ?ct = length pt + gcm_overhead" "opn key nonce ?ct = Some pt"
    using laws assms(2,3) unfolding gcm_laws_def by blast+
  then have "length ?ct < 256 ^ 4" using pt by (simp add: encChunkSize_def gcm_overhead_def)
  then have n: "be_value (be_bytes 4 (length ?ct)) = length ?ct" by (simp add: be_value_bytes)
  have parts: "src \<noteq> []" "\<not> length src < 16" "take 4 (drop 12 src) = be_bytes 4 (length ?ct)"
    "drop 16 src = ?ct @ rest" "take 12 src = nonce"
    using assms(3) by (auto simp: src_def frame_bytes_def)
  have ok: "?ct \<noteq> []" "\<not> encChunkSize + gcm_overhead + 16 < length ?ct"
    using ct(1) pt by (auto simp: gcm_overhead_def)
  have "dec_frames opn key src = (case dec_frames opn key rest of Inl e \<Rightarrow> Inl e | Inr pts \<Rightarrow> Inr (pt @ pts))"
    by (subst dec_frames.simps) (simp add: parts n ok Let_def ct(2))
  then show ?thesis by (simp add: src_def)
qed

lemma dec_sealed:
  assumes "gcm_laws seal opn" and "length key = 32" and "sealed_frames seal key frs pts"
  shows "dec_frames opn key (concat (map frame_bytes frs)) = Inr (concat pts)"
  using assms(3) unfolding sealed_frames_def
proof (induction frs pts rule: list_all2_induct)
  case Nil
  then show ?case by (subst dec_frames.simps) simp
next
  case (Cons fr frs pt pts)
  then show ?case using dec_frames_step [OF assms(1,2), of "fst fr" pt] by (cases fr) simp
qed

lemma enc_sealed: "sealed_frames seal key (enc_frames seal key pre c src) (chunks src)"
  unfolding sealed_frames_def enc_frames_chunks
  by (auto simp: list_all2_conv_all_nth nth_enumerate_eq dest!: nth_mem chunk_length)

lemma sealed_take: "sealed_frames seal key frs pts \<Longrightarrow> sealed_frames seal key (take k frs) (take k pts)"
  unfolding sealed_frames_def by (rule list_all2_takeI)

lemma EncryptFile_OkD:
  assumes "EncryptFile io seal sha pre key srcPath dstPath fs = (fs1, Inr digest)"
  obtains src where "length key = 32" "file_at fs srcPath = Some src"
    "file_at fs1 dstPath = Some (container pre (enc_frames seal key pre 0 src))"
    "digest = sha (container pre (enc_frames seal key pre 0 src))"
  using assms by (auto simp: EncryptFile_def Let_def split: if_splits option.splits)

lemma container_parts:
  assumes "length pre = 4"
  shows "take 4 (container pre frs) = encMagic" and "\<not> length (container pre frs) < 8"
    and "drop 8 (container pre frs) = concat (map frame_bytes frs)"
  using assms by (simp_all add: container_def encMagic_def)

lemma DecryptFile_container:
  assumes "gcm_laws seal opn" and "length key = 32" and "length pre = 4" and "sealed_frames seal key frs pts"
    and "file_at fs srcPath = Some (container pre frs)" and "create_file dstPath fs \<noteq> None"
  shows "DecryptFile (\<lambda>_. False) opn key srcPath dstPath fs =
    (set_file dstPath (concat pts) (the (create_file dstPath fs)), Inr ())"
  using assms container_parts [OF assms(3)] dec_sealed [OF assms(1,2,4)]
  by (auto simp: DecryptFile_def)

text \<open>C6. What \<open>EncryptFile\<close> writes, \<open>DecryptFile\<close> with the same key restores byte for byte, and the returned
  checksum is that of the ciphertext file, whatever the payload's length and the random prefix.\<close>

theorem encrypt_decrypt_roundtrip:
  assumes "gcm_laws seal opn" and "length pre = 4"
    and "EncryptFile io seal sha pre key srcPath encPath fs = (fs1, Inr digest)"
    and "create_file decPath fs1 \<noteq> None"
  shows "snd (DecryptFile (\<lambda>_. False) opn key encPath decPath fs1) = Inr () \<and>
    file_at (fst (DecryptFile (\<lambda>_. False) opn key encPath decPath fs1)) decPath = file_at fs srcPath \<and>
    ChecksumFile (\<lambda>_. False) sha encPath fs1 = Inr digest"
proof -
  obtain src where src: "length key = 32" "file_at fs srcPath = Some src"
    "file_at fs1 encPath = Some (container pre (enc_frames seal key pre 0 src))"
    "digest = sha (container pre (enc_frames seal key pre 0 src))"
    using assms(3) by (rule EncryptFile_OkD)
  show ?thesis
    using DecryptFile_container [OF assms(1) src(1) assms(2) enc_sealed src(3) assms(4)] src
    by (simp add: concat_chunks ChecksumFile_def)
qed

definition toy_seal :: "string \<Rightarrow> string \<Rightarrow> string \<Rightarrow> string" where
  "toy_seal key nonce pt = pt @ replicate 16 (CHR ''t'')"

definition toy_open :: "string \<Rightarrow> string \<Rightarrow> string \<Rightarrow> string option" where
  "toy_open key nonce ct =
     (if drop (length ct - 16) ct = replicate 16 (CHR ''t'') then Some (take (length ct - 16) ct) else None)"

lemma toy_gcm: "gcm_laws toy_seal toy_open"
  by (simp add: gcm_laws_def toy_seal_def toy_open_def gcm_overhead_def)

definition payload_tree :: files where
  "payload_tree = \<lparr>fs_files = [([''tmp'', ''a.tar''], ''payload'')], fs_dirs = [[''tmp'']]\<rparr>"

theorem encrypt_decrypt_roundtrip_witness:
  "\<exists>fs1 digest. EncryptFile (\<lambda>_. False) toy_seal (\<lambda>_. ''d'') ''abcd'' (replicate 32 (CHR ''k'')) [''tmp'', ''a.tar'']
      [''tmp'', ''a.tar.enc''] payload_tree = (fs1, Inr digest) \<and>
    file_at (fst (DecryptFile (\<lambda>_. False) toy_open (replicate 32 (CHR ''k'')) [''tmp'', ''a.tar.enc'']
      [''tmp'', ''a.dec''] fs1)) [''tmp'', ''a.dec''] = Some ''payload''"
proof -
  let ?key = "replicate 32 (CHR ''k'')"
  have src: "file_at payload_tree [''tmp'', ''a.tar''] = Some ''payload''" by (simp add: payload_tree_def file_at_def)
  obtain fs1 where e: "EncryptFile (\<lambda>_. False) toy_seal (\<lambda>_. ''d'') ''abcd'' ?key [''tmp'', ''a.tar'']
      [''tmp'', ''a.tar.enc''] payload_tree = (fs1, Inr ''d'')" and "create_file [''tmp'', ''a.dec''] fs1 \<noteq> None"
    by (simp add: EncryptFile_def src create_file_def) (simp add: payload_tree_def is_dir_def)
  from encrypt_decrypt_roundtrip [OF toy_gcm _ this] e src show ?thesis by auto
qed

text \<open>No two chunks of a file share a nonce: the 64-bit counter does not come round within \<open>2 ^ 84\<close> bytes
  (sixteen yobibytes), whatever value it starts from.\<close>

theorem nonces_never_reused:
  assumes "length src \<le> 2 ^ 84"
  shows "distinct (map fst (enc_frames seal key pre c src))"
proof -
  let ?n = "length (chunks src)"
  have "?n * 2 ^ 20 < (2 ^ 64 + 1) * 2 ^ 20"
    using length_chunks [of src] assms by (simp add: encChunkSize_def)
  then have n: "?n \<le> 2 ^ 64" by simp
  have "map fst (enc_frames seal key pre c src) = map (\<lambda>i. nonceFor pre (c + of_nat i)) [0..<?n]"
    unfolding enc_frames_chunks by (rule nth_equalityI) (simp_all add: nth_enumerate_eq)
  moreover have "inj_on (\<lambda>i. nonceFor pre (c + of_nat i)) {0..<?n}"
  proof (rule inj_onI)
    fix i j
    assume ij: "i \<in> {0..<?n}" "j \<in> {0..<?n}" "nonceFor pre (c + of_nat i) = nonceFor pre (c + of_nat j)"
    then have "(of_nat i :: 64 word) = of_nat j" using nonceFor_inj by fastforce
    moreover have "i < 2 ^ 64" "j < 2 ^ 64" using ij n by auto
    then have "take_bit 64 i = i" "take_bit 64 j = j" by (simp_all add: take_bit_nat_eq_self)
    ultimately show "i = j" by (simp add: word_of_nat_eq_iff)
  qed
  ultimately show ?thesis by (simp add: distinct_map)
qed

theorem nonces_never_reused_witness: "distinct (map fst (enc_frames toy_seal ''k'' ''abcd'' (- 1) ''payload''))"
  by (rule nonces_never_reused) simp

text \<open>A container cut off between two frames decrypts without any error to a prefix of the payload: the
  format has no end mark, so \<open>DecryptFile\<close> alone does not notice the loss.\<close>

theorem truncation_undetected:
  assumes "gcm_laws seal opn" and "length key = 32" and "length pre = 4"
    and "file_at fs srcPath = Some (container pre (take k (enc_frames seal key pre 0 src)))"
    and "create_file dstPath fs \<noteq> None"
  shows "snd (DecryptFile (\<lambda>_. False) opn key srcPath dstPath fs) = Inr () \<and>
    file_at (fst (DecryptFile (\<lambda>_. False) opn key srcPath dstPath fs)) dstPath = Some (concat (take k (chunks src)))"
  using DecryptFile_container [OF assms(1,2,3) sealed_take [OF enc_sealed] assms(4,5)] by simp

theorem truncation_undetected_witness:
  "file_at (fst (DecryptFile (\<lambda>_. False) toy_open (replicate 32 (CHR ''k'')) [''e''] [''d'']
     \<lparr>fs_files = [([''e''], ''VG01abcd'')], fs_dirs = []\<rparr>)) [''d''] = Some ''''"
proof -
  let ?fs = "\<lparr>fs_files = [([''e''], ''VG01abcd'')], fs_dirs = []\<rparr>"
  have fs: "file_at ?fs [''e''] = Some (container ''abcd'' (take 0 (enc_frames toy_seal k ''abcd'' 0 ''lost'')))"
    "create_file [''d''] ?fs \<noteq> None" for k
    by (simp_all add: file_at_def create_file_def is_dir_def container_def encMagic_def)
  show ?thesis
    using truncation_undetected [OF toy_gcm _ _ fs, of "replicate 32 (CHR ''k'')"] by simp
qed



end
