(* ===== verification/Tools.thy ===== *)
theory Tools
  imports Connect Crypto
begin

text \<open>
  The database tools the agent drives: \<open>postgres_exec.go\<close>, \<open>mssql_exec.go\<close> and the mongodump part of
  \<open>mongo_exec.go\<close>.  A machine is the agent's files together with the outside world \<open>'t\<close> (the database
  servers); \<open>run\<close> executes one command line on it.  What the programs themselves do is a parameter, as are
  the search for their binaries (\<open>bin\<close>), gzip and the names of temporary files.
\<close>

subsection \<open>Commands\<close>

type_synonym 't machine = "'t \<times> files"

record tool_output =
  co_Ok :: bool
  co_Stdout :: string
  co_Stderr :: string
  co_Error :: string

type_synonym 't runner = "string list \<Rightarrow> 't machine \<Rightarrow> 't machine \<times> tool_output"

definition nl_char :: char where "nl_char = CHR 0x0A"

definition firstLine :: "string \<Rightarrow> string" where
  "firstLine s = trim_space (takeWhile (\<lambda>c. c \<noteq> nl_char) s)"

definition stderr_of :: "tool_output \<Rightarrow> string" where
  "stderr_of r = (let msg = trim_space (co_Stderr r) in if msg = '''' then co_Error r else msg)"

text \<open>Sequencing of steps that may fail.\<close>

definition next_step :: "('w \<Rightarrow> 'w \<times> (string + 'a)) \<Rightarrow> ('a \<Rightarrow> 'w \<Rightarrow> 'w \<times> (string + 'b)) \<Rightarrow> 'w \<Rightarrow> 'w \<times> (string + 'b)" where
  "next_step m f w = (case m w of (w1, Inl e) \<Rightarrow> (w1, Inl e) | (w1, Inr a) \<Rightarrow> f a w1)"

definition on_files :: "(files \<Rightarrow> files) \<Rightarrow> 't machine \<Rightarrow> 't machine" where
  "on_files f m = (fst m, f (snd m))"

text \<open>\<open>os.CreateTemp\<close> at a name chosen beforehand, and \<open>os.Stat\<close> of a file.\<close>

definition temp_file :: "path \<Rightarrow> 't machine \<Rightarrow> 't machine \<times> (string + unit)" where
  "temp_file p m =
     (case create_file p (snd m) of None \<Rightarrow> (m, Inl ''create temp file'') | Some fs \<Rightarrow> ((fst m, fs), Inr ()))"

definition stat_size :: "path \<Rightarrow> 't machine \<Rightarrow> 't machine \<times> (string + int)" where
  "stat_size p m = (case file_at (snd m) p of None \<Rightarrow> (m, Inl ''stat'') | Some x \<Rightarrow> (m, Inr (int (length x))))"

text \<open>\<open>GzipFile\<close> and \<open>GunzipFile\<close>: the destination is created before anything is copied and stays when the
  copy fails.  \<open>gz\<close> is the compressor, or the decompressor.\<close>

definition convert_file :: "(string \<Rightarrow> string option) \<Rightarrow> path \<Rightarrow> path \<Rightarrow> files \<Rightarrow> files \<times> bool" where
  "convert_file gz src dst fs =
     (case file_at fs src of
        None \<Rightarrow> (fs, False)
      | Some x \<Rightarrow>
          (case create_file dst fs of
             None \<Rightarrow> (fs, False)
           | Some fs1 \<Rightarrow> (case gz x of None \<Rightarrow> (fs1, False) | Some y \<Rightarrow> (set_file dst y fs1, True))))"

subsection \<open>PostgreSQL\<close>

definition pg_args :: "pg_config \<Rightarrow> string list" where
  "pg_args pg = [''-h'', pg_Host pg, ''-p'', itoa (pg_Port pg), ''-U'', pg_User pg]"

definition tables_query :: string where
  "tables_query = ''SELECT count(*) FROM information_schema.tables WHERE table_schema NOT IN ('' @
     [CHR 0x27] @ ''pg_catalog'' @ [CHR 0x27] @ '', '' @ [CHR 0x27] @ ''information_schema'' @ [CHR 0x27] @ '');''"

text \<open>\<open>strconv.Atoi\<close> as the code uses it: a number that is malformed or out of range counts as zero tables.\<close>

definition nonzero_count :: "string \<Rightarrow> bool" where
  "nonzero_count s \<longleftrightarrow>
     (let ds = (case s of [] \<Rightarrow> [] | c # cs \<Rightarrow> if c = CHR ''-'' \<or> c = CHR ''+'' then cs else s) in
      ds \<noteq> [] \<and> list_all is_digit ds \<and> digits_value ds \<noteq> 0 \<and>
      (if hd s = CHR ''-'' then digits_value ds \<le> 2 ^ 63 else digits_value ds < 2 ^ 63))"

definition PrecheckPostgres :: "'t runner \<Rightarrow> (string \<Rightarrow> string option) \<Rightarrow> pg_config \<Rightarrow> string \<Rightarrow> 't machine
    \<Rightarrow> 't machine \<times> (string + unit)" where
  "PrecheckPostgres run bin pg dbName m =
     (case bin ''psql'' of
        None \<Rightarrow> (m, Inl ''psql not found'')
      | Some psql \<Rightarrow>
          (case run (psql # pg_args pg @ [''-d'', dbName, ''-t'', ''-A'', ''-c'', tables_query]) m of
             (m1, r) \<Rightarrow>
               if \<not> co_Ok r then (m1, Inl (''pre-check '' @ dbName @ '': '' @ firstLine (stderr_of r)))
               else if \<not> nonzero_count (trim_space (co_Stdout r))
               then (m1, Inl (''pre-check '' @ dbName @ '': database contains no tables to back up''))
               else (m1, Inr ())))"

text \<open>After \<open>pg_dump\<close>: compression, and the size of what is handed on.  \<open>.gz\<close> is appended to the name.\<close>

definition gz_path :: "path \<Rightarrow> path" where
  "gz_path p = butlast p @ [last p @ ''.gz'']"

definition finish_dump :: "(string \<Rightarrow> string option) \<Rightarrow> string \<Rightarrow> bool \<Rightarrow> path \<Rightarrow> 't machine \<Rightarrow> 't machine \<times> (string + path \<times> int)" where
  "finish_dump gzip what compressed p m =
     (if compressed then
        (case convert_file gzip p (gz_path p) (snd m) of
           (fs1, False) \<Rightarrow> ((fst m, drop_file p fs1), Inl (''compress '' @ what))
         | (fs1, True) \<Rightarrow>
             next_step (stat_size (gz_path p)) (\<lambda>n m2. (m2, Inr (gz_path p, n))) (fst m, drop_file p fs1))
      else next_step (stat_size p) (\<lambda>n m2. (m2, Inr (p, n))) m)"

definition BackupPostgres :: "'t runner \<Rightarrow> (string \<Rightarrow> string option) \<Rightarrow> (string \<Rightarrow> string option) \<Rightarrow> path \<Rightarrow> string
    \<Rightarrow> pg_config \<Rightarrow> string \<Rightarrow> bool \<Rightarrow> 't machine \<Rightarrow> 't machine \<times> (string + path \<times> int)" where
  "BackupPostgres run bin gzip tmp tmpName pg dbName compressed =
     next_step (PrecheckPostgres run bin pg dbName) (\<lambda>_ m.
       (case bin ''pg_dump'' of
          None \<Rightarrow> (m, Inl ''pg_dump not found'')
        | Some pgDump \<Rightarrow>
            next_step (temp_file tmp) (\<lambda>_ m1.
              (case run (pgDump # pg_args pg @ [''-d'', dbName, ''-f'', tmpName]) m1 of
                 (m2, r) \<Rightarrow>
                   if \<not> co_Ok r
                   then (on_files (drop_file tmp) m2, Inl (''pg_dump '' @ dbName @ '': '' @ firstLine (stderr_of r)))
                   else finish_dump gzip ''dump'' compressed tmp m2)) m))"

text \<open>One administrative command of \<open>RestorePostgres\<close>, by its trimmed output.\<close>

definition admin :: "'t runner \<Rightarrow> string list \<Rightarrow> 't machine \<Rightarrow> 't machine \<times> (string + string)" where
  "admin run args m =
     (case run args m of (m1, r) \<Rightarrow>
        (m1, if co_Ok r then Inr (trim_space (co_Stdout r)) else Inl (firstLine (stderr_of r))))"

definition ensure_pg_database :: "'t runner \<Rightarrow> (string \<Rightarrow> string option) \<Rightarrow> string \<Rightarrow> pg_config \<Rightarrow> string
    \<Rightarrow> 't machine \<Rightarrow> 't machine \<times> (string + unit)" where
  "ensure_pg_database run bin psql pg targ =
     next_step (admin run (psql # pg_args pg @ [''-d'', ''postgres'', ''-t'', ''-A'', ''-c'',
         ''SELECT 1 FROM pg_database WHERE datname = '' @ pgEscape targ @ '';'']))
       (\<lambda>out m. if out = ''1'' then (m, Inr ())
                else (case bin ''createdb'' of
                   None \<Rightarrow> (m, Inl ''createdb is unavailable'')
                 | Some createdb \<Rightarrow> next_step (admin run (createdb # pg_args pg @ [targ])) (\<lambda>_ m1. (m1, Inr ())) m))"

definition replay :: "'t runner \<Rightarrow> string \<Rightarrow> pg_config \<Rightarrow> string \<Rightarrow> string \<Rightarrow> 't machine \<Rightarrow> 't machine \<times> (string + unit)" where
  "replay run psql pg targ sqlName m =
     (case run (psql # pg_args pg @ [''-d'', targ, ''-v'', ''ON_ERROR_STOP=1'', ''-f'', sqlName]) m of
        (m1, r) \<Rightarrow> (m1, if co_Ok r then Inr () else Inl (''psql restore: '' @ firstLine (trim_space (co_Stderr r)))))"

text \<open>A dump whose name ends in \<open>.gz\<close> is decompressed first; the temporary file goes in the end.\<close>

definition RestorePostgres :: "'t runner \<Rightarrow> (string \<Rightarrow> string option) \<Rightarrow> (string \<Rightarrow> string option) \<Rightarrow> path \<Rightarrow> string
    \<Rightarrow> pg_config \<Rightarrow> string \<Rightarrow> string \<Rightarrow> 't machine \<Rightarrow> 't machine \<times> (string + unit)" where
  "RestorePostgres run bin gunzip tmp tmpName pg targ dumpPath m =
     (case bin ''psql'' of
        None \<Rightarrow> (m, Inl ''psql not found'')
      | Some psql \<Rightarrow>
          next_step (ensure_pg_database run bin psql pg targ) (\<lambda>_ m1.
            if has_suffix ''.gz'' dumpPath then
              next_step (temp_file tmp) (\<lambda>_ m2.
                (case convert_file gunzip (comps dumpPath) tmp (snd m2) of
                   (fs, False) \<Rightarrow> ((fst m2, drop_file tmp fs), Inl ''gunzip dump'')
                 | (fs, True) \<Rightarrow>
                     (case replay run psql pg targ tmpName (fst m2, fs) of
                        (m3, res) \<Rightarrow> (on_files (drop_file tmp) m3, res)))) m1
            else replay run psql pg targ dumpPath m1) m)"

subsection \<open>SQL Server\<close>

text \<open>\<open>runSqlcmd\<close> and \<open>runSqlcmdSep\<close>: the extra flags stand between the server and the query.\<close>

definition runSqlcmd :: "'t runner \<Rightarrow> (string \<Rightarrow> string option) \<Rightarrow> mssql_config \<Rightarrow> string list \<Rightarrow> string
    \<Rightarrow> 't machine \<Rightarrow> 't machine \<times> (string + string)" where
  "runSqlcmd run bin cfg flags q m =
     (case bin ''sqlcmd'' of
        None \<Rightarrow> (m, Inl ''sqlcmd not found'')
      | Some sqlcmd \<Rightarrow>
          (case run (sqlcmd # sqlcmdAuth ([''-S'', ms_Server cfg, ''-h'', ''-1'', ''-W''] @ flags @ [''-Q'', q]) cfg) m of
             (m1, r) \<Rightarrow>
               if co_Ok r then (m1, Inr (trim_space (co_Stdout r)))
               else let err = trim_space (co_Stderr r); out = trim_space (co_Stdout r);
                        msg = (if out = '''' then err else out @ '' '' @ err)
                    in (m1, Inl (firstLine (if msg = '''' then co_Error r else msg)))))"

definition PrecheckMssql :: "'t runner \<Rightarrow> (string \<Rightarrow> string option) \<Rightarrow> mssql_config \<Rightarrow> string
    \<Rightarrow> 't machine \<Rightarrow> 't machine \<times> (string + unit)" where
  "PrecheckMssql run bin cfg dbName =
     next_step (runSqlcmd run bin cfg []
         (''SET NOCOUNT ON; SELECT COUNT(*) FROM '' @ mssqlQuote dbName @ ''.sys.tables WHERE is_ms_shipped = 0;''))
       (\<lambda>out m. (m, if out = ''0'' then Inl (''pre-check '' @ dbName @ '': database contains no tables to back up'')
                    else Inr ()))"

definition backup_query :: "string \<Rightarrow> string \<Rightarrow> string \<Rightarrow> string" where
  "backup_query dbName bakName options =
     ''BACKUP DATABASE '' @ mssqlQuote dbName @ '' TO DISK = '' @ mssqlString bakName @ '' WITH '' @ options @ '';''"

text \<open>An edition without backup compression is asked again without it.\<close>

definition take_backup :: "'t runner \<Rightarrow> (string \<Rightarrow> string option) \<Rightarrow> mssql_config \<Rightarrow> string \<Rightarrow> path \<Rightarrow> string \<Rightarrow> bool
    \<Rightarrow> 't machine \<Rightarrow> 't machine \<times> (string + unit)" where
  "take_backup run bin cfg dbName bak bakName compressed m =
     (let plain = ''INIT, STATS = 10'' in
      case runSqlcmd run bin cfg [] (backup_query dbName bakName (if compressed then ''COMPRESSION, '' @ plain else plain)) m of
        (m1, Inr _) \<Rightarrow> (m1, Inr ())
      | (m1, Inl e) \<Rightarrow>
          let m2 = on_files (drop_file bak) m1 in
          if compressed \<and> contains ''compression'' (to_lower e) then
            (case runSqlcmd run bin cfg [] (backup_query dbName bakName plain) m2 of
               (m3, Inr _) \<Rightarrow> (m3, Inr ())
             | (m3, Inl e2) \<Rightarrow> (on_files (drop_file bak) m3, Inl (''BACKUP DATABASE: '' @ e2)))
          else (m2, Inl (''BACKUP DATABASE: '' @ e)))"

text \<open>\<open>dir\<close> is the configured backup directory or the temporary one, \<open>stem\<close> the time and process id.\<close>

definition bak_name :: "string \<Rightarrow> string \<Rightarrow> string \<Rightarrow> string" where
  "bak_name dir dbName stem = Join2 dir (''vg_'' @ safeFileStem dbName @ ''_'' @ stem @ ''.bak'')"

definition BackupMssql :: "'t runner \<Rightarrow> (string \<Rightarrow> string option) \<Rightarrow> string \<Rightarrow> string \<Rightarrow> mssql_config \<Rightarrow> string \<Rightarrow> bool
    \<Rightarrow> 't machine \<Rightarrow> 't machine \<times> (string + path \<times> int)" where
  "BackupMssql run bin tempDir stem cfg dbName compressed =
     next_step (PrecheckMssql run bin cfg dbName) (\<lambda>_ m.
       let dir = (if ms_BackupDir cfg = '''' then tempDir else ms_BackupDir cfg);
           bakName = bak_name dir dbName stem; bak = comps bakName in
       case mkdir_all (comps dir) (snd m) of
         None \<Rightarrow> (m, Inl ''create backup dir'')
       | Some fs1 \<Rightarrow>
           next_step (take_backup run bin cfg dbName bak bakName compressed)
             (\<lambda>_ m2. next_step (stat_size bak) (\<lambda>n m3. (m3, Inr (bak, n))) m2) (fst m, fs1))"

record mssql_file =
  mf_Logical :: string
  mf_Physical :: string
  mf_Type :: string

text \<open>One line of \<open>RESTORE FILELISTONLY\<close>.\<close>

definition parse_file :: "string \<Rightarrow> mssql_file option" where
  "parse_file raw =
     (let line = trim_space raw; parts = split_on (CHR ''|'') line in
      if line = '''' \<or> has_prefix ''('' line \<or> length parts < 3 then None
      else let f = \<lparr>mf_Logical = trim_space (parts ! 0), mf_Physical = trim_space (parts ! 1),
                    mf_Type = trim_space (parts ! 2)\<rparr>
           in if mf_Logical f = '''' \<or> mf_Type f \<noteq> ''D'' \<and> mf_Type f \<noteq> ''L'' then None else Some f)"

definition parse_files :: "string \<Rightarrow> mssql_file list" where
  "parse_files out = List.map_filter parse_file (split_on nl_char out)"

definition base_name :: "string \<Rightarrow> string" where
  "base_name p = rev (takeWhile (\<lambda>c. c \<noteq> CHR 0x5C \<and> c \<noteq> CHR ''/'') (rev p))"

definition move_clause :: "string \<Rightarrow> string \<Rightarrow> string \<Rightarrow> mssql_file \<Rightarrow> string" where
  "move_clause dataDir logDir targ f =
     (let dir0 = (if mf_Type f = ''L'' then logDir else dataDir);
          dir = (if has_suffix [CHR 0x5C] dir0 then dir0 else dir0 @ [CHR 0x5C])
      in ''MOVE '' @ mssqlString (mf_Logical f) @ '' TO '' @
         mssqlString (dir @ targ @ ''_'' @ base_name (mf_Physical f)))"

definition restore_query :: "string \<Rightarrow> string \<Rightarrow> string \<Rightarrow> string \<Rightarrow> mssql_file list \<Rightarrow> string" where
  "restore_query dataDir logDir targ bakPath files =
     ''RESTORE DATABASE '' @ mssqlQuote targ @ '' FROM DISK = '' @ mssqlString bakPath @ '' WITH REPLACE, '' @
     join_with '', '' (map (move_clause dataDir logDir targ) files) @ '', STATS = 10;''"

definition path_query :: "string \<Rightarrow> string" where
  "path_query which =
     ''SET NOCOUNT ON; SELECT CAST(SERVERPROPERTY('' @ [CHR 0x27] @ which @ [CHR 0x27] @ '') AS NVARCHAR(4000));''"

definition ensure_mssql_database :: "'t runner \<Rightarrow> (string \<Rightarrow> string option) \<Rightarrow> mssql_config \<Rightarrow> string
    \<Rightarrow> 't machine \<Rightarrow> 't machine \<times> (string + unit)" where
  "ensure_mssql_database run bin cfg targ =
     next_step (runSqlcmd run bin cfg []
         (''SET NOCOUNT ON; SELECT CASE WHEN DB_ID('' @ mssqlString targ @ '') IS NULL THEN 0 ELSE 1 END;''))
       (\<lambda>out m. if out = ''0''
                then next_step (runSqlcmd run bin cfg [] (''CREATE DATABASE '' @ mssqlQuote targ @ '';''))
                       (\<lambda>_ m1. (m1, Inr ())) m
                else (m, Inr ()))"

definition RestoreMssql :: "'t runner \<Rightarrow> (string \<Rightarrow> string option) \<Rightarrow> mssql_config \<Rightarrow> string \<Rightarrow> string
    \<Rightarrow> 't machine \<Rightarrow> 't machine \<times> (string + unit)" where
  "RestoreMssql run bin cfg targ bakPath =
     next_step (runSqlcmd run bin cfg [''-s'', ''|'']
         (''SET NOCOUNT ON; RESTORE FILELISTONLY FROM DISK = '' @ mssqlString bakPath @ '';''))
       (\<lambda>out m.
          let files = parse_files out in
          if files = [] then (m, Inl ''backup contains no data/log files'')
          else (case runSqlcmd run bin cfg [] (path_query ''InstanceDefaultDataPath'') m of
              (m1, Inl e) \<Rightarrow> (m1, Inl (''cannot determine instance default data path: '' @ e))
            | (m1, Inr dataDir) \<Rightarrow>
                if dataDir = '''' \<or> dataDir = ''NULL'' then (m1, Inl ''cannot determine instance default data path'')
                else (case runSqlcmd run bin cfg [] (path_query ''InstanceDefaultLogPath'') m1 of
                  (m2, lres) \<Rightarrow>
                    let logDir = (case lres of Inl _ \<Rightarrow> dataDir | Inr l \<Rightarrow> if l = '''' \<or> l = ''NULL'' then dataDir else l)
                    in next_step (ensure_mssql_database run bin cfg targ)
                         (\<lambda>_ m3. next_step (runSqlcmd run bin cfg [] (restore_query dataDir logDir targ bakPath files))
                            (\<lambda>_ m4. (m4, Inr ())) m3) m2)))"

subsection \<open>The mongodump tools\<close>

definition backupMongoTools :: "'t runner \<Rightarrow> (string \<Rightarrow> string option) \<Rightarrow> path \<Rightarrow> string \<Rightarrow> string \<Rightarrow> string
    \<Rightarrow> 't machine \<Rightarrow> 't machine \<times> (string + path \<times> int)" where
  "backupMongoTools run bin tmp tmpName uri dbName m =
     (case bin ''mongodump'' of
        None \<Rightarrow> (m, Inl ''mongodump not found'')
      | Some mongodump \<Rightarrow>
          next_step (temp_file tmp) (\<lambda>_ m1.
            (case run [mongodump, ''--uri='' @ uri, ''--db='' @ dbName, ''--archive='' @ tmpName, ''--gzip''] m1 of
               (m2, r) \<Rightarrow>
                 if \<not> co_Ok r
                 then (on_files (drop_file tmp) m2,
                       Inl (''mongodump '' @ dbName @ '': '' @ firstLine (trim_space (redacted (stderr_of r)))))
                 else next_step (stat_size tmp) (\<lambda>n m3. (m3, Inr (tmp, n))) m2)) m)"

text \<open>The first four bytes tell a native archive from one of mongodump.\<close>

definition isNativeMongoArchive :: "path \<Rightarrow> files \<Rightarrow> bool" where
  "isNativeMongoArchive p fs \<longleftrightarrow> (case file_at fs p of None \<Rightarrow> False | Some x \<Rightarrow> take 4 x = ''VGM1'')"

definition mongorestore_args :: "string \<Rightarrow> string \<Rightarrow> string \<Rightarrow> string \<Rightarrow> string list" where
  "mongorestore_args uri src targ archive =
     [''--uri='' @ uri, ''--archive='' @ archive, ''--gzip'', ''--drop''] @
     (if src \<noteq> '''' \<and> targ \<noteq> '''' \<and> src \<noteq> targ
      then [''--nsFrom='' @ src @ ''.*'', ''--nsTo='' @ targ @ ''.*''] else [])"

definition RestoreMongo :: "'t runner \<Rightarrow> (string \<Rightarrow> string option) \<Rightarrow>
    (string \<Rightarrow> string \<Rightarrow> string \<Rightarrow> 't machine \<Rightarrow> 't machine \<times> (string + unit)) \<Rightarrow> string \<Rightarrow> string \<Rightarrow> string \<Rightarrow> string
    \<Rightarrow> 't machine \<Rightarrow> 't machine \<times> (string + unit)" where
  "RestoreMongo run bin restoreNative uri src targ archive m =
     (if isNativeMongoArchive (comps archive) (snd m) then restoreNative uri targ archive m
      else (case bin ''mongorestore'' of
        None \<Rightarrow> (m, Inl ''legacy mongodump archive requires mongorestore'')
      | Some mongorestore \<Rightarrow>
          (case run (mongorestore # mongorestore_args uri src targ archive) m of
             (m1, r) \<Rightarrow> (m1, if co_Ok r then Inr ()
                            else Inl (''mongorestore: '' @ firstLine (trim_space (redacted (stderr_of r))))))))"

end
