(* ===== verification/Mongo.thy ===== *)
theory Mongo
  imports Tools
begin

text \<open>
  The agent's own MongoDB engine, \<open>mongo_native.go\<close>: the archive format, the backup that writes it and the
  restore that replays it, with the pre-check of \<open>mongo_exec.go\<close>'s \<open>BackupMongo\<close>.  The driver is a
  third-party package: a connected database is a record of the calls the code makes on it over a world
  \<open>'t\<close>, \<open>marshal\<close> and \<open>unmarshal\<close> are its BSON codec.  Bytes are characters.
\<close>

unbundle bit_operations_syntax

subsection \<open>Documents and the driver\<close>

datatype bson =
  BDoc "(string \<times> bson) list"
| BMap "(string \<times> bson) list"
| BObjectID string
| BDateTime int
| BString string
| BBool bool
| BInt32 int
| BInt64 int
| BDouble "64 word"
| BNull
| BOther string

type_synonym bdoc = "(string \<times> bson) list"

record index_model =
  ix_Keys :: bdoc
  ix_Name :: "string option"
  ix_Unique :: "bool option"
  ix_Sparse :: "bool option"
  ix_Expire :: "int option"

text \<open>\<open>mg_Names\<close> lists the regular collections, \<open>mg_Find\<close> gives the raw documents read before the cursor
  ended and the cursor's error.\<close>

record 't mongo =
  mg_Names :: "'t \<Rightarrow> string + string list"
  mg_Indexes :: "string \<Rightarrow> 't \<Rightarrow> string + bdoc list"
  mg_Find :: "string \<Rightarrow> 't \<Rightarrow> string + (string list \<times> string option)"
  mg_Count :: "string \<Rightarrow> 't \<Rightarrow> string + int"
  mg_Insert :: "string \<Rightarrow> bdoc list \<Rightarrow> 't \<Rightarrow> 't \<times> (string + unit)"
  mg_CreateIndexes :: "string \<Rightarrow> index_model list \<Rightarrow> 't \<Rightarrow> 't \<times> (string + unit)"

type_synonym 't driver = "string \<Rightarrow> string \<Rightarrow> 't \<Rightarrow> string + 't mongo"

definition mongoConnect :: "'t driver \<Rightarrow> string \<Rightarrow> string \<Rightarrow> 't \<Rightarrow> string + 't mongo" where
  "mongoConnect dial uri dbName t =
     (case dial uri dbName t of Inl e \<Rightarrow> Inl (''connect: '' @ firstLine (redacted e)) | Inr db \<Rightarrow> Inr db)"

text \<open>Collecting results in order, up to the first error.\<close>

fun collect :: "('a \<Rightarrow> string + 'b) \<Rightarrow> 'a list \<Rightarrow> string + 'b list" where
  "collect f [] = Inr []"
| "collect f (x # xs) =
     (case f x of Inl e \<Rightarrow> Inl e
      | Inr y \<Rightarrow> (case collect f xs of Inl e \<Rightarrow> Inl e | Inr ys \<Rightarrow> Inr (y # ys)))"

definition mongoDocCount :: "'t driver \<Rightarrow> string \<Rightarrow> string \<Rightarrow> 't \<Rightarrow> string + int" where
  "mongoDocCount dial uri dbName t =
     (case mongoConnect dial uri dbName t of
        Inl e \<Rightarrow> Inl e
      | Inr db \<Rightarrow>
          (case mg_Names db t of
             Inl e \<Rightarrow> Inl (firstLine (redacted e))
           | Inr names \<Rightarrow>
               (case collect (\<lambda>c. mg_Count db c t) names of
                  Inl e \<Rightarrow> Inl (firstLine (redacted e)) | Inr ns \<Rightarrow> Inr (sum_list ns))))"

definition PrecheckMongo :: "'t driver \<Rightarrow> string \<Rightarrow> string \<Rightarrow> 't \<Rightarrow> string option" where
  "PrecheckMongo dial uri dbName t =
     (case mongoDocCount dial uri dbName t of
        Inl e \<Rightarrow> Some (''pre-check '' @ dbName @ '': '' @ e)
      | Inr n \<Rightarrow> if n = 0 then Some (''pre-check '' @ dbName @ '': database contains no documents to back up'') else None)"

subsection \<open>The archive format\<close>

definition nativeMagic :: string where "nativeMagic = ''VGM1''"

definition byte_char :: "64 word \<Rightarrow> char" where
  "byte_char w = char_of (unat w)"

text \<open>\<open>writeUvarint\<close>: seven bits a byte, the lowest first, the top bit set on all but the last.\<close>

function writeUvarint :: "64 word \<Rightarrow> string" where
  "writeUvarint v =
     (if v < 0x80 then [byte_char v] else byte_char ((v AND 0x7F) OR 0x80) # writeUvarint (drop_bit 7 v))"
  by pat_completeness auto
termination
proof (relation "measure unat")
  fix v :: "64 word"
  assume "\<not> v < 0x80"
  then have "128 \<le> unat v" by (simp add: word_less_nat_alt)
  then show "(drop_bit 7 v, v) \<in> measure unat" by (simp add: unat_drop_bit_eq drop_bit_eq_div unat_div)
qed simp

declare writeUvarint.simps [simp del]

text \<open>\<open>binary.ReadUvarint\<close> after \<open>i\<close> bytes: at most ten, the tenth at most one.\<close>

function read_uvarint :: "nat \<Rightarrow> 64 word \<Rightarrow> string \<Rightarrow> string + (64 word \<times> string)" where
  "read_uvarint i x src =
     (if 10 \<le> i then Inl ''overflow''
      else (case src of
          [] \<Rightarrow> Inl ''EOF''
        | c # cs \<Rightarrow>
            let b = (of_char c :: 64 word) in
            if b < 0x80 then (if i = 9 \<and> 1 < b then Inl ''overflow'' else Inr (x OR push_bit (7 * i) b, cs))
            else read_uvarint (Suc i) (x OR push_bit (7 * i) (b AND 0x7F)) cs))"
  by pat_completeness auto
termination by (relation "measure (\<lambda>(i, _, _). 10 - i)") auto

declare read_uvarint.simps [simp del]

definition nextUint :: "string \<Rightarrow> string + (64 word \<times> string)" where
  "nextUint src = read_uvarint 0 0 src"

definition writeFrame :: "string \<Rightarrow> string" where
  "writeFrame data = writeUvarint (word_of_nat (length data)) @ data"

definition max_frame :: nat where "max_frame = 256 * 2 ^ 20"

definition next_frame :: "string \<Rightarrow> string + (string \<times> string)" where
  "next_frame src =
     (case nextUint src of
        Inl e \<Rightarrow> Inl e
      | Inr (n, rest) \<Rightarrow>
          if max_frame < unat n then Inl ''corrupt frame length''
          else if length rest < unat n then Inl ''truncated frame''
          else Inr (take (unat n) rest, drop (unat n) rest))"

subsection \<open>Backup\<close>

definition clean_spec :: "bdoc \<Rightarrow> bdoc" where
  "clean_spec doc = filter (\<lambda>e. fst e \<noteq> ''ns'' \<and> fst e \<noteq> ''v'') doc"

text \<open>One collection: its name, index specifications and documents.  The document frames pass through a
  file of their own (\<open>io ''docs''\<close> when that fails).\<close>

definition dump_collection :: "(string \<Rightarrow> bool) \<Rightarrow> (bdoc \<Rightarrow> string option) \<Rightarrow> 't mongo \<Rightarrow> 't \<Rightarrow> string \<Rightarrow> string + string" where
  "dump_collection io marshal db t name =
     (case mg_Indexes db name t of
        Inl e \<Rightarrow> Inl (''list indexes '' @ name @ '': '' @ e)
      | Inr specs \<Rightarrow>
          (case collect (\<lambda>s. case marshal (clean_spec s) of None \<Rightarrow> Inl ''marshal'' | Some r \<Rightarrow> Inr r) specs of
             Inl e \<Rightarrow> Inl e
           | Inr raws \<Rightarrow>
               (case mg_Find db name t of
                  Inl e \<Rightarrow> Inl (''find '' @ name @ '': '' @ e)
                | Inr (docs, Some e) \<Rightarrow> Inl (''scan '' @ name @ '': '' @ e)
                | Inr (docs, None) \<Rightarrow>
                    if io ''docs'' then Inl ''docs''
                    else Inr (writeFrame name @ writeUvarint (word_of_nat (length raws)) @ concat (map writeFrame raws) @
                           writeUvarint (word_of_nat (length docs)) @ concat (map writeFrame docs)))))"

definition native_archive :: "(string \<Rightarrow> bool) \<Rightarrow> (bdoc \<Rightarrow> string option) \<Rightarrow> 't mongo \<Rightarrow> 't \<Rightarrow> string + string" where
  "native_archive io marshal db t =
     (case mg_Names db t of
        Inl e \<Rightarrow> Inl (''list collections: '' @ e)
      | Inr names \<Rightarrow>
          (case collect (dump_collection io marshal db t) names of
             Inl e \<Rightarrow> Inl e
           | Inr parts \<Rightarrow> Inr (nativeMagic @ writeUvarint (word_of_nat (length names)) @ concat parts)))"

definition BackupMongoNative :: "(string \<Rightarrow> bool) \<Rightarrow> (bdoc \<Rightarrow> string option) \<Rightarrow> 't driver \<Rightarrow> path \<Rightarrow> string \<Rightarrow> string
    \<Rightarrow> 't machine \<Rightarrow> 't machine \<times> (string + path \<times> int)" where
  "BackupMongoNative io marshal dial tmp uri dbName m =
     (case mongoConnect dial uri dbName (fst m) of
        Inl e \<Rightarrow> (m, Inl e)
      | Inr db \<Rightarrow>
          next_step (temp_file tmp) (\<lambda>_ m1.
            (case native_archive io marshal db (fst m1) of
               Inl e \<Rightarrow> (on_files (drop_file tmp) m1, Inl e)
             | Inr x \<Rightarrow>
                 if io ''write'' then (on_files (drop_file tmp) m1, Inl ''write'')
                 else next_step (stat_size tmp) (\<lambda>n m2. (m2, Inr (tmp, n))) (on_files (set_file tmp x) m1))) m)"

text \<open>The built-in engine is used when \<open>mongodump\<close> is not installed.\<close>

definition BackupMongo :: "'t runner \<Rightarrow> (string \<Rightarrow> string option) \<Rightarrow> (string \<Rightarrow> bool) \<Rightarrow> (bdoc \<Rightarrow> string option) \<Rightarrow> 't driver
    \<Rightarrow> path \<Rightarrow> string \<Rightarrow> string \<Rightarrow> string \<Rightarrow> 't machine \<Rightarrow> 't machine \<times> (string + path \<times> int)" where
  "BackupMongo run bin io marshal dial tmp tmpName uri dbName m =
     (case PrecheckMongo dial uri dbName (fst m) of
        Some e \<Rightarrow> (m, Inl e)
      | None \<Rightarrow>
          if bin ''mongodump'' \<noteq> None then backupMongoTools run bin tmp tmpName uri dbName m
          else BackupMongoNative io marshal dial tmp uri dbName m)"

subsection \<open>Restore\<close>

definition is_key_doc :: "string \<times> bson \<Rightarrow> bool" where
  "is_key_doc e \<longleftrightarrow> fst e = ''key'' \<and> (case snd e of BDoc _ \<Rightarrow> True | _ \<Rightarrow> False)"

text \<open>The last \<open>key\<close> entry that holds a document.\<close>

definition key_doc :: "bdoc \<Rightarrow> bdoc" where
  "key_doc spec =
     (case rev (filter is_key_doc spec) of [] \<Rightarrow> []
      | e # _ \<Rightarrow> (case snd e of BDoc d \<Rightarrow> d | _ \<Rightarrow> []))"

definition to_int32 :: "int \<Rightarrow> int" where
  "to_int32 n = (n + 2 ^ 31) mod 2 ^ 32 - 2 ^ 31"

fun set_option :: "string \<times> bson \<Rightarrow> index_model \<Rightarrow> index_model" where
  "set_option (k, v) m =
     (case v of
        BString s \<Rightarrow> if k = ''name'' then m\<lparr>ix_Name := Some s\<rparr> else m
      | BBool b \<Rightarrow> if k = ''unique'' then m\<lparr>ix_Unique := Some b\<rparr>
                   else if k = ''sparse'' then m\<lparr>ix_Sparse := Some b\<rparr> else m
      | BInt32 n \<Rightarrow> if k = ''expireAfterSeconds'' then m\<lparr>ix_Expire := Some n\<rparr> else m
      | BInt64 n \<Rightarrow> if k = ''expireAfterSeconds'' then m\<lparr>ix_Expire := Some (to_int32 n)\<rparr> else m
      | _ \<Rightarrow> m)"

definition plain_index :: "bdoc \<Rightarrow> index_model" where
  "plain_index keys = \<lparr>ix_Keys = keys, ix_Name = None, ix_Unique = None, ix_Sparse = None, ix_Expire = None\<rparr>"

definition index_of_spec :: "bdoc \<Rightarrow> index_model" where
  "index_of_spec spec =
     (if key_doc spec = [] then plain_index spec
      else fold set_option (filter (\<lambda>e. \<not> is_key_doc e) spec) (plain_index (key_doc spec)))"

text \<open>\<open>nIdx\<close> index frames.\<close>

fun read_indexes :: "(string \<Rightarrow> bdoc option) \<Rightarrow> nat \<Rightarrow> string \<Rightarrow> string + (index_model list \<times> string)" where
  "read_indexes unmarshal 0 src = Inr ([], src)"
| "read_indexes unmarshal (Suc n) src =
     (case next_frame src of
        Inl e \<Rightarrow> Inl (''index spec: '' @ e)
      | Inr (raw, rest) \<Rightarrow>
          (case unmarshal raw of
             None \<Rightarrow> Inl ''bad index spec''
           | Some spec \<Rightarrow>
               (case read_indexes unmarshal n rest of
                  Inl e \<Rightarrow> Inl e | Inr (ms, rest') \<Rightarrow> Inr (index_of_spec spec # ms, rest'))))"

definition batchSize :: nat where "batchSize = 500"

definition flush :: "'t mongo \<Rightarrow> string \<Rightarrow> bdoc list \<Rightarrow> 't \<Rightarrow> 't \<times> (string + unit)" where
  "flush db coll batch t = (if batch = [] then (t, Inr ()) else mg_Insert db coll batch t)"

text \<open>\<open>nDocs\<close> document frames, inserted in batches; what is left of the archive is returned.\<close>

fun restore_docs :: "(string \<Rightarrow> bdoc option) \<Rightarrow> 't mongo \<Rightarrow> string \<Rightarrow> nat \<Rightarrow> bdoc list \<Rightarrow> string \<Rightarrow> 't
    \<Rightarrow> 't \<times> (string + string)" where
  "restore_docs unmarshal db coll 0 batch src t =
     (case flush db coll batch t of (t1, Inl e) \<Rightarrow> (t1, Inl e) | (t1, Inr _) \<Rightarrow> (t1, Inr src))"
| "restore_docs unmarshal db coll (Suc n) batch src t =
     (case next_frame src of
        Inl e \<Rightarrow> (t, Inl (''doc: '' @ e))
      | Inr (raw, rest) \<Rightarrow>
          (case unmarshal raw of
             None \<Rightarrow> (t, Inl ''decode doc'')
           | Some doc \<Rightarrow>
               if batchSize \<le> Suc (length batch) then
                 (case flush db coll (batch @ [doc]) t of
                    (t1, Inl e) \<Rightarrow> (t1, Inl e)
                  | (t1, Inr _) \<Rightarrow> restore_docs unmarshal db coll n [] rest t1)
               else restore_docs unmarshal db coll n (batch @ [doc]) rest t))"

definition restore_collection :: "(string \<Rightarrow> bdoc option) \<Rightarrow> 't mongo \<Rightarrow> string \<Rightarrow> 't \<Rightarrow> 't \<times> (string + string)" where
  "restore_collection unmarshal db src t =
     (case next_frame src of
        Inl e \<Rightarrow> (t, Inl (''collection: '' @ e))
      | Inr (name, s1) \<Rightarrow>
          (case nextUint s1 of
             Inl e \<Rightarrow> (t, Inl (''indexes: '' @ e))
           | Inr (nIdx, s2) \<Rightarrow>
               (case read_indexes unmarshal (unat nIdx) s2 of
                  Inl e \<Rightarrow> (t, Inl e)
                | Inr (models, s3) \<Rightarrow>
                    (case nextUint s3 of
                       Inl e \<Rightarrow> (t, Inl (''doc count: '' @ e))
                     | Inr (nDocs, s4) \<Rightarrow>
                         next_step (restore_docs unmarshal db name (unat nDocs) [] s4) (\<lambda>rest t1.
                           if models = [] then (t1, Inr rest)
                           else next_step (mg_CreateIndexes db name models) (\<lambda>_ t2. (t2, Inr rest)) t1) t))))"

fun restore_collections :: "(string \<Rightarrow> bdoc option) \<Rightarrow> 't mongo \<Rightarrow> nat \<Rightarrow> string \<Rightarrow> 't \<Rightarrow> 't \<times> (string + unit)" where
  "restore_collections unmarshal db 0 src t = (t, Inr ())"
| "restore_collections unmarshal db (Suc n) src t =
     next_step (restore_collection unmarshal db src) (\<lambda>rest. restore_collections unmarshal db n rest) t"

definition replay_archive :: "(string \<Rightarrow> bdoc option) \<Rightarrow> 't mongo \<Rightarrow> string \<Rightarrow> 't \<Rightarrow> 't \<times> (string + unit)" where
  "replay_archive unmarshal db x t =
     (if take 4 x \<noteq> nativeMagic then (t, Inl ''not a VaultGuard mongo archive'')
      else (case nextUint (drop 4 x) of
          Inl e \<Rightarrow> (t, Inl (''corrupt archive header: '' @ e))
        | Inr (nColls, src) \<Rightarrow> restore_collections unmarshal db (unat nColls) src t))"

definition RestoreMongoNative :: "(string \<Rightarrow> bdoc option) \<Rightarrow> 't driver \<Rightarrow> string \<Rightarrow> string \<Rightarrow> string
    \<Rightarrow> 't machine \<Rightarrow> 't machine \<times> (string + unit)" where
  "RestoreMongoNative unmarshal dial uri targ archive m =
     (case mongoConnect dial uri targ (fst m) of
        Inl e \<Rightarrow> (m, Inl e)
      | Inr db \<Rightarrow>
          (case file_at (snd m) (comps archive) of
             None \<Rightarrow> (m, Inl ''open'')
           | Some x \<Rightarrow> (case replay_archive unmarshal db x (fst m) of (t, r) \<Rightarrow> ((t, snd m), r))))"


subsection \<open>Round trips\<close>

lemma byte_char_word: "w < 256 \<Longrightarrow> (of_char (byte_char w) :: 64 word) = w"
proof -
  assume "w < 256"
  then have u: "unat w < 256" by (simp add: word_less_nat_alt)
  have "(of_char (byte_char w) :: 64 word) = word_of_nat (of_char (byte_char w))"
    by (metis of_nat_of_char)
  also have "of_char (byte_char w) = unat w" using u by (simp add: byte_char_def)
  finally show ?thesis by simp
qed

lemma low_bits_OR: "take_bit k v OR push_bit k (drop_bit k v) = (v :: 64 word)"
proof (rule bit_word_eqI)
  fix n
  show "bit (take_bit k v OR push_bit k (drop_bit k v)) n = bit v n" if "n < LENGTH(64)"
    using that by (cases "n < k") (auto simp: bit_simps)
qed

lemma next_bits_OR: "take_bit k v OR push_bit k (take_bit 7 (drop_bit k v)) = take_bit (k + 7) (v :: 64 word)"
proof (rule bit_word_eqI)
  fix n
  show "bit (take_bit k v OR push_bit k (take_bit 7 (drop_bit k v))) n = bit (take_bit (k + 7) v) n" if "n < LENGTH(64)"
    using that by (cases "n < k") (auto simp: bit_simps)
qed

lemma mask7: "v AND 0x7F = take_bit 7 (v :: 64 word)"
  by (simp add: take_bit_eq_mask mask_numeral mask_eq_exp_minus_1)

lemma bit_0x80: "bit (0x80 :: 64 word) n \<longleftrightarrow> n = 7"
  using bit_exp_iff [of 7 n, where 'a = "64 word"] by (auto simp: possible_bit_def)

lemma read_write_from:
  assumes "i < 10"
  shows "read_uvarint i (take_bit (7 * i) v) (writeUvarint (drop_bit (7 * i) v) @ rest) = Inr (v, rest)"
  using assms
proof (induction "10 - i" arbitrary: i)
  case (Suc n)
  let ?w = "drop_bit (7 * i) v"
  show ?case
  proof (cases "?w < 0x80")
    case True
    have w: "writeUvarint ?w = [byte_char ?w]" using True by (subst writeUvarint.simps) simp
    have b: "(of_char (byte_char ?w) :: 64 word) = ?w"
      using True by (intro byte_char_word) (simp add: word_less_nat_alt)
    have nine: "\<not> 1 < ?w" if "i = 9"
    proof -
      have "unat ?w = unat v div 2 ^ 63" by (simp add: that unat_drop_bit_eq drop_bit_eq_div unat_div)
      also have "\<dots> < 2" using unat_64 [of v] by (simp add: div_less_iff_less_mult)
      finally show ?thesis by (simp add: word_less_nat_alt)
    qed
    show ?thesis using Suc.prems True nine unfolding w
      by (subst read_uvarint.simps) (simp add: Let_def b low_bits_OR)
  next
    case False
    have i: "i \<noteq> 9"
    proof
      assume "i = 9"
      then have "unat ?w = unat v div 2 ^ 63" by (simp add: unat_drop_bit_eq drop_bit_eq_div unat_div)
      also have "\<dots> < 2" using unat_64 [of v] by (simp add: div_less_iff_less_mult)
      finally show False using False by (simp add: word_less_nat_alt)
    qed
    let ?c = "(?w AND 0x7F) OR 0x80"
    have w: "writeUvarint ?w = byte_char ?c # writeUvarint (drop_bit (7 * Suc i) v)"
      using False by (subst writeUvarint.simps) (simp add: add.commute)
    have c: "?c < 256" "\<not> ?c < 0x80" "?c AND 0x7F = take_bit 7 ?w"
    proof -
      have l: "unat (take_bit 7 ?w) < 128" unfolding unsigned_take_bit_eq by (simp add: take_bit_eq_mod)
      show "?c AND 0x7F = take_bit 7 ?w"
        unfolding mask7 by (rule bit_word_eqI) (auto simp: bit_simps bit_0x80)
      have d: "take_bit 7 ?w AND 0x80 = 0"
        by (rule bit_word_eqI) (simp only: bit_and_iff bit_take_bit_iff bit_0x80, simp)
      have e: "?c = take_bit 7 ?w + 0x80"
        unfolding mask7 disjunctive_add_eq_or [OF d] ..
      have "unat ?c = unat (take_bit 7 ?w) + 128"
        unfolding e using l by (simp add: unat_word_ariths push_bit_eq_mult)
      then show "?c < 256" "\<not> ?c < 0x80" using l by (simp_all add: word_less_nat_alt)
    qed
    have b: "(of_char (byte_char ?c) :: 64 word) = ?c" using c(1) by (rule byte_char_word)
    have ih: "read_uvarint (Suc i) (take_bit (7 + 7 * i) v) (writeUvarint (drop_bit (7 + 7 * i) v) @ rest) = Inr (v, rest)"
      using Suc.hyps(1) [of "Suc i"] Suc.hyps(2) Suc.prems i by simp
    show ?thesis
      using Suc.prems ih c unfolding w
      by (subst read_uvarint.simps) (simp add: Let_def b next_bits_OR add.commute)
  qed
qed simp

lemma nextUint_write [simp]: "nextUint (writeUvarint v @ rest) = Inr (v, rest)"
  using read_write_from [of 0 v rest] by (simp add: nextUint_def)

lemma next_frame_write:
  assumes "length data \<le> max_frame"
  shows "next_frame (writeFrame data @ rest) = Inr (data, rest)"
proof -
  have "unat (word_of_nat (length data) :: 64 word) = length data"
    using assms by (simp add: unat_of_nat take_bit_eq_mod max_frame_def)
  then show ?thesis using assms by (simp add: next_frame_def writeFrame_def)
qed

definition storable :: "string \<Rightarrow> bool" where
  "storable x \<longleftrightarrow> length x \<le> max_frame"

lemma next_frame_storable [simp]: "storable x \<Longrightarrow> next_frame (writeFrame x @ rest) = Inr (x, rest)"
  by (simp add: storable_def next_frame_write)

lemma read_indexes_write:
  assumes "list_all2 (\<lambda>raw spec. storable raw \<and> unmarshal raw = Some spec) raws specs"
  shows "read_indexes unmarshal (length raws) (concat (map writeFrame raws) @ rest) = Inr (map index_of_spec specs, rest)"
  using assms by (induction raws specs rule: list_all2_induct) simp_all

text \<open>What the driver's documentation promises of \<open>InsertMany\<close> and \<open>CreateMany\<close> when they succeed, and that a
  database that takes every write never refuses one; \<open>docs\<close> and \<open>idx\<close> read a collection.\<close>

definition mongo_laws :: "'t mongo \<Rightarrow> ('t \<Rightarrow> string \<Rightarrow> bdoc list) \<Rightarrow> ('t \<Rightarrow> string \<Rightarrow> index_model list) \<Rightarrow> bool" where
  "mongo_laws db docs idx \<longleftrightarrow>
     (\<forall>c ds t. snd (mg_Insert db c ds t) = Inr () \<and>
        docs (fst (mg_Insert db c ds t)) = (docs t)(c := docs t c @ ds) \<and> idx (fst (mg_Insert db c ds t)) = idx t) \<and>
     (\<forall>c ms t. snd (mg_CreateIndexes db c ms t) = Inr () \<and>
        idx (fst (mg_CreateIndexes db c ms t)) = (idx t)(c := idx t c @ ms) \<and>
        docs (fst (mg_CreateIndexes db c ms t)) = docs t)"

lemma flush_works:
  assumes "mongo_laws db docs idx"
  obtains t1 where "flush db c b t = (t1, Inr ())" "docs t1 = (docs t)(c := docs t c @ b)" "idx t1 = idx t"
proof (cases "b = []")
  case True
  then show ?thesis using that [of t] by (simp add: flush_def)
next
  case False
  have "flush db c b t = (fst (mg_Insert db c b t), Inr ())"
    using assms False unfolding flush_def mongo_laws_def by (metis prod.collapse)
  then show ?thesis using that assms unfolding mongo_laws_def by blast
qed

lemma restore_docs_write:
  assumes laws: "mongo_laws db docs idx"
    and raws: "list_all2 (\<lambda>raw doc. storable raw \<and> unmarshal raw = Some doc) raws ds"
  shows "\<exists>t1. restore_docs unmarshal db c (length raws) batch (concat (map writeFrame raws) @ rest) t = (t1, Inr rest) \<and>
    docs t1 = (docs t)(c := docs t c @ batch @ ds) \<and> idx t1 = idx t"
  using raws
proof (induction raws ds arbitrary: batch t rule: list_all2_induct)
  case Nil
  obtain t1 where "flush db c batch t = (t1, Inr ())" "docs t1 = (docs t)(c := docs t c @ batch)" "idx t1 = idx t"
    using laws by (rule flush_works)
  then show ?case by (simp add: fun_eq_iff)
next
  case (Cons raw raws doc ds)
  show ?case
  proof (cases "batchSize \<le> Suc (length batch)")
    case True
    obtain t1 where t1: "flush db c (batch @ [doc]) t = (t1, Inr ())"
      "docs t1 = (docs t)(c := docs t c @ batch @ [doc])" "idx t1 = idx t"
      using laws by (rule flush_works)
    obtain t2 where "restore_docs unmarshal db c (length raws) [] (concat (map writeFrame raws) @ rest) t1 = (t2, Inr rest)"
      "docs t2 = (docs t1)(c := docs t1 c @ [] @ ds)" "idx t2 = idx t1"
      using Cons.IH [of "[]" t1] by blast
    then show ?thesis using t1 True Cons.hyps by (intro exI [of _ t2]) simp
  next
    case False
    obtain t2 where "restore_docs unmarshal db c (length raws) (batch @ [doc]) (concat (map writeFrame raws) @ rest) t = (t2, Inr rest)"
      "docs t2 = (docs t)(c := docs t c @ (batch @ [doc]) @ ds)" "idx t2 = idx t"
      using Cons.IH [of "batch @ [doc]" t] by blast
    then show ?thesis using False Cons.hyps by (intro exI [of _ t2]) simp
  qed
qed

lemma collect_Inr_iff: "collect f xs = Inr ys \<longleftrightarrow> list_all2 (\<lambda>x y. f x = Inr y) xs ys"
proof (induction xs arbitrary: ys)
  case (Cons x xs)
  show ?case by (cases ys) (auto simp: Cons [symmetric] split: sum.splits)
qed auto

text \<open>BSON, as its documentation has it: decoding inverts encoding, and a document is at most 16 MiB.\<close>

definition bson_laws :: "(bdoc \<Rightarrow> string option) \<Rightarrow> (string \<Rightarrow> bdoc option) \<Rightarrow> bool" where
  "bson_laws marshal unmarshal \<longleftrightarrow>
     (\<forall>d raw. marshal d = Some raw \<longrightarrow> unmarshal raw = Some d) \<and>
     (\<forall>raw d. unmarshal raw = Some d \<longrightarrow> length raw \<le> 16 * 2 ^ 20)"

definition found :: "'t mongo \<Rightarrow> 't \<Rightarrow> string \<Rightarrow> string list" where
  "found db t c = (case mg_Find db c t of Inl e \<Rightarrow> [] | Inr (raws, e) \<Rightarrow> raws)"

definition specs_of :: "'t mongo \<Rightarrow> 't \<Rightarrow> string \<Rightarrow> bdoc list" where
  "specs_of db t c = (case mg_Indexes db c t of Inl e \<Rightarrow> [] | Inr specs \<Rightarrow> specs)"

definition restored_docs :: "(string \<Rightarrow> bdoc option) \<Rightarrow> 't mongo \<Rightarrow> 't \<Rightarrow> string \<Rightarrow> bdoc list" where
  "restored_docs unmarshal db t c = map (the \<circ> unmarshal) (found db t c)"

definition restored_indexes :: "'t mongo \<Rightarrow> 't \<Rightarrow> string \<Rightarrow> index_model list" where
  "restored_indexes db t c = map (index_of_spec \<circ> clean_spec) (specs_of db t c)"

text \<open>A collection the format can hold: documents that decode, a name that fits a frame, counts of 64 bits.\<close>

definition dumpable :: "(string \<Rightarrow> bdoc option) \<Rightarrow> 't mongo \<Rightarrow> 't \<Rightarrow> string \<Rightarrow> bool" where
  "dumpable unmarshal db t c \<longleftrightarrow> storable c \<and> list_all (\<lambda>raw. unmarshal raw \<noteq> None) (found db t c) \<and>
     length (found db t c) < 2 ^ 64 \<and> length (specs_of db t c) < 2 ^ 64"

lemma unat_word_of_length: "n < 2 ^ 64 \<Longrightarrow> unat (word_of_nat n :: 64 word) = n"
  by (simp add: unat_of_nat take_bit_eq_mod)

lemma bson_storable: "bson_laws marshal unmarshal \<Longrightarrow> unmarshal raw = Some d \<Longrightarrow> storable raw"
  unfolding bson_laws_def storable_def max_frame_def by fastforce

lemma restore_collection_dump:
  assumes laws: "mongo_laws db docs idx" and bson: "bson_laws marshal unmarshal"
    and ok: "dumpable unmarshal src s c" and dump: "dump_collection io marshal src s c = Inr part"
  shows "\<exists>t1. restore_collection unmarshal db (part @ rest) t = (t1, Inr rest) \<and>
    docs t1 = (docs t)(c := docs t c @ restored_docs unmarshal src s c) \<and>
    idx t1 = (idx t)(c := idx t c @ restored_indexes src s c)"
proof -
  let ?enc = "\<lambda>s. case marshal (clean_spec s) of None \<Rightarrow> Inl ''marshal'' | Some r \<Rightarrow> Inr r"
  obtain specs raws ds where specs: "mg_Indexes src c s = Inr specs" "collect ?enc specs = Inr raws"
    and ds: "mg_Find src c s = Inr (ds, None)"
    and part: "part = writeFrame c @ writeUvarint (word_of_nat (length raws)) @ concat (map writeFrame raws) @
       writeUvarint (word_of_nat (length ds)) @ concat (map writeFrame ds)"
    using dump by (auto simp: dump_collection_def split: sum.splits option.splits if_splits)
  have f: "found src s c = ds" "specs_of src s c = specs" using ds specs(1) by (simp_all add: found_def specs_of_def)
  have enc: "list_all2 (\<lambda>spec raw. ?enc spec = Inr raw) specs raws" using specs(2) by (simp add: collect_Inr_iff)
  then have raws: "list_all2 (\<lambda>raw spec. storable raw \<and> unmarshal raw = Some spec) raws (map clean_spec specs)"
  proof (induction rule: list_all2_induct)
    case (Cons spec specs' raw raws')
    then have "marshal (clean_spec spec) = Some raw" by (simp split: option.splits)
    then have "unmarshal raw = Some (clean_spec spec)" using bson unfolding bson_laws_def by blast
    then show ?case using Cons bson_storable [OF bson] by auto
  qed simp
  have len: "length raws = length specs" using enc by (simp add: list_all2_lengthD)
  have docs: "list_all2 (\<lambda>raw doc. storable raw \<and> unmarshal raw = Some doc) ds (map (the \<circ> unmarshal) ds)"
    using ok bson_storable [OF bson] unfolding dumpable_def f by (auto simp: list_all2_map2 list_all_iff list_all2_same)
  have sizes: "unat (word_of_nat (length raws) :: 64 word) = length raws"
    "unat (word_of_nat (length ds) :: 64 word) = length ds" "storable c"
    using ok unfolding dumpable_def f len by (simp_all add: unat_word_of_length)
  obtain t1 where t1: "restore_docs unmarshal db c (length ds) [] (concat (map writeFrame ds) @ rest) t = (t1, Inr rest)"
    "docs t1 = (docs t)(c := docs t c @ map (the \<circ> unmarshal) ds)" "idx t1 = idx t"
    using restore_docs_write [OF laws docs, of c "[]" rest t] by auto
  let ?models = "map index_of_spec (map clean_spec specs)"
  obtain t2 where t2: "mg_CreateIndexes db c ?models t1 = (t2, Inr ())" "docs t2 = docs t1"
    "idx t2 = (idx t1)(c := idx t1 c @ ?models)"
    using laws unfolding mongo_laws_def by (metis prod.collapse)
  show ?thesis
  proof (cases "specs = []")
    case True
    then show ?thesis using t1 f part sizes len
      by (simp add: restore_collection_def next_step_def restored_docs_def restored_indexes_def)
  next
    case False
    then show ?thesis using t1 t2 f part sizes read_indexes_write [OF raws]
      by (simp add: restore_collection_def next_step_def restored_docs_def restored_indexes_def)
  qed
qed

lemma restore_collections_dump:
  assumes laws: "mongo_laws db docs idx" and bson: "bson_laws marshal unmarshal"
    and parts: "list_all2 (\<lambda>c part. dump_collection io marshal src s c = Inr part) names parts"
    and ok: "list_all (dumpable unmarshal src s) names" "distinct names"
  shows "\<exists>t1. restore_collections unmarshal db (length names) (concat parts) t = (t1, Inr ()) \<and>
    docs t1 = (\<lambda>c. docs t c @ (if c \<in> set names then restored_docs unmarshal src s c else [])) \<and>
    idx t1 = (\<lambda>c. idx t c @ (if c \<in> set names then restored_indexes src s c else []))"
  using parts ok
proof (induction names parts arbitrary: t rule: list_all2_induct)
  case (Cons c names part parts)
  obtain t1 where t1: "restore_collection unmarshal db (part @ concat parts) t = (t1, Inr (concat parts))"
    "docs t1 = (docs t)(c := docs t c @ restored_docs unmarshal src s c)"
    "idx t1 = (idx t)(c := idx t c @ restored_indexes src s c)"
    using restore_collection_dump [OF laws bson, of src s c io part "concat parts" t] Cons by auto
  obtain t2 where t2: "restore_collections unmarshal db (length names) (concat parts) t1 = (t2, Inr ())"
    "docs t2 = (\<lambda>c. docs t1 c @ (if c \<in> set names then restored_docs unmarshal src s c else []))"
    "idx t2 = (\<lambda>c. idx t1 c @ (if c \<in> set names then restored_indexes src s c else []))"
    using Cons.IH [of t1] Cons.prems by auto
  have "c \<notin> set names" using Cons.prems by simp
  then show ?case using t1 t2 by (intro exI [of _ t2]) (auto simp: next_step_def fun_eq_iff)
qed simp

lemma replay_native_archive:
  assumes laws: "mongo_laws db docs idx" and bson: "bson_laws marshal unmarshal"
    and names: "mg_Names src s = Inr names" "distinct names" "length names < 2 ^ 64"
    and ok: "list_all (dumpable unmarshal src s) names" and x: "native_archive io marshal src s = Inr x"
  shows "\<exists>t1. replay_archive unmarshal db x t = (t1, Inr ()) \<and>
    docs t1 = (\<lambda>c. docs t c @ (if c \<in> set names then restored_docs unmarshal src s c else [])) \<and>
    idx t1 = (\<lambda>c. idx t c @ (if c \<in> set names then restored_indexes src s c else []))"
proof -
  obtain parts where parts: "list_all2 (\<lambda>c part. dump_collection io marshal src s c = Inr part) names parts"
    "x = nativeMagic @ writeUvarint (word_of_nat (length names)) @ concat parts"
    using x names(1) by (auto simp: native_archive_def collect_Inr_iff split: sum.splits)
  show ?thesis
    using restore_collections_dump [OF laws bson parts(1) ok names(2)] names(3) parts(2)
    by (simp add: replay_archive_def nativeMagic_def unat_word_of_length)
qed


text \<open>A database of one collection of two documents and one index, for the witnesses.\<close>

type_synonym toy_db = "(string \<Rightarrow> bdoc list) \<times> (string \<Rightarrow> index_model list)"

definition toy_marshal :: "bdoc \<Rightarrow> string option" where
  "toy_marshal d =
     (case d of
        [(k, BString v)] \<Rightarrow> if k = ''x'' \<and> length v \<le> 100 then Some v else None
      | _ \<Rightarrow> None)"

definition toy_unmarshal :: "string \<Rightarrow> bdoc option" where
  "toy_unmarshal raw = (if length raw \<le> 100 then Some [(''x'', BString raw)] else None)"

lemma toy_bson: "bson_laws toy_marshal toy_unmarshal"
  by (auto simp: bson_laws_def toy_marshal_def toy_unmarshal_def split: list.splits prod.splits bson.splits if_splits)

definition toy_mongo :: "toy_db mongo" where
  "toy_mongo = \<lparr>mg_Names = (\<lambda>t. Inr [''users'']), mg_Indexes = (\<lambda>c t. Inr [[(''x'', BString ''id'')]]),
     mg_Find = (\<lambda>c t. Inr ([''ann'', ''bob''], None)), mg_Count = (\<lambda>c t. Inr 2),
     mg_Insert = (\<lambda>c ds t. (((fst t)(c := fst t c @ ds), snd t), Inr ())),
     mg_CreateIndexes = (\<lambda>c ms t. ((fst t, (snd t)(c := snd t c @ ms)), Inr ()))\<rparr>"

lemma toy_mongo_laws: "mongo_laws toy_mongo fst snd"
  by (simp add: mongo_laws_def toy_mongo_def)

definition toy_empty :: "toy_db machine" where
  "toy_empty = ((\<lambda>_. [], \<lambda>_. []), no_files)"

definition toy_backup :: "toy_db machine \<times> (string + path \<times> int)" where
  "toy_backup = BackupMongoNative (\<lambda>_. False) toy_marshal (\<lambda>_ _ _. Inr toy_mongo) [''a.vgm''] ''u'' ''app'' toy_empty"

lemma toy_backup_ok: "snd toy_backup = Inr ([''a.vgm''], 24)" "snd (fst toy_backup) = \<lparr>fs_files = [([''a.vgm''], the (file_at (snd (fst toy_backup)) [''a.vgm'']))], fs_dirs = []\<rparr>"
  by code_simp+


end
