(* ===== verification/Csv.thy ===== *)
theory Csv
  imports Connect
begin

text \<open>
  The CSV files of \<open>mongo_export.go\<close>: Go's \<open>csv.Writer\<close> with its defaults and \<open>csv.Reader\<close> with
  \<open>LazyQuotes\<close> and \<open>FieldsPerRecord = -1\<close>, as the exporter configures them.  With those settings the reader
  accepts every text.
\<close>

subsection \<open>Writing\<close>

definition nl :: char where "nl = CHR 0x0A"
definition cr :: char where "cr = CHR 0x0D"
definition dquote :: char where "dquote = CHR 0x22"
definition comma :: char where "comma = CHR '',''"

text \<open>The white space of Unicode beyond ASCII, in UTF-8.\<close>

definition wide_spaces :: "string list" where
  "wide_spaces =
     [[CHR 0xC2, CHR 0x85], [CHR 0xC2, CHR 0xA0], [CHR 0xE1, CHR 0x9A, CHR 0x80]] @
     map (\<lambda>b. [CHR 0xE2, CHR 0x80, char_of (0x80 + b :: nat)]) [0..<11] @
     [[CHR 0xE2, CHR 0x80, CHR 0xA8], [CHR 0xE2, CHR 0x80, CHR 0xA9], [CHR 0xE2, CHR 0x80, CHR 0xAF],
      [CHR 0xE2, CHR 0x81, CHR 0x9F], [CHR 0xE3, CHR 0x80, CHR 0x80]]"

definition fieldNeedsQuotes :: "string \<Rightarrow> bool" where
  "fieldNeedsQuotes f \<longleftrightarrow>
     f \<noteq> '''' \<and> (f = [CHR 0x5C, CHR ''.''] \<or> list_ex (\<lambda>c. c = nl \<or> c = cr \<or> c = dquote \<or> c = comma) f \<or>
       is_space (hd f) \<or> list_ex (\<lambda>w. has_prefix w f) wide_spaces)"

definition write_field :: "string \<Rightarrow> string" where
  "write_field f = (if fieldNeedsQuotes f then dquote # replace_with dquote [dquote, dquote] f @ [dquote] else f)"

definition write_row :: "string list \<Rightarrow> string" where
  "write_row row = join_with [comma] (map write_field row) @ [nl]"

definition write_rows :: "string list list \<Rightarrow> string" where
  "write_rows rs = concat (map write_row rs)"

subsection \<open>Reading\<close>

definition drop_cr :: "string \<Rightarrow> string" where
  "drop_cr s = (if s \<noteq> [] \<and> last s = cr then butlast s else s)"

text \<open>\<open>readLine\<close>: a line with its newline, if it has one; a carriage return before it, or before the end of
  the text, is dropped.\<close>

definition readLine :: "string \<Rightarrow> (string \<times> string) option" where
  "readLine src =
     (if src = [] then None
      else let l = drop_cr (takeWhile (\<lambda>c. c \<noteq> nl) src); r = dropWhile (\<lambda>c. c \<noteq> nl) src
           in if r = [] then Some (l, []) else Some (l @ [nl], tl r))"

definition next_line :: "string \<Rightarrow> string \<times> string" where
  "next_line src = (case readLine src of None \<Rightarrow> ([], []) | Some p \<Rightarrow> p)"

lemma drop_cr_length: "length (drop_cr s) \<le> length s"
  by (simp add: drop_cr_def)

lemma readLine_cases:
  assumes "src \<noteq> []"
  obtains (last) "nl \<notin> set src" "readLine src = Some (drop_cr src, [])"
  | (line) k rest where "nl \<notin> set k" "src = k @ nl # rest" "readLine src = Some (drop_cr k @ [nl], rest)"
proof (cases "nl \<in> set src")
  case True
  then obtain k rest where "src = k @ nl # rest" "nl \<notin> set k" by (meson split_list_first)
  moreover from this have "takeWhile (\<lambda>c. c \<noteq> nl) src = k" "dropWhile (\<lambda>c. c \<noteq> nl) src = nl # rest"
    by (auto simp: takeWhile_tail takeWhile_eq_all_conv dropWhile_append)
  ultimately show ?thesis using that(2) assms by (simp add: readLine_def)
next
  case False
  then have tw: "takeWhile (\<lambda>c. c \<noteq> nl) src = src" "dropWhile (\<lambda>c. c \<noteq> nl) src = []"
    by (auto simp: takeWhile_eq_all_conv)
  have "readLine src = Some (drop_cr src, [])" using assms by (simp only: readLine_def Let_def tw if_False if_True simp_thms)
  then show ?thesis using that(1) False by blast
qed

lemma readLine_shorter:
  assumes "readLine src = Some (l, s)"
  shows "length l + length s \<le> length src" and "length s < length src"
proof -
  have "src \<noteq> []" using assms by (auto simp: readLine_def)
  then have "length l + length s \<le> length src \<and> length s < length src"
  proof (cases rule: readLine_cases)
    case last
    then show ?thesis using assms drop_cr_length [of src] \<open>src \<noteq> []\<close> by simp
  next
    case (line k rest)
    then show ?thesis using assms drop_cr_length [of k] by auto
  qed
  then show "length l + length s \<le> length src" "length s < length src" by simp_all
qed

lemma next_line_length: "length (fst (next_line src)) + length (snd (next_line src)) \<le> length src"
proof (cases "readLine src")
  case (Some p)
  then show ?thesis using readLine_shorter [of src "fst p" "snd p"] by (simp add: next_line_def)
qed (simp add: next_line_def)

text \<open>What follows a field: another field on the same line, or the next record.\<close>

datatype after_field = Next string string | Done string

definition prepend :: "char \<Rightarrow> string \<times> after_field \<Rightarrow> string \<times> after_field" where
  "prepend c r = (c # fst r, snd r)"

text \<open>The inside of a quoted field: the rest of its line, and the text below.\<close>

function quoted :: "string \<Rightarrow> string \<Rightarrow> string \<times> after_field" where
  "quoted line src =
     (case line of
        [] \<Rightarrow> ([], Done src)
      | c # cs \<Rightarrow>
          if c \<noteq> dquote then
            prepend c (if cs = [] then quoted (fst (next_line src)) (snd (next_line src)) else quoted cs src)
          else (case cs of
              [] \<Rightarrow> ([], Done src)
            | d # ds \<Rightarrow>
                if d = dquote then prepend dquote (quoted ds src)
                else if d = comma then ([], Next ds src)
                else if d = nl \<and> ds = [] then ([], Done src)
                else prepend dquote (quoted cs src)))"
  by pat_completeness auto
termination
proof (relation "measure (\<lambda>(line, src). length line + length src)")
  fix line cs :: string and src c
  assume "line = c # cs"
  then show "((fst (next_line src), snd (next_line src)), line, src) \<in> measure (\<lambda>(line, src). length line + length src)"
    using next_line_length [of src] by (simp add: case_prod_beta)
qed auto

declare quoted.simps [simp del]

definition trim_nl :: "string \<Rightarrow> string" where
  "trim_nl s = (if s \<noteq> [] \<and> last s = nl then butlast s else s)"

definition field :: "string \<Rightarrow> string \<Rightarrow> string \<times> after_field" where
  "field line src =
     (if line \<noteq> [] \<and> hd line = dquote then quoted (tl line) src
      else let f = takeWhile (\<lambda>c. c \<noteq> comma) line; r = dropWhile (\<lambda>c. c \<noteq> comma) line
           in if r = [] then (trim_nl line, Done src) else (f, Next (tl r) src))"

fun left :: "after_field \<Rightarrow> nat" where
  "left (Next l s) = Suc (length l + length s)"
| "left (Done s) = length s"

lemma quoted_left: "left (snd (quoted line src)) \<le> length line + length src"
proof (induction line src rule: quoted.induct)
  case (1 line src)
  show ?case
  proof (cases line)
    case Nil
    then show ?thesis by (simp add: quoted.simps)
  next
    case (Cons c cs)
    note eq = quoted.simps [of line src, unfolded Cons]
    show ?thesis
    proof (cases "c = dquote")
      case False
      then show ?thesis
        using 1(1) [OF Cons False] 1(2) [OF Cons False] next_line_length [of src]
        by (auto simp: eq Cons prepend_def)
    next
      case True
      show ?thesis
      proof (cases cs)
        case Nil
        then show ?thesis using quoted.simps [of "[dquote]" src] by (simp add: Cons True)
      next
        fix d ds
        assume cs: "cs = d # ds"
        show ?thesis
          using 1(3) [OF Cons _ cs] 1(4) [OF Cons _ cs] True quoted.simps [of "dquote # d # ds" src]
          by (auto simp: Cons cs prepend_def)
      qed
    qed
  qed
qed

lemma field_left: "field line src = (f, Next l s) \<Longrightarrow> length l + length s < length line + length src"
proof (cases "line \<noteq> [] \<and> hd line = dquote")
  case True
  assume f: "field line src = (f, Next l s)"
  have "left (snd (quoted (tl line) src)) \<le> length (tl line) + length src" by (rule quoted_left)
  then show ?thesis using f True by (cases line) (simp_all add: field_def)
next
  case False
  assume f: "field line src = (f, Next l s)"
  have "length (takeWhile (\<lambda>c. c \<noteq> comma) line) + length (dropWhile (\<lambda>c. c \<noteq> comma) line) = length line"
    by (metis length_append takeWhile_dropWhile_id)
  then show ?thesis using f False
    by (cases "dropWhile (\<lambda>c. c \<noteq> comma) line") (auto simp: field_def Let_def split: if_splits)
qed

lemma field_done: "field line src = (f, Done s) \<Longrightarrow> length s \<le> length line + length src"
  using quoted_left [of "tl line" src] by (auto simp: field_def Let_def split: if_splits)

text \<open>The fields of one record, and the text after it.\<close>

function record_fields :: "string \<Rightarrow> string \<Rightarrow> string list \<times> string" where
  "record_fields line src =
     (case field line src of
        (f, Done s) \<Rightarrow> ([f], s)
      | (f, Next l s) \<Rightarrow> (f # fst (record_fields l s), snd (record_fields l s)))"
  by pat_completeness auto
termination
  by (relation "measure (\<lambda>(line, src). length line + length src)") (auto dest: field_left [OF sym])

declare record_fields.simps [simp del]

lemma field_done_less: "field line src = (f, Done s) \<Longrightarrow> line \<noteq> [] \<Longrightarrow> length s < length line + length src"
  using quoted_left [of "tl line" src] by (cases line) (auto simp: field_def Let_def split: if_splits)

lemma record_fields_length: "length (snd (record_fields line src)) \<le> length line + length src"
proof (induction line src rule: record_fields.induct)
  case (1 line src)
  obtain f r where fr: "field line src = (f, r)" by (rule prod.exhaust)
  show ?case
  proof (cases r)
    case (Next l s)
    show ?thesis
      using 1(1) [OF fr [symmetric] Next] field_left [OF fr [unfolded Next]]
      by (subst record_fields.simps) (simp add: fr Next)
  next
    case (Done s)
    then show ?thesis using field_done [OF fr [unfolded Done]] by (subst record_fields.simps) (simp add: fr)
  qed
qed

lemma record_fields_less:
  assumes "line \<noteq> []"
  shows "length (snd (record_fields line src)) < length line + length src"
proof -
  obtain f r where fr: "field line src = (f, r)" by (rule prod.exhaust)
  show ?thesis
  proof (cases r)
    case (Next l s)
    show ?thesis using record_fields_length [of l s] field_left [OF fr [unfolded Next]]
      by (subst record_fields.simps) (simp add: fr Next)
  next
    case (Done s)
    then show ?thesis using field_done_less [OF fr [unfolded Done] assms] by (subst record_fields.simps) (simp add: fr)
  qed
qed

text \<open>All records; empty lines are skipped.\<close>

function read_rows :: "string \<Rightarrow> string list list" where
  "read_rows src =
     (case readLine src of
        None \<Rightarrow> []
      | Some (l, s) \<Rightarrow>
          if l = [] \<or> l = [nl] then read_rows s
          else fst (record_fields l s) # read_rows (snd (record_fields l s)))"
  by pat_completeness auto
termination
proof (relation "measure length")
  fix src l s and p :: "string \<times> string"
  assume "readLine src = Some p" "(l, s) = p"
  then have r: "readLine src = Some (l, s)" by simp
  show "(s, src) \<in> measure length" using readLine_shorter [OF r] by simp
  assume "\<not> (l = [] \<or> l = [nl])"
  then have "l \<noteq> []" by simp
  then show "(snd (record_fields l s), src) \<in> measure length"
    using readLine_shorter [OF r] record_fields_less [of l s] by simp
qed simp

declare read_rows.simps [simp del]

subsection \<open>Round trip\<close>

text \<open>A text without carriage returns that has a newline, split into its first line and the rest.\<close>

definition line_split :: "string \<Rightarrow> string \<Rightarrow> string \<Rightarrow> bool" where
  "line_split T l s \<longleftrightarrow> cr \<notin> set T \<and> (\<exists>k. l = k @ [nl] \<and> nl \<notin> set k \<and> T = k @ nl # s)"

definition closed_text :: "string \<Rightarrow> bool" where
  "closed_text T \<longleftrightarrow> cr \<notin> set T \<and> nl \<in> set T"

lemma line_split_ex: "closed_text T \<Longrightarrow> \<exists>l s. line_split T l s"
  unfolding closed_text_def line_split_def by (metis split_list_first)

lemma drop_cr_id: "cr \<notin> set k \<Longrightarrow> drop_cr k = k"
  by (auto simp: drop_cr_def dest: last_in_set)

lemma readLine_split: "line_split T l s \<Longrightarrow> readLine T = Some (l, s)"
proof -
  assume "line_split T l s"
  then obtain k where k: "cr \<notin> set T" "l = k @ [nl]" "nl \<notin> set k" "T = k @ nl # s"
    unfolding line_split_def by blast
  then have "takeWhile (\<lambda>c. c \<noteq> nl) T = k" "dropWhile (\<lambda>c. c \<noteq> nl) T = nl # s"
    by (auto simp: takeWhile_tail dropWhile_append takeWhile_eq_all_conv)
  then show ?thesis using k by (auto simp: readLine_def drop_cr_id)
qed

lemma line_split_nl: "line_split (nl # T) l s \<longleftrightarrow> cr \<notin> set (nl # T) \<and> l = [nl] \<and> s = T"
proof
  assume "line_split (nl # T) l s"
  then obtain k where k: "cr \<notin> set (nl # T)" "l = k @ [nl]" "nl \<notin> set k" "nl # T = k @ nl # s"
    unfolding line_split_def by blast
  then show "cr \<notin> set (nl # T) \<and> l = [nl] \<and> s = T" by (cases k) auto
qed (auto simp: line_split_def)

lemma line_split_Cons:
  assumes "c \<noteq> nl" and "line_split (c # T) l s"
  obtains l' where "l = c # l'" "line_split T l' s" "l' \<noteq> []"
proof -
  obtain k where k: "cr \<notin> set (c # T)" "l = k @ [nl]" "nl \<notin> set k" "c # T = k @ nl # s"
    using assms(2) unfolding line_split_def by blast
  then obtain k' where "k = c # k'" using assms(1) by (cases k) auto
  then show ?thesis using k by (intro that [of "k' @ [nl]"]) (auto simp: line_split_def)
qed

lemma line_split_nonempty: "line_split T l s \<Longrightarrow> l \<noteq> []"
  by (auto simp: line_split_def)

text \<open>What a reader finds after a field, when the text goes on with a comma or the end of the record.\<close>

definition follows :: "string \<Rightarrow> after_field \<Rightarrow> bool" where
  "follows T r \<longleftrightarrow>
     (case T of
        [] \<Rightarrow> False
      | c # t \<Rightarrow> c = nl \<and> r = Done t \<or> c = comma \<and> (\<exists>l s. r = Next l s \<and> line_split t l s))"

lemma distinct_marks [simp]: "nl \<noteq> dquote" "dquote \<noteq> nl" "comma \<noteq> nl" "nl \<noteq> comma" "dquote \<noteq> comma" "comma \<noteq> dquote"
  "nl \<noteq> cr" "cr \<noteq> nl" "cr \<noteq> comma" "comma \<noteq> cr" "cr \<noteq> dquote" "dquote \<noteq> cr"
  by (simp_all add: nl_def dquote_def comma_def cr_def)

lemma quoted_end:
  assumes "line_split (dquote # T) l s" and "T \<noteq> []" and "hd T = comma \<or> hd T = nl"
  shows "\<exists>r. quoted l s = ([], r) \<and> follows T r"
proof -
  obtain l1 where l1: "l = dquote # l1" "line_split T l1 s" using assms(1) by (auto elim: line_split_Cons [rotated])
  obtain c t where T: "T = c # t" using assms(2) by (cases T) auto
  show ?thesis
  proof (cases "c = nl")
    case True
    then have "l1 = [nl]" "s = t" using l1(2) by (simp_all add: T line_split_nl)
    then show ?thesis by (subst quoted.simps) (simp add: l1(1) T True follows_def)
  next
    case False
    then have c: "c = comma" using assms(3) by (simp add: T)
    obtain l2 where "l1 = comma # l2" "line_split t l2 s" using l1(2) unfolding T c by (auto elim: line_split_Cons [rotated])
    then show ?thesis by (subst quoted.simps) (simp add: l1(1) T c follows_def)
  qed
qed

lemma quoted_reads:
  assumes "line_split (replace_with dquote [dquote, dquote] f @ dquote # T) l s" and "closed_text T"
    and "hd T = comma \<or> hd T = nl"
  shows "\<exists>r. quoted l s = (f, r) \<and> follows T r"
  using assms
proof (induction f arbitrary: l s)
  case Nil
  then show ?case using quoted_end [of T l s] by (cases T) (simp_all add: closed_text_def)
next
  case (Cons c f)
  let ?X = "replace_with dquote [dquote, dquote] f @ dquote # T"
  show ?case
  proof (cases "c = dquote")
    case True
    obtain l1 where l1: "l = dquote # l1" "line_split (dquote # ?X) l1 s"
      using Cons.prems(1) True by (auto elim: line_split_Cons [rotated])
    obtain l2 where l2: "l1 = dquote # l2" "line_split ?X l2 s"
      using l1(2) by (auto elim: line_split_Cons [rotated])
    obtain r where "quoted l2 s = (f, r)" "follows T r" using Cons.IH [OF l2(2) Cons.prems(2,3)] by blast
    then show ?thesis using True l1 l2 by (subst quoted.simps) (simp add: prepend_def)
  next
    case other: False
    show ?thesis
    proof (cases "c = nl")
      case True
      then have ls: "l = [nl]" "s = ?X" "cr \<notin> set ?X" using Cons.prems(1) by (auto simp: line_split_nl)
      have "closed_text ?X" using Cons.prems(2) ls(3) by (simp add: closed_text_def)
      then obtain l1 s1 where sp: "line_split ?X l1 s1" using line_split_ex by blast
      obtain r where "quoted l1 s1 = (f, r)" "follows T r" using Cons.IH [OF sp Cons.prems(2,3)] by blast
      then show ?thesis using True ls readLine_split [OF sp]
        by (subst quoted.simps) (simp add: prepend_def next_line_def)
    next
      case False
      obtain l1 where l1: "l = c # l1" "line_split ?X l1 s" "l1 \<noteq> []"
        using Cons.prems(1) False other by (auto elim: line_split_Cons [rotated])
      obtain r where "quoted l1 s = (f, r)" "follows T r" using Cons.IH [OF l1(2) Cons.prems(2,3)] by blast
      then show ?thesis using other l1 by (subst quoted.simps) (simp add: prepend_def)
    qed
  qed
qed

lemma plain_reads:
  assumes "line_split (f @ T) l s" and "T \<noteq> []" and "hd T = comma \<or> hd T = nl"
    and "nl \<notin> set f" and "comma \<notin> set f" and "f = [] \<or> hd f \<noteq> dquote"
  shows "\<exists>r. field l s = (f, r) \<and> follows T r"
proof -
  obtain l1 where l1: "l = f @ l1" "line_split T l1 s"
    using assms(1,4)
  proof (induction f arbitrary: l thesis)
    case (Cons c f)
    obtain l2 where l2: "l = c # l2" "line_split (f @ T) l2 s"
      using Cons.prems(2,3) by (auto elim: line_split_Cons [rotated])
    obtain l1 where "l2 = f @ l1" "line_split T l1 s" using Cons.IH [OF _ l2(2)] Cons.prems(3) by auto
    then show ?case using Cons.prems(1) l2(1) by simp
  qed simp
  obtain c t where T: "T = c # t" using assms(2) by (cases T) auto
  have h: "\<not> (l \<noteq> [] \<and> hd l = dquote)"
  proof (cases f)
    case Nil
    then show ?thesis using l1 assms(3) unfolding T
      by (cases "c = nl") (auto simp: line_split_nl elim: line_split_Cons [rotated])
  qed (use assms(6) l1 in simp)
  show ?thesis
  proof (cases "c = nl")
    case True
    then have s: "l1 = [nl]" "s = t" using l1(2) by (simp_all add: T line_split_nl)
    have "dropWhile (\<lambda>c. c \<noteq> comma) (f @ [nl]) = []" using assms(5) by auto
    then have "field l s = (f, Done t)" using h l1(1) s by (simp add: field_def trim_nl_def)
    then show ?thesis by (simp add: follows_def T True)
  next
    case False
    then have c: "c = comma" using assms(3) by (simp add: T)
    obtain l2 where l2: "l1 = comma # l2" "line_split t l2 s" using l1(2) unfolding T c by (auto elim: line_split_Cons [rotated])
    have "takeWhile (\<lambda>c. c \<noteq> comma) (f @ comma # l2) = f" "dropWhile (\<lambda>c. c \<noteq> comma) (f @ comma # l2) = comma # l2"
      using assms(5) by (auto simp: takeWhile_tail dropWhile_append takeWhile_eq_all_conv)
    then have "field l s = (f, Next l2 s)" using h l1(1) l2(1) by (simp add: field_def)
    then show ?thesis using l2(2) by (simp add: follows_def T c)
  qed
qed

lemma field_reads:
  assumes "line_split (write_field f @ T) l s" and "closed_text T" and "hd T = comma \<or> hd T = nl"
  shows "\<exists>r. field l s = (f, r) \<and> follows T r"
proof (cases "fieldNeedsQuotes f")
  case True
  then have "line_split (dquote # replace_with dquote [dquote, dquote] f @ dquote # T) l s"
    using assms(1) by (simp add: write_field_def)
  then obtain l1 where l1: "l = dquote # l1" "line_split (replace_with dquote [dquote, dquote] f @ dquote # T) l1 s"
    by (auto elim: line_split_Cons [rotated])
  show ?thesis using quoted_reads [OF l1(2) assms(2,3)] by (simp add: field_def l1(1))
next
  case False
  then have f: "f = '''' \<or> (\<forall>c\<in>set f. c \<noteq> nl \<and> c \<noteq> dquote \<and> c \<noteq> comma)"
    by (auto simp: fieldNeedsQuotes_def list_ex_iff)
  have w: "line_split (f @ T) l s" using assms(1) False by (simp add: write_field_def)
  have T: "T \<noteq> []" using assms(2) by (auto simp: closed_text_def)
  have "nl \<notin> set f" "comma \<notin> set f" "f = [] \<or> hd f \<noteq> dquote" using f by (cases f; force)+
  then show ?thesis by (rule plain_reads [OF w T assms(3)])
qed

definition no_cr :: "string list \<Rightarrow> bool" where
  "no_cr row \<longleftrightarrow> list_all (\<lambda>f. cr \<notin> set f) row"

lemma write_field_no_cr: "cr \<notin> set f \<Longrightarrow> cr \<notin> set (write_field f)"
  by (simp add: write_field_def replace_with_other)

lemma join_no_cr: "list_all (\<lambda>f. cr \<notin> set f) fs \<Longrightarrow> cr \<notin> set (join_with [comma] fs)"
  by (induction "[comma]" fs rule: join_with.induct) auto

lemma write_row_no_cr: "no_cr row \<Longrightarrow> cr \<notin> set (write_row row)"
proof -
  assume "no_cr row"
  then have "list_all (\<lambda>f. cr \<notin> set f) (map write_field row)"
    by (auto simp: no_cr_def list_all_iff dest: write_field_no_cr)
  then show ?thesis using join_no_cr by (simp add: write_row_def)
qed

lemma record_reads:
  assumes "line_split (join_with [comma] (map write_field row) @ nl # T) l s"
    and "row \<noteq> []" and "no_cr row" and "cr \<notin> set T"
  shows "record_fields l s = (row, T)"
  using assms
proof (induction row arbitrary: l s)
  case (Cons f row)
  show ?case
  proof (cases row)
    case Nil
    have sp: "line_split (write_field f @ nl # T) l s" using Cons.prems(1) Nil by simp
    have "\<exists>r. field l s = (f, r) \<and> follows (nl # T) r"
      using Cons.prems(4) by (intro field_reads [OF sp]) (simp_all add: closed_text_def)
    then show ?thesis using Nil by (subst record_fields.simps) (auto simp: follows_def)
  next
    case (Cons g row')
    let ?X = "join_with [comma] (map write_field row) @ nl # T"
    have sp: "line_split (write_field f @ comma # ?X) l s" using Cons.prems(1) Cons by simp
    have "no_cr row" using Cons.prems(3) by (simp add: no_cr_def)
    then have "cr \<notin> set (join_with [comma] (map write_field row))"
      unfolding no_cr_def by (intro join_no_cr) (auto simp: list_all_iff dest: write_field_no_cr)
    then have "closed_text (comma # ?X)" using Cons.prems(4) by (simp add: closed_text_def)
    then obtain r where r: "field l s = (f, r)" "follows (comma # ?X) r"
      using field_reads [OF sp] by auto
    then obtain l1 s1 where r1: "r = Next l1 s1" "line_split ?X l1 s1" by (auto simp: follows_def)
    have "record_fields l1 s1 = (row, T)"
      using Cons.IH [OF r1(2)] \<open>no_cr row\<close> Cons Cons.prems(4) by simp
    then show ?thesis using r(1) r1(1) by (subst record_fields.simps) simp
  qed
qed simp

text \<open>A row the format can represent: not empty, not a single empty field, and free of carriage returns.\<close>

definition representable :: "string list \<Rightarrow> bool" where
  "representable row \<longleftrightarrow> row \<noteq> [] \<and> row \<noteq> [''''] \<and> no_cr row"

lemma write_rows_no_cr: "list_all no_cr rs \<Longrightarrow> cr \<notin> set (write_rows rs)"
  by (induction rs) (auto simp: write_rows_def dest: write_row_no_cr)

lemma write_field_empty: "write_field f = [] \<longleftrightarrow> f = []"
  by (simp add: write_field_def fieldNeedsQuotes_def)

lemma write_field_hd: "f \<noteq> [] \<Longrightarrow> hd (write_field f) \<noteq> nl"
  by (cases f) (auto simp: write_field_def fieldNeedsQuotes_def)

lemma join_hd:
  "fs \<noteq> [] \<Longrightarrow> fs \<noteq> [[]] \<Longrightarrow> join_with [comma] fs \<noteq> [] \<and>
     hd (join_with [comma] fs) = (if hd fs = [] then comma else hd (hd fs))"
  by (induction "[comma]" fs rule: join_with.induct) auto

lemma read_write_row:
  assumes "representable row" and "cr \<notin> set T"
  shows "read_rows (write_row row @ T) = row # read_rows T"
proof -
  let ?j = "join_with [comma] (map write_field row)"
  have row: "row \<noteq> []" "row \<noteq> ['''']" "no_cr row" using assms(1) by (simp_all add: representable_def)
  have "map write_field row \<noteq> []" "map write_field row \<noteq> [[]]" using row by (auto simp: write_field_empty)
  note j = join_hd [OF this]
  then have j': "?j \<noteq> []" "hd ?j \<noteq> nl"
    using row(1) write_field_hd [of "hd row"] by (auto simp: hd_map write_field_empty)
  have "closed_text (?j @ nl # T)" using write_row_no_cr [OF row(3)] assms(2)
    by (simp add: closed_text_def write_row_def)
  then obtain l s where sp: "line_split (?j @ nl # T) l s" using line_split_ex by blast
  have "l \<noteq> [nl]" using sp j' by (cases ?j) (auto simp: line_split_def)
  then show ?thesis
    using record_reads [OF sp row(1,3) assms(2)] readLine_split [OF sp] line_split_nonempty [OF sp]
    by (subst read_rows.simps) (simp add: write_row_def)
qed

lemma read_empty_row: "read_rows (write_row [] @ T) = read_rows T"
  by (subst read_rows.simps) (simp add: write_row_def readLine_def drop_cr_def)

lemma read_write_rows:
  assumes "list_all (\<lambda>r. r = [] \<or> representable r) rs"
  shows "read_rows (write_rows rs) = filter (\<lambda>r. r \<noteq> []) rs"
  using assms
proof (induction rs)
  case Nil
  show ?case by (subst read_rows.simps) (simp add: write_rows_def readLine_def)
next
  case (Cons r rs)
  have "no_cr r" if "r = [] \<or> representable r" for r using that by (auto simp: representable_def no_cr_def)
  then have "list_all no_cr rs" using Cons.prems unfolding list_all_iff by simp
  then have "cr \<notin> set (write_rows rs)" by (rule write_rows_no_cr)
  note T = this
  have w: "write_rows (r # rs) = write_row r @ write_rows rs" by (simp add: write_rows_def)
  have ih: "read_rows (write_rows rs) = filter (\<lambda>r. r \<noteq> []) rs" using Cons by simp
  show ?case
  proof (cases "r = []")
    case True
    then show ?thesis unfolding w by (simp only: read_empty_row ih) simp
  next
    case False
    then have "representable r" using Cons.prems by simp
    then show ?thesis using False unfolding w by (simp only: read_write_row [OF _ T] ih) simp
  qed
qed


text \<open>A line break of a value that was carriage return and newline comes back as the newline alone.\<close>

lemma crlf_becomes_lf: "read_rows (write_rows [[''id'', [CHR ''a'', cr, nl, CHR ''b'']]]) = [[''id'', [CHR ''a'', nl, CHR ''b'']]]"
  by code_simp

end
