(* ===== verification/Export.thy ===== *)
theory Export
  imports Mongo Csv "HOL-Library.Multiset" "HOL-Library.List_Lexorder" "HOL-Library.Char_ord"
begin

text \<open>
  The portable MongoDB exports of \<open>mongo_export.go\<close>: one relaxed extended-JSON document per line under marker
  lines, or flattened CSV, and their restores.  Extended JSON, the JSON probe of a line, Go's \<open>%q\<close> and the
  texts of numbers and times belong to libraries and are parameters.
\<close>

subsection \<open>Formats as parameters\<close>

text \<open>\<open>cd_Probe\<close> is what \<open>json.Unmarshal\<close> puts into the \<open>$vg_collection\<close> field, \<open>None\<close> when it fails.\<close>

record codec =
  cd_Unmarshal :: "string \<Rightarrow> bdoc option"
  cd_ToExt :: "bdoc \<Rightarrow> string option"
  cd_FromExt :: "string \<Rightarrow> bdoc option"
  cd_ValueExt :: "bson \<Rightarrow> string option"
  cd_Probe :: "string \<Rightarrow> string option"
  cd_Quote :: "string \<Rightarrow> string"
  cd_Float :: "64 word \<Rightarrow> string"
  cd_Time :: "int \<Rightarrow> string"

definition find_decoded :: "codec \<Rightarrow> 't mongo \<Rightarrow> 't \<Rightarrow> string \<Rightarrow> string + bdoc list" where
  "find_decoded cd db t name =
     (case mg_Find db name t of
        Inl e \<Rightarrow> Inl (firstLine (redacted e))
      | Inr (raws, err) \<Rightarrow>
          (case collect (\<lambda>raw. case cd_Unmarshal cd raw of None \<Rightarrow> Inl ''decode'' | Some d \<Rightarrow> Inr d) raws of
             Inl e \<Rightarrow> Inl e
           | Inr docs \<Rightarrow> (case err of Some e \<Rightarrow> Inl (firstLine (redacted e)) | None \<Rightarrow> Inr docs)))"

text \<open>Both exports: pre-check, connect, list the collections, write the parts to a temporary file that is
  removed again when anything fails.\<close>

definition export_file :: "(string \<Rightarrow> bool) \<Rightarrow> 't driver \<Rightarrow> path \<Rightarrow> string \<Rightarrow> string
    \<Rightarrow> ('t mongo \<Rightarrow> 't \<Rightarrow> string list \<Rightarrow> string + string) \<Rightarrow> 't machine \<Rightarrow> 't machine \<times> (string + path \<times> int)" where
  "export_file io dial tmp uri dbName body m =
     (case PrecheckMongo dial uri dbName (fst m) of
        Some e \<Rightarrow> (m, Inl e)
      | None \<Rightarrow>
          (case mongoConnect dial uri dbName (fst m) of
             Inl e \<Rightarrow> (m, Inl e)
           | Inr db \<Rightarrow>
               (case mg_Names db (fst m) of
                  Inl e \<Rightarrow> (m, Inl (firstLine (redacted e)))
                | Inr names \<Rightarrow>
                    next_step (temp_file tmp) (\<lambda>_ m1.
                      (case body db (fst m1) names of
                         Inl e \<Rightarrow> (on_files (drop_file tmp) m1, Inl e)
                       | Inr x \<Rightarrow>
                           if io ''write'' then (on_files (drop_file tmp) m1, Inl ''write'')
                           else next_step (stat_size tmp) (\<lambda>n m2. (m2, Inr (tmp, n))) (on_files (set_file tmp x) m1))) m)))"

subsection \<open>JSON lines\<close>

definition marker_line :: "codec \<Rightarrow> string \<Rightarrow> string" where
  "marker_line cd name = ''{'' @ [dquote] @ ''$vg_collection'' @ [dquote] @ '':'' @ cd_Quote cd name @ ''}''"

definition json_collection :: "codec \<Rightarrow> 't mongo \<Rightarrow> 't \<Rightarrow> string \<Rightarrow> string + string list" where
  "json_collection cd db t name =
     (case find_decoded cd db t name of
        Inl e \<Rightarrow> Inl e
      | Inr docs \<Rightarrow>
          (case collect (\<lambda>d. case cd_ToExt cd d of None \<Rightarrow> Inl ''marshal'' | Some x \<Rightarrow> Inr x) docs of
             Inl e \<Rightarrow> Inl e | Inr xs \<Rightarrow> Inr (marker_line cd name # xs)))"

definition json_text :: "codec \<Rightarrow> 't mongo \<Rightarrow> 't \<Rightarrow> string list \<Rightarrow> string + string" where
  "json_text cd db t names =
     (case collect (json_collection cd db t) names of
        Inl e \<Rightarrow> Inl e | Inr parts \<Rightarrow> Inr (concat (map (\<lambda>l. l @ [nl]) (concat parts))))"

definition BackupMongoJSON :: "(string \<Rightarrow> bool) \<Rightarrow> codec \<Rightarrow> 't driver \<Rightarrow> path \<Rightarrow> string \<Rightarrow> string
    \<Rightarrow> 't machine \<Rightarrow> 't machine \<times> (string + path \<times> int)" where
  "BackupMongoJSON io cd dial tmp uri dbName = export_file io dial tmp uri dbName (json_text cd)"

text \<open>\<open>bufio.Scanner\<close>: the lines of a text without their newlines.  (It also drops a carriage return, which is
  white space to the caller.)\<close>

definition scan_lines :: "string \<Rightarrow> string list" where
  "scan_lines s = (let ls = split_on nl s in if last ls = '''' then butlast ls else ls)"

definition max_line :: nat where "max_line = 16 * 1024 * 1024"

definition flush_named :: "'t mongo \<Rightarrow> string \<Rightarrow> bdoc list \<Rightarrow> 't \<Rightarrow> 't \<times> (string + unit)" where
  "flush_named db coll batch t =
     (if batch = [] \<or> coll = '''' then (t, Inr ())
      else (case mg_Insert db coll batch t of
          (t1, Inl e) \<Rightarrow> (t1, Inl (''insert '' @ coll @ '': '' @ firstLine (redacted e))) | (t1, Inr u) \<Rightarrow> (t1, Inr u)))"

text \<open>The scan: the collection in force, the batch, and the lines to come.\<close>

fun replay_lines :: "codec \<Rightarrow> 't mongo \<Rightarrow> string \<Rightarrow> bdoc list \<Rightarrow> string list \<Rightarrow> 't \<Rightarrow> 't \<times> (string + unit)" where
  "replay_lines cd db coll batch [] t = flush_named db coll batch t"
| "replay_lines cd db coll batch (raw # ls) t =
     (let line = trim_space raw in
      if max_line \<le> length raw then (t, Inl ''read dump: token too long'')
      else if line = '''' then replay_lines cd db coll batch ls t
      else (case cd_Probe cd line of
          None \<Rightarrow> (t, Inl ''parse line'')
        | Some name \<Rightarrow>
            if name \<noteq> '''' then
              (case flush_named db coll batch t of
                 (t1, Inl e) \<Rightarrow> (t1, Inl e) | (t1, Inr _) \<Rightarrow> replay_lines cd db name [] ls t1)
            else if coll = '''' then (t, Inl ''document before any collection marker'')
            else (case cd_FromExt cd line of
                None \<Rightarrow> (t, Inl ''parse document'')
              | Some d \<Rightarrow>
                  if batchSize \<le> Suc (length batch) then
                    (case flush_named db coll (batch @ [d]) t of
                       (t1, Inl e) \<Rightarrow> (t1, Inl e) | (t1, Inr _) \<Rightarrow> replay_lines cd db coll [] ls t1)
                  else replay_lines cd db coll (batch @ [d]) ls t)))"

definition restore_file :: "'t driver \<Rightarrow> string \<Rightarrow> string \<Rightarrow> string \<Rightarrow> ('t mongo \<Rightarrow> string \<Rightarrow> 't \<Rightarrow> 't \<times> (string + unit))
    \<Rightarrow> 't machine \<Rightarrow> 't machine \<times> (string + unit)" where
  "restore_file dial uri targ archive body m =
     (case mongoConnect dial uri targ (fst m) of
        Inl e \<Rightarrow> (m, Inl e)
      | Inr db \<Rightarrow>
          (case file_at (snd m) (comps archive) of
             None \<Rightarrow> (m, Inl ''open'')
           | Some x \<Rightarrow> (case body db x (fst m) of (t, r) \<Rightarrow> ((t, snd m), r))))"

definition RestoreMongoJSON :: "codec \<Rightarrow> 't driver \<Rightarrow> string \<Rightarrow> string \<Rightarrow> string \<Rightarrow> 't machine \<Rightarrow> 't machine \<times> (string + unit)" where
  "RestoreMongoJSON cd dial uri targ archive =
     restore_file dial uri targ archive (\<lambda>db x. replay_lines cd db '''' [] (scan_lines x))"

subsection \<open>CSV\<close>

definition dotted :: "string \<Rightarrow> string \<Rightarrow> string" where
  "dotted p k = (if p = '''' then k else p @ ''.'' @ k)"

text \<open>The assignments of \<open>flattenBSON\<close> in their order; a later one to the same path wins.\<close>

function flattenBSON :: "codec \<Rightarrow> string \<Rightarrow> bdoc \<Rightarrow> (string \<times> string) list" where
  "flattenBSON cd p [] = []"
| "flattenBSON cd p ((k, v) # es) =
     (let key = dotted p k in
      (case v of
         BDoc d \<Rightarrow> flattenBSON cd key d
       | BMap d \<Rightarrow> flattenBSON cd key (sort_key fst d)
       | BObjectID h \<Rightarrow> [(key, h)]
       | BDateTime n \<Rightarrow> [(key, cd_Time cd n)]
       | BString s \<Rightarrow> [(key, s)]
       | BBool b \<Rightarrow> [(key, if b then ''true'' else ''false'')]
       | BInt32 n \<Rightarrow> [(key, itoa n)]
       | BInt64 n \<Rightarrow> [(key, itoa n)]
       | BDouble x \<Rightarrow> [(key, cd_Float cd x)]
       | BNull \<Rightarrow> [(key, '''')]
       | BOther x \<Rightarrow> [(key, case cd_ValueExt cd v of None \<Rightarrow> '''' | Some s \<Rightarrow> s)]) @ flattenBSON cd p es)"
  by pat_completeness auto
termination
proof (relation "measure (\<lambda>(_, _, d). size_list (size_prod (\<lambda>_. 0) size) d)")
  fix d :: bdoc
  have "size_list (size_prod (\<lambda>_. 0) size) (sort_key fst d) = size_list (size_prod (\<lambda>_. 0) size) d"
    by (simp add: size_list_conv_sum_list flip: sum_mset_sum_list)
  note sorted = this
  fix cd p k v es key
  assume "v = BMap d"
  then show "((cd, key, sort_key fst d), cd, p, (k, v) # es) \<in> measure (\<lambda>(_, _, d). size_list (size_prod (\<lambda>_. 0) size) d)"
    by (simp add: sorted)
qed auto

declare flattenBSON.simps [simp del]

definition flat :: "codec \<Rightarrow> bdoc \<Rightarrow> string \<Rightarrow> string option" where
  "flat cd d = map_of (rev (flattenBSON cd '''' d))"

definition csv_header :: "codec \<Rightarrow> bdoc list \<Rightarrow> string list" where
  "csv_header cd docs = sort (remdups (concat (map (\<lambda>d. map fst (flattenBSON cd '''' d)) docs)))"

definition csv_row :: "codec \<Rightarrow> string list \<Rightarrow> bdoc \<Rightarrow> string list" where
  "csv_row cd header d = map (\<lambda>h. case flat cd d h of None \<Rightarrow> '''' | Some s \<Rightarrow> s) header"

definition csv_marker :: string where "csv_marker = ''$vg_collection''"

definition csv_collection :: "codec \<Rightarrow> 't mongo \<Rightarrow> 't \<Rightarrow> string \<Rightarrow> string + string list list" where
  "csv_collection cd db t name =
     (case find_decoded cd db t name of
        Inl e \<Rightarrow> Inl e
      | Inr docs \<Rightarrow>
          let header = csv_header cd docs in Inr ([csv_marker, name] # header # map (csv_row cd header) docs))"

definition csv_text :: "codec \<Rightarrow> 't mongo \<Rightarrow> 't \<Rightarrow> string list \<Rightarrow> string + string" where
  "csv_text cd db t names =
     (case collect (csv_collection cd db t) names of
        Inl e \<Rightarrow> Inl e | Inr parts \<Rightarrow> Inr (write_rows (concat parts)))"

definition BackupMongoCSV :: "(string \<Rightarrow> bool) \<Rightarrow> codec \<Rightarrow> 't driver \<Rightarrow> path \<Rightarrow> string \<Rightarrow> string
    \<Rightarrow> 't machine \<Rightarrow> 't machine \<times> (string + path \<times> int)" where
  "BackupMongoCSV io cd dial tmp uri dbName = export_file io dial tmp uri dbName (csv_text cd)"

text \<open>\<open>primitive.ObjectIDFromHex\<close>: 24 hexadecimal digits.\<close>

definition is_hex :: "char \<Rightarrow> bool" where
  "is_hex c \<longleftrightarrow> is_digit c \<or> c \<in> set ''abcdefABCDEF''"

definition csv_value :: "string \<Rightarrow> string \<Rightarrow> bson" where
  "csv_value h v =
     (if h = ''_id'' \<and> length v = 24 \<and> list_all is_hex v then BObjectID (to_lower v) else BString v)"

definition csv_doc :: "string list \<Rightarrow> string list \<Rightarrow> bdoc" where
  "csv_doc header row =
     map (\<lambda>(i, h). (h, csv_value h (if i < length row then row ! i else ''''))) (enumerate 0 header)"

fun replay_rows :: "'t mongo \<Rightarrow> string \<Rightarrow> string list option \<Rightarrow> bdoc list \<Rightarrow> string list list \<Rightarrow> 't
    \<Rightarrow> 't \<times> (string + unit)" where
  "replay_rows db coll header batch [] t = flush_named db coll batch t"
| "replay_rows db coll header batch (row # rs) t =
     (if length row = 2 \<and> row ! 0 = csv_marker then
        (case flush_named db coll batch t of
           (t1, Inl e) \<Rightarrow> (t1, Inl e)
         | (t1, Inr _) \<Rightarrow> replay_rows db (row ! 1) None (if coll = '''' then batch else []) rs t1)
      else if coll = '''' then replay_rows db coll header batch rs t
      else (case header of
          None \<Rightarrow> replay_rows db coll (Some row) batch rs t
        | Some hs \<Rightarrow>
            let b = batch @ [csv_doc hs row] in
            if batchSize \<le> length b then
              (case flush_named db coll b t of
                 (t1, Inl e) \<Rightarrow> (t1, Inl e) | (t1, Inr _) \<Rightarrow> replay_rows db coll header [] rs t1)
            else replay_rows db coll header b rs t))"

definition RestoreMongoCSV :: "'t driver \<Rightarrow> string \<Rightarrow> string \<Rightarrow> string \<Rightarrow> 't machine \<Rightarrow> 't machine \<times> (string + unit)" where
  "RestoreMongoCSV dial uri targ archive =
     restore_file dial uri targ archive (\<lambda>db x. replay_rows db '''' None [] (read_rows x))"

subsection \<open>Choosing the format\<close>

definition ExportMongo :: "(string \<Rightarrow> bool) \<Rightarrow> codec \<Rightarrow> 't driver \<Rightarrow> (string \<Rightarrow> string option) \<Rightarrow> path \<Rightarrow> string \<Rightarrow> string
    \<Rightarrow> string \<Rightarrow> bool \<Rightarrow> 't machine \<Rightarrow> 't machine \<times> (string + path \<times> int)" where
  "ExportMongo io cd dial gzip tmp uri dbName fmt compressed m =
     (if fmt = ''JSON'' \<or> fmt = ''CSV'' then
        next_step (if fmt = ''JSON'' then BackupMongoJSON io cd dial tmp uri dbName else BackupMongoCSV io cd dial tmp uri dbName)
          (\<lambda>(p, n) m1. if compressed then finish_dump gzip ''export'' True p m1 else (m1, Inr (p, n))) m
      else (m, Inl (''unknown export format '' @ fmt)))"

text \<open>\<open>restoreMongoExport\<close>: the file is decompressed first when its name says so.\<close>

definition restoreMongoExport :: "codec \<Rightarrow> 't driver \<Rightarrow> (string \<Rightarrow> string option) \<Rightarrow> path \<Rightarrow> string \<Rightarrow> string \<Rightarrow> string
    \<Rightarrow> string \<Rightarrow> 't machine \<Rightarrow> 't machine \<times> (string + unit)" where
  "restoreMongoExport cd dial gunzip tmp uri targ archive fmt m =
     (let load = (\<lambda>p. if fmt = ''JSON'' then RestoreMongoJSON cd dial uri targ p else RestoreMongoCSV dial uri targ p) in
      if has_suffix ''.gz'' archive then
        next_step (temp_file tmp) (\<lambda>_ m1.
          (case convert_file gunzip (comps archive) tmp (snd m1) of
             (fs, False) \<Rightarrow> ((fst m1, drop_file tmp fs), Inl ''gunzip export'')
           | (fs, True) \<Rightarrow>
               (case load (render True tmp) (fst m1, fs) of (m2, r) \<Rightarrow> (on_files (drop_file tmp) m2, r)))) m
      else load archive m)"

subsection \<open>Both formats as one sequence of items\<close>

text \<open>What either file says, line by line: the start of a collection, or one of its documents.\<close>

datatype item = Begin string | Row bdoc

fun play :: "'t mongo \<Rightarrow> string \<Rightarrow> bdoc list \<Rightarrow> item list \<Rightarrow> 't \<Rightarrow> 't \<times> (string + unit)" where
  "play db coll batch [] t = flush_named db coll batch t"
| "play db coll batch (Begin name # es) t =
     (case flush_named db coll batch t of (t1, Inl e) \<Rightarrow> (t1, Inl e) | (t1, Inr _) \<Rightarrow> play db name [] es t1)"
| "play db coll batch (Row d # es) t =
     (if batchSize \<le> Suc (length batch) then
        (case flush_named db coll (batch @ [d]) t of (t1, Inl e) \<Rightarrow> (t1, Inl e) | (t1, Inr _) \<Rightarrow> play db coll [] es t1)
      else play db coll (batch @ [d]) es t)"

definition items :: "(string \<times> bdoc list) list \<Rightarrow> item list" where
  "items parts = concat (map (\<lambda>(c, ds). Begin c # map Row ds) parts)"

lemma flush_named_works:
  assumes "mongo_laws db docs idx" and "coll \<noteq> '''' \<or> b = []"
  obtains t1 where "flush_named db coll b t = (t1, Inr ())" "docs t1 = (docs t)(coll := docs t coll @ b)" "idx t1 = idx t"
proof (cases "b = []")
  case True
  then show ?thesis using that [of t] by (simp add: flush_named_def)
next
  case False
  obtain t1 where t1: "mg_Insert db coll b t = (t1, Inr ())"
    using assms(1) unfolding mongo_laws_def by (metis prod.collapse)
  have "docs t1 = (docs t)(coll := docs t coll @ b)" "idx t1 = idx t"
    using assms(1) t1 unfolding mongo_laws_def by (metis fst_conv)+
  moreover have "flush_named db coll b t = (t1, Inr ())" using assms(2) False t1 by (simp add: flush_named_def)
  ultimately show ?thesis using that by blast
qed

lemma play_rows:
  assumes laws: "mongo_laws db docs idx" and coll: "coll \<noteq> ''''"
  shows "\<exists>t1 b. play db coll batch (map Row ds @ es) t = play db coll b es t1 \<and>
    (docs t1)(coll := docs t1 coll @ b) = (docs t)(coll := docs t coll @ batch @ ds) \<and> idx t1 = idx t"
proof (induction ds arbitrary: batch t)
  case Nil
  show ?case by (rule exI [of _ t], rule exI [of _ batch]) simp
next
  case (Cons d ds)
  show ?case
  proof (cases "batchSize \<le> Suc (length batch)")
    case True
    obtain t1 where t1: "flush_named db coll (batch @ [d]) t = (t1, Inr ())"
      "docs t1 = (docs t)(coll := docs t coll @ batch @ [d])" "idx t1 = idx t"
      using laws coll by (auto intro: flush_named_works [of db docs idx coll "batch @ [d]" t])
    obtain t2 b where "play db coll [] (map Row ds @ es) t1 = play db coll b es t2"
      "(docs t2)(coll := docs t2 coll @ b) = (docs t1)(coll := docs t1 coll @ [] @ ds)" "idx t2 = idx t1"
      using Cons.IH [of "[]" t1] by blast
    then show ?thesis using t1 True by (intro exI [of _ t2] exI [of _ b]) simp
  next
    case False
    obtain t2 b where "play db coll (batch @ [d]) (map Row ds @ es) t = play db coll b es t2"
      "(docs t2)(coll := docs t2 coll @ b) = (docs t)(coll := docs t coll @ (batch @ [d]) @ ds)" "idx t2 = idx t"
      using Cons.IH [of "batch @ [d]" t] by blast
    then show ?thesis using False by (intro exI [of _ t2] exI [of _ b]) simp
  qed
qed

text \<open>Played into a database that takes every write, the items add exactly their documents to their
  collections.\<close>

lemma play_items:
  assumes laws: "mongo_laws db docs idx" and names: "'''' \<notin> fst ` set parts" "distinct (map fst parts)"
    and coll: "coll \<noteq> '''' \<or> batch = []"
  shows "\<exists>t1. play db coll batch (items parts) t = (t1, Inr ()) \<and> idx t1 = idx t \<and>
    docs t1 = (\<lambda>c. ((docs t)(coll := docs t coll @ batch)) c @ (case map_of parts c of None \<Rightarrow> [] | Some ds \<Rightarrow> ds))"
  using names coll
proof (induction parts arbitrary: coll batch t)
  case Nil
  obtain t1 where "flush_named db coll batch t = (t1, Inr ())" "docs t1 = (docs t)(coll := docs t coll @ batch)" "idx t1 = idx t"
    using laws Nil.prems(3) by (rule flush_named_works)
  then show ?case by (intro exI [of _ t1]) (simp add: items_def fun_eq_iff)
next
  case (Cons part parts)
  obtain c ds where part: "part = (c, ds)" by (cases part)
  obtain t1 where t1: "flush_named db coll batch t = (t1, Inr ())" "docs t1 = (docs t)(coll := docs t coll @ batch)" "idx t1 = idx t"
    using laws Cons.prems(3) by (rule flush_named_works)
  have c: "c \<noteq> ''''" "'''' \<notin> fst ` set parts" "distinct (map fst parts)" "map_of parts c = None"
    using Cons.prems by (auto simp: part map_of_eq_None_iff)
  obtain t2 b where t2: "play db c [] (map Row ds @ items parts) t1 = play db c b (items parts) t2"
    "(docs t2)(c := docs t2 c @ b) = (docs t1)(c := docs t1 c @ [] @ ds)" "idx t2 = idx t1"
    using play_rows [OF laws c(1), of "[]" ds "items parts" t1] by blast
  obtain t3 where t3: "play db c b (items parts) t2 = (t3, Inr ())" "idx t3 = idx t2"
    "docs t3 = (\<lambda>k. ((docs t2)(c := docs t2 c @ b)) k @ (case map_of parts k of None \<Rightarrow> [] | Some ds \<Rightarrow> ds))"
    using Cons.IH [OF c(2,3), of c b t2] c(1) by blast
  have i: "items (part # parts) = Begin c # map Row ds @ items parts" by (simp add: items_def part)
  have "play db coll batch (items (part # parts)) t = (t3, Inr ())" unfolding i using t1(1) t2(1) t3(1) by simp
  moreover have "docs t3 = (\<lambda>k. ((docs t)(coll := docs t coll @ batch)) k @
      (case map_of (part # parts) k of None \<Rightarrow> [] | Some ds \<Rightarrow> ds))"
    unfolding t3(3) t2(2) t1(2) using c(4) by (auto simp: part fun_eq_iff)
  ultimately show ?case using t3(2) t2(3) t1(3) by (intro exI [of _ t3]) simp
qed

lemma play_names:
  assumes laws: "mongo_laws db docs idx" and "'''' \<notin> set names" and "distinct names"
  obtains t1 where "play db '''' [] (items (map (\<lambda>c. (c, f c)) names)) t = (t1, Inr ())" "idx t1 = idx t"
    "\<forall>c. docs t1 c = docs t c @ (if c \<in> set names then f c else [])"
proof -
  let ?ps = "map (\<lambda>c. (c, f c)) names"
  have "fst ` set ?ps = set names" "map fst ?ps = names" by (force simp: comp_def)+
  then obtain t1 where t1: "play db '''' [] (items ?ps) t = (t1, Inr ())" "idx t1 = idx t"
    "docs t1 = (\<lambda>c. ((docs t)('''' := docs t '''' @ [])) c @ (case map_of ?ps c of None \<Rightarrow> [] | Some ds \<Rightarrow> ds))"
    using play_items [OF laws, of ?ps "''''" "[]" t] assms(2,3) by auto
  have "map_of ?ps c = (if c \<in> set names then Some (f c) else None)" for c by (induction names) auto
  then show ?thesis using that t1 by simp
qed

text \<open>A line of the JSON file and what it says; a document needs a collection before it.\<close>

definition line_says :: "codec \<Rightarrow> string \<Rightarrow> item \<Rightarrow> bool" where
  "line_says cd raw e \<longleftrightarrow>
     length raw < max_line \<and> trim_space raw \<noteq> '''' \<and>
     (case e of
        Begin name \<Rightarrow> name \<noteq> '''' \<and> cd_Probe cd (trim_space raw) = Some name
      | Row d \<Rightarrow> cd_Probe cd (trim_space raw) = Some '''' \<and> cd_FromExt cd (trim_space raw) = Some d)"

lemma replay_lines_play:
  assumes "list_all2 (line_says cd) ls es" and "coll \<noteq> '''' \<or> (case es of Row d # _ \<Rightarrow> False | _ \<Rightarrow> True)"
  shows "replay_lines cd db coll batch ls t = play db coll batch es t"
  using assms
proof (induction ls es arbitrary: coll batch t rule: list_all2_induct)
  case (Cons raw ls e es)
  show ?case
  proof (cases e)
    case (Begin name)
    then have "replay_lines cd db name [] ls t1 = play db name [] es t1" for t1
      using Cons.IH [of name] Cons.hyps(1) by (simp add: line_says_def)
    then show ?thesis using Begin Cons.hyps(1) by (auto simp: line_says_def Let_def)
  next
    case (Row d)
    then have c: "coll \<noteq> ''''" using Cons.prems by simp
    then have "replay_lines cd db coll b ls t1 = play db coll b es t1" for b t1
      using Cons.IH [of coll] by simp
    then show ?thesis using Row c Cons.hyps(1) by (auto simp: line_says_def Let_def)
  qed
qed simp

text \<open>Likewise for CSV, where a collection begins with two rows when it has documents.\<close>

definition is_marker :: "string list \<Rightarrow> bool" where
  "is_marker row \<longleftrightarrow> length row = 2 \<and> row ! 0 = csv_marker"

definition csv_rows_of :: "codec \<Rightarrow> string \<times> bdoc list \<Rightarrow> string list list" where
  "csv_rows_of cd p = (let header = csv_header cd (snd p) in [csv_marker, fst p] # header # map (csv_row cd header) (snd p))"

lemma replay_rows_docs:
  assumes "coll \<noteq> ''''" and "\<And>r. r \<in> set rs \<Longrightarrow> \<not> is_marker r"
    and "\<And>b t1. replay_rows db coll (Some hs) b rest t1 = play db coll b es t1"
  shows "replay_rows db coll (Some hs) batch (rs @ rest) t = play db coll batch (map (\<lambda>r. Row (csv_doc hs r)) rs @ es) t"
  using assms(2)
proof (induction rs arbitrary: batch t)
  case (Cons r rs)
  then show ?case using assms(1) by (auto simp: is_marker_def Let_def)
qed (simp add: assms(3))

definition kept_rows :: "codec \<Rightarrow> string \<times> bdoc list \<Rightarrow> string list list" where
  "kept_rows cd p =
     [csv_marker, fst p] #
       (if snd p = [] then [] else csv_header cd (snd p) # map (csv_row cd (csv_header cd (snd p))) (snd p))"

definition csv_restored :: "codec \<Rightarrow> bdoc list \<Rightarrow> bdoc list" where
  "csv_restored cd ds = map (\<lambda>d. csv_doc (csv_header cd ds) (csv_row cd (csv_header cd ds) d)) ds"

text \<open>A collection CSV can carry: names and values without carriage returns, at least one column, and no row
  that looks like a marker.\<close>

definition csv_ok :: "codec \<Rightarrow> string \<times> bdoc list \<Rightarrow> bool" where
  "csv_ok cd p \<longleftrightarrow> fst p \<noteq> '''' \<and> cr \<notin> set (fst p) \<and>
     (snd p = [] \<or> list_all (\<lambda>r. representable r \<and> \<not> is_marker r) (tl (kept_rows cd p)))"

lemma marker_row: "cr \<notin> set c \<Longrightarrow> representable [csv_marker, c] \<and> is_marker [csv_marker, c]"
  by (simp add: representable_def no_cr_def is_marker_def csv_marker_def cr_def)

lemma rows_kept:
  assumes "list_all (csv_ok cd) parts"
  shows "read_rows (write_rows (concat (map (csv_rows_of cd) parts))) = concat (map (kept_rows cd) parts)"
proof -
  have one: "list_all (\<lambda>r. r = [] \<or> representable r) (csv_rows_of cd p) \<and> filter (\<lambda>r. r \<noteq> []) (csv_rows_of cd p) = kept_rows cd p"
    if "csv_ok cd p" for p
  proof (cases "snd p = []")
    case True
    then have "csv_rows_of cd p = [[csv_marker, fst p], []]" by (simp add: csv_rows_of_def csv_header_def)
    then show ?thesis using True that marker_row by (simp add: kept_rows_def csv_ok_def)
  next
    case False
    then have k: "csv_rows_of cd p = kept_rows cd p" by (simp add: csv_rows_of_def kept_rows_def Let_def)
    have "list_all representable (kept_rows cd p)"
      using that False marker_row unfolding csv_ok_def kept_rows_def by (auto simp: list_all_iff)
    then show ?thesis unfolding k
      by (auto simp: list_all_iff representable_def intro!: filter_True)
  qed
  then have "list_all (\<lambda>r. r = [] \<or> representable r) (concat (map (csv_rows_of cd) parts))"
    using assms unfolding list_all_iff by auto
  moreover have "filter (\<lambda>r. r \<noteq> []) (concat (map (csv_rows_of cd) parts)) = concat (map (kept_rows cd) parts)"
    using assms one unfolding filter_concat by (auto simp: list_all_iff intro!: arg_cong [of _ _ concat])
  ultimately show ?thesis by (simp add: read_write_rows)
qed

lemma replay_rows_play:
  assumes "list_all (csv_ok cd) parts" and "coll \<noteq> '''' \<or> batch = []"
  shows "replay_rows db coll h batch (concat (map (kept_rows cd) parts)) t =
    play db coll batch (items (map (\<lambda>(c, ds). (c, csv_restored cd ds)) parts)) t"
  using assms
proof (induction parts arbitrary: coll h batch t)
  case Nil
  then show ?case by (simp add: items_def)
next
  case (Cons part parts)
  obtain c ds where part: "part = (c, ds)" by (cases part)
  let ?rest = "concat (map (kept_rows cd) parts)" and ?es = "items (map (\<lambda>(c, ds). (c, csv_restored cd ds)) parts)"
  have ok3: "list_all (csv_ok cd) parts" "csv_ok cd (c, ds)" using Cons.prems by (simp_all add: part)
  have ok: "c \<noteq> ''''" "list_all (csv_ok cd) parts" "csv_ok cd (c, ds)" using ok3 by (simp_all add: csv_ok_def)
  have ih: "replay_rows db c h b ?rest t1 = play db c b ?es t1" for h b t1
    using Cons.IH [OF ok(2), of c b h t1] ok(1) by blast
  have m: "is_marker [csv_marker, c]" by (simp add: is_marker_def)
  have after: "replay_rows db c None [] (tl (kept_rows cd part) @ ?rest) t1 = play db c [] (map Row (csv_restored cd ds) @ ?es) t1" for t1
  proof (cases "ds = []")
    case True
    then show ?thesis using ih by (simp add: part kept_rows_def csv_restored_def)
  next
    case False
    let ?h = "csv_header cd ds"
    have rows: "\<not> is_marker ?h" "r \<in> set (map (csv_row cd ?h) ds) \<Longrightarrow> \<not> is_marker r" for r
      using ok(3) False by (auto simp: csv_ok_def kept_rows_def list_all_iff)
    have "replay_rows db c (Some ?h) [] (map (csv_row cd ?h) ds @ ?rest) t1 =
        play db c [] (map (\<lambda>r. Row (csv_doc ?h r)) (map (csv_row cd ?h) ds) @ ?es) t1"
      by (rule replay_rows_docs [OF ok(1) rows(2) ih])
    then show ?thesis using rows(1) False ok(1)
      by (auto simp add: part kept_rows_def csv_restored_def is_marker_def comp_def)
  qed
  have k: "kept_rows cd part = [csv_marker, c] # tl (kept_rows cd part)" by (simp add: kept_rows_def part)
  have "replay_rows db coll h batch (([csv_marker, c] # tl (kept_rows cd part)) @ ?rest) t =
      play db coll batch (Begin c # map Row (csv_restored cd ds) @ ?es) t"
    using after Cons.prems(2) by (auto split: prod.splits sum.splits)
  moreover have "concat (map (kept_rows cd) (part # parts)) = ([csv_marker, c] # tl (kept_rows cd part)) @ ?rest"
    by (simp only: list.map concat.simps flip: k)
  ultimately show ?case by (simp only: items_def part list.map concat.simps prod.case append_Cons)
qed

lemma scan_lines_write: "list_all (\<lambda>l. nl \<notin> set l) ls \<Longrightarrow> scan_lines (concat (map (\<lambda>l. l @ [nl]) ls)) = ls"
proof -
  assume "list_all (\<lambda>l. nl \<notin> set l) ls"
  then have "split_on nl (concat (map (\<lambda>l. l @ [nl]) ls)) = ls @ ['''']"
    by (induction ls) (simp_all add: split_on_append split_on_single)
  then show ?thesis by (simp add: scan_lines_def)
qed

subsection \<open>Round trips\<close>

lemma export_fileD:
  assumes "export_file io dial tmp uri dbName body m = (m1, Inr (p, n))"
  obtains db names x where "mongoConnect dial uri dbName (fst m) = Inr db" "mg_Names db (fst m) = Inr names"
    "body db (fst m) names = Inr x" "p = tmp" "file_at (snd m1) p = Some x"
  using assms
  by (auto simp: export_file_def next_step_def temp_file_def stat_size_def on_files_def
      split: option.splits sum.splits if_splits prod.splits)

definition decoded :: "codec \<Rightarrow> 't mongo \<Rightarrow> 't \<Rightarrow> string \<Rightarrow> bdoc list" where
  "decoded cd db t c = (case find_decoded cd db t c of Inl e \<Rightarrow> [] | Inr ds \<Rightarrow> ds)"

text \<open>A collection the JSON lines can carry: extended JSON on one line that parses back and has no
  \<open>$vg_collection\<close> of its own, and a marker that reads as one.\<close>

definition json_ok :: "codec \<Rightarrow> string \<times> bdoc list \<Rightarrow> bool" where
  "json_ok cd p \<longleftrightarrow>
     nl \<notin> set (marker_line cd (fst p)) \<and> line_says cd (marker_line cd (fst p)) (Begin (fst p)) \<and>
     list_all (\<lambda>d. case cd_ToExt cd d of None \<Rightarrow> True | Some x \<Rightarrow> nl \<notin> set x \<and> line_says cd x (Row d)) (snd p)"

lemma json_collection_says:
  assumes "json_collection cd db t c = Inr ls" and "json_ok cd (c, decoded cd db t c)"
  shows "list_all (\<lambda>l. nl \<notin> set l) ls \<and> list_all2 (line_says cd) ls (Begin c # map Row (decoded cd db t c))"
proof -
  obtain ds xs where ds: "find_decoded cd db t c = Inr ds" and ls: "ls = marker_line cd c # xs"
    and xs: "list_all2 (\<lambda>d x. (case cd_ToExt cd d of None \<Rightarrow> Inl ''marshal'' | Some x \<Rightarrow> Inr x) = Inr x) ds xs"
    using assms(1) by (auto simp: json_collection_def collect_Inr_iff split: sum.splits)
  have d: "decoded cd db t c = ds" by (simp add: decoded_def ds)
  have "list_all (\<lambda>l. nl \<notin> set l) xs \<and> list_all2 (line_says cd) xs (map Row ds)"
    using xs assms(2) unfolding d json_ok_def
    by (induction ds xs rule: list_all2_induct) (auto split: option.splits)
  then show ?thesis using assms(2) unfolding d ls json_ok_def by simp
qed

lemma json_text_says:
  assumes "list_all2 (\<lambda>c ls. json_collection cd db t c = Inr ls) names parts"
    and "list_all (\<lambda>c. json_ok cd (c, decoded cd db t c)) names"
  shows "list_all (\<lambda>l. nl \<notin> set l) (concat parts) \<and>
    list_all2 (line_says cd) (concat parts) (items (map (\<lambda>c. (c, decoded cd db t c)) names))"
  using assms
proof (induction names parts rule: list_all2_induct)
  case (Cons c names ls parts)
  then have "list_all (\<lambda>l. nl \<notin> set l) ls \<and> list_all2 (line_says cd) ls (Begin c # map Row (decoded cd db t c))"
    by (intro json_collection_says) simp_all
  moreover have "items (map (\<lambda>c. (c, decoded cd db t c)) (c # names)) =
      (Begin c # map Row (decoded cd db t c)) @ items (map (\<lambda>c. (c, decoded cd db t c)) names)"
    by (simp add: items_def)
  ultimately show ?case using Cons by (simp only: concat.simps list_all_append) (simp add: list_all2_appendI del: append_Cons)
qed (simp add: items_def)


text \<open>A database exported as CSV and imported again: every collection receives one document per original,
  in order, with the flattened fields as strings and \<open>_id\<close> revived, provided no text holds a carriage return
  and no row looks like a collection marker.\<close>

theorem csv_export_roundtrip:
  assumes laws: "mongo_laws db docs idx"
    and src: "mongoConnect dial uri dbName (fst m) = Inr src" "mg_Names src (fst m) = Inr names" "distinct names"
      "list_all (\<lambda>c. csv_ok cd (c, decoded cd src (fst m) c)) names"
    and export: "BackupMongoCSV io cd dial tmp uri dbName m = (m1, Inr (p, n))"
    and archive: "comps archive = p" "file_at (snd m2) p = file_at (snd m1) p"
    and targ: "mongoConnect dial uri' targ (fst m2) = Inr db"
  shows "\<exists>t. RestoreMongoCSV dial uri' targ archive m2 = ((t, snd m2), Inr ()) \<and> idx t = idx (fst m2) \<and>
    (\<forall>c. docs t c = docs (fst m2) c @ (if c \<in> set names then csv_restored cd (decoded cd src (fst m) c) else []))"
proof -
  obtain x where x: "csv_text cd src (fst m) names = Inr x" "file_at (snd m1) p = Some x"
    using export src(1,2) unfolding BackupMongoCSV_def by (auto elim!: export_fileD)
  let ?ps = "map (\<lambda>c. (c, decoded cd src (fst m) c)) names"
  let ?qs = "map (\<lambda>c. (c, csv_restored cd (decoded cd src (fst m) c))) names"
  obtain parts where parts: "list_all2 (\<lambda>c rs. csv_collection cd src (fst m) c = Inr rs) names parts"
    "x = write_rows (concat parts)"
    using x(1) by (auto simp: csv_text_def collect_Inr_iff split: sum.splits)
  have "parts = map (csv_rows_of cd) ?ps" using parts(1)
    by (induction names parts rule: list_all2_induct)
      (auto simp: csv_collection_def csv_rows_of_def decoded_def Let_def split: sum.splits)
  then have rows: "read_rows x = concat (map (kept_rows cd) ?ps)"
    using rows_kept [of cd ?ps] src(4) unfolding parts(2) by (simp add: list_all_iff)
  have ok: "list_all (csv_ok cd) ?ps" using src(4) by (simp add: list_all_iff)
  have play: "replay_rows db '''' None [] (read_rows x) (fst m2) = play db '''' [] (items ?qs) (fst m2)"
    using replay_rows_play [OF ok, of "''''" "[]" db None "fst m2"] unfolding rows by (simp add: comp_def)
  have "'''' \<notin> set names" using src(4) by (auto simp: list_all_iff csv_ok_def)
  then obtain t where "play db '''' [] (items ?qs) (fst m2) = (t, Inr ())" "idx t = idx (fst m2)"
    "\<forall>c. docs t c = docs (fst m2) c @ (if c \<in> set names then csv_restored cd (decoded cd src (fst m) c) else [])"
    using src(3) by (rule play_names [OF laws])
  then show ?thesis
    using x(2) archive targ play by (intro exI [of _ t]) (simp add: RestoreMongoCSV_def restore_file_def)
qed

definition toy_codec :: codec where
  "toy_codec = \<lparr>cd_Unmarshal = toy_unmarshal,
     cd_ToExt = (\<lambda>d. case d of [(k, BString v)] \<Rightarrow> Some (''d:'' @ v) | _ \<Rightarrow> None),
     cd_FromExt = (\<lambda>s. if has_prefix ''d:'' s then Some [(''x'', BString (drop 2 s))] else None),
     cd_ValueExt = (\<lambda>_. None), cd_Probe = (\<lambda>s. if has_prefix ''d:'' s then Some '''' else Some (butlast (drop 18 s))),
     cd_Quote = id, cd_Float = (\<lambda>_. ''''), cd_Time = (\<lambda>_. '''')\<rparr>"

definition toy_json :: "toy_db machine \<times> (string + path \<times> int)" where
  "toy_json = BackupMongoJSON (\<lambda>_. False) toy_codec (\<lambda>_ _ _. Inr toy_mongo) [''a.json''] ''u'' ''app'' toy_empty"

definition toy_csv :: "toy_db machine \<times> (string + path \<times> int)" where
  "toy_csv = BackupMongoCSV (\<lambda>_. False) toy_codec (\<lambda>_ _ _. Inr toy_mongo) [''a.csv''] ''u'' ''app'' toy_empty"

lemma toy_exports: "snd toy_json = Inr ([''a.json''], 37)" "snd toy_csv = Inr ([''a.csv''], 31)"
  by code_simp+

lemma toy_decoded: "decoded toy_codec toy_mongo (fst toy_empty) ''users'' = [[(''x'', BString ''ann'')], [(''x'', BString ''bob'')]]"
  by code_simp

lemma toy_connect: "mongoConnect (\<lambda>_ _ _. Inr toy_mongo) u v t = Inr toy_mongo"
  by (simp add: mongoConnect_def)

lemma toy_names: "mg_Names toy_mongo t = Inr [''users'']"
  by (simp add: toy_mongo_def)

lemma toy_formats_ok:
  "json_ok toy_codec (''users'', [[(''x'', BString ''ann'')], [(''x'', BString ''bob'')]])"
  "csv_ok toy_codec (''users'', [[(''x'', BString ''ann'')], [(''x'', BString ''bob'')]])"
  by (simp add: json_ok_def marker_line_def line_says_def toy_codec_def max_line_def nl_def dquote_def
      trim_space_def is_space_def has_prefix_def) code_simp


theorem csv_export_roundtrip_witness:
  "\<exists>t. RestoreMongoCSV (\<lambda>_ _ _. Inr toy_mongo) ''u'' ''copy'' ''/a.csv'' (fst toy_csv) =
       ((t, snd (fst toy_csv)), Inr ()) \<and>
     fst t ''users'' = fst (fst (fst toy_csv)) ''users'' @ [[(''x'', BString ''ann'')], [(''x'', BString ''bob'')]]"
proof -
  have b: "BackupMongoCSV (\<lambda>_. False) toy_codec (\<lambda>_ _ _. Inr toy_mongo) [''a.csv''] ''u'' ''app'' toy_empty =
      (fst toy_csv, Inr ([''a.csv''], 31))"
    using toy_exports(2) by (metis prod.collapse toy_csv_def)
  have c: "comps ''/a.csv'' = [''a.csv'']" by code_simp
  have ok: "list_all (\<lambda>c. csv_ok toy_codec (c, decoded toy_codec toy_mongo (fst toy_empty) c)) [''users'']"
    using toy_formats_ok(2) by (simp add: toy_decoded)
  have r: "csv_restored toy_codec [[(''x'', BString ''ann'')], [(''x'', BString ''bob'')]] =
      [[(''x'', BString ''ann'')], [(''x'', BString ''bob'')]]" by code_simp
  show ?thesis
    using csv_export_roundtrip [OF toy_mongo_laws toy_connect toy_names _ ok b c refl toy_connect, of "''u''" "''copy''"]
      toy_decoded r by auto
qed

text \<open>A document with a \<open>$vg_collection\<close> field is taken for a marker: it is lost, and what follows goes to the
  collection it names.\<close>

lemma marker_document_swallowed:
  assumes "cd_Probe cd (trim_space raw) = Some name" and "name \<noteq> ''''" and "length raw < max_line"
    and "trim_space raw \<noteq> ''''" and "flush_named db coll batch t = (t1, Inr u)"
  shows "replay_lines cd db coll batch (raw # ls) t = replay_lines cd db name [] ls t1"
  using assms by (simp add: Let_def)

end
