(* ===== verification/Runner.thy ===== *)
theory Runner
  imports Archive Export Restores
begin

text \<open>
  The agent's work loop, \<open>agent/internal/agent/runner.go\<close>, with the client calls of \<open>api.go\<close>, composed with
  the server's handlers.  A world is the server's database, the agent's machine (its files and everything
  its tools and storage providers reach) and the number of server calls made so far.  The setting says
  what happens around the agent: between two calls others may change the database (\<open>x_Others\<close>), a request
  or its reply may get lost (\<open>x_Net\<close>), the socket may have delivered a cancel (\<open>x_Socket\<close>) and the process
  may be asked to stop (\<open>x_Stop\<close>).  Storage providers, dump tools and archive formats are those of the
  earlier theories, or parameters.  Log lines are left out.
\<close>

subsection \<open>The setting\<close>

datatype delivery = Delivered | RequestLost | ReplyLost

datatype dump =
  DumpPostgres pg_config string bool
| DumpMongo string string
| DumpExport string string string bool
| DumpMssql mssql_config string bool

datatype replay_call =
  ReplayPostgres pg_config string string
| ReplayMssql mssql_config string string
| ReplayMongo string string string string
| ReplayExport string string string string

record 't world =
  w_db :: db
  w_machine :: "'t machine"
  w_calls :: nat

record 't setting =
  x_Others :: "nat \<Rightarrow> db \<Rightarrow> db"
  x_Net :: "nat \<Rightarrow> delivery"
  x_Socket :: "nat \<Rightarrow> uuid \<Rightarrow> bool"
  x_Stop :: "nat \<Rightarrow> bool"
  x_Now :: "nat \<Rightarrow> time"
  x_Fresh :: "nat \<Rightarrow> uuid \<times> uuid"
  x_Faults :: "nat \<Rightarrow> faults"
  x_Env :: env
  x_Enc :: "string \<Rightarrow> string option"
  x_Dec :: "string \<Rightarrow> string option"
  x_Bcrypt :: "string \<Rightarrow> string \<Rightarrow> bool"
  x_Agent :: uuid
  x_Token :: string
  x_Version :: string
  x_Io :: "string \<Rightarrow> bool"
  x_EntryIo :: "string \<Rightarrow> path \<Rightarrow> bool"
  x_Sha :: "string \<Rightarrow> string"
  x_Open :: "string \<Rightarrow> string \<Rightarrow> s3_config option \<Rightarrow> string + (bool \<times> 't machine provider)"
  x_Dump :: "dump \<Rightarrow> 't machine \<Rightarrow> 't machine \<times> (string + path \<times> int)"
  x_Replay :: "replay_call \<Rightarrow> 't machine \<Rightarrow> 't machine \<times> (string + unit)"
  x_Source :: "string \<Rightarrow> node option \<times> node"
  x_Pack :: "bool \<Rightarrow> tar_entry list \<Rightarrow> string"
  x_Untar :: "bool \<Rightarrow> string \<Rightarrow> (tar_entry list \<times> string option) option"
  x_Links :: "path \<Rightarrow> path option"
  x_Tmp :: path
  x_Download :: path
  x_TmpRoot :: string
  x_Cwd :: path
  x_FreeDisk :: "int option"
  x_Seal :: "string \<Rightarrow> string \<Rightarrow> string \<Rightarrow> string"
  x_Unseal :: "string \<Rightarrow> string \<Rightarrow> string \<Rightarrow> string option"
  x_Key :: string
  x_Prefix :: string
  x_Encode :: "string \<Rightarrow> string"
  x_Decode :: "string \<Rightarrow> string option"
  x_PG :: pg_config
  x_MSSQL :: mssql_config
  x_Mongo :: string
  x_Progress :: "int list"

subsection \<open>Calls to the server\<close>

text \<open>\<open>Client.do\<close>: a transport error has code 0, a reply of 400 or more is an error with its code.\<close>

definition call :: "'t setting \<Rightarrow> (nat \<Rightarrow> db \<Rightarrow> db \<times> 'a reply) \<Rightarrow> 't world \<Rightarrow> 't world \<times> ((nat \<times> string) + 'a)" where
  "call x handler w =
     (let n = w_calls w; d = x_Others x n (w_db w); after = (\<lambda>d'. w\<lparr>w_db := d', w_calls := Suc n\<rparr>) in
      case x_Net x n of
        RequestLost \<Rightarrow> (after d, Inl (0, ''network error''))
      | ReplyLost \<Rightarrow> (after (fst (handler n d)), Inl (0, ''network error''))
      | Delivered \<Rightarrow>
          (case handler n d of
             (d', Reply c a) \<Rightarrow> (after d', if 400 \<le> c then Inl (c, ''server error'') else Inr a)
           | (d', Fail c m) \<Rightarrow> (after d', Inl (c, ''server '' @ itoa (int c) @ '': '' @ m))))"

definition bearer :: "'t setting \<Rightarrow> string" where
  "bearer x = ''Bearer '' @ x_Token x"

definition as_agent :: "'t setting \<Rightarrow> (agent \<Rightarrow> db \<Rightarrow> db \<times> 'a reply) \<Rightarrow> db \<Rightarrow> db \<times> 'a reply" where
  "as_agent x handler d =
     (case AgentAuth (x_Bcrypt x) (bearer x) (Some (x_Agent x)) d of
        Inl (n, msg) \<Rightarrow> (d, Fail n msg) | Inr ag \<Rightarrow> handler ag d)"

definition status_handler :: "'t setting \<Rightarrow> uuid \<Rightarrow> status_report \<Rightarrow> nat \<Rightarrow> db \<Rightarrow> db \<times> bool reply" where
  "status_handler x rid q n =
     as_agent x (\<lambda>ag. UpdateStatus (x_Env x) (x_Faults x n) (x_Enc x) (x_Now x n) (fst (x_Fresh x n))
       (snd (x_Fresh x n)) ag (Some rid) (Some q))"

definition UpdateRunStatus :: "'t setting \<Rightarrow> uuid \<Rightarrow> status_report \<Rightarrow> 't world \<Rightarrow> 't world \<times> ((nat \<times> string) + bool)" where
  "UpdateRunStatus x rid q = call x (status_handler x rid q)"

definition ClientRegisterArtifact ::
    "'t setting \<Rightarrow> uuid \<Rightarrow> string \<Rightarrow> int \<Rightarrow> string \<Rightarrow> string \<Rightarrow> 't world \<Rightarrow> 't world \<times> ((nat \<times> string) + backup_artifact)" where
  "ClientRegisterArtifact x rid name sz checksum path =
     call x (\<lambda>n. as_agent x (\<lambda>ag. RegisterArtifact (x_Faults x n) (x_Now x n) (fst (x_Fresh x n)) ag (Some rid)
       (Some \<lparr>ar_Name = name, ar_Size = sz, ar_Checksum = checksum, ar_StoragePath = path\<rparr>)))"

definition ClientHeartbeat :: "'t setting \<Rightarrow> string \<Rightarrow> 't world \<Rightarrow> 't world \<times> ((nat \<times> string) + time)" where
  "ClientHeartbeat x version = call x (\<lambda>n. as_agent x (\<lambda>ag. Heartbeat (x_Now x n) ag version))"

definition ClientPendingRuns :: "'t setting \<Rightarrow> 't world \<Rightarrow> 't world \<times> ((nat \<times> string) + agent_run_dto list)" where
  "ClientPendingRuns x = call x (\<lambda>n. PendingRuns (x_Bcrypt x) (bearer x) (Some (x_Agent x)) (x_Now x n))"

definition ClientClaimRun ::
    "'t setting \<Rightarrow> uuid \<Rightarrow> 't world \<Rightarrow> 't world \<times> ((nat \<times> string) + (agent_run_dto \<times> bool \<times> agent_job_config))" where
  "ClientClaimRun x rid =
     call x (\<lambda>n. ClaimRun (x_Bcrypt x) (x_Faults x n) (x_Dec x) (bearer x) (Some (x_Agent x)) (x_Now x n) (Some rid))"

definition ClientPendingRestores :: "'t setting \<Rightarrow> 't world \<Rightarrow> 't world \<times> ((nat \<times> string) + agent_restore_dto list)" where
  "ClientPendingRestores x =
     call x (\<lambda>n. PendingRestores (x_Bcrypt x) (x_Dec x) (bearer x) (Some (x_Agent x)) (x_Now x n))"

definition ClientClaimRestore :: "'t setting \<Rightarrow> uuid \<Rightarrow> 't world \<Rightarrow> 't world \<times> ((nat \<times> string) + agent_restore_dto)" where
  "ClientClaimRestore x rid =
     call x (\<lambda>n. ClaimRestore (x_Bcrypt x) (x_Faults x n) (x_Dec x) (bearer x) (Some (x_Agent x)) (x_Now x n) (Some rid))"

definition UpdateRestoreStatus ::
    "'t setting \<Rightarrow> uuid \<Rightarrow> restore_status \<Rightarrow> string \<Rightarrow> 't world \<Rightarrow> 't world \<times> ((nat \<times> string) + unit)" where
  "UpdateRestoreStatus x rid s msg =
     call x (\<lambda>n. as_agent x (\<lambda>ag. UpdateRestore (x_Now x n) ag (Some rid) (Some \<lparr>rrp_Status = s, rrp_ErrorMessage = msg\<rparr>)))"

definition isRevokedError :: "nat \<times> string \<Rightarrow> bool" where
  "isRevokedError err \<longleftrightarrow> contains ''revoked'' (to_lower (snd err))"

subsection \<open>Reporting\<close>

definition report_of :: "run_status \<Rightarrow> int \<Rightarrow> int \<Rightarrow> int \<Rightarrow> string \<Rightarrow> string \<Rightarrow> string \<Rightarrow> string \<Rightarrow> status_report" where
  "report_of s br bc bu msg path checksum key =
     \<lparr>rq_Status = s, rq_BytesRead = br, rq_BytesCompressed = bc, rq_BytesUploaded = bu, rq_ErrorMessage = msg,
      rq_StoragePath = path, rq_Checksum = checksum, rq_DataKey = key\<rparr>"

datatype ending = FailedRun string | CancelledRun | NotReported run_status | Finished

definition failRun :: "'t setting \<Rightarrow> uuid \<Rightarrow> string \<Rightarrow> 't world \<Rightarrow> 't world \<times> ending" where
  "failRun x rid msg w =
     (fst (UpdateRunStatus x rid (report_of RunFailed 0 0 0 msg '''' '''' '''') w), FailedRun msg)"

definition cancelRun :: "'t setting \<Rightarrow> uuid \<Rightarrow> 't world \<Rightarrow> 't world \<times> ending" where
  "cancelRun x rid w = (fst (UpdateRunStatus x rid (report_of RunCancelled 0 0 0 '''' '''' '''' '''') w), CancelledRun)"

definition cancelledByUser :: "'t setting \<Rightarrow> uuid \<Rightarrow> bool \<Rightarrow> 't world \<Rightarrow> bool" where
  "cancelledByUser x rid flag w \<longleftrightarrow> flag \<or> x_Socket x (w_calls w) rid"

definition on_machine :: "('t machine \<Rightarrow> 't machine) \<Rightarrow> 't world \<Rightarrow> 't world" where
  "on_machine f w = w\<lparr>w_machine := f (w_machine w)\<rparr>"

definition remove_files :: "path list \<Rightarrow> 't world \<Rightarrow> 't world" where
  "remove_files ps = on_machine (on_files (fold drop_file ps))"

text \<open>The progress callback: each push reports the bytes read so far and looks for a cancel; errors of the
  push are ignored.\<close>

fun push_progress :: "'t setting \<Rightarrow> uuid \<Rightarrow> int list \<Rightarrow> bool \<Rightarrow> 't world \<Rightarrow> 't world \<times> bool" where
  "push_progress x rid [] seen w = (w, seen)"
| "push_progress x rid (n # ns) seen w =
     (case UpdateRunStatus x rid (report_of RunRunning n 0 0 '''' '''' '''' '''') w of
        (w1, r) \<Rightarrow>
          push_progress x rid ns (seen \<or> cancelledByUser x rid (case r of Inl _ \<Rightarrow> False | Inr c \<Rightarrow> c) w1) w1)"

subsection \<open>Producing the payload\<close>

record payload =
  pl_Path :: path
  pl_Read :: int
  pl_Compressed :: int
  pl_Checksum :: string

definition with_machine :: "('t machine \<Rightarrow> 't machine \<times> 'a) \<Rightarrow> 't world \<Rightarrow> 't world \<times> 'a" where
  "with_machine f w = (case f (w_machine w) of (m, a) \<Rightarrow> (w\<lparr>w_machine := m\<rparr>, a))"

definition tar_source :: "'t setting \<Rightarrow> agent_job_config \<Rightarrow> 't machine \<Rightarrow> 't machine \<times> (string + payload)" where
  "tar_source x job m =
     (case BackupFilesystem (x_EntryIo x) (x_Pack x) (x_Sha x) (x_Tmp x) (jc_SourcePath job) (jc_Mode job)
         (splitPatterns (jc_IncludePatterns job)) (splitPatterns (jc_ExcludePatterns job))
         (fst (x_Source x (jc_SourcePath job))) (snd (x_Source x (jc_SourcePath job))) (snd m) of
        (fs, Inl e) \<Rightarrow> ((fst m, fs), Inl (''backup failed: '' @ e))
      | (fs, Inr r) \<Rightarrow> ((fst m, fs), Inr \<lparr>pl_Path = br_ArchivePath r, pl_Read = br_BytesRead r,
          pl_Compressed = br_BytesCompressed r, pl_Checksum = br_Checksum r\<rparr>))"

text \<open>A dump of a database and its checksum; when the checksum fails the dump is removed.\<close>

definition dump_source :: "'t setting \<Rightarrow> string \<Rightarrow> dump \<Rightarrow> 't machine \<Rightarrow> 't machine \<times> (string + payload)" where
  "dump_source x label d m =
     (case x_Dump x d m of
        (m1, Inl e) \<Rightarrow> (m1, Inl (label @ '' failed: '' @ e))
      | (m1, Inr (p, sz)) \<Rightarrow>
          (case ChecksumFile (x_Io x) (x_Sha x) p (snd m1) of
             Inl e \<Rightarrow> (on_files (drop_file p) m1, Inl (''checksum failed: '' @ e))
           | Inr c \<Rightarrow> (m1, Inr \<lparr>pl_Path = p, pl_Read = sz, pl_Compressed = sz, pl_Checksum = c\<rparr>)))"

definition mongo_dump :: "'t setting \<Rightarrow> agent_job_config \<Rightarrow> string + (string \<times> dump)" where
  "mongo_dump x job =
     (let fmt0 = to_upper (trim_space (jc_ExportFormat job)); fmt = (if fmt0 = '''' then ''ARCHIVE'' else fmt0);
          uri = mongoURIFor (Some job) (x_Mongo x); compressed = (to_upper (jc_Mode job) = ''COMPRESSED'') in
      if fmt = ''ARCHIVE'' then Inr (''mongodump'', DumpMongo uri (jc_SourceDatabase job))
      else if fmt = ''JSON'' then Inr (''mongo json export'', DumpExport uri (jc_SourceDatabase job) ''JSON'' compressed)
      else if fmt = ''CSV'' then Inr (''mongo csv export'', DumpExport uri (jc_SourceDatabase job) ''CSV'' compressed)
      else Inl (''unknown export_format '' @ jc_ExportFormat job))"

definition source_dump :: "'t setting \<Rightarrow> agent_job_config \<Rightarrow> string + (string \<times> dump)" where
  "source_dump x job =
     (let compressed = (to_upper (jc_Mode job) = ''COMPRESSED'') in
      if jc_SourceType job = ''POSTGRES'' then
        (if jc_SourceDatabase job = '''' then Inl ''POSTGRES job has no source_database configured''
         else Inr (''pg_dump'', DumpPostgres (pgFor (Some job) (x_PG x)) (jc_SourceDatabase job) compressed))
      else if jc_SourceType job = ''MONGODB'' then
        (if jc_SourceDatabase job = '''' then Inl ''MONGODB job has no source_database configured'' else mongo_dump x job)
      else
        (if jc_SourceDatabase job = '''' then Inl ''MSSQL job has no source_database configured''
         else Inr (''BACKUP DATABASE'', DumpMssql (mssqlFor (Some job) (x_MSSQL x)) (jc_SourceDatabase job) compressed)))"

definition produce :: "'t setting \<Rightarrow> uuid \<Rightarrow> agent_job_config \<Rightarrow> 't world \<Rightarrow> 't world \<times> bool \<times> (string + payload)" where
  "produce x rid job w =
     (if jc_SourceType job = ''FILESYSTEM'' then
        (case push_progress x rid (x_Progress x) False w of
           (w1, seen) \<Rightarrow> (case with_machine (tar_source x job) w1 of (w2, r) \<Rightarrow> (w2, seen, r)))
      else (case source_dump x job of
          Inl msg \<Rightarrow> (w, False, Inl msg)
        | Inr (label, d) \<Rightarrow> (case with_machine (dump_source x label d) w of (w1, r) \<Rightarrow> (w1, False, r))))"

subsection \<open>Encrypting, storing and verifying\<close>

text \<open>What is stored: the file, its checksum, the data key to report and the artifact's name.\<close>

record sealed =
  sl_Path :: path
  sl_Checksum :: string
  sl_DataKey :: string
  sl_Name :: string

definition enc_path :: "path \<Rightarrow> path" where
  "enc_path p = butlast p @ [last p @ ''.enc'']"

definition seal_payload :: "'t setting \<Rightarrow> uuid \<Rightarrow> agent_job_config \<Rightarrow> payload \<Rightarrow> 't machine \<Rightarrow> 't machine \<times> (string + sealed)" where
  "seal_payload x rid job pl m =
     (let name = jc_Name job @ ''_'' @ rid; enc = enc_path (pl_Path pl) in
      if jc_Encrypted job then
        (if x_Io x ''random'' then (m, Inl ''generate data key failed'')
         else (case EncryptFile (x_Io x) (x_Seal x) (x_Sha x) (x_Prefix x) (x_Key x) (pl_Path pl) enc (snd m) of
             (fs, Inl e) \<Rightarrow> ((fst m, drop_file enc fs), Inl (''encrypt failed: '' @ e))
           | (fs, Inr digest) \<Rightarrow> ((fst m, fs), Inr \<lparr>sl_Path = enc, sl_Checksum = digest,
               sl_DataKey = x_Encode x (x_Key x), sl_Name = name @ ''.enc''\<rparr>)))
      else (m, Inr \<lparr>sl_Path = pl_Path pl, sl_Checksum = pl_Checksum pl, sl_DataKey = '''', sl_Name = name\<rparr>))"

definition store_and_verify ::
    "'s provider \<Rightarrow> uuid \<Rightarrow> string \<Rightarrow> string \<Rightarrow> string \<Rightarrow> string \<Rightarrow> 's \<Rightarrow> 's \<times> (string + object_info)" where
  "store_and_verify st rid key data checksum name s =
     (let opts = \<lparr>po_ContentType = ContentTypeForName name,
                  po_Metadata = [(MetaChecksumSHA256, checksum), (MetaRunID, rid), (MetaArtifactName, name)]\<rparr> in
      case pr_Put st key data (int (length data)) opts s of
        (s1, Inl e) \<Rightarrow> (s1, Inl (''upload failed: '' @ e))
      | (s1, Inr info) \<Rightarrow>
          (case pr_Head st key s1 of
             Inl e \<Rightarrow> (s1, Inl (''verify failed: HEAD: '' @ e))
           | Inr head \<Rightarrow>
               if oi_Size head \<noteq> oi_Size info then (fst (pr_Delete st key s1), Inl ''verify failed: size mismatch'')
               else if oi_ChecksumSHA256 head \<noteq> '''' \<and> oi_ChecksumSHA256 head \<noteq> to_lower checksum
               then (fst (pr_Delete st key s1), Inl ''verify failed: checksum mismatch'')
               else (s1, Inr info)))"

text \<open>The walk through the server's state machine; a cancel seen in a reply removes the object again.\<close>

fun report_stages :: "'t setting \<Rightarrow> 't machine provider \<Rightarrow> uuid \<Rightarrow> string \<Rightarrow> (run_status \<Rightarrow> status_report) \<Rightarrow> run_status list
    \<Rightarrow> 't world \<Rightarrow> 't world \<times> ending" where
  "report_stages x st rid key q [] w = (w, Finished)"
| "report_stages x st rid key q (s # ss) w =
     (case UpdateRunStatus x rid (q s) w of
        (w1, Inl _) \<Rightarrow> (w1, NotReported s)
      | (w1, Inr flag) \<Rightarrow>
          if cancelledByUser x rid flag w1
          then cancelRun x rid (on_machine (\<lambda>m. fst (pr_Delete st key m)) w1)
          else report_stages x st rid key q ss w1)"

definition stages :: "run_status list" where
  "stages = [RunUploading, RunVerifying, RunCompleted]"

definition store_payload :: "'t setting \<Rightarrow> 't machine provider \<Rightarrow> uuid \<Rightarrow> agent_job_config \<Rightarrow> payload \<Rightarrow> sealed
    \<Rightarrow> 't world \<Rightarrow> 't world \<times> ending" where
  "store_payload x st rid job pl sl w =
     (let key = BuildKey (jc_OrganizationID job) (jc_JobID job) rid (sl_Name sl) in
      case (if x_Io x ''open'' then None else file_at (snd (w_machine w)) (sl_Path sl)) of
        None \<Rightarrow> failRun x rid ''open payload failed'' w
      | Some data \<Rightarrow>
          (case with_machine (store_and_verify st rid key data (sl_Checksum sl) (sl_Name sl)) w of
             (w1, Inl e) \<Rightarrow> failRun x rid e w1
           | (w1, Inr info) \<Rightarrow>
               (case ClientRegisterArtifact x rid (sl_Name sl) (oi_Size info) (sl_Checksum sl) (oi_Location info) w1 of
                  (w2, _) \<Rightarrow>
                    report_stages x st rid key
                      (\<lambda>s. report_of s (pl_Read pl) (pl_Compressed pl) (oi_Size info) '''' (oi_Location info)
                             (sl_Checksum sl) (sl_DataKey sl)) stages w2)))"

definition seal_and_store :: "'t setting \<Rightarrow> 't machine provider \<Rightarrow> uuid \<Rightarrow> agent_job_config \<Rightarrow> payload \<Rightarrow> bool
    \<Rightarrow> 't world \<Rightarrow> 't world \<times> ending" where
  "seal_and_store x st rid job pl seen w =
     (if (case file_at (snd (w_machine w)) (pl_Path pl) of None \<Rightarrow> True | Some y \<Rightarrow> y = '''')
      then failRun x rid ''backup produced an empty payload (no data)'' w
      else if cancelledByUser x rid seen w then cancelRun x rid (remove_files [pl_Path pl] w)
      else (case with_machine (seal_payload x rid job pl) w of
          (w1, Inl e) \<Rightarrow> failRun x rid e w1
        | (w1, Inr sl) \<Rightarrow> (case store_payload x st rid job pl sl w1 of
            (w2, e) \<Rightarrow> (if jc_Encrypted job then remove_files [sl_Path sl] w2 else w2, e))))"

subsection \<open>A backup\<close>

definition supported_source :: "string \<Rightarrow> bool" where
  "supported_source t \<longleftrightarrow> t = ''FILESYSTEM'' \<or> t = ''POSTGRES'' \<or> t = ''MONGODB'' \<or> isMssqlSource t"

definition open_storage :: "'t setting \<Rightarrow> string \<times> string \<times> s3_config option \<Rightarrow> string + (bool \<times> 't machine provider)" where
  "open_storage x args = x_Open x (fst args) (fst (snd args)) (snd (snd args))"

definition executeBackup :: "'t setting \<Rightarrow> uuid \<Rightarrow> agent_job_config \<Rightarrow> 't world \<Rightarrow> 't world \<times> ending" where
  "executeBackup x rid job w =
     (if cancelledByUser x rid False w then cancelRun x rid w
      else if \<not> supported_source (jc_SourceType job)
      then failRun x rid (''source type '' @ jc_SourceType job @ '' is not supported by agent'') w
      else (case open_storage x (storageForJob job) of
          Inl e \<Rightarrow> failRun x rid (''storage initialization failed: '' @ e) w
        | Inr (loc, st) \<Rightarrow>
            if x_Stop x (w_calls w) then failRun x rid ''agent shutting down'' w
            else (case produce x rid job w of
                (w1, _, Inl msg) \<Rightarrow> failRun x rid msg w1
              | (w1, seen, Inr pl) \<Rightarrow> (case seal_and_store x st rid job pl seen w1 of
                  (w2, e) \<Rightarrow> (remove_files [pl_Path pl] w2, e)))))"

subsection \<open>The tools behind the setting\<close>

text \<open>What \<open>x_Dump\<close> and \<open>x_Replay\<close> are in the agent: the dump and restore functions, with one set of programs,
  codecs and temporary names.\<close>

record 't toolbox =
  tb_Run :: "'t runner"
  tb_Bin :: "string \<Rightarrow> string option"
  tb_Io :: "string \<Rightarrow> bool"
  tb_Dial :: "'t driver"
  tb_Marshal :: "bdoc \<Rightarrow> string option"
  tb_Codec :: codec
  tb_Gzip :: "string \<Rightarrow> string option"
  tb_Gunzip :: "string \<Rightarrow> string option"
  tb_Tmp :: path
  tb_TempDir :: string
  tb_Stem :: string

definition tool_dump :: "'t toolbox \<Rightarrow> dump \<Rightarrow> 't machine \<Rightarrow> 't machine \<times> (string + path \<times> int)" where
  "tool_dump tb d =
     (let tmp = tb_Tmp tb; tmpName = render True tmp in
      case d of
        DumpPostgres pg dbName compressed \<Rightarrow>
          BackupPostgres (tb_Run tb) (tb_Bin tb) (tb_Gzip tb) tmp tmpName pg dbName compressed
      | DumpMongo uri dbName \<Rightarrow>
          BackupMongo (tb_Run tb) (tb_Bin tb) (tb_Io tb) (tb_Marshal tb) (tb_Dial tb) tmp tmpName uri dbName
      | DumpExport uri dbName fmt compressed \<Rightarrow>
          ExportMongo (tb_Io tb) (tb_Codec tb) (tb_Dial tb) (tb_Gzip tb) tmp uri dbName fmt compressed
      | DumpMssql cfg dbName compressed \<Rightarrow>
          BackupMssql (tb_Run tb) (tb_Bin tb) (tb_TempDir tb) (tb_Stem tb) cfg dbName compressed)"

definition tool_replay :: "'t toolbox \<Rightarrow> replay_call \<Rightarrow> 't machine \<Rightarrow> 't machine \<times> (string + unit)" where
  "tool_replay tb r =
     (let tmp = tb_Tmp tb; tmpName = render True tmp in
      case r of
        ReplayPostgres pg targ archive \<Rightarrow>
          RestorePostgres (tb_Run tb) (tb_Bin tb) (tb_Gunzip tb) tmp tmpName pg targ archive
      | ReplayMssql cfg targ archive \<Rightarrow> RestoreMssql (tb_Run tb) (tb_Bin tb) cfg targ archive
      | ReplayMongo uri src targ archive \<Rightarrow>
          RestoreMongo (tb_Run tb) (tb_Bin tb) (RestoreMongoNative (cd_Unmarshal (tb_Codec tb)) (tb_Dial tb)) uri src targ archive
      | ReplayExport uri targ archive fmt \<Rightarrow>
          restoreMongoExport (tb_Codec tb) (tb_Dial tb) (tb_Gunzip tb) tmp uri targ archive fmt)"

subsection \<open>A restore\<close>

text \<open>The arguments of \<open>storage.ForJob\<close> for a restore.\<close>

definition storageForRestore :: "'t setting \<Rightarrow> agent_restore_dto \<Rightarrow> string \<times> string \<times> s3_config option" where
  "storageForRestore x rs =
     (let st = (if trim_space (storage_type_text (sc_Type (rdto_Storage rs))) = ''''
                then \<lparr>sc_Type = rdto_StorageType rs, sc_Path = '''', sc_Bucket = '''', sc_Region = '''', sc_Endpoint = '''',
                      sc_UsePathStyle = False, sc_AccessKey = '''', sc_SecretKey = ''''\<rparr>
                else rdto_Storage rs);
          t = storage_type_text (sc_Type st)
      in if to_lower (trim_space t) = ''s3'' then (t, '''', snd (snd (storage_args st)))
         else (t, if sc_Path st = '''' then x_TmpRoot x else sc_Path st, None))"

text \<open>The download of a remote object: nothing is fetched when the disk cannot hold the object twice.\<close>

definition downloadRestoreObject :: "'t setting \<Rightarrow> 't machine provider \<Rightarrow> string \<Rightarrow> 't machine \<Rightarrow> 't machine \<times> (string + path)" where
  "downloadRestoreObject x st key m =
     (case pr_Head st key m of
        Inl e \<Rightarrow> (m, Inl (''HEAD '' @ key @ '': '' @ e))
      | Inr head \<Rightarrow>
          if (case x_FreeDisk x of None \<Rightarrow> False | Some free \<Rightarrow> 0 < oi_Size head \<and> free < oi_Size head * 2)
          then (m, Inl ''INSUFFICIENT_DISK_SPACE'')
          else (case pr_Get st key m of
              Inl e \<Rightarrow> (m, Inl (''GET '' @ key @ '': '' @ e))
            | Inr (content, _) \<Rightarrow>
                next_step (temp_file (x_Download x)) (\<lambda>_ m1.
                  if x_Io x ''download'' then (on_files (drop_file (x_Download x)) m1, Inl (''download '' @ key))
                  else (on_files (set_file (x_Download x) content) m1, Inr (x_Download x))) m))"

definition os_path :: "'t setting \<Rightarrow> string \<Rightarrow> path" where
  "os_path x p = (if IsAbs p then comps p else comps (Join2 (render True (x_Cwd x)) p))"

text \<open>The archive to restore from: its path, and the temporary files to remove in the end.  \<open>DecryptFile\<close> reads
  \<open>rs.StoragePath\<close>, not the downloaded file.\<close>

definition fetch_archive :: "'t setting \<Rightarrow> agent_restore_dto \<Rightarrow> bool \<Rightarrow> 't machine provider \<Rightarrow> 't machine
    \<Rightarrow> 't machine \<times> path list \<times> (string + string)" where
  "fetch_archive x rs is_local st m =
     (case (if is_local then (m, Inr (rdto_StoragePath rs))
            else (case downloadRestoreObject x st (rdto_StoragePath rs) m of
               (m1, Inl e) \<Rightarrow> (m1, Inl (''download failed: '' @ e)) | (m1, Inr p) \<Rightarrow> (m1, Inr (render True p)))) of
        (m1, Inl e) \<Rightarrow> (m1, [], Inl e)
      | (m1, Inr src) \<Rightarrow>
          let tmps = (if is_local then [] else [x_Download x]); dec = src @ ''.dec'' in
          if rdto_DataKey rs = '''' then (m1, tmps, Inr src)
          else (case x_Decode x (rdto_DataKey rs) of
              None \<Rightarrow> (m1, tmps, Inl ''bad data key'')
            | Some key \<Rightarrow>
                (case DecryptFile (x_Io x) (x_Unseal x) key (os_path x (rdto_StoragePath rs)) (os_path x dec) (snd m1) of
                   (fs, Inl e) \<Rightarrow> ((fst m1, fs), tmps, Inl (''decrypt failed: '' @ e))
                 | (fs, Inr _) \<Rightarrow> ((fst m1, fs), tmps @ [os_path x dec], Inr dec))))"

text \<open>The restore proper, by source type: \<open>None\<close> for a file-system archive.\<close>

definition replay_of :: "'t setting \<Rightarrow> agent_restore_dto \<Rightarrow> string \<Rightarrow> (string + (string \<times> replay_call)) option" where
  "replay_of x rs archive =
     (if rdto_SourceType rs = ''POSTGRES'' then
        Some (if rdto_TargetDatabase rs = '''' then Inl ''POSTGRES restore needs a target database''
              else Inr (''pg_restore'', ReplayPostgres (pgForConn (rdto_Connection rs) (x_PG x)) (rdto_TargetDatabase rs) archive))
      else if isMssqlSource (rdto_SourceType rs) then
        Some (if rdto_TargetDatabase rs = '''' then Inl ''SQL Server restore needs a target database''
              else Inr (''RESTORE DATABASE'', ReplayMssql (mssqlForConn (rdto_Connection rs) (x_MSSQL x)) (rdto_TargetDatabase rs) archive))
      else if rdto_SourceType rs = ''MONGODB'' then
        (let targ = (if rdto_TargetDatabase rs = '''' then rdto_SourceDatabase rs else rdto_TargetDatabase rs);
             uri = mongoURIForConn (rdto_Connection rs) (x_Mongo x);
             fmt0 = to_upper (trim_space (rdto_ExportFormat rs)); fmt = (if fmt0 = '''' then ''ARCHIVE'' else fmt0)
         in Some (if targ = '''' then Inl ''MONGODB restore needs a target database''
                  else if fmt = ''ARCHIVE'' then Inr (''mongorestore'', ReplayMongo uri (rdto_SourceDatabase rs) targ archive)
                  else if fmt = ''JSON'' \<or> fmt = ''CSV''
                  then Inr (''mongo '' @ to_lower fmt @ '' restore'', ReplayExport uri targ archive fmt)
                  else Inl ('' failed: unknown export_format '' @ rdto_ExportFormat rs)))
      else None)"

text \<open>Progress of an extraction: every push reports \<open>RUNNING\<close>; the replies are ignored.  The pushes touch only the
  server and the extraction only the machine, so they stand before it.\<close>

fun push_restore_progress :: "'t setting \<Rightarrow> uuid \<Rightarrow> nat \<Rightarrow> 't world \<Rightarrow> 't world" where
  "push_restore_progress x rid 0 w = w"
| "push_restore_progress x rid (Suc n) w =
     push_restore_progress x rid n (fst (UpdateRestoreStatus x rid RestoreRunning '''' w))"

definition restore_archive :: "'t setting \<Rightarrow> agent_restore_dto \<Rightarrow> string \<Rightarrow> 't world \<Rightarrow> 't world \<times> (string + unit)" where
  "restore_archive x rs archive w =
     (case replay_of x rs archive of
        Some (Inl msg) \<Rightarrow> (w, Inl msg)
      | Some (Inr (label, r)) \<Rightarrow>
          (case with_machine (x_Replay x r) w of
             (w1, Inl e) \<Rightarrow> (w1, Inl (label @ '' failed: '' @ e)) | (w1, Inr u) \<Rightarrow> (w1, Inr u))
      | None \<Rightarrow>
          (let w1 = push_restore_progress x (rdto_ID rs) (length (x_Progress x)) w in
           case RestoreLocal (x_EntryIo x) (x_Untar x) (x_Links x) (os_path x archive) (rdto_DestinationPath rs)
                  (snd (w_machine w1)) of
             (fs, Some e) \<Rightarrow> (on_machine (\<lambda>m. (fst m, fs)) w1, Inl (''restore failed: '' @ e))
           | (fs, None) \<Rightarrow> (on_machine (\<lambda>m. (fst m, fs)) w1, Inr ())))"

datatype restore_ending = EndedFailed string | EndedUnreported | EndedOk

definition failRestore :: "'t setting \<Rightarrow> uuid \<Rightarrow> string \<Rightarrow> 't world \<Rightarrow> 't world \<times> restore_ending" where
  "failRestore x rid msg w = (fst (UpdateRestoreStatus x rid RestoreFailed msg w), EndedFailed msg)"

definition executeRestore :: "'t setting \<Rightarrow> agent_restore_dto \<Rightarrow> 't world \<Rightarrow> 't world \<times> restore_ending" where
  "executeRestore x rs w =
     (case open_storage x (storageForRestore x rs) of
        Inl e \<Rightarrow> failRestore x (rdto_ID rs) (''storage initialization failed: '' @ e) w
      | Inr (is_local, st) \<Rightarrow>
          if x_Stop x (w_calls w) then failRestore x (rdto_ID rs) ''agent shutting down'' w
          else (case with_machine (\<lambda>m. case fetch_archive x rs is_local st m of (m1, r) \<Rightarrow> (m1, r)) w of
              (w1, tmps, Inl msg) \<Rightarrow>
                (case failRestore x (rdto_ID rs) msg w1 of (w2, e) \<Rightarrow> (remove_files tmps w2, e))
            | (w1, tmps, Inr archive) \<Rightarrow>
                (case restore_archive x rs archive w1 of
                   (w2, Inl msg) \<Rightarrow>
                     (case failRestore x (rdto_ID rs) msg w2 of (w3, e) \<Rightarrow> (remove_files tmps w3, e))
                 | (w2, Inr _) \<Rightarrow>
                     (case UpdateRestoreStatus x (rdto_ID rs) RestoreCompleted '''' w2 of
                        (w3, r) \<Rightarrow> (remove_files tmps w3,
                           case r of Inl _ \<Rightarrow> EndedUnreported | Inr _ \<Rightarrow> EndedOk)))))"

subsection \<open>Polling\<close>

text \<open>A poll's outcome: whether work was done, and whether the credential was found revoked.  A lost race for a
  claim (409) goes on to the next entry.\<close>

record polled =
  po_Worked :: bool
  po_Revoked :: bool

definition noteRevoked :: "nat \<times> string \<Rightarrow> polled" where
  "noteRevoked e = \<lparr>po_Worked = False, po_Revoked = isRevokedError e\<rparr>"

fun claim_runs :: "'t setting \<Rightarrow> agent_run_dto list \<Rightarrow> 't world \<Rightarrow> 't world \<times> polled" where
  "claim_runs x [] w = (w, \<lparr>po_Worked = False, po_Revoked = False\<rparr>)"
| "claim_runs x (r # rs) w =
     (if x_Stop x (w_calls w) then (w, \<lparr>po_Worked = True, po_Revoked = False\<rparr>)
      else (case ClientClaimRun x (dto_ID r) w of
          (w1, Inl e) \<Rightarrow>
            if fst e \<noteq> 409 \<and> isRevokedError e then (w1, noteRevoked e) else claim_runs x rs w1
        | (w1, Inr (run, cancel, config)) \<Rightarrow>
            (fst (if cancel then cancelRun x (dto_ID run) w1 else executeBackup x (dto_ID run) config w1),
             \<lparr>po_Worked = True, po_Revoked = False\<rparr>)))"

definition pollBackups :: "'t setting \<Rightarrow> 't world \<Rightarrow> 't world \<times> polled" where
  "pollBackups x w =
     (case ClientPendingRuns x w of (w1, Inl e) \<Rightarrow> (w1, noteRevoked e) | (w1, Inr rs) \<Rightarrow> claim_runs x rs w1)"

fun claim_restores :: "'t setting \<Rightarrow> agent_restore_dto list \<Rightarrow> 't world \<Rightarrow> 't world \<times> polled" where
  "claim_restores x [] w = (w, \<lparr>po_Worked = False, po_Revoked = False\<rparr>)"
| "claim_restores x (r # rs) w =
     (if x_Stop x (w_calls w) then (w, \<lparr>po_Worked = False, po_Revoked = False\<rparr>)
      else (case ClientClaimRestore x (rdto_ID r) w of
          (w1, Inl e) \<Rightarrow>
            if fst e \<noteq> 409 \<and> isRevokedError e then (w1, noteRevoked e) else claim_restores x rs w1
        | (w1, Inr claimed) \<Rightarrow> (fst (executeRestore x claimed w1), \<lparr>po_Worked = True, po_Revoked = False\<rparr>)))"

definition pollRestores :: "'t setting \<Rightarrow> 't world \<Rightarrow> 't world \<times> polled" where
  "pollRestores x w =
     (case ClientPendingRestores x w of (w1, Inl e) \<Rightarrow> (w1, noteRevoked e) | (w1, Inr rs) \<Rightarrow> claim_restores x rs w1)"

text \<open>One poll; the result is the revoked latch.  A revocation noted while listing or claiming backups does not
  keep the poll from asking for restores.\<close>

definition pollOnce :: "'t setting \<Rightarrow> 't world \<Rightarrow> 't world \<times> bool" where
  "pollOnce x w =
     (if x_Stop x (w_calls w) then (w, False)
      else (case ClientHeartbeat x (x_Version x) w of
          (w1, h) \<Rightarrow>
            if (case h of Inl e \<Rightarrow> isRevokedError e | Inr _ \<Rightarrow> False) then (w1, True)
            else (case pollBackups x w1 of
                (w2, p) \<Rightarrow>
                  if po_Worked p then (w2, po_Revoked p)
                  else (case pollRestores x w2 of (w3, q) \<Rightarrow> (w3, po_Revoked p \<or> po_Revoked q)))))"

text \<open>\<open>Run\<close> for at most \<open>n\<close> ticks: the world, and whether the loop has returned because of a revocation.\<close>

fun run_loop :: "'t setting \<Rightarrow> nat \<Rightarrow> 't world \<Rightarrow> 't world \<times> bool" where
  "run_loop x 0 w = (w, False)"
| "run_loop x (Suc n) w =
     (case pollOnce x w of
        (w1, revoked) \<Rightarrow>
          if revoked then (w1, True) else if x_Stop x (w_calls w1) then (w1, False) else run_loop x n w1)"

subsection \<open>The providers behind the setting\<close>

text \<open>A provider over the machine: local storage works on its files, the S3 client on the world outside.\<close>

definition on_disk :: "files provider \<Rightarrow> 't machine provider" where
  "on_disk p =
     \<lparr>pr_Put = (\<lambda>k d n opts m. case pr_Put p k d n opts (snd m) of (fs, r) \<Rightarrow> ((fst m, fs), r)),
      pr_Get = (\<lambda>k m. pr_Get p k (snd m)),
      pr_Delete = (\<lambda>k m. case pr_Delete p k (snd m) of (fs, r) \<Rightarrow> ((fst m, fs), r)),
      pr_Head = (\<lambda>k m. pr_Head p k (snd m))\<rparr>"

definition remote :: "'t provider \<Rightarrow> 't machine provider" where
  "remote p =
     \<lparr>pr_Put = (\<lambda>k d n opts m. case pr_Put p k d n opts (fst m) of (t, r) \<Rightarrow> ((t, snd m), r)),
      pr_Get = (\<lambda>k m. pr_Get p k (fst m)),
      pr_Delete = (\<lambda>k m. case pr_Delete p k (fst m) of (t, r) \<Rightarrow> ((t, snd m), r)),
      pr_Head = (\<lambda>k m. pr_Head p k (fst m))\<rparr>"

text \<open>What \<open>x_Open\<close> is in the agent: \<open>storage.ForJob\<close>.  A root that cannot be created shows in the first put.\<close>

definition open_provider :: "(string \<Rightarrow> bool) \<Rightarrow> (string \<Rightarrow> string) \<Rightarrow> int \<Rightarrow> (s3_config \<Rightarrow> 't s3_client) \<Rightarrow> string \<Rightarrow> string
    \<Rightarrow> s3_config option \<Rightarrow> string + (bool \<times> 't machine provider)" where
  "open_provider io sha dsz client t root s3 =
     (case snd (ForJob io t root s3 no_files) of
        Inl e \<Rightarrow> Inl e
      | Inr (UseLocal r) \<Rightarrow> Inr (True, on_disk (local_storage io sha dsz r))
      | Inr (UseS3 c) \<Rightarrow> Inr (False, remote (s3_storage (client c) io (s3_Bucket c))))"

end
