(* ===== verification/Work.thy ===== *)
theory Work
  imports Runner
begin

text \<open>
  What the work loop of \<^theory_text>\<open>Runner\<close> guarantees, composed with the server's handlers.
\<close>

subsection \<open>Calls\<close>

definition rejected :: "'t setting \<Rightarrow> db \<Rightarrow> bool" where
  "rejected x d \<longleftrightarrow> AgentAuth (x_Bcrypt x) (bearer x) (Some (x_Agent x)) d = Inl (401, ''agent revoked'')"

lemma call_machine [simp]: "w_machine (fst (call x h w)) = w_machine w"
  by (simp add: call_def Let_def split: delivery.splits prod.splits reply.splits)

lemma call_calls [simp]: "w_calls (fst (call x h w)) = Suc (w_calls w)"
  by (simp add: call_def Let_def split: delivery.splits prod.splits reply.splits)

lemma UpdateRunStatus_machine [simp]: "w_machine (fst (UpdateRunStatus x rid q w)) = w_machine w"
  by (simp add: UpdateRunStatus_def)

lemma call_db:
  "w_db (fst (call x h w)) = x_Others x (w_calls w) (w_db w) \<or>
   w_db (fst (call x h w)) = fst (h (w_calls w) (x_Others x (w_calls w) (w_db w)))"
  by (simp add: call_def Let_def split: delivery.splits prod.splits reply.splits)

subsection \<open>Only the last report completes a run\<close>

definition completed_in :: "uuid \<Rightarrow> db \<Rightarrow> bool" where
  "completed_in rid d \<longleftrightarrow> (\<exists>r\<in>set (db_runs d). ID r = rid \<and> run_Status r = RunCompleted)"

text \<open>Every completed row of the run carries what the report said.\<close>

definition completed_as :: "uuid \<Rightarrow> status_report \<Rightarrow> db \<Rightarrow> bool" where
  "completed_as rid q d \<longleftrightarrow> (\<forall>r\<in>set (db_runs d). ID r = rid \<and> run_Status r = RunCompleted \<longrightarrow>
     rq_Status q = RunCompleted \<and> run_Checksum r = rq_Checksum q \<and> run_BytesUploaded r = rq_BytesUploaded q \<and>
     run_StoragePath r = rq_StoragePath q)"

lemma not_completed_as: "\<not> completed_in rid d \<Longrightarrow> completed_as rid q d"
  by (auto simp: completed_in_def completed_as_def)

lemma completed_as_other: "completed_as rid q d \<Longrightarrow> rq_Status q \<noteq> RunCompleted \<Longrightarrow> \<not> completed_in rid d"
  by (auto simp: completed_in_def completed_as_def)

lemma advance_row_record:
  "run_Checksum (advance_row now r q w y) = rq_Checksum q" "run_BytesUploaded (advance_row now r q w y) = rq_BytesUploaded q"
  "run_StoragePath (advance_row now r q w y) = rq_StoragePath q"
  by (simp_all add: advance_row_def Let_def split: option.splits)

lemma report_commit_completes:
  assumes "\<not> completed_in rid d"
  shows "completed_as rid q (fst (report_commit e flt enc now n1 n2 ag r q d))"
proof -
  define good where "good = (\<lambda>r :: backup_run. ID r = rid \<and> run_Status r = RunCompleted \<longrightarrow>
     rq_Status q = RunCompleted \<and> run_Checksum r = rq_Checksum q \<and> run_BytesUploaded r = rq_BytesUploaded q \<and>
     run_StoragePath r = rq_StoragePath q)"
  have start: "\<forall>y\<in>set (db_runs d). good y" using assms by (auto simp: completed_in_def good_def)
  have adv: "\<forall>y\<in>set (update_rows now P (advance_row now r q w) (db_runs d)). good y" for P w
    using start by (rule update_rows_ball) (simp add: good_def advance_row_record)
  have fc: "\<forall>y\<in>set (update_rows now P (\<lambda>y. y\<lparr>run_FailureCategory := c\<rparr>) t). good y" if "\<forall>y\<in>set t. good y" for P t c
    using that by (rule update_rows_ball) (simp add: good_def)
  have "\<forall>y\<in>set (db_runs (fst (report_commit e flt enc now n1 n2 ag r q d))). good y"
    using start adv fc [OF adv] unfolding report_commit_def Let_def
    by (auto split: option.split simp: after_failed_runs)
  then show ?thesis by (simp add: completed_as_def good_def)
qed

lemma UpdateStatus_completes:
  assumes "\<not> completed_in rid d"
  shows "completed_as rid q (fst (UpdateStatus e flt enc now n1 n2 ag (Some rid) (Some q) d))"
proof (cases "report_check ag (Some rid) (Some q) d")
  case (Progress r q')
  have "\<forall>y\<in>set (db_runs d). \<not> (ID y = rid \<and> run_Status y = RunCompleted)" using assms by (auto simp: completed_in_def)
  then have "\<forall>y\<in>set (update_rows now (\<lambda>x. ID x = ID r) (progress_row q') (db_runs d)). \<not> (ID y = rid \<and> run_Status y = RunCompleted)"
    by (rule update_rows_ball) (simp add: progress_row_def)
  then have "\<not> completed_in rid (fst (UpdateStatus e flt enc now n1 n2 ag (Some rid) (Some q) d))"
    by (auto simp: UpdateStatus_def Progress report_progress_def completed_in_def)
  then show ?thesis by (rule not_completed_as)
next
  case (Advance r q')
  then have "q' = q" using report_check_AdvanceD by blast
  then show ?thesis using report_commit_completes [OF assms] by (simp add: UpdateStatus_def Advance)
qed (simp_all add: UpdateStatus_def assms not_completed_as)

text \<open>What others do to the database between two calls, and that none of them completes the run.\<close>

definition others_leave :: "'t setting \<Rightarrow> uuid \<Rightarrow> bool" where
  "others_leave x rid \<longleftrightarrow> (\<forall>n d. \<not> completed_in rid d \<longrightarrow> \<not> completed_in rid (x_Others x n d))"

lemma UpdateRunStatus_completes:
  assumes "others_leave x rid" and "\<not> completed_in rid (w_db w)"
  shows "completed_as rid q (w_db (fst (UpdateRunStatus x rid q w)))"
proof -
  let ?d = "x_Others x (w_calls w) (w_db w)"
  have d: "\<not> completed_in rid ?d" using assms by (simp add: others_leave_def)
  have "completed_as rid q (fst (status_handler x rid q (w_calls w) ?d))"
    using UpdateStatus_completes [OF d] not_completed_as [OF d]
    by (simp add: status_handler_def as_agent_def split: sum.split prod.split)
  then show ?thesis using call_db [of x "status_handler x rid q" w] not_completed_as [OF d]
    unfolding UpdateRunStatus_def by auto
qed

lemma UpdateRunStatus_other:
  "others_leave x rid \<Longrightarrow> \<not> completed_in rid (w_db w) \<Longrightarrow> rq_Status q \<noteq> RunCompleted \<Longrightarrow>
    \<not> completed_in rid (w_db (fst (UpdateRunStatus x rid q w)))"
  using completed_as_other UpdateRunStatus_completes by blast

lemma report_of_Status [simp]: "rq_Status (report_of s a b c m p k dk) = s"
  by (simp add: report_of_def)

lemma failRun_leaves:
  "others_leave x rid \<Longrightarrow> \<not> completed_in rid (w_db w) \<Longrightarrow> \<not> completed_in rid (w_db (fst (failRun x rid msg w)))"
  by (simp add: failRun_def UpdateRunStatus_other)

lemma cancelRun_leaves:
  "others_leave x rid \<Longrightarrow> \<not> completed_in rid (w_db w) \<Longrightarrow> \<not> completed_in rid (w_db (fst (cancelRun x rid w)))"
  by (simp add: cancelRun_def UpdateRunStatus_other)

lemma push_progress_leaves:
  assumes "others_leave x rid" and "\<not> completed_in rid (w_db w)"
  shows "\<not> completed_in rid (w_db (fst (push_progress x rid ns seen w))) \<and> w_machine (fst (push_progress x rid ns seen w)) = w_machine w"
  using assms(2)
proof (induction ns arbitrary: seen w)
  case (Cons n ns)
  obtain w1 r where w1: "UpdateRunStatus x rid (report_of RunRunning n 0 0 '''' '''' '''' '''') w = (w1, r)" by (rule prod.exhaust)
  have "\<not> completed_in rid (w_db w1)" "w_machine w1 = w_machine w"
    using UpdateRunStatus_other [OF assms(1) Cons.prems, of "report_of RunRunning n 0 0 '''' '''' '''' ''''"]
      UpdateRunStatus_machine [of x rid _ w] w1 by (simp, metis fst_conv)
  then show ?case using Cons.IH [of w1] w1 by simp
qed simp

lemma call_leaves:
  assumes "others_leave x rid" and "\<not> completed_in rid (w_db w)"
    and "\<And>n d. \<not> completed_in rid d \<Longrightarrow> \<not> completed_in rid (fst (h n d))"
  shows "\<not> completed_in rid (w_db (fst (call x h w)))"
  using call_db [of x h w] assms unfolding others_leave_def by metis

lemma register_leaves:
  assumes "others_leave x rid" and "\<not> completed_in rid (w_db w)"
  shows "\<not> completed_in rid (w_db (fst (ClientRegisterArtifact x rid n s c p w)))"
proof -
  have "db_runs (fst (RegisterArtifact flt now nid ag idp req d)) = db_runs d" for flt now nid ag idp req d
    by (simp add: RegisterArtifact_def Let_def split: option.splits if_splits)
  then show ?thesis unfolding ClientRegisterArtifact_def
    by (intro call_leaves [OF assms]) (simp add: as_agent_def completed_in_def split: sum.split prod.split)
qed

lemma report_stages_completes:
  assumes others: "others_leave x rid" and start: "\<not> completed_in rid (w_db w)"
    and q: "\<And>s. rq_Status (q s) = s"
    and run: "report_stages x st rid key q stages w = (w', e)" and e: "e \<noteq> CancelledRun"
  shows "completed_as rid (q RunCompleted) (w_db w') \<and> w_machine w' = w_machine w"
proof -
  obtain w1 r1 where w1: "UpdateRunStatus x rid (q RunUploading) w = (w1, r1)" by (rule prod.exhaust)
  obtain w2 r2 where w2: "UpdateRunStatus x rid (q RunVerifying) w1 = (w2, r2)" by (rule prod.exhaust)
  obtain w3 r3 where w3: "UpdateRunStatus x rid (q RunCompleted) w2 = (w3, r3)" by (rule prod.exhaust)
  have d1: "\<not> completed_in rid (w_db w1)" using UpdateRunStatus_other [OF others start, of "q RunUploading"] w1 q by simp
  have d2: "\<not> completed_in rid (w_db w2)" using UpdateRunStatus_other [OF others d1, of "q RunVerifying"] w2 q by simp
  have d3: "completed_as rid (q RunCompleted) (w_db w3)"
    using UpdateRunStatus_completes [OF others d2, of "q RunCompleted"] w3 by simp
  have m: "w_machine w1 = w_machine w" "w_machine w2 = w_machine w" "w_machine w3 = w_machine w"
    using UpdateRunStatus_machine [of x rid "q RunUploading" w] UpdateRunStatus_machine [of x rid "q RunVerifying" w1]
      UpdateRunStatus_machine [of x rid "q RunCompleted" w2] w1 w2 w3 by simp_all
  show ?thesis
    using run e d1 [THEN not_completed_as] d2 [THEN not_completed_as] d3 m
    by (auto simp: stages_def w1 w2 w3 cancelRun_def split: sum.splits if_splits)
qed

subsection \<open>What is stored is what was produced\<close>

definition payload_ok :: "'t setting \<Rightarrow> 't machine \<Rightarrow> path \<Rightarrow> string \<Rightarrow> bool" where
  "payload_ok x m p c \<longleftrightarrow> (\<exists>y. file_at (snd m) p = Some y \<and> c = x_Sha x y)"

lemma tar_source_ok: "tar_source x job m = (m1, Inr pl) \<Longrightarrow> payload_ok x m1 (pl_Path pl) (pl_Checksum pl) \<and> pl_Path pl = x_Tmp x"
  unfolding tar_source_def BackupFilesystem_def Let_def
  by (auto simp: payload_ok_def split: option.splits sum.splits if_splits)

lemma dump_source_ok:
  "dump_source x label d m = (m1, Inr pl) \<Longrightarrow>
     payload_ok x m1 (pl_Path pl) (pl_Checksum pl) \<and> (\<exists>m0 n. x_Dump x d m = (m0, Inr (pl_Path pl, n)))"
  by (auto simp: dump_source_def payload_ok_def ChecksumFile_def split: prod.splits sum.splits option.splits if_splits)

definition temp_area :: "'t setting \<Rightarrow> path set \<Rightarrow> bool" where
  "temp_area x T \<longleftrightarrow> x_Tmp x \<in> T \<and> (\<forall>d m m1 p n. x_Dump x d m = (m1, Inr (p, n)) \<longrightarrow> p \<in> T) \<and> (\<forall>p\<in>T. enc_path p \<in> T)"

lemma produce_ok:
  assumes "produce x rid job w = (w1, seen, Inr pl)" and "temp_area x T"
  shows "payload_ok x (w_machine w1) (pl_Path pl) (pl_Checksum pl) \<and> pl_Path pl \<in> T"
proof (cases "jc_SourceType job = ''FILESYSTEM''")
  case True
  obtain w0 s0 where "push_progress x rid (x_Progress x) False w = (w0, s0)" by (rule prod.exhaust)
  then have "tar_source x job (w_machine w0) = (w_machine w1, Inr pl)"
    using assms(1) True by (auto simp: produce_def with_machine_def split: prod.splits)
  from tar_source_ok [OF this] show ?thesis using assms(2) [unfolded temp_area_def, THEN conjunct1] by metis
next
  case False
  then obtain label d where "dump_source x label d (w_machine w) = (w_machine w1, Inr pl)"
    using assms(1) by (auto simp: produce_def with_machine_def split: prod.splits sum.splits)
  from dump_source_ok [OF this] show ?thesis using assms(2) unfolding temp_area_def by blast
qed

lemma produce_leaves:
  assumes "produce x rid job w = (w1, seen, r)" and "others_leave x rid" and "\<not> completed_in rid (w_db w)"
  shows "\<not> completed_in rid (w_db w1)"
proof -
  obtain w0 s0 where w0: "push_progress x rid (x_Progress x) False w = (w0, s0)" by (rule prod.exhaust)
  then have "\<not> completed_in rid (w_db w0)" using push_progress_leaves [OF assms(2,3)] by (metis fst_conv)
  then show ?thesis using assms(1,3) w0
    by (auto simp: produce_def with_machine_def split: prod.splits sum.splits if_splits)
qed

lemma seal_payload_ok:
  assumes "seal_payload x rid job pl m = (m1, Inr sl)" and "payload_ok x m (pl_Path pl) (pl_Checksum pl)"
  shows "payload_ok x m1 (sl_Path sl) (sl_Checksum sl) \<and>
    sl_Name sl = jc_Name job @ ''_'' @ rid @ (if jc_Encrypted job then ''.enc'' else '''') \<and>
    (jc_Encrypted job \<longrightarrow> sl_Path sl = enc_path (pl_Path pl))"
proof (cases "jc_Encrypted job")
  case True
  then obtain fs digest where e: "EncryptFile (x_Io x) (x_Seal x) (x_Sha x) (x_Prefix x) (x_Key x) (pl_Path pl)
      (enc_path (pl_Path pl)) (snd m) = (fs, Inr digest)" "m1 = (fst m, fs)"
    "sl_Path sl = enc_path (pl_Path pl)" "sl_Checksum sl = digest" "sl_Name sl = (jc_Name job @ ''_'' @ rid) @ ''.enc''"
    using assms(1) by (auto simp: seal_payload_def Let_def split: if_splits prod.splits sum.splits)
  from e(1) obtain src where "file_at fs (enc_path (pl_Path pl)) = Some (container (x_Prefix x) (enc_frames (x_Seal x) (x_Key x) (x_Prefix x) 0 src))"
    "digest = x_Sha x (container (x_Prefix x) (enc_frames (x_Seal x) (x_Key x) (x_Prefix x) 0 src))"
    by (rule EncryptFile_OkD)
  then show ?thesis using e True by (simp add: payload_ok_def)
qed (use assms in \<open>auto simp: seal_payload_def Let_def\<close>)

context object_store
begin

lemma store_and_verify_ok:
  assumes "store_and_verify pr rid key data c name s = (s1, Inr info)"
  shows "content s1 (loc key) = Some data \<and> oi_Size info = int (length data)"
  using assms put_stores [of key data "int (length data)"]
  by (fastforce simp: store_and_verify_def Let_def split: prod.splits sum.splits if_splits)

end


text \<open>Dropping files of the temporary area leaves an object of the store alone.\<close>

definition aside :: "('t machine \<Rightarrow> 'l \<Rightarrow> string option) \<Rightarrow> path set \<Rightarrow> 'l \<Rightarrow> bool" where
  "aside content T l \<longleftrightarrow> (\<forall>p\<in>T. \<forall>m. content (on_files (drop_file p) m) l = content m l)"

lemma remove_files_aside:
  "aside content T l \<Longrightarrow> p \<in> T \<Longrightarrow> content (w_machine (remove_files [p] w)) l = content (w_machine w) l"
  unfolding remove_files_def on_machine_def aside_def by (simp del: split_paired_All)

lemma remove_files_db [simp]: "w_db (remove_files ps w) = w_db w"
  by (simp add: remove_files_def on_machine_def)

text \<open>The outcome of a backup for one run: whatever row of it is completed describes the stored object.\<close>

definition described :: "'t setting \<Rightarrow> ('t machine \<Rightarrow> 'l \<Rightarrow> string option) \<Rightarrow> 'l \<Rightarrow> uuid \<Rightarrow> 't world \<Rightarrow> bool" where
  "described x content l rid w \<longleftrightarrow>
     (\<forall>r\<in>set (db_runs (w_db w)). ID r = rid \<and> run_Status r = RunCompleted \<longrightarrow>
        (\<exists>data. content (w_machine w) l = Some data \<and> run_Checksum r = x_Sha x data \<and>
           run_BytesUploaded r = int (length data)))"

lemma not_completed_described: "\<not> completed_in rid (w_db w) \<Longrightarrow> described x content l rid w"
  by (auto simp: completed_in_def described_def)

lemma described_remove:
  "aside content T l \<Longrightarrow> p \<in> T \<Longrightarrow> described x content l rid w \<Longrightarrow> described x content l rid (remove_files [p] w)"
  by (simp add: described_def remove_files_aside)

definition object_key :: "agent_job_config \<Rightarrow> uuid \<Rightarrow> string" where
  "object_key job rid = BuildKey (jc_OrganizationID job) (jc_JobID job) rid
     (jc_Name job @ ''_'' @ rid @ (if jc_Encrypted job then ''.enc'' else ''''))"

lemma store_payload_described:
  assumes store: "object_store st sound content loc"
    and others: "others_leave x rid" and start: "\<not> completed_in rid (w_db w)"
    and ok: "payload_ok x (w_machine w) (sl_Path sl) (sl_Checksum sl)"
    and name: "sl_Name sl = jc_Name job @ ''_'' @ rid @ (if jc_Encrypted job then ''.enc'' else '''')"
    and run: "store_payload x st rid job pl sl w = (w', e)" and e: "e \<noteq> CancelledRun"
  shows "described x content (loc (object_key job rid)) rid w'"
proof -
  let ?key = "BuildKey (jc_OrganizationID job) (jc_JobID job) rid (sl_Name sl)"
  have key: "?key = object_key job rid" by (simp add: object_key_def name)
  obtain data where data: "file_at (snd (w_machine w)) (sl_Path sl) = Some data" "sl_Checksum sl = x_Sha x data"
    using ok by (auto simp: payload_ok_def)
  show ?thesis
  proof (cases "x_Io x ''open''")
    case True
    then have "w' = fst (failRun x rid ''open payload failed'' w)" using run by (simp add: store_payload_def)
    then show ?thesis using failRun_leaves [OF others start] not_completed_described by metis
  next
    case False
    obtain m1 r where sv: "store_and_verify st rid ?key data (sl_Checksum sl) (sl_Name sl) (w_machine w) = (m1, r)"
      by (rule prod.exhaust)
    have d1: "\<not> completed_in rid (w_db (w\<lparr>w_machine := m1\<rparr>))" using start by simp
    show ?thesis
    proof (cases r)
      case (Inl msg)
      then have "w' = fst (failRun x rid msg (w\<lparr>w_machine := m1\<rparr>))"
        using run False data(1) sv by (simp add: store_payload_def with_machine_def)
      then show ?thesis using failRun_leaves [OF others d1] not_completed_described by metis
    next
      case (Inr info)
      let ?q = "\<lambda>s. report_of s (pl_Read pl) (pl_Compressed pl) (oi_Size info) '''' (oi_Location info) (sl_Checksum sl) (sl_DataKey sl)"
      let ?w2 = "fst (ClientRegisterArtifact x rid (sl_Name sl) (oi_Size info) (sl_Checksum sl) (oi_Location info) (w\<lparr>w_machine := m1\<rparr>))"
      have put: "content m1 (loc ?key) = Some data" "oi_Size info = int (length data)"
        using object_store.store_and_verify_ok [OF store] sv unfolding Inr by blast+
      have "report_stages x st rid ?key ?q stages ?w2 = (w', e)"
        using run False data(1) sv Inr by (simp add: store_payload_def with_machine_def split: prod.splits)
      moreover have "\<not> completed_in rid (w_db ?w2)" by (rule register_leaves [OF others d1])
      ultimately have "completed_as rid (?q RunCompleted) (w_db w')" "w_machine w' = w_machine ?w2"
        using report_stages_completes [OF others _ _ _ e] by (metis report_of_Status)+
      then show ?thesis using put data(2)
        by (auto simp: described_def completed_as_def report_of_def ClientRegisterArtifact_def key)
    qed
  qed
qed

lemma seal_and_store_described:
  assumes store: "object_store st sound content loc" and T: "temp_area x T" "aside content T (loc (object_key job rid))"
    and others: "others_leave x rid" and start: "\<not> completed_in rid (w_db w)"
    and ok: "payload_ok x (w_machine w) (pl_Path pl) (pl_Checksum pl)" "pl_Path pl \<in> T"
    and run: "seal_and_store x st rid job pl seen w = (w', e)" and e: "e \<noteq> CancelledRun"
  shows "described x content (loc (object_key job rid)) rid w'"
proof -
  obtain m1 r where sp: "seal_payload x rid job pl (w_machine w) = (m1, r)" by (rule prod.exhaust)
  have d1: "\<not> completed_in rid (w_db (w\<lparr>w_machine := m1\<rparr>))" using start by simp
  consider (failed) msg w0 where "w' = fst (failRun x rid msg w0)" "\<not> completed_in rid (w_db w0)"
    | (stored) sl w2 where "r = Inr sl" "store_payload x st rid job pl sl (w\<lparr>w_machine := m1\<rparr>) = (w2, e)"
        "w' = (if jc_Encrypted job then remove_files [sl_Path sl] w2 else w2)"
    using run e start d1 sp that
    by (auto simp: seal_and_store_def with_machine_def cancelRun_def failRun_def split: if_splits sum.splits prod.splits)
  then show ?thesis
  proof cases
    case failed
    then show ?thesis using failRun_leaves [OF others] not_completed_described by metis
  next
    case stored
    note sl = seal_payload_ok [OF sp [unfolded stored(1)] ok(1)]
    have "described x content (loc (object_key job rid)) rid w2"
      using sl stored(2) e by (intro store_payload_described [OF store others d1 _ _ stored(2) e]) simp_all
    moreover have "sl_Path sl \<in> T" if "jc_Encrypted job" using sl that T(1) ok(2) unfolding temp_area_def by auto
    ultimately show ?thesis using stored(3) described_remove [OF T(2)] by simp
  qed
qed

subsection \<open>The stores of a machine\<close>

text \<open>A store over the files is a store over the machine.\<close>

lemma on_disk_store:
  assumes "object_store p sound content loc"
  shows "object_store (on_disk p) (sound \<circ> snd) (\<lambda>m. content (snd m)) loc"
proof
  fix s k d n opts show "(sound \<circ> snd) s \<Longrightarrow> (sound \<circ> snd) (fst (pr_Put (on_disk p) k d n opts s))"
    using object_store.put_sound [OF assms] by (simp add: on_disk_def split: prod.split) (metis fst_conv)
  show "(sound \<circ> snd) s \<Longrightarrow> (sound \<circ> snd) (fst (pr_Delete (on_disk p) k s))"
    using object_store.delete_sound [OF assms] by (simp add: on_disk_def split: prod.split) (metis fst_conv)
  fix s' i
  show "pr_Put (on_disk p) k d n opts s = (s', Inr i) \<Longrightarrow>
      content (snd s') (loc k) = Some d \<and> (n = int (length d) \<longrightarrow> oi_Size i = int (length d))"
    using object_store.put_stores [OF assms, of k d n opts "snd s" "snd s'" i] by (auto simp: on_disk_def split: prod.splits)
  fix e
  show "pr_Put (on_disk p) k d n opts s = (s', Inl e) \<Longrightarrow>
      content (snd s') (loc k) = content (snd s) (loc k) \<or> content (snd s') (loc k) = None"
    using object_store.put_failed [OF assms, of k d n opts "snd s" "snd s'" e] by (auto simp: on_disk_def split: prod.splits)
  fix l
  show "l \<noteq> loc k \<Longrightarrow> content (snd (fst (pr_Put (on_disk p) k d n opts s))) l = content (snd s) l"
    using object_store.put_elsewhere [OF assms, of l k d n opts "snd s"] by (simp add: on_disk_def split: prod.split) (metis fst_conv)
  show "l \<noteq> loc k \<Longrightarrow> content (snd (fst (pr_Delete (on_disk p) k s))) l = content (snd s) l"
    using object_store.delete_elsewhere [OF assms, of l k "snd s"] by (simp add: on_disk_def split: prod.split) (metis fst_conv)
  fix x
  show "pr_Get (on_disk p) k s = Inr (x, i) \<Longrightarrow> content (snd s) (loc k) = Some x"
    using object_store.get_reads [OF assms] by (simp add: on_disk_def)
  show "pr_Delete (on_disk p) k s = (s', Inr ()) \<Longrightarrow> content (snd s') (loc k) = None"
    using object_store.delete_erases [OF assms, of k "snd s" "snd s'"] by (auto simp: on_disk_def split: prod.splits)
  show "pr_Delete (on_disk p) k s = (s', Inl e) \<Longrightarrow> s' = s"
    using object_store.delete_failed [OF assms, of k "snd s" "snd s'" e] by (auto simp: on_disk_def split: prod.splits)
  show "pr_Head (on_disk p) k s = Inr i \<Longrightarrow> content (snd s) (loc k) = Some x \<Longrightarrow> oi_Size i = int (length x)"
    using object_store.head_size [OF assms] by (simp add: on_disk_def)
qed

interpretation disk_store: object_store "on_disk (local_storage io sha dsz root)" "files_ok \<circ> snd" "\<lambda>m. file_at (snd m)"
    "local_loc root"
  for io sha dsz root
  by (rule on_disk_store [OF local_store.object_store_axioms])

subsection \<open>A small setting\<close>

text \<open>One agent with local storage under \<open>/b\<close> and a source of two files, for the witnesses.\<close>

definition toy_setting :: "unit setting" where
  "toy_setting =
     \<lparr>x_Others = (\<lambda>n d. d), x_Net = (\<lambda>n. Delivered), x_Socket = (\<lambda>n rid. False), x_Stop = (\<lambda>n. False),
      x_Now = (\<lambda>n. 100 + int n), x_Fresh = (\<lambda>n. (''f1'', ''f2'')), x_Faults = (\<lambda>n. no_faults), x_Env = sample_env,
      x_Enc = Some, x_Dec = Some, x_Bcrypt = sample_bcrypt, x_Agent = ''g1'', x_Token = ''secret'', x_Version = ''1.0'',
      x_Io = (\<lambda>_. False), x_EntryIo = (\<lambda>_ _. False), x_Sha = (\<lambda>s. ''sha:'' @ s),
      x_Open = open_provider (\<lambda>_. False) (\<lambda>s. ''sha:'' @ s) 4096 undefined,
      x_Dump = (\<lambda>d m. (m, Inl ''no tools'')), x_Replay = (\<lambda>r m. (m, Inl ''no tools'')),
      x_Source = (\<lambda>p. (Some (Directory web_root), Directory web_root)), x_Pack = toy_pack, x_Untar = toy_untar,
      x_Links = Map.empty, x_Tmp = [''tmp'', ''x.tar''], x_Download = [''tmp'', ''d''], x_TmpRoot = ''/tmp'', x_Cwd = [],
      x_FreeDisk = None, x_Seal = toy_seal, x_Unseal = toy_open, x_Key = replicate 32 CHR ''k'', x_Prefix = ''abcd'',
      x_Encode = (\<lambda>s. s), x_Decode = Some, x_PG = \<lparr>pg_Host = '''', pg_Port = 0, pg_User = '''', pg_Password = ''''\<rparr>,
      x_MSSQL = \<lparr>ms_Server = '''', ms_User = '''', ms_Password = '''', ms_BackupDir = ''''\<rparr>, x_Mongo = '''',
      x_Progress = [5]\<rparr>"

definition toy_job :: agent_job_config where
  "toy_job = (job_config Some sample_run (run_db RunRunning))
     \<lparr>jc_JobID := ''j1'', jc_OrganizationID := ''o1'', jc_Name := ''web'', jc_SourceType := ''FILESYSTEM'', jc_SourcePath := ''/www'',
      jc_Mode := ''NORMAL'', jc_Encrypted := False, jc_StorageType := StorageLocal, jc_StoragePath := ''/backups'',
      jc_Storage := \<lparr>sc_Type = StorageLocal, sc_Path = ''/backups'', sc_Bucket = '''', sc_Region = '''', sc_Endpoint = '''',
        sc_UsePathStyle = False, sc_AccessKey = '''', sc_SecretKey = ''''\<rparr>\<rparr>"

definition toy_world :: "unit world" where
  "toy_world = \<lparr>w_db = run_db RunRunning, w_machine = ((), tmp_tree), w_calls = 0\<rparr>"

definition toy_run :: "unit world \<times> ending" where
  "toy_run = executeBackup toy_setting ''r1'' toy_job toy_world"

lemma toy_run_finished:
  "snd toy_run = Finished" "map run_Status (db_runs (w_db (fst toy_run))) = [RunCompleted]"
  "file_at (snd (w_machine (fst toy_run))) (local_loc ''/backups'' (object_key toy_job ''r1'')) \<noteq> None"
  by code_simp+

subsection \<open>Properties\<close>

text \<open>C1. When the agent says a run is complete, its payload is in the store: after a backup, under any behaviour
  of the network and any concurrent activity that does not itself complete the run, every completed record of
  the run carries the SHA-256 and the length of the object stored under the run's key; the only exception is a
  backup that ended as cancelled.\<close>

theorem completed_means_stored:
  assumes store: "open_storage x (storageForJob job) = Inr (is_local, st)" "object_store st sound content loc"
    and T: "temp_area x T" "aside content T (loc (object_key job rid))"
    and others: "others_leave x rid" and start: "\<not> completed_in rid (w_db w)"
    and run: "executeBackup x rid job w = (w', e)" and e: "e \<noteq> CancelledRun"
  shows "described x content (loc (object_key job rid)) rid w'"
proof -
  obtain w1 seen r where p: "produce x rid job w = (w1, seen, r)" by (metis prod.exhaust)
  have d1: "\<not> completed_in rid (w_db w1)" by (rule produce_leaves [OF p others start])
  consider (failed) msg w0 where "w' = fst (failRun x rid msg w0)" "\<not> completed_in rid (w_db w0)"
    | (stored) pl w2 where "r = Inr pl" "seal_and_store x st rid job pl seen w1 = (w2, e)" "w' = remove_files [pl_Path pl] w2"
    using run e start d1 p that store(1)
    by (auto simp: executeBackup_def cancelRun_def failRun_def split: if_splits sum.splits prod.splits)
  then show ?thesis
  proof cases
    case failed
    then show ?thesis using failRun_leaves [OF others] not_completed_described by metis
  next
    case stored
    note ok = produce_ok [OF p [unfolded stored(1)] T(1)]
    have "described x content (loc (object_key job rid)) rid w2"
      using ok by (intro seal_and_store_described [OF store(2) T others d1 _ _ stored(2) e]) simp_all
    then show ?thesis unfolding stored(3) using described_remove [OF T(2)] ok by blast
  qed
qed

lemma toy_opens:
  "open_storage toy_setting (storageForJob toy_job) =
     Inr (True, on_disk (local_storage (\<lambda>_. False) (\<lambda>s. ''sha:'' @ s) 4096 ''/backups''))"
proof -
  have "storageForJob toy_job = (''LOCAL'', ''/backups'', None)" by code_simp
  moreover have "snd (ForJob (\<lambda>_. False) ''LOCAL'' ''/backups'' None no_files) = Inr (UseLocal ''/backups'')" by code_simp
  ultimately show ?thesis by (simp add: open_storage_def toy_setting_def open_provider_def)
qed

definition toy_tmp :: "path set" where
  "toy_tmp = {p. \<exists>a q. p = ''tmp'' # a # q}"

lemma toy_tmp_area: "temp_area toy_setting toy_tmp"
  by (auto simp: temp_area_def toy_setting_def toy_tmp_def enc_path_def)

lemma toy_aside: "aside (\<lambda>m. file_at (snd m)) toy_tmp (local_loc ''/backups'' (object_key toy_job ''r1''))"
proof -
  have "hd (local_loc ''/backups'' (object_key toy_job ''r1'')) = ''backups''" by code_simp
  then have "local_loc ''/backups'' (object_key toy_job ''r1'') \<notin> toy_tmp" by (auto simp: toy_tmp_def)
  then show ?thesis by (auto simp: aside_def on_files_def)
qed

theorem completed_means_stored_witness:
  "described toy_setting (\<lambda>m. file_at (snd m)) (local_loc ''/backups'' (object_key toy_job ''r1'')) ''r1'' (fst toy_run) \<and>
     map run_Status (db_runs (w_db (fst toy_run))) = [RunCompleted]"
proof -
  have o: "others_leave toy_setting ''r1''" by (simp add: others_leave_def toy_setting_def)
  have s: "\<not> completed_in ''r1'' (w_db toy_world)"
    by (simp add: completed_in_def toy_world_def run_db_def sample_run_def)
  have r: "executeBackup toy_setting ''r1'' toy_job toy_world = (fst toy_run, snd toy_run)" by (simp add: toy_run_def)
  have e: "snd toy_run \<noteq> CancelledRun" by (simp add: toy_run_finished)
  show ?thesis
    using completed_means_stored [OF toy_opens disk_store.object_store_axioms toy_tmp_area toy_aside o s r e] toy_run_finished
    by blast
qed

lemma completed_stays:
  assumes "completed_in rid d" and "db_step d d'" and "db_wf d"
  shows "completed_in rid d'"
proof -
  obtain r where r: "r \<in> set (db_runs d)" "ID r = rid" "run_Status r = RunCompleted"
    using assms(1) by (auto simp: completed_in_def)
  have "run_table.evolves (db_runs d) (db_runs d')" using assms(2,3) by (simp add: db_step_def db_later_def)
  then obtain b where b: "b \<in> set (db_runs d')" "run_later r b" using run_table.evolves_member r(1) by blast
  then have "run_record b = run_record r" "run_identity b = run_identity r"
    using r(3) by (simp_all add: run_later_def run_terminal_def)
  then have "run_Status b = RunCompleted" "ID b = rid" using r(2,3) by (simp_all add: run_record_def run_identity_def)
  then show ?thesis using b(1) by (auto simp: completed_in_def)
qed

lemma UpdateRunStatus_db_step:
  assumes "\<And>n d. db_step d (x_Others x n d)"
  shows "db_step (w_db w) (w_db (fst (UpdateRunStatus x rid q w)))"
proof -
  let ?d = "x_Others x (w_calls w) (w_db w)"
  have "db_step ?d (fst (status_handler x rid q (w_calls w) ?d))"
    by (simp add: status_handler_def as_agent_def UpdateStatus_step split: sum.split prod.split)
  then have "db_step (w_db w) (fst (status_handler x rid q (w_calls w) ?d))"
    using assms db_step_trans by blast
  then show ?thesis using call_db [of x "status_handler x rid q" w] assms unfolding UpdateRunStatus_def by auto
qed

text \<open>C40. A cancel that reaches the agent with the acknowledgement of its last report destroys a completed backup:
  the object is deleted, the cancellation is refused, and the run stays complete.\<close>

theorem late_cancel_deletes_completed:
  assumes store: "object_store st sound content loc"
    and others: "\<And>n d. db_step d (x_Others x n d)"
    and last: "UpdateRunStatus x rid (q RunCompleted) w = (w1, Inr flag)" "completed_in rid (w_db w1)" "db_wf (w_db w1)"
    and cancel: "cancelledByUser x rid flag w1"
    and del: "pr_Delete st key (w_machine w1) = (m, Inr ())"
  shows "\<exists>w'. report_stages x st rid key q [RunCompleted] w = (w', CancelledRun) \<and>
    content (w_machine w') (loc key) = None \<and> completed_in rid (w_db w')"
proof -
  let ?w2 = "w1\<lparr>w_machine := m\<rparr>"
  let ?w3 = "fst (UpdateRunStatus x rid (report_of RunCancelled 0 0 0 '''' '''' '''' '''') ?w2)"
  have run: "report_stages x st rid key q [RunCompleted] w = (?w3, CancelledRun)"
    using last(1) cancel del by (simp add: cancelRun_def on_machine_def)
  have "content m (loc key) = None" using object_store.delete_erases [OF store del] .
  moreover have "completed_in rid (w_db ?w3)"
    using completed_stays [OF _ UpdateRunStatus_db_step [OF others]] last(2,3) by fastforce
  ultimately show ?thesis using run by simp
qed

definition late_setting :: "unit setting" where
  "late_setting = toy_setting\<lparr>x_Socket := (\<lambda>n rid. 5 \<le> n)\<rparr>"

definition late_world :: "unit world" where
  "late_world = \<lparr>w_db = run_db RunVerifying,
     w_machine = ((), \<lparr>fs_files = [([''backups'', ''x''], ''data'')], fs_dirs = [[''backups'']]\<rparr>), w_calls = 4\<rparr>"


definition late_report :: "run_status \<Rightarrow> status_report" where
  "late_report s = report_of s 4 4 4 '''' ''/backups/x'' ''sha:data'' ''''"

definition late_call :: "unit world \<times> ((nat \<times> string) + bool)" where
  "late_call = UpdateRunStatus late_setting ''r1'' (late_report RunCompleted) late_world"

theorem late_cancel_deletes_completed_witness:
  "\<exists>w'. report_stages late_setting (on_disk (local_storage (\<lambda>_. False) (\<lambda>s. s) 4096 ''/backups'')) ''r1'' ''x'' late_report
       [RunCompleted] late_world = (w', CancelledRun) \<and>
     file_at (snd (w_machine w')) (local_loc ''/backups'' ''x'') = None \<and> completed_in ''r1'' (w_db w')"
proof -
  have "snd late_call = Inr False" by code_simp
  then have last: "UpdateRunStatus late_setting ''r1'' (late_report RunCompleted) late_world = (fst late_call, Inr False)"
    by (metis late_call_def prod.collapse)
  have "map (\<lambda>r. (ID r, run_Status r)) (db_runs (w_db (fst late_call))) = [(''r1'', RunCompleted)]" by code_simp
  then have c: "completed_in ''r1'' (w_db (fst late_call))" by (auto simp: completed_in_def map_eq_Cons_conv)
  have o: "db_step d (x_Others late_setting n d)" for n d by (simp add: late_setting_def toy_setting_def)
  have "db_step (w_db late_world) (w_db (fst late_call))"
    unfolding late_call_def by (rule UpdateRunStatus_db_step) (rule o)
  moreover have "db_wf (w_db late_world)" by (simp add: late_world_def run_db_wf run_in_flight_def)
  ultimately have wf: "db_wf (w_db (fst late_call))" by (simp add: db_step_def)
  have "w_calls (fst late_call) = 5" by (simp add: late_call_def UpdateRunStatus_def late_world_def)
  then have cancel: "cancelledByUser late_setting ''r1'' False (fst late_call)"
    by (simp add: cancelledByUser_def late_setting_def)
  let ?st = "on_disk (local_storage (\<lambda>_. False) (\<lambda>s. s) 4096 ''/backups'') :: unit machine provider"
  have "snd (pr_Delete ?st ''x'' (w_machine late_world)) = Inr ()" by code_simp
  moreover have "w_machine (fst late_call) = w_machine late_world" by (simp add: late_call_def)
  ultimately have del: "pr_Delete ?st ''x'' (w_machine (fst late_call)) = (fst (pr_Delete ?st ''x'' (w_machine late_world)), Inr ())"
    by (metis prod.collapse)
  show ?thesis
    using late_cancel_deletes_completed [where q = late_report, OF disk_store.object_store_axioms o last c wf cancel del] by blast
qed

subsection \<open>Cancelling during a backup\<close>

definition not_pending :: "uuid \<Rightarrow> db \<Rightarrow> bool" where
  "not_pending rid d \<longleftrightarrow> (\<forall>r\<in>set (db_runs d). ID r = rid \<longrightarrow> run_Status r \<noteq> RunPending)"

lemma progress_reply:
  assumes "not_pending rid d" and "rq_Status q = RunRunning"
  shows "not_pending rid (fst (UpdateStatus e flt enc now n1 n2 ag (Some rid) (Some q) d)) \<and>
    snd (UpdateStatus e flt enc now n1 n2 ag (Some rid) (Some q) d) \<noteq> Reply c True"
proof (cases "report_check ag (Some rid) (Some q) d")
  case (Progress r q')
  have "\<forall>y\<in>set (update_rows now (\<lambda>x. ID x = ID r) (progress_row q') (db_runs d)). ID y = rid \<longrightarrow> run_Status y \<noteq> RunPending"
    using assms(1) unfolding not_pending_def by (rule update_rows_ball) (simp add: progress_row_def)
  then show ?thesis by (simp add: UpdateStatus_def Progress report_progress_def not_pending_def)
next
  case (Advance r q')
  note a = report_check_AdvanceD [OF Advance]
  then have "q' = q" "r \<in> set (db_runs d)" "ID r = rid" "CanTransition (run_Status r) RunRunning"
    using find_agent_run_SomeD assms(2) by auto
  then have "run_Status r \<noteq> RunPending" "CanTransition (run_Status r) RunRunning"
    using assms(1) by (auto simp: not_pending_def)
  then have False by (cases "run_Status r") auto
  then show ?thesis ..
qed (simp_all add: UpdateStatus_def assms)

text \<open>While a backup is being produced, a cancel over HTTP goes unseen: the server's answers to progress
  reports never carry the flag, whatever anybody requested meanwhile, so only the socket can stop the
  work early.\<close>

theorem http_cancel_unseen_while_running:
  assumes others: "\<And>n d. not_pending rid d \<Longrightarrow> not_pending rid (x_Others x n d)"
    and start: "not_pending rid (w_db w)" and silent: "\<And>n. \<not> x_Socket x n rid"
  shows "snd (push_progress x rid ns seen w) = seen"
  using start
proof (induction ns arbitrary: seen w)
  case (Cons n ns)
  let ?q = "report_of RunRunning n 0 0 '''' '''' '''' ''''" and ?d = "x_Others x (w_calls w) (w_db w)"
  let ?h = "status_handler x rid ?q (w_calls w)"
  have d: "not_pending rid ?d" using others Cons.prems by blast
  have h: "not_pending rid (fst (?h ?d)) \<and> snd (?h ?d) \<noteq> Reply c True" for c
    using progress_reply [OF d] d by (simp add: status_handler_def as_agent_def split: sum.split prod.split)
  obtain w1 r where w1: "UpdateRunStatus x rid ?q w = (w1, r)" by (rule prod.exhaust)
  have "not_pending rid (w_db w1)"
    using call_db [of x "status_handler x rid ?q" w] w1 d h unfolding UpdateRunStatus_def by auto
  moreover have "r \<noteq> Inr True"
    using w1 h by (auto simp: UpdateRunStatus_def call_def Let_def split: delivery.splits prod.splits reply.splits if_splits)
  ultimately show ?case using Cons.IH [of w1] w1 silent
    by (cases r) (auto simp: cancelledByUser_def)
qed simp

theorem http_cancel_unseen_while_running_witness:
  "\<not> snd (push_progress toy_setting ''r1'' [1, 2] False
      (toy_world\<lparr>w_db := (run_db RunRunning)\<lparr>db_runs := [sample_run\<lparr>run_Status := RunRunning, run_CancelRequested := True\<rparr>]\<rparr>\<rparr>))"
proof -
  let ?w = "toy_world\<lparr>w_db := (run_db RunRunning)\<lparr>db_runs := [sample_run\<lparr>run_Status := RunRunning, run_CancelRequested := True\<rparr>]\<rparr>\<rparr>"
  have "snd (push_progress toy_setting ''r1'' [1, 2] False ?w) = False"
    by (rule http_cancel_unseen_while_running) (simp_all add: toy_setting_def not_pending_def)
  then show ?thesis by simp
qed

subsection \<open>Revocation\<close>

text \<open>A run of the loop in which nothing but the others' activity reached the server.\<close>

definition only_others :: "'t setting \<Rightarrow> 't world \<Rightarrow> 't world \<Rightarrow> bool" where
  "only_others x w w' \<longleftrightarrow> w_machine w' = w_machine w \<and> w_calls w \<le> w_calls w' \<and>
     w_db w' = fold (x_Others x) [w_calls w..<w_calls w'] (w_db w)"

lemma only_others_refl: "only_others x w w"
  by (simp add: only_others_def)

lemma only_others_trans: "only_others x a b \<Longrightarrow> only_others x b c \<Longrightarrow> only_others x a c"
proof -
  assume ab: "only_others x a b" and bc: "only_others x b c"
  then have "[w_calls a..<w_calls c] = [w_calls a..<w_calls b] @ [w_calls b..<w_calls c]"
    by (metis only_others_def le_add_diff_inverse upt_add_eq_append)
  then show ?thesis using ab bc by (simp add: only_others_def)
qed

text \<open>What a rejected call does: an error reply mentioning the revocation, or no reply at all.\<close>

definition turned_away :: "'t setting \<Rightarrow> 't world \<Rightarrow> 't world \<times> ((nat \<times> string) + 'a) \<Rightarrow> bool" where
  "turned_away x w r \<longleftrightarrow> only_others x w (fst r) \<and> w_calls (fst r) = Suc (w_calls w) \<and>
     (\<exists>e. snd r = Inl e \<and> fst e \<noteq> 409 \<and> (x_Net x (w_calls w) = Delivered \<longrightarrow> isRevokedError e))"

lemma call_turned_away:
  assumes "h (w_calls w) (x_Others x (w_calls w) (w_db w)) = (x_Others x (w_calls w) (w_db w), Fail 401 ''agent revoked'')"
  shows "turned_away x w (call x h w)"
proof -
  have "isRevokedError (401, ''server '' @ itoa (int 401) @ '': '' @ ''agent revoked'')" by code_simp
  then show ?thesis
    using assms by (auto simp: turned_away_def only_others_def call_def Let_def split: delivery.split)
qed


lemma turned_away_db: "turned_away x w r \<Longrightarrow> w_db (fst r) = x_Others x (w_calls w) (w_db w)"
  by (simp add: turned_away_def only_others_def)

definition stays_rejected :: "'t setting \<Rightarrow> bool" where
  "stays_rejected x \<longleftrightarrow> (\<forall>n d. rejected x d \<longrightarrow> rejected x (x_Others x n d))"

lemma rejected_calls:
  assumes "stays_rejected x" and "rejected x (w_db w)"
  shows "turned_away x w (ClientHeartbeat x v w)" and "turned_away x w (ClientPendingRuns x w)"
    and "turned_away x w (ClientPendingRestores x w)"
proof -
  have "rejected x (x_Others x (w_calls w) (w_db w))" using assms by (simp add: stays_rejected_def)
  then have r: "AgentAuth (x_Bcrypt x) (bearer x) (Some (x_Agent x)) (x_Others x (w_calls w) (w_db w)) = Inl (401, ''agent revoked'')"
    by (simp add: rejected_def)
  show "turned_away x w (ClientHeartbeat x v w)" unfolding ClientHeartbeat_def
    by (rule call_turned_away) (simp add: as_agent_def r)
  show "turned_away x w (ClientPendingRuns x w)" unfolding ClientPendingRuns_def
    by (rule call_turned_away) (simp add: PendingRuns_def authenticateAgent_eq r)
  show "turned_away x w (ClientPendingRestores x w)" unfolding ClientPendingRestores_def
    by (rule call_turned_away) (simp add: PendingRestores_def authenticateAgent_eq r)
qed

definition unanswered :: "'t setting \<Rightarrow> 't world \<Rightarrow> 't world \<Rightarrow> bool" where
  "unanswered x w w' \<longleftrightarrow> (\<forall>i. w_calls w \<le> i \<and> i < w_calls w' \<longrightarrow> x_Net x i \<noteq> Delivered)"

lemma unanswered_refl: "unanswered x w w"
  by (auto simp: unanswered_def)

lemma unanswered_Suc: "w_calls w' = Suc (w_calls w) \<Longrightarrow> unanswered x w w' \<longleftrightarrow> x_Net x (w_calls w) \<noteq> Delivered"
  by (auto simp: unanswered_def less_Suc_eq_le dest: le_antisym)

lemma unanswered_trans: "unanswered x a b \<Longrightarrow> unanswered x b c \<Longrightarrow> unanswered x a c"
  unfolding unanswered_def by (meson linorder_not_le)

lemma turned_awayD:
  assumes "turned_away x w r" and "stays_rejected x" and "rejected x (w_db w)"
  obtains e where "snd r = Inl e" "fst e \<noteq> 409" "only_others x w (fst r)" "rejected x (w_db (fst r))"
    "isRevokedError e \<or> unanswered x w (fst r)" "w_calls (fst r) = Suc (w_calls w)"
  using assms turned_away_db [OF assms(1)] that
  by (auto simp: turned_away_def stays_rejected_def unanswered_Suc)

lemma poll_rejected:
  assumes "stays_rejected x" and "rejected x (w_db w)" and poll: "pollOnce x w = (w', stop)"
  shows "only_others x w w' \<and> rejected x (w_db w') \<and> (stop \<or> unanswered x w w') \<and>
    (\<not> x_Stop x (w_calls w) \<and> x_Net x (w_calls w) = Delivered \<longrightarrow> stop)"
proof (cases "x_Stop x (w_calls w)")
  case True
  then show ?thesis using poll assms(2) by (simp add: pollOnce_def only_others_refl unanswered_refl)
next
  case False
  obtain w1 e1 where c1: "ClientHeartbeat x (x_Version x) w = (w1, Inl e1)" "only_others x w w1" "rejected x (w_db w1)"
      "isRevokedError e1 \<or> unanswered x w w1" "w_calls w1 = Suc (w_calls w)"
    using turned_awayD [OF rejected_calls(1) [OF assms(1,2)] assms(1,2)] by (metis prod.collapse)
  have first: "isRevokedError e1" if "x_Net x (w_calls w) = Delivered"
    using c1(4,5) that by (auto simp: unanswered_def)
  show ?thesis
  proof (cases "isRevokedError e1")
    case True
    then show ?thesis using poll False c1 by (simp add: pollOnce_def)
  next
    case hb: False
    then have u1: "unanswered x w w1" using c1(4) by blast
    obtain w2 e2 where c2: "ClientPendingRuns x w1 = (w2, Inl e2)" "only_others x w1 w2" "rejected x (w_db w2)"
        "isRevokedError e2 \<or> unanswered x w1 w2"
      using turned_awayD [OF rejected_calls(2) [OF assms(1) c1(3)] assms(1) c1(3)] by (metis prod.collapse)
    obtain w3 e3 where c3: "ClientPendingRestores x w2 = (w3, Inl e3)" "only_others x w2 w3" "rejected x (w_db w3)"
        "isRevokedError e3 \<or> unanswered x w2 w3"
      using turned_awayD [OF rejected_calls(3) [OF assms(1) c2(3)] assms(1) c2(3)] by (metis prod.collapse)
    have "w' = w3" "stop = (isRevokedError e2 \<or> isRevokedError e3)"
      using poll False c1(1) hb c2(1) c3(1) by (auto simp: pollOnce_def pollBackups_def pollRestores_def noteRevoked_def)
    then show ?thesis
      using c1 c2 c3 u1 hb first only_others_trans unanswered_trans by metis
  qed
qed

text \<open>C26. A revoked agent goes quiet: as long as its credential stays revoked it claims nothing, touches neither
  its machine nor any record of the server, and its loop ends with the first answer that reaches it.\<close>

theorem revoked_agent_stops:
  assumes "stays_rejected x" and "rejected x (w_db w)" and "run_loop x n w = (w', stopped)"
  shows "only_others x w w' \<and> (stopped \<or> unanswered x w w') \<and>
    (0 < n \<and> \<not> x_Stop x (w_calls w) \<and> x_Net x (w_calls w) = Delivered \<longrightarrow> stopped)"
  using assms(2,3)
proof (induction n arbitrary: w)
  case 0
  then show ?case by (simp add: only_others_refl unanswered_refl)
next
  case (Suc n)
  obtain w1 stop where p: "pollOnce x w = (w1, stop)" by (rule prod.exhaust)
  note q = poll_rejected [OF assms(1) Suc.prems(1) p]
  show ?case
  proof (cases "stop \<or> x_Stop x (w_calls w1)")
    case True
    then show ?thesis using Suc.prems(2) p q by (auto split: if_splits)
  next
    case False
    then have "run_loop x n w1 = (w', stopped)" using Suc.prems(2) p by simp
    then have "only_others x w1 w' \<and> (stopped \<or> unanswered x w1 w')" using Suc.IH [of w1] q by blast
    then show ?thesis using False q only_others_trans unanswered_trans by blast
  qed
qed

theorem revoked_agent_stops_witness:
  "snd (run_loop toy_setting 3 (toy_world\<lparr>w_db := (run_db RunRunning)\<lparr>db_agents := [sample_agent\<lparr>ag_RevokedAt := Some 1\<rparr>]\<rparr>\<rparr>))"
proof -
  let ?w = "toy_world\<lparr>w_db := (run_db RunRunning)\<lparr>db_agents := [sample_agent\<lparr>ag_RevokedAt := Some 1\<rparr>]\<rparr>\<rparr>"
  obtain w' stopped where r: "run_loop toy_setting 3 ?w = (w', stopped)" by (rule prod.exhaust)
  have s: "stays_rejected toy_setting" by (simp add: stays_rejected_def toy_setting_def)
  have j: "rejected toy_setting (w_db ?w)" unfolding rejected_def by code_simp
  have "stopped"
    using revoked_agent_stops [OF s j r] by (simp add: toy_setting_def)
  then show ?thesis using r by simp
qed

end
