(* ===== verification/Settle.thy ===== *)
theory Settle
  imports Work
begin

text \<open>
  Progress of a backup: when the server is reachable and nobody else touches the database, a run that an agent
  executes reaches a final status (\<^verbatim>\<open>agent/internal/agent/runner.go\<close> against the status handler of
  \<^verbatim>\<open>server/internal/handlers/backup_run.go\<close>).
\<close>

subsection \<open>An undisturbed backup ends\<close>

definition undisturbed :: "'t setting \<Rightarrow> bool" where
  "undisturbed x \<longleftrightarrow> (\<forall>n. x_Net x n = Delivered \<and> x_Faults x n = no_faults \<and> (\<forall>d. x_Others x n d = d))"

text \<open>The agent is authenticated and the run is its own, in status \<open>s\<close>.\<close>

definition live_run :: "'t setting \<Rightarrow> uuid \<Rightarrow> run_status \<Rightarrow> db \<Rightarrow> bool" where
  "live_run x rid s d \<longleftrightarrow> db_wf d \<and>
     (\<exists>ag. AgentAuth (x_Bcrypt x) (bearer x) (Some (x_Agent x)) d = Inr ag \<and> ID ag = x_Agent x) \<and>
     (\<exists>r\<in>set (db_runs d). live r \<and> ID r = rid \<and> run_AgentID r = x_Agent x \<and> run_Status r = s)"

lemma AgentAuth_agents: "db_agents d' = db_agents d \<Longrightarrow> AgentAuth b h i d' = AgentAuth b h i d"
proof -
  assume e: "db_agents d' = db_agents d"
  show ?thesis unfolding AgentAuth_def e ..
qed

lemma UpdateStatus_agents [simp]: "db_agents (fst (UpdateStatus e flt enc now n1 n2 ag idp req d)) = db_agents d"
proof -
  have a: "db_agents (fst (RaiseAlert e flt nw nid i x)) = db_agents x" "db_agents (fst (ResolveAlerts flt nw o' t k x)) = db_agents x"
    for nw nid i x o' t k
    using RaiseAlert_frame ResolveAlerts_frame by (simp_all add: only_alerts_def)
  show ?thesis
    by (simp add: UpdateStatus_def report_commit_def report_progress_def after_completed_def after_failed_def Let_def a
        split: report_plan.split option.split)
qed

lemma report_outcome:
  assumes "live_run x rid s d" and ag: "ID ag = x_Agent x"
    and res_def: "res = UpdateStatus e no_faults enc now n1 n2 ag (Some rid) (Some q) d"
  shows "fst res = d \<and> (\<exists>n m. snd res = Fail n m) \<and>
      \<not> (good_counters q \<and> rq_StoragePath q = '''' \<and> rq_DataKey q = '''' \<and> CanTransition s (rq_Status q)) \<or>
    (\<exists>c. snd res = Reply 200 c) \<and> live_run x rid (rq_Status q) (fst res)"
proof -
  obtain r where r: "r \<in> set (db_runs d)" "live r" "ID r = rid" "run_AgentID r = x_Agent x" "run_Status r = s"
    and wf: "db_wf d" and auth: "\<exists>ag. AgentAuth (x_Bcrypt x) (bearer x) (Some (x_Agent x)) d = Inr ag \<and> ID ag = x_Agent x"
    using assms(1) by (auto simp: live_run_def)
  have rwf: "run_index.wf (db_runs d)" using wf by (simp add: db_wf_def)
  have find: "find_agent_run (ID ag) rid d = Some r" using find_run_eq(1) [OF rwf r(1,2)] r ag by simp
  have wf': "db_wf (fst res)" using UpdateStatus_step wf unfolding res_def db_step_def by blast
  have keep: "live_run x rid s' (fst res)" if "r' \<in> set (db_runs (fst res))" "live r'" "ID r' = rid" "run_AgentID r' = x_Agent x"
      "run_Status r' = s'" for r' s'
    using that wf' auth unfolding live_run_def res_def by (auto simp: AgentAuth_agents [OF UpdateStatus_agents])
  show ?thesis
  proof (cases "report_check ag (Some rid) (Some q) d")
    case (Refuse n m)
    then have "\<not> (good_counters q \<and> rq_StoragePath q = '''' \<and> CanTransition s (rq_Status q))"
      using find r(5) by (auto simp: report_check_def good_counters_def reported_path_ok_def split: if_splits)
    then show ?thesis using Refuse by (simp add: res_def UpdateStatus_def)
  next
    case Echo
    then have "rq_Status q = s" "fst res = d"
      using find r(5) by (auto simp: report_check_def res_def UpdateStatus_def split: if_splits)
    then show ?thesis using Echo keep [of r] r by (auto simp: res_def UpdateStatus_def)
  next
    case (Progress r' q')
    note p = report_check_ProgressD [OF Progress]
    then have e: "r' = r" "q' = q" "rq_Status q = s" using find r(3,5) by auto
    have runs: "db_runs (fst res) = map (\<lambda>y. if y = r then (progress_row q r)\<lparr>UpdatedAt := now\<rparr> else y) (db_runs d)"
      using update_by_id [OF rwf r(1,2)] by (simp add: res_def UpdateStatus_def Progress report_progress_def e)
    have "live_run x rid (rq_Status q) (fst res)"
      using r e(3) by (intro keep [of "(progress_row q r)\<lparr>UpdatedAt := now\<rparr>"])
        (auto simp: runs progress_row_def live_def)
    then show ?thesis using Progress by (auto simp: res_def UpdateStatus_def)
  next
    case (Advance r' q')
    note a = report_check_AdvanceD [OF Advance]
    then have e: "r' = r" "q' = q" using find r(3) by auto
    note adv = Advance [unfolded e]
    show ?thesis
    proof (cases "rq_DataKey q \<noteq> '''' \<and> enc (rq_DataKey q) = None")
      case True
      then show ?thesis using adv by (simp add: res_def UpdateStatus_def report_commit_def)
    next
      case False
      then obtain w where w: "rq_DataKey q = '''' \<and> w = None \<or> rq_DataKey q \<noteq> '''' \<and> (\<exists>c. enc (rq_DataKey q) = Some c \<and> w = Some c)"
        by (cases "rq_DataKey q = ''''") auto
      note eff = advance_effect [where enc = enc, OF rwf adv w, of no_faults e now n1 n2]
      let ?r = "(advance_row now r q w r)\<lparr>UpdatedAt := now, run_FailureCategory :=
          (if rq_Status q = RunFailed then classifyFailure (rq_ErrorMessage q) else run_FailureCategory r)\<rparr>"
      have e1: "res = (fst res, Reply 200 (run_CancelRequested r))"
        and e2: "db_runs (fst res) = map (\<lambda>y. if y = r then ?r else y) (db_runs d)"
        using eff unfolding res_def by (simp_all add: no_faults_def)
      have "live_run x rid (rq_Status q) (fst res)"
        using r by (intro keep [of ?r]) (auto simp: e2 live_def advance_row_def Let_def split: option.splits)
      then show ?thesis using e1 by (metis snd_conv)
    qed
  qed
qed


text \<open>A status report of an undisturbed agent is either refused without effect or puts the run in the reported status;
  a plain report of a legal transition is never refused.\<close>

lemma report_effect:
  assumes und: "undisturbed x" and start: "live_run x rid s (w_db w)" and call: "UpdateRunStatus x rid q w = (w1, r)"
  shows "w_db w1 = w_db w \<and> (\<exists>e. r = Inl e) \<and>
      \<not> (good_counters q \<and> rq_StoragePath q = '''' \<and> rq_DataKey q = '''' \<and> CanTransition s (rq_Status q)) \<or>
    (\<exists>c. r = Inr c) \<and> live_run x rid (rq_Status q) (w_db w1)"
proof -
  let ?n = "w_calls w"
  obtain ag where ag: "AgentAuth (x_Bcrypt x) (bearer x) (Some (x_Agent x)) (w_db w) = Inr ag" "ID ag = x_Agent x"
    using start by (auto simp: live_run_def)
  let ?res = "UpdateStatus (x_Env x) no_faults (x_Enc x) (x_Now x ?n) (fst (x_Fresh x ?n)) (snd (x_Fresh x ?n)) ag (Some rid) (Some q) (w_db w)"
  have h: "status_handler x rid q ?n (w_db w) = ?res"
    using und by (simp add: status_handler_def as_agent_def ag(1) undisturbed_def)
  have n: "x_Net x ?n = Delivered" "x_Others x ?n (w_db w) = w_db w" using und by (simp_all add: undisturbed_def)
  have c: "w1 = w\<lparr>w_db := fst ?res, w_calls := Suc ?n\<rparr>"
    "r = (case snd ?res of Reply c a \<Rightarrow> if 400 \<le> c then Inl (c, ''server error'') else Inr a
          | Fail c m \<Rightarrow> Inl (c, ''server '' @ itoa (int c) @ '': '' @ m))"
    using call by (auto simp: UpdateRunStatus_def call_def Let_def n h split: prod.splits reply.splits)
  from report_outcome [OF start ag(2) refl, of "x_Env x" "x_Enc x" "x_Now x ?n" "fst (x_Fresh x ?n)" "snd (x_Fresh x ?n)" q]
  show ?thesis unfolding c by auto
qed

lemma plain_report:
  "good_counters (report_of s 0 0 0 m '''' '''' '''')" "rq_StoragePath (report_of s a b c m '''' k dk) = ''''"
  "rq_DataKey (report_of s a b c m p k '''') = ''''"
  by (simp_all add: report_of_def good_counters_def)

definition settled :: "'t setting \<Rightarrow> uuid \<Rightarrow> 't world \<Rightarrow> bool" where
  "settled x rid w \<longleftrightarrow> (\<exists>s. run_terminal s \<and> live_run x rid s (w_db w))"

lemma failRun_settles:
  assumes "undisturbed x" and "live_run x rid s (w_db w)" and "CanTransition s RunFailed"
  shows "settled x rid (fst (failRun x rid msg w))"
proof -
  obtain w1 r where "UpdateRunStatus x rid (report_of RunFailed 0 0 0 msg '''' '''' '''') w = (w1, r)" by (rule prod.exhaust)
  moreover from report_effect [OF assms(1,2) this] have "live_run x rid RunFailed (w_db w1)"
    using assms(3) by (auto simp: plain_report)
  ultimately show ?thesis by (auto simp: failRun_def settled_def run_terminal_def)
qed

lemma cancelRun_settles:
  assumes "undisturbed x" and "live_run x rid s (w_db w)" and "CanTransition s RunCancelled \<or> run_terminal s"
  shows "settled x rid (fst (cancelRun x rid w))"
proof -
  obtain w1 r where w1: "UpdateRunStatus x rid (report_of RunCancelled 0 0 0 '''' '''' '''' '''') w = (w1, r)" by (rule prod.exhaust)
  from report_effect [OF assms(1,2) w1]
  have "live_run x rid RunCancelled (w_db w1) \<or> w_db w1 = w_db w \<and> run_terminal s"
    using assms(3) by (auto simp: plain_report)
  then show ?thesis using assms(2) w1 by (auto simp: cancelRun_def settled_def run_terminal_def)
qed

lemma live_run_runs:
  "live_run x rid s (w_db w) \<Longrightarrow> live_run x rid s (w_db (w\<lparr>w_machine := m\<rparr>))" "settled x rid w \<Longrightarrow> settled x rid (w\<lparr>w_machine := m\<rparr>)"
  by (simp_all add: settled_def)

lemma report_stages_settles:
  assumes und: "undisturbed x" and q: "\<And>s. rq_Status (q s) = s"
    and run: "report_stages x st rid key q ss w = (w', e)" and e: "\<And>s. e \<noteq> NotReported s"
    and start: "live_run x rid s (w_db w)"
    and ss: "(s, ss) \<in> {(RunRunning, stages), (RunUploading, tl stages), (RunVerifying, tl (tl stages)), (RunCompleted, [])}"
  shows "settled x rid w'"
  using run start ss
proof (induction ss arbitrary: w s)
  case Nil
  then show ?case by (auto simp: stages_def settled_def run_terminal_def)
next
  case (Cons a ss)
  obtain w1 r where w1: "UpdateRunStatus x rid (q a) w = (w1, r)" by (rule prod.exhaust)
  show ?case
  proof (cases r)
    case (Inl err)
    then show ?thesis using Cons.prems(1) w1 e [of a] by auto
  next
    case (Inr flag)
    then have l: "live_run x rid a (w_db w1)" using report_effect [OF und Cons.prems(2) w1] q by auto
    let ?w2 = "on_machine (\<lambda>m. fst (pr_Delete st key m)) w1"
    have a: "CanTransition a RunCancelled \<or> run_terminal a" using Cons.prems(3) by (auto simp: stages_def run_terminal_def)
    show ?thesis
    proof (cases "cancelledByUser x rid flag w1")
      case True
      have "live_run x rid a (w_db ?w2)" using l by (simp add: on_machine_def)
      from cancelRun_settles [OF und this a] show ?thesis using Cons.prems(1) w1 Inr True by (simp split: prod.splits)
    next
      case False
      then show ?thesis using Cons.prems(1,3) w1 Inr by (intro Cons.IH [OF _ l]) (auto simp: stages_def)
    qed
  qed
qed

lemma push_progress_live:
  assumes "undisturbed x" and "live_run x rid RunRunning (w_db w)"
  shows "live_run x rid RunRunning (w_db (fst (push_progress x rid ns seen w)))"
  using assms(2)
proof (induction ns arbitrary: seen w)
  case (Cons n ns)
  obtain w1 r where w1: "UpdateRunStatus x rid (report_of RunRunning n 0 0 '''' '''' '''' '''') w = (w1, r)" by (rule prod.exhaust)
  have "live_run x rid RunRunning (w_db w1)" using report_effect [OF assms(1) Cons.prems w1] Cons.prems by auto
  then show ?case using Cons.IH [of w1] w1 by simp
qed simp

lemma register_live:
  assumes "undisturbed x" and "live_run x rid s (w_db w)"
  shows "live_run x rid s (w_db (fst (ClientRegisterArtifact x rid n sz c p w)))"
proof -
  let ?h = "\<lambda>k. as_agent x (\<lambda>ag. RegisterArtifact (x_Faults x k) (x_Now x k) (fst (x_Fresh x k)) ag (Some rid)
       (Some \<lparr>ar_Name = n, ar_Size = sz, ar_Checksum = c, ar_StoragePath = p\<rparr>))"
  have frame: "db_runs (fst (RegisterArtifact flt now nid ag idp req d)) = db_runs d"
    "db_agents (fst (RegisterArtifact flt now nid ag idp req d)) = db_agents d" for flt now nid ag idp req d
    by (simp_all add: RegisterArtifact_def Let_def split: option.splits if_splits)
  obtain ag where ag: "AgentAuth (x_Bcrypt x) (bearer x) (Some (x_Agent x)) (w_db w) = Inr ag" using assms(2) by (auto simp: live_run_def)
  have "live_run x rid s (fst (?h k (w_db w)))" for k
    using assms(2) RegisterArtifact_step unfolding live_run_def db_step_def
    by (simp add: as_agent_def ag frame AgentAuth_agents [OF frame(2)])
  then show ?thesis
    using call_db [of x ?h w] assms by (auto simp: ClientRegisterArtifact_def undisturbed_def)
qed


lemma settled_remove [simp]: "settled x rid (remove_files ps w) = settled x rid w"
  by (simp add: settled_def)

lemma store_payload_settles:
  assumes und: "undisturbed x" and start: "live_run x rid RunRunning (w_db w)"
    and run: "store_payload x st rid job pl sl w = (w', e)" and e: "\<And>s. e \<noteq> NotReported s"
  shows "settled x rid w'"
proof -
  let ?key = "BuildKey (jc_OrganizationID job) (jc_JobID job) rid (sl_Name sl)"
  consider (failed) msg m where "w' = fst (failRun x rid msg (w\<lparr>w_machine := m\<rparr>))"
    | (stored) info :: object_info and m where "report_stages x st rid ?key
          (\<lambda>s. report_of s (pl_Read pl) (pl_Compressed pl) (oi_Size info) '''' (oi_Location info) (sl_Checksum sl) (sl_DataKey sl))
          stages (fst (ClientRegisterArtifact x rid (sl_Name sl) (oi_Size info) (sl_Checksum sl) (oi_Location info)
             (w\<lparr>w_machine := m\<rparr>))) = (w', e)"
  proof (cases "if x_Io x ''open'' then None else file_at (snd (w_machine w)) (sl_Path sl)")
    case None
    have "failRun x rid ''open payload failed'' w = (w', e)" using run unfolding store_payload_def Let_def None by simp
    then show ?thesis using that(1) [of "''open payload failed''" "w_machine w"] by simp
  next
    case (Some data)
    obtain m r where sv: "store_and_verify st rid ?key data (sl_Checksum sl) (sl_Name sl) (w_machine w) = (m, r)" by (rule prod.exhaust)
    note u = run [unfolded store_payload_def Let_def Some option.case with_machine_def sv prod.case]
    show ?thesis
    proof (cases r)
      case (Inl msg)
      then have "failRun x rid msg (w\<lparr>w_machine := m\<rparr>) = (w', e)" using u by simp
      then show ?thesis using that(1) [of msg m] by simp
    next
      case (Inr info)
      obtain w2 y where reg: "ClientRegisterArtifact x rid (sl_Name sl) (oi_Size info) (sl_Checksum sl) (oi_Location info)
          (w\<lparr>w_machine := m\<rparr>) = (w2, y)" by (rule prod.exhaust)
      then show ?thesis using u Inr that(2) [of info m] by simp
    qed
  qed
  then show ?thesis
  proof cases
    case failed
    then show ?thesis using failRun_settles [OF und live_run_runs(1) [OF start]] by simp
  next
    case stored
    show ?thesis
      by (rule report_stages_settles [OF und _ stored e register_live [OF und live_run_runs(1) [OF start]]]) simp_all
  qed
qed



end
