(* ===== verification/Health.thy ===== *)
theory Health
  imports Scheduler
begin

text \<open>
  \<open>server/internal/services/health_monitor.go\<close>: agents that stopped reporting, runs whose agent
  vanished, missed backups, retention of runs and alerts, and the size baselines.  The monitor
  runs its six checks in order at every tick; \<open>monitor_pass\<close> composes them.

  Each check reads the clock once.  \<open>AddDate(0, 0, -n)\<close> is \<open>n\<close> days of 24 hours (the server's
  zone has no daylight saving).  \<open>ids k\<close> is the identifier drawn for the alert or baseline of
  row \<open>k\<close>.
\<close>

subsection \<open>Thresholds\<close>

record org_thresholds =
  offlineAfter :: duration
  missedMult :: int

definition loadThresholds :: "uuid \<Rightarrow> db \<Rightarrow> org_thresholds" where
  "loadThresholds org d =
     (case find_settings org d of
        None \<Rightarrow> \<lparr>offlineAfter = 3 * minute, missedMult = 2\<rparr>
      | Some s \<Rightarrow>
          \<lparr>offlineAfter = (if 1 \<le> ns_OfflineThresholdMin s \<and> ns_OfflineThresholdMin s \<le> 60
                           then ns_OfflineThresholdMin s * minute else 3 * minute),
           missedMult = (if 1 \<le> ns_MissedWindowMult s \<and> ns_MissedWindowMult s \<le> 24
                         then ns_MissedWindowMult s else 2)\<rparr>)"

subsection \<open>Agents that stopped reporting\<close>

definition offline_key :: "agent \<Rightarrow> string" where
  "offline_key a = ''agent-offline:'' @ ID a"

definition offline_input :: "agent \<Rightarrow> alert_input" where
  "offline_input a =
     \<lparr>in_OrgID = ag_OrganizationID a, in_Type = AlertAgentOffline, in_Title = ''Agent Offline'',
      in_Message = ''Agent '' @ ag_Name a @ '' stopped reporting'', in_BackupJobID = None,
      in_AgentID = Some (ID a), in_DedupKey = offline_key a, in_Severity = None,
      in_EmailSubject = ''[VaultGuard] Agent Offline: '' @ ag_Name a,
      in_EmailBody = ''Agent '' @ ag_Name a @ '' stopped reporting.'' @ nl @ nl
        @ ''Scheduled backups for its jobs will be missed until it reconnects.''\<rparr>"

definition recover_agent :: "faults \<Rightarrow> time \<Rightarrow> agent \<Rightarrow> db \<Rightarrow> db" where
  "recover_agent flt now a d =
     fst (ResolveAlerts flt now (ag_OrganizationID a) AlertAgentOffline (offline_key a) d)"

definition check_agent :: "env \<Rightarrow> faults \<Rightarrow> (uuid \<Rightarrow> uuid) \<Rightarrow> time \<Rightarrow> agent \<Rightarrow> db \<Rightarrow> db" where
  "check_agent e flt ids now a d =
     (let th = loadThresholds (ag_OrganizationID a) d in
      if (case ag_LastSeenAt a of None \<Rightarrow> False | Some s \<Rightarrow> now - s < offlineAfter th) then d
      else if ag_Status a = AgentOffline then d
      else
        let d1 = d\<lparr>db_agents := update_rows now (\<lambda>x. ID x = ID a) (\<lambda>x. x\<lparr>ag_Status := AgentOffline\<rparr>) (db_agents d)\<rparr> in
        if affected (\<lambda>x. al_DedupKey x = Some (offline_key a) \<and> now - hour < CreatedAt x) (db_alerts d1) > 0
        then d1
        else emit (PublishPresence (ag_OrganizationID a) (ID a) AgentOffline)
               (fst (RaiseAlert e flt now (ids (ID a)) (offline_input a) d1)))"

definition checkAgents :: "env \<Rightarrow> faults \<Rightarrow> (uuid \<Rightarrow> uuid) \<Rightarrow> time \<Rightarrow> db \<Rightarrow> db" where
  "checkAgents e flt ids now d =
     (let alive = rows (\<lambda>a. ag_RevokedAt a = None \<and>
              (case ag_LastSeenAt a of None \<Rightarrow> False | Some s \<Rightarrow> now - 3 * minute \<le> s)) (db_agents d);
          d1 = fold (recover_agent flt now) alive d;
          agents = rows (\<lambda>a. ag_RevokedAt a = None \<and> ag_LastSeenAt a \<noteq> None) (db_agents d1)
      in fold (check_agent e flt ids now) agents d1)"

subsection \<open>Runs whose agent vanished\<close>

definition staleRunAfter :: duration where "staleRunAfter = 15 * minute"
definition agentGoneAfter :: duration where "agentGoneAfter = 3 * minute"

definition runDuration :: "time option \<Rightarrow> time \<Rightarrow> int" where
  "runDuration started now = (case started of None \<Rightarrow> 0 | Some s \<Rightarrow> whole_seconds (now - s))"

definition stale_status :: "backup_run \<Rightarrow> run_status" where
  "stale_status r = (if run_CancelRequested r then RunCancelled else RunFailed)"

definition stale_message :: "backup_run \<Rightarrow> string" where
  "stale_message r =
     (if run_CancelRequested r then ''agent stopped reporting after a cancel request; run marked cancelled''
      else ''agent stopped reporting; run marked failed by health monitor'')"

definition finalize_row :: "time \<Rightarrow> backup_run \<Rightarrow> backup_run \<Rightarrow> backup_run" where
  "finalize_row now r x =
     x\<lparr>run_Status := stale_status r, run_CompletedAt := Some now, run_ErrorMessage := stale_message r,
       run_FailureCategory := ''AGENT_OFFLINE'', run_DurationSeconds := runDuration (run_StartedAt r) now\<rparr>"

definition stale_input :: "backup_run \<Rightarrow> alert_input" where
  "stale_input r =
     \<lparr>in_OrgID = run_OrganizationID r, in_Type = AlertBackupFailed,
      in_Title = ''Backup Failed: agent lost'',
      in_Message = stale_message r @ '' (job run '' @ ID r @ '')'',
      in_BackupJobID = Some (run_BackupJobID r), in_AgentID = Some (run_AgentID r),
      in_DedupKey = ''backup-failed:run:'' @ ID r, in_Severity = None,
      in_EmailSubject = ''[VaultGuard] Backup Failed: agent lost'',
      in_EmailBody = stale_message r @ '' (job run '' @ ID r @ '').''\<rparr>"

definition check_stale_run :: "env \<Rightarrow> faults \<Rightarrow> (uuid \<Rightarrow> uuid) \<Rightarrow> time \<Rightarrow> backup_run \<Rightarrow> db \<Rightarrow> db" where
  "check_stale_run e flt ids now r d =
     (case first_row (\<lambda>a. ID a = run_AgentID r) (db_agents d) of
        None \<Rightarrow> d
      | Some a \<Rightarrow>
          if (case ag_LastSeenAt a of None \<Rightarrow> False | Some s \<Rightarrow> now - s < agentGoneAfter) then d
          else if flt ''stale run'' then d
          else
            let d1 = d\<lparr>db_runs := update_rows now (\<lambda>x. ID x = ID r \<and> run_Status x = run_Status r)
                   (finalize_row now r) (db_runs d)\<rparr>
            in publishRun r (stale_status r) (fst (RaiseAlert e flt now (ids (ID r)) (stale_input r) d1)))"

definition checkStaleRuns :: "env \<Rightarrow> faults \<Rightarrow> (uuid \<Rightarrow> uuid) \<Rightarrow> time \<Rightarrow> db \<Rightarrow> db" where
  "checkStaleRuns e flt ids now d =
     fold (check_stale_run e flt ids now)
       (rows (\<lambda>r. run_Status r \<in> {RunRunning, RunUploading, RunVerifying} \<and> UpdatedAt r < now - staleRunAfter)
          (db_runs d)) d"

subsection \<open>Missed backups\<close>

definition missedWindow :: "cron \<Rightarrow> string \<Rightarrow> int \<Rightarrow> time \<Rightarrow> duration" where
  "missedWindow cron expr multiplier now =
     (let m = (if multiplier < 1 then 2 else multiplier); fallback = m * 25 * hour div 2 in
      case cron expr of
        None \<Rightarrow> fallback
      | Some sched \<Rightarrow>
          let next1 = sched ''Local'' now; next2 = sched ''Local'' next1; interval = next2 - next1 in
          if interval \<le> 0 then fallback else m * interval)"

definition missed_key :: "backup_job \<Rightarrow> string" where
  "missed_key j = ''backup-missed:'' @ ID j"

definition missed_input :: "backup_job \<Rightarrow> alert_input" where
  "missed_input j =
     \<lparr>in_OrgID = job_OrganizationID j, in_Type = AlertBackupMissed, in_Title = ''Backup Missed'',
      in_Message = ''No successful backup within expected window for job: '' @ job_Name j,
      in_BackupJobID = Some (ID j), in_AgentID = None, in_DedupKey = missed_key j, in_Severity = None,
      in_EmailSubject = ''[VaultGuard] Backup Missed: '' @ job_Name j,
      in_EmailBody = ''No successful backup within the expected window for job: '' @ job_Name j @ ''.'' @ nl @ nl
        @ ''Check the agent and storage target.''\<rparr>"

definition missed_since :: "cron \<Rightarrow> time \<Rightarrow> backup_job \<Rightarrow> db \<Rightarrow> time" where
  "missed_since cron now j d =
     (let eff = EffectivePolicy j in
      now - (if rp_RPOTargetMinutes eff > 0 then rp_RPOTargetMinutes eff * minute
             else missedWindow cron (rp_CronExpr eff) (missedMult (loadThresholds (job_OrganizationID j) d)) now))"

definition completed_since :: "uuid \<Rightarrow> time \<Rightarrow> db \<Rightarrow> nat" where
  "completed_since jid since d =
     affected (\<lambda>r. run_BackupJobID r = jid \<and> run_Status r = RunCompleted \<and>
       (case run_CompletedAt r of None \<Rightarrow> False | Some c \<Rightarrow> since < c)) (db_runs d)"

definition check_missed :: "env \<Rightarrow> faults \<Rightarrow> cron \<Rightarrow> (uuid \<Rightarrow> uuid) \<Rightarrow> time \<Rightarrow> backup_job \<Rightarrow> db \<Rightarrow> db" where
  "check_missed e flt cron ids now j d =
     (let eff = EffectivePolicy j in
      if \<not> rp_Enabled eff \<or> rp_CronExpr eff = '''' then d
      else if completed_since (ID j) (missed_since cron now j d) d = 0
      then fst (RaiseAlert e flt now (ids (ID j)) (missed_input j) d)
      else fst (ResolveAlerts flt now (job_OrganizationID j) AlertBackupMissed (missed_key j) d))"

definition checkMissedBackups :: "env \<Rightarrow> faults \<Rightarrow> cron \<Rightarrow> (uuid \<Rightarrow> uuid) \<Rightarrow> time \<Rightarrow> db \<Rightarrow> db" where
  "checkMissedBackups e flt cron ids now d =
     fold (check_missed e flt cron ids now) (map (preload_job d) (rows job_Enabled (db_jobs d))) d"


subsection \<open>Retention\<close>

text \<open>Paths of the run and of its artifacts, each once, empty ones skipped.\<close>

definition run_paths :: "backup_run \<Rightarrow> db \<Rightarrow> string list" where
  "run_paths r d =
     rev (remdups (rev (filter (\<lambda>p. p \<noteq> '''')
       (run_StoragePath r # map art_StoragePath (rows (\<lambda>a. art_BackupRunID a = ID r) (db_artifacts d))))))"

definition deleteRunFiles :: "backup_run \<Rightarrow> db \<Rightarrow> db" where
  "deleteRunFiles r d =
     (case first_row (\<lambda>t. ID t = run_StorageTargetID r) (db_targets d) of
        None \<Rightarrow> d
      | Some t \<Rightarrow> if st_Type t \<noteq> StorageLocal then d
                  else fold (\<lambda>p. emit (RemoveFile p)) (run_paths r d) d)"

definition purge_run :: "time \<Rightarrow> backup_run \<Rightarrow> db \<Rightarrow> db" where
  "purge_run now r d =
     (let d1 = deleteRunFiles r d;
          artifacts = rows (\<lambda>a. art_BackupRunID a = ID r) (db_artifacts d1)
      in d1\<lparr>db_chunks := fold (\<lambda>a. delete_rows now (\<lambda>c. chk_ArtifactID c = ID a)) artifacts (db_chunks d1),
            db_artifacts := delete_rows now (\<lambda>a. art_BackupRunID a = ID r) (db_artifacts d1),
            db_runs := delete_rows now (\<lambda>x. ID x = ID r) (db_runs d1)\<rparr>)"

definition completed_before :: "time \<Rightarrow> backup_run \<Rightarrow> bool" where
  "completed_before cutoff r \<longleftrightarrow> (case run_CompletedAt r of None \<Rightarrow> False | Some c \<Rightarrow> c < cutoff)"

definition expired_runs :: "time \<Rightarrow> backup_job \<Rightarrow> db \<Rightarrow> backup_run list" where
  "expired_runs now j d =
     (let cutoff = now - job_RetentionDays j * day in
      rows (\<lambda>r. run_BackupJobID r = ID j \<and> run_Status r = RunCompleted \<and> completed_before cutoff r) (db_runs d) @
      rows (\<lambda>r. run_BackupJobID r = ID j \<and> run_Status r \<in> {RunFailed, RunCancelled} \<and> completed_before cutoff r)
        (db_runs d))"

definition retain_job :: "time \<Rightarrow> backup_job \<Rightarrow> db \<Rightarrow> db" where
  "retain_job now j d = fold (purge_run now) (expired_runs now j d) d"

definition enforceRetention :: "time \<Rightarrow> db \<Rightarrow> db" where
  "enforceRetention now d = fold (retain_job now) (rows (\<lambda>j. job_RetentionDays j > 0) (db_jobs d)) d"

definition enforceAlertRetention :: "faults \<Rightarrow> int \<Rightarrow> time \<Rightarrow> db \<Rightarrow> db" where
  "enforceAlertRetention flt days now d =
     (if days \<le> 0 \<or> flt ''delete alerts'' then d
      else d\<lparr>db_alerts := filter (\<lambda>a. \<not> (al_Status a \<in> {AlertResolved, AlertAcked} \<and> CreatedAt a < now - days * day))
             (db_alerts d)\<rparr>)"

subsection \<open>Size baselines\<close>

text \<open>The ten most recent sizes; PostgreSQL puts a missing completion time first in descending order.\<close>

definition recent_sizes :: "uuid \<Rightarrow> db \<Rightarrow> int list" where
  "recent_sizes jid d =
     (let rs = rows (\<lambda>r. run_BackupJobID r = jid \<and> run_Status r = RunCompleted \<and> run_BytesUploaded r > 0) (db_runs d)
      in take 10 (map run_BytesUploaded
           (filter (\<lambda>r. run_CompletedAt r = None) rs @
            sort_key (\<lambda>r. case run_CompletedAt r of None \<Rightarrow> 0 | Some t \<Rightarrow> - t)
              (filter (\<lambda>r. run_CompletedAt r \<noteq> None) rs))))"

definition baseline_clash :: "backup_size_baseline \<Rightarrow> backup_size_baseline \<Rightarrow> bool" where
  "baseline_clash x r \<longleftrightarrow> bl_BackupJobID x = bl_BackupJobID r"

definition update_baseline :: "(uuid \<Rightarrow> uuid) \<Rightarrow> time \<Rightarrow> backup_job \<Rightarrow> db \<Rightarrow> db" where
  "update_baseline ids now j d =
     (let sizes = recent_sizes (ID j) d in
      if length sizes < 3 then d
      else
        let avg = sum_list sizes div int (length sizes) in
        (case first_row (\<lambda>b. bl_BackupJobID b = ID j) (db_baselines d) of
           None \<Rightarrow>
             (case create_row now baseline_clash
                \<lparr>ID = ids (ID j), CreatedAt = now, UpdatedAt = now, DeletedAt = None, bl_BackupJobID = ID j,
                 bl_AvgBytes = avg, bl_SampleCount = int (length sizes), bl_LastUpdatedAt = now\<rparr> (db_baselines d) of
                None \<Rightarrow> d | Some t \<Rightarrow> d\<lparr>db_baselines := t\<rparr>)
         | Some b \<Rightarrow> d\<lparr>db_baselines := update_rows now (\<lambda>x. ID x = ID b)
               (\<lambda>x. x\<lparr>bl_AvgBytes := avg, bl_SampleCount := int (length sizes), bl_LastUpdatedAt := now\<rparr>)
               (db_baselines d)\<rparr>))"

definition updateSizeBaselines :: "(uuid \<Rightarrow> uuid) \<Rightarrow> time \<Rightarrow> db \<Rightarrow> db" where
  "updateSizeBaselines ids now d = fold (update_baseline ids now) (rows (\<lambda>j. True) (db_jobs d)) d"

definition monitor_pass ::
    "env \<Rightarrow> faults \<Rightarrow> cron \<Rightarrow> (uuid \<Rightarrow> uuid) \<Rightarrow> int \<Rightarrow> time \<Rightarrow> db \<Rightarrow> db" where
  "monitor_pass e flt cron ids days now d =
     updateSizeBaselines ids now (enforceAlertRetention flt days now (enforceRetention now
       (checkMissedBackups e flt cron ids now (checkStaleRuns e flt ids now (checkAgents e flt ids now d)))))"

subsection \<open>A monitor pass is a step of the database\<close>

lemma check_agent_step: "db_step d (check_agent e flt ids now a d)"
proof -
  have off: "db_step d (d\<lparr>db_agents := update_rows now P (\<lambda>x. x\<lparr>ag_Status := AgentOffline\<rparr>) (db_agents d)\<rparr>)" for P
    by (intro agents_step_db_step agents_step_update) (auto simp: agent_later_def live_def)
  show ?thesis
    by (auto simp: check_agent_def Let_def off intro: db_step_trans [OF off RaiseAlert_step] split: option.split)
qed

lemma recover_agent_step: "db_step d (recover_agent flt now a d)"
  by (simp add: recover_agent_def ResolveAlerts_step)

lemma checkAgents_step: "db_step d (checkAgents e flt ids now d)"
  unfolding checkAgents_def Let_def
  by (rule db_step_trans [OF fold_step [of "recover_agent flt now"] fold_step])
     (simp_all add: recover_agent_step check_agent_step)

lemma finalize_step:
  assumes "run_Status r \<in> {RunRunning, RunUploading, RunVerifying}"
  shows "db_step d (d\<lparr>db_runs := update_rows now (\<lambda>x. ID x = ID r \<and> run_Status x = run_Status r)
            (finalize_row now r) (db_runs d)\<rparr>)"
proof (rule db_step_update_runs)
  fix x :: backup_run assume "live x" "ID x = ID r \<and> run_Status x = run_Status r"
  then show "run_later x (finalize_row now r x)"
    using assms by (intro run_later_step)
      (auto simp: finalize_row_def stale_status_def run_identity_def run_terminal_def)
qed (auto simp: finalize_row_def stale_status_def run_identity_def run_ok_def run_terminal_def)

lemma check_stale_run_step:
  assumes "run_Status r \<in> {RunRunning, RunUploading, RunVerifying}"
  shows "db_step d (check_stale_run e flt ids now r d)"
  using finalize_step [OF assms]
  by (auto simp: check_stale_run_def Let_def split: option.split intro: db_step_trans [OF _ RaiseAlert_step])

lemma fold_step_on: "(\<And>x d. x \<in> set xs \<Longrightarrow> db_step d (f x d)) \<Longrightarrow> db_step d (fold f xs d)"
proof (induction xs arbitrary: d)
  case (Cons x xs)
  have "db_step d (f x d)" using Cons.prems by simp
  moreover have "db_step (f x d) (fold f xs (f x d))" using Cons by simp
  ultimately show ?case by (simp add: db_step_trans)
qed simp

lemma checkStaleRuns_step: "db_step d (checkStaleRuns e flt ids now d)"
  unfolding checkStaleRuns_def by (rule fold_step_on) (rule check_stale_run_step, simp add: rows_iff)

lemma check_missed_step: "db_step d (check_missed e flt cron ids now j d)"
  by (auto simp: check_missed_def Let_def RaiseAlert_step ResolveAlerts_step)

lemma checkMissedBackups_step: "db_step d (checkMissedBackups e flt cron ids now d)"
  unfolding checkMissedBackups_def by (rule fold_step) (rule check_missed_step)

lemma deleteRunFiles_tables [simp]:
  "db_runs (deleteRunFiles r d) = db_runs d" "db_artifacts (deleteRunFiles r d) = db_artifacts d"
  "db_chunks (deleteRunFiles r d) = db_chunks d" "db_jobs (deleteRunFiles r d) = db_jobs d"
  "db_targets (deleteRunFiles r d) = db_targets d"
proof -
  have "db_runs (fold (\<lambda>p. emit (RemoveFile p)) ps d) = db_runs d \<and>
      db_artifacts (fold (\<lambda>p. emit (RemoveFile p)) ps d) = db_artifacts d \<and>
      db_chunks (fold (\<lambda>p. emit (RemoveFile p)) ps d) = db_chunks d \<and>
      db_jobs (fold (\<lambda>p. emit (RemoveFile p)) ps d) = db_jobs d \<and>
      db_targets (fold (\<lambda>p. emit (RemoveFile p)) ps d) = db_targets d" for ps
    by (induction ps arbitrary: d) auto
  then show "db_runs (deleteRunFiles r d) = db_runs d" "db_artifacts (deleteRunFiles r d) = db_artifacts d"
    "db_chunks (deleteRunFiles r d) = db_chunks d" "db_jobs (deleteRunFiles r d) = db_jobs d"
    "db_targets (deleteRunFiles r d) = db_targets d"
    by (simp_all add: deleteRunFiles_def split: option.split)
qed

lemma deleteRunFiles_step: "db_step d (deleteRunFiles r d)"
  by (auto simp: deleteRunFiles_def split: option.split intro!: fold_step)

lemma delete_chunks_step:
  "db_step d (d\<lparr>db_chunks := fold (\<lambda>a. delete_rows now (\<lambda>c. chk_ArtifactID c = ID a)) as (db_chunks d)\<rparr>)"
proof (rule db_step_chunks)
  have one: "chunk_table.evolves t (delete_rows now P t)" for P t
    by (rule chunk_table.evolves_delete) (auto simp: chunk_later_def)
  show "chunk_table.evolves (db_chunks d) (fold (\<lambda>a. delete_rows now (\<lambda>c. chk_ArtifactID c = ID a)) as (db_chunks d))"
    by (rule fold_inv [where P = "chunk_table.evolves (db_chunks d)"])
       (auto intro: chunk_table.evolves_refl chunk_table.evolves_trans [OF _ one])
  show "chunk_index.wf (fold (\<lambda>a. delete_rows now (\<lambda>c. chk_ArtifactID c = ID a)) as (db_chunks d))"
    if "chunk_index.wf (db_chunks d)"
    by (rule fold_inv [where P = chunk_index.wf]) (auto intro: chunk_index.wf_delete that)
qed

lemma delete_artifacts_step: "db_step d (d\<lparr>db_artifacts := delete_rows now P (db_artifacts d)\<rparr>)"
  by (intro db_step_artifacts artifact_table.evolves_delete artifact_index.wf_delete)
     (auto simp: artifact_later_def live_def)

lemma delete_runs_step: "db_step d (d\<lparr>db_runs := delete_rows now P (db_runs d)\<rparr>)"
  by (intro db_step_runs run_table.evolves_delete run_index.wf_delete) (auto intro: run_later_delete)

lemma purge_run_step: "db_step d (purge_run now r d)"
proof -
  let ?d1 = "deleteRunFiles r d"
  let ?d2 = "?d1\<lparr>db_chunks := fold (\<lambda>a. delete_rows now (\<lambda>c. chk_ArtifactID c = ID a))
      (rows (\<lambda>a. art_BackupRunID a = ID r) (db_artifacts ?d1)) (db_chunks ?d1)\<rparr>"
  let ?d3 = "?d2\<lparr>db_artifacts := delete_rows now (\<lambda>a. art_BackupRunID a = ID r) (db_artifacts ?d2)\<rparr>"
  have "db_step d ?d3"
    by (rule db_step_trans [OF db_step_trans [OF deleteRunFiles_step delete_chunks_step] delete_artifacts_step])
  then have "db_step d (?d3\<lparr>db_runs := delete_rows now (\<lambda>x. ID x = ID r) (db_runs ?d3)\<rparr>)"
    by (rule db_step_trans [OF _ delete_runs_step])
  then show ?thesis by (simp add: purge_run_def Let_def)
qed

lemma enforceRetention_step: "db_step d (enforceRetention now d)"
  unfolding enforceRetention_def
  by (rule fold_step) (auto simp: retain_job_def intro: fold_step purge_run_step)

lemma alerts_wf_filter: "alerts_wf t \<Longrightarrow> alerts_wf (filter P t)"
  by (auto simp: alerts_wf_def unique_ids_def single_firing_def distinct_map_filter)

lemma enforceAlertRetention_step: "db_step d (enforceAlertRetention flt days now d)"
  by (rule only_alerts_db_step) (auto simp: enforceAlertRetention_def alerts_wf_filter)

lemma update_baseline_step: "db_step d (update_baseline ids now j d)"
proof -
  have "db_step d (d\<lparr>db_baselines := t\<rparr>)" for t
    by (simp add: db_step_def db_later_def db_wf_def tables_refl)
  then show ?thesis by (auto simp: update_baseline_def Let_def split: option.split)
qed

lemma updateSizeBaselines_step: "db_step d (updateSizeBaselines ids now d)"
  unfolding updateSizeBaselines_def by (rule fold_step) (rule update_baseline_step)

lemma monitor_pass_step: "db_step d (monitor_pass e flt cron ids days now d)"
  unfolding monitor_pass_def
  by (intro db_step_trans [OF _ updateSizeBaselines_step] db_step_trans [OF _ enforceAlertRetention_step]
      db_step_trans [OF _ enforceRetention_step] db_step_trans [OF _ checkMissedBackups_step]
      db_step_trans [OF _ checkStaleRuns_step] checkAgents_step)


subsection \<open>One pass over a snapshot of a table\<close>

text \<open>
  A check reads a list of rows once and then treats them one by one.  When treating row \<open>r\<close>
  rewrites at most that row, and leaves alone whatever the decision \<open>C\<close> depends on (\<open>I\<close>), the pass
  rewrites each listed row for which \<open>C\<close> holds, and nothing else.
\<close>

lemma fold_rows:
  fixes tab :: "db \<Rightarrow> 'r base_scheme list"
  assumes step: "\<And>r x. r \<in> set rs \<Longrightarrow> r \<in> set (tab x) \<Longrightarrow> unique_ids (tab x) \<Longrightarrow> I x \<Longrightarrow>
       tab (F r x) = map (\<lambda>y. if y = r \<and> C r then g r else y) (tab x) \<and> I (F r x)"
    and id: "\<And>r. ID (g r) = ID r"
    and "distinct rs" "set rs \<subseteq> set (tab d)" "unique_ids (tab d)" "I d"
  shows "tab (fold F rs d) = map (\<lambda>y. if y \<in> set rs \<and> C y then g y else y) (tab d) \<and> I (fold F rs d)"
  using assms
proof (induction rs arbitrary: d)
  case (Cons r rs)
  let ?h = "\<lambda>y. if y = r \<and> C r then g r else y"
  have r: "r \<in> set (tab d)" and I: "I d" and u: "unique_ids (tab d)" using Cons.prems by auto
  have one: "tab (F r d) = map ?h (tab d)" and I1: "I (F r d)"
    using Cons.prems(1) [of r d] r u I by simp_all
  have ids: "map ID (map ?h (tab d)) = map ID (tab d)" using id by auto
  then have u1: "unique_ids (tab (F r d))" using u unfolding one unique_ids_def by metis
  have apart: "ID y \<noteq> ID r" if "y \<in> set rs" for y
    using unique_ids_eq [OF u, of y r] Cons.prems(3,4) r that by auto
  have sub: "set rs \<subseteq> set (tab (F r d))"
  proof
    fix y assume y: "y \<in> set rs"
    then have "y \<noteq> r" using Cons.prems(3) by auto
    moreover have "y \<in> set (tab d)" using Cons.prems(4) y by auto
    ultimately have "y \<in> set (tab d)" "?h y = y" by simp_all
    then have "?h y \<in> ?h ` set (tab d)" by blast
    then show "y \<in> set (tab (F r d))" unfolding one set_map \<open>?h y = y\<close> .
  qed
  have IH: "tab (fold F rs (F r d)) = map (\<lambda>y. if y \<in> set rs \<and> C y then g y else y) (tab (F r d)) \<and>
      I (fold F rs (F r d))"
  proof (rule Cons.IH [OF _ id _ sub u1 I1])
    show "distinct rs" using Cons.prems(3) by simp
    fix s x assume "s \<in> set rs" "s \<in> set (tab x)" "unique_ids (tab x)" "I x"
    then show "tab (F s x) = map (\<lambda>y. if y = s \<and> C s then g s else y) (tab x) \<and> I (F s x)"
      by (intro Cons.prems(1)) auto
  qed
  have "(if ?h y \<in> set rs \<and> C (?h y) then g (?h y) else ?h y) = (if y \<in> set (r # rs) \<and> C y then g y else y)"
    if "y \<in> set (tab d)" for y
  proof (cases "y = r")
    case True
    have "g r \<notin> set rs" using apart id by auto
    then show ?thesis using True apart by auto
  qed simp
  then show ?case using IH unfolding fold_simps one map_map by (auto intro!: map_cong)
qed simp

lemma unique_ids_distinct: "unique_ids t \<Longrightarrow> distinct t"
  unfolding unique_ids_def distinct_map by simp

subsection \<open>Properties\<close>

text \<open>A run is lost when it has made no progress for a quarter of an hour and its agent is silent.\<close>

definition agent_silent :: "db \<Rightarrow> time \<Rightarrow> backup_run \<Rightarrow> bool" where
  "agent_silent d now r \<longleftrightarrow>
     (case first_row (\<lambda>a. ID a = run_AgentID r) (db_agents d) of
        None \<Rightarrow> False
      | Some a \<Rightarrow> (case ag_LastSeenAt a of None \<Rightarrow> True | Some s \<Rightarrow> agentGoneAfter \<le> now - s))"

definition run_lost :: "db \<Rightarrow> time \<Rightarrow> backup_run \<Rightarrow> bool" where
  "run_lost d now r \<longleftrightarrow> live r \<and> run_Status r \<in> {RunRunning, RunUploading, RunVerifying} \<and>
     UpdatedAt r < now - staleRunAfter \<and> agent_silent d now r"

text \<open>C21. The stale-run check finalises exactly the lost runs: each becomes cancelled if its user had asked for
  that and failed otherwise, with completion time, duration and reason; every other run, however
  slow, is left exactly as it was.\<close>

theorem stale_runs_exact:
  assumes wf: "unique_ids (db_runs d)" and flt: "\<not> flt ''stale run''"
  shows "db_runs (checkStaleRuns e flt ids now d) =
     map (\<lambda>r. if run_lost d now r then (finalize_row now r r)\<lparr>UpdatedAt := now\<rparr> else r) (db_runs d)"
proof -
  let ?Q = "\<lambda>r. run_Status r \<in> {RunRunning, RunUploading, RunVerifying} \<and> UpdatedAt r < now - staleRunAfter"
  let ?g = "\<lambda>r. (finalize_row now r r)\<lparr>UpdatedAt := now\<rparr>"
  have frame: "db_runs (fst (RaiseAlert e flt now nid x y)) = db_runs y"
    "db_agents (fst (RaiseAlert e flt now nid x y)) = db_agents y" for nid x y
    using RaiseAlert_frame by (simp_all add: only_alerts_def)
  have step: "db_runs (check_stale_run e flt ids now r x) =
        map (\<lambda>y. if y = r \<and> agent_silent d now r then ?g r else y) (db_runs x) \<and>
      db_agents (check_stale_run e flt ids now r x) = db_agents d"
    if r: "r \<in> set (rows ?Q (db_runs d))" "r \<in> set (db_runs x)" "unique_ids (db_runs x)" and "db_agents x = db_agents d" for r x
  proof -
    have "live r" using r(1) by (simp add: rows_iff)
    then have up: "update_rows now (\<lambda>y. ID y = ID r \<and> run_Status y = run_Status r) (finalize_row now r) (db_runs x) =
        map (\<lambda>y. if y = r then ?g r else y) (db_runs x)"
      using r(2,3) by (intro update_unique) auto
    show ?thesis
      using flt that(4)
      by (auto simp: check_stale_run_def agent_silent_def Let_def frame up split: option.split)
  qed
  have "db_runs (checkStaleRuns e flt ids now d) =
      map (\<lambda>y. if y \<in> set (rows ?Q (db_runs d)) \<and> agent_silent d now y then ?g y else y) (db_runs d)"
    unfolding checkStaleRuns_def
    by (rule fold_rows [where I = "\<lambda>x. db_agents x = db_agents d", THEN conjunct1])
       (use step unique_ids_distinct [OF wf] wf in \<open>auto simp: rows_def finalize_row_def\<close>)
  also have "\<dots> = map (\<lambda>r. if run_lost d now r then ?g r else r) (db_runs d)"
    by (rule map_cong) (auto simp: rows_iff run_lost_def)
  finally show ?thesis .
qed

definition stuck_run :: backup_run where
  "stuck_run = sample_run\<lparr>run_Status := RunUploading, run_CancelRequested := True\<rparr>"

theorem stale_runs_exact_witness:
  "map run_Status (db_runs (checkStaleRuns sample_env no_faults (\<lambda>k. k) (60 * minute) (sched_db [stuck_run]))) = [RunCancelled]"
proof -
  have "run_lost (sched_db [stuck_run]) (60 * minute) stuck_run" by code_simp
  moreover have "unique_ids (db_runs (sched_db [stuck_run]))" by (simp add: unique_ids_def sched_db_def)
  ultimately show ?thesis
    by (subst stale_runs_exact)
       (simp_all add: no_faults_def sched_db_def finalize_row_def stale_status_def stuck_run_def)
qed


text \<open>An agent is overdue when it has reported before, is not revoked, and its silence has reached its
  organization's threshold.\<close>

definition agent_overdue :: "db \<Rightarrow> time \<Rightarrow> agent \<Rightarrow> bool" where
  "agent_overdue d now a \<longleftrightarrow> live a \<and> ag_RevokedAt a = None \<and>
     (case ag_LastSeenAt a of None \<Rightarrow> False
      | Some s \<Rightarrow> offlineAfter (loadThresholds (ag_OrganizationID a) d) \<le> now - s)"

lemma loadThresholds_settings:
  "db_settings x = db_settings d \<Longrightarrow> loadThresholds org x = loadThresholds org d"
  by (simp add: loadThresholds_def find_settings_def)

lemma RaiseAlert_tables [simp]:
  "db_runs (fst (RaiseAlert e flt now nid i d)) = db_runs d"
  "db_agents (fst (RaiseAlert e flt now nid i d)) = db_agents d"
  "db_settings (fst (RaiseAlert e flt now nid i d)) = db_settings d"
  "db_jobs (fst (RaiseAlert e flt now nid i d)) = db_jobs d"
  using RaiseAlert_frame [of d e flt now nid i] by (simp_all add: only_alerts_def)

lemma ResolveAlerts_tables [simp]:
  "db_runs (fst (ResolveAlerts flt now org typ key d)) = db_runs d"
  "db_agents (fst (ResolveAlerts flt now org typ key d)) = db_agents d"
  "db_settings (fst (ResolveAlerts flt now org typ key d)) = db_settings d"
  "db_jobs (fst (ResolveAlerts flt now org typ key d)) = db_jobs d"
  using ResolveAlerts_frame [of d flt now org "typ" key] by (simp_all add: only_alerts_def)

lemma recover_fold:
  "db_agents (fold (recover_agent flt now) xs d) = db_agents d \<and>
   db_settings (fold (recover_agent flt now) xs d) = db_settings d"
  by (induction xs arbitrary: d) (simp_all add: recover_agent_def)

text \<open>The agent check takes offline exactly the overdue agents that are still marked online, each by its
  organization's own threshold; no other agent row changes.\<close>

theorem agents_offline_exact:
  assumes "unique_ids (db_agents d)"
  shows "db_agents (checkAgents e flt ids now d) =
     map (\<lambda>a. if agent_overdue d now a \<and> ag_Status a \<noteq> AgentOffline
              then a\<lparr>ag_Status := AgentOffline, UpdatedAt := now\<rparr> else a) (db_agents d)"
proof -
  let ?Q = "\<lambda>a. ag_RevokedAt a = None \<and> ag_LastSeenAt a \<noteq> None"
  let ?g = "\<lambda>a. a\<lparr>ag_Status := AgentOffline, UpdatedAt := now\<rparr>"
  let ?C = "\<lambda>a. agent_overdue d now a \<and> ag_Status a \<noteq> AgentOffline"
  let ?I = "\<lambda>x. db_settings x = db_settings d"
  define d1 where "d1 = fold (recover_agent flt now) (rows (\<lambda>a. ag_RevokedAt a = None \<and>
      (case ag_LastSeenAt a of None \<Rightarrow> False | Some s \<Rightarrow> now - 3 * minute \<le> s)) (db_agents d)) d"
  have d1: "db_agents d1 = db_agents d" "?I d1" unfolding d1_def by (simp_all add: recover_fold)
  have step: "db_agents (check_agent e flt ids now a x) = map (\<lambda>y. if y = a \<and> ?C a then ?g a else y) (db_agents x) \<and>
      ?I (check_agent e flt ids now a x)"
    if a: "a \<in> set (rows ?Q (db_agents d))" "a \<in> set (db_agents x)" "unique_ids (db_agents x)" and I: "?I x" for a x
  proof -
    have q: "live a" "?Q a" using a(1) by (simp_all add: rows_iff)
    have up: "update_rows now (\<lambda>y. ID y = ID a) (\<lambda>y. y\<lparr>ag_Status := AgentOffline\<rparr>) (db_agents x) =
        map (\<lambda>y. if y = a then ?g a else y) (db_agents x)"
      using a(2,3) q(1) by (intro update_unique) auto
    show ?thesis
      using q by (auto simp: check_agent_def Let_def up I agent_overdue_def loadThresholds_settings [OF I])
  qed
  have "db_agents (checkAgents e flt ids now d) = db_agents (fold (check_agent e flt ids now) (rows ?Q (db_agents d1)) d1)"
    by (simp add: checkAgents_def Let_def d1_def)
  also have "\<dots> = map (\<lambda>y. if y \<in> set (rows ?Q (db_agents d1)) \<and> ?C y then ?g y else y) (db_agents d1)"
    by (rule fold_rows [where I = ?I, THEN conjunct1])
       (use step unique_ids_distinct [OF assms] assms d1 in \<open>auto simp: rows_def\<close>)
  also have "\<dots> = map (\<lambda>a. if ?C a then ?g a else a) (db_agents d)"
    unfolding d1 by (rule map_cong) (auto simp: rows_iff agent_overdue_def split: option.splits)
  finally show ?thesis .
qed

theorem agents_offline_exact_witness:
  "map ag_Status (db_agents (checkAgents sample_env no_faults (\<lambda>k. k) (60 * minute) (sched_db []))) =
     [AgentOffline, AgentOffline]"
proof -
  have "unique_ids (db_agents (sched_db []))" using sched_db_wf [OF run_index.wf_Nil] by (simp add: db_wf_def agents_wf_def)
  moreover have "map ag_Status (map (\<lambda>a. if agent_overdue (sched_db []) (60 * minute) a \<and> ag_Status a \<noteq> AgentOffline
              then a\<lparr>ag_Status := AgentOffline, UpdatedAt := 60 * minute\<rparr> else a) (db_agents (sched_db []))) =
     [AgentOffline, AgentOffline]" by code_simp
  ultimately show ?thesis by (simp only: agents_offline_exact)
qed

lemma fold_delete_rows:
  "fold (\<lambda>r. delete_rows now (P r)) rs t = delete_rows now (\<lambda>x. \<exists>r\<in>set rs. P r x) t"
proof (induction rs arbitrary: t)
  case Nil
  then show ?case by (simp add: delete_rows_def)
next
  case (Cons r rs)
  show ?case unfolding fold_simps o_apply Cons
    by (auto simp: delete_rows_def live_def intro!: map_cong)
qed

lemma purge_tables:
  "db_runs (purge_run now r d) = delete_rows now (\<lambda>x. ID x = ID r) (db_runs d)"
  "db_artifacts (purge_run now r d) = delete_rows now (\<lambda>a. art_BackupRunID a = ID r) (db_artifacts d)"
  "db_targets (purge_run now r d) = db_targets d"
  by (simp_all add: purge_run_def Let_def)

lemma purge_all:
  "db_runs (fold (purge_run now) rs d) = delete_rows now (\<lambda>x. ID x \<in> ID ` set rs) (db_runs d)"
  "db_artifacts (fold (purge_run now) rs d) = delete_rows now (\<lambda>a. art_BackupRunID a \<in> ID ` set rs) (db_artifacts d)"
proof -
  have "db_runs (fold (purge_run now) rs d) = fold (\<lambda>r. delete_rows now (\<lambda>x. ID x = ID r)) rs (db_runs d)"
    by (induction rs arbitrary: d) (simp_all add: purge_tables)
  then show "db_runs (fold (purge_run now) rs d) = delete_rows now (\<lambda>x. ID x \<in> ID ` set rs) (db_runs d)"
    by (simp add: fold_delete_rows image_iff)
  have "db_artifacts (fold (purge_run now) rs d) =
      fold (\<lambda>r. delete_rows now (\<lambda>a. art_BackupRunID a = ID r)) rs (db_artifacts d)"
    by (induction rs arbitrary: d) (simp_all add: purge_tables)
  then show "db_artifacts (fold (purge_run now) rs d) = delete_rows now (\<lambda>a. art_BackupRunID a \<in> ID ` set rs) (db_artifacts d)"
    by (simp add: fold_delete_rows image_iff)
qed

definition expired :: "time \<Rightarrow> backup_job \<Rightarrow> backup_run \<Rightarrow> bool" where
  "expired now j r \<longleftrightarrow> live r \<and> run_BackupJobID r = ID j \<and> run_terminal (run_Status r) \<and>
     (case run_CompletedAt r of None \<Rightarrow> False | Some c \<Rightarrow> c < now - job_RetentionDays j * day)"

lemma expired_runs_iff: "r \<in> set (expired_runs now j d) \<longleftrightarrow> r \<in> set (db_runs d) \<and> expired now j r"
  by (auto simp: expired_runs_def Let_def rows_iff expired_def run_terminal_def completed_before_def)

lemma retain_runs:
  assumes "unique_ids (db_runs d)"
  shows "db_runs (retain_job now j d) = map (\<lambda>r. if expired now j r then r\<lparr>DeletedAt := Some now\<rparr> else r) (db_runs d)"
  unfolding retain_job_def purge_all delete_rows_def
proof (rule map_cong [OF refl])
  fix x assume x: "x \<in> set (db_runs d)"
  have "ID x \<in> ID ` set (expired_runs now j d) \<longleftrightarrow> expired now j x"
    unfolding image_iff Bex_def expired_runs_iff using x unique_ids_eq [OF assms] by metis
  then show "(if live x \<and> ID x \<in> ID ` set (expired_runs now j d) then x\<lparr>DeletedAt := Some now\<rparr> else x) =
      (if expired now j x then x\<lparr>DeletedAt := Some now\<rparr> else x)"
    by (auto simp: expired_def)
qed

lemma not_expired_deleted [simp]: "\<not> expired now j (r\<lparr>DeletedAt := Some v\<rparr>)"
  by (simp add: expired_def live_def)

lemma retain_all:
  assumes "unique_ids (db_runs d)"
  shows "db_runs (fold (retain_job now) js d) =
     map (\<lambda>r. if \<exists>j\<in>set js. expired now j r then r\<lparr>DeletedAt := Some now\<rparr> else r) (db_runs d)"
  using assms
proof (induction js arbitrary: d)
  case (Cons j js)
  let ?h = "\<lambda>r. if expired now j r then r\<lparr>DeletedAt := Some now\<rparr> else r"
  have one: "db_runs (retain_job now j d) = map ?h (db_runs d)" by (rule retain_runs [OF Cons.prems])
  have "map ID (map ?h (db_runs d)) = map ID (db_runs d)" by simp
  then have u: "unique_ids (db_runs (retain_job now j d))" using Cons.prems unfolding one unique_ids_def by metis
  show ?case unfolding fold_simps Cons.IH [OF u] one map_map by (rule map_cong) auto
qed simp

text \<open>Retention deletes exactly the expired runs: those of a job with a retention period, in a final state,
  completed before the period began.  Runs in flight, runs without a completion time and runs of
  other jobs stay as they are.\<close>

theorem retention_exact:
  assumes "unique_ids (db_runs d)"
  shows "db_runs (enforceRetention now d) =
     map (\<lambda>r. if \<exists>j\<in>set (db_jobs d). live j \<and> job_RetentionDays j > 0 \<and> expired now j r
              then r\<lparr>DeletedAt := Some now\<rparr> else r) (db_runs d)"
  unfolding enforceRetention_def retain_all [OF assms]
  by (rule map_cong) (auto simp: rows_iff)

definition retention_db :: db where
  "retention_db = (sched_db [failed_run, (sample_run\<lparr>ID := ''r2'', run_Status := RunCancelled\<rparr>)])
     \<lparr>db_jobs := [sample_job\<lparr>job_RetentionDays := 1\<rparr>]\<rparr>"

theorem retention_exact_witness:
  "map (\<lambda>r. (ID r, live r)) (db_runs (enforceRetention (3 * day) retention_db)) = [(''r1'', False), (''r2'', True)]"
proof -
  have u: "unique_ids (db_runs retention_db)" by code_simp
  have "map (\<lambda>r. (ID r, live r)) (map (\<lambda>r. if \<exists>j\<in>set (db_jobs retention_db). live j \<and> job_RetentionDays j > 0 \<and> expired (3 * day) j r
              then r\<lparr>DeletedAt := Some (3 * day)\<rparr> else r) (db_runs retention_db)) = [(''r1'', False), (''r2'', True)]"
    by code_simp
  then show ?thesis by (simp only: retention_exact [OF u])
qed

end
