(* ===== verification/Server.thy ===== *)
theory Server
  imports Health Restores Jobs
begin

text \<open>
  The server as a state machine: one step is one request of a handler, one scheduler tick or one pass of
  the health monitor, with whatever arguments, clock, faults and fresh ids it may see.  Interleavings of
  clients, agents and background loops are the paths of this relation.
\<close>

inductive server_step :: "db \<Rightarrow> db \<Rightarrow> bool" where
  token_minted: "server_step d (fst (GenerateEnrollmentToken sha now dr org idp req d))"
| key_minted: "server_step d (fst (GenerateRegistrationToken sha now dr org d))"
| token_revoked: "server_step d (fst (RevokeToken flt now org idp d))"
| enrolled: "server_step d (fst (Enroll sha bh now token mid ereq d))"
| registered: "server_step d (fst (Register sha bh now token mid auid u rreq d))"
| heartbeat: "server_step d (fst (Heartbeat now a v d))"
| agent_revoked: "server_step d (fst (Revoke now org idp d))"
| agent_renamed: "server_step d (fst (Rename flt now org idp name d))"
| agent_deleted: "server_step d (fst (DeleteAgent flt now org idp d))"
| token_rotated: "server_step d (fst (RotateToken bh now token auid u org idp d))"
| job_created: "server_step d (fst (CreateJob parse flt now nid snid org jreq d))"
| job_updated: "server_step d (fst (UpdateJob parse now snid org idp jreq d))"
| job_deleted: "server_step d (fst (DeleteJob now org idp d))"
| job_switched: "server_step d (fst (setEnabled now on org idp d))"
| run_requested: "server_step d (fst (RunNow flt now nid org idp d))"
| policy_created: "server_step d (fst (CreatePolicy cron flt now nid org preq d))"
| policy_updated: "server_step d (fst (UpdatePolicy cron flt now org idp preq d))"
| policy_deleted: "server_step d (fst (DeletePolicy flt now org idp d))"
| runs_polled: "server_step d (fst (PendingRuns ok auth hdr now d))"
| run_claimed: "server_step d (fst (ClaimRun ok flt dec auth hdr now idp d))"
| run_reported: "server_step d (fst (UpdateStatus e flt enc now nid nid2 a idp sreq d))"
| run_cancelled: "server_step d (fst (Cancel wb now auid who org idp d))"
| run_verified: "server_step d (fst (Verify e flt fs now nid org idp d))"
| artifact_registered: "server_step d (fst (RegisterArtifact flt now nid a idp areq d))"
| chunk_registered: "server_step d (fst (RegisterChunk flt now nid a idp creq d))"
| restore_created: "server_step d (fst (CreateRestore flt now nid org qreq d))"
| restores_polled: "server_step d (fst (PendingRestores ok dec auth hdr now d))"
| restore_claimed: "server_step d (fst (ClaimRestore ok flt dec auth hdr now idp d))"
| restore_reported: "server_step d (fst (UpdateRestore now a idp ureq d))"
| alert_acknowledged: "server_step d (fst (Ack flt now org who idp d))"
| alert_resolved: "server_step d (fst (Resolve flt now org idp d))"
| alert_read: "server_step d (fst (MarkRead flt now org idp d))"
| alerts_read: "server_step d (fst (MarkAllRead flt now org d))"
| ticked: "server_step d (snd (tick flt cron tz_ok ids now (prev, d)))"
| monitored: "server_step d (monitor_pass e flt cron ids days now d)"

lemmas agent_steps = GenerateEnrollmentToken_step GenerateRegistrationToken_step RevokeToken_step Enroll_step
  Register_step Heartbeat_step Revoke_step Rename_step DeleteAgent_step RotateToken_step

lemmas job_steps = CreateJob_step UpdateJob_step DeleteJob_step setEnabled_step RunNow_step CreatePolicy_step
  UpdatePolicy_step DeletePolicy_step

lemmas restore_steps = CreateRestore_step PendingRestores_step ClaimRestore_step UpdateRestore_step

lemmas alert_steps = Ack_step Resolve_step MarkRead_step MarkAllRead_step

lemmas handlers_db_step = agent_steps [THEN agents_step_db_step] job_steps run_steps restore_steps alert_steps monitor_pass_step

lemma server_step_db_step: "server_step d d' \<Longrightarrow> db_step d d'"
proof (induction rule: server_step.induct)
  case (ticked d flt cron tz_ok ids now prev)
  show ?case using tick_step [of "(prev, d)"] by simp
qed (simp_all only: handlers_db_step)

lemma steps_db_step: "server_step\<^sup>*\<^sup>* d d' \<Longrightarrow> db_step d d'"
  by (induction rule: rtranclp_induct) (auto intro: db_step_trans dest: server_step_db_step)

lemma steps_wf: "server_step\<^sup>*\<^sup>* d d' \<Longrightarrow> db_wf d \<Longrightarrow> db_wf d' \<and> db_later d d'"
  using steps_db_step by (simp add: db_step_def)

subsection \<open>One run in flight per job\<close>

lemma evolved_rows_le:
  assumes "list_all2 R t t'" and "\<And>a b. R a b \<Longrightarrow> P b \<Longrightarrow> P a"
  shows "length (filter P t') \<le> length (filter P t)"
  using assms by (induction rule: list_all2_induct) (auto simp: le_SucI)

lemma in_flight_before: "CanTransition\<^sup>*\<^sup>* s s' \<Longrightarrow> run_in_flight s' \<Longrightarrow> run_in_flight s"
proof (erule converse_rtranclpE)
  show "run_in_flight s" if "CanTransition s x" for x
    using that by (cases s) (auto simp: run_in_flight_def)
qed simp

lemma in_flight_le:
  assumes "run_table.evolves (db_runs d) (db_runs d')" and "length (db_runs d') = length (db_runs d)"
  shows "in_flight_count j d' \<le> in_flight_count j d"
proof -
  have "list_all2 run_later (db_runs d) (db_runs d')"
    using assms by (auto simp: run_table.evolves_def list_all2_conv_all_nth)
  moreover have "live a \<and> run_BackupJobID a = j \<and> run_in_flight (run_Status a)"
    if "run_later a b" "live b \<and> run_BackupJobID b = j \<and> run_in_flight (run_Status b)" for a b
    using that in_flight_before [of "run_Status a" "run_Status b"] unfolding run_later_def run_identity_def live_def
    by (metis Pair_inject option.distinct(1))
  ultimately show ?thesis
    unfolding in_flight_count_def affected_def rows_def filter_filter by (rule evolved_rows_le)
qed

definition keeps_runs :: "db \<Rightarrow> db \<Rightarrow> bool" where
  "keeps_runs d d' \<longleftrightarrow> length (db_runs d') = length (db_runs d)"

lemma keeps_single_flight: "db_step d d' \<Longrightarrow> keeps_runs d d' \<Longrightarrow> db_wf d \<Longrightarrow> single_flight d \<Longrightarrow> single_flight d'"
  by (rule single_flightI, rule order_trans [OF in_flight_le in_flight_le1])
     (auto simp: db_step_def db_later_def keeps_runs_def)

lemma keeps_runs_refl [simp]: "keeps_runs d d"
  by (simp add: keeps_runs_def)

lemma keeps_runs_eq: "db_runs d' = db_runs d \<Longrightarrow> keeps_runs d d'"
  by (simp add: keeps_runs_def)

lemma length_update_rows [simp]: "length (update_rows now P f t) = length t" 
  by (simp add: update_rows_def)

lemma agents_keep_runs: "agents_step d d' \<Longrightarrow> keeps_runs d d'"
  by (simp add: agents_step_def only_agents_def keeps_runs_def)

lemma RaiseAlert_runs [simp]: "db_runs (fst (RaiseAlert e flt now nid i x)) = db_runs x"
  and ResolveAlerts_runs [simp]: "db_runs (fst (ResolveAlerts flt now org typ key x)) = db_runs x"
  using RaiseAlert_frame ResolveAlerts_frame by (simp_all add: only_alerts_def)

lemma job_handlers_keep_runs:
  "keeps_runs d (fst (CreateJob parse flt now nid snid org jreq d))"
  "keeps_runs d (fst (UpdateJob parse now snid org idp jreq d))"
  "keeps_runs d (fst (DeleteJob now org idp d))"
  "keeps_runs d (fst (setEnabled now on org idp d))"
  subgoal by (simp add: keeps_runs_def CreateJob_def create_schedule_def Let_def split: option.split sum.split)
  subgoal by (simp add: keeps_runs_def UpdateJob_def put_schedule_def create_schedule_def Let_def split: option.split sum.split)
  subgoal by (simp add: keeps_runs_def DeleteJob_def Let_def split: option.split)
  subgoal by (simp add: keeps_runs_def setEnabled_def Let_def split: option.split)
  done

lemma policy_handlers_keep_runs:
  "keeps_runs d (fst (CreatePolicy cron flt now nid org preq d))"
  "keeps_runs d (fst (UpdatePolicy cron flt now org idp preq d))"
  "keeps_runs d (fst (DeletePolicy flt now org idp d))"
  subgoal by (simp add: keeps_runs_def CreatePolicy_def store_policy_def Let_def split: option.split sum.split)
  subgoal by (simp add: keeps_runs_def UpdatePolicy_def Let_def split: option.split sum.split)
  subgoal by (simp add: keeps_runs_def DeletePolicy_def detach_policy_def Let_def split: option.split)
  done

lemma run_handlers_keep_runs:
  "keeps_runs d (fst (PendingRuns ok auth hdr now d))"
  "keeps_runs d (fst (ClaimRun ok flt dec auth hdr now idp d))"
  "keeps_runs d (fst (Cancel wb now auid who org idp d))"
  "keeps_runs d (fst (RegisterArtifact flt now nid a idp areq d))"
  "keeps_runs d (fst (RegisterChunk flt now nid a idp creq d))"
  "keeps_runs d (fst (Verify e flt fs now nid org idp d))"
  subgoal by (simp add: keeps_runs_def PendingRuns_def Let_def split: sum.split)
  subgoal by (simp add: keeps_runs_def ClaimRun_def Let_def split: sum.split option.split)
  subgoal by (simp add: keeps_runs_def Cancel_def Let_def publishRun_def emit_def add_audit_def split: option.split)
  subgoal by (simp add: keeps_runs_def RegisterArtifact_def Let_def split: option.split)
  subgoal by (simp add: keeps_runs_def RegisterChunk_def Let_def split: option.split)
  subgoal by (simp add: keeps_runs_def Verify_def stamp_artifacts_def Let_def split: option.split)
  done

lemma UpdateStatus_keeps_runs: "keeps_runs d (fst (UpdateStatus e flt enc now nid nid2 a idp sreq d))"
  by (simp add: keeps_runs_def UpdateStatus_def report_commit_def report_progress_def after_completed_def after_failed_def
      publishRun_def emit_def Let_def split: report_plan.split option.split)

lemma restore_handlers_keep_runs:
  "keeps_runs d (fst (CreateRestore flt now nid org qreq d))"
  "keeps_runs d (fst (PendingRestores ok dec auth hdr now d))"
  "keeps_runs d (fst (ClaimRestore ok flt dec auth hdr now idp d))"
  "keeps_runs d (fst (UpdateRestore now a idp ureq d))"
  subgoal by (simp add: keeps_runs_def CreateRestore_def restore_insert_def emit_def Let_def split: restore_plan.split option.split)
  subgoal by (simp add: keeps_runs_def PendingRestores_def Let_def split: sum.split)
  subgoal by (simp add: keeps_runs_def ClaimRestore_def Let_def emit_def split: sum.split option.split)
  subgoal by (simp add: keeps_runs_def UpdateRestore_def restore_commit_def Let_def emit_def split: option.split restore_verdict.split)
  done

lemma alert_handlers_keep_runs:
  "keeps_runs d (fst (Ack flt now org who idp d))"
  "keeps_runs d (fst (Resolve flt now org idp d))"
  "keeps_runs d (fst (MarkRead flt now org idp d))"
  "keeps_runs d (fst (MarkAllRead flt now org d))"
  subgoal unfolding Ack_def using transition_frame by (simp add: keeps_runs_def only_alerts_def)
  subgoal unfolding Resolve_def using transition_frame by (simp add: keeps_runs_def only_alerts_def)
  subgoal by (simp add: keeps_runs_def MarkRead_def Let_def emit_def split: option.split)
  subgoal by (simp add: keeps_runs_def MarkAllRead_def Let_def emit_def)
  done

lemma keeps_runs_trans: "keeps_runs a b \<Longrightarrow> keeps_runs b c \<Longrightarrow> keeps_runs a c"
  by (simp add: keeps_runs_def)

lemma fold_keeps_runs: "(\<And>x d. keeps_runs d (f x d)) \<Longrightarrow> keeps_runs d (fold f xs d)"
  by (induction xs arbitrary: d) (auto intro: keeps_runs_trans)

lemma monitor_checks_keep_runs:
  "keeps_runs d (recover_agent flt now ag d)" "keeps_runs d (check_agent e flt ids now ag d)"
  "keeps_runs d (check_stale_run e flt ids now r d)" "keeps_runs d (check_missed e flt cron ids now j d)"
  "keeps_runs d (enforceAlertRetention flt days now d)" "keeps_runs d (update_baseline ids now j d)"
  subgoal by (simp add: keeps_runs_def recover_agent_def)
  subgoal by (simp add: keeps_runs_def check_agent_def emit_def Let_def)
  subgoal by (simp add: keeps_runs_def check_stale_run_def publishRun_def emit_def Let_def split: option.split)
  subgoal by (simp add: keeps_runs_def check_missed_def Let_def)
  subgoal by (simp add: keeps_runs_def enforceAlertRetention_def)
  subgoal by (simp add: keeps_runs_def update_baseline_def Let_def split: option.split)
  done

lemma deleteRunFiles_runs: "db_runs (deleteRunFiles r d) = db_runs d"
proof -
  have "db_runs (fold (\<lambda>p. emit (RemoveFile p)) ps d) = db_runs d" for ps
    by (induction ps arbitrary: d) (simp_all add: emit_def)
  then show ?thesis by (simp add: deleteRunFiles_def split: option.split)
qed

lemma purge_run_keeps_runs: "keeps_runs d (purge_run now r d)"
  by (simp add: keeps_runs_def purge_run_def Let_def delete_rows_def deleteRunFiles_runs)

lemma monitor_pass_keeps_runs: "keeps_runs d (monitor_pass e flt cron ids days now d)"
  unfolding monitor_pass_def updateSizeBaselines_def enforceRetention_def retain_job_def checkMissedBackups_def
    checkStaleRuns_def checkAgents_def Let_def
  by (intro keeps_runs_trans [OF _ monitor_checks_keep_runs(5)] keeps_runs_trans [OF _ fold_keeps_runs]
      fold_keeps_runs keeps_runs_refl monitor_checks_keep_runs purge_run_keeps_runs)

lemmas handlers_keep_runs = agent_steps [THEN agents_keep_runs] job_handlers_keep_runs policy_handlers_keep_runs
  run_handlers_keep_runs UpdateStatus_keeps_runs restore_handlers_keep_runs alert_handlers_keep_runs monitor_pass_keeps_runs

lemma server_step_single_flight:
  assumes "server_step d d'" and "db_wf d" and "single_flight d"
  shows "single_flight d'"
  using assms
proof (induction rule: server_step.induct)
  case (run_requested d flt now nid org idp)
  then show ?case by (simp add: RunNow_single)
next
  case (ticked d flt cron tz_ok ids now prev)
  then show ?case using tick_no_backlog [of "(prev, d)"] by simp
qed (rule keeps_single_flight, rule handlers_db_step, rule handlers_keep_runs, assumption, assumption)+

lemma steps_single_flight:
  "server_step\<^sup>*\<^sup>* d d' \<Longrightarrow> db_wf d \<Longrightarrow> single_flight d \<Longrightarrow> single_flight d'"
proof (induction rule: rtranclp_induct)
  case (step y z)
  then show ?case using server_step_single_flight [OF step(2)] steps_wf [OF step(1)] by blast
qed simp

subsection \<open>What every history of the server keeps\<close>

lemma empty_db_wf: "db_wf empty_db"
  by (simp add: db_wf_def empty_db_def agents_wf_def tokens_wf_def alerts_wf_def unique_ids_def single_firing_def
      run_index.wf_Nil artifact_index.wf_Nil chunk_index.wf_Nil restore_index.wf_Nil)


definition first_token :: db where
  "first_token = fst (GenerateEnrollmentToken sample_sha 5
     \<lparr>dr_AgentID = ''g1'', dr_TokenID = ''t1'', dr_Token = ''enroll'', dr_Suffix = ''1''\<rparr> ''o1'' (Some ''u1'') None empty_db)"



definition first_run :: db where
  "first_run = fst (RunNow no_faults 9 ''r8'' ''o1'' (Some ''j1'')
     (fst (CreateJob Some no_faults 3 ''j1'' ''h1'' ''o1'' (Some sample_job_request) first_token)))"

lemma first_run_reachable: "server_step\<^sup>*\<^sup>* empty_db first_run"
proof -
  have "server_step empty_db first_token" unfolding first_token_def by (rule server_step.token_minted)
  then show ?thesis unfolding first_run_def
    by (meson rtranclp.rtrancl_into_rtrancl rtranclp.rtrancl_refl server_step.run_requested server_step.job_created)
qed




end
