(* ===== verification/Inspect.thy ===== *)
theory Inspect
  imports Connect
begin

text \<open>
  Looking into a customer's database server with a stored credential: \<open>dbinspect/dbinspect.go\<close> and
  \<open>dbinspect/mssql.go\<close>.  The three drivers are the fields of an \<open>inspector\<close>: what they answer for a data
  source name, \<open>Inl\<close> an error text.  Deadlines show as errors of the driver.
\<close>

subsection \<open>Cached details\<close>

record database_info =
  di_Name :: string
  di_SizeBytes :: int
  di_TableCount :: int

record table_info =
  ti_Schema :: string
  ti_Name :: string
  ti_Rows :: int
  ti_SizeBytes :: int

definition UnknownSize :: int where "UnknownSize = -1"

definition bare_info :: "string \<Rightarrow> database_info" where
  "bare_info n = \<lparr>di_Name = n, di_SizeBytes = UnknownSize, di_TableCount = -1\<rparr>"

definition MaxDatabasesForCounts :: nat where "MaxDatabasesForCounts = 50"
definition MaxTables :: nat where "MaxTables = 500"
definition MaxMongoCounts :: nat where "MaxMongoCounts = 100"

definition Sanitize :: "string \<Rightarrow> string" where
  "Sanitize err =
     (let msg = take 300 (trim_space (takeWhile (\<lambda>c. c \<noteq> CHR 0x0A) err)) in
      if msg = '''' then ''database inspection failed'' else msg)"

subsection \<open>Data source names\<close>

text \<open>\<open>url.QueryEscape\<close>, byte by byte.\<close>

definition unreserved :: "char \<Rightarrow> bool" where
  "unreserved c \<longleftrightarrow> (let n = (of_char c :: nat) in
     48 \<le> n \<and> n \<le> 57 \<or> 65 \<le> n \<and> n \<le> 90 \<or> 97 \<le> n \<and> n \<le> 122) \<or> c \<in> set ''-_.~''"

definition hex_digit :: "nat \<Rightarrow> char" where
  "hex_digit n = char_of (if n < 10 then 48 + n else 55 + n)"

definition escape_char :: "char \<Rightarrow> string" where
  "escape_char c =
     (if unreserved c then [c] else if c = CHR '' '' then ''+''
      else [CHR ''%'', hex_digit (of_char c div 16), hex_digit (of_char c mod 16)])"

definition QueryEscape :: "string \<Rightarrow> string" where
  "QueryEscape s = concat (map escape_char s)"

definition userinfo :: "string \<Rightarrow> string \<Rightarrow> string" where
  "userinfo user password =
     (if trim_space user = '''' then '''' else QueryEscape user @ '':'' @ QueryEscape password @ ''@'')"

definition pgDSN :: "string \<Rightarrow> int \<Rightarrow> string \<Rightarrow> string \<Rightarrow> string \<Rightarrow> string" where
  "pgDSN host port user password dbName =
     ''postgres://'' @ userinfo user password @ host @ '':'' @ itoa port @ ''/'' @
     (if dbName = '''' then ''postgres'' else dbName) @ ''?sslmode=prefer&connect_timeout=10''"

definition mongoURI :: "string \<Rightarrow> int \<Rightarrow> string \<Rightarrow> string \<Rightarrow> string" where
  "mongoURI host port user password =
     (if trim_space user = '''' then ''mongodb://'' @ host @ '':'' @ itoa port @ ''/?directConnection=true''
      else ''mongodb://'' @ userinfo user password @ host @ '':'' @ itoa port @ ''/?authSource=admin'')"

definition mssqlDSN :: "string \<Rightarrow> int \<Rightarrow> string \<Rightarrow> string \<Rightarrow> string" where
  "mssqlDSN host port user password =
     ''sqlserver://'' @ userinfo user password @ host @ '':'' @ itoa port @
     ''?database=master&connection+timeout=10&dial+timeout=10''"

subsection \<open>Collecting\<close>

record inspector =
  in_PgDatabases :: "string \<Rightarrow> string + (string \<times> int) list"
  in_PgTableCount :: "string \<Rightarrow> int option"
  in_PgTables :: "string \<Rightarrow> nat \<Rightarrow> string + table_info list"
  in_MongoDatabases :: "string \<Rightarrow> string + string list"
  in_MongoStats :: "string \<Rightarrow> string \<Rightarrow> int option option"
  in_MongoCollections :: "string \<Rightarrow> string \<Rightarrow> string + (string \<times> string) option list"
  in_MongoCount :: "string \<Rightarrow> string \<Rightarrow> string \<Rightarrow> int option"
  in_MssqlDatabases :: "string \<Rightarrow> string + string list"
  in_MssqlSizes :: "string \<Rightarrow> string \<Rightarrow> int option"
  in_MssqlCount :: "string \<Rightarrow> string \<Rightarrow> int option"
  in_MssqlTables :: "string \<Rightarrow> string \<Rightarrow> string + table_info list"

definition collectPostgres :: "inspector \<Rightarrow> string \<Rightarrow> int \<Rightarrow> string \<Rightarrow> string \<Rightarrow> string + database_info list" where
  "collectPostgres x host port user password =
     (case in_PgDatabases x (pgDSN host port user password ''postgres'') of
        Inl e \<Rightarrow> Inl e
      | Inr entries \<Rightarrow>
          Inr (map (\<lambda>(i, name, sz).
            \<lparr>di_Name = name, di_SizeBytes = sz,
             di_TableCount = (case (if i < MaxDatabasesForCounts then in_PgTableCount x (pgDSN host port user password name) else None) of
                                None \<Rightarrow> -1 | Some n \<Rightarrow> n)\<rparr>) (enumerate 0 entries)))"

text \<open>\<open>in_MongoStats\<close> is \<open>None\<close> when the command fails and \<open>Some None\<close> without a numeric size; the number of
  collections is that of their names.\<close>

definition collectMongo :: "inspector \<Rightarrow> string \<Rightarrow> int \<Rightarrow> string \<Rightarrow> string \<Rightarrow> string + database_info list" where
  "collectMongo x host port user password =
     (let uri = mongoURI host port user password in
      case in_MongoDatabases x uri of
        Inl e \<Rightarrow> Inl e
      | Inr names \<Rightarrow>
          Inr (map (\<lambda>name.
            case in_MongoStats x uri name of
              None \<Rightarrow> bare_info name
            | Some sz \<Rightarrow>
                \<lparr>di_Name = name, di_SizeBytes = (case sz of None \<Rightarrow> UnknownSize | Some n \<Rightarrow> n),
                 di_TableCount = (case in_MongoCollections x uri name of Inl e \<Rightarrow> -1 | Inr cs \<Rightarrow> int (length cs))\<rparr>)
            (filter (\<lambda>n. n \<notin> {''admin'', ''local'', ''config''}) names)))"

definition collectMssql :: "inspector \<Rightarrow> string \<Rightarrow> int \<Rightarrow> string \<Rightarrow> string \<Rightarrow> string + database_info list" where
  "collectMssql x host port user password =
     (let dsn = mssqlDSN host port user password in
      case in_MssqlDatabases x dsn of
        Inl e \<Rightarrow> Inl e
      | Inr names \<Rightarrow>
          Inr (map (\<lambda>(i, n).
            \<lparr>di_Name = n, di_SizeBytes = (case in_MssqlSizes x dsn n of None \<Rightarrow> UnknownSize | Some s \<Rightarrow> s),
             di_TableCount = (case (if i < MaxDatabasesForCounts
                                    then in_MssqlCount x dsn (''SELECT COUNT(*) FROM '' @ mssqlQuote n @ ''.sys.tables'') else None) of
                                None \<Rightarrow> -1 | Some c \<Rightarrow> c)\<rparr>) (enumerate 0 names)))"

definition CollectDatabases :: "inspector \<Rightarrow> string \<Rightarrow> string \<Rightarrow> int \<Rightarrow> string \<Rightarrow> string \<Rightarrow> string + database_info list" where
  "CollectDatabases x connType host port user password =
     (if connType = ''POSTGRES'' then collectPostgres x host port user password
      else if connType = ''MONGODB'' then collectMongo x host port user password
      else if connType = ''MSSQL'' then collectMssql x host port user password
      else Inl (''unsupported engine '' @ connType))"

subsection \<open>Tables of one database\<close>

text \<open>The cursor loop: undecodable entries are skipped, counts are taken while fewer than 100 succeeded.\<close>

fun mongo_tables :: "(string \<Rightarrow> int option) \<Rightarrow> table_info list \<Rightarrow> nat \<Rightarrow> (string \<times> string) option list \<Rightarrow> table_info list" where
  "mongo_tables ask out counted [] = out"
| "mongo_tables ask out counted (c # cs) =
     (if MaxTables \<le> length out then out
      else (case c of
          None \<Rightarrow> mongo_tables ask out counted cs
        | Some (name, kind) \<Rightarrow>
            (case (if counted < MaxMongoCounts then ask name else None) of
               None \<Rightarrow> mongo_tables ask (out @ [\<lparr>ti_Schema = kind, ti_Name = name, ti_Rows = -1, ti_SizeBytes = UnknownSize\<rparr>]) counted cs
             | Some n \<Rightarrow> mongo_tables ask (out @ [\<lparr>ti_Schema = kind, ti_Name = name, ti_Rows = n, ti_SizeBytes = UnknownSize\<rparr>])
                           (Suc counted) cs)))"

definition mssql_tables_query :: "string \<Rightarrow> string" where
  "mssql_tables_query database =
     (let q = mssqlQuote database in
      ''SELECT TOP 500 s.name, t.name, SUM(p.rows), SUM(a.total_pages)*8192 FROM '' @ q @ ''.sys.tables t JOIN '' @ q @
      ''.sys.schemas s ON s.schema_id = t.schema_id JOIN '' @ q @
      ''.sys.partitions p ON p.object_id = t.object_id AND p.index_id IN (0,1) JOIN '' @ q @
      ''.sys.allocation_units a ON a.container_id = p.partition_id GROUP BY s.name, t.name ORDER BY SUM(a.total_pages) DESC'')"

definition ListTables :: "inspector \<Rightarrow> string \<Rightarrow> string \<Rightarrow> int \<Rightarrow> string \<Rightarrow> string \<Rightarrow> string \<Rightarrow> string + table_info list" where
  "ListTables x connType host port user password database =
     (if trim_space database = '''' then Inl ''database is required''
      else if connType = ''POSTGRES'' then in_PgTables x (pgDSN host port user password database) MaxTables
      else if connType = ''MONGODB'' then
        (let uri = mongoURI host port user password in
         case in_MongoCollections x uri database of
           Inl e \<Rightarrow> Inl e | Inr cs \<Rightarrow> Inr (mongo_tables (in_MongoCount x uri database) [] 0 cs))
      else if connType = ''MSSQL'' then in_MssqlTables x (mssqlDSN host port user password) (mssql_tables_query database)
      else Inl (''unsupported engine '' @ connType))"

subsection \<open>Laws\<close>

lemma mongo_tables_bound: "length out \<le> MaxTables \<Longrightarrow> length (mongo_tables ask out counted cs) \<le> MaxTables"
  by (induction ask out counted cs rule: mongo_tables.induct) (auto split: option.split)

lemma Sanitize_bound: "length (Sanitize err) \<le> 300" "Sanitize err \<noteq> ''''" "CHR 0x0A \<notin> set (Sanitize err)"
proof -
  let ?m = "trim_space (takeWhile (\<lambda>c. c \<noteq> CHR 0x0A) err)"
  have "set ?m \<subseteq> set (takeWhile (\<lambda>c. c \<noteq> CHR 0x0A) err)"
    unfolding trim_space_def by (auto dest!: set_dropWhileD)
  then have "CHR 0x0A \<notin> set ?m" using set_takeWhileD by fastforce
  then show "CHR 0x0A \<notin> set (Sanitize err)" by (auto simp: Sanitize_def Let_def dest: in_set_takeD)
qed (simp_all add: Sanitize_def Let_def)

text \<open>How a URL parser reads user information: escapes are decoded, a plus sign stays a plus sign.\<close>

definition unhex :: "char \<Rightarrow> nat" where
  "unhex c = (let n = of_char c in if n < 58 then n - 48 else n - 55)"

fun unescape_userinfo :: "string \<Rightarrow> string" where
  "unescape_userinfo (c # h # l # s) =
     (if c = CHR ''%'' then char_of (16 * unhex h + unhex l) # unescape_userinfo s else c # unescape_userinfo (h # l # s))"
| "unescape_userinfo s = s"

lemma nibbles: "of_char c div 16 < (16 :: nat)" "of_char c mod 16 < (16 :: nat)"
  by (rule less_mult_imp_div_less, simp, rule mod_less_divisor, simp)

lemma hex_digit_safe: "n < 16 \<Longrightarrow> hex_digit n \<in> set ''0123456789ABCDEF'' \<and> unhex (hex_digit n) = n"
proof -
  assume "n < 16"
  then have "n \<in> set [0..<16]" by simp
  moreover have "\<forall>n\<in>set [0..<16]. hex_digit n \<in> set ''0123456789ABCDEF'' \<and> unhex (hex_digit n) = n" by code_simp
  ultimately show ?thesis by blast
qed

lemma unescape_plain: "c \<noteq> CHR ''%'' \<Longrightarrow> unescape_userinfo (c # s) = c # unescape_userinfo s"
  by (cases s; cases "tl s") auto

lemma QueryEscape_Cons: "QueryEscape (c # s) = escape_char c @ QueryEscape s"
  by (simp add: QueryEscape_def)

lemma unescape_escape: "unescape_userinfo (QueryEscape s) = map (\<lambda>c. if c = CHR '' '' then CHR ''+'' else c) s"
proof (induction s)
  case Nil
  then show ?case by (simp add: QueryEscape_def)
next
  case (Cons c s)
  note d = nibbles [of c]
  have "char_of (16 * (of_char c div 16) + of_char c mod 16 :: nat) = c" by simp
  moreover have "unreserved c \<Longrightarrow> c \<noteq> CHR ''%'' \<and> c \<noteq> CHR '' ''" by (auto simp: unreserved_def Let_def)
  ultimately show ?case
    using Cons hex_digit_safe [OF d(1)] hex_digit_safe [OF d(2)]
    by (auto simp: QueryEscape_Cons escape_char_def unescape_plain)
qed

lemma QueryEscape_safe: "set (QueryEscape s) \<inter> set ''@:/?#'' = {}"
proof -
  define S where "S = set ''@:/?#''"
  have hex: "set ''0123456789ABCDEF'' \<inter> S = {}" and "CHR ''%'' \<notin> S" "CHR ''+'' \<notin> S" "\<forall>x\<in>S. \<not> unreserved x"
    unfolding S_def by code_simp+
  moreover have "hex_digit n \<notin> S" if "n < 16" for n using hex_digit_safe [OF that] hex by blast
  ultimately have "set (escape_char c) \<inter> S = {}" for c
    using nibbles [of c] by (auto simp: escape_char_def)
  then have "set (QueryEscape s) \<inter> S = {}" by (induction s) (auto simp: QueryEscape_def)
  then show ?thesis unfolding S_def .
qed

end
