(* ===== verification/Vault.thy ===== *)
theory Vault
  imports Crypto
begin

text \<open>
  The envelope for stored credentials, \<open>encrypt\<close> and \<open>decrypt\<close> of \<open>handlers/storage.go\<close>: AES-GCM under
  the server's key with a random nonce in front, in base64.  The cipher and base64 are those of Go's library
  (\<open>gcm_laws\<close> is the cipher's contract); \<open>nonce\<close> is the random draw.
\<close>

record vault =
  va_Key :: string
  va_Seal :: "string \<Rightarrow> string \<Rightarrow> string \<Rightarrow> string"
  va_Open :: "string \<Rightarrow> string \<Rightarrow> string \<Rightarrow> string option"
  va_Encode :: "string \<Rightarrow> string"
  va_Decode :: "string \<Rightarrow> string option"

definition aes_key_ok :: "string \<Rightarrow> bool" where
  "aes_key_ok key \<longleftrightarrow> length key \<in> {16, 24, 32}"

definition encrypt :: "vault \<Rightarrow> faults \<Rightarrow> string \<Rightarrow> string \<Rightarrow> string option" where
  "encrypt v flt nonce plaintext =
     (if va_Key v = '''' \<or> \<not> aes_key_ok (va_Key v) \<or> flt ''random'' then None
      else Some (va_Encode v (nonce @ va_Seal v (va_Key v) nonce plaintext)))"

definition decrypt :: "vault \<Rightarrow> string \<Rightarrow> string option" where
  "decrypt v ciphertext =
     (if va_Key v = '''' then None
      else (case va_Decode v ciphertext of
          None \<Rightarrow> None
        | Some data \<Rightarrow>
            if \<not> aes_key_ok (va_Key v) \<or> length data < 12 then None
            else va_Open v (va_Key v) (take 12 data) (drop 12 data)))"

text \<open>Base64 decodes what it encoded; the key is the 32-byte one the server requires.\<close>

definition vault_ok :: "vault \<Rightarrow> bool" where
  "vault_ok v \<longleftrightarrow> length (va_Key v) = 32 \<and> gcm_laws (va_Seal v) (va_Open v) \<and>
     (\<forall>s. va_Decode v (va_Encode v s) = Some s)"

lemma decrypt_encrypt:
  assumes "vault_ok v" and "length nonce = 12" and "encrypt v flt nonce p = Some c"
  shows "decrypt v c = Some p"
proof -
  have "va_Open v (va_Key v) nonce (va_Seal v (va_Key v) nonce p) = Some p"
    using assms by (simp add: vault_ok_def gcm_laws_def)
  then show ?thesis
    using assms by (auto simp: encrypt_def decrypt_def vault_ok_def aes_key_ok_def split: if_splits)
qed

text \<open>A credential sealed under another key, or damaged, never opens to a wrong text unless the cipher lets it:
  decryption yields only what the cipher authenticated.\<close>

lemma decrypt_authentic:
  assumes "decrypt v c = Some p"
  obtains data where "va_Decode v c = Some data" "va_Open v (va_Key v) (take 12 data) (drop 12 data) = Some p"
  using assms by (auto simp: decrypt_def split: if_splits option.splits)

definition toy_vault :: vault where
  "toy_vault = \<lparr>va_Key = replicate 32 (CHR ''k''), va_Seal = toy_seal, va_Open = toy_open,
     va_Encode = (\<lambda>s. s), va_Decode = Some\<rparr>"

lemma toy_vault_ok: "vault_ok toy_vault"
  by (simp add: vault_ok_def toy_vault_def toy_gcm)

end
