(* ===== verification/Connections.thy ===== *)
theory Connections
  imports Inspect Vault Listing
begin

text \<open>
  Reusable database connections: \<open>handlers/connections.go\<close> with the cached database details of
  \<open>models/connection.go\<close>.  The JSON text of the details is a parameter (\<open>meta_codec\<close>, the documented
  behaviour of \<open>encoding/json\<close> on them), as are the database drivers (\<open>inspector\<close>) and a TCP dial (\<open>tcp\<close>, an
  error text or \<open>None\<close>).
\<close>

subsection \<open>Cached database details\<close>

record meta_codec =
  mc_Marshal :: "database_info list \<Rightarrow> string"
  mc_Unmarshal :: "string \<Rightarrow> database_info list option"

definition splitConnDBs :: "string \<Rightarrow> string list" where
  "splitConnDBs s = split_on (CHR 0x0A) s"

definition DatabaseList :: "database_connection \<Rightarrow> string list" where
  "DatabaseList c =
     (if conn_DatabaseNames c = '''' then [] else filter (\<lambda>n. n \<noteq> '''') (splitConnDBs (conn_DatabaseNames c)))"

definition MetadataList :: "meta_codec \<Rightarrow> database_connection \<Rightarrow> database_info list" where
  "MetadataList mc c =
     (case (if trim_space (conn_DatabaseMetadata c) = '''' then None else mc_Unmarshal mc (conn_DatabaseMetadata c)) of
        None \<Rightarrow> map bare_info (DatabaseList c)
      | Some out \<Rightarrow> if out = [] then map bare_info (DatabaseList c) else out)"

definition MarshalDatabaseMetadata :: "meta_codec \<Rightarrow> database_info list \<Rightarrow> string" where
  "MarshalDatabaseMetadata mc infos = (if infos = [] then '''' else mc_Marshal mc infos)"

text \<open>Details survive by name; of two cached entries with one name the later wins.\<close>

definition MergeMetadataNames :: "database_info list \<Rightarrow> string list \<Rightarrow> database_info list" where
  "MergeMetadataNames cached names =
     map (\<lambda>n. case map_of (rev (map (\<lambda>x. (di_Name x, x)) cached)) n of None \<Rightarrow> bare_info n | Some x \<Rightarrow> x) names"

subsection \<open>Requests and replies\<close>

record connection_request =
  cr_Name :: string
  cr_Type :: string
  cr_AgentID :: string
  cr_Host :: string
  cr_Port :: int
  cr_Username :: string
  cr_Password :: string
  cr_Databases :: "string list option"

definition defaultPortFor :: "string \<Rightarrow> int" where
  "defaultPortFor t =
     (if t = ''POSTGRES'' then 5432 else if t = ''MONGODB'' then 27017 else if t = ''MSSQL'' then 1433 else 0)"

definition normalizeConnectionType :: "string \<Rightarrow> string + string" where
  "normalizeConnectionType raw =
     (let t = to_upper (trim_space raw) in
      if t = ''POSTGRES'' \<or> t = ''MONGODB'' \<or> t = ''MSSQL'' then Inr t
      else if t = ''MSSQL_SERVER'' \<or> t = ''SQL_SERVER'' then Inr ''MSSQL''
      else Inl (''unsupported connection type '' @ raw @ '' (supported: POSTGRES, MONGODB, MSSQL)''))"

text \<open>The shape that leaves the server: no credential in it.  The agent is the preloaded row (its JSON holds
  neither its token hash nor its registration key), absent when it is gone.\<close>

record connection_dto =
  cn_ID :: uuid
  cn_OrganizationID :: uuid
  cn_AgentID :: uuid
  cn_Name :: string
  cn_Type :: string
  cn_Host :: string
  cn_Port :: int
  cn_Username :: string
  cn_Status :: connection_status
  cn_LastCheckedAt :: "time option"
  cn_Databases :: "database_info list"
  cn_DatabaseCount :: nat
  cn_Agent :: "agent option"
  cn_Lifecycle :: "lifecycle option"
  cn_CreatedAt :: time
  cn_UpdatedAt :: time

definition conn_agent :: "db \<Rightarrow> database_connection \<Rightarrow> agent option" where
  "conn_agent d c = first_row (\<lambda>a. ID a = conn_AgentID c) (db_agents d)"

definition toConnectionDTO :: "meta_codec \<Rightarrow> time \<Rightarrow> db \<Rightarrow> database_connection \<Rightarrow> connection_dto" where
  "toConnectionDTO mc now d c =
     \<lparr>cn_ID = ID c, cn_OrganizationID = conn_OrganizationID c, cn_AgentID = conn_AgentID c, cn_Name = conn_Name c,
      cn_Type = conn_Type c, cn_Host = conn_Host c, cn_Port = conn_Port c, cn_Username = conn_Username c,
      cn_Status = conn_Status c, cn_LastCheckedAt = conn_LastCheckedAt c, cn_Databases = MetadataList mc c,
      cn_DatabaseCount = length (MetadataList mc c), cn_Agent = conn_agent d c,
      cn_Lifecycle = map_option (Lifecycle now) (conn_agent d c), cn_CreatedAt = CreatedAt c, cn_UpdatedAt = UpdatedAt c\<rparr>"

subsection \<open>Reading\<close>

definition loadOwned :: "uuid \<Rightarrow> uuid option \<Rightarrow> db \<Rightarrow> (nat \<times> string) + database_connection" where
  "loadOwned org idp d =
     (case idp of
        None \<Rightarrow> Inl (400, ''invalid id'')
      | Some i \<Rightarrow> (case org_connection org i d of
          None \<Rightarrow> Inl (404, ''connection not found'') | Some c \<Rightarrow> Inr c))"

fun connection_status_text :: "connection_status \<Rightarrow> string" where
  "connection_status_text ConnectionUnknown = ''UNKNOWN''"
| "connection_status_text ConnectionConnected = ''CONNECTED''"
| "connection_status_text ConnectionDisconnected = ''DISCONNECTED''"
| "connection_status_text ConnectionError = ''ERROR''"

definition connection_matches :: "query \<Rightarrow> uuid \<Rightarrow> database_connection \<Rightarrow> bool" where
  "connection_matches c org x \<longleftrightarrow> conn_OrganizationID x = org \<and> filter_eq c ''type'' (conn_Type x) \<and>
     filter_eq c ''status'' (connection_status_text (conn_Status x)) \<and> search_in c [conn_Name x, conn_Host x]"

definition ListConnections ::
    "(string \<Rightarrow> database_connection \<Rightarrow> 'k::linorder) \<Rightarrow> meta_codec \<Rightarrow> query \<Rightarrow> time \<Rightarrow> uuid \<Rightarrow> db \<Rightarrow> connection_dto page reply" where
  "ListConnections col mc c now org d =
     (let p = parseListParams c; k = sortColumn c [''name'', ''created'', ''updated'', ''status'', ''type''] ''created''
      in Reply 200 (respondPaginated p (map (toConnectionDTO mc now d)
           (order_rows (lp_Desc p) (\<lambda>x. (col k x, ID x)) (rows (connection_matches c org) (db_conns d))))))"

definition GetConnection :: "meta_codec \<Rightarrow> time \<Rightarrow> uuid \<Rightarrow> uuid option \<Rightarrow> db \<Rightarrow> connection_dto reply" where
  "GetConnection mc now org idp d =
     (case loadOwned org idp d of Inl (n, m) \<Rightarrow> Fail n m | Inr c \<Rightarrow> Reply 200 (toConnectionDTO mc now d c))"

subsection \<open>Creating\<close>

text \<open>\<open>idx_database_connections_org_name\<close>: partial, live rows.\<close>

definition conn_clash :: "database_connection \<Rightarrow> database_connection \<Rightarrow> bool" where
  "conn_clash x r \<longleftrightarrow> live x \<and> live r \<and> conn_OrganizationID x = conn_OrganizationID r \<and> conn_Name x = conn_Name r"

definition bind_connection :: "connection_request option \<Rightarrow> connection_request option" where
  "bind_connection req =
     (case req of
        None \<Rightarrow> None
      | Some q \<Rightarrow> if cr_Name q = '''' \<or> cr_Type q = '''' \<or> cr_AgentID q = '''' \<or> cr_Host q = '''' then None else Some q)"

text \<open>The checks both writes share: the type, the agent and the port.\<close>

definition connection_target ::
    "(string \<Rightarrow> uuid option) \<Rightarrow> uuid \<Rightarrow> connection_request \<Rightarrow> db \<Rightarrow> string + string \<times> uuid \<times> int" where
  "connection_target parse org q d =
     (case normalizeConnectionType (cr_Type q) of
        Inl msg \<Rightarrow> Inl msg
      | Inr t \<Rightarrow>
          (case parse (cr_AgentID q) of
             None \<Rightarrow> Inl ''invalid agent_id''
           | Some aid \<Rightarrow>
               (case first_row (\<lambda>a. ID a = aid \<and> ag_OrganizationID a = org) (db_agents d) of
                  None \<Rightarrow> Inl ''agent not found in this organization''
                | Some _ \<Rightarrow> Inr (t, aid, if cr_Port q = 0 then defaultPortFor t else cr_Port q))))"

definition new_connection :: "time \<Rightarrow> uuid \<Rightarrow> uuid \<Rightarrow> string \<Rightarrow> uuid \<Rightarrow> int \<Rightarrow> string \<Rightarrow> connection_request \<Rightarrow> database_connection" where
  "new_connection now nid org t aid port enc q =
     \<lparr>ID = nid, CreatedAt = now, UpdatedAt = now, DeletedAt = None, conn_OrganizationID = org, conn_AgentID = aid,
      conn_Name = trim_space (cr_Name q), conn_Type = t, conn_Host = trim_space (cr_Host q), conn_Port = port,
      conn_Username = trim_space (cr_Username q), conn_EncryptedPassword = enc, conn_Status = ConnectionUnknown,
      conn_LastCheckedAt = None,
      conn_DatabaseNames = join_with nl (case cr_Databases q of None \<Rightarrow> [] | Some ns \<Rightarrow> ns), conn_DatabaseMetadata = ''''\<rparr>"

definition CreateConnection ::
    "vault \<Rightarrow> meta_codec \<Rightarrow> (string \<Rightarrow> uuid option) \<Rightarrow> faults \<Rightarrow> time \<Rightarrow> uuid \<Rightarrow> string \<Rightarrow> uuid \<Rightarrow> connection_request option
      \<Rightarrow> db \<Rightarrow> db \<times> connection_dto reply" where
  "CreateConnection v mc parse flt now nid nonce org req d =
     (case bind_connection req of
        None \<Rightarrow> (d, Fail 400 ''bad request'')
      | Some q \<Rightarrow>
          (case connection_target parse org q d of
             Inl msg \<Rightarrow> (d, Fail 400 msg)
           | Inr (t, aid, port) \<Rightarrow>
               if port < 1 \<or> 65535 < port then (d, Fail 400 ''port must be 1-65535'')
               else (case encrypt v flt nonce (cr_Password q) of
                   None \<Rightarrow> (d, Fail 500 ''encryption failed'')
                 | Some enc \<Rightarrow>
                     let c = new_connection now nid org t aid port enc q in
                     if flt ''create connection'' then (d, Fail 500 ''create failed'')
                     else (case create_row now conn_clash c (db_conns d) of
                         None \<Rightarrow> (d, Fail 409 ''a connection with this name already exists'')
                       | Some cs \<Rightarrow> let d1 = d\<lparr>db_conns := cs\<rparr> in (d1, Reply 201 (toConnectionDTO mc now d1 c))))))"

subsection \<open>Updating and deleting\<close>

text \<open>A password key in the body, even an empty one, rotates the credential; its absence keeps it.\<close>

definition update_connection_row ::
    "meta_codec \<Rightarrow> string \<Rightarrow> uuid \<Rightarrow> int \<Rightarrow> string option \<Rightarrow> connection_request \<Rightarrow> database_connection \<Rightarrow> database_connection" where
  "update_connection_row mc t aid port enc q c =
     (let c1 = c\<lparr>conn_Name := trim_space (cr_Name q), conn_Type := t, conn_AgentID := aid,
                 conn_Host := trim_space (cr_Host q), conn_Port := port, conn_Username := trim_space (cr_Username q)\<rparr>;
          c2 = (case enc of None \<Rightarrow> c1
                | Some e \<Rightarrow> c1\<lparr>conn_EncryptedPassword := e, conn_Status := ConnectionUnknown\<rparr>)
      in case cr_Databases q of None \<Rightarrow> c2
         | Some ns \<Rightarrow> c2\<lparr>conn_DatabaseNames := join_with nl ns,
             conn_DatabaseMetadata := MarshalDatabaseMetadata mc (MergeMetadataNames (MetadataList mc c) ns)\<rparr>)"

definition update_connection ::
    "time \<Rightarrow> uuid \<Rightarrow> (database_connection \<Rightarrow> database_connection) \<Rightarrow> database_connection list \<Rightarrow> database_connection list option" where
  "update_connection now i f t =
     (let t' = update_rows now (\<lambda>c. ID c = i) f t in
      if (\<exists>x\<in>set t'. \<exists>y\<in>set t'. ID x \<noteq> ID y \<and> conn_clash x y) then None else Some t')"

definition UpdateConnection ::
    "vault \<Rightarrow> meta_codec \<Rightarrow> (string \<Rightarrow> uuid option) \<Rightarrow> faults \<Rightarrow> time \<Rightarrow> string \<Rightarrow> uuid \<Rightarrow> uuid option
      \<Rightarrow> (connection_request \<times> bool) option \<Rightarrow> db \<Rightarrow> db \<times> connection_dto reply" where
  "UpdateConnection v mc parse flt now nonce org idp req d =
     (case loadOwned org idp d of
        Inl (n, m) \<Rightarrow> (d, Fail n m)
      | Inr c \<Rightarrow>
          (case req of
             None \<Rightarrow> (d, Fail 400 ''bad request'')
           | Some (q, present) \<Rightarrow>
               if trim_space (cr_Name q) = '''' \<or> trim_space (cr_Type q) = '''' \<or> trim_space (cr_AgentID q) = '''' \<or> trim_space (cr_Host q) = ''''
               then (d, Fail 400 ''name, type, agent_id and host are required'')
               else (case connection_target parse org q d of
                   Inl msg \<Rightarrow> (d, Fail 400 msg)
                 | Inr (t, aid, port) \<Rightarrow>
                     (case (if \<not> present then Some None
                            else (case encrypt v flt nonce (cr_Password q) of None \<Rightarrow> None | Some e \<Rightarrow> Some (Some e))) of
                        None \<Rightarrow> (d, Fail 500 ''encryption failed'')
                      | Some enc \<Rightarrow>
                          if flt ''update connection'' then (d, Fail 500 ''update failed'')
                          else (case update_connection now (ID c) (update_connection_row mc t aid port enc q) (db_conns d) of
                              None \<Rightarrow> (d, Fail 409 ''a connection with this name already exists'')
                            | Some cs \<Rightarrow>
                                let d1 = d\<lparr>db_conns := cs\<rparr> in
                                (d1, Reply 200 (toConnectionDTO mc now d1
                                   ((update_connection_row mc t aid port enc q c)\<lparr>UpdatedAt := now\<rparr>))))))))"

definition DeleteConnection :: "time \<Rightarrow> uuid \<Rightarrow> uuid option \<Rightarrow> db \<Rightarrow> db \<times> unit reply" where
  "DeleteConnection now org idp d =
     (case loadOwned org idp d of
        Inl (n, m) \<Rightarrow> (d, Fail n m)
      | Inr c \<Rightarrow>
          let jobCount = affected (\<lambda>j. job_ConnectionID j = Some (ID c) \<and> job_OrganizationID j = org) (db_jobs d) in
          if jobCount > 0
          then (d, Fail 409 (''connection is used by '' @ itoa (int jobCount) @ '' backup job(s); reassign or delete them first''))
          else (d\<lparr>db_conns := delete_rows now (\<lambda>x. ID x = ID c) (db_conns d)\<rparr>, Reply 204 ()))"

subsection \<open>Looking into the server\<close>

definition set_connection :: "time \<Rightarrow> uuid \<Rightarrow> (database_connection \<Rightarrow> database_connection) \<Rightarrow> db \<Rightarrow> db" where
  "set_connection now i f d = d\<lparr>db_conns := update_rows now (\<lambda>c. ID c = i) f (db_conns d)\<rparr>"

definition markStatus :: "time \<Rightarrow> connection_status \<Rightarrow> database_connection \<Rightarrow> database_connection" where
  "markStatus now st c = c\<lparr>conn_Status := st, conn_LastCheckedAt := Some now\<rparr>"

definition checked_row :: "meta_codec \<Rightarrow> time \<Rightarrow> database_info list \<Rightarrow> database_connection \<Rightarrow> database_connection" where
  "checked_row mc now meta c =
     c\<lparr>conn_Status := ConnectionConnected, conn_LastCheckedAt := Some now,
       conn_DatabaseNames := join_with nl (map di_Name meta), conn_DatabaseMetadata := MarshalDatabaseMetadata mc meta\<rparr>"

text \<open>The live look with the stored credential; a server other than PostgreSQL that only answers on TCP passes with
  what was cached.\<close>

definition probe :: "inspector \<Rightarrow> (string \<Rightarrow> int \<Rightarrow> string option) \<Rightarrow> meta_codec \<Rightarrow> database_connection \<Rightarrow> string \<Rightarrow> string + database_info list" where
  "probe x tcp mc c password =
     (case CollectDatabases x (conn_Type c) (conn_Host c) (conn_Port c) (conn_Username c) password of
        Inr meta \<Rightarrow> Inr meta
      | Inl e \<Rightarrow>
          if conn_Type c = ''POSTGRES'' then Inl e
          else (case tcp (conn_Host c) (conn_Port c) of None \<Rightarrow> Inr (MetadataList mc c) | Some te \<Rightarrow> Inl te))"

definition conn_agent_status :: "db \<Rightarrow> database_connection \<Rightarrow> agent_status option" where
  "conn_agent_status d c = map_option ag_Status (conn_agent d c)"

definition TestConnection ::
    "vault \<Rightarrow> inspector \<Rightarrow> (string \<Rightarrow> int \<Rightarrow> string option) \<Rightarrow> meta_codec \<Rightarrow> time \<Rightarrow> uuid \<Rightarrow> uuid option \<Rightarrow> db
      \<Rightarrow> db \<times> (database_info list \<times> agent_status option) reply" where
  "TestConnection v x tcp mc now org idp d =
     (case loadOwned org idp d of
        Inl (n, m) \<Rightarrow> (d, Fail n m)
      | Inr c \<Rightarrow>
          (case decrypt v (conn_EncryptedPassword c) of
             None \<Rightarrow> (set_connection now (ID c) (markStatus now ConnectionError) d,
                      Fail 400 ''stored credential is unusable; re-enter the password'')
           | Some password \<Rightarrow>
               (case probe x tcp mc c password of
                  Inl e \<Rightarrow> (set_connection now (ID c) (markStatus now ConnectionError) d, Fail 502 (Sanitize e))
                | Inr meta \<Rightarrow>
                    (set_connection now (ID c) (checked_row mc now meta) d,
                     Reply 200 (MetadataList mc (checked_row mc now meta c), conn_agent_status d c)))))"

definition Databases ::
    "vault \<Rightarrow> inspector \<Rightarrow> meta_codec \<Rightarrow> time \<Rightarrow> uuid \<Rightarrow> uuid option \<Rightarrow> db \<Rightarrow> db \<times> (database_info list \<times> bool) reply" where
  "Databases v x mc now org idp d =
     (case loadOwned org idp d of
        Inl (n, m) \<Rightarrow> (d, Fail n m)
      | Inr c \<Rightarrow>
          (case (case decrypt v (conn_EncryptedPassword c) of
                   None \<Rightarrow> Inl ''''
                 | Some password \<Rightarrow> CollectDatabases x (conn_Type c) (conn_Host c) (conn_Port c) (conn_Username c) password) of
             Inl _ \<Rightarrow> (d, Reply 200 (MetadataList mc c, True))
           | Inr meta \<Rightarrow>
               if meta = [] then (d, Reply 200 (MetadataList mc c, True))
               else (set_connection now (ID c) (checked_row mc now meta) d, Reply 200 (meta, False))))"

definition Tables ::
    "vault \<Rightarrow> inspector \<Rightarrow> meta_codec \<Rightarrow> uuid \<Rightarrow> uuid option \<Rightarrow> string \<Rightarrow> db \<Rightarrow> (string \<times> table_info list) reply" where
  "Tables v x mc org idp name d =
     (case loadOwned org idp d of
        Inl (n, m) \<Rightarrow> Fail n m
      | Inr c \<Rightarrow>
          let dbName = trim_space name in
          if dbName = '''' then Fail 400 ''database name is required''
          else if dbName \<notin> set (map di_Name (MetadataList mc c)) \<and> dbName \<notin> set (DatabaseList c)
          then Fail 404 ''database not found on this connection''
          else (case decrypt v (conn_EncryptedPassword c) of
              None \<Rightarrow> Fail 400 ''stored credential is unusable; re-enter the password''
            | Some password \<Rightarrow>
                (case ListTables x (conn_Type c) (conn_Host c) (conn_Port c) (conn_Username c) password dbName of
                   Inl e \<Rightarrow> Fail 502 (Sanitize e) | Inr ts \<Rightarrow> Reply 200 (dbName, ts))))"

subsection \<open>Laws\<close>

lemma loadOwned_Inr: "loadOwned org idp d = Inr c \<longleftrightarrow> (\<exists>i. idp = Some i \<and> org_connection org i d = Some c)"
  by (simp add: loadOwned_def split: option.split)

lemma org_connection_SomeD:
  "org_connection org i d = Some c \<Longrightarrow> c \<in> set (db_conns d) \<and> live c \<and> ID c = i \<and> conn_OrganizationID c = org"
  using first_row_SomeD unfolding org_connection_def by blast

lemma update_connection_row_keeps:
  "ID (update_connection_row mc t aid port enc q c) = ID c"
  "DeletedAt (update_connection_row mc t aid port enc q c) = DeletedAt c"
  "conn_OrganizationID (update_connection_row mc t aid port enc q c) = conn_OrganizationID c"
  by (simp_all add: update_connection_row_def Let_def split: option.split)

lemma CreateConnection_201:
  assumes "CreateConnection v mc parse flt now nid nonce org (Some q) d = (d', Reply n dto)"
  obtains t aid port enc where "connection_target parse org q d = Inr (t, aid, port)" "1 \<le> port" "port \<le> 65535"
    "encrypt v flt nonce (cr_Password q) = Some enc" "n = 201"
    "create_row now conn_clash (new_connection now nid org t aid port enc q) (db_conns d) = Some (db_conns d')"
    "d' = d\<lparr>db_conns := db_conns d'\<rparr>" "dto = toConnectionDTO mc now d' (new_connection now nid org t aid port enc q)"
  using assms by (auto simp: CreateConnection_def bind_connection_def Let_def split: option.splits sum.splits prod.splits if_splits)

lemma UpdateConnection_200:
  assumes "UpdateConnection v mc parse flt now nonce org idp req d = (d', Reply n dto)"
  obtains c q present t aid port enc where "loadOwned org idp d = Inr c" "req = Some (q, present)" "n = 200"
    "connection_target parse org q d = Inr (t, aid, port)"
    "(if \<not> present then Some None else (case encrypt v flt nonce (cr_Password q) of None \<Rightarrow> None | Some e \<Rightarrow> Some (Some e))) = Some enc"
    "update_connection now (ID c) (update_connection_row mc t aid port enc q) (db_conns d) = Some (db_conns d')"
    "d' = d\<lparr>db_conns := db_conns d'\<rparr>"
    "dto = toConnectionDTO mc now d' ((update_connection_row mc t aid port enc q c)\<lparr>UpdatedAt := now\<rparr>)"
proof -
  from assms obtain c where c: "loadOwned org idp d = Inr c" by (auto simp: UpdateConnection_def split: sum.splits)
  from assms c obtain q present where r: "req = Some (q, present)" by (auto simp: UpdateConnection_def split: option.splits)
  from assms c r obtain t aid port where t: "connection_target parse org q d = Inr (t, aid, port)"
    by (auto simp: UpdateConnection_def split: sum.splits if_splits)
  let ?e = "if \<not> present then Some None else (case encrypt v flt nonce (cr_Password q) of None \<Rightarrow> None | Some e \<Rightarrow> Some (Some e))"
  from assms c r t obtain enc where e: "?e = Some enc" by (cases ?e) (auto simp: UpdateConnection_def split: if_splits)
  let ?u = "update_connection now (ID c) (update_connection_row mc t aid port enc q) (db_conns d)"
  from assms c r t e obtain cs where u: "?u = Some cs" by (cases ?u) (auto simp: UpdateConnection_def split: if_splits)
  from assms c r t e u have "d' = d\<lparr>db_conns := cs\<rparr>" "n = 200"
    "dto = toConnectionDTO mc now d' ((update_connection_row mc t aid port enc q c)\<lparr>UpdatedAt := now\<rparr>)"
    by (auto simp: UpdateConnection_def Let_def split: if_splits)
  then show thesis using that [OF c r _ t e] u by simp
qed

lemma fresh_first_row: "\<forall>x\<in>set t. ID x \<noteq> i \<Longrightarrow> live r \<Longrightarrow> ID r = i \<Longrightarrow> first_row (\<lambda>x. ID x = i) (t @ [r]) = Some r"
  by (induction t) (auto simp: first_row_def)

text \<open>C17. A connection's password is write-only and arrives intact: whatever password is given when the connection is created is what
  an agent that claims a run over this connection is handed, together with the validated host, port and user.\<close>

theorem connection_password_delivered:
  assumes "vault_ok v" and "length nonce = 12"
    and "CreateConnection v mc parse flt now nid nonce org (Some q) d = (d', Reply n dto)"
  shows "connectionFor (decrypt v) (Some nid) (connection_row (Some nid) d') =
      Some \<lparr>ac_ID = nid, ac_Type = cn_Type dto, ac_Host = trim_space (cr_Host q), ac_Port = cn_Port dto,
            ac_Username = trim_space (cr_Username q), ac_Password = cr_Password q\<rparr> \<and>
    1 \<le> cn_Port dto \<and> cn_Port dto \<le> 65535 \<and> cn_Type dto \<in> {''POSTGRES'', ''MONGODB'', ''MSSQL''}"
proof -
  obtain t aid port enc where c: "connection_target parse org q d = Inr (t, aid, port)" "1 \<le> port" "port \<le> 65535"
    "encrypt v flt nonce (cr_Password q) = Some enc"
    "create_row now conn_clash (new_connection now nid org t aid port enc q) (db_conns d) = Some (db_conns d')"
    "dto = toConnectionDTO mc now d' (new_connection now nid org t aid port enc q)"
    using CreateConnection_201 [OF assms(3)] by metis
  let ?c = "new_connection now nid org t aid port enc q"
  have "db_conns d' = db_conns d @ [?c]" "\<forall>x\<in>set (db_conns d). ID x \<noteq> nid"
    using create_row_SomeD [OF c(5)] by (simp_all add: new_connection_def)
  then have "connection_row (Some nid) d' = Some ?c"
    unfolding connection_row_def by (simp add: fresh_first_row new_connection_def live_def)
  moreover have "t \<in> {''POSTGRES'', ''MONGODB'', ''MSSQL''}"
    using c(1) by (auto simp: connection_target_def normalizeConnectionType_def Let_def split: sum.splits option.splits if_splits)
  ultimately show ?thesis
    using decrypt_encrypt [OF assms(1,2) c(4)] c(2,3)
    by (simp add: c(6) connectionFor_def new_connection_def toConnectionDTO_def)
qed

definition sample_connection_request :: connection_request where
  "sample_connection_request = \<lparr>cr_Name = ''main'', cr_Type = ''postgres'', cr_AgentID = ''g1'', cr_Host = '' db.local '', cr_Port = 0,
     cr_Username = ''backup'', cr_Password = ''p@ss word'', cr_Databases = Some [''app'']\<rparr>"

definition no_json :: meta_codec where
  "no_json = \<lparr>mc_Marshal = (\<lambda>_. ''[]''), mc_Unmarshal = (\<lambda>_. None)\<rparr>"

definition created_connection :: "db \<times> connection_dto reply" where
  "created_connection = CreateConnection toy_vault no_json Some no_faults 5 ''c1'' (replicate 12 (CHR ''n'')) ''o1''
     (Some sample_connection_request) sample_agent_db"

theorem connection_password_delivered_witness:
  "\<exists>ac. connectionFor (decrypt toy_vault) (Some ''c1'') (connection_row (Some ''c1'') (fst created_connection)) = Some ac \<and>
     ac_Password ac = ''p@ss word'' \<and> ac_Host ac = ''db.local''"
proof -
  have "(case snd created_connection of Reply n _ \<Rightarrow> n = 201 | Fail _ _ \<Rightarrow> False)" by code_simp
  then obtain dto where "created_connection = (fst created_connection, Reply 201 dto)"
    by (cases "snd created_connection") (auto, metis prod.collapse)
  note c = this [unfolded created_connection_def]
  have h: "trim_space (cr_Host sample_connection_request) = ''db.local''" by code_simp
  from connection_password_delivered [OF toy_vault_ok _ c, THEN conjunct1]
  show ?thesis unfolding created_connection_def by (simp add: h) (simp add: sample_connection_request_def)
qed

text \<open>Saving a connection keeps the stored credential unless the body names a password; then the new one (perhaps
  empty) is stored and the last check is forgotten.  Nothing else changes.\<close>

theorem connection_update_effect:
  assumes "vault_ok v" and "length nonce = 12" and ids: "unique_ids (db_conns d)"
    and u: "UpdateConnection v mc parse flt now nonce org (Some i) (Some (q, present)) d = (d', Reply n dto)"
  obtains c c' where "org_connection org i d = Some c" "d' = d\<lparr>db_conns := map (\<lambda>x. if x = c then c' else x) (db_conns d)\<rparr>"
    "conn_Name c' = trim_space (cr_Name q)" "conn_Host c' = trim_space (cr_Host q)" "ID c' = i" "conn_OrganizationID c' = org"
    "\<not> present \<Longrightarrow> conn_EncryptedPassword c' = conn_EncryptedPassword c \<and> conn_Status c' = conn_Status c"
    "present \<Longrightarrow> decrypt v (conn_EncryptedPassword c') = Some (cr_Password q) \<and> conn_Status c' = ConnectionUnknown"
proof -
  obtain c t aid port enc where c: "loadOwned org (Some i) d = Inr c"
    "(if \<not> present then Some None else (case encrypt v flt nonce (cr_Password q) of None \<Rightarrow> None | Some e \<Rightarrow> Some (Some e))) = Some enc"
    "update_connection now (ID c) (update_connection_row mc t aid port enc q) (db_conns d) = Some (db_conns d')"
    "d' = d\<lparr>db_conns := db_conns d'\<rparr>"
    using UpdateConnection_200 [OF u] by (metis option.inject prod.inject)
  let ?c = "(update_connection_row mc t aid port enc q c)\<lparr>UpdatedAt := now\<rparr>"
  have o: "org_connection org i d = Some c" using c(1) by (simp add: loadOwned_Inr)
  note cD = org_connection_SomeD [OF o]
  have "db_conns d' = map (\<lambda>x. if x = c then ?c else x) (db_conns d)"
    using update_unique [OF ids, of c "\<lambda>x. ID x = ID c"] cD c(3)
    by (auto simp: update_connection_def Let_def split: if_splits)
  then have "d' = d\<lparr>db_conns := map (\<lambda>x. if x = c then ?c else x) (db_conns d)\<rparr>" using c(4) by simp
  moreover have "conn_Name ?c = trim_space (cr_Name q)" "conn_Host ?c = trim_space (cr_Host q)" "ID ?c = i" "conn_OrganizationID ?c = org"
    using cD by (auto simp: update_connection_row_def Let_def split: option.split)
  moreover have "conn_EncryptedPassword ?c = conn_EncryptedPassword c \<and> conn_Status ?c = conn_Status c" if "\<not> present"
    using that c(2) by (auto simp: update_connection_row_def Let_def split: option.split)
  moreover have "decrypt v (conn_EncryptedPassword ?c) = Some (cr_Password q) \<and> conn_Status ?c = ConnectionUnknown" if p: present
  proof -
    obtain e where e: "encrypt v flt nonce (cr_Password q) = Some e" "enc = Some e"
      using p c(2) by (cases "encrypt v flt nonce (cr_Password q)") auto
    show ?thesis using decrypt_encrypt [OF assms(1,2) e(1)] by (simp add: e(2) update_connection_row_def Let_def split: option.split)
  qed
  ultimately show thesis using that o by blast
qed

text \<open>What the dashboard sees of a connection does not depend on its credential.\<close>

definition forget :: "db \<Rightarrow> db" where
  "forget d = d\<lparr>db_conns := map (\<lambda>c. c\<lparr>conn_EncryptedPassword := ''''\<rparr>) (db_conns d)\<rparr>"

lemma dto_forget: "toConnectionDTO mc now (forget d) (c\<lparr>conn_EncryptedPassword := e\<rparr>) = toConnectionDTO mc now d c"
proof -
  have "DatabaseList (c\<lparr>conn_EncryptedPassword := e\<rparr>) = DatabaseList c" by (simp add: DatabaseList_def)
  then have "MetadataList mc (c\<lparr>conn_EncryptedPassword := e\<rparr>) = MetadataList mc c"
    by (simp add: MetadataList_def cong: option.case_cong if_cong)
  then show ?thesis by (simp add: toConnectionDTO_def conn_agent_def forget_def)
qed

lemma find_map_forget:
  assumes "\<And>c. P (c\<lparr>conn_EncryptedPassword := ''''\<rparr>) = P c"
  shows "List.find P (map (\<lambda>c. c\<lparr>conn_EncryptedPassword := ''''\<rparr>) cs) =
    map_option (\<lambda>c. c\<lparr>conn_EncryptedPassword := ''''\<rparr>) (List.find P cs)"
  by (induction cs) (simp_all add: assms)

lemma get_hides_credentials: "GetConnection mc now org idp (forget d) = GetConnection mc now org idp d"
proof -
  have "org_connection org i (forget d) = map_option (\<lambda>c. c\<lparr>conn_EncryptedPassword := ''''\<rparr>) (org_connection org i d)" for i
    by (simp add: org_connection_def first_row_def forget_def find_map_forget live_def)
  then show ?thesis by (simp add: GetConnection_def loadOwned_def dto_forget split: option.split)
qed

end
