(* ===== verification/Targets.thy ===== *)
theory Targets
  imports Vault Connect
begin

text \<open>
  Storage targets, \<open>handlers/storage.go\<close>, and the pre-backup checks of \<open>handlers/preflight.go\<close>.  The S3 client
  is the parameter \<open>connect\<close>: what the AWS SDK offers under a configuration (\<open>s3_client\<close> of the storage providers,
  \<open>s3_service\<close> its contract).  The region table is a list of its own: nothing else reads it.
\<close>

subsection \<open>Targets\<close>

record storage_request =
  sq_Name :: string
  sq_Type :: storage_type
  sq_Bucket :: string
  sq_Region :: string
  sq_Endpoint :: string
  sq_UsePathStyle :: bool
  sq_AccessKey :: string
  sq_SecretKey :: string
  sq_Path :: string

text \<open>What leaves the server: the row without its two sealed keys.\<close>

record target_dto =
  td_ID :: uuid
  td_Name :: string
  td_Type :: storage_type
  td_Bucket :: string
  td_Region :: string
  td_Endpoint :: string
  td_UsePathStyle :: bool
  td_Path :: string
  td_HasCredentials :: bool

definition target_json :: "bool \<Rightarrow> storage_target \<Rightarrow> target_dto" where
  "target_json creds t =
     \<lparr>td_ID = ID t, td_Name = st_Name t, td_Type = st_Type t, td_Bucket = st_Bucket t, td_Region = st_Region t,
      td_Endpoint = st_Endpoint t, td_UsePathStyle = st_UsePathStyle t, td_Path = st_Path t, td_HasCredentials = creds\<rparr>"

definition ListTargets :: "uuid \<Rightarrow> db \<Rightarrow> target_dto list reply" where
  "ListTargets org d =
     Reply 200 (map (\<lambda>t. target_json (st_EncryptedAccessKey t \<noteq> '''' \<or> st_EncryptedSecretKey t \<noteq> '''') t)
       (rows (\<lambda>t. st_OrganizationID t = org) (db_targets d)))"

definition target_request_error :: "storage_request \<Rightarrow> string option" where
  "target_request_error q =
     (case sq_Type q of
        StorageS3 \<Rightarrow> if trim_space (sq_Bucket q) = '''' then Some ''bucket is required for S3 targets'' else None
      | StorageLocal \<Rightarrow> if trim_space (sq_Path q) = '''' then Some ''path is required for LOCAL targets'' else None
      | t \<Rightarrow> Some (''unsupported storage type '' @ CHR 0x22 # storage_type_text t @ CHR 0x22 # '' (supported: LOCAL, S3)''))"

definition new_target :: "time \<Rightarrow> uuid \<Rightarrow> uuid \<Rightarrow> string \<Rightarrow> string \<Rightarrow> storage_request \<Rightarrow> storage_target" where
  "new_target now nid org ea es q =
     \<lparr>ID = nid, CreatedAt = now, UpdatedAt = now, DeletedAt = None, st_OrganizationID = org, st_Name = sq_Name q,
      st_Type = sq_Type q, st_Bucket = sq_Bucket q, st_Region = sq_Region q, st_Endpoint = sq_Endpoint q,
      st_UsePathStyle = sq_UsePathStyle q, st_EncryptedAccessKey = ea, st_EncryptedSecretKey = es, st_Path = sq_Path q\<rparr>"

definition CreateTarget ::
    "vault \<Rightarrow> faults \<Rightarrow> time \<Rightarrow> uuid \<Rightarrow> string \<times> string \<Rightarrow> uuid \<Rightarrow> storage_request option \<Rightarrow> db \<Rightarrow> db \<times> target_dto reply" where
  "CreateTarget v flt now nid nonces org req d =
     (case req of
        None \<Rightarrow> (d, Fail 400 ''bad request'')
      | Some q \<Rightarrow>
          if sq_Name q = '''' \<or> sq_Type q = StorageOther '''' then (d, Fail 400 ''bad request'')
          else (case target_request_error q of
              Some msg \<Rightarrow> (d, Fail 400 msg)
            | None \<Rightarrow>
                (case (encrypt v flt (fst nonces) (sq_AccessKey q), encrypt v flt (snd nonces) (sq_SecretKey q)) of
                   (Some ea, Some es) \<Rightarrow>
                     let t = new_target now nid org ea es q in
                     (case (if flt ''create target'' then None else create_row now no_clash t (db_targets d)) of
                        None \<Rightarrow> (d, Fail 500 ''create failed'')
                      | Some ts \<Rightarrow> (d\<lparr>db_targets := ts\<rparr>,
                          Reply 201 (target_json (sq_AccessKey q \<noteq> '''' \<or> sq_SecretKey q \<noteq> '''') t)))
                 | _ \<Rightarrow> (d, Fail 500 ''encryption failed''))))"

definition DeleteTarget :: "faults \<Rightarrow> time \<Rightarrow> uuid \<Rightarrow> uuid option \<Rightarrow> db \<Rightarrow> db \<times> unit reply" where
  "DeleteTarget flt now org idp d =
     (case idp of
        None \<Rightarrow> (d, Fail 400 ''invalid id'')
      | Some i \<Rightarrow>
          ((if flt ''delete target'' then d
            else d\<lparr>db_targets := delete_rows now (\<lambda>t. ID t = i \<and> st_OrganizationID t = org) (db_targets d)\<rparr>), Reply 204 ()))"

subsection \<open>Testing a target\<close>

definition probe_body :: string where
  "probe_body = ''VaultGuard storage connectivity test''"

definition probe_key :: "string \<Rightarrow> string" where
  "probe_key fresh = ''.vaultguard/connection-tests/'' @ fresh @ ''.txt''"

text \<open>Put, head, get with a checksum, delete: the failing stage, or \<open>None\<close>.  \<open>sha\<close> is SHA-256.\<close>

definition roundtrip :: "(string \<Rightarrow> string) \<Rightarrow> 's s3_client \<Rightarrow> string \<Rightarrow> string \<Rightarrow> 's \<Rightarrow> 's \<times> (string \<times> string) option" where
  "roundtrip sha c bucket key s =
     (case c_Upload c bucket key probe_body ''text/plain'' (\<lambda>_. None) s of
        (s1, Inl e) \<Rightarrow> (s1, Some (''put'', e))
      | (s1, Inr _) \<Rightarrow>
          (case c_Head c bucket key s1 of
             Inl e \<Rightarrow> (s1, Some (''head'', e))
           | Inr out \<Rightarrow>
               if oo_ContentLength out \<noteq> None \<and> oo_ContentLength out \<noteq> Some (int (length probe_body))
               then (s1, Some (''head'', ''size mismatch''))
               else (case c_Get c bucket key s1 of
                   Inl e \<Rightarrow> (s1, Some (''get'', e))
                 | Inr (x, _) \<Rightarrow>
                     if sha x \<noteq> sha probe_body then (s1, Some (''checksum'', ''content mismatch''))
                     else (case c_Delete c bucket key s1 of
                         (s2, Inl e) \<Rightarrow> (s2, Some (''delete'', e))
                       | (s2, Inr _) \<Rightarrow> (s2, None)))))"

definition test_config :: "storage_target \<Rightarrow> string \<Rightarrow> string \<Rightarrow> s3_config" where
  "test_config t access secret =
     \<lparr>s3_Bucket = st_Bucket t,
      s3_Region = (if trim_space (st_Region t) = '''' then ''us-east-1'' else trim_space (st_Region t)),
      s3_Endpoint = trim_space (st_Endpoint t), s3_UsePathStyle = st_UsePathStyle t,
      s3_AccessKey = access, s3_SecretKey = secret\<rparr>"

datatype probe_reply = ProbeOk string | ProbeFailed string string | ProbeRefused nat string

definition TestTarget ::
    "vault \<Rightarrow> (string \<Rightarrow> string) \<Rightarrow> (s3_config \<Rightarrow> 's s3_client) \<Rightarrow> string \<Rightarrow> uuid \<Rightarrow> uuid option \<Rightarrow> db \<Rightarrow> 's \<Rightarrow> 's \<times> probe_reply" where
  "TestTarget v sha connect fresh org idp d s =
     (case idp of
        None \<Rightarrow> (s, ProbeRefused 400 ''invalid id'')
      | Some i \<Rightarrow>
          (case first_row (\<lambda>t. ID t = i \<and> st_OrganizationID t = org) (db_targets d) of
             None \<Rightarrow> (s, ProbeRefused 404 ''storage target not found'')
           | Some t \<Rightarrow>
               if st_Type t \<noteq> StorageS3 then (s, ProbeRefused 400 ''connection testing is only available for S3 targets'')
               else (case decrypt v (st_EncryptedAccessKey t) of
                   None \<Rightarrow> (s, ProbeRefused 400 ''target has no usable access key'')
                 | Some access \<Rightarrow>
                     if access = '''' then (s, ProbeRefused 400 ''target has no usable access key'')
                     else (case decrypt v (st_EncryptedSecretKey t) of
                         None \<Rightarrow> (s, ProbeRefused 400 ''target has no usable secret key'')
                       | Some secret \<Rightarrow>
                           if secret = '''' then (s, ProbeRefused 400 ''target has no usable secret key'')
                           else (case roundtrip sha (connect (test_config t access secret)) (st_Bucket t) (probe_key fresh) s of
                               (s1, None) \<Rightarrow> (s1, ProbeOk (st_Bucket t))
                             | (s1, Some (stage, e)) \<Rightarrow> (s1, ProbeFailed stage e))))))"

subsection \<open>Regions\<close>

record s3_region = base +
  rg_Code :: string
  rg_Name :: string
  rg_Provider :: string
  rg_Endpoint :: string
  rg_IsSystem :: bool
  rg_Active :: bool

definition region_clash :: "s3_region \<Rightarrow> s3_region \<Rightarrow> bool" where
  "region_clash x r \<longleftrightarrow> rg_Code x = rg_Code r"

text \<open>GORM fills a zero-valued field that declares a default with that default before it inserts the row.\<close>

definition region_defaults :: "s3_region \<Rightarrow> s3_region" where
  "region_defaults r =
     r\<lparr>rg_Provider := (if rg_Provider r = '''' then ''AWS'' else rg_Provider r), rg_IsSystem := True, rg_Active := True\<rparr>"

record region_request =
  gq_Code :: string
  gq_Name :: string
  gq_Provider :: string
  gq_Endpoint :: string

definition CreateRegion :: "faults \<Rightarrow> time \<Rightarrow> uuid \<Rightarrow> region_request option \<Rightarrow> s3_region list \<Rightarrow> s3_region list \<times> s3_region reply" where
  "CreateRegion flt now nid req t =
     (case req of
        None \<Rightarrow> (t, Fail 400 ''bad request'')
      | Some q \<Rightarrow>
          if gq_Code q = '''' \<or> gq_Name q = '''' then (t, Fail 400 ''bad request'')
          else
            let code = to_lower (trim_space (gq_Code q));
                provider = to_upper (trim_space (gq_Provider q)) in
            if code = '''' then (t, Fail 400 ''code is required'')
            else
              let r = \<lparr>ID = nid, CreatedAt = now, UpdatedAt = now, DeletedAt = None, rg_Code = code,
                       rg_Name = trim_space (gq_Name q), rg_Provider = (if provider = '''' then ''CUSTOM'' else provider),
                       rg_Endpoint = trim_space (gq_Endpoint q), rg_IsSystem = False, rg_Active = True\<rparr> in
              if flt ''create region'' then (t, Fail 500 ''create failed'')
              else (case create_row now region_clash (region_defaults r) t of
                  None \<Rightarrow> (t, Fail 409 ''region code already exists'')
                | Some t' \<Rightarrow> (t', Reply 201 (region_defaults r))))"

definition DeleteRegion :: "faults \<Rightarrow> time \<Rightarrow> string \<Rightarrow> s3_region list \<Rightarrow> s3_region list \<times> unit reply" where
  "DeleteRegion flt now raw t =
     (let code = to_lower (trim_space raw) in
      if code = '''' then (t, Fail 400 ''code is required'')
      else (case first_row (\<lambda>r. rg_Code r = code) t of
          None \<Rightarrow> (t, Fail 404 ''region not found'')
        | Some r \<Rightarrow>
            if rg_IsSystem r then (t, Fail 400 ''system regions cannot be deleted (deactivate instead)'')
            else ((if flt ''delete region'' then t else delete_rows now (\<lambda>x. ID x = ID r) t), Reply 204 ())))"

definition ListRegions :: "s3_region list \<Rightarrow> s3_region list reply" where
  "ListRegions t = Reply 200 (sort_key (\<lambda>r. (rg_Provider r, rg_Name r)) (rows rg_Active t))"

subsection \<open>Checks before a backup\<close>

datatype check_status = CheckOk | CheckWarn | CheckFail

record preflight_check =
  pc_Name :: string
  pc_Status :: check_status
  pc_Detail :: string

definition checkAgentOnline :: "agent option \<Rightarrow> preflight_check" where
  "checkAgentOnline a =
     (if map_option ag_Status a = Some AgentOnline then \<lparr>pc_Name = ''Agent online'', pc_Status = CheckOk, pc_Detail = ''''\<rparr>
      else \<lparr>pc_Name = ''Agent online'', pc_Status = CheckFail,
            pc_Detail = ''Agent '' @ (case a of None \<Rightarrow> '''' | Some x \<Rightarrow> ag_Name x) @ '' is OFFLINE '' @ em_dash @ '' backup cannot be dispatched''\<rparr>)"

definition checkNoConflictingRun :: "uuid \<Rightarrow> db \<Rightarrow> preflight_check" where
  "checkNoConflictingRun j d =
     (if in_flight_count j d = 0 then \<lparr>pc_Name = ''No conflicting run'', pc_Status = CheckOk, pc_Detail = ''''\<rparr>
      else \<lparr>pc_Name = ''No conflicting run'', pc_Status = CheckWarn,
            pc_Detail = ''A backup run for this job is already in progress''\<rparr>)"

definition checkStorageReachable :: "(string \<Rightarrow> string option) \<Rightarrow> storage_target \<Rightarrow> preflight_check" where
  "checkStorageReachable stat t =
     (if st_Type t = StorageLocal then
        if st_Path t = '''' then
          \<lparr>pc_Name = ''Storage reachable'', pc_Status = CheckFail, pc_Detail = ''LOCAL storage target has no path configured''\<rparr>
        else (case stat (st_Path t) of
            Some e \<Rightarrow> \<lparr>pc_Name = ''Storage reachable'', pc_Status = CheckFail,
                       pc_Detail = ''Storage path not accessible from server: '' @ e\<rparr>
          | None \<Rightarrow> \<lparr>pc_Name = ''Storage reachable'', pc_Status = CheckOk, pc_Detail = ''''\<rparr>)
      else \<lparr>pc_Name = ''Storage reachable'', pc_Status = CheckWarn,
            pc_Detail = ''Remote storage ('' @ storage_type_text (st_Type t)
              @ '') reachability can only be verified by the agent at runtime''\<rparr>)"

definition checkDiskSpace :: "storage_target \<Rightarrow> preflight_check" where
  "checkDiskSpace t =
     \<lparr>pc_Name = ''Disk space'', pc_Status = CheckWarn,
      pc_Detail =
        (if st_Type t \<noteq> StorageLocal \<or> st_Path t = '''' then ''Cannot check disk space for remote storage targets''
         else ''Disk space is checked by the agent at runtime; ensure the storage path has sufficient free space'')\<rparr>"

definition checkEncryptionKey :: "backup_job \<Rightarrow> preflight_check" where
  "checkEncryptionKey j =
     \<lparr>pc_Name = ''Encryption key'', pc_Status = CheckOk,
      pc_Detail = (if \<not> rp_Encrypted (EffectivePolicy j) then ''Encryption not enabled for this job'' else '''')\<rparr>"

fun overall_status :: "check_status \<Rightarrow> preflight_check list \<Rightarrow> check_status" where
  "overall_status acc [] = acc"
| "overall_status acc (c # cs) =
     (if pc_Status c = CheckFail then CheckFail
      else overall_status (if pc_Status c = CheckWarn \<and> acc \<noteq> CheckFail then CheckWarn else acc) cs)"

definition Preflight ::
    "(string \<Rightarrow> string option) \<Rightarrow> uuid \<Rightarrow> uuid option \<Rightarrow> db \<Rightarrow> (check_status \<times> preflight_check list) reply" where
  "Preflight stat org idp d =
     (case idp of
        None \<Rightarrow> Fail 400 ''invalid id''
      | Some i \<Rightarrow>
          (case first_row (\<lambda>j. ID j = i \<and> job_OrganizationID j = org) (db_jobs d) of
             None \<Rightarrow> Fail 404 ''job not found''
           | Some j0 \<Rightarrow>
               let j = preload_job d j0; t = target_of_job j d;
                   checks = [checkAgentOnline (first_row (\<lambda>a. ID a = job_AgentID j) (db_agents d)),
                             checkNoConflictingRun (ID j) d, checkStorageReachable stat t, checkDiskSpace t,
                             checkEncryptionKey j]
               in Reply 200 (overall_status CheckOk checks, checks)))"

subsection \<open>Facts\<close>

lemma overall_status_spec:
  "overall_status acc cs = CheckFail \<longleftrightarrow> acc = CheckFail \<or> (\<exists>c\<in>set cs. pc_Status c = CheckFail)"
  "overall_status acc cs = CheckOk \<longleftrightarrow> acc = CheckOk \<and> (\<forall>c\<in>set cs. pc_Status c = CheckOk)"
  subgoal by (induction cs arbitrary: acc) auto
  subgoal
  proof (induction cs arbitrary: acc)
    case (Cons c cs)
    then show ?case by (cases "pc_Status c"; cases acc) auto
  qed simp
  done

text \<open>The disk check always warns, so no job passes without one.\<close>

lemma preflight_never_clean: "Preflight stat org idp d \<noteq> Reply 200 (CheckOk, cs)"
proof -
  have "overall_status CheckOk [a, b, c, checkDiskSpace t, e] \<noteq> CheckOk" for a b c e t
    by (simp add: overall_status_spec checkDiskSpace_def del: overall_status.simps)
  then show ?thesis by (simp add: Preflight_def Let_def del: overall_status.simps split: option.split)
qed

lemma CreateTarget_201:
  assumes "CreateTarget v flt now nid nonces org req d = (d', Reply n dto)"
  obtains q ea es where "req = Some q" "target_request_error q = None"
    "encrypt v flt (fst nonces) (sq_AccessKey q) = Some ea" "encrypt v flt (snd nonces) (sq_SecretKey q) = Some es"
    "create_row now no_clash (new_target now nid org ea es q) (db_targets d) = Some (db_targets d')"
    "d' = d\<lparr>db_targets := db_targets d'\<rparr>" "dto = target_json (sq_AccessKey q \<noteq> [] \<or> sq_SecretKey q \<noteq> []) (new_target now nid org ea es q)"
  using assms unfolding CreateTarget_def Let_def
  by (auto split: option.splits if_splits prod.splits)

lemma create_row_last:
  assumes "create_row now clash r t = Some t'" and "CreatedAt r = now" and "UpdatedAt r = now" and "DeletedAt r = None"
  shows "t' = t @ [r]" and "\<forall>x\<in>set t. ID x \<noteq> ID r"
proof -
  have "r\<lparr>CreatedAt := now, UpdatedAt := now, DeletedAt := None\<rparr> = r" using assms(2-4) by (cases r) simp
  then show "t' = t @ [r]" "\<forall>x\<in>set t. ID x \<noteq> ID r" using create_row_SomeD [OF assms(1)] by simp_all
qed

text \<open>Base64 of the empty text is empty and of no other (the codec's \<open>va_Encode v [] = []\<close>), and what is sealed
  starts with a nonce: so the listing claims credentials for every target ever created.\<close>

lemma encrypt_nonempty:
  assumes "vault_ok v" and "va_Encode v [] = []" and "length nonce = 12" and "encrypt v flt nonce p = Some c"
  shows "c \<noteq> []"
proof
  assume c: "c = []"
  obtain x where x: "c = va_Encode v (nonce @ x)" using assms(4) by (auto simp: encrypt_def split: if_splits)
  have "va_Encode v (nonce @ x) = va_Encode v []" using x c assms(2) by simp
  then have "va_Decode v (va_Encode v (nonce @ x)) = va_Decode v (va_Encode v [])" by (rule arg_cong)
  then have "nonce @ x = []" using assms(1) unfolding vault_ok_def by (metis option.inject)
  then show False using assms(3) by simp
qed

lemma created_lists_credentials:
  assumes "vault_ok v" and "va_Encode v [] = []" and "length (fst nonces) = 12"
    and "CreateTarget v flt now nid nonces org req d = (d', Reply n dto)"
  shows "\<exists>x\<in>set (case ListTargets org d' of Reply _ xs \<Rightarrow> xs | Fail _ _ \<Rightarrow> []). td_ID x = nid \<and> td_HasCredentials x"
proof -
  obtain q ea es where c: "encrypt v flt (fst nonces) (sq_AccessKey q) = Some ea"
    "create_row now no_clash (new_target now nid org ea es q) (db_targets d) = Some (db_targets d')"
    using CreateTarget_201 [OF assms(4)] by metis
  let ?t = "new_target now nid org ea es q"
  have t: "CreatedAt ?t = now" "UpdatedAt ?t = now" "DeletedAt ?t = None" by (simp_all add: new_target_def)
  have "?t \<in> set (rows (\<lambda>t. st_OrganizationID t = org) (db_targets d'))"
    using create_row_last [OF c(2) t] by (simp add: rows_iff) (simp add: new_target_def live_def)
  moreover have "ea \<noteq> []" using encrypt_nonempty [OF assms(1-3) c(1)] .
  ultimately show ?thesis by (force simp: ListTargets_def target_json_def new_target_def)
qed

lemma deleted_target_dangles:
  assumes "job_StorageTargetID j = i" and "first_row (\<lambda>t. ID t = i) (db_targets d) = Some t" and "st_OrganizationID t = org"
    and "unique_ids (db_targets d)"
  shows "target_of_job j (fst (DeleteTarget no_faults now org (Some i) d)) = zero_target"
proof -
  have t: "t \<in> set (db_targets d)" "ID t = i" using first_row_SomeD [OF assms(2)] by auto
  have "first_row (\<lambda>t. ID t = i) (delete_rows now (\<lambda>t. ID t = i \<and> st_OrganizationID t = org) (db_targets d)) = None"
  proof -
    have "x = t" if "x \<in> set (db_targets d)" "ID x = i" for x using unique_ids_eq [OF assms(4) that(1) t(1)] that(2) t(2) by simp
    then show ?thesis unfolding first_row_None_iff using live_delete_rows assms(3) by blast
  qed
  then show ?thesis using assms(1) by (simp add: DeleteTarget_def no_faults_def target_of_job_def)
qed

subsection \<open>What a test does to the bucket\<close>

lemma s3_upload: "s3_service c obj \<Longrightarrow> c_Upload c b k d ct m s = (s', u) \<Longrightarrow>
    obj s' b = (case u of Inl _ \<Rightarrow> obj s b | Inr _ \<Rightarrow> (obj s b)(k \<mapsto> d))"
  and s3_read: "s3_service c obj \<Longrightarrow> c_Get c b k s = Inr (x, out) \<Longrightarrow> obj s b k = Some x"
  and s3_erase: "s3_service c obj \<Longrightarrow> c_Delete c b k s = (s', w) \<Longrightarrow>
    (case w of Inl _ \<Rightarrow> s' = s | Inr _ \<Rightarrow> obj s' b = (obj s b)(k := None))"
  by (simp_all add: s3_service_def)

lemma roundtrip_cases:
  assumes "roundtrip sha c b k s = (s', r)"
  obtains (put) e where "c_Upload c b k probe_body ''text/plain'' (\<lambda>_. None) s = (s', Inl e)" "r = Some (''put'', e)"
  | (stays) tag stage e where "c_Upload c b k probe_body ''text/plain'' (\<lambda>_. None) s = (s', Inr tag)" "r = Some (stage, e)"
      "stage = ''head'' \<or> stage = ''get'' \<or> stage = ''checksum'' \<and> (\<exists>x out. c_Get c b k s' = Inr (x, out) \<and> sha x \<noteq> sha probe_body)"
  | (delete) s1 tag e where "c_Upload c b k probe_body ''text/plain'' (\<lambda>_. None) s = (s1, Inr tag)"
      "c_Delete c b k s1 = (s', Inl e)" "r = Some (''delete'', e)"
  | (passed) s1 tag x out where "c_Upload c b k probe_body ''text/plain'' (\<lambda>_. None) s = (s1, Inr tag)"
      "c_Get c b k s1 = Inr (x, out)" "sha x = sha probe_body" "c_Delete c b k s1 = (s', Inr ())" "r = None"
proof (cases "c_Upload c b k probe_body ''text/plain'' (\<lambda>_. None) s")
  case (Pair s1 u)
  show ?thesis
  proof (cases u)
    case (Inl e)
    then show ?thesis using assms Pair by (intro put) (auto simp: roundtrip_def)
  next
    case (Inr tag)
    show ?thesis using assms Pair Inr stays delete that(4)
      by (fastforce simp: roundtrip_def split: sum.splits if_splits prod.splits)
  qed
qed

text \<open>C31. Testing an S3 target against a service that keeps its contract changes the bucket in exactly the way its
  answer says: an \<open>ok\<close>, or a refusal at the put, leaves every other object as it was and no probe behind; a failure after
  the put names the stage \<open>head\<close>, \<open>get\<close> or \<open>delete\<close> (never \<open>checksum\<close>) and the probe object is still there; a request refused
  beforehand touches nothing.\<close>

theorem target_test_effect:
  assumes "\<And>cfg. s3_service (connect cfg) obj"
    and "TestTarget v sha connect fresh org (Some i) d s = (s', r)"
    and "first_row (\<lambda>t. ID t = i \<and> st_OrganizationID t = org) (db_targets d) = Some t"
  shows "case r of
      ProbeOk b \<Rightarrow> b = st_Bucket t \<and> obj s' b = (obj s b)(probe_key fresh := None)
    | ProbeFailed stage _ \<Rightarrow>
        if stage = ''put'' then obj s' (st_Bucket t) = obj s (st_Bucket t)
        else stage \<in> {''head'', ''get'', ''delete''} \<and> obj s' (st_Bucket t) = (obj s (st_Bucket t))(probe_key fresh \<mapsto> probe_body)
    | ProbeRefused n _ \<Rightarrow> n = 400 \<and> s' = s"
proof (cases "\<exists>n m. r = ProbeRefused n m")
  case True
  then show ?thesis using assms(2,3)
    by (auto simp: TestTarget_def split: option.splits if_splits prod.splits)
next
  case False
  obtain access secret q where p: "roundtrip sha (connect (test_config t access secret)) (st_Bucket t) (probe_key fresh) s = (s', q)"
    "r = (case q of None \<Rightarrow> ProbeOk (st_Bucket t) | Some (stage, e) \<Rightarrow> ProbeFailed stage e)"
    using assms(2,3) False by (auto simp: TestTarget_def split: option.splits if_splits prod.splits)
  let ?c = "connect (test_config t access secret)" and ?b = "st_Bucket t" and ?k = "probe_key fresh"
  have up: "obj s2 ?b = (case u of Inl _ \<Rightarrow> obj s ?b | Inr _ \<Rightarrow> (obj s ?b)(?k \<mapsto> probe_body))"
    if "c_Upload ?c ?b ?k probe_body ''text/plain'' (\<lambda>_. None) s = (s2, u)" for s2 u
    using s3_upload [OF assms(1) that] .
  have get: "obj s2 ?b ?k = Some x" if "c_Get ?c ?b ?k s2 = Inr (x, out)" for s2 x out
    using s3_read [OF assms(1) that] .
  have del: "case u of Inl _ \<Rightarrow> s3 = s2 | Inr _ \<Rightarrow> obj s3 ?b = (obj s2 ?b)(?k := None)"
    if "c_Delete ?c ?b ?k s2 = (s3, u)" for s2 s3 u
    using s3_erase [OF assms(1) that] .
  from p(1) show ?thesis
  proof (cases rule: roundtrip_cases)
    case (put e)
    then show ?thesis using up [OF put(1)] p(2) by simp
  next
    case (stays tag stage e)
    have "obj s' ?b = (obj s ?b)(?k \<mapsto> probe_body)" using up [OF stays(1)] by simp
    moreover from this have "stage \<noteq> ''checksum''" using stays(3) get by force
    ultimately show ?thesis using stays(2,3) p(2) by auto
  next
    case (delete s1 tag e)
    then show ?thesis using up [OF delete(1)] del [OF delete(2)] p(2) by simp
  next
    case (passed s1 tag x out)
    then show ?thesis using up [OF passed(1)] del [OF passed(4)] p(2) by simp
  qed
qed

text \<open>A bucket service in memory, for the witness.\<close>

definition mem_client :: "(string \<Rightarrow> string \<Rightarrow> string option) s3_client" where
  "mem_client =
     \<lparr>c_Upload = (\<lambda>b k x ct m s. (s(b := (s b)(k \<mapsto> x)), Inr ''tag'')),
      c_Get = (\<lambda>b k s. case s b k of None \<Rightarrow> Inl ''no such key''
        | Some x \<Rightarrow> Inr (x, \<lparr>oo_ContentLength = Some (int (length x)), oo_ETag = '''', oo_Metadata = (\<lambda>_. None)\<rparr>)),
      c_Delete = (\<lambda>b k s. (s(b := (s b)(k := None)), Inr ())),
      c_Head = (\<lambda>b k s. case s b k of None \<Rightarrow> Inl ''not found''
        | Some x \<Rightarrow> Inr \<lparr>oo_ContentLength = Some (int (length x)), oo_ETag = '''', oo_Metadata = (\<lambda>_. None)\<rparr>)\<rparr>"

lemma mem_client_service: "s3_service mem_client (\<lambda>s. s)"
  by (auto simp: s3_service_def mem_client_def split: option.splits)

definition sealed_target :: storage_target where
  "sealed_target = zero_target\<lparr>ID := ''s3'', st_OrganizationID := ''o1'', st_Type := StorageS3, st_Bucket := ''b'',
     st_EncryptedAccessKey := the (encrypt toy_vault no_faults (replicate 12 (CHR ''n'')) ''AK''),
     st_EncryptedSecretKey := the (encrypt toy_vault no_faults (replicate 12 (CHR ''m'')) ''SK'')\<rparr>"

theorem target_test_effect_witness:
  "case TestTarget toy_vault (\<lambda>x. x) (\<lambda>_. mem_client) ''u1'' ''o1'' (Some ''s3'') (empty_db\<lparr>db_targets := [sealed_target]\<rparr>) (\<lambda>_ _. None) of
     (s', ProbeOk b) \<Rightarrow> b = ''b'' \<and> s' b = Map.empty | _ \<Rightarrow> False"
proof -
  let ?T = "TestTarget toy_vault (\<lambda>x. x) (\<lambda>_. mem_client) ''u1'' ''o1'' (Some ''s3'') (empty_db\<lparr>db_targets := [sealed_target]\<rparr>) (\<lambda>_ _. None)"
  have f: "first_row (\<lambda>t. ID t = ''s3'' \<and> st_OrganizationID t = ''o1'') (db_targets (empty_db\<lparr>db_targets := [sealed_target]\<rparr>)) = Some sealed_target"
    by (simp add: first_row_def live_def sealed_target_def zero_target_def)
  obtain s' r where t: "?T = (s', r)" by (rule prod.exhaust)
  have "case snd ?T of ProbeOk b \<Rightarrow> b = ''b'' | _ \<Rightarrow> False" by code_simp
  then show ?thesis
    using target_test_effect [where obj = "\<lambda>s. s", OF mem_client_service t f] by (auto simp: t split: probe_reply.splits)
qed

subsection \<open>Regions are never deleted\<close>

text \<open>Create means to store a custom region that a delete may remove, but the column default makes every row a
  system row: no sequence of requests removes a region, and a delete answers success for none.\<close>

inductive region_step :: "s3_region list \<Rightarrow> s3_region list \<Rightarrow> bool" where
  region_created: "region_step t (fst (CreateRegion flt now nid req t))"
| region_deleted: "region_step t (fst (DeleteRegion flt now raw t))"

lemma region_step_keeps:
  assumes "region_step t t'" and "\<forall>r\<in>set t. rg_IsSystem r"
  shows "set t \<subseteq> set t' \<and> (\<forall>r\<in>set t'. rg_IsSystem r)"
  using assms(1)
proof cases
  case (region_created flt now nid req)
  have "set t \<subseteq> set u \<and> (\<forall>r\<in>set u. rg_IsSystem r)" if "create_row now region_clash (region_defaults r) t = Some u" for r u
    using create_row_SomeD(1) [OF that] assms(2) by (auto simp: region_defaults_def)
  then show ?thesis using assms(2) region_created
    by (auto simp: CreateRegion_def Let_def split: option.splits if_splits) 
next
  case (region_deleted flt now raw)
  have "t' = t" using region_deleted assms(2) first_row_SomeD(1) [of _ t]
    by (auto simp: DeleteRegion_def Let_def split: option.split)
  then show ?thesis using assms(2) by simp
qed

lemma regions_never_deleted:
  assumes "region_step\<^sup>*\<^sup>* t t'" and "\<forall>r\<in>set t. rg_IsSystem r"
  shows "set t \<subseteq> set t' \<and> status_code (snd (DeleteRegion flt now raw t')) \<noteq> 204"
proof -
  have k: "set t \<subseteq> set t' \<and> (\<forall>r\<in>set t'. rg_IsSystem r)"
    using assms by (induction rule: rtranclp_induct) (blast dest: region_step_keeps)+
  then show ?thesis using first_row_SomeD(1) [of _ t']
    by (auto simp: DeleteRegion_def Let_def split: option.split)
qed

end
