(* ===== verification/Ratelimit.thy ===== *)
theory Ratelimit
  imports Prelude
begin

text \<open>
  The sliding-window limiter of \<open>middleware/ratelimit.go\<close> that guards login, registration and enrollment.  The map of
  attempts is a function from keys to lists (Go's nil slice for an absent key is the empty list); the mutex makes
  each call one step, at its own reading of the clock.
\<close>

record rate_limiter =
  rl_limit :: int
  rl_window :: duration
  rl_attempts :: "string \<Rightarrow> time list"

definition NewRateLimiter :: "int \<Rightarrow> duration \<Rightarrow> rate_limiter" where
  "NewRateLimiter limit window = \<lparr>rl_limit = limit, rl_window = window, rl_attempts = (\<lambda>_. [])\<rparr>"

definition recent :: "rate_limiter \<Rightarrow> time \<Rightarrow> time list \<Rightarrow> time list" where
  "recent rl now ts = filter (\<lambda>t. now - rl_window rl < t) ts"

definition Allow :: "time \<Rightarrow> string \<Rightarrow> rate_limiter \<Rightarrow> rate_limiter \<times> bool" where
  "Allow now key rl =
     (let kept = recent rl now (rl_attempts rl key) in
      if rl_limit rl \<le> int (length kept) then (rl\<lparr>rl_attempts := (rl_attempts rl)(key := kept)\<rparr>, False)
      else (rl\<lparr>rl_attempts := (rl_attempts rl)(key := kept @ [now])\<rparr>, True))"

text \<open>One round of the goroutine that drops idle keys.\<close>

definition reap :: "time \<Rightarrow> rate_limiter \<Rightarrow> rate_limiter" where
  "reap now rl = rl\<lparr>rl_attempts := (\<lambda>k. recent rl now (rl_attempts rl k))\<rparr>"

definition LimitAuth :: "time \<Rightarrow> string \<Rightarrow> rate_limiter \<Rightarrow> rate_limiter \<times> ((nat \<times> string) option)" where
  "LimitAuth now ip rl =
     (case Allow now ip rl of
        (rl', ok) \<Rightarrow> (rl', if ok then None else Some (429, ''too many attempts, try again later'')))"

text \<open>A history of the limiter: calls of \<open>Allow\<close> and rounds of \<open>reap\<close> with the clock readings they saw, and the
  calls it let through.\<close>

datatype limiter_event = Attempt time string | Reap time

fun event_time :: "limiter_event \<Rightarrow> time" where
  "event_time (Attempt t _) = t"
| "event_time (Reap t) = t"

fun passed :: "limiter_event list \<Rightarrow> rate_limiter \<Rightarrow> (time \<times> string) list" where
  "passed [] rl = []"
| "passed (Reap t # es) rl = passed es (reap t rl)"
| "passed (Attempt t k # es) rl =
     (if snd (Allow t k rl) then (t, k) # passed es (fst (Allow t k rl)) else passed es (fst (Allow t k rl)))"

definition in_window :: "duration \<Rightarrow> time \<Rightarrow> string \<Rightarrow> (time \<times> string) list \<Rightarrow> (time \<times> string) list" where
  "in_window w t k ps = filter (\<lambda>(u, j). j = k \<and> t - w < u \<and> u \<le> t) ps"

subsection \<open>The budget\<close>

text \<open>What the limiter knows: of the calls let through so far (\<open>ps\<close>), it still holds for every key those of the
  window that ends now.\<close>

definition remembers :: "rate_limiter \<Rightarrow> (time \<times> string) list \<Rightarrow> time \<Rightarrow> bool" where
  "remembers rl ps now \<longleftrightarrow>
     (\<forall>(u, j)\<in>set ps. u \<le> now) \<and>
     (\<forall>k. filter (\<lambda>u. now - rl_window rl < u) (rl_attempts rl k)
          = filter (\<lambda>u. now - rl_window rl < u) (map fst (filter (\<lambda>(u, j). j = k) ps)))"

lemma recent_mono: "now \<le> now' \<Longrightarrow>
    filter (\<lambda>u. now' - w < u) (filter (\<lambda>u. now - w < u) ts) = filter (\<lambda>u. (now'::int) - w < u) ts"
  by (auto intro: filter_cong)

lemma remembers_later: "remembers rl ps now \<Longrightarrow> now \<le> now' \<Longrightarrow> remembers rl ps now'"
  unfolding remembers_def by (metis (mono_tags, lifting) recent_mono case_prodD case_prodI2 order_trans)

lemma remembers_cong:
  assumes "remembers rl ps now" and "rl_window rl' = rl_window rl"
    and "\<And>k. filter (\<lambda>u. now - rl_window rl < u) (rl_attempts rl' k) = filter (\<lambda>u. now - rl_window rl < u) (rl_attempts rl k)"
  shows "remembers rl' ps now"
  using assms by (simp add: remembers_def)

lemma remembers_reap: "remembers rl ps now \<Longrightarrow> remembers (reap now rl) ps now"
  by (erule remembers_cong) (simp_all add: reap_def recent_def)

lemma remembers_refused: "remembers rl ps now \<Longrightarrow> \<not> snd (Allow now k rl) \<Longrightarrow> remembers (fst (Allow now k rl)) ps now"
  by (erule remembers_cong) (auto simp: Allow_def Let_def recent_def split: if_splits)

lemma remembers_allowed:
  assumes "remembers rl ps now" and "snd (Allow now k rl)"
  shows "remembers (fst (Allow now k rl)) (ps @ [(now, k)]) now"
  using assms by (auto simp: remembers_def Allow_def Let_def recent_def split: if_splits)

lemma window_length:
  assumes "remembers rl ps now"
  shows "length (in_window (rl_window rl) now k ps) = length (recent rl now (rl_attempts rl k))"
proof -
  have "in_window (rl_window rl) now k ps = filter (\<lambda>(u, j). now - rl_window rl < u) (filter (\<lambda>(u, j). j = k) ps)"
    using assms unfolding in_window_def remembers_def by (auto intro!: filter_cong)
  then have "length (in_window (rl_window rl) now k ps)
    = length (filter (\<lambda>u. now - rl_window rl < u) (map fst (filter (\<lambda>(u, j). j = k) ps)))"
    by (simp add: filter_map comp_def case_prod_beta)
  then show ?thesis using assms by (simp add: remembers_def recent_def)
qed

text \<open>Every window, wherever it ends, stays within the budget.\<close>

definition within :: "int \<Rightarrow> duration \<Rightarrow> (time \<times> string) list \<Rightarrow> bool" where
  "within limit w ps \<longleftrightarrow> (\<forall>t k. int (length (in_window w t k ps)) \<le> max 0 limit)"

lemma within_allowed:
  assumes "within (rl_limit rl) (rl_window rl) ps" and "remembers rl ps now" and "snd (Allow now k rl)"
  shows "within (rl_limit rl) (rl_window rl) (ps @ [(now, k)])"
proof -
  have few: "int (length (in_window (rl_window rl) now k ps)) < rl_limit rl"
    using assms(3) window_length [OF assms(2)] by (auto simp: Allow_def Let_def split: if_splits)
  have "int (length (in_window (rl_window rl) t j (ps @ [(now, k)]))) \<le> max 0 (rl_limit rl)" for t j
  proof (cases "j = k \<and> t - rl_window rl < now \<and> now \<le> t")
    case True
    have "in_window (rl_window rl) t j ps = filter (\<lambda>(u, j). t - rl_window rl < u) (in_window (rl_window rl) now k ps)"
      using True assms(2) unfolding in_window_def remembers_def by (auto intro!: filter_cong)
    then have "length (in_window (rl_window rl) t j ps) \<le> length (in_window (rl_window rl) now k ps)" by simp
    then show ?thesis using few True by (simp add: in_window_def)
  next
    case False
    then have "in_window (rl_window rl) t j (ps @ [(now, k)]) = in_window (rl_window rl) t j ps" by (auto simp: in_window_def)
    then show ?thesis using assms(1) by (simp add: within_def)
  qed
  then show ?thesis by (simp add: within_def)
qed

lemma Allow_keeps [simp]: "rl_limit (fst (Allow t k rl)) = rl_limit rl" "rl_window (fst (Allow t k rl)) = rl_window rl"
  and reap_keeps [simp]: "rl_limit (reap t rl) = rl_limit rl" "rl_window (reap t rl) = rl_window rl"
  by (simp_all add: Allow_def Let_def reap_def)

lemma passed_within:
  assumes "sorted (now # map event_time es)" and "remembers rl ps now" and "within (rl_limit rl) (rl_window rl) ps"
  shows "within (rl_limit rl) (rl_window rl) (ps @ passed es rl)"
  using assms
proof (induction es rl arbitrary: ps now rule: passed.induct)
  case (1 rl)
  then show ?case by simp
next
  case (2 t es rl)
  have "remembers (reap t rl) ps t" using "2.prems"(1) by (intro remembers_reap remembers_later [OF "2.prems"(2)]) simp
  from "2.IH" [OF _ this] show ?case using "2.prems" by simp
next
  case (3 t k es rl)
  have r: "remembers rl ps t" using "3.prems"(1) by (intro remembers_later [OF "3.prems"(2)]) simp
  show ?case
  proof (cases "snd (Allow t k rl)")
    case True
    from "3.IH"(1) [OF True, of t "ps @ [(t, k)]"] show ?thesis
      using "3.prems"(1,3) True remembers_allowed [OF r True] within_allowed [OF _ r True] by simp
  next
    case False
    from "3.IH"(2) [OF False, of t ps] show ?thesis using "3.prems"(1,3) False remembers_refused [OF r False] by simp
  qed
qed

text \<open>C16. The limiter keeps its promise for every key and every window, not only for windows that end at a call:
  of the attempts with one key in any half-open interval as long as the window it lets at most \<open>limit\<close> through,
  whatever the interleaving with other keys and with the reaper, as long as the clock does not run back.\<close>

theorem rate_limit_bound:
  assumes "sorted (map event_time es)" and "0 \<le> limit"
  shows "int (length (in_window window t key (passed es (NewRateLimiter limit window)))) \<le> limit"
proof (cases es)
  case Nil
  then show ?thesis using assms(2) by (simp add: in_window_def)
next
  case (Cons e es')
  let ?rl = "NewRateLimiter limit window"
  have "remembers ?rl [] (event_time e)" by (simp add: remembers_def NewRateLimiter_def)
  moreover have "within (rl_limit ?rl) (rl_window ?rl) []" by (simp add: within_def in_window_def)
  moreover have "sorted (event_time e # map event_time es)" using assms(1) Cons by simp
  ultimately have "within (rl_limit ?rl) (rl_window ?rl) ([] @ passed es ?rl)" by (intro passed_within)
  then show ?thesis using assms(2) by (auto simp: within_def NewRateLimiter_def)
qed

definition burst :: "limiter_event list" where
  "burst = [Attempt 1 ''ip'', Attempt 2 ''ip'', Attempt 3 ''ip'', Attempt 4 ''other'', Reap 5, Attempt 12 ''ip'']"

theorem rate_limit_bound_witness:
  "passed burst (NewRateLimiter 2 10) = [(1, ''ip''), (2, ''ip''), (4, ''other''), (12, ''ip'')] \<and>
   int (length (in_window 10 12 ''ip'' (passed burst (NewRateLimiter 2 10)))) \<le> 2"
proof
  show "passed burst (NewRateLimiter 2 10) = [(1, ''ip''), (2, ''ip''), (4, ''other''), (12, ''ip'')]"
    by (simp add: burst_def NewRateLimiter_def Allow_def Let_def recent_def reap_def)
  show "int (length (in_window 10 12 ''ip'' (passed burst (NewRateLimiter 2 10)))) \<le> 2"
    by (rule rate_limit_bound) (simp_all add: burst_def)
qed

end
