(* ===== verification/Settings.thy ===== *)
theory Settings
  imports Alerts
begin

text \<open>
  Notification settings of an organization and email preferences of a user: \<open>handlers/notification_settings.go\<close>, and the
  delivery probe with \<open>Mailer.Send\<close> of \<open>services/mailer.go\<close>.  These two tables have no soft delete; their primary key is
  the organization, respectively the user.
\<close>

subsection \<open>Settings of an organization\<close>

definition defaultSettings :: "uuid \<Rightarrow> notification_settings" where
  "defaultSettings org = \<lparr>ns_OrganizationID = org, ns_WebhookURL = '''', ns_WebhookEnabled = False, ns_WebhookSecret = '''',
     ns_QuietHoursStart = -1, ns_QuietHoursEnd = -1, ns_MinEmailSeverity = SeverityWarning, ns_OfflineThresholdMin = 3,
     ns_MissedWindowMult = 2, ns_UpdatedAt = 0\<rparr>"

definition GetSettings :: "uuid \<Rightarrow> db \<Rightarrow> notification_settings reply" where
  "GetSettings org d = Reply 200 (case find_settings org d of None \<Rightarrow> defaultSettings org | Some s \<Rightarrow> s)"

record settings_request =
  uq_WebhookURL :: "string option"
  uq_WebhookEnabled :: "bool option"
  uq_WebhookSecret :: "string option"
  uq_QuietHoursStart :: "int option"
  uq_QuietHoursEnd :: "int option"
  uq_MinEmailSeverity :: "severity option"
  uq_OfflineThresholdMin :: "int option"
  uq_MissedWindowMult :: "int option"

definition validSeverity :: "severity \<Rightarrow> bool" where
  "validSeverity s \<longleftrightarrow> s \<in> {SeverityInfo, SeverityWarning, SeverityCritical}"

definition given :: "'a option \<Rightarrow> 'a \<Rightarrow> 'a" where
  "given x old = (case x of None \<Rightarrow> old | Some y \<Rightarrow> y)"

definition request_error :: "settings_request \<Rightarrow> string option" where
  "request_error q =
     (if (case uq_MinEmailSeverity q of None \<Rightarrow> False | Some v \<Rightarrow> \<not> validSeverity v)
      then Some ''min_email_severity must be info, warning, or critical''
      else if (case uq_OfflineThresholdMin q of None \<Rightarrow> False | Some n \<Rightarrow> n < 1 \<or> 60 < n)
      then Some ''offline_threshold_minutes must be between 1 and 60''
      else if (case uq_MissedWindowMult q of None \<Rightarrow> False | Some n \<Rightarrow> n < 1 \<or> 24 < n)
      then Some ''missed_window_multiplier must be between 1 and 24''
      else None)"

text \<open>The webhook secret is write-only: an empty one keeps what is stored.\<close>

definition apply_request :: "settings_request \<Rightarrow> notification_settings \<Rightarrow> notification_settings" where
  "apply_request q s =
     s\<lparr>ns_WebhookURL := (case uq_WebhookURL q of None \<Rightarrow> ns_WebhookURL s | Some u \<Rightarrow> trim_space u),
       ns_WebhookEnabled := given (uq_WebhookEnabled q) (ns_WebhookEnabled s),
       ns_WebhookSecret := (case uq_WebhookSecret q of None \<Rightarrow> ns_WebhookSecret s
          | Some x \<Rightarrow> if trim_space x \<noteq> '''' then trim_space x else ns_WebhookSecret s),
       ns_QuietHoursStart := given (uq_QuietHoursStart q) (ns_QuietHoursStart s),
       ns_QuietHoursEnd := given (uq_QuietHoursEnd q) (ns_QuietHoursEnd s),
       ns_MinEmailSeverity := given (uq_MinEmailSeverity q) (ns_MinEmailSeverity s),
       ns_OfflineThresholdMin := given (uq_OfflineThresholdMin q) (ns_OfflineThresholdMin s),
       ns_MissedWindowMult := given (uq_MissedWindowMult q) (ns_MissedWindowMult s)\<rparr>"

text \<open>The first write inserts: GORM replaces a zero-valued field that declares a default by that default.\<close>

definition settings_defaults :: "notification_settings \<Rightarrow> notification_settings" where
  "settings_defaults s =
     s\<lparr>ns_QuietHoursStart := (if ns_QuietHoursStart s = 0 then -1 else ns_QuietHoursStart s),
       ns_QuietHoursEnd := (if ns_QuietHoursEnd s = 0 then -1 else ns_QuietHoursEnd s),
       ns_MinEmailSeverity := (if ns_MinEmailSeverity s = SeverityOther '''' then SeverityWarning else ns_MinEmailSeverity s),
       ns_OfflineThresholdMin := (if ns_OfflineThresholdMin s = 0 then 3 else ns_OfflineThresholdMin s),
       ns_MissedWindowMult := (if ns_MissedWindowMult s = 0 then 2 else ns_MissedWindowMult s)\<rparr>"

definition UpdateSettings ::
    "faults \<Rightarrow> time \<Rightarrow> uuid \<Rightarrow> settings_request option \<Rightarrow> db \<Rightarrow> db \<times> notification_settings reply" where
  "UpdateSettings flt now org req d =
     (case req of
        None \<Rightarrow> (d, Fail 400 ''invalid request body'')
      | Some q \<Rightarrow>
          (case request_error q of
             Some msg \<Rightarrow> (d, Fail 400 msg)
           | None \<Rightarrow>
               (case find_settings org d of
                  Some s \<Rightarrow>
                    let s' = (apply_request q s)\<lparr>ns_UpdatedAt := now\<rparr> in
                    if flt ''save settings'' then (d, Fail 500 ''failed to update notification settings'')
                    else (d\<lparr>db_settings := map (\<lambda>x. if ns_OrganizationID x = org then s' else x) (db_settings d)\<rparr>, Reply 200 s')
                | None \<Rightarrow>
                    let s' = (settings_defaults (apply_request q (defaultSettings org)))\<lparr>ns_UpdatedAt := now\<rparr> in
                    if flt ''create settings'' then (d, Fail 500 ''failed to save notification settings'')
                    else (d\<lparr>db_settings := db_settings d @ [s']\<rparr>, Reply 200 s'))))"

subsection \<open>A test email\<close>

definition FormatTestEmail :: "string \<Rightarrow> string \<times> string" where
  "FormatTestEmail orgName =
     (''[VaultGuard] Test notification'',
      ''This is a test notification for '' @ orgName @ ''.'' @ [CHR 0x0A, CHR 0x0A] @ ''If you received this, SMTP delivery is working.'')"

text \<open>\<open>Send\<close>: the transport's error is a parameter (\<open>None\<close> when the message was handed over).\<close>

definition Send :: "env \<Rightarrow> string option \<Rightarrow> string list \<Rightarrow> string \<Rightarrow> string \<Rightarrow> db \<Rightarrow> db \<times> string option" where
  "Send e smtp to subject body d =
     (if \<not> mail_on e \<or> to = [] then (d, None)
      else (case smtp of Some err \<Rightarrow> (d, Some err) | None \<Rightarrow> (emit (SendEmail to subject body) d, None)))"

definition TestEmail :: "env \<Rightarrow> string option \<Rightarrow> uuid \<Rightarrow> uuid \<Rightarrow> db \<Rightarrow> db \<times> string reply" where
  "TestEmail e smtp org uid d =
     (if \<not> mail_on e then (d, Fail 503 ''email is not configured on this server'')
      else (case first_row (\<lambda>u. ID u = uid) (db_users d) of
          None \<Rightarrow> (d, Fail 500 ''failed to load user'')
        | Some u \<Rightarrow>
            let email = trim_space (user_Email u);
                name = (case first_row (\<lambda>g. ID g = org) (db_orgs d) of None \<Rightarrow> ''your organization'' | Some g \<Rightarrow> org_Name g);
                (subject, body) = FormatTestEmail name in
            if email = '''' then (d, Fail 400 ''your account has no email address'')
            else (case Send e smtp [email] subject body d of
                (d', Some err) \<Rightarrow> (d', Fail 502 (''failed to send test email: '' @ err))
              | (d', None) \<Rightarrow> (d', Reply 200 email))))"

subsection \<open>Preferences of a user\<close>

definition default_prefs :: "uuid \<Rightarrow> user_notification_prefs" where
  "default_prefs uid = \<lparr>np_UserID = uid, np_EmailEnabled = True, np_MinSeverity = SeverityInfo, np_UpdatedAt = 0\<rparr>"

definition GetMyPrefs :: "uuid \<Rightarrow> db \<Rightarrow> user_notification_prefs reply" where
  "GetMyPrefs uid d = Reply 200 (case find_prefs uid d of None \<Rightarrow> default_prefs uid | Some p \<Rightarrow> p)"

text \<open>The upsert is a \<open>Create\<close> with an \<open>ON CONFLICT\<close> clause, so the defaults replace zero values on this path too.\<close>

definition prefs_defaults :: "user_notification_prefs \<Rightarrow> user_notification_prefs" where
  "prefs_defaults p =
     p\<lparr>np_EmailEnabled := True,
       np_MinSeverity := (if np_MinSeverity p = SeverityOther '''' then SeverityInfo else np_MinSeverity p)\<rparr>"

definition upsert_prefs :: "user_notification_prefs \<Rightarrow> user_notification_prefs list \<Rightarrow> user_notification_prefs list" where
  "upsert_prefs p t =
     (if \<exists>x\<in>set t. np_UserID x = np_UserID p then map (\<lambda>x. if np_UserID x = np_UserID p then p else x) t else t @ [p])"

definition UpdateMyPrefs ::
    "faults \<Rightarrow> time \<Rightarrow> uuid \<Rightarrow> (bool option \<times> severity option) option \<Rightarrow> db \<Rightarrow> db \<times> user_notification_prefs reply" where
  "UpdateMyPrefs flt now uid req d =
     (case req of
        None \<Rightarrow> (d, Fail 400 ''invalid request body'')
      | Some (enabled, severity) \<Rightarrow>
          if (case severity of None \<Rightarrow> False | Some v \<Rightarrow> \<not> validSeverity v)
          then (d, Fail 400 ''min_severity must be info, warning, or critical'')
          else
            let p = (case find_prefs uid d of None \<Rightarrow> default_prefs uid | Some p \<Rightarrow> p);
                p' = prefs_defaults (p\<lparr>np_EmailEnabled := given enabled (np_EmailEnabled p),
                       np_MinSeverity := given severity (np_MinSeverity p), np_UpdatedAt := now\<rparr>) in
            if flt ''save prefs'' then (d, Fail 500 ''failed to save preferences'')
            else (d\<lparr>db_prefs := upsert_prefs p' (db_prefs d)\<rparr>, Reply 200 p'))"

subsection \<open>What is stored\<close>

lemma find_map_same:
  "List.find P xs = Some x \<Longrightarrow> (\<And>y. P y \<Longrightarrow> P (f y)) \<Longrightarrow> (\<And>y. \<not> P y \<Longrightarrow> \<not> P (f y)) \<Longrightarrow> List.find P (map f xs) = Some (f x)"
  by (induction xs) (auto split: if_splits)

lemma find_none_append: "List.find P xs = None \<Longrightarrow> List.find P (xs @ [x]) = (if P x then Some x else None)"
  by (induction xs) (auto split: if_splits)

lemma find_prefs_upsert: "find_prefs (np_UserID p) (d\<lparr>db_prefs := upsert_prefs p (db_prefs d)\<rparr>) = Some p"
proof (cases "List.find (\<lambda>x. np_UserID x = np_UserID p) (db_prefs d)")
  case None
  then show ?thesis by (auto simp: find_prefs_def upsert_prefs_def find_none_append find_None_iff)
next
  case (Some x)
  then have "\<exists>x\<in>set (db_prefs d). np_UserID x = np_UserID p" "np_UserID x = np_UserID p"
    unfolding find_Some_iff by (metis nth_mem)+
  then show ?thesis
    using find_map_same [OF Some, of "\<lambda>x. if np_UserID x = np_UserID p then p else x"] by (simp add: find_prefs_def upsert_prefs_def)
qed

text \<open>A saved preference is what was asked for, or kept, as far as the severity floor goes, but email is always on
  afterwards: the column default overrides a request to turn it off, so the user still receives every alert at or
  above the floor.\<close>

theorem preference_update_effect:
  assumes "UpdateMyPrefs flt now uid (Some (enabled, sev)) d = (d', Reply n p)"
    and "\<forall>x\<in>set (db_prefs d). np_MinSeverity x \<noteq> SeverityOther []"
  shows "find_prefs uid d' = Some p \<and> np_EmailEnabled p \<and>
    np_MinSeverity p = (case sev of Some v \<Rightarrow> v | None \<Rightarrow> (case find_prefs uid d of None \<Rightarrow> SeverityInfo | Some x \<Rightarrow> np_MinSeverity x)) \<and>
    (\<forall>s. prefs_allow s uid d' \<longleftrightarrow> SeverityRank (np_MinSeverity p) \<le> SeverityRank s)"
proof -
  let ?q = "case find_prefs uid d of None \<Rightarrow> default_prefs uid | Some x \<Rightarrow> x"
  have q: "np_UserID ?q = uid" "np_MinSeverity ?q \<noteq> SeverityOther []"
    using assms(2) by (auto simp: find_prefs_def default_prefs_def find_Some_iff split: option.split)
  have p: "p = prefs_defaults (?q\<lparr>np_EmailEnabled := given enabled (np_EmailEnabled ?q),
      np_MinSeverity := given sev (np_MinSeverity ?q), np_UpdatedAt := now\<rparr>)"
    "d' = d\<lparr>db_prefs := upsert_prefs p (db_prefs d)\<rparr>"
    using assms(1) by (auto simp: UpdateMyPrefs_def Let_def split: if_splits)
  have v: "sev \<noteq> Some (SeverityOther [])"
    using assms(1) by (auto simp: UpdateMyPrefs_def validSeverity_def)
  have u: "np_UserID p = uid" using q(1) by (simp add: p(1) prefs_defaults_def)
  then have f: "find_prefs uid d' = Some p" using find_prefs_upsert [of p d] p(2) by simp
  have e: "np_EmailEnabled p" by (simp add: p(1) prefs_defaults_def)
  have m: "np_MinSeverity p = given sev (np_MinSeverity ?q)"
    using q(2) v by (auto simp: p(1) prefs_defaults_def given_def split: option.split)
  show ?thesis using f e m by (auto simp: prefs_allow_def given_def default_prefs_def split: option.split)
qed

theorem preference_update_effect_witness:
  "find_prefs ''u1'' (fst (UpdateMyPrefs no_faults 5 ''u1'' (Some (Some False, None)) empty_db)) =
     Some \<lparr>np_UserID = ''u1'', np_EmailEnabled = True, np_MinSeverity = SeverityInfo, np_UpdatedAt = 5\<rparr>"
proof -
  let ?U = "UpdateMyPrefs no_faults 5 ''u1'' (Some (Some False, None)) empty_db"
  have r: "snd ?U = Reply 200 \<lparr>np_UserID = ''u1'', np_EmailEnabled = True, np_MinSeverity = SeverityInfo, np_UpdatedAt = 5\<rparr>"
    by code_simp
  then have "?U = (fst ?U, Reply 200 \<lparr>np_UserID = ''u1'', np_EmailEnabled = True, np_MinSeverity = SeverityInfo, np_UpdatedAt = 5\<rparr>)"
    by (metis prod.collapse)
  from preference_update_effect [OF this] show ?thesis by (simp add: empty_db_def)
qed

text \<open>The monitor's thresholds stay in range, whatever is written.\<close>

definition settings_ok :: "notification_settings \<Rightarrow> bool" where
  "settings_ok s \<longleftrightarrow> 1 \<le> ns_OfflineThresholdMin s \<and> ns_OfflineThresholdMin s \<le> 60 \<and>
     1 \<le> ns_MissedWindowMult s \<and> ns_MissedWindowMult s \<le> 24 \<and> validSeverity (ns_MinEmailSeverity s)"

lemma apply_request_ok: "settings_ok s \<Longrightarrow> request_error q = None \<Longrightarrow> settings_ok (apply_request q s)"
  by (auto simp: settings_ok_def request_error_def apply_request_def given_def split: option.splits if_splits)

lemma settings_stay_ok:
  assumes "\<forall>s\<in>set (db_settings d). settings_ok s"
  shows "\<forall>s\<in>set (db_settings (fst (UpdateSettings flt now org req d))). settings_ok s"
proof -
  have o1: "settings_ok ((apply_request q s)\<lparr>ns_UpdatedAt := now\<rparr>)" if "request_error q = None" "find_settings org d = Some s" for q s
  proof -
    have "s \<in> set (db_settings d)" using that(2) unfolding find_settings_def find_Some_iff by auto
    then show ?thesis using apply_request_ok [OF _ that(1)] assms by (simp add: settings_ok_def)
  qed
  have "settings_ok (defaultSettings org)" by (simp add: settings_ok_def defaultSettings_def validSeverity_def)
  then have o2: "settings_ok ((settings_defaults (apply_request q (defaultSettings org)))\<lparr>ns_UpdatedAt := now\<rparr>)" if "request_error q = None" for q
    using apply_request_ok [OF _ that] by (auto simp: settings_ok_def settings_defaults_def validSeverity_def)
  show ?thesis using assms o1 o2 by (auto simp: UpdateSettings_def Let_def split: option.split)
qed

text \<open>An organization whose first write asks for quiet hours from midnight gets none.\<close>

lemma midnight_is_lost:
  "ns_QuietHoursStart (the (find_settings ''o1'' (fst (UpdateSettings no_faults 5 ''o1''
     (Some \<lparr>uq_WebhookURL = None, uq_WebhookEnabled = None, uq_WebhookSecret = None, uq_QuietHoursStart = Some 0,
       uq_QuietHoursEnd = Some 6, uq_MinEmailSeverity = None, uq_OfflineThresholdMin = None, uq_MissedWindowMult = None\<rparr>) empty_db)))) = -1"
  by code_simp

end
