(* ===== verification/Dashboard.thy ===== *)
theory Dashboard
  imports Scheduler "HOL-Library.Product_Lexorder" "HOL-Library.Signed_Division"
begin

text \<open>
  The fleet overview and the health report, \<open>handlers/dashboard.go\<close>.  Go's 64-bit counters are unbounded integers here (a
  difference of more than 92 petabytes would overflow the percentage); its integer division is \<open>sdiv\<close>.  A \<open>First\<close> with
  an \<open>Order\<close> sorts by that key and then by id; PostgreSQL puts NULLs first in a descending order.
\<close>

definition desc_key :: "time option \<Rightarrow> nat \<times> int" where
  "desc_key t = (case t of None \<Rightarrow> (0, 0) | Some x \<Rightarrow> (1, - x))"

definition first_by :: "('a base_scheme \<Rightarrow> 'k::linorder) \<Rightarrow> ('a base_scheme \<Rightarrow> bool) \<Rightarrow> 'a base_scheme list \<Rightarrow> 'a base_scheme option" where
  "first_by key P t = (case sort_key (\<lambda>r. (key r, ID r)) (rows P t) of [] \<Rightarrow> None | r # _ \<Rightarrow> Some r)"

subsection \<open>Overview\<close>

text \<open>Runs of an enabled job, under an enabled effective policy with a target, that finished in the window and took
  longer than the target.\<close>

definition sla_breaches_of :: "time \<Rightarrow> backup_job \<Rightarrow> db \<Rightarrow> nat" where
  "sla_breaches_of since job d =
     (let eff = EffectivePolicy (preload_job d job); target = rp_SLATargetMinutes eff in
      if \<not> rp_Enabled eff \<or> target \<le> 0 then 0
      else length (filter (\<lambda>r. target * 60 < run_DurationSeconds r)
        (rows (\<lambda>r. run_BackupJobID r = ID job \<and> run_Status r = RunCompleted \<and>
           (case run_CompletedAt r of None \<Rightarrow> False | Some t \<Rightarrow> since < t)) (db_runs d))))"

definition countSLABreaches :: "uuid \<Rightarrow> time \<Rightarrow> db \<Rightarrow> nat" where
  "countSLABreaches org since d =
     sum_list (map (\<lambda>j. sla_breaches_of since j d) (rows (\<lambda>j. job_OrganizationID j = org \<and> job_Enabled j) (db_jobs d)))"

record size_anomaly =
  sa_JobID :: uuid
  sa_JobName :: string
  sa_RunID :: uuid
  sa_ActualBytes :: int
  sa_AvgBytes :: int
  sa_PctChange :: int

definition pct_change :: "int \<Rightarrow> int \<Rightarrow> int" where
  "pct_change actual avg = ((actual - avg) * 100) sdiv avg"

definition anomalous :: "int \<Rightarrow> bool" where
  "anomalous pct \<longleftrightarrow> pct < -50 \<or> 200 < pct"

definition detectSizeAnomalies :: "uuid \<Rightarrow> time \<Rightarrow> db \<Rightarrow> size_anomaly list" where
  "detectSizeAnomalies org now d =
     concat (map (\<lambda>b.
       map (\<lambda>r. \<lparr>sa_JobID = bl_BackupJobID b,
                 sa_JobName = (case first_row (\<lambda>j. ID j = run_BackupJobID r) (db_jobs d) of None \<Rightarrow> '''' | Some j \<Rightarrow> job_Name j),
                 sa_RunID = ID r, sa_ActualBytes = run_BytesUploaded r, sa_AvgBytes = bl_AvgBytes b,
                 sa_PctChange = pct_change (run_BytesUploaded r) (bl_AvgBytes b)\<rparr>)
         (filter (\<lambda>r. bl_AvgBytes b \<noteq> 0 \<and> anomalous (pct_change (run_BytesUploaded r) (bl_AvgBytes b)))
           (rows (\<lambda>r. run_BackupJobID r = bl_BackupJobID b \<and> run_Status r = RunCompleted \<and>
              (case run_CompletedAt r of None \<Rightarrow> False | Some t \<Rightarrow> now - 7 * 24 * hour < t)) (db_runs d))))
       (rows (\<lambda>b. 0 < bl_AvgBytes b \<and> 3 \<le> bl_SampleCount b \<and>
          (\<exists>j\<in>set (db_jobs d). live j \<and> ID j = bl_BackupJobID b \<and> job_OrganizationID j = org)) (db_baselines d)))"

record overview =
  ov_TotalJobs :: nat
  ov_EnabledJobs :: nat
  ov_AgentsOnline :: nat
  ov_AgentsOffline :: nat
  ov_SuccessfulRuns :: nat
  ov_FailedRuns :: nat
  ov_TotalBytes :: int
  ov_RecentRuns :: "backup_run list"
  ov_SLABreaches :: nat
  ov_SizeAnomalies :: "size_anomaly list"

definition Overview :: "uuid \<Rightarrow> time \<Rightarrow> db \<Rightarrow> overview" where
  "Overview org now d =
     (let since = now - 24 * hour in
      \<lparr>ov_TotalJobs = affected (\<lambda>j. job_OrganizationID j = org) (db_jobs d),
       ov_EnabledJobs = affected (\<lambda>j. job_OrganizationID j = org \<and> job_Enabled j) (db_jobs d),
       ov_AgentsOnline = affected (\<lambda>a. ag_OrganizationID a = org \<and> ag_Status a = AgentOnline) (db_agents d),
       ov_AgentsOffline = affected (\<lambda>a. ag_OrganizationID a = org \<and> ag_Status a = AgentOffline) (db_agents d),
       ov_SuccessfulRuns = affected (\<lambda>r. run_OrganizationID r = org \<and> run_Status r = RunCompleted \<and> since < CreatedAt r) (db_runs d),
       ov_FailedRuns = affected (\<lambda>r. run_OrganizationID r = org \<and> run_Status r = RunFailed \<and> since < CreatedAt r) (db_runs d),
       ov_TotalBytes = sum_list (map run_BytesUploaded (rows (\<lambda>r. run_OrganizationID r = org \<and> run_Status r = RunCompleted) (db_runs d))),
       ov_RecentRuns = take 10 (sort_key (\<lambda>r. - CreatedAt r) (rows (\<lambda>r. run_OrganizationID r = org) (db_runs d))),
       ov_SLABreaches = countSLABreaches org since d,
       ov_SizeAnomalies = detectSizeAnomalies org now d\<rparr>)"

subsection \<open>Health of a job\<close>

datatype health_status = Healthy | UnknownHealth | FailedHealth | WarningHealth

datatype target_status = TargetOk | Breach | UnknownTarget | NoData

record job_health =
  jh_JobID :: uuid
  jh_JobName :: string
  jh_Status :: health_status
  jh_LastSuccessAt :: "time option"
  jh_LastFailureAt :: "time option"
  jh_RecoveryPoints :: nat
  jh_NextRunAt :: "time option"
  jh_SLATargetMinutes :: int
  jh_LastDurationSecs :: int
  jh_SLAStatus :: target_status
  jh_RPOTargetMinutes :: int
  jh_ActualRPOMinutes :: int
  jh_RPOStatus :: target_status
  jh_RTOTargetMinutes :: int
  jh_LastRestoreSecs :: int
  jh_RTOStatus :: target_status
  jh_SizeAnomalyPct :: "int option"

text \<open>The next run and the age at which the last success counts as stale: one interval of the job's own schedule and a
  grace of a 24th of it (five minutes at least), or 25 hours without a schedule.\<close>

definition freshness :: "cron \<Rightarrow> (string \<Rightarrow> bool) \<Rightarrow> resolved_policy \<Rightarrow> time \<Rightarrow> time option \<times> duration" where
  "freshness cron tz_ok eff now =
     (case (if rp_CronExpr eff = '''' then None else cron (rp_CronExpr eff)) of
        None \<Rightarrow> (None, 25 * hour)
      | Some next_at \<Rightarrow>
          let loc = (if rp_Timezone eff \<noteq> '''' \<and> tz_ok (rp_Timezone eff) then rp_Timezone eff else ''UTC'');
              t = next_at loc now; following = next_at loc t; iv = following - t in
          (Some t, if t < following \<and> 0 < iv then iv + max (iv div 24) (5 * minute) else 25 * hour))"

definition overall_health :: "time \<Rightarrow> duration \<Rightarrow> backup_run option \<Rightarrow> backup_run option \<Rightarrow> health_status" where
  "overall_health now staleAfter lastSuccess lastFailure =
     (case lastSuccess of
        None \<Rightarrow> UnknownHealth
      | Some s \<Rightarrow>
          if (case lastFailure of None \<Rightarrow> False | Some f \<Rightarrow> CreatedAt s < CreatedAt f) then FailedHealth
          else if (case run_CompletedAt s of None \<Rightarrow> False | Some t \<Rightarrow> staleAfter < now - t) then WarningHealth
          else Healthy)"

definition sla_status :: "int \<Rightarrow> backup_run option \<Rightarrow> target_status" where
  "sla_status target lastSuccess =
     (case lastSuccess of
        None \<Rightarrow> UnknownTarget
      | Some s \<Rightarrow> if target \<le> 0 then UnknownTarget
                  else if target * 60 < run_DurationSeconds s then Breach else TargetOk)"

text \<open>\<open>int(d.Minutes())\<close>: whole minutes, rounded towards zero.\<close>

definition rpo_status :: "time \<Rightarrow> int \<Rightarrow> backup_run option \<Rightarrow> int \<times> target_status" where
  "rpo_status now target lastSuccess =
     (case (case lastSuccess of None \<Rightarrow> None | Some s \<Rightarrow> run_CompletedAt s) of
        None \<Rightarrow> (0, UnknownTarget)
      | Some t \<Rightarrow>
          let actual = (now - t) sdiv minute in
          (actual, if target \<le> 0 then UnknownTarget else if target < actual then Breach else TargetOk))"

definition last_restore :: "uuid \<Rightarrow> db \<Rightarrow> restore_job option" where
  "last_restore jid d =
     first_by (\<lambda>x. desc_key (rs_CompletedAt x))
       (\<lambda>x. rs_Status x = RestoreCompleted \<and> (\<exists>r\<in>set (db_runs d). ID r = rs_BackupRunID x \<and> run_BackupJobID r = jid)) (db_restores d)"

definition rto_status :: "int \<Rightarrow> restore_job option \<Rightarrow> int \<times> target_status" where
  "rto_status target lastRestore =
     (case lastRestore of
        None \<Rightarrow> (0, NoData)
      | Some x \<Rightarrow> (rs_DurationSeconds x,
          if target \<le> 0 then UnknownTarget else if target * 60 < rs_DurationSeconds x then Breach else TargetOk))"

definition job_anomaly :: "backup_run option \<Rightarrow> backup_size_baseline option \<Rightarrow> int option" where
  "job_anomaly lastSuccess baseline =
     (case (lastSuccess, baseline) of
        (Some s, Some b) \<Rightarrow>
          let pct = pct_change (run_BytesUploaded s) (bl_AvgBytes b) in
          if 0 < bl_AvgBytes b \<and> anomalous pct then Some pct else None
      | _ \<Rightarrow> None)"

definition last_success :: "uuid \<Rightarrow> db \<Rightarrow> backup_run option" where
  "last_success jid d =
     first_by (\<lambda>r. desc_key (run_CompletedAt r)) (\<lambda>r. run_BackupJobID r = jid \<and> run_Status r = RunCompleted) (db_runs d)"

definition last_failure :: "uuid \<Rightarrow> db \<Rightarrow> backup_run option" where
  "last_failure jid d =
     first_by (\<lambda>r. - CreatedAt r) (\<lambda>r. run_BackupJobID r = jid \<and> run_Status r = RunFailed) (db_runs d)"

definition health_of :: "cron \<Rightarrow> (string \<Rightarrow> bool) \<Rightarrow> time \<Rightarrow> backup_job \<Rightarrow> db \<Rightarrow> job_health" where
  "health_of cron tz_ok now job d =
     (let eff = EffectivePolicy (preload_job d job);
          s = last_success (ID job) d; f = last_failure (ID job) d;
          (nextRun, staleAfter) = freshness cron tz_ok eff now;
          (actualRPO, rpo) = rpo_status now (rp_RPOTargetMinutes eff) s;
          (restoreSecs, rto) = rto_status (rp_RTOTargetMinutes eff) (last_restore (ID job) d) in
      \<lparr>jh_JobID = ID job, jh_JobName = job_Name job, jh_Status = overall_health now staleAfter s f,
       jh_LastSuccessAt = (case s of None \<Rightarrow> None | Some r \<Rightarrow> run_CompletedAt r),
       jh_LastFailureAt = map_option CreatedAt f,
       jh_RecoveryPoints = affected (\<lambda>r. run_BackupJobID r = ID job \<and> run_Status r = RunCompleted) (db_runs d),
       jh_NextRunAt = nextRun, jh_SLATargetMinutes = rp_SLATargetMinutes eff,
       jh_LastDurationSecs = (case s of None \<Rightarrow> 0 | Some r \<Rightarrow> run_DurationSeconds r),
       jh_SLAStatus = sla_status (rp_SLATargetMinutes eff) s,
       jh_RPOTargetMinutes = rp_RPOTargetMinutes eff, jh_ActualRPOMinutes = actualRPO, jh_RPOStatus = rpo,
       jh_RTOTargetMinutes = rp_RTOTargetMinutes eff, jh_LastRestoreSecs = restoreSecs, jh_RTOStatus = rto,
       jh_SizeAnomalyPct = job_anomaly s
         (first_by (\<lambda>b. 0::int) (\<lambda>b. bl_BackupJobID b = ID job \<and> 3 \<le> bl_SampleCount b \<and> 0 < bl_AvgBytes b) (db_baselines d))\<rparr>)"

definition BackupHealth :: "cron \<Rightarrow> (string \<Rightarrow> bool) \<Rightarrow> uuid \<Rightarrow> time \<Rightarrow> db \<Rightarrow> job_health list" where
  "BackupHealth cron tz_ok org now d =
     map (\<lambda>j. health_of cron tz_ok now j d)
       (filter (\<lambda>j. rp_Enabled (EffectivePolicy (preload_job d j)))
         (rows (\<lambda>j. job_OrganizationID j = org \<and> job_Enabled j) (db_jobs d)))"

subsection \<open>What the report says\<close>

lemma first_by_Some:
  assumes "first_by key P t = Some r"
  shows "r \<in> set t" and "live r" and "P r" and "\<And>x. x \<in> set t \<Longrightarrow> live x \<Longrightarrow> P x \<Longrightarrow> key r \<le> key x"
proof -
  let ?k = "\<lambda>r. (key r, ID r)" and ?s = "sort_key (\<lambda>r. (key r, ID r)) (rows P t)"
  obtain rest where s: "?s = r # rest" using assms unfolding first_by_def by (auto split: list.splits)
  have m: "set ?s = set (rows P t)" by simp
  then have "r \<in> set (rows P t)" using s by auto
  then show "r \<in> set t" "live r" "P r" by (simp_all add: rows_iff)
  have so: "sorted (map ?k (r # rest))" unfolding s [symmetric] by simp
  show "key r \<le> key x" if "x \<in> set t" "live x" "P x" for x
  proof -
    have "x \<in> set (r # rest)" using that m s by (simp add: rows_iff)
    then have "?k r \<le> ?k x" using so by auto
    then show ?thesis by (auto simp: less_eq_prod_def)
  qed
qed

lemma first_by_None: "first_by key P t = None \<longleftrightarrow> (\<forall>r\<in>set t. live r \<longrightarrow> \<not> P r)"
proof -
  have "first_by key P t = None \<longleftrightarrow> rows P t = []"
    unfolding first_by_def by (cases "sort_key (\<lambda>r. (key r, ID r)) (rows P t)") (auto dest: arg_cong [where f = length])
  then show ?thesis by (simp add: rows_Nil_iff)
qed

text \<open>The last success is a completed run no older than any other.\<close>

lemma last_success_latest:
  assumes "last_success jid d = Some s" and "\<forall>r\<in>set (db_runs d). run_Status r = RunCompleted \<longrightarrow> run_CompletedAt r \<noteq> None"
  shows "\<exists>t. run_CompletedAt s = Some t \<and> run_Status s = RunCompleted \<and> run_BackupJobID s = jid \<and>
    (\<forall>r\<in>set (db_runs d). live r \<longrightarrow> run_BackupJobID r = jid \<longrightarrow> run_Status r = RunCompleted \<longrightarrow> the (run_CompletedAt r) \<le> t)"
proof -
  note f = first_by_Some [OF assms(1) [unfolded last_success_def]]
  obtain t where t: "run_CompletedAt s = Some t" using f(1,3) assms(2) by blast
  have "the (run_CompletedAt r) \<le> t" if r: "r \<in> set (db_runs d)" "live r" "run_BackupJobID r = jid" "run_Status r = RunCompleted" for r
  proof -
    obtain u where "run_CompletedAt r = Some u" using r assms(2) by blast
    then show ?thesis using f(4) [of r] r t by (simp add: desc_key_def less_eq_prod_def)
  qed
  then show ?thesis using f t by blast
qed

lemma le_div_iff:
  assumes "0 < (c::int)"
  shows "a \<le> x div c \<longleftrightarrow> a * c \<le> x"
proof
  assume "a \<le> x div c"
  then have "a * c \<le> (x div c) * c" using assms by (simp add: mult_right_mono)
  also have "\<dots> \<le> x" using assms div_mult_mod_eq [of x c] pos_mod_sign [OF assms, of x] by linarith
  finally show "a * c \<le> x" .
next
  assume "a * c \<le> x"
  from zdiv_mono1 [OF this assms] show "a \<le> x div c" using assms by simp
qed

text \<open>The recovery-point verdict of the health report is exact: for a job with a target and at least one completed run,
  \<open>BREACH\<close> means that every completed run finished more than the target plus a rounding minute ago, and \<open>OK\<close> that some
  run finished within it; without a completed run, or without a target, the report says \<open>UNKNOWN\<close>.\<close>

theorem rpo_verdict_exact:
  assumes "h = health_of cron tz_ok now job d"
    and "\<forall>r\<in>set (db_runs d). run_Status r = RunCompleted \<longrightarrow> (\<exists>t\<le>now. run_CompletedAt r = Some t)"
    and "finished = {the (run_CompletedAt r) | r. r \<in> set (db_runs d) \<and> live r \<and> run_BackupJobID r = ID job \<and> run_Status r = RunCompleted}"
  shows "jh_RPOStatus h =
    (if finished = {} \<or> jh_RPOTargetMinutes h \<le> 0 then UnknownTarget
     else if \<forall>t\<in>finished. (jh_RPOTargetMinutes h + 1) * minute \<le> now - t then Breach else TargetOk)"
proof -
  let ?T = "rp_RPOTargetMinutes (EffectivePolicy (preload_job d job))" and ?s = "last_success (ID job) d"
  have h: "jh_RPOStatus h = snd (rpo_status now ?T ?s)" "jh_RPOTargetMinutes h = ?T"
    unfolding assms(1) health_of_def by (simp_all add: Let_def split: prod.split)
  show ?thesis
  proof (cases ?s)
    case None
    then have "finished = {}" using assms(3) unfolding last_success_def first_by_None by auto
    then show ?thesis using None h by (simp add: rpo_status_def)
  next
    case (Some s)
    have "\<forall>r\<in>set (db_runs d). run_Status r = RunCompleted \<longrightarrow> run_CompletedAt r \<noteq> None" using assms(2) by fastforce
    from last_success_latest [OF Some this] obtain t where t: "run_CompletedAt s = Some t" "run_Status s = RunCompleted"
      "\<forall>r\<in>set (db_runs d). live r \<longrightarrow> run_BackupJobID r = ID job \<longrightarrow> run_Status r = RunCompleted \<longrightarrow> the (run_CompletedAt r) \<le> t" by blast
    note f = first_by_Some [OF Some [unfolded last_success_def]]
    have m: "t \<in> finished" "\<forall>u\<in>finished. u \<le> t" using f(1-3) t unfolding assms(3) by force+
    have "t \<le> now" using assms(2) f(1) t(1,2) by fastforce
    then have q: "(now - t) sdiv minute = (now - t) div minute" by (simp add: signed_divide_int_def minute_def second_def sgn_if)
    have "?T < (now - t) div minute \<longleftrightarrow> (?T + 1) * minute \<le> now - t"
    proof -
      have "?T < (now - t) div minute \<longleftrightarrow> ?T + 1 \<le> (now - t) div minute" by linarith
      also have "\<dots> \<longleftrightarrow> (?T + 1) * minute \<le> now - t" by (rule le_div_iff) (simp add: minute_def second_def)
      finally show ?thesis .
    qed
    moreover have "(\<forall>u\<in>finished. (?T + 1) * minute \<le> now - u) \<longleftrightarrow> (?T + 1) * minute \<le> now - t" using m by force
    ultimately show ?thesis using Some t(1) m(1) h by (auto simp: rpo_status_def q Let_def)
  qed
qed

definition watched_job :: backup_job where
  "watched_job = sample_job\<lparr>job_PolicyID := None, job_RPOTargetMinutes := 60\<rparr>"

definition watched_db :: db where
  "watched_db = empty_db\<lparr>db_jobs := [watched_job],
     db_runs := [sample_run\<lparr>ID := ''ra'', run_Status := RunCompleted, run_CompletedAt := Some 0\<rparr>,
                 sample_run\<lparr>ID := ''rb'', run_Status := RunCompleted, run_CompletedAt := Some hour\<rparr>,
                 sample_run\<lparr>ID := ''rc'', run_Status := RunFailed\<rparr>]\<rparr>"

theorem rpo_verdict_exact_witness:
  "jh_RPOStatus (health_of (\<lambda>_. None) (\<lambda>_. True) (2 * hour) watched_job watched_db) = TargetOk"
proof -
  let ?h = "health_of (\<lambda>_. None) (\<lambda>_. True) (2 * hour) watched_job watched_db"
  have r: "set (db_runs watched_db) = {sample_run\<lparr>ID := ''ra'', run_Status := RunCompleted, run_CompletedAt := Some 0\<rparr>,
      sample_run\<lparr>ID := ''rb'', run_Status := RunCompleted, run_CompletedAt := Some hour\<rparr>,
      sample_run\<lparr>ID := ''rc'', run_Status := RunFailed\<rparr>}" by (simp add: watched_db_def)
  have f: "{the (run_CompletedAt r) | r. r \<in> set (db_runs watched_db) \<and> live r \<and> run_BackupJobID r = ID watched_job \<and>
      run_Status r = RunCompleted} = {0, hour}"
  proof -
    have "map (\<lambda>r. the (run_CompletedAt r)) (filter (\<lambda>r. live r \<and> run_BackupJobID r = ID watched_job \<and> run_Status r = RunCompleted)
        (db_runs watched_db)) = [0, hour]"
      by (simp add: watched_db_def sample_run_def live_def watched_job_def sample_job_def zero_job_def)
    then have "set [0, hour] = (\<lambda>r. the (run_CompletedAt r)) ` {r \<in> set (db_runs watched_db). live r \<and> run_BackupJobID r = ID watched_job \<and>
        run_Status r = RunCompleted}" by (metis list.set_map set_filter)
    then show ?thesis by auto
  qed
  have h: "jh_RPOTargetMinutes ?h = 60" by code_simp
  have c: "\<forall>r\<in>set (db_runs watched_db). run_Status r = RunCompleted \<longrightarrow> (\<exists>t\<le>2 * hour. run_CompletedAt r = Some t)"
    unfolding r by (simp add: sample_run_def clock_defs)
  have "\<not> (\<forall>t\<in>{0, hour}. (60 + 1) * minute \<le> 2 * hour - t)" by (simp add: clock_defs)
  then show ?thesis using rpo_verdict_exact [OF refl c refl, of "\<lambda>_. None" "\<lambda>_. True" watched_job, unfolded f h]
    by simp
qed

text \<open>Both endpoints look at the same jobs: a counted breach is a breach of a job the health report lists.\<close>

lemma breaches_are_listed:
  assumes "0 < countSLABreaches org since d"
  shows "\<exists>h\<in>set (BackupHealth cron tz_ok org now d). 0 < jh_SLATargetMinutes h"
proof -
  let ?J = "rows (\<lambda>j. job_OrganizationID j = org \<and> job_Enabled j) (db_jobs d)"
  have "\<exists>j\<in>set ?J. 0 < sla_breaches_of since j d"
  proof (rule ccontr)
    assume "\<not> (\<exists>j\<in>set ?J. 0 < sla_breaches_of since j d)"
    then have "\<forall>n\<in>set (map (\<lambda>j. sla_breaches_of since j d) ?J). n = 0" by simp
    then have "countSLABreaches org since d = 0" unfolding countSLABreaches_def using sum_list_eq_0_iff by blast
    then show False using assms by simp
  qed
  then obtain j where j: "j \<in> set ?J" "0 < sla_breaches_of since j d" by blast
  then have "rp_Enabled (EffectivePolicy (preload_job d j))" "0 < rp_SLATargetMinutes (EffectivePolicy (preload_job d j))"
    by (auto simp: sla_breaches_of_def Let_def split: if_splits)
  moreover have "jh_SLATargetMinutes (health_of cron tz_ok now j d) = rp_SLATargetMinutes (EffectivePolicy (preload_job d j))"
    by (simp add: health_of_def Let_def split: prod.split)
  ultimately show ?thesis using j(1) unfolding BackupHealth_def by force
qed

text \<open>A size anomaly is a halving or a tripling, not a deviation by half either way.\<close>

lemma growth_by_half_is_normal: "0 < avg \<Longrightarrow> avg \<le> actual \<Longrightarrow> actual \<le> 3 * avg \<Longrightarrow> \<not> anomalous (pct_change actual avg)"
proof -
  assume a: "0 < avg" "avg \<le> actual" "actual \<le> 3 * avg"
  have "(actual - avg) * 100 div avg \<le> (200 * avg) div avg" using a by (intro zdiv_mono1) auto
  moreover have "0 \<le> (actual - avg) * 100 div avg" using a by (intro pos_imp_zdiv_nonneg_iff [THEN iffD2]) auto
  moreover have "pct_change actual avg = (actual - avg) * 100 div avg"
    using a by (simp add: pct_change_def signed_divide_int_def sgn_if)
  ultimately show ?thesis using a by (simp add: anomalous_def)
qed

end
