(* ===== verification/Sessions.thy ===== *)
theory Sessions
  imports Runs
begin

text \<open>
  Dashboard logins: \<open>handlers/auth.go\<close> with the JSON web tokens of \<open>middleware/auth.go\<close>.  The JWT library, bcrypt and
  SHA-256 are parameters; their contracts are \<open>jwt_ok\<close> (a signature verifies to the claims that were signed) and
  nothing else.  The table of refresh tokens is threaded beside the other tables.  A handler is one atomic step at one
  reading of the clock: \<open>Refresh\<close> runs in a transaction under a row lock.
\<close>

subsection \<open>Tokens\<close>

record claims =
  cl_UserID :: string
  cl_Email :: string
  cl_Subject :: string
  cl_ExpiresAt :: int
  cl_IssuedAt :: int

text \<open>\<open>jwt.NewNumericDate\<close> keeps whole seconds.\<close>

definition numeric_date :: "time \<Rightarrow> int" where
  "numeric_date t = t div second"

record auth_env =
  ae_Sign :: "claims \<Rightarrow> string \<Rightarrow> string"
  ae_Verify :: "string \<Rightarrow> string \<Rightarrow> claims option"
  ae_Bcrypt :: "string \<Rightarrow> string \<Rightarrow> bool"
  ae_Hash :: "string \<Rightarrow> string option"
  ae_Sha :: "string \<Rightarrow> string"
  ae_ParseUUID :: "string \<Rightarrow> uuid option"
  ae_JwtSecret :: string
  ae_RefreshSecret :: string
  ae_AccessTTL :: duration
  ae_RefreshTTL :: duration

definition NewAuthHandler :: "auth_env \<Rightarrow> auth_env" where
  "NewAuthHandler E =
     E\<lparr>ae_AccessTTL := (if ae_AccessTTL E \<le> 0 then 60 * minute else ae_AccessTTL E),
       ae_RefreshTTL := (if ae_RefreshTTL E \<le> 0 then 7 * 24 * hour else ae_RefreshTTL E)\<rparr>"

definition jwt_ok :: "auth_env \<Rightarrow> bool" where
  "jwt_ok E \<longleftrightarrow> (\<forall>c secret. ae_Verify E (ae_Sign E c secret) secret = Some c)"

definition GenerateAccessToken :: "auth_env \<Rightarrow> time \<Rightarrow> uuid \<Rightarrow> string \<Rightarrow> string" where
  "GenerateAccessToken E now uid email =
     ae_Sign E \<lparr>cl_UserID = uid, cl_Email = email, cl_Subject = '''', cl_ExpiresAt = numeric_date (now + ae_AccessTTL E),
       cl_IssuedAt = numeric_date now\<rparr> (ae_JwtSecret E)"

definition GenerateRefreshToken :: "auth_env \<Rightarrow> time \<Rightarrow> uuid \<Rightarrow> string" where
  "GenerateRefreshToken E now uid =
     ae_Sign E \<lparr>cl_UserID = '''', cl_Email = '''', cl_Subject = uid, cl_ExpiresAt = numeric_date (now + ae_RefreshTTL E),
       cl_IssuedAt = numeric_date now\<rparr> (ae_RefreshSecret E)"

text \<open>\<open>ParseWithClaims\<close>: the signature, then the expiry.\<close>

definition parse_jwt :: "auth_env \<Rightarrow> time \<Rightarrow> string \<Rightarrow> string \<Rightarrow> claims option" where
  "parse_jwt E now token secret =
     (case ae_Verify E token secret of
        None \<Rightarrow> None | Some c \<Rightarrow> if now < cl_ExpiresAt c * second then Some c else None)"

definition ParseRefreshToken :: "auth_env \<Rightarrow> time \<Rightarrow> string \<Rightarrow> uuid option" where
  "ParseRefreshToken E now token =
     (case parse_jwt E now token (ae_RefreshSecret E) of None \<Rightarrow> None | Some c \<Rightarrow> ae_ParseUUID E (cl_Subject c))"

text \<open>The middleware in front of the dashboard's routes: it hands on the user's id and email.\<close>

definition Auth :: "auth_env \<Rightarrow> time \<Rightarrow> string \<Rightarrow> (nat \<times> string) + (string \<times> string)" where
  "Auth E now header =
     (if \<not> has_prefix ''Bearer '' header then Inl (401, ''missing token'')
      else (case parse_jwt E now (trim_prefix ''Bearer '' header) (ae_JwtSecret E) of
          None \<Rightarrow> Inl (401, ''invalid token'') | Some c \<Rightarrow> Inr (cl_UserID c, cl_Email c)))"

subsection \<open>Sessions\<close>

record refresh_token = base +
  rt_UserID :: uuid
  rt_FamilyID :: uuid
  rt_Token :: string
  rt_ExpiresAt :: time
  rt_Revoked :: bool

text \<open>\<open>idx_refresh_tokens_token\<close>: total.\<close>

definition refresh_clash :: "refresh_token \<Rightarrow> refresh_token \<Rightarrow> bool" where
  "refresh_clash x r \<longleftrightarrow> rt_Token x = rt_Token r"

type_synonym session_db = "db \<times> refresh_token list"

definition new_refresh :: "auth_env \<Rightarrow> time \<Rightarrow> uuid \<Rightarrow> uuid \<Rightarrow> uuid \<Rightarrow> string \<Rightarrow> refresh_token" where
  "new_refresh E now nid uid fam raw =
     \<lparr>ID = nid, CreatedAt = now, UpdatedAt = now, DeletedAt = None, rt_UserID = uid, rt_FamilyID = fam,
      rt_Token = ae_Sha E raw, rt_ExpiresAt = now + ae_RefreshTTL E, rt_Revoked = False\<rparr>"

definition writeAudit :: "time \<Rightarrow> uuid \<Rightarrow> uuid \<Rightarrow> string \<Rightarrow> string \<Rightarrow> db \<Rightarrow> db" where
  "writeAudit now nid uid action ip d = add_audit now nid nil_uuid (uid, ip) action '''' '''' d"

record session_reply =
  se_Access :: string
  se_Refresh :: string
  se_User :: "(uuid \<times> string \<times> string) option"

text \<open>The draws of one request: the row's id, the family's, the audit row's.\<close>

type_synonym session_draws = "uuid \<times> uuid \<times> uuid"

definition Login ::
    "auth_env \<Rightarrow> faults \<Rightarrow> time \<Rightarrow> session_draws \<Rightarrow> string \<Rightarrow> (string \<times> string) option \<Rightarrow> session_db \<Rightarrow> session_db \<times> session_reply reply" where
  "Login E flt now dr ip req s =
     (case (s, dr, req) of
        ((d, ts), (nid, fam, auid), None) \<Rightarrow> (s, Fail 400 ''bad request'')
      | ((d, ts), (nid, fam, auid), Some (email, password)) \<Rightarrow>
          if email = '''' \<or> password = '''' then (s, Fail 400 ''bad request'')
          else (case (if flt ''user'' then None else first_row (\<lambda>u. user_Email u = email) (db_users d)) of
              None \<Rightarrow> (s, Fail 401 ''invalid credentials'')
            | Some u \<Rightarrow>
                if \<not> ae_Bcrypt E (user_PasswordHash u) password
                then ((writeAudit now auid (ID u) ''LOGIN_FAILED'' ip d, ts), Fail 401 ''invalid credentials'')
                else
                  let access = GenerateAccessToken E now (ID u) (user_Email u);
                      raw = GenerateRefreshToken E now (ID u);
                      ts' = (case (if flt ''create token'' then None
                                   else create_row now refresh_clash (new_refresh E now nid (ID u) fam raw) ts) of
                               None \<Rightarrow> ts | Some t \<Rightarrow> t)
                  in ((writeAudit now auid (ID u) ''LOGIN_SUCCESS'' ip d, ts'),
                      Reply 200 \<lparr>se_Access = access, se_Refresh = raw,
                        se_User = Some (ID u, user_Email u, user_Name u)\<rparr>)))"

text \<open>The transaction of \<open>Refresh\<close>: an abort with a message and nothing written, a detected reuse whose revocation
  commits, or the pair of new tokens.\<close>

datatype rotation = Aborted string | ReuseDetected uuid "refresh_token list" | Rotated "refresh_token list" string string

definition revoke_family :: "time \<Rightarrow> uuid \<Rightarrow> refresh_token list \<Rightarrow> refresh_token list" where
  "revoke_family now fam ts =
     update_rows now (\<lambda>t. rt_FamilyID t = fam \<and> \<not> rt_Revoked t) (\<lambda>t. t\<lparr>rt_Revoked := True\<rparr>) ts"

definition rotate :: "auth_env \<Rightarrow> faults \<Rightarrow> time \<Rightarrow> uuid \<Rightarrow> uuid \<Rightarrow> string \<Rightarrow> session_db \<Rightarrow> rotation" where
  "rotate E flt now nid uid hash s =
     (case s of (d, ts) \<Rightarrow>
        if flt ''token'' then Aborted ''refresh token not found or expired''
        else (case first_row (\<lambda>t. rt_Token t = hash \<and> rt_UserID t = uid \<and> now < rt_ExpiresAt t) ts of
            None \<Rightarrow> Aborted (''session invalidated '' @ em_dash @ '' please log in again'')
          | Some rt \<Rightarrow>
              if rt_Revoked rt then ReuseDetected uid (revoke_family now (rt_FamilyID rt) ts)
              else if flt ''revoke token'' then Aborted ''refresh token not found or expired''
              else
                let ts1 = update_rows now (\<lambda>t. ID t = ID rt) (\<lambda>t. t\<lparr>rt_Revoked := True\<rparr>) ts in
                if flt ''user'' then Aborted ''refresh token not found or expired''
                else (case first_row (\<lambda>u. ID u = uid) (db_users d) of
                   None \<Rightarrow> Aborted (''session invalidated '' @ em_dash @ '' please log in again'')
                 | Some u \<Rightarrow>
                     let raw = GenerateRefreshToken E now (ID u) in
                     (case (if flt ''create token'' then None
                            else create_row now refresh_clash (new_refresh E now nid (ID u) (rt_FamilyID rt) raw) ts1) of
                        None \<Rightarrow> Aborted ''refresh token not found or expired''
                      | Some ts2 \<Rightarrow> Rotated ts2 (GenerateAccessToken E now (ID u) (user_Email u)) raw))))"

definition Refresh ::
    "auth_env \<Rightarrow> faults \<Rightarrow> time \<Rightarrow> session_draws \<Rightarrow> string \<Rightarrow> string option \<Rightarrow> session_db \<Rightarrow> session_db \<times> session_reply reply" where
  "Refresh E flt now dr ip req s =
     (case (s, dr, req) of
        ((d, ts), (nid, _, auid), None) \<Rightarrow> (s, Fail 400 ''bad request'')
      | ((d, ts), (nid, _, auid), Some token) \<Rightarrow>
          if token = '''' then (s, Fail 400 ''bad request'')
          else (case ParseRefreshToken E now token of
              None \<Rightarrow> (s, Fail 401 ''invalid refresh token'')
            | Some uid \<Rightarrow>
                (case rotate E flt now nid uid (ae_Sha E token) s of
                   Aborted msg \<Rightarrow> (s, Fail 401 msg)
                 | ReuseDetected _ ts' \<Rightarrow> ((writeAudit now auid uid ''REFRESH_REUSE_DETECTED'' ip d, ts'),
                     Fail 401 (''session invalidated '' @ em_dash @ '' please log in again''))
                 | Rotated ts' access raw \<Rightarrow> ((writeAudit now auid uid ''REFRESH'' ip d, ts'),
                     Reply 200 \<lparr>se_Access = access, se_Refresh = raw, se_User = None\<rparr>))))"

definition Logout ::
    "auth_env \<Rightarrow> faults \<Rightarrow> time \<Rightarrow> uuid \<Rightarrow> string \<Rightarrow> uuid \<Rightarrow> string option \<Rightarrow> session_db \<Rightarrow> session_db \<times> unit reply" where
  "Logout E flt now auid ip who req s =
     (case (s, req) of
        ((d, ts), None) \<Rightarrow> (s, Fail 400 ''bad request'')
      | ((d, ts), Some token) \<Rightarrow>
          if token = '''' then (s, Fail 400 ''bad request'')
          else (case (if flt ''token'' then None else first_row (\<lambda>t. rt_Token t = ae_Sha E token) ts) of
              None \<Rightarrow> (s, Reply 200 ())
            | Some rt \<Rightarrow>
                ((writeAudit now auid who ''LOGOUT'' ip d,
                  if flt ''revoke token'' then ts
                  else update_rows now (\<lambda>t. ID t = ID rt) (\<lambda>t. t\<lparr>rt_Revoked := True\<rparr>) ts), Reply 200 ())))"

subsection \<open>Accounts\<close>

text \<open>The validator's \<open>min\<close> and \<open>max\<close> count runes: bytes that do not continue a character.\<close>

definition rune_count :: "string \<Rightarrow> nat" where
  "rune_count s = length (filter (\<lambda>c. \<not> (128 \<le> (of_char c :: nat) \<and> (of_char c :: nat) < 192)) s)"

definition password_length_ok :: "string \<Rightarrow> bool" where
  "password_length_ok p \<longleftrightarrow> 8 \<le> rune_count p \<and> rune_count p \<le> 72"

definition new_user :: "time \<Rightarrow> uuid \<Rightarrow> string \<Rightarrow> string \<Rightarrow> string \<Rightarrow> user" where
  "new_user now nid email name hash =
     \<lparr>ID = nid, CreatedAt = now, UpdatedAt = now, DeletedAt = None, user_Email = email, user_Name = name,
      user_PasswordHash = hash\<rparr>"

definition RegisterUser ::
    "auth_env \<Rightarrow> faults \<Rightarrow> time \<Rightarrow> uuid \<Rightarrow> (string \<times> string \<times> string) option \<Rightarrow> db \<Rightarrow> db \<times> (uuid \<times> string \<times> string) reply" where
  "RegisterUser E flt now nid req d =
     (case req of
        None \<Rightarrow> (d, Fail 400 ''bad request'')
      | Some (email, password, name) \<Rightarrow>
          if email = '''' \<or> name = '''' \<or> \<not> password_length_ok password then (d, Fail 400 ''bad request'')
          else (case ae_Hash E password of
              None \<Rightarrow> (d, Fail 500 ''failed to hash password'')
            | Some hash \<Rightarrow>
                (case (if flt ''create user'' then None else create_row now user_clash (new_user now nid email name hash) (db_users d)) of
                   None \<Rightarrow> (d, Reply 201 (nil_uuid, email, name))
                 | Some us \<Rightarrow> (d\<lparr>db_users := us\<rparr>, Reply 201 (nid, email, name)))))"

definition ChangePassword ::
    "auth_env \<Rightarrow> faults \<Rightarrow> time \<Rightarrow> uuid \<Rightarrow> (string \<times> string) option \<Rightarrow> db \<Rightarrow> db \<times> unit reply" where
  "ChangePassword E flt now uid req d =
     (case req of
        None \<Rightarrow> (d, Fail 400 ''bad request'')
      | Some (current, new) \<Rightarrow>
          if current = '''' \<or> \<not> password_length_ok new then (d, Fail 400 ''bad request'')
          else (case (if flt ''user'' then None else first_row (\<lambda>u. ID u = uid) (db_users d)) of
              None \<Rightarrow> (d, Fail 404 ''user not found'')
            | Some u \<Rightarrow>
                if \<not> ae_Bcrypt E (user_PasswordHash u) current then (d, Fail 401 ''current password is incorrect'')
                else (case ae_Hash E new of
                    None \<Rightarrow> (d, Fail 500 ''failed to hash password'')
                  | Some hash \<Rightarrow>
                      ((if flt ''update user'' then d
                        else d\<lparr>db_users := update_rows now (\<lambda>x. ID x = ID u) (\<lambda>x. x\<lparr>user_PasswordHash := hash\<rparr>) (db_users d)\<rparr>),
                       Reply 200 ()))))"

subsection \<open>How the table of tokens evolves\<close>

text \<open>A token row keeps everything but its mark, and the mark is never taken back.\<close>

definition refresh_later :: "refresh_token \<Rightarrow> refresh_token \<Rightarrow> bool" where
  "refresh_later a b \<longleftrightarrow> ID b = ID a \<and> DeletedAt b = DeletedAt a \<and> rt_UserID b = rt_UserID a \<and> rt_FamilyID b = rt_FamilyID a \<and>
     rt_Token b = rt_Token a \<and> rt_ExpiresAt b = rt_ExpiresAt a \<and> (rt_Revoked a \<longrightarrow> rt_Revoked b)"

interpretation refresh_table: row_evolution refresh_later
  by unfold_locales (auto simp: refresh_later_def)

interpretation refresh_index: indexed_table refresh_clash "\<lambda>_. True"
  by unfold_locales (auto simp: refresh_clash_def)

text \<open>Every row is live, and a session has at most one token that is not revoked.\<close>

definition sessions_ok :: "refresh_token list \<Rightarrow> bool" where
  "sessions_ok ts \<longleftrightarrow> refresh_index.wf ts \<and> (\<forall>t\<in>set ts. live t) \<and>
     (\<forall>x\<in>set ts. \<forall>y\<in>set ts. rt_FamilyID x = rt_FamilyID y \<longrightarrow> \<not> rt_Revoked x \<longrightarrow> \<not> rt_Revoked y \<longrightarrow> ID x = ID y)"

definition revoke_rows :: "time \<Rightarrow> (refresh_token \<Rightarrow> bool) \<Rightarrow> refresh_token list \<Rightarrow> refresh_token list" where
  "revoke_rows now P ts = update_rows now P (\<lambda>t. t\<lparr>rt_Revoked := True\<rparr>) ts"

lemma revoke_rows_later: "refresh_table.evolves ts (revoke_rows now P ts)"
  unfolding revoke_rows_def by (rule refresh_table.evolves_update) (simp add: refresh_later_def)

lemma revoke_rows_member:
  assumes "x \<in> set (revoke_rows now P ts)"
  obtains y where "y \<in> set ts" "refresh_later y x" "\<not> rt_Revoked x \<Longrightarrow> x = y \<and> \<not> (live y \<and> P y)"
proof -
  obtain y where y: "y \<in> set ts" "x = (if live y \<and> P y then (y\<lparr>rt_Revoked := True\<rparr>)\<lparr>UpdatedAt := now\<rparr> else y)"
    using assms unfolding revoke_rows_def update_rows_set by blast
  show thesis
  proof (cases "live y \<and> P y")
    case True
    then show thesis using y(2) by (intro that [OF y(1)]) (simp_all add: refresh_later_def)
  next
    case False
    then show thesis using y(2) by (intro that [OF y(1)]) (simp_all only: if_False refresh_table.R_refl simp_thms)
  qed
qed

lemma sessions_ok_revoke:
  assumes "sessions_ok ts"
  shows "sessions_ok (revoke_rows now P ts)"
proof -
  have "refresh_index.wf (revoke_rows now P ts)"
    using assms unfolding sessions_ok_def revoke_rows_def
    by (intro refresh_index.wf_update) (auto simp: refresh_clash_def live_def)
  moreover have "live x" if "x \<in> set (revoke_rows now P ts)" for x
    using revoke_rows_member [OF that] assms unfolding sessions_ok_def refresh_later_def live_def by metis
  moreover have "ID x = ID y" if "x \<in> set (revoke_rows now P ts)" "y \<in> set (revoke_rows now P ts)"
    "rt_FamilyID x = rt_FamilyID y" "\<not> rt_Revoked x" "\<not> rt_Revoked y" for x y
  proof -
    have "x \<in> set ts" using revoke_rows_member [OF that(1)] that(4) by metis
    moreover have "y \<in> set ts" using revoke_rows_member [OF that(2)] that(5) by metis
    ultimately show ?thesis using assms that(3-5) unfolding sessions_ok_def by blast
  qed
  ultimately show ?thesis unfolding sessions_ok_def by blast
qed

lemma new_refresh_inserted:
  assumes "create_row now refresh_clash (new_refresh E now nid uid fam raw) ts = Some ts'"
  shows "ts' = ts @ [new_refresh E now nid uid fam raw]" and "\<forall>x\<in>set ts. ID x \<noteq> nid \<and> rt_Token x \<noteq> ae_Sha E raw"
proof -
  have e: "(new_refresh E now nid uid fam raw)\<lparr>CreatedAt := now, UpdatedAt := now, DeletedAt := None\<rparr> = new_refresh E now nid uid fam raw"
    by (simp add: new_refresh_def)
  from create_row_SomeD [OF assms, unfolded e] show "ts' = ts @ [new_refresh E now nid uid fam raw]"
    "\<forall>x\<in>set ts. ID x \<noteq> nid \<and> rt_Token x \<noteq> ae_Sha E raw" by (auto simp: new_refresh_def refresh_clash_def)
qed

lemma sessions_ok_insert:
  assumes "sessions_ok ts" and c: "create_row now refresh_clash (new_refresh E now nid uid fam raw) ts = Some ts'"
    and "\<forall>t\<in>set ts. rt_FamilyID t = fam \<longrightarrow> rt_Revoked t"
  shows "sessions_ok ts'"
proof -
  have "refresh_index.wf ts'"
    using assms(1) unfolding sessions_ok_def
    by (intro refresh_index.wf_create [OF _ c]) (simp_all add: new_refresh_def live_def)
  moreover have t: "ts' = ts @ [new_refresh E now nid uid fam raw]" using new_refresh_inserted [OF c] by blast
  moreover have "live (new_refresh E now nid uid fam raw)" "rt_FamilyID (new_refresh E now nid uid fam raw) = fam"
    by (simp_all add: new_refresh_def live_def)
  ultimately show ?thesis using assms(1,3) unfolding sessions_ok_def by (metis Un_iff empty_iff set_append set_ConsD list.set(1))
qed

subsection \<open>The steps of a session\<close>

lemma Login_cases:
  assumes "Login E flt now (nid, fam, auid) ip req (d, ts) = ((d', ts'), r)"
  obtains (same) "ts' = ts"
  | (inserted) uid raw where "create_row now refresh_clash (new_refresh E now nid uid fam raw) ts = Some ts'"
  using assms by (auto simp: Login_def Let_def split: option.splits if_splits prod.splits)

lemma rotate_Rotated:
  assumes "rotate E flt now nid uid hash (d, ts) = Rotated ts' access raw"
  obtains rt u where "first_row (\<lambda>t. rt_Token t = hash \<and> rt_UserID t = uid \<and> now < rt_ExpiresAt t) ts = Some rt" "\<not> rt_Revoked rt"
    "first_row (\<lambda>u. ID u = uid) (db_users d) = Some u" "raw = GenerateRefreshToken E now uid"
    "access = GenerateAccessToken E now uid (user_Email u)"
    "create_row now refresh_clash (new_refresh E now nid uid (rt_FamilyID rt) raw) (revoke_rows now (\<lambda>t. ID t = ID rt) ts) = Some ts'"
proof -
  obtain rt u where r: "first_row (\<lambda>t. rt_Token t = hash \<and> rt_UserID t = uid \<and> now < rt_ExpiresAt t) ts = Some rt" "\<not> rt_Revoked rt"
    "first_row (\<lambda>u. ID u = uid) (db_users d) = Some u" "raw = GenerateRefreshToken E now (ID u)"
    "access = GenerateAccessToken E now (ID u) (user_Email u)"
    "create_row now refresh_clash (new_refresh E now nid (ID u) (rt_FamilyID rt) raw) (revoke_rows now (\<lambda>t. ID t = ID rt) ts) = Some ts'"
    using assms unfolding rotate_def revoke_rows_def Let_def
    by (auto split: option.splits if_splits)
  then show thesis using first_row_SomeD(3) [OF r(3)] that by simp
qed

lemma rotate_Reuse:
  assumes "rotate E flt now nid uid hash (d, ts) = ReuseDetected w ts'"
  obtains rt where "first_row (\<lambda>t. rt_Token t = hash \<and> rt_UserID t = uid \<and> now < rt_ExpiresAt t) ts = Some rt" "rt_Revoked rt"
    "ts' = revoke_rows now (\<lambda>t. rt_FamilyID t = rt_FamilyID rt \<and> \<not> rt_Revoked t) ts"
  using assms unfolding rotate_def revoke_rows_def revoke_family_def Let_def
  by (auto split: option.splits if_splits)

lemma Refresh_cases:
  assumes "Refresh E flt now (nid, fam, auid) ip req (d, ts) = ((d', ts'), r)"
  obtains (refused) "ts' = ts" "\<And>n x. r \<noteq> Reply n x"
  | (reuse) token uid w where "req = Some token" "ParseRefreshToken E now token = Some uid"
      "rotate E flt now nid uid (ae_Sha E token) (d, ts) = ReuseDetected w ts'" "\<And>n x. r \<noteq> Reply n x"
  | (rotated) token uid access raw where "req = Some token" "ParseRefreshToken E now token = Some uid"
      "rotate E flt now nid uid (ae_Sha E token) (d, ts) = Rotated ts' access raw"
      "r = Reply 200 \<lparr>se_Access = access, se_Refresh = raw, se_User = None\<rparr>"
  using assms by (auto simp: Refresh_def split: option.splits if_splits rotation.splits)

lemma Logout_cases:
  assumes "Logout E flt now auid ip who req (d, ts) = ((d', ts'), r)"
  obtains (same) "ts' = ts" | (revoked) rt :: refresh_token where "ts' = revoke_rows now (\<lambda>t. ID t = ID rt) ts"
  using assms by (auto simp: Logout_def revoke_rows_def [symmetric] split: option.splits if_splits)

text \<open>What may happen to the users' tables between two requests of one client: any of the handlers with any
  arguments, and any change of the other tables.  The id of a family is freshly drawn at each login.\<close>

inductive session_step :: "auth_env \<Rightarrow> session_db \<Rightarrow> session_db \<Rightarrow> bool" for E where
  logged_in: "\<forall>t\<in>set ts. rt_FamilyID t \<noteq> fam \<Longrightarrow> session_step E (d, ts) (fst (Login E flt now (nid, fam, auid) ip req (d, ts)))"
| refreshed: "session_step E (d, ts) (fst (Refresh E flt now (nid, fam, auid) ip req (d, ts)))"
| logged_out: "session_step E (d, ts) (fst (Logout E flt now auid ip who req (d, ts)))"
| account_created: "session_step E (d, ts) (fst (RegisterUser E flt now nid ureq d), ts)"
| password_changed: "session_step E (d, ts) (fst (ChangePassword E flt now uid preq d), ts)"
| elsewhere: "session_step E (d, ts) (d', ts)"

definition tokens_later :: "refresh_token list \<Rightarrow> refresh_token list \<Rightarrow> bool" where
  "tokens_later ts ts' \<longleftrightarrow> (sessions_ok ts \<longrightarrow> sessions_ok ts') \<and> refresh_table.evolves ts ts'"

lemma tokens_later_refl [simp]: "tokens_later ts ts"
  by (simp add: tokens_later_def refresh_table.evolves_refl)

lemma tokens_later_trans: "tokens_later a b \<Longrightarrow> tokens_later b c \<Longrightarrow> tokens_later a c"
  unfolding tokens_later_def using refresh_table.evolves_trans by blast

lemma tokens_later_revoke [simp]: "tokens_later ts (revoke_rows now P ts)"
  by (simp add: tokens_later_def sessions_ok_revoke revoke_rows_later)

lemma Refresh_later: "tokens_later ts (snd (fst (Refresh E flt now (nid, fam, auid) ip req (d, ts))))"
proof -
  obtain d' ts' r where R: "Refresh E flt now (nid, fam, auid) ip req (d, ts) = ((d', ts'), r)" by (metis prod.exhaust)
  then show ?thesis
  proof (cases rule: Refresh_cases)
    case refused
    then show ?thesis using R by simp
  next
    case (reuse token uid w)
    then show ?thesis using R by (auto elim: rotate_Reuse)
  next
    case (rotated token uid access raw)
    from rotated(3) obtain rt where rt: "first_row (\<lambda>t. rt_Token t = ae_Sha E token \<and> rt_UserID t = uid \<and> now < rt_ExpiresAt t) ts = Some rt"
      "\<not> rt_Revoked rt"
      "create_row now refresh_clash (new_refresh E now nid uid (rt_FamilyID rt) raw) (revoke_rows now (\<lambda>t. ID t = ID rt) ts) = Some ts'"
      by (cases rule: rotate_Rotated)
    let ?ts = "revoke_rows now (\<lambda>t. ID t = ID rt) ts"
    have "sessions_ok ts'" if ok: "sessions_ok ts"
    proof (rule sessions_ok_insert [OF sessions_ok_revoke [OF ok] rt(3)], intro ballI impI)
      fix x assume x: "x \<in> set ?ts" "rt_FamilyID x = rt_FamilyID rt"
      show "rt_Revoked x"
      proof (rule ccontr)
        assume n: "\<not> rt_Revoked x"
        then have "x \<in> set ts" "\<not> (live x \<and> ID x = ID rt)" using revoke_rows_member [OF x(1)] by metis+
        then show False using n x(2) rt(2) first_row_SomeD(1) [OF rt(1)] ok unfolding sessions_ok_def by blast
      qed
    qed
    moreover have "refresh_table.evolves ts ts'"
      using refresh_table.evolves_trans [OF revoke_rows_later refresh_table.evolves_create [OF rt(3)]] .
    ultimately show ?thesis using R by (simp add: tokens_later_def)
  qed
qed

lemma session_step_later:
  assumes "session_step E s s'"
  shows "tokens_later (snd s) (snd s')"
  using assms
proof cases
  case (logged_in ts fam d flt now nid auid ip req)
  obtain d' ts' r where L: "Login E flt now (nid, fam, auid) ip req (d, ts) = ((d', ts'), r)" by (metis prod.exhaust)
  then show ?thesis
  proof (cases rule: Login_cases)
    case same
    then show ?thesis using L logged_in by simp
  next
    case (inserted uid raw)
    then have "tokens_later ts ts'" using sessions_ok_insert [OF _ inserted] refresh_table.evolves_create [OF inserted] logged_in(3)
      unfolding tokens_later_def by blast
    then show ?thesis using L logged_in by simp
  qed
next
  case (refreshed d ts flt now nid fam auid ip req)
  then show ?thesis using Refresh_later by simp
next
  case (logged_out d ts flt now auid ip who req)
  obtain d' ts' r where L: "Logout E flt now auid ip who req (d, ts) = ((d', ts'), r)" by (metis prod.exhaust)
  then have "tokens_later ts ts'" by (cases rule: Logout_cases) (simp_all only: tokens_later_refl tokens_later_revoke)
  then show ?thesis using logged_out L by simp
qed simp_all

lemma session_steps_later: "(session_step E)\<^sup>*\<^sup>* s s' \<Longrightarrow> tokens_later (snd s) (snd s')"
  by (induction rule: rtranclp_induct) (auto intro: tokens_later_trans dest: session_step_later)

lemma sessions_ok_Nil: "sessions_ok []"
  by (simp add: sessions_ok_def refresh_index.wf_Nil)

lemma reachable_sessions_ok: "(session_step E)\<^sup>*\<^sup>* (d, []) s \<Longrightarrow> sessions_ok (snd s)"
  using session_steps_later [of E "(d, [])" s] sessions_ok_Nil by (simp add: tokens_later_def)

subsection \<open>What a client can rely on\<close>

lemma trim_prefix_append: "trim_prefix p (p @ x) = x"
  by (simp add: trim_prefix_def)

text \<open>A login gives a working session: the answer to a correct password carries an access token the middleware
  accepts, as that user, until its whole-second expiry, and from there on refuses.\<close>

theorem login_authorizes:
  assumes "jwt_ok E" and "Login E flt now dr ip (Some (email, password)) (d, ts) = (s', Reply n r)"
  shows "\<exists>u. first_row (\<lambda>u. user_Email u = email) (db_users d) = Some u \<and> ae_Bcrypt E (user_PasswordHash u) password \<and>
    (\<forall>t. Auth E t (''Bearer '' @ se_Access r) =
      (if t < numeric_date (now + ae_AccessTTL E) * second then Inr (ID u, email) else Inl (401, ''invalid token'')))"
proof -
  obtain nid fam auid where dr: "dr = (nid, fam, auid)" by (cases dr) auto
  obtain u where u: "first_row (\<lambda>u. user_Email u = email) (db_users d) = Some u" "ae_Bcrypt E (user_PasswordHash u) password"
    "se_Access r = GenerateAccessToken E now (ID u) (user_Email u)"
    using assms(2) unfolding dr by (auto simp: Login_def Let_def split: option.splits if_splits)
  have "user_Email u = email" using first_row_SomeD(3) [OF u(1)] .
  then have "Auth E t (''Bearer '' @ se_Access r) =
      (if t < numeric_date (now + ae_AccessTTL E) * second then Inr (ID u, email) else Inl (401, ''invalid token''))" for t
    using assms(1) by (simp add: Auth_def parse_jwt_def u(3) GenerateAccessToken_def jwt_ok_def trim_prefix_append del: append.simps)
  then show ?thesis using u by blast
qed

text \<open>A toy library for the witnesses: a token is the text of the secret and the claims, in which every byte is announced
  by a \<open>1\<close> and every field closed by a \<open>0\<close>; a password is its own hash.\<close>

definition put_text :: "string \<Rightarrow> string" where
  "put_text s = concat (map (\<lambda>c. [CHR ''1'', c]) s) @ ''0''"

fun get_text :: "string \<Rightarrow> (string \<times> string) option" where
  "get_text [] = None"
| "get_text (x # r) =
     (if x = CHR ''0'' then Some ([], r)
      else (case r of [] \<Rightarrow> None | c # r' \<Rightarrow> map_option (\<lambda>(s, t). (c # s, t)) (get_text r')))"

lemma get_put_text [simp]: "get_text (put_text s @ r) = Some (s, r)"
  by (induction s) (auto simp: put_text_def)

definition put_int :: "int \<Rightarrow> string" where
  "put_int i = put_text ((if i < 0 then ''-'' else ''+'') @ replicate (nat \<bar>i\<bar>) (CHR ''1''))"

definition text_int :: "string \<Rightarrow> int" where
  "text_int s = (if take 1 s = ''-'' then - int (length s - 1) else int (length s - 1))"

lemma text_int_put: "text_int ((if i < 0 then ''-'' else ''+'') @ replicate (nat \<bar>i\<bar>) (CHR ''1'')) = i"
  by (simp add: text_int_def)

definition toy_sign :: "claims \<Rightarrow> string \<Rightarrow> string" where
  "toy_sign c secret = put_text secret @ put_text (cl_UserID c) @ put_text (cl_Email c) @ put_text (cl_Subject c) @
     put_int (cl_ExpiresAt c) @ put_int (cl_IssuedAt c)"

definition toy_verify :: "string \<Rightarrow> string \<Rightarrow> claims option" where
  "toy_verify t secret =
     (case get_text t of None \<Rightarrow> None | Some (k, t1) \<Rightarrow> if k \<noteq> secret then None else
     (case get_text t1 of None \<Rightarrow> None | Some (u, t2) \<Rightarrow>
     (case get_text t2 of None \<Rightarrow> None | Some (m, t3) \<Rightarrow>
     (case get_text t3 of None \<Rightarrow> None | Some (s, t4) \<Rightarrow>
     (case get_text t4 of None \<Rightarrow> None | Some (e, t5) \<Rightarrow>
     (case get_text t5 of None \<Rightarrow> None | Some (i, t6) \<Rightarrow>
        Some \<lparr>cl_UserID = u, cl_Email = m, cl_Subject = s, cl_ExpiresAt = text_int e, cl_IssuedAt = text_int i\<rparr>))))))"

definition toy_env :: auth_env where
  "toy_env = \<lparr>ae_Sign = toy_sign, ae_Verify = toy_verify, ae_Bcrypt = (=), ae_Hash = Some, ae_Sha = (\<lambda>x. x), ae_ParseUUID = Some,
     ae_JwtSecret = ''s'', ae_RefreshSecret = ''t'', ae_AccessTTL = 2 * second, ae_RefreshTTL = 9 * second\<rparr>"

lemma get_put_int: "get_text (put_int i @ r) = Some ((if i < 0 then ''-'' else ''+'') @ replicate (nat \<bar>i\<bar>) (CHR ''1''), r)"
  unfolding put_int_def by (rule get_put_text)

lemma get_put_int_last: "get_text (put_int i) = Some ((if i < 0 then ''-'' else ''+'') @ replicate (nat \<bar>i\<bar>) (CHR ''1''), [])"
  using get_put_int [of i "[]"] by simp

lemma toy_env_ok: "jwt_ok toy_env"
  by (simp add: jwt_ok_def toy_env_def toy_verify_def toy_sign_def get_put_int get_put_int_last text_int_put)

definition sample_user :: user where
  "sample_user = new_user 1 ''u1'' ''a@b'' ''Ann'' ''password''"

definition users_db :: db where
  "users_db = empty_db\<lparr>db_users := [sample_user]\<rparr>"

definition logged_in_state :: "session_db \<times> session_reply reply" where
  "logged_in_state = Login toy_env no_faults second (''r1'', ''f1'', ''x1'') ''ip'' (Some (''a@b'', ''password'')) (users_db, [])"

lemma Reply_exists: "(case snd x of Reply n _ \<Rightarrow> n = m | Fail _ _ \<Rightarrow> False) \<Longrightarrow> \<exists>r. x = (fst x, Reply m r)"
  by (cases x; cases "snd x") auto

theorem login_authorizes_witness:
  "\<exists>r. snd logged_in_state = Reply 200 r \<and> Auth toy_env (2 * second) (''Bearer '' @ se_Access r) = Inr (''u1'', ''a@b'') \<and>
     Auth toy_env (3 * second) (''Bearer '' @ se_Access r) = Inl (401, ''invalid token'')"
proof -
  have "case snd logged_in_state of Reply n _ \<Rightarrow> n = 200 | Fail _ _ \<Rightarrow> False" by code_simp
  from Reply_exists [OF this] obtain r where r: "logged_in_state = (fst logged_in_state, Reply 200 r)" by blast
  have f: "first_row (\<lambda>u. user_Email u = ''a@b'') (db_users users_db) = Some sample_user" by code_simp
  have n: "numeric_date (second + ae_AccessTTL toy_env) * second = 3 * second" by code_simp
  have i: "ID sample_user = ''u1''" by (simp add: sample_user_def new_user_def)
  have "\<forall>t. Auth toy_env t (''Bearer '' @ se_Access r) = (if t < 3 * second then Inr (''u1'', ''a@b'') else Inl (401, ''invalid token''))"
    using login_authorizes [OF toy_env_ok r [unfolded logged_in_state_def]] unfolding f n by (auto simp: i simp del: append.simps)
  moreover have "2 * second < 3 * second" by (simp add: second_def)
  ultimately show ?thesis using r by (metis snd_conv less_irrefl)
qed

subsection \<open>A refresh token is spent once\<close>

lemma parse_same: "ParseRefreshToken E now t = Some a \<Longrightarrow> ParseRefreshToken E now' t = Some b \<Longrightarrow> a = b"
  by (auto simp: ParseRefreshToken_def parse_jwt_def split: option.splits if_splits)

lemma family_revoked:
  assumes "sessions_ok ts" and "x \<in> set (revoke_rows now (\<lambda>t. rt_FamilyID t = fam \<and> \<not> rt_Revoked t) ts)" and "rt_FamilyID x = fam"
  shows "rt_Revoked x"
proof (rule ccontr)
  assume n: "\<not> rt_Revoked x"
  obtain y where "y \<in> set ts" "x = y" "\<not> (live y \<and> rt_FamilyID y = fam \<and> \<not> rt_Revoked y)"
    using revoke_rows_member [OF assms(2)] n by metis
  then show False using assms(1,3) n unfolding sessions_ok_def by blast
qed

lemma spent_token:
  assumes "(session_step E)\<^sup>*\<^sup>* (d0, []) s" and R: "Refresh E flt now dr ip (Some token) s = (s1, Reply n r)"
  obtains t uid where "t \<in> set (snd s1)" "rt_Token t = ae_Sha E token" "rt_UserID t = uid" "rt_Revoked t" "live t"
    "ParseRefreshToken E now token = Some uid" "sessions_ok (snd s1)"
proof -
  obtain d ts where s: "s = (d, ts)" by (rule prod.exhaust)
  obtain nid fam auid where dr: "dr = (nid, fam, auid)" by (cases dr) auto
  obtain d' ts' where s1: "s1 = (d', ts')" by (rule prod.exhaust)
  have ok: "sessions_ok ts" using reachable_sessions_ok [OF assms(1)] s by simp
  have "sessions_ok ts'" using Refresh_later [of ts E flt now nid fam auid ip "Some token" d] ok R
    by (simp add: s dr s1 tokens_later_def)
  from R [unfolded s dr s1] show thesis
  proof (cases rule: Refresh_cases)
    case (rotated token' uid access raw)
    from rotated(3) obtain rt where rt: "first_row (\<lambda>t. rt_Token t = ae_Sha E token' \<and> rt_UserID t = uid \<and> now < rt_ExpiresAt t) ts = Some rt"
      "create_row now refresh_clash (new_refresh E now nid uid (rt_FamilyID rt) raw) (revoke_rows now (\<lambda>t. ID t = ID rt) ts) = Some ts'"
      by (cases rule: rotate_Rotated)
    let ?t = "(rt\<lparr>rt_Revoked := True\<rparr>)\<lparr>UpdatedAt := now\<rparr>"
    note f = first_row_SomeD [OF rt(1)]
    have "?t \<in> set (revoke_rows now (\<lambda>t. ID t = ID rt) ts)"
      unfolding revoke_rows_def update_rows_set by (rule image_eqI [OF _ f(1)]) (simp add: f(2))
    then have "?t \<in> set (snd s1)" using new_refresh_inserted(1) [OF rt(2)] s1 by simp
    then show thesis using f rotated \<open>sessions_ok ts'\<close> s1 by (intro that [of ?t uid]) (simp_all add: live_def)
  qed blast+
qed

text \<open>C13. A refresh token works once.  After it has been exchanged, whatever else happens to the sessions, presenting it
  again never succeeds; and while the token has not expired, presenting it revokes every token of its session, the
  newest included, so a thief and the victim are both logged out.\<close>

theorem refresh_replay_kills_session:
  assumes "(session_step E)\<^sup>*\<^sup>* (d0, []) s" and "Refresh E flt now dr ip (Some token) s = (s1, Reply n r)"
    and "(session_step E)\<^sup>*\<^sup>* s1 s2" and "Refresh E flt' now' dr' ip' (Some token) s2 = (s3, r3)"
  shows "(\<nexists>m x. r3 = Reply m x) \<and>
    (\<exists>t\<in>set (snd s1). rt_Token t = ae_Sha E token \<and>
       (ParseRefreshToken E now' token \<noteq> None \<and> now' < rt_ExpiresAt t \<and> \<not> flt' ''token'' \<longrightarrow>
        (\<forall>x\<in>set (snd s3). rt_FamilyID x = rt_FamilyID t \<longrightarrow> rt_Revoked x)))"
proof -
  obtain t uid where t: "t \<in> set (snd s1)" "rt_Token t = ae_Sha E token" "rt_UserID t = uid" "rt_Revoked t" "live t"
    "ParseRefreshToken E now token = Some uid" "sessions_ok (snd s1)" using spent_token [OF assms(1,2)] by metis
  have l: "tokens_later (snd s1) (snd s2)" using session_steps_later [OF assms(3)] .
  then have ok: "sessions_ok (snd s2)" using t(7) unfolding tokens_later_def by blast
  obtain t' where t': "t' \<in> set (snd s2)" "refresh_later t t'"
    using refresh_table.evolves_member [OF _ t(1)] l unfolding tokens_later_def by blast
  have "live t'" using ok t'(1) unfolding sessions_ok_def by blast
  have only: "x = t'" if "x \<in> set (snd s2)" "rt_Token x = ae_Sha E token" for x
    using refresh_index.wf_eq [of "snd s2" x t'] ok that t' t(2) unfolding sessions_ok_def refresh_clash_def refresh_later_def by simp
  obtain d2 ts2 where s2: "s2 = (d2, ts2)" by (rule prod.exhaust)
  obtain nid fam auid where dr: "dr' = (nid, fam, auid)" by (cases dr') auto
  obtain d3 ts3 where s3: "s3 = (d3, ts3)" by (rule prod.exhaust)
  have no: "rotate E flt' now' nid u (ae_Sha E token) (d2, ts2) \<noteq> Rotated a b c" for u a b c
  proof
    assume "rotate E flt' now' nid u (ae_Sha E token) (d2, ts2) = Rotated a b c"
    then obtain x where "first_row (\<lambda>t. rt_Token t = ae_Sha E token \<and> rt_UserID t = u \<and> now' < rt_ExpiresAt t) ts2 = Some x" "\<not> rt_Revoked x"
      by (cases rule: rotate_Rotated)
    then show False using only first_row_SomeD [of _ ts2 x] s2 t'(2) t(4) unfolding refresh_later_def by auto
  qed
  from assms(4) [unfolded s2 dr s3] have "\<nexists>m x. r3 = Reply m x"
    by (cases rule: Refresh_cases) (use no in blast)+
  moreover have "\<forall>x\<in>set (snd s3). rt_FamilyID x = rt_FamilyID t \<longrightarrow> rt_Revoked x"
    if p: "ParseRefreshToken E now' token \<noteq> None" "now' < rt_ExpiresAt t" "\<not> flt' ''token''"
  proof -
    have u: "ParseRefreshToken E now' token = Some uid" using p(1) parse_same [OF t(6)] by blast
    have "token \<noteq> []" using assms(2) by (cases s; cases dr) (auto simp: Refresh_def)
    let ?P = "\<lambda>t. rt_Token t = ae_Sha E token \<and> rt_UserID t = uid \<and> now' < rt_ExpiresAt t"
    have "?P t'" using t'(2) t(2,3) p(2) unfolding refresh_later_def by simp
    then have "first_row ?P ts2 \<noteq> None" using t'(1) \<open>live t'\<close> s2 unfolding first_row_None_iff by auto
    then obtain x where x: "first_row ?P ts2 = Some x" by blast
    have "x = t'" using only first_row_SomeD [OF x] s2 by simp
    then have "rotate E flt' now' nid uid (ae_Sha E token) (d2, ts2) = ReuseDetected uid (revoke_family now' (rt_FamilyID t) ts2)"
      using x p(3) t'(2) t(4) by (simp add: rotate_def refresh_later_def)
    then have "ts3 = revoke_rows now' (\<lambda>t'. rt_FamilyID t' = rt_FamilyID t \<and> \<not> rt_Revoked t') ts2"
      using assms(4) u \<open>token \<noteq> []\<close> by (simp add: Refresh_def s2 dr s3 revoke_family_def revoke_rows_def)
    then show ?thesis using family_revoked ok s2 s3 by simp
  qed
  ultimately show ?thesis using t(1,2) by blast
qed

definition first_refresh :: string where
  "first_refresh = GenerateRefreshToken toy_env second ''u1''"

definition after_refresh :: "session_db \<times> session_reply reply" where
  "after_refresh = Refresh toy_env no_faults (2 * second) (''r2'', '''', ''x2'') ''ip'' (Some first_refresh) (fst logged_in_state)"

definition after_replay :: "session_db \<times> session_reply reply" where
  "after_replay = Refresh toy_env no_faults (3 * second) (''r3'', '''', ''x3'') ''thief'' (Some first_refresh) (fst after_refresh)"

theorem refresh_replay_kills_session_witness:
  "(\<nexists>m x. snd after_replay = Reply m x) \<and>
   (\<exists>t\<in>set (snd (fst after_refresh)). [x \<leftarrow> snd (fst after_replay). rt_FamilyID x = rt_FamilyID t \<and> \<not> rt_Revoked x] = [])"
proof -
  have l: "(session_step toy_env)\<^sup>*\<^sup>* (users_db, []) (fst logged_in_state)"
    unfolding logged_in_state_def by (rule r_into_rtranclp, rule session_step.logged_in) simp
  have "case snd after_refresh of Reply n _ \<Rightarrow> n = 200 | Fail _ _ \<Rightarrow> False" by code_simp
  from Reply_exists [OF this] obtain r where r: "after_refresh = (fst after_refresh, Reply 200 r)" by blast
  have p: "ParseRefreshToken toy_env (3 * second) first_refresh \<noteq> None" by code_simp
  have e: "\<forall>t\<in>set (snd (fst after_refresh)). 3 * second < rt_ExpiresAt t" by code_simp
  have "after_replay = (fst after_replay, snd after_replay)" by simp
  from refresh_replay_kills_session [OF l r [unfolded after_refresh_def] rtranclp.rtrancl_refl this [unfolded after_replay_def after_refresh_def]]
  show ?thesis using p e unfolding after_replay_def after_refresh_def by (auto simp: no_faults_def filter_empty_conv)
qed

text \<open>Tokens are dated in whole seconds, so two tokens of one user drawn within a second are the same text.  The new row
  then breaks the unique index, the transaction rolls back, and a client that refreshes within the second of its login
  is turned away.\<close>

lemma same_second_token:
  assumes "numeric_date now = numeric_date now'" and "second dvd ae_RefreshTTL E"
  shows "GenerateRefreshToken E now uid = GenerateRefreshToken E now' uid"
proof -
  obtain k where "ae_RefreshTTL E = second * k" using assms(2) by (rule dvdE)
  then have "numeric_date (t + ae_RefreshTTL E) = numeric_date t + k" for t by (simp add: numeric_date_def second_def)
  then show ?thesis using assms(1) by (simp add: GenerateRefreshToken_def)
qed

lemma same_second_refresh_refused:
  assumes "Refresh E flt now dr ip (Some token) (d, ts) = (s', r)" and "ParseRefreshToken E now token = Some uid"
    and "GenerateRefreshToken E now uid = token"
  shows "\<nexists>m x. r = Reply m x"
proof -
  obtain nid fam auid where dr: "dr = (nid, fam, auid)" by (cases dr) auto
  obtain d' ts' where s': "s' = (d', ts')" by (rule prod.exhaust)
  have no: "rotate E flt now nid uid (ae_Sha E token) (d, ts) \<noteq> Rotated a b c" for a b c
  proof
    assume "rotate E flt now nid uid (ae_Sha E token) (d, ts) = Rotated a b c"
    then obtain rt where rt: "first_row (\<lambda>t. rt_Token t = ae_Sha E token \<and> rt_UserID t = uid \<and> now < rt_ExpiresAt t) ts = Some rt"
      "create_row now refresh_clash (new_refresh E now nid uid (rt_FamilyID rt) token) (revoke_rows now (\<lambda>t. ID t = ID rt) ts) = Some a"
      using assms(3) by (cases rule: rotate_Rotated) metis
    obtain y where "y \<in> set (revoke_rows now (\<lambda>t. ID t = ID rt) ts)" "refresh_later rt y"
      using refresh_table.evolves_member [OF revoke_rows_later first_row_SomeD(1) [OF rt(1)]] by blast
    then show False using new_refresh_inserted(2) [OF rt(2)] first_row_SomeD(3) [OF rt(1)] unfolding refresh_later_def by auto
  qed
  from assms(1) [unfolded dr s'] show ?thesis
    by (cases rule: Refresh_cases) (use no assms(2) in auto)
qed

end
