(* ===== verification/Accounts.thy ===== *)
theory Accounts
  imports Sessions
begin

text \<open>
  Organizations and their members: \<open>handlers/org.go\<close> and \<open>handlers/user.go\<close> behind \<open>middleware/org.go\<close> (membership and
  role), with the audit trail of \<open>middleware/audit.go\<close>, the cross-origin rules of \<open>middleware/cors.go\<close> and the machine
  listing of \<open>handlers/machine.go\<close>.  Who may call what is the table \<open>org_routes\<close> of \<open>api/router.go\<close>.
\<close>

subsection \<open>Membership and role\<close>

definition membership :: "uuid \<Rightarrow> uuid \<Rightarrow> db \<Rightarrow> organization_member option" where
  "membership org uid d = first_row (\<lambda>m. mem_OrganizationID m = org \<and> mem_UserID m = uid) (db_members d)"

definition OrgContext :: "uuid option \<Rightarrow> uuid \<Rightarrow> db \<Rightarrow> (nat \<times> string) + uuid \<times> member_role" where
  "OrgContext orgp uid d =
     (case orgp of
        None \<Rightarrow> Inl (400, ''invalid org_id'')
      | Some org \<Rightarrow>
          (case membership org uid d of
             None \<Rightarrow> Inl (403, ''access denied'') | Some m \<Rightarrow> Inr (org, mem_Role m)))"

definition RequireRole :: "member_role list \<Rightarrow> member_role \<Rightarrow> (nat \<times> string) option" where
  "RequireRole roles r = (if r \<in> set roles then None else Some (403, ''insufficient permissions''))"

definition operators :: "member_role list" where
  "operators = [RoleOwner, RoleAdmin, RoleOperator]"

definition admins :: "member_role list" where
  "admins = [RoleOwner, RoleAdmin]"

text \<open>The routes under \<open>/organizations/:org_id\<close> with the roles they name.\<close>

definition org_routes :: "(string \<times> string \<times> member_role list option) list" where
  "org_routes =
     [(''GET'', '''', None),
      (''GET'', ''/backup-policies'', None),
      (''POST'', ''/backup-policies'', Some operators),
      (''GET'', ''/backup-policies/:id'', None),
      (''PUT'', ''/backup-policies/:id'', Some operators),
      (''DELETE'', ''/backup-policies/:id'', Some admins),
      (''GET'', ''/members'', None),
      (''POST'', ''/members'', Some admins),
      (''PUT'', ''/members/:user_id/role'', Some admins),
      (''DELETE'', ''/members/:user_id'', Some admins),
      (''GET'', ''/agents'', None),
      (''POST'', ''/agents/token'', Some admins),
      (''POST'', ''/agents/enrollment-token'', Some admins),
      (''GET'', ''/agents/enrollment-tokens'', None),
      (''DELETE'', ''/agents/enrollment-tokens/:id'', Some admins),
      (''GET'', ''/agents/:id'', None),
      (''PUT'', ''/agents/:id'', Some admins),
      (''POST'', ''/agents/:id/rotate-token'', Some admins),
      (''POST'', ''/agents/:id/revoke'', Some admins),
      (''DELETE'', ''/agents/:id'', Some admins),
      (''GET'', ''/machines'', None),
      (''GET'', ''/machines/:id'', None),
      (''GET'', ''/storage-targets'', None),
      (''POST'', ''/storage-targets'', Some admins),
      (''POST'', ''/storage-targets/:id/test'', Some operators),
      (''GET'', ''/storage-regions'', None),
      (''POST'', ''/storage-regions'', Some admins),
      (''DELETE'', ''/storage-regions/:code'', Some admins),
      (''DELETE'', ''/storage-targets/:id'', Some admins),
      (''GET'', ''/connections'', None),
      (''POST'', ''/connections'', Some operators),
      (''GET'', ''/connections/:id'', None),
      (''PUT'', ''/connections/:id'', Some operators),
      (''DELETE'', ''/connections/:id'', Some admins),
      (''POST'', ''/connections/:id/test'', Some operators),
      (''GET'', ''/connections/:id/databases'', None),
      (''GET'', ''/connections/:id/databases/:dbname/tables'', None),
      (''GET'', ''/backup-jobs'', None),
      (''POST'', ''/backup-jobs'', Some operators),
      (''GET'', ''/backup-jobs/:id'', None),
      (''PUT'', ''/backup-jobs/:id'', Some operators),
      (''DELETE'', ''/backup-jobs/:id'', Some admins),
      (''POST'', ''/backup-jobs/:id/run'', Some operators),
      (''POST'', ''/backup-jobs/:id/enable'', Some admins),
      (''POST'', ''/backup-jobs/:id/disable'', Some admins),
      (''GET'', ''/backup-jobs/:id/preflight'', Some operators),
      (''GET'', ''/backup-runs'', None),
      (''GET'', ''/backup-runs/:id'', None),
      (''POST'', ''/backup-runs/:id/cancel'', Some operators),
      (''POST'', ''/backup-runs/:id/verify'', Some operators),
      (''GET'', ''/backup-runs/:id/artifacts'', None),
      (''GET'', ''/restores'', None),
      (''POST'', ''/restores'', Some operators),
      (''GET'', ''/restores/:id'', None),
      (''GET'', ''/alerts'', None),
      (''PUT'', ''/alerts/read-all'', None),
      (''PUT'', ''/alerts/:id/read'', None),
      (''POST'', ''/alerts/:id/ack'', None),
      (''POST'', ''/alerts/:id/resolve'', None),
      (''GET'', ''/notification-settings'', None),
      (''PUT'', ''/notification-settings'', Some admins),
      (''POST'', ''/notification-settings/test-email'', Some admins),
      (''GET'', ''/dashboard'', None),
      (''GET'', ''/dashboard/health'', None)]"

text \<open>A request of the dashboard to an organization's route, as the chain of middleware sees it: token, membership,
  role.  \<open>E\<close> parses the user id the token carries; one that does not parse is the nil id.\<close>

definition org_gate ::
    "auth_env \<Rightarrow> time \<Rightarrow> string \<Rightarrow> uuid option \<Rightarrow> member_role list option \<Rightarrow> db \<Rightarrow> (nat \<times> string) + uuid \<times> uuid" where
  "org_gate E now header orgp roles d =
     (case Auth E now header of
        Inl e \<Rightarrow> Inl e
      | Inr (who, _) \<Rightarrow>
          let uid = (case ae_ParseUUID E who of None \<Rightarrow> nil_uuid | Some u \<Rightarrow> u) in
          (case OrgContext orgp uid d of
             Inl e \<Rightarrow> Inl e
           | Inr (org, role) \<Rightarrow>
               (case roles of
                  None \<Rightarrow> Inr (uid, org)
                | Some rs \<Rightarrow> (case RequireRole rs role of Some e \<Rightarrow> Inl e | None \<Rightarrow> Inr (uid, org)))))"

definition Audit ::
    "auth_env \<Rightarrow> time \<Rightarrow> uuid \<Rightarrow> string \<Rightarrow> string \<Rightarrow> string \<Rightarrow> string \<Rightarrow> string \<Rightarrow> uuid option \<Rightarrow> db \<Rightarrow> db" where
  "Audit E now nid meth path rid ip who org d =
     (if meth \<notin> {''POST'', ''PUT'', ''DELETE'', ''PATCH''} then d
      else (case ae_ParseUUID E who of
          None \<Rightarrow> d
        | Some uid \<Rightarrow> add_audit now nid (case org of None \<Rightarrow> nil_uuid | Some i \<Rightarrow> i) (uid, ip) meth path rid d))"

subsection \<open>Origins\<close>

definition parseOrigins :: "string \<Rightarrow> string list" where
  "parseOrigins s = filter (\<lambda>v. v \<noteq> '''') (map (\<lambda>p. trim_space (trim_suffix ''/'' p)) (split_on (CHR '','') s))"

definition loopback_origin :: "string \<Rightarrow> bool" where
  "loopback_origin norm \<longleftrightarrow>
     (\<exists>h\<in>set [''localhost'', ''127.0.0.1'', ''[::1]'']. has_prefix (''http://'' @ h) (to_lower norm) \<or> has_prefix (''https://'' @ h) (to_lower norm))"

definition originAllowed :: "string \<Rightarrow> string list \<Rightarrow> bool" where
  "originAllowed origin allowed \<longleftrightarrow>
     (let norm = trim_suffix ''/'' (trim_space origin) in
      (\<exists>a\<in>set allowed. a = ''*'' \<or> norm = a) \<or> loopback_origin norm)"

text \<open>The \<open>Access-Control-Allow-Origin\<close> header, if any, and whether a preflight request ends here.\<close>

definition CORS :: "string \<Rightarrow> string \<Rightarrow> string \<Rightarrow> string option \<times> bool" where
  "CORS allowedOrigins origin meth =
     (let allowed = parseOrigins allowedOrigins in
      ((if origin \<noteq> '''' then (if originAllowed origin allowed then Some origin else None)
        else (case allowed of [] \<Rightarrow> None | a # _ \<Rightarrow> Some a)),
       meth = ''OPTIONS''))"

subsection \<open>Organizations\<close>

definition slugify :: "string \<Rightarrow> string" where
  "slugify s = to_lower (replace_char (CHR '' '') ''-'' (trim_space s))"

text \<open>\<open>Itoa\<close> of the suffixes 2 to 10.\<close>

definition slug_candidate :: "string \<Rightarrow> nat \<Rightarrow> string" where
  "slug_candidate b i =
     (if i \<le> 1 then b else b @ ''-'' @ (if i < 10 then [char_of (48 + i)] else ''10''))"

definition new_org :: "time \<Rightarrow> uuid \<Rightarrow> string \<Rightarrow> string \<Rightarrow> organization" where
  "new_org now nid name slug =
     \<lparr>ID = nid, CreatedAt = now, UpdatedAt = now, DeletedAt = None, org_Name = name, org_Slug = slug, org_UserLimit = 10\<rparr>"

text \<open>The insertion loop: \<open>ids i\<close> is the id drawn in round \<open>i\<close>; a unique violation tries the next suffix.\<close>

datatype org_insert = OrgCreated organization "organization list" | OrgFailed | OrgConflict

function try_slugs :: "faults \<Rightarrow> time \<Rightarrow> (nat \<Rightarrow> uuid) \<Rightarrow> string \<Rightarrow> string \<Rightarrow> nat \<Rightarrow> organization list \<Rightarrow> org_insert" where
  "try_slugs flt now ids name b i t =
     (if 10 < i then OrgConflict
      else if flt ''create organization'' then OrgFailed
      else
        let r = new_org now (ids i) name (slug_candidate b i) in
        (case create_row now org_clash r t of
           Some t' \<Rightarrow> OrgCreated r t'
         | None \<Rightarrow> if i = 10 then OrgConflict else try_slugs flt now ids name b (i + 1) t))"
  by pat_completeness auto

termination by (relation "measure (\<lambda>(_, _, _, _, _, i, _). 11 - i)") auto

definition new_member :: "time \<Rightarrow> uuid \<Rightarrow> uuid \<Rightarrow> uuid \<Rightarrow> member_role \<Rightarrow> organization_member" where
  "new_member now nid org uid role =
     \<lparr>ID = nid, CreatedAt = now, UpdatedAt = now, DeletedAt = None, mem_OrganizationID = org, mem_UserID = uid, mem_Role = role\<rparr>"

text \<open>An unchecked insertion of a member; the column default replaces an empty role.\<close>

definition add_member :: "faults \<Rightarrow> time \<Rightarrow> organization_member \<Rightarrow> db \<Rightarrow> db" where
  "add_member flt now m d =
     (case (if flt ''create member'' then None
            else create_row now member_clash (if mem_Role m = RoleOther '''' then m\<lparr>mem_Role := RoleViewer\<rparr> else m) (db_members d)) of
        None \<Rightarrow> d | Some ms \<Rightarrow> d\<lparr>db_members := ms\<rparr>)"

definition CreateOrg ::
    "faults \<Rightarrow> time \<Rightarrow> (nat \<Rightarrow> uuid) \<Rightarrow> uuid \<Rightarrow> uuid \<Rightarrow> string option \<Rightarrow> db \<Rightarrow> db \<times> organization reply" where
  "CreateOrg flt now ids mid uid req d =
     (case req of
        None \<Rightarrow> (d, Fail 400 ''bad request'')
      | Some name \<Rightarrow>
          if name = '''' then (d, Fail 400 ''bad request'')
          else (case try_slugs flt now ids name (slugify name) 1 (db_orgs d) of
              OrgFailed \<Rightarrow> (d, Fail 500 ''failed to create organization'')
            | OrgConflict \<Rightarrow> (d, Fail 409 ''could not generate a unique slug for this organization name'')
            | OrgCreated r t' \<Rightarrow> (add_member flt now (new_member now mid (ID r) uid RoleOwner) (d\<lparr>db_orgs := t'\<rparr>), Reply 201 r)))"

definition ListOrgs :: "uuid \<Rightarrow> db \<Rightarrow> (organization option \<times> member_role) list reply" where
  "ListOrgs uid d =
     Reply 200 (map (\<lambda>m. (first_row (\<lambda>x. ID x = mem_OrganizationID m) (db_orgs d), mem_Role m))
       (rows (\<lambda>m. mem_UserID m = uid) (db_members d)))"

definition GetOrg :: "uuid \<Rightarrow> db \<Rightarrow> organization reply" where
  "GetOrg org d = (case first_row (\<lambda>x. ID x = org) (db_orgs d) of None \<Rightarrow> Fail 404 ''not found'' | Some x \<Rightarrow> Reply 200 x)"

subsection \<open>Members\<close>

definition ListMembers :: "uuid \<Rightarrow> db \<Rightarrow> (organization_member \<times> user option) list reply" where
  "ListMembers org d =
     Reply 200 (map (\<lambda>m. (m, first_row (\<lambda>u. ID u = mem_UserID m) (db_users d)))
       (rows (\<lambda>m. mem_OrganizationID m = org) (db_members d)))"

record member_request =
  mq_Email :: string
  mq_Name :: string
  mq_Password :: string
  mq_Role :: member_role

text \<open>The user to invite: the one with this address, or a new one.  A password bcrypt refuses (over 72 bytes) leaves an
  empty hash, and neither that nor a failed insertion is noticed.\<close>

definition invited_user :: "auth_env \<Rightarrow> faults \<Rightarrow> time \<Rightarrow> uuid \<Rightarrow> member_request \<Rightarrow> db \<Rightarrow> user \<times> db" where
  "invited_user E flt now nid q d =
     (case first_row (\<lambda>u. user_Email u = mq_Email q) (db_users d) of
        Some u \<Rightarrow> (u, d)
      | None \<Rightarrow>
          let u = new_user now nid (mq_Email q) (mq_Name q) (case ae_Hash E (mq_Password q) of None \<Rightarrow> '''' | Some h \<Rightarrow> h) in
          (case (if flt ''create user'' then None else create_row now user_clash u (db_users d)) of
             None \<Rightarrow> (u, d) | Some us \<Rightarrow> (u, d\<lparr>db_users := us\<rparr>)))"

definition member_count :: "uuid \<Rightarrow> db \<Rightarrow> nat" where
  "member_count org d = affected (\<lambda>m. mem_OrganizationID m = org) (db_members d)"

definition InviteMember ::
    "auth_env \<Rightarrow> faults \<Rightarrow> time \<Rightarrow> uuid \<Rightarrow> uuid \<Rightarrow> uuid \<Rightarrow> member_request option \<Rightarrow> db \<Rightarrow> db \<times> (uuid \<times> string \<times> member_role) reply" where
  "InviteMember E flt now nid mid org req d =
     (case req of
        None \<Rightarrow> (d, Fail 400 ''bad request'')
      | Some q \<Rightarrow>
          if mq_Email q = '''' \<or> rune_count (mq_Password q) < 8 \<or> mq_Role q = RoleOther '''' then (d, Fail 400 ''bad request'')
          else (case first_row (\<lambda>x. ID x = org) (db_orgs d) of
              None \<Rightarrow> (d, Fail 500 ''org not found'')
            | Some g \<Rightarrow>
                if org_UserLimit g \<le> int (member_count org d) then (d, Fail 422 ''organization user limit reached'')
                else
                  let (u, d1) = invited_user E flt now nid q d in
                  if affected (\<lambda>m. mem_OrganizationID m = org \<and> mem_UserID m = ID u) (db_members d1) > 0
                  then (d1, Fail 409 ''user already a member'')
                  else (add_member flt now (new_member now mid org (ID u) (mq_Role q)) d1,
                        Reply 201 (ID u, user_Email u, mq_Role q))))"

definition UpdateRole :: "faults \<Rightarrow> time \<Rightarrow> uuid \<Rightarrow> uuid option \<Rightarrow> member_role option \<Rightarrow> db \<Rightarrow> db \<times> member_role reply" where
  "UpdateRole flt now org uidp req d =
     (case uidp of
        None \<Rightarrow> (d, Fail 400 ''invalid user_id'')
      | Some uid \<Rightarrow>
          (case req of
             None \<Rightarrow> (d, Fail 400 ''bad request'')
           | Some role \<Rightarrow>
               if role = RoleOther '''' then (d, Fail 400 ''bad request'')
               else if flt ''update member'' \<or>
                 affected (\<lambda>m. mem_OrganizationID m = org \<and> mem_UserID m = uid) (db_members d) = 0
               then (d, Fail 404 ''member not found'')
               else (d\<lparr>db_members := update_rows now (\<lambda>m. mem_OrganizationID m = org \<and> mem_UserID m = uid)
                        (\<lambda>m. m\<lparr>mem_Role := role\<rparr>) (db_members d)\<rparr>, Reply 200 role)))"

definition RemoveMember :: "faults \<Rightarrow> time \<Rightarrow> uuid \<Rightarrow> uuid option \<Rightarrow> db \<Rightarrow> db \<times> unit reply" where
  "RemoveMember flt now org uidp d =
     (case uidp of
        None \<Rightarrow> (d, Fail 400 ''invalid user_id'')
      | Some uid \<Rightarrow>
          ((if flt ''delete member'' then d
            else d\<lparr>db_members := delete_rows now (\<lambda>m. mem_OrganizationID m = org \<and> mem_UserID m = uid) (db_members d)\<rparr>),
           Reply 204 ()))"

definition Me :: "uuid \<Rightarrow> db \<Rightarrow> (uuid \<times> string \<times> string) reply" where
  "Me uid d =
     (case first_row (\<lambda>u. ID u = uid) (db_users d) of
        None \<Rightarrow> Fail 404 ''not found'' | Some u \<Rightarrow> Reply 200 (ID u, user_Email u, user_Name u))"

subsection \<open>Machines\<close>

definition machine_agent :: "db \<Rightarrow> machine \<Rightarrow> machine \<times> agent option" where
  "machine_agent d m = (m, first_row (\<lambda>a. ID a = mach_AgentID m) (db_agents d))"

definition ListMachines :: "uuid \<Rightarrow> db \<Rightarrow> (machine \<times> agent option) list reply" where
  "ListMachines org d = Reply 200 (map (machine_agent d) (rows (\<lambda>m. mach_OrganizationID m = org) (db_machines d)))"

definition GetMachine :: "uuid \<Rightarrow> uuid option \<Rightarrow> db \<Rightarrow> (machine \<times> agent option) reply" where
  "GetMachine org idp d =
     (case idp of
        None \<Rightarrow> Fail 400 ''invalid id''
      | Some i \<Rightarrow>
          (case first_row (\<lambda>m. ID m = i \<and> mach_OrganizationID m = org) (db_machines d) of
             None \<Rightarrow> Fail 404 ''not found'' | Some m \<Rightarrow> Reply 200 (machine_agent d m)))"

subsection \<open>Who may do what\<close>


lemma gate_needs_token: "\<not> has_prefix ''Bearer '' header \<Longrightarrow> org_gate E now header orgp roles d = Inl (401, ''missing token'')"
  by (simp add: org_gate_def Auth_def)

lemma mutating_routes_need_a_role:
  "\<forall>(m, p, roles)\<in>set org_routes. m \<noteq> ''GET'' \<longrightarrow> roles \<noteq> None \<or>
     p \<in> {''/alerts/read-all'', ''/alerts/:id/read'', ''/alerts/:id/ack'', ''/alerts/:id/resolve''}"
  by (simp add: org_routes_def)

lemma viewers_never_operate: "(m, p, Some roles) \<in> set org_routes \<Longrightarrow> RoleViewer \<notin> set roles \<and> RoleOther s \<notin> set roles"
  by (auto simp: org_routes_def operators_def admins_def)

subsection \<open>The member limit\<close>

lemma affected_update:
  assumes "\<And>r. P ((f r)\<lparr>UpdatedAt := now\<rparr>) = P r" and "\<And>r. DeletedAt (f r) = DeletedAt r"
  shows "affected P (update_rows now Q f t) = affected P t"
proof -
  have "live ((f r)\<lparr>UpdatedAt := now\<rparr>) = live r" for r using assms(2) by (simp add: live_def)
  then show ?thesis using assms(1) unfolding affected_def rows_def update_rows_def
    by (induction t) (auto simp: if_distrib)
qed

lemma affected_delete: "affected P (delete_rows now Q t) \<le> affected P t"
  unfolding affected_def rows_def delete_rows_def by (induction t) (auto simp: live_def le_SucI)

lemma affected_append: "affected P (t @ [r]) = affected P t + (if live r \<and> P r then 1 else 0)"
  by (simp add: affected_def rows_def)

lemma add_member_count:
  "member_count org (add_member flt now m d) \<le> member_count org d + (if mem_OrganizationID m = org then 1 else 0)"
proof -
  have "member_count org (d\<lparr>db_members := ms\<rparr>) \<le> member_count org d + (if mem_OrganizationID m = org then 1 else 0)"
    if "create_row now member_clash x (db_members d) = Some ms" "mem_OrganizationID x = mem_OrganizationID m" for ms x
    using create_row_SomeD(1) [OF that(1)] that(2) by (simp add: member_count_def affected_append)
  then show ?thesis by (auto simp: add_member_def split: option.split)
qed

lemma add_member_orgs [simp]: "db_orgs (add_member flt now m d) = db_orgs d"
  by (simp add: add_member_def split: option.split)

lemma invited_user_keeps:
  assumes "invited_user E flt now nid q d = (u, d1)"
  shows "db_orgs d1 = db_orgs d" and "db_members d1 = db_members d"
  using assms by (auto simp: invited_user_def Let_def split: option.splits)

inductive member_step :: "auth_env \<Rightarrow> db \<Rightarrow> db \<Rightarrow> bool" for E where
  org_created: "(\<And>i m. m \<in> set (db_members d) \<Longrightarrow> mem_OrganizationID m \<noteq> ids i) \<Longrightarrow>
    member_step E d (fst (CreateOrg flt now ids mid uid req d))"
| member_invited: "member_step E d (fst (InviteMember E flt now nid mid org mreq d))"
| role_updated: "member_step E d (fst (UpdateRole flt now org uidp rreq d))"
| member_removed: "member_step E d (fst (RemoveMember flt now org uidp d))"
| account_created: "member_step E d (fst (RegisterUser E flt now nid ureq d))"

definition within_limits :: "db \<Rightarrow> bool" where
  "within_limits d \<longleftrightarrow> unique_ids (db_orgs d) \<and> (\<forall>g\<in>set (db_orgs d). int (member_count (ID g) d) \<le> org_UserLimit g)"

lemma within_limits_fewer:
  assumes "within_limits d" and "db_orgs d' = db_orgs d" and "\<And>g. member_count g d' \<le> member_count g d"
  shows "within_limits d'"
proof -
  have "int (member_count (ID g) d') \<le> org_UserLimit g" if "g \<in> set (db_orgs d)" for g
    using assms(1,3) that unfolding within_limits_def by (metis of_nat_mono order_trans)
  then show ?thesis using assms(1,2) unfolding within_limits_def by simp
qed

lemma try_slugs_OrgCreated:
  assumes "try_slugs flt now ids name b i t = OrgCreated r t'"
  obtains j where "i \<le> j" "j \<le> 10" "r = new_org now (ids j) name (slug_candidate b j)" "create_row now org_clash r t = Some t'"
  using assms
proof (induction flt now ids name b i t arbitrary: thesis rule: try_slugs.induct)
  case (1 flt now ids name b i t)
  let ?r = "new_org now (ids i) name (slug_candidate b i)"
  have i: "\<not> 10 < i" "\<not> flt ''create organization''" using 1(3) by (auto split: if_splits)
  show ?case
  proof (cases "create_row now org_clash ?r t")
    case (Some u)
    then show ?thesis using 1(2) [of i] 1(3) i by (simp add: Let_def)
  next
    case None
    then have n: "i \<noteq> 10" "try_slugs flt now ids name b (i + 1) t = OrgCreated r t'"
      using 1(3) i by (simp_all add: Let_def split: if_splits)
    obtain j where "i + 1 \<le> j" "j \<le> 10" "r = new_org now (ids j) name (slug_candidate b j)" "create_row now org_clash r t = Some t'"
      using "1.IH" [OF i refl None n(1) _ n(2)] by metis
    then show ?thesis using 1(2) [of j] by simp
  qed
qed

lemma CreateOrg_within:
  assumes "within_limits d" and fresh: "\<And>i m. m \<in> set (db_members d) \<Longrightarrow> mem_OrganizationID m \<noteq> ids i"
  shows "within_limits (fst (CreateOrg flt now ids mid uid req d))"
proof -
  have "within_limits (add_member flt now (new_member now mid (ID r) uid RoleOwner) (d\<lparr>db_orgs := t'\<rparr>))"
    if cr: "try_slugs flt now ids name b 1 (db_orgs d) = OrgCreated r t'" for name b r t'
  proof -
    obtain j where j: "r = new_org now (ids j) name (slug_candidate b j)" "create_row now org_clash r (db_orgs d) = Some t'"
      using cr by (cases rule: try_slugs_OrgCreated)
    let ?d = "add_member flt now (new_member now mid (ID r) uid RoleOwner) (d\<lparr>db_orgs := t'\<rparr>)"
    have r: "r\<lparr>CreatedAt := now, UpdatedAt := now, DeletedAt := None\<rparr> = r" "ID r = ids j" "org_UserLimit r = 10"
      by (simp_all add: j(1) new_org_def)
    note c = create_row_SomeD [OF j(2)]
    have t': "t' = db_orgs d @ [r]" using c(1) r(1) by simp
    have n: "member_count g ?d \<le> member_count g d + (if ID r = g then 1 else 0)" for g
      using add_member_count [of g flt now "new_member now mid (ID r) uid RoleOwner" "d\<lparr>db_orgs := t'\<rparr>"]
      by (simp add: new_member_def member_count_def)
    have "member_count (ID r) d = 0" using fresh r(2) by (auto simp: member_count_def affected_0_iff)
    then have "int (member_count (ID r) ?d) \<le> org_UserLimit r" using n [of "ID r"] r(3) by simp
    moreover have "int (member_count (ID g) ?d) \<le> org_UserLimit g" if "g \<in> set (db_orgs d)" for g
    proof -
      have "member_count (ID g) ?d \<le> member_count (ID g) d" using n [of "ID g"] c(2) that by auto
      then show ?thesis using assms(1) that unfolding within_limits_def by (metis of_nat_mono order_trans)
    qed
    moreover have "unique_ids t'" using assms(1) unique_ids_create [OF _ j(2)] by (simp add: within_limits_def)
    ultimately show ?thesis unfolding within_limits_def using t' by simp
  qed
  then show ?thesis using assms(1) by (auto simp: CreateOrg_def split: option.split org_insert.split)
qed

lemma InviteMember_within:
  assumes "within_limits d"
  shows "within_limits (fst (InviteMember E flt now nid mid org req d))"
proof -
  have keep: "within_limits d1" if "invited_user E flt now nid q d = (u, d1)" for q u d1
    using within_limits_fewer [OF assms] invited_user_keeps [OF that] by (simp add: member_count_def)
  have "within_limits (add_member flt now (new_member now mid org (ID u) role) d1)"
    if u: "invited_user E flt now nid q d = (u, d1)" and g: "first_row (\<lambda>x. ID x = org) (db_orgs d) = Some g"
      and room: "\<not> org_UserLimit g \<le> int (member_count org d)" for q u d1 g role
  proof -
    let ?d = "add_member flt now (new_member now mid org (ID u) role) d1"
    have n: "member_count h ?d \<le> member_count h d + (if org = h then 1 else 0)" for h
      using add_member_count [of h flt now "new_member now mid org (ID u) role" d1] invited_user_keeps [OF u]
      by (simp add: new_member_def member_count_def)
    have "int (member_count (ID h) ?d) \<le> org_UserLimit h" if h: "h \<in> set (db_orgs d)" for h
    proof (cases "ID h = org")
      case True
      then have "h = g" using assms first_row_SomeD [OF g] h unique_ids_eq unfolding within_limits_def by metis
      then show ?thesis using n [of org] room True by simp
    next
      case False
      then have "member_count (ID h) ?d \<le> member_count (ID h) d" using n [of "ID h"] by simp
      then show ?thesis using assms h unfolding within_limits_def by (metis of_nat_mono order_trans)
    qed
    then show ?thesis using assms invited_user_keeps [OF u] unfolding within_limits_def by simp
  qed
  then show ?thesis using assms keep by (auto simp: InviteMember_def split: option.split prod.split)
qed

lemma member_step_within:
  assumes "member_step E d d'" and "within_limits d"
  shows "within_limits d'"
  using assms(1)
proof cases
  case (org_created ids flt now mid uid req)
  then show ?thesis using CreateOrg_within [OF assms(2)] by blast
next
  case (member_invited flt now nid mid org mreq)
  then show ?thesis using InviteMember_within [OF assms(2)] by simp
next
  case (role_updated flt now org uidp rreq)
  have "member_count g (d\<lparr>db_members := update_rows now P (\<lambda>m. m\<lparr>mem_Role := role\<rparr>) (db_members d)\<rparr>) = member_count g d" for g P role
    by (simp add: member_count_def affected_update)
  then show ?thesis using role_updated within_limits_fewer [OF assms(2)] assms(2)
    by (auto simp: UpdateRole_def split: option.split)
next
  case (member_removed flt now org uidp)
  have "member_count g (d\<lparr>db_members := delete_rows now P (db_members d)\<rparr>) \<le> member_count g d" for g P
    by (simp add: member_count_def affected_delete)
  then show ?thesis using member_removed within_limits_fewer [OF assms(2)] assms(2)
    by (auto simp: RemoveMember_def split: option.split)
next
  case (account_created flt now nid ureq)
  have "db_orgs d' = db_orgs d \<and> db_members d' = db_members d"
    unfolding account_created by (simp add: RegisterUser_def split: option.split)
  then show ?thesis using within_limits_fewer [OF assms(2)] by (simp add: member_count_def)
qed

text \<open>C34. No sequence of organization and member requests takes an organization over its user limit, starting from an
  empty installation.\<close>

theorem member_limit:
  assumes "(member_step E)\<^sup>*\<^sup>* empty_db d" and "g \<in> set (db_orgs d)"
  shows "int (member_count (ID g) d) \<le> org_UserLimit g"
proof -
  have "within_limits d" using assms(1)
    by (induction rule: rtranclp_induct) (auto simp: within_limits_def empty_db_def dest: member_step_within [unfolded within_limits_def])
  then show ?thesis using assms(2) by (simp add: within_limits_def)
qed

definition one_org :: db where
  "one_org = fst (CreateOrg no_faults 5 (\<lambda>i. ''o1'') ''m1'' ''u1'' (Some ''Acme Inc'') empty_db)"

theorem member_limit_witness:
  "\<exists>g. db_orgs one_org = [g] \<and> org_Slug g = ''acme-inc'' \<and> int (member_count (ID g) one_org) \<le> org_UserLimit g"
proof -
  have "map org_Slug (db_orgs one_org) = [''acme-inc'']" by code_simp
  then obtain g where g: "db_orgs one_org = [g]" "org_Slug g = ''acme-inc''" by (auto simp: map_eq_Cons_conv)
  have "(member_step toy_env)\<^sup>*\<^sup>* empty_db one_org"
    unfolding one_org_def by (rule r_into_rtranclp, rule member_step.org_created) (simp add: empty_db_def)
  from member_limit [OF this] show ?thesis using g by simp
qed

lemma find_append: "List.find P xs = None \<Longrightarrow> List.find P (xs @ ys) = List.find P ys"
  by (induction xs) (simp_all split: if_splits)

text \<open>Whoever creates an organization owns it, under a slug no other organization has.\<close>

lemma org_creator_owns:
  assumes "CreateOrg flt now ids mid uid (Some name) d = (d', Reply n r)" and "\<not> flt ''create member''"
    and "\<And>m i. m \<in> set (db_members d) \<Longrightarrow> ID m \<noteq> mid \<and> mem_OrganizationID m \<noteq> ids i"
  shows "OrgContext (Some (ID r)) uid d' = Inr (ID r, RoleOwner) \<and> (\<forall>g\<in>set (db_orgs d). org_Slug g \<noteq> org_Slug r) \<and>
    has_prefix (slugify name) (org_Slug r)"
proof -
  obtain t' where t: "try_slugs flt now ids name (slugify name) 1 (db_orgs d) = OrgCreated r t'"
    "d' = add_member flt now (new_member now mid (ID r) uid RoleOwner) (d\<lparr>db_orgs := t'\<rparr>)"
    using assms(1) by (auto simp: CreateOrg_def split: if_splits org_insert.splits)
  obtain j where j: "r = new_org now (ids j) name (slug_candidate (slugify name) j)" "create_row now org_clash r (db_orgs d) = Some t'"
    using t(1) by (cases rule: try_slugs_OrgCreated)
  have "create_row now member_clash (new_member now mid (ID r) uid RoleOwner) (db_members d)
      = Some (db_members d @ [new_member now mid (ID r) uid RoleOwner])"
    using assms(3) by (auto simp: create_row_def Let_def member_clash_def new_member_def j(1) new_org_def)
  then have "db_members d' = db_members d @ [new_member now mid (ID r) uid RoleOwner]"
    using assms(2) by (simp add: t(2) add_member_def) (simp add: new_member_def)
  moreover have "List.find (\<lambda>m. live m \<and> mem_OrganizationID m = ID r \<and> mem_UserID m = uid) (db_members d) = None"
    using assms(3) by (auto simp: find_None_iff j(1) new_org_def)
  ultimately have "membership (ID r) uid d' = Some (new_member now mid (ID r) uid RoleOwner)"
    by (simp add: membership_def first_row_def find_append new_member_def live_def)
  moreover have "\<forall>g\<in>set (db_orgs d). org_Slug g \<noteq> org_Slug r"
    using create_row_SomeD(3) [OF j(2)] by (auto simp: org_clash_def)
  moreover have "has_prefix (slugify name) (org_Slug r)"
    by (simp add: j(1) new_org_def slug_candidate_def has_prefix_iff)
  ultimately show ?thesis by (simp add: OrgContext_def new_member_def)
qed

text \<open>Nothing keeps an organization from losing its last owner.\<close>

lemma last_owner_can_leave:
  "membership ''o1'' ''u1'' one_org \<noteq> None \<and>
   membership ''o1'' ''u1'' (fst (RemoveMember no_faults 9 ''o1'' (Some ''u1'') one_org)) = None"
  by code_simp

end
