(* ===== verification/Hub.thy ===== *)
theory Hub
  imports Accounts
begin

text \<open>
  Live updates: the event bus of \<open>realtime/hub.go\<close> and the agent's end of the socket, \<open>agent/realtime.go\<close>.  A frame on
  the wire is the JSON value it encodes.  A peer is known by a number; its outgoing channel is the list of queued
  frames.  Peers are read by one goroutine and written by another, the hub's maps are under its lock: the steps below
  are what each of them does at a time.
\<close>

subsection \<open>Frames\<close>

datatype json = JNull | JString string | JObject "(string \<times> json) list"

record event =
  ev_Type :: string
  ev_OrgID :: string
  ev_Payload :: json

definition encode_event :: "event \<Rightarrow> json" where
  "encode_event e = JObject ((''type'', JString (ev_Type e)) #
     (if ev_OrgID e = '''' then [] else [(''org_id'', JString (ev_OrgID e))]) @
     (if ev_Payload e = JNull then [] else [(''payload'', ev_Payload e)]))"

text \<open>Decoding into a struct: the last json_field of a name wins, an absent json_field or a null leaves the zero value, a value of
  another type is an error.\<close>

definition json_field :: "string \<Rightarrow> (string \<times> json) list \<Rightarrow> json" where
  "json_field k kvs = (case map_of (rev kvs) k of None \<Rightarrow> JNull | Some v \<Rightarrow> v)"

fun as_string :: "json \<Rightarrow> string option" where
  "as_string JNull = Some ''''"
| "as_string (JString s) = Some s"
| "as_string (JObject _) = None"

definition decode_event :: "json \<Rightarrow> event option" where
  "decode_event j =
     (case j of
        JObject kvs \<Rightarrow>
          (case (as_string (json_field ''type'' kvs), as_string (json_field ''org_id'' kvs)) of
             (Some t, Some org) \<Rightarrow> Some \<lparr>ev_Type = t, ev_OrgID = org, ev_Payload = json_field ''payload'' kvs\<rparr>
           | _ \<Rightarrow> None)
      | JNull \<Rightarrow> Some \<lparr>ev_Type = '''', ev_OrgID = '''', ev_Payload = JNull\<rparr>
      | JString _ \<Rightarrow> None)"

text \<open>\<open>m[k].(string)\<close> on a decoded object, the zero value when the assertion fails.\<close>

definition string_of :: "string \<Rightarrow> (string \<times> json) list \<Rightarrow> string" where
  "string_of k m = (case json_field k m of JString s \<Rightarrow> s | _ \<Rightarrow> '''')"

lemma decode_encode: "decode_event (encode_event e) = Some e"
  by (cases e) (auto simp: decode_event_def encode_event_def json_field_def)

subsection \<open>Peers and the hub\<close>

record peer =
  pe_send :: "json list"
  pe_userID :: uuid
  pe_agentID :: uuid
  pe_orgID :: uuid
  pe_orgs :: "string list"
  pe_isAgent :: bool
  pe_closing :: bool

record hub =
  hb_orgPeers :: "string \<Rightarrow> nat list"
  hb_agentPeers :: "uuid \<Rightarrow> nat option"
  hb_peer :: "nat \<Rightarrow> peer option"
  hb_next :: nat

definition NewHub :: hub where
  "NewHub = \<lparr>hb_orgPeers = (\<lambda>_. []), hb_agentPeers = Map.empty, hb_peer = Map.empty, hb_next = 0\<rparr>"

definition send_capacity :: nat where "send_capacity = 64"

definition with_peer :: "nat \<Rightarrow> (peer \<Rightarrow> peer) \<Rightarrow> hub \<Rightarrow> hub" where
  "with_peer p f h = h\<lparr>hb_peer := (hb_peer h)(p := map_option f (hb_peer h p))\<rparr>"

text \<open>A full queue closes a dashboard's connection; for an agent the frame is dropped.\<close>

definition offer :: "json \<Rightarrow> peer \<Rightarrow> peer" where
  "offer m p = (if length (pe_send p) < send_capacity then p\<lparr>pe_send := pe_send p @ [m]\<rparr> else p\<lparr>pe_closing := True\<rparr>)"

definition offer_agent :: "json \<Rightarrow> peer \<Rightarrow> peer" where
  "offer_agent m p = (if length (pe_send p) < send_capacity then p\<lparr>pe_send := pe_send p @ [m]\<rparr> else p)"

definition Publish :: "string \<Rightarrow> event \<Rightarrow> hub \<Rightarrow> hub" where
  "Publish orgID ev h =
     (if orgID = '''' then h
      else fold (\<lambda>p. with_peer p (offer (encode_event (ev\<lparr>ev_OrgID := orgID\<rparr>)))) (hb_orgPeers h orgID) h)"

definition SendToAgent :: "string \<Rightarrow> event \<Rightarrow> hub \<Rightarrow> hub" where
  "SendToAgent agentID ev h =
     (if agentID = '''' then h
      else (case hb_agentPeers h agentID of
          None \<Rightarrow> h | Some p \<Rightarrow> with_peer p (offer_agent (encode_event ev)) h))"

subsection \<open>Connecting\<close>

definition authUser :: "auth_env \<Rightarrow> time \<Rightarrow> string \<Rightarrow> uuid option" where
  "authUser E now token =
     (if token = '''' \<or> ae_JwtSecret E = '''' then None
      else (case parse_jwt E now token (ae_JwtSecret E) of None \<Rightarrow> None | Some c \<Rightarrow> ae_ParseUUID E (cl_UserID c)))"

definition wsOriginAllowed :: "string \<Rightarrow> string \<Rightarrow> bool" where
  "wsOriginAllowed origin allowlist \<longleftrightarrow>
     trim_space allowlist = ''*'' \<or>
     (let norm = trim_suffix ''/'' (trim_space origin) in
      (\<exists>p\<in>set (split_on (CHR '','') allowlist).
         let v = trim_space (trim_suffix ''/'' p) in v \<noteq> '''' \<and> (norm = v \<or> v = ''*'')) \<or>
      loopback_origin norm)"

definition checkOrigin :: "string \<Rightarrow> string \<Rightarrow> bool" where
  "checkOrigin origin allowlist \<longleftrightarrow> origin = '''' \<or> wsOriginAllowed origin allowlist"

datatype ws_route = ServeAgent agent | ServeDashboard uuid | RefuseSocket nat string

definition ServeWS ::
    "auth_env \<Rightarrow> time \<Rightarrow> string \<Rightarrow> string \<Rightarrow> string \<Rightarrow> uuid option \<Rightarrow> string \<Rightarrow> db \<Rightarrow> ws_route" where
  "ServeWS E now allowOrigin origin auth agentID token d =
     (case authAgent (ae_Bcrypt E) auth agentID d of
        Some i \<Rightarrow>
          (case first_row (\<lambda>a. ID a = i) (db_agents d) of
             None \<Rightarrow> RefuseSocket 401 ''unauthorized''
           | Some a \<Rightarrow> if checkOrigin origin allowOrigin then ServeAgent a else RefuseSocket 403 ''Forbidden'')
      | None \<Rightarrow>
          (case authUser E now token of
             None \<Rightarrow> RefuseSocket 401 ''unauthorized''
           | Some uid \<Rightarrow> if checkOrigin origin allowOrigin then ServeDashboard uid else RefuseSocket 403 ''Forbidden''))"

definition new_peer :: peer where
  "new_peer = \<lparr>pe_send = [], pe_userID = nil_uuid, pe_agentID = nil_uuid, pe_orgID = nil_uuid, pe_orgs = [],
     pe_isAgent = False, pe_closing = False\<rparr>"

definition serveDashboard :: "uuid \<Rightarrow> hub \<Rightarrow> hub" where
  "serveDashboard uid h =
     h\<lparr>hb_peer := (hb_peer h)(hb_next h \<mapsto> new_peer\<lparr>pe_userID := uid\<rparr>), hb_next := hb_next h + 1\<rparr>"

text \<open>A second socket of an agent replaces the first, which is closed.\<close>

definition serveAgent :: "agent \<Rightarrow> hub \<Rightarrow> hub" where
  "serveAgent a h =
     (let h1 = (case hb_agentPeers h (ID a) of None \<Rightarrow> h | Some q \<Rightarrow> with_peer q (\<lambda>x. x\<lparr>pe_closing := True\<rparr>) h) in
      h1\<lparr>hb_peer := (hb_peer h1)(hb_next h \<mapsto> new_peer\<lparr>pe_agentID := ID a, pe_orgID := ag_OrganizationID a, pe_isAgent := True\<rparr>),
         hb_agentPeers := (hb_agentPeers h1)(ID a \<mapsto> hb_next h), hb_next := hb_next h + 1\<rparr>)"

definition removePeer :: "nat \<Rightarrow> peer \<Rightarrow> hub \<Rightarrow> hub" where
  "removePeer p pe h =
     h\<lparr>hb_orgPeers := (\<lambda>o'. if o' \<in> set (pe_orgs pe) then removeAll p (hb_orgPeers h o') else hb_orgPeers h o')\<rparr>"

text \<open>The end of a read loop, for whatever reason.\<close>

definition hang_up :: "nat \<Rightarrow> hub \<Rightarrow> hub" where
  "hang_up p h =
     (case hb_peer h p of
        None \<Rightarrow> h
      | Some pe \<Rightarrow>
          let h1 = (if pe_isAgent pe \<and> hb_agentPeers h (pe_agentID pe) = Some p
                    then h\<lparr>hb_agentPeers := (hb_agentPeers h)(pe_agentID pe := None)\<rparr> else h);
              h2 = removePeer p pe h1
          in h2\<lparr>hb_peer := (hb_peer h2)(p := None)\<rparr>)"

subsection \<open>Inbound frames\<close>

definition subscribe :: "(string \<Rightarrow> uuid option) \<Rightarrow> db \<Rightarrow> nat \<Rightarrow> string \<Rightarrow> hub \<Rightarrow> hub" where
  "subscribe parse d p orgID h =
     (case (parse orgID, hb_peer h p) of
        (Some org, Some pe) \<Rightarrow>
          if affected (\<lambda>m. mem_OrganizationID m = org \<and> mem_UserID m = pe_userID pe) (db_members d) = 0 then h
          else with_peer p (\<lambda>x. x\<lparr>pe_orgs := List.insert orgID (pe_orgs x)\<rparr>)
                 (h\<lparr>hb_orgPeers := (hb_orgPeers h)(orgID := List.insert p (hb_orgPeers h orgID))\<rparr>)
      | _ \<Rightarrow> h)"

definition log_event :: "string \<Rightarrow> uuid \<Rightarrow> string \<Rightarrow> string \<Rightarrow> event" where
  "log_event runID agentID line at =
     \<lparr>ev_Type = ''log'', ev_OrgID = '''', ev_Payload = JObject [(''run_id'', JString runID), (''agent_id'', JString agentID),
        (''line'', JString line), (''at'', JString at)]\<rparr>"

definition relayAgentLog :: "(string \<Rightarrow> uuid option) \<Rightarrow> string \<Rightarrow> db \<Rightarrow> peer \<Rightarrow> json \<Rightarrow> hub \<Rightarrow> hub" where
  "relayAgentLog parse at d pe payload h =
     (case payload of
        JObject m \<Rightarrow>
          let runID = string_of ''run_id'' m; line = string_of ''line'' m in
          if runID = '''' \<or> line = '''' then h
          else (case parse runID of
              None \<Rightarrow> h
            | Some i \<Rightarrow>
                if affected (\<lambda>r. ID r = i \<and> run_AgentID r = pe_agentID pe) (db_runs d) = 0 then h
                else Publish (pe_orgID pe) (log_event runID (pe_agentID pe) line at) h)
      | _ \<Rightarrow> h)"

definition handleMessage :: "(string \<Rightarrow> uuid option) \<Rightarrow> string \<Rightarrow> db \<Rightarrow> nat \<Rightarrow> json \<Rightarrow> hub \<Rightarrow> hub" where
  "handleMessage parse at d p raw h =
     (case (decode_event raw, hb_peer h p) of
        (Some ev, Some pe) \<Rightarrow>
          if \<not> pe_isAgent pe \<and> ev_Type ev = ''subscribe'' then subscribe parse d p (ev_OrgID ev) h
          else if pe_isAgent pe \<and> ev_Type ev = ''log'' then relayAgentLog parse at d pe (ev_Payload ev) h
          else h
      | _ \<Rightarrow> h)"

text \<open>The writer takes the oldest frame.\<close>

definition pump :: "nat \<Rightarrow> hub \<Rightarrow> hub" where
  "pump p h = with_peer p (\<lambda>x. x\<lparr>pe_send := tl (pe_send x)\<rparr>) h"

subsection \<open>The agent's socket\<close>

record ws_client =
  wc_connected :: bool
  wc_cancelled :: "string \<Rightarrow> bool"

definition NewWSClient :: ws_client where
  "NewWSClient = \<lparr>wc_connected = False, wc_cancelled = (\<lambda>_. False)\<rparr>"

definition markCancelled :: "string \<Rightarrow> ws_client \<Rightarrow> ws_client" where
  "markCancelled runID w = w\<lparr>wc_cancelled := (wc_cancelled w)(runID := True)\<rparr>"

definition forget_run :: "string \<Rightarrow> ws_client \<Rightarrow> ws_client" where
  "forget_run runID w = w\<lparr>wc_cancelled := (wc_cancelled w)(runID := False)\<rparr>"

text \<open>The line of a run's log as a frame, \<open>None\<close> when nothing is sent.\<close>

definition Log :: "string \<Rightarrow> string \<Rightarrow> ws_client \<Rightarrow> json option" where
  "Log runID line w =
     (if runID = '''' \<or> line = '''' \<or> \<not> wc_connected w then None
      else Some (JObject [(''line'', JString line), (''run_id'', JString runID), (''type'', JString ''log'')]))"

text \<open>The struct the agent decodes into has an object as payload.\<close>

definition on_frame :: "json \<Rightarrow> ws_client \<Rightarrow> ws_client" where
  "on_frame raw w =
     (case raw of
        JObject kvs \<Rightarrow>
          (case (as_string (json_field ''type'' kvs), json_field ''payload'' kvs) of
             (Some t, JObject m) \<Rightarrow>
               if t = ''cancel'' \<and> string_of ''run_id'' m \<noteq> '''' then markCancelled (string_of ''run_id'' m) w else w
           | _ \<Rightarrow> w)
      | _ \<Rightarrow> w)"

definition wsURL :: "string \<Rightarrow> string" where
  "wsURL serverURL =
     (let s = trim_suffix ''/'' serverURL @ ''/ws'' in
      if has_prefix ''https://'' s then ''wss://'' @ trim_prefix ''https://'' s else ''ws://'' @ trim_prefix ''http://'' s)"

definition next_backoff :: "duration \<Rightarrow> duration" where
  "next_backoff b = (if b < minute then b * 2 else b)"

lemma backoff_bounded: "(next_backoff ^^ n) (5 * second) \<le> 80 * second \<and> 5 * second \<le> (next_backoff ^^ n) (5 * second)"
proof -
  let ?S = "{5 * second, 10 * second, 20 * second, 40 * second, 80 * second}"
  have "next_backoff b \<in> ?S" if "b \<in> ?S" for b using that by (auto simp: next_backoff_def clock_defs)
  then have "(next_backoff ^^ n) (5 * second) \<in> ?S" by (induction n) auto
  then show ?thesis by (auto simp: second_def)
qed

text \<open>The command the server sends when a claimed run is cancelled (\<open>Cancel\<close> in \<open>handlers/backup_run.go\<close>).\<close>

definition cancel_event :: "uuid \<Rightarrow> event" where
  "cancel_event run = \<lparr>ev_Type = ''cancel'', ev_OrgID = '''', ev_Payload = JObject [(''run_id'', JString run)]\<rparr>"

subsection \<open>The hub as a state machine\<close>

text \<open>What may happen between two events of a hub, for an installation in which \<open>ever org user\<close> says who has ever been a
  member of what.\<close>

inductive hub_step :: "(string \<Rightarrow> uuid option) \<Rightarrow> (uuid \<Rightarrow> uuid \<Rightarrow> bool) \<Rightarrow> db \<times> hub \<Rightarrow> db \<times> hub \<Rightarrow> bool" for parse ever where
  dashboard_connected: "hub_step parse ever (d, h) (d, serveDashboard uid h)"
| agent_connected: "hub_step parse ever (d, h) (d, serveAgent a h)"
| message_received: "hub_step parse ever (d, h) (d, handleMessage parse at d p raw h)"
| event_published: "hub_step parse ever (d, h) (d, Publish orgID ev h)"
| command_sent: "hub_step parse ever (d, h) (d, SendToAgent agentID ev h)"
| frame_written: "hub_step parse ever (d, h) (d, pump p h)"
| hung_up: "hub_step parse ever (d, h) (d, hang_up p h)"
| tables_changed: "(\<And>org uid. membership org uid d' \<noteq> None \<Longrightarrow> ever org uid) \<Longrightarrow> hub_step parse ever (d, h) (d', h)"

definition members_known :: "(uuid \<Rightarrow> uuid \<Rightarrow> bool) \<Rightarrow> db \<Rightarrow> bool" where
  "members_known ever d \<longleftrightarrow> (\<forall>org uid. membership org uid d \<noteq> None \<longrightarrow> ever org uid)"

definition may_see :: "(string \<Rightarrow> uuid option) \<Rightarrow> (uuid \<Rightarrow> uuid \<Rightarrow> bool) \<Rightarrow> uuid \<Rightarrow> string \<Rightarrow> bool" where
  "may_see parse ever uid orgID \<longleftrightarrow> (\<exists>org. parse orgID = Some org \<and> ever org uid)"

definition frame_ok :: "(string \<Rightarrow> uuid option) \<Rightarrow> (uuid \<Rightarrow> uuid \<Rightarrow> bool) \<Rightarrow> peer \<Rightarrow> json \<Rightarrow> bool" where
  "frame_ok parse ever pe m \<longleftrightarrow> pe_isAgent pe \<or> (\<exists>ev. m = encode_event ev \<and> may_see parse ever (pe_userID pe) (ev_OrgID ev))"

definition hub_ok :: "(string \<Rightarrow> uuid option) \<Rightarrow> (uuid \<Rightarrow> uuid \<Rightarrow> bool) \<Rightarrow> hub \<Rightarrow> bool" where
  "hub_ok parse ever h \<longleftrightarrow>
     (\<forall>o' p. p \<in> set (hb_orgPeers h o') \<longrightarrow>
        (\<exists>pe. hb_peer h p = Some pe \<and> \<not> pe_isAgent pe \<and> may_see parse ever (pe_userID pe) o' \<and> o' \<in> set (pe_orgs pe))) \<and>
     (\<forall>a p. hb_agentPeers h a = Some p \<longrightarrow> (\<exists>pe. hb_peer h p = Some pe \<and> pe_isAgent pe \<and> pe_agentID pe = a)) \<and>
     (\<forall>p pe. hb_peer h p = Some pe \<longrightarrow> p < hb_next h \<and> (\<forall>m\<in>set (pe_send pe). frame_ok parse ever pe m))"

lemma hub_okD:
  assumes "hub_ok parse ever h"
  shows "\<And>o' p. p \<in> set (hb_orgPeers h o') \<Longrightarrow>
      \<exists>pe. hb_peer h p = Some pe \<and> \<not> pe_isAgent pe \<and> may_see parse ever (pe_userID pe) o' \<and> o' \<in> set (pe_orgs pe)"
    and "\<And>a p. hb_agentPeers h a = Some p \<Longrightarrow> \<exists>pe. hb_peer h p = Some pe \<and> pe_isAgent pe \<and> pe_agentID pe = a"
    and "\<And>p pe. hb_peer h p = Some pe \<Longrightarrow> p < hb_next h"
    and "\<And>p pe m. hb_peer h p = Some pe \<Longrightarrow> m \<in> set (pe_send pe) \<Longrightarrow> frame_ok parse ever pe m"
  using assms unfolding hub_ok_def by blast+

text \<open>An update of one peer that leaves its identity alone, adds no organization-bound right and queues only what the
  peer may see.\<close>

lemma hub_ok_with_peer:
  assumes "hub_ok parse ever h"
    and keep: "\<And>pe. pe_isAgent (f pe) = pe_isAgent pe \<and> pe_userID (f pe) = pe_userID pe \<and> pe_agentID (f pe) = pe_agentID pe \<and>
      set (pe_orgs pe) \<subseteq> set (pe_orgs (f pe))"
    and send: "\<And>pe m. hb_peer h p = Some pe \<Longrightarrow> m \<in> set (pe_send (f pe)) \<Longrightarrow> m \<in> set (pe_send pe) \<or> frame_ok parse ever pe m"
  shows "hub_ok parse ever (with_peer p f h)"
proof -
  have "\<exists>pe. hb_peer (with_peer p f h) q = Some pe \<and> \<not> pe_isAgent pe \<and> may_see parse ever (pe_userID pe) o' \<and> o' \<in> set (pe_orgs pe)"
    if "q \<in> set (hb_orgPeers (with_peer p f h) o')" for o' q
  proof -
    have "q \<in> set (hb_orgPeers h o')" using that by (simp add: with_peer_def)
    then obtain pe where "hb_peer h q = Some pe" "\<not> pe_isAgent pe" "may_see parse ever (pe_userID pe) o'" "o' \<in> set (pe_orgs pe)"
      using hub_okD(1) [OF assms(1)] by blast
    then show ?thesis using keep [of pe] by (cases "q = p") (auto simp: with_peer_def)
  qed
  moreover have "\<exists>pe. hb_peer (with_peer p f h) q = Some pe \<and> pe_isAgent pe \<and> pe_agentID pe = a"
    if "hb_agentPeers (with_peer p f h) a = Some q" for a q
  proof -
    have "hb_agentPeers h a = Some q" using that by (simp add: with_peer_def)
    then obtain pe where "hb_peer h q = Some pe" "pe_isAgent pe" "pe_agentID pe = a" using hub_okD(2) [OF assms(1)] by blast
    then show ?thesis using keep [of pe] by (cases "q = p") (auto simp: with_peer_def)
  qed
  moreover have "q < hb_next (with_peer p f h) \<and> (\<forall>m\<in>set (pe_send pe). frame_ok parse ever pe m)"
    if q: "hb_peer (with_peer p f h) q = Some pe" for q pe
  proof -
    obtain pe0 where pe0: "hb_peer h q = Some pe0" "pe = (if q = p then f pe0 else pe0)"
      using q by (cases "q = p") (auto simp: with_peer_def)
    have "frame_ok parse ever pe m" if m: "m \<in> set (pe_send pe)" for m
    proof (cases "q = p")
      case True
      then have "frame_ok parse ever pe0 m" using send [of pe0 m] pe0 m hub_okD(4) [OF assms(1)] by auto
      then show ?thesis using keep [of pe0] pe0(2) True by (simp add: frame_ok_def)
    next
      case False
      then show ?thesis using hub_okD(4) [OF assms(1) pe0(1)] pe0(2) m by simp
    qed
    then show ?thesis using hub_okD(3) [OF assms(1) pe0(1)] by (simp add: with_peer_def)
  qed
  ultimately show ?thesis unfolding hub_ok_def by blast
qed

lemma hub_ok_offer:
  assumes "hub_ok parse ever h" and "p \<in> set (hb_orgPeers h orgID)"
  shows "hub_ok parse ever (with_peer p (offer (encode_event (ev\<lparr>ev_OrgID := orgID\<rparr>))) h)"
proof (rule hub_ok_with_peer [OF assms(1)])
  fix pe m assume "hb_peer h p = Some pe" "m \<in> set (pe_send (offer (encode_event (ev\<lparr>ev_OrgID := orgID\<rparr>)) pe))"
  then show "m \<in> set (pe_send pe) \<or> frame_ok parse ever pe m"
    using hub_okD(1) [OF assms] by (force simp: offer_def frame_ok_def split: if_splits)
qed (simp add: offer_def)

lemma with_peer_keeps [simp]: "hb_orgPeers (with_peer p f h) = hb_orgPeers h" "hb_agentPeers (with_peer p f h) = hb_agentPeers h"
    "hb_next (with_peer p f h) = hb_next h"
  by (simp_all add: with_peer_def)

lemma hub_ok_Publish:
  assumes "hub_ok parse ever h"
  shows "hub_ok parse ever (Publish orgID ev h)"
proof -
  have "hub_ok parse ever (fold (\<lambda>p. with_peer p (offer (encode_event (ev\<lparr>ev_OrgID := orgID\<rparr>)))) ps g)"
    if "hub_ok parse ever g" "set ps \<subseteq> set (hb_orgPeers g orgID)" for ps g
    using that
  proof (induction ps arbitrary: g)
    case (Cons p ps)
    then show ?case using hub_ok_offer [OF Cons.prems(1), of p orgID ev] by (simp add: Cons.IH)
  qed simp
  then show ?thesis using assms by (simp add: Publish_def)
qed

lemma hub_ok_SendToAgent:
  assumes "hub_ok parse ever h"
  shows "hub_ok parse ever (SendToAgent a ev h)"
proof -
  have "hub_ok parse ever (with_peer p (offer_agent m) h)" if p: "hb_agentPeers h a = Some p" for p m
  proof (rule hub_ok_with_peer [OF assms])
    fix pe k assume "hb_peer h p = Some pe" "k \<in> set (pe_send (offer_agent m pe))"
    then show "k \<in> set (pe_send pe) \<or> frame_ok parse ever pe k"
      using hub_okD(2) [OF assms p] by (auto simp: frame_ok_def)
  qed (simp add: offer_agent_def)
  then show ?thesis using assms by (simp add: SendToAgent_def split: option.split)
qed

lemma hub_ok_connect:
  assumes "hub_ok parse ever h" and "pe_send pe = []" and "\<forall>a. agents a = Some (hb_next h) \<longrightarrow> pe_isAgent pe \<and> pe_agentID pe = a"
    and "\<forall>a q. agents a = Some q \<longrightarrow> q = hb_next h \<or> hb_agentPeers h a = Some q"
  shows "hub_ok parse ever (h\<lparr>hb_peer := (hb_peer h)(hb_next h \<mapsto> pe), hb_agentPeers := agents, hb_next := hb_next h + 1\<rparr>)"
proof -
  have new: "hb_peer h q = Some x \<Longrightarrow> q \<noteq> hb_next h" for q x using hub_okD(3) [OF assms(1)] by blast
  show ?thesis
    unfolding hub_ok_def
  proof (intro conjI allI impI)
    fix o' p assume "p \<in> set (hb_orgPeers (h\<lparr>hb_peer := (hb_peer h)(hb_next h \<mapsto> pe), hb_agentPeers := agents, hb_next := hb_next h + 1\<rparr>) o')"
    then show "\<exists>x. hb_peer (h\<lparr>hb_peer := (hb_peer h)(hb_next h \<mapsto> pe), hb_agentPeers := agents, hb_next := hb_next h + 1\<rparr>) p = Some x \<and>
        \<not> pe_isAgent x \<and> may_see parse ever (pe_userID x) o' \<and> o' \<in> set (pe_orgs x)"
      using hub_okD(1) [OF assms(1), of p o'] new by fastforce
  next
    fix a p assume "hb_agentPeers (h\<lparr>hb_peer := (hb_peer h)(hb_next h \<mapsto> pe), hb_agentPeers := agents, hb_next := hb_next h + 1\<rparr>) a = Some p"
    then have a: "agents a = Some p" by simp
    show "\<exists>x. hb_peer (h\<lparr>hb_peer := (hb_peer h)(hb_next h \<mapsto> pe), hb_agentPeers := agents, hb_next := hb_next h + 1\<rparr>) p = Some x \<and>
        pe_isAgent x \<and> pe_agentID x = a"
    proof (cases "p = hb_next h")
      case True
      then show ?thesis using assms(3) a by simp
    next
      case False
      then show ?thesis using assms(4) a hub_okD(2) [OF assms(1)] by fastforce
    qed
  next
    fix p x assume "hb_peer (h\<lparr>hb_peer := (hb_peer h)(hb_next h \<mapsto> pe), hb_agentPeers := agents, hb_next := hb_next h + 1\<rparr>) p = Some x"
    then show "p < hb_next (h\<lparr>hb_peer := (hb_peer h)(hb_next h \<mapsto> pe), hb_agentPeers := agents, hb_next := hb_next h + 1\<rparr>)"
      using hub_okD(3) [OF assms(1), of p] by (cases "p = hb_next h") auto
  next
    fix p x assume "hb_peer (h\<lparr>hb_peer := (hb_peer h)(hb_next h \<mapsto> pe), hb_agentPeers := agents, hb_next := hb_next h + 1\<rparr>) p = Some x"
    then show "\<forall>m\<in>set (pe_send x). frame_ok parse ever x m"
      using hub_okD(4) [OF assms(1), of p] assms(2) by (cases "p = hb_next h") auto
  qed
qed

lemma hub_ok_serveDashboard: "hub_ok parse ever h \<Longrightarrow> hub_ok parse ever (serveDashboard uid h)"
  using hub_ok_connect [of parse ever h "new_peer\<lparr>pe_userID := uid\<rparr>" "hb_agentPeers h"] hub_okD(2,3) [of parse ever h]
  by (fastforce simp: serveDashboard_def new_peer_def)

lemma hub_ok_serveAgent:
  assumes "hub_ok parse ever h"
  shows "hub_ok parse ever (serveAgent a h)"
proof -
  let ?p = "new_peer\<lparr>pe_agentID := ID a, pe_orgID := ag_OrganizationID a, pe_isAgent := True\<rparr>"
  define g where "g = (case hb_agentPeers h (ID a) of None \<Rightarrow> h | Some q \<Rightarrow> with_peer q (\<lambda>x. x\<lparr>pe_closing := True\<rparr>) h)"
  have g: "hub_ok parse ever g" "hb_next g = hb_next h" "hb_agentPeers g = hb_agentPeers h"
    using hub_ok_with_peer [OF assms, of "\<lambda>x. x\<lparr>pe_closing := True\<rparr>"] assms unfolding g_def by (auto split: option.split)
  have "\<forall>b. ((hb_agentPeers g)(ID a \<mapsto> hb_next g)) b = Some (hb_next g) \<longrightarrow> b = ID a"
    using hub_okD(2,3) [OF g(1)] by (auto split: if_splits)
  then have only: "\<forall>b. ((hb_agentPeers g)(ID a \<mapsto> hb_next g)) b = Some (hb_next g) \<longrightarrow> pe_isAgent ?p \<and> pe_agentID ?p = b"
    by (intro allI impI) (drule spec, drule (1) mp, simp)
  have e: "serveAgent a h = g\<lparr>hb_peer := (hb_peer g)(hb_next g \<mapsto> ?p), hb_agentPeers := (hb_agentPeers g)(ID a \<mapsto> hb_next g),
      hb_next := hb_next g + 1\<rparr>"
    by (simp add: serveAgent_def g_def [symmetric] g(2) Let_def)
  show ?thesis unfolding e by (rule hub_ok_connect [OF g(1) _ only]) (simp_all add: new_peer_def)
qed

lemma hub_ok_hang_up:
  assumes ok: "hub_ok parse ever h"
  shows "hub_ok parse ever (hang_up p h)"
proof (cases "hb_peer h p")
  case None
  then show ?thesis using ok by (simp add: hang_up_def)
next
  case (Some pe)
  let ?h = "hang_up p h"
  have peers: "hb_peer ?h = (hb_peer h)(p := None)" "hb_next ?h = hb_next h"
    and orgs: "\<And>o'. hb_orgPeers ?h o' = (if o' \<in> set (pe_orgs pe) then removeAll p (hb_orgPeers h o') else hb_orgPeers h o')"
    and agents: "hb_agentPeers ?h = (if pe_isAgent pe \<and> hb_agentPeers h (pe_agentID pe) = Some p
      then (hb_agentPeers h)(pe_agentID pe := None) else hb_agentPeers h)"
    using Some by (simp_all add: hang_up_def removePeer_def Let_def)
  have "p \<notin> set (hb_orgPeers ?h o')" for o'
    using hub_okD(1) [OF ok, of p o'] Some by (auto simp: orgs)
  moreover have "set (hb_orgPeers ?h o') \<subseteq> set (hb_orgPeers h o')" for o' by (auto simp: orgs)
  ultimately have "\<exists>x. hb_peer ?h q = Some x \<and> \<not> pe_isAgent x \<and> may_see parse ever (pe_userID x) o' \<and> o' \<in> set (pe_orgs x)"
    if "q \<in> set (hb_orgPeers ?h o')" for o' q
    using that hub_okD(1) [OF ok, of q o'] unfolding peers by (metis fun_upd_other subsetD)
  moreover have "\<exists>x. hb_peer ?h q = Some x \<and> pe_isAgent x \<and> pe_agentID x = a" if q: "hb_agentPeers ?h a = Some q" for a q
  proof -
    have h: "hb_agentPeers h a = Some q" using q unfolding agents by (auto split: if_splits)
    obtain x where x: "hb_peer h q = Some x" "pe_isAgent x" "pe_agentID x = a" using hub_okD(2) [OF ok h] by blast
    have "q \<noteq> p"
    proof
      assume "q = p"
      then have "hb_agentPeers ?h a = None" using x Some h unfolding agents by simp
      then show False using q by simp
    qed
    then show ?thesis using x unfolding peers by simp
  qed
  moreover have "q < hb_next ?h \<and> (\<forall>m\<in>set (pe_send x). frame_ok parse ever x m)" if "hb_peer ?h q = Some x" for q x
    using that hub_okD(3,4) [OF ok, of q x] unfolding peers by (simp split: if_splits)
  ultimately show ?thesis unfolding hub_ok_def by blast
qed

lemma hub_ok_subscribe:
  assumes ok: "hub_ok parse ever h" and d: "members_known ever d" and dash: "hb_peer h p = Some pe" "\<not> pe_isAgent pe"
  shows "hub_ok parse ever (subscribe parse d p orgID h)"
proof -
  let ?h = "h\<lparr>hb_orgPeers := (hb_orgPeers h)(orgID := List.insert p (hb_orgPeers h orgID))\<rparr>"
  let ?f = "\<lambda>x. x\<lparr>pe_orgs := List.insert orgID (pe_orgs x)\<rparr>"
  have "hub_ok parse ever (with_peer p ?f ?h)"
    if org: "parse orgID = Some org" "affected (\<lambda>m. mem_OrganizationID m = org \<and> mem_UserID m = pe_userID pe) (db_members d) \<noteq> 0" for org
  proof -
    have "membership org (pe_userID pe) d \<noteq> None"
      using org(2) unfolding membership_def by (auto simp: affected_0_iff first_row_None_iff)
    then have see: "may_see parse ever (pe_userID pe) orgID" using d org(1) unfolding members_known_def may_see_def by blast
    have k: "hub_ok parse ever (with_peer p ?f h)" by (rule hub_ok_with_peer [OF ok]) auto
    have e: "with_peer p ?f ?h = (with_peer p ?f h)\<lparr>hb_orgPeers := (hb_orgPeers h)(orgID := List.insert p (hb_orgPeers h orgID))\<rparr>"
      by (simp add: with_peer_def)
    have p: "hb_peer (with_peer p ?f h) p = Some (?f pe)" using dash by (simp add: with_peer_def)
    show ?thesis
      unfolding e hub_ok_def
    proof (intro conjI)
      show "\<forall>o' q. q \<in> set (hb_orgPeers ((with_peer p ?f h)\<lparr>hb_orgPeers := (hb_orgPeers h)(orgID := List.insert p (hb_orgPeers h orgID))\<rparr>) o') \<longrightarrow>
        (\<exists>x. hb_peer ((with_peer p ?f h)\<lparr>hb_orgPeers := (hb_orgPeers h)(orgID := List.insert p (hb_orgPeers h orgID))\<rparr>) q = Some x \<and>
          \<not> pe_isAgent x \<and> may_see parse ever (pe_userID x) o' \<and> o' \<in> set (pe_orgs x))"
      proof (intro allI impI)
        fix o' q
        assume "q \<in> set (hb_orgPeers ((with_peer p ?f h)\<lparr>hb_orgPeers := (hb_orgPeers h)(orgID := List.insert p (hb_orgPeers h orgID))\<rparr>) o')"
        then have "q \<in> set (hb_orgPeers (with_peer p ?f h) o') \<or> q = p \<and> o' = orgID" by (auto split: if_splits)
        then have "\<exists>x. hb_peer (with_peer p ?f h) q = Some x \<and> \<not> pe_isAgent x \<and> may_see parse ever (pe_userID x) o' \<and> o' \<in> set (pe_orgs x)"
          using hub_okD(1) [OF k, of q o'] p see dash(2) by fastforce
        then show "\<exists>x. hb_peer ((with_peer p ?f h)\<lparr>hb_orgPeers := (hb_orgPeers h)(orgID := List.insert p (hb_orgPeers h orgID))\<rparr>) q = Some x \<and>
          \<not> pe_isAgent x \<and> may_see parse ever (pe_userID x) o' \<and> o' \<in> set (pe_orgs x)" by simp
      qed
    qed (use k in \<open>simp_all add: hub_ok_def\<close>)
  qed
  then show ?thesis using ok dash by (simp add: subscribe_def split: option.split)
qed

lemma hub_ok_handleMessage:
  assumes "hub_ok parse ever h" and "members_known ever d"
  shows "hub_ok parse ever (handleMessage parse at d p raw h)"
  using assms hub_ok_subscribe [OF assms] hub_ok_Publish [OF assms(1)]
  by (auto simp: handleMessage_def relayAgentLog_def Let_def split: option.split json.split)

lemma hub_step_ok:
  assumes "hub_step parse ever s s'" and "hub_ok parse ever (snd s)" and "members_known ever (fst s)"
  shows "hub_ok parse ever (snd s') \<and> members_known ever (fst s')"
  using assms
proof (induction rule: hub_step.induct)
  case (frame_written d h p)
  have "set (tl xs) \<subseteq> set xs" for xs :: "json list" by (cases xs) auto
  then have "hub_ok parse ever (pump p h)"
    unfolding pump_def using frame_written(1) by (intro hub_ok_with_peer) auto
  then show ?case using frame_written by simp
next
  case (tables_changed d' d h)
  then show ?case by (simp add: members_known_def)
qed (simp_all add: hub_ok_serveDashboard hub_ok_serveAgent hub_ok_handleMessage hub_ok_Publish hub_ok_SendToAgent hub_ok_hang_up)

lemma hub_ok_New: "hub_ok parse ever NewHub"
  by (simp add: hub_ok_def NewHub_def)

lemma hub_reachable_ok:
  assumes "(hub_step parse ever)\<^sup>*\<^sup>* (d0, NewHub) (d, h)" and "members_known ever d0"
  shows "hub_ok parse ever h"
proof -
  have "hub_ok parse ever (snd (d, h)) \<and> members_known ever (fst (d, h))"
    using assms(1)
  proof (induction "(d, h)" arbitrary: d h rule: rtranclp_induct)
    case base
    then show ?case using hub_ok_New assms(2) by simp
  next
    case (step y)
    then show ?case using hub_step_ok [OF step(2)] by (cases y) simp
  qed
  then show ?thesis by simp
qed

text \<open>C15. Tenants do not see each other live: whatever clients connect, subscribe, disconnect and publish in any order, every
  frame queued for a dashboard is an event of an organization its user has been a member of; it never carries one of
  another organization, nor an agent's command.\<close>

theorem dashboards_see_their_orgs:
  assumes "(hub_step parse ever)\<^sup>*\<^sup>* (d0, NewHub) (d, h)" and "\<forall>org uid. membership org uid d0 \<noteq> None \<longrightarrow> ever org uid"
    and "hb_peer h p = Some pe" and "\<not> pe_isAgent pe" and "m \<in> set (pe_send pe)"
  shows "\<exists>ev org. decode_event m = Some ev \<and> parse (ev_OrgID ev) = Some org \<and> ever org (pe_userID pe)"
proof -
  have "hub_ok parse ever h" using hub_reachable_ok [OF assms(1)] assms(2) by (simp add: members_known_def)
  then have "frame_ok parse ever pe m" using hub_okD(4) assms(3,5) by blast
  then show ?thesis using assms(4) decode_encode unfolding frame_ok_def may_see_def by blast
qed

definition live_hub :: hub where
  "live_hub = Publish ''o1'' (cancel_event ''r1'')
     (handleMessage Some '''' one_org 0 (JObject [(''type'', JString ''subscribe''), (''org_id'', JString ''o1'')]) (serveDashboard ''u1'' NewHub))"

theorem dashboards_see_their_orgs_witness:
  "\<exists>pe m ev. hb_peer live_hub 0 = Some pe \<and> m \<in> set (pe_send pe) \<and> decode_event m = Some ev \<and>
     (\<exists>org. Some (ev_OrgID ev) = Some org \<and> membership org (pe_userID pe) one_org \<noteq> None)"
proof -
  let ?ever = "\<lambda>org uid. membership org uid one_org \<noteq> None"
  let ?R = "hub_step Some ?ever"
  have "?R\<^sup>*\<^sup>* (one_org, NewHub) (one_org, serveDashboard ''u1'' NewHub)" by (rule r_into_rtranclp, rule hub_step.intros)
  moreover have "?R (one_org, h) (one_org, handleMessage Some '''' one_org 0 raw h)" for h raw by (rule hub_step.intros)
  moreover have "?R (one_org, h) (one_org, Publish ''o1'' (cancel_event ''r1'') h)" for h by (rule hub_step.intros)
  ultimately have r: "?R\<^sup>*\<^sup>* (one_org, NewHub) (one_org, live_hub)"
    unfolding live_hub_def by (meson rtranclp.rtrancl_into_rtrancl)
  have "\<exists>pe. hb_peer live_hub 0 = Some pe \<and> \<not> pe_isAgent pe \<and> pe_send pe \<noteq> []"
  proof -
    have "case hb_peer live_hub 0 of None \<Rightarrow> False | Some pe \<Rightarrow> \<not> pe_isAgent pe \<and> pe_send pe \<noteq> []" by code_simp
    then show ?thesis by (auto split: option.splits)
  qed
  then obtain pe m where pe: "hb_peer live_hub 0 = Some pe" "\<not> pe_isAgent pe" "m \<in> set (pe_send pe)"
    by (metis list.set_intros(1) neq_Nil_conv)
  from dashboards_see_their_orgs [OF r _ this] show ?thesis using pe by auto
qed

subsection \<open>Commands and log lines\<close>

lemma on_frame_cancel:
  "run \<noteq> [] \<Longrightarrow> wc_cancelled (on_frame (encode_event (cancel_event run)) w) = (wc_cancelled w)(run := True)"
  by (simp add: on_frame_def encode_event_def cancel_event_def json_field_def string_of_def markCancelled_def)

text \<open>Cancelling a claimed run reaches the agent at once: when the request is accepted it hands the hub a command for
  the run's agent, and with that agent's socket connected and its queue not full, the command is queued on that socket
  and the agent, on reading it, marks exactly this run cancelled.\<close>

theorem cancel_reaches_agent:
  assumes "find_run org i d = Some r" and "CanTransition (run_Status r) RunCancelled" and "run_Status r \<noteq> RunPending"
    and "hb_agentPeers h (run_AgentID r) = Some p" and "hb_peer h p = Some pe" and "length (pe_send pe) < send_capacity"
    and "run_AgentID r \<noteq> []" and "ID r \<noteq> []"
  shows "AgentCancel (run_AgentID r) (ID r) \<in> set (outbox (fst (Cancel wb now auid who org (Some i) d))) \<and>
    (\<exists>pe' m. hb_peer (SendToAgent (run_AgentID r) (cancel_event (ID r)) h) p = Some pe' \<and> pe_send pe' = pe_send pe @ [m] \<and>
       wc_cancelled (on_frame m w) = (wc_cancelled w)(ID r := True))"
proof
  have "run_Status r \<noteq> RunCancelled" using assms(2) by (cases "run_Status r") auto
  moreover have "outbox (add_audit n x org' w' a b c e) = outbox e" for n x org' w' a b c e by simp
  moreover have "AgentCancel (run_AgentID r) (ID r) \<in> set (outbox (publishRun r s (emit (AgentCancel (run_AgentID r) (ID r)) e)))" for s e
    by (simp add: publishRun_def)
  ultimately show "AgentCancel (run_AgentID r) (ID r) \<in> set (outbox (fst (Cancel wb now auid who org (Some i) d)))"
    using assms(1-3) by (simp add: Cancel_def Let_def)
  show "\<exists>pe' m. hb_peer (SendToAgent (run_AgentID r) (cancel_event (ID r)) h) p = Some pe' \<and> pe_send pe' = pe_send pe @ [m] \<and>
       wc_cancelled (on_frame m w) = (wc_cancelled w)(ID r := True)"
    using assms(4-8) on_frame_cancel [of "ID r" w] by (simp add: SendToAgent_def with_peer_def offer_agent_def)
qed

definition agent_hub :: hub where
  "agent_hub = serveAgent sample_agent NewHub"

theorem cancel_reaches_agent_witness:
  "AgentCancel ''g1'' ''r1'' \<in> set (outbox (fst (Cancel False 9 ''x'' (''u1'', ''ip'') ''o1'' (Some ''r1'') (run_db RunRunning)))) \<and>
   (\<exists>pe' m. hb_peer (SendToAgent ''g1'' (cancel_event ''r1'') agent_hub) 0 = Some pe' \<and> pe_send pe' = [m] \<and>
      wc_cancelled (on_frame m NewWSClient) ''r1'')"
proof -
  let ?r = "sample_run\<lparr>run_Status := RunRunning, run_CompletedAt := Some 4, run_StartedAt := Some 2, run_Checksum := ''ab''\<rparr>"
  let ?p = "new_peer\<lparr>pe_agentID := ''g1'', pe_orgID := ''o1'', pe_isAgent := True\<rparr>"
  have r: "find_run ''o1'' ''r1'' (run_db RunRunning) = Some ?r" by code_simp
  have i: "ID ?r = ''r1''" "run_AgentID ?r = ''g1''" by (simp_all add: sample_run_def)
  have p: "hb_agentPeers agent_hub (run_AgentID ?r) = Some 0" "hb_peer agent_hub 0 = Some ?p"
    by (simp_all add: agent_hub_def serveAgent_def NewHub_def sample_agent_def pending_agent_def sample_run_def)
  from cancel_reaches_agent [OF r _ _ p, of False 9 "''x''" "(''u1'', ''ip'')" NewWSClient, unfolded i]
  show ?thesis by (force simp: new_peer_def send_capacity_def)
qed

text \<open>The agent's log lines never arrive: they carry the run and the text beside the type, the hub looks for both in a
  payload, and without one relays nothing.\<close>

lemma agent_log_lost:
  assumes "Log runID line w = Some m"
  shows "handleMessage parse at d p m h = h"
  using assms
  by (auto simp: Log_def handleMessage_def decode_event_def json_field_def relayAgentLog_def split: if_splits option.split)

text \<open>Removing a member does not end the live updates it is subscribed to.\<close>

lemma removed_member_still_subscribed:
  "hb_orgPeers live_hub ''o1'' = [0] \<and>
   membership ''o1'' ''u1'' (fst (RemoveMember no_faults 9 ''o1'' (Some ''u1'') one_org)) = None"
  by code_simp

end
