(* ===== verification/Grpc.thy ===== *)
theory Grpc
  imports Restores
begin

text \<open>
  The command channel (\<open>server/internal/grpcserver/server.go\<close>).  An agent opens one stream, sends events on it and
  receives the commands the handlers hand to the dispatcher; two unary calls report progress and fetch a job.  The
  open streams are numbered; \<open>gs_streams\<close> is the map from agent id to stream, guarded by the server's mutex, so each
  use of it is one step.  A connection keeps its queue of 16 commands, what was sent, and the agent row in memory.
\<close>

subsection \<open>The channel\<close>

record agent_conn =
  gc_agent :: agent
  gc_send :: "effect list"
  gc_sent :: "effect list"
  gc_cancelled :: bool

record grpc_server =
  gs_streams :: "uuid \<Rightarrow> nat option"
  gs_conn :: "nat \<Rightarrow> agent_conn option"
  gs_next :: nat

definition NewServer :: grpc_server where
  "NewServer = \<lparr>gs_streams = Map.empty, gs_conn = Map.empty, gs_next = 0\<rparr>"

definition command_capacity :: nat where "command_capacity = 16"

definition set_conn :: "nat \<Rightarrow> (agent_conn \<Rightarrow> agent_conn) \<Rightarrow> grpc_server \<Rightarrow> grpc_server" where
  "set_conn k f s = s\<lparr>gs_conn := (gs_conn s)(k := map_option f (gs_conn s k))\<rparr>"

definition DisconnectAgent :: "uuid \<Rightarrow> grpc_server \<Rightarrow> grpc_server" where
  "DisconnectAgent agentID s =
     (case gs_streams s agentID of None \<Rightarrow> s | Some k \<Rightarrow> set_conn k (\<lambda>c. c\<lparr>gc_cancelled := True\<rparr>) s)"

definition IsAgentConnected :: "uuid \<Rightarrow> grpc_server \<Rightarrow> bool" where
  "IsAgentConnected agentID s \<longleftrightarrow> gs_streams s agentID \<noteq> None"

definition SendCommand :: "uuid \<Rightarrow> effect \<Rightarrow> grpc_server \<Rightarrow> grpc_server \<times> bool" where
  "SendCommand agentID cmd s =
     (case gs_streams s agentID of
        None \<Rightarrow> (s, False)
      | Some k \<Rightarrow>
          (case gs_conn s k of
             None \<Rightarrow> (s, False)
           | Some c \<Rightarrow>
               if length (gc_send c) < command_capacity
               then (set_conn k (\<lambda>c. c\<lparr>gc_send := gc_send c @ [cmd]\<rparr>) s, True) else (s, False)))"

text \<open>What the handlers hand to the dispatcher: the effects that name this channel.\<close>

definition dispatch :: "effect \<Rightarrow> grpc_server \<Rightarrow> grpc_server" where
  "dispatch e s =
     (case e of
        GrpcRunBackup aid _ _ \<Rightarrow> fst (SendCommand aid e s)
      | GrpcCancelBackup aid _ \<Rightarrow> fst (SendCommand aid e s)
      | GrpcStartRestore aid _ _ \<Rightarrow> fst (SendCommand aid e s)
      | GrpcDisconnect aid \<Rightarrow> DisconnectAgent aid s
      | _ \<Rightarrow> s)"

subsection \<open>Events\<close>

definition authenticateStream :: "(string \<Rightarrow> string \<Rightarrow> bool) \<Rightarrow> uuid \<Rightarrow> string \<Rightarrow> db \<Rightarrow> string + agent" where
  "authenticateStream bcrypt_ok agentID token d =
     (case first_row (\<lambda>a. ID a = agentID) (db_agents d) of
        None \<Rightarrow> Inl ''agent not found''
      | Some a \<Rightarrow>
          (case ag_TokenHash a of
             None \<Rightarrow> Inl ''invalid agent token''
           | Some h \<Rightarrow>
               if \<not> bcrypt_ok h token then Inl ''invalid agent token''
               else if ag_RevokedAt a \<noteq> None then Inl ''agent revoked'' else Inr a))"

datatype agent_event =
  EvConnected string string
| EvHealth bool
| EvBackupStarted uuid
| EvBackupProgress uuid int int int
| EvBackupCompleted uuid int int int string string
| EvBackupFailed uuid string
| EvRestoreStarted uuid
| EvRestoreCompleted uuid
| EvRestoreFailed uuid string
| EvNone

definition set_agent :: "time \<Rightarrow> uuid \<Rightarrow> (agent \<Rightarrow> agent) \<Rightarrow> db \<Rightarrow> db" where
  "set_agent now i f d = d\<lparr>db_agents := update_rows now (\<lambda>x. ID x = i) f (db_agents d)\<rparr>"

definition set_run :: "time \<Rightarrow> uuid \<Rightarrow> (backup_run \<Rightarrow> backup_run) \<Rightarrow> db \<Rightarrow> db" where
  "set_run now i f d = d\<lparr>db_runs := update_rows now (\<lambda>x. ID x = i) f (db_runs d)\<rparr>"

definition set_restore :: "time \<Rightarrow> uuid \<Rightarrow> (restore_job \<Rightarrow> restore_job) \<Rightarrow> db \<Rightarrow> db" where
  "set_restore now i f d = d\<lparr>db_restores := update_rows now (\<lambda>x. ID x = i) f (db_restores d)\<rparr>"

definition stream_failed_input :: "agent \<Rightarrow> uuid \<Rightarrow> string \<Rightarrow> backup_run option \<Rightarrow> alert_input" where
  "stream_failed_input a rid msg run =
     \<lparr>in_OrgID = ag_OrganizationID a, in_Type = AlertBackupFailed, in_Title = ''Backup Failed'', in_Message = msg,
      in_BackupJobID = map_option run_BackupJobID run, in_AgentID = Some (ID a),
      in_DedupKey = ''backup-failed:run:'' @ rid, in_Severity = None,
      in_EmailSubject = ''[VaultGuard] Backup Failed'',
      in_EmailBody = ''Backup failed on agent '' @ ag_Name a @ '':'' @ nl @ nl @ msg\<rparr>"

definition stream_restore_input :: "agent \<Rightarrow> restore_job \<Rightarrow> string \<Rightarrow> alert_input" where
  "stream_restore_input a x msg =
     \<lparr>in_OrgID = rs_OrganizationID x, in_Type = AlertRestoreFailed, in_Title = ''Restore Failed'', in_Message = msg,
      in_BackupJobID = None, in_AgentID = Some (ID a), in_DedupKey = ''restore-failed:'' @ ID x, in_Severity = None,
      in_EmailSubject = ''[VaultGuard] Restore Failed'',
      in_EmailBody = ''Restore '' @ ID x @ '' failed on agent '' @ ag_Name a @ '':'' @ nl @ nl @ msg\<rparr>"

text \<open>The event handler.  Its writes name a run or a restore by id only.  Updating the agent's row also updates the
  copy in memory, which names the agent in later alerts.\<close>

definition handleEvent ::
    "env \<Rightarrow> faults \<Rightarrow> time \<Rightarrow> uuid \<Rightarrow> agent \<Rightarrow> agent_event \<Rightarrow> db \<Rightarrow> db \<times> agent" where
  "handleEvent e flt now nid a p d =
     (let seen = (\<lambda>x. x\<lparr>ag_LastSeenAt := Some now\<rparr>);
          d1 = set_agent now (ID a) seen d; a1 = seen a in
      case p of
        EvConnected host version \<Rightarrow>
          let f = (\<lambda>x. x\<lparr>ag_Name := host, ag_Version := version\<rparr>) in (set_agent now (ID a) f d1, f a1)
      | EvHealth _ \<Rightarrow> (d1, a1)
      | EvBackupStarted rid \<Rightarrow>
          (set_run now rid (\<lambda>r. r\<lparr>run_Status := RunRunning, run_StartedAt := Some now\<rparr>) d1, a1)
      | EvBackupProgress rid br bc bu \<Rightarrow>
          (set_run now rid (\<lambda>r. r\<lparr>run_Status := RunUploading, run_BytesRead := br, run_BytesCompressed := bc,
             run_BytesUploaded := bu\<rparr>) d1, a1)
      | EvBackupCompleted rid br bc bu digest path \<Rightarrow>
          (set_run now rid (\<lambda>r. r\<lparr>run_Status := RunCompleted, run_CompletedAt := Some now, run_BytesRead := br,
             run_BytesCompressed := bc, run_BytesUploaded := bu, run_Checksum := digest, run_StoragePath := path\<rparr>) d1, a1)
      | EvBackupFailed rid msg \<Rightarrow>
          let run = first_row (\<lambda>r. ID r = rid) (db_runs d1);
              d2 = set_run now rid (\<lambda>r. r\<lparr>run_Status := RunFailed, run_CompletedAt := Some now, run_ErrorMessage := msg\<rparr>) d1
          in (fst (RaiseAlert e flt now nid (stream_failed_input a1 rid msg run) d2), a1)
      | EvRestoreStarted i \<Rightarrow>
          (set_restore now i (\<lambda>x. x\<lparr>rs_Status := RestoreRunning, rs_StartedAt := Some now\<rparr>) d1, a1)
      | EvRestoreCompleted i \<Rightarrow>
          (set_restore now i (\<lambda>x. x\<lparr>rs_Status := RestoreCompleted, rs_CompletedAt := Some now\<rparr>) d1, a1)
      | EvRestoreFailed i msg \<Rightarrow>
          let d2 = set_restore now i (\<lambda>x. x\<lparr>rs_Status := RestoreFailed, rs_CompletedAt := Some now, rs_ErrorMessage := msg\<rparr>) d1
          in (case first_row (\<lambda>x. ID x = i) (db_restores d2) of
                None \<Rightarrow> (d2, a1)
              | Some x \<Rightarrow> (fst (RaiseAlert e flt now nid (stream_restore_input a1 x msg) d2), a1))
      | EvNone \<Rightarrow> (d1, a1))"

text \<open>The life of a stream: the first message authenticates it, is itself an event, and registers the stream under
  the agent's id, whatever stream was registered before; later events are not authenticated again; at the end the
  entry under the agent's id goes.\<close>

definition open_stream ::
    "(string \<Rightarrow> string \<Rightarrow> bool) \<Rightarrow> env \<Rightarrow> faults \<Rightarrow> time \<Rightarrow> uuid \<Rightarrow> uuid \<Rightarrow> string \<Rightarrow> agent_event \<Rightarrow> db \<times> grpc_server
      \<Rightarrow> (db \<times> grpc_server) \<times> (string + nat)" where
  "open_stream bcrypt_ok e flt now nid agentID token first s =
     (case s of (d, g) \<Rightarrow>
        (case authenticateStream bcrypt_ok agentID token d of
           Inl msg \<Rightarrow> (s, Inl msg)
         | Inr a \<Rightarrow>
             let k = gs_next g; on = (\<lambda>x. x\<lparr>ag_Status := AgentOnline, ag_LastSeenAt := Some now\<rparr>);
                 d1 = set_agent now (ID a) on d;
                 d2 = fst (ResolveAlerts flt now (ag_OrganizationID a) AlertAgentOffline (''agent-offline:'' @ ID a) d1);
                 (d3, a3) = handleEvent e flt now nid (on a) first d2
             in ((d3, \<lparr>gs_streams = (gs_streams g)(ID a \<mapsto> k),
                       gs_conn = (gs_conn g)(k \<mapsto> \<lparr>gc_agent = a3, gc_send = [], gc_sent = [], gc_cancelled = False\<rparr>),
                       gs_next = k + 1\<rparr>), Inr k)))"

definition receive_event ::
    "env \<Rightarrow> faults \<Rightarrow> time \<Rightarrow> uuid \<Rightarrow> nat \<Rightarrow> agent_event \<Rightarrow> db \<times> grpc_server \<Rightarrow> db \<times> grpc_server" where
  "receive_event e flt now nid k ev s =
     (case s of (d, g) \<Rightarrow>
        (case gs_conn g k of
           None \<Rightarrow> s
         | Some c \<Rightarrow> (case handleEvent e flt now nid (gc_agent c) ev d of
             (d', a) \<Rightarrow> (d', set_conn k (\<lambda>c. c\<lparr>gc_agent := a\<rparr>) g))))"

definition send_next :: "nat \<Rightarrow> grpc_server \<Rightarrow> grpc_server" where
  "send_next k g =
     (case gs_conn g k of
        None \<Rightarrow> g
      | Some c \<Rightarrow> (case gc_send c of
          [] \<Rightarrow> g | cmd # rest \<Rightarrow> set_conn k (\<lambda>c. c\<lparr>gc_send := rest, gc_sent := gc_sent c @ [cmd]\<rparr>) g))"

definition close_stream :: "time \<Rightarrow> nat \<Rightarrow> db \<times> grpc_server \<Rightarrow> db \<times> grpc_server" where
  "close_stream now k s =
     (case s of (d, g) \<Rightarrow>
        (case gs_conn g k of
           None \<Rightarrow> s
         | Some c \<Rightarrow>
             (set_agent now (ID (gc_agent c)) (\<lambda>x. x\<lparr>ag_Status := AgentOffline\<rparr>) d,
              g\<lparr>gs_streams := (gs_streams g)(ID (gc_agent c) := None), gs_conn := (gs_conn g)(k := None)\<rparr>)))"

subsection \<open>Unary calls\<close>

text \<open>An absent status is the empty string.\<close>

record progress_request =
  pg_RunId :: uuid
  pg_Status :: run_status
  pg_BytesRead :: int
  pg_BytesCompressed :: int
  pg_BytesUploaded :: int
  pg_Checksum :: string
  pg_StoragePath :: string
  pg_Error :: string

definition progress_update :: "time \<Rightarrow> progress_request \<Rightarrow> backup_run \<Rightarrow> backup_run" where
  "progress_update now q r =
     (let r1 = r\<lparr>run_BytesRead := pg_BytesRead q, run_BytesCompressed := pg_BytesCompressed q,
                run_BytesUploaded := pg_BytesUploaded q\<rparr>;
          r2 = (if pg_Status q = RunOther '''' then r1 else r1\<lparr>run_Status := pg_Status q\<rparr>);
          r3 = (if pg_Status q = RunCompleted \<or> pg_Status q = RunFailed then r2\<lparr>run_CompletedAt := Some now\<rparr> else r2);
          r4 = (if pg_Checksum q = '''' then r3 else r3\<lparr>run_Checksum := pg_Checksum q\<rparr>);
          r5 = (if pg_StoragePath q = '''' then r4 else r4\<lparr>run_StoragePath := pg_StoragePath q\<rparr>)
      in if pg_Error q = '''' then r5 else r5\<lparr>run_ErrorMessage := pg_Error q\<rparr>)"

definition ReportProgress ::
    "(string \<Rightarrow> string \<Rightarrow> bool) \<Rightarrow> time \<Rightarrow> uuid \<Rightarrow> string \<Rightarrow> progress_request \<Rightarrow> db \<Rightarrow> db \<times> (string + bool)" where
  "ReportProgress bcrypt_ok now agentID token q d =
     (case authenticateStream bcrypt_ok agentID token d of
        Inl msg \<Rightarrow> (d, Inl msg)
      | Inr _ \<Rightarrow> (set_run now (pg_RunId q) (progress_update now q) d, Inr True))"

record job_config_response =
  gj_JobId :: uuid
  gj_SourceType :: string
  gj_SourcePath :: string
  gj_SourceDatabase :: string
  gj_IncludePatterns :: string
  gj_ExcludePatterns :: string
  gj_Mode :: string
  gj_Encrypted :: bool
  gj_StorageType :: storage_type
  gj_StorageBucket :: string
  gj_StorageRegion :: string
  gj_StorageEndpoint :: string
  gj_StoragePath :: string
  gj_ConnectionId :: string
  gj_CronExpr :: string
  gj_StorageAccessKey :: string
  gj_StorageSecretKey :: string

definition GetJobConfig ::
    "(string \<Rightarrow> string \<Rightarrow> bool) \<Rightarrow> (string \<Rightarrow> string option) \<Rightarrow> uuid \<Rightarrow> string \<Rightarrow> uuid \<Rightarrow> db \<Rightarrow> string + job_config_response" where
  "GetJobConfig bcrypt_ok dec agentID token jobID d =
     (case authenticateStream bcrypt_ok agentID token d of
        Inl msg \<Rightarrow> Inl msg
      | Inr a \<Rightarrow>
          (case first_row (\<lambda>j. ID j = jobID \<and> job_AgentID j = ID a) (db_jobs d) of
             None \<Rightarrow> Inl ''record not found''
           | Some j0 \<Rightarrow>
               let j = preload_job d j0; t = target_of_job j d;
                   key = (\<lambda>c. case dec c of None \<Rightarrow> '''' | Some k \<Rightarrow> k) in
               Inr \<lparr>gj_JobId = ID j, gj_SourceType = job_SourceType j, gj_SourcePath = job_SourcePath j,
                    gj_SourceDatabase = job_SourceDatabase j, gj_IncludePatterns = job_IncludePatterns j,
                    gj_ExcludePatterns = job_ExcludePatterns j, gj_Mode = job_Mode j, gj_Encrypted = job_Encrypted j,
                    gj_StorageType = st_Type t, gj_StorageBucket = st_Bucket t, gj_StorageRegion = st_Region t,
                    gj_StorageEndpoint = st_Endpoint t, gj_StoragePath = st_Path t,
                    gj_ConnectionId = (case job_ConnectionID j of None \<Rightarrow> '''' | Some c \<Rightarrow> c),
                    gj_CronExpr = (case job_Schedule j of None \<Rightarrow> '''' | Some x \<Rightarrow> sch_CronExpr x),
                    gj_StorageAccessKey = key (st_EncryptedAccessKey t), gj_StorageSecretKey = key (st_EncryptedSecretKey t)\<rparr>))"

subsection \<open>Authentication\<close>

lemma authenticateStream_Inr_iff:
  "authenticateStream ok i token d = Inr a \<longleftrightarrow>
     first_row (\<lambda>a. ID a = i) (db_agents d) = Some a \<and> ag_RevokedAt a = None \<and>
     (\<exists>h. ag_TokenHash a = Some h \<and> ok h token)"
  by (auto simp: authenticateStream_def split: option.splits if_splits)

text \<open>The third copy of the agent check decides like the others.\<close>

lemma stream_auth_matches:
  assumes "agents_wf (db_agents d)" and "token \<noteq> ''''"
  shows "authenticateStream ok i token d = Inr a \<longleftrightarrow> AgentAuth ok (''Bearer '' @ token) (Some i) d = Inr a"
proof
  assume "authenticateStream ok i token d = Inr a"
  then have f: "first_row (\<lambda>a. ID a = i) (db_agents d) = Some a" "ag_RevokedAt a = None"
    "\<exists>h. ag_TokenHash a = Some h \<and> ok h token"
    by (simp_all add: authenticateStream_Inr_iff)
  then obtain h where "ag_TokenHash a = Some h" "ok h token" by blast
  then have "may_authenticate ok token a" "a \<in> set (db_agents d)" "ID a = i"
    using first_row_SomeD [OF f(1)] f(2) by (simp_all add: may_authenticate_def)
  then show "AgentAuth ok (''Bearer '' @ token) (Some i) d = Inr a"
    unfolding AgentAuth_Inr [OF agents_wf_unique [OF assms(1)]] using assms(2) by blast
next
  assume "AgentAuth ok (''Bearer '' @ token) (Some i) d = Inr a"
  then have m: "may_authenticate ok token a" "a \<in> set (db_agents d)" "ID a = i"
    unfolding AgentAuth_Inr [OF agents_wf_unique [OF assms(1)]] by auto
  then have l: "live a" by (simp add: may_authenticate_def)
  have "first_row (\<lambda>a. ID a = i) (db_agents d) = Some a"
  proof (cases "first_row (\<lambda>a. ID a = i) (db_agents d)")
    case None
    then show ?thesis using m l by (auto simp: first_row_None_iff)
  next
    case (Some b)
    from first_row_SomeD [OF Some] have "b = a"
      using m unique_ids_eq [OF agents_wf_unique [OF assms(1)]] by blast
    then show ?thesis using Some by simp
  qed
  then show "authenticateStream ok i token d = Inr a"
    using m(1) by (simp add: authenticateStream_Inr_iff may_authenticate_def split: option.splits)
qed

text \<open>A job's configuration, with the credentials of its storage in clear, goes to the job's own agent only.\<close>

lemma job_config_to_owner:
  assumes "GetJobConfig ok dec i token jid d = Inr resp"
  shows "\<exists>a j. authenticateStream ok i token d = Inr a \<and> j \<in> set (db_jobs d) \<and> live j \<and> ID j = jid \<and>
    job_AgentID j = ID a \<and> gj_JobId resp = jid"
proof -
  obtain a where a: "authenticateStream ok i token d = Inr a"
    using assms by (auto simp: GetJobConfig_def split: sum.splits)
  obtain j where j: "first_row (\<lambda>j. ID j = jid \<and> job_AgentID j = ID a) (db_jobs d) = Some j"
    using assms a by (auto simp: GetJobConfig_def split: option.splits)
  have "gj_JobId resp = ID j"
    using assms a j by (auto simp: GetJobConfig_def Let_def)
  then show ?thesis using a first_row_SomeD [OF j] by auto
qed

subsection \<open>Reports\<close>

lemma first_row_update_id:
  assumes "\<And>r. ID (f r) = ID r" and "\<And>r. DeletedAt (f r) = DeletedAt r"
  shows "first_row (\<lambda>x. ID x = i) (update_rows now (\<lambda>x. ID x = i) f t) =
    map_option (\<lambda>r. (f r)\<lparr>UpdatedAt := now\<rparr>) (first_row (\<lambda>x. ID x = i) t)"
proof (induction t)
  case Nil
  show ?case by (simp add: first_row_def update_rows_def)
next
  case (Cons r t)
  have "live ((f r)\<lparr>UpdatedAt := now\<rparr>) = live r" using assms(2) by (simp add: live_def)
  then show ?case using Cons.IH assms(1) by (cases "live r \<and> ID r = i") (auto simp: first_row_def update_rows_def)
qed

lemma progress_update_keeps:
  "ID (progress_update now q r) = ID r" "DeletedAt (progress_update now q r) = DeletedAt r"
  "run_AgentID (progress_update now q r) = run_AgentID r"
  "run_OrganizationID (progress_update now q r) = run_OrganizationID r"
  "run_Status (progress_update now q r) = (if pg_Status q = RunOther '''' then run_Status r else pg_Status q)"
  by (simp_all add: progress_update_def Let_def)

text \<open>C33. A progress report over the command channel is not guarded: whichever agent sends it with a valid credential,
  the run it names, of any agent and any organization and in any state, a finished one included, takes the reported
  status, and the answer says accepted.  The transition table and the ownership that the polling handlers enforce do
  not hold here.\<close>

theorem stream_report_unguarded:
  assumes "authenticateStream ok i token d = Inr a"
    and "first_row (\<lambda>x. ID x = pg_RunId q) (db_runs d) = Some r" and "pg_Status q \<noteq> RunOther ''''"
  shows "\<exists>d' r'. ReportProgress ok now i token q d = (d', Inr True) \<and>
    first_row (\<lambda>x. ID x = pg_RunId q) (db_runs d') = Some r' \<and> run_Status r' = pg_Status q \<and>
    run_AgentID r' = run_AgentID r \<and> run_OrganizationID r' = run_OrganizationID r"
proof -
  have "first_row (\<lambda>x. ID x = pg_RunId q) (db_runs (set_run now (pg_RunId q) (progress_update now q) d)) =
    Some ((progress_update now q r)\<lparr>UpdatedAt := now\<rparr>)"
    using first_row_update_id [of "progress_update now q" "pg_RunId q" now "db_runs d"] assms(2)
    by (simp add: set_run_def progress_update_keeps)
  then show ?thesis using assms by (simp add: ReportProgress_def progress_update_keeps)
qed

text \<open>The witness: an agent of another organization reopens a completed run.\<close>

definition stranger_db :: db where
  "stranger_db = (run_db RunCompleted)\<lparr>db_agents := [sample_agent, sample_agent\<lparr>ID := ''g9'', ag_OrganizationID := ''o9'',
     ag_TokenHash := Some ''h:other''\<rparr>]\<rparr>"

definition reopening :: progress_request where
  "reopening = \<lparr>pg_RunId = ''r1'', pg_Status = RunRunning, pg_BytesRead = 0, pg_BytesCompressed = 0, pg_BytesUploaded = 0,
     pg_Checksum = '''', pg_StoragePath = '''', pg_Error = ''''\<rparr>"

theorem stream_report_unguarded_witness:
  "\<exists>d' r r'. ReportProgress sample_bcrypt 9 ''g9'' ''other'' reopening stranger_db = (d', Inr True) \<and>
     first_row (\<lambda>x. ID x = ''r1'') (db_runs stranger_db) = Some r \<and> run_Status r = RunCompleted \<and>
     run_OrganizationID r = ''o1'' \<and> first_row (\<lambda>x. ID x = ''r1'') (db_runs d') = Some r' \<and> run_Status r' = RunRunning"
proof -
  have a: "authenticateStream sample_bcrypt ''g9'' ''other'' stranger_db = Inr (sample_agent\<lparr>ID := ''g9'',
      ag_OrganizationID := ''o9'', ag_TokenHash := Some ''h:other''\<rparr>)"
    by (simp add: authenticateStream_def stranger_db_def first_row_def live_def sample_agent_def pending_agent_def sample_bcrypt_def)
  have q: "pg_RunId reopening = ''r1''" "pg_Status reopening = RunRunning" by (simp_all add: reopening_def)
  obtain r where r: "first_row (\<lambda>x. ID x = ''r1'') (db_runs stranger_db) = Some r" "run_Status r = RunCompleted"
      "run_OrganizationID r = ''o1''"
    by (simp add: stranger_db_def run_db_def sample_run_def first_row_def live_def)
  then show ?thesis using stream_report_unguarded [OF a, of reopening r 9] q by auto
qed

subsection \<open>Streams\<close>

fun command_agent :: "effect \<Rightarrow> uuid option" where
  "command_agent (GrpcRunBackup aid _ _) = Some aid"
| "command_agent (GrpcCancelBackup aid _) = Some aid"
| "command_agent (GrpcStartRestore aid _ _) = Some aid"
| "command_agent _ = None"

text \<open>Streams open, carry events and commands, and close; handlers dispatch; agents report; and anything else may
  change the database meanwhile.\<close>

inductive grpc_step :: "(string \<Rightarrow> string \<Rightarrow> bool) \<Rightarrow> env \<Rightarrow> db \<times> grpc_server \<Rightarrow> db \<times> grpc_server \<Rightarrow> bool"
  for ok e where
  opened: "grpc_step ok e s (fst (open_stream ok e flt now nid i token first s))"
| received: "grpc_step ok e s (receive_event e flt now nid k ev s)"
| sent: "grpc_step ok e (d, g) (d, send_next k g)"
| closed: "grpc_step ok e s (close_stream now k s)"
| dispatched: "grpc_step ok e (d, g) (d, dispatch ef g)"
| reported: "grpc_step ok e (d, g) (fst (ReportProgress ok now i token q d), g)"
| elsewhere: "grpc_step ok e (d, g) (d', g)"

definition conn_ok :: "agent_conn \<Rightarrow> bool" where
  "conn_ok c \<longleftrightarrow> length (gc_send c) \<le> command_capacity \<and>
     (\<forall>cmd\<in>set (gc_sent c) \<union> set (gc_send c). command_agent cmd = Some (ID (gc_agent c)))"

definition grpc_ok :: "grpc_server \<Rightarrow> bool" where
  "grpc_ok g \<longleftrightarrow> (\<forall>k c. gs_conn g k = Some c \<longrightarrow> k < gs_next g \<and> conn_ok c) \<and>
     (\<forall>i k. gs_streams g i = Some k \<longrightarrow> (\<exists>c. gs_conn g k = Some c \<and> ID (gc_agent c) = i))"

lemma handleEvent_ID: "handleEvent e flt now nid a p d = (d', a') \<Longrightarrow> ID a' = ID a"
  by (cases p) (auto simp: handleEvent_def Let_def split: option.splits)

lemma grpc_ok_set_conn:
  assumes "grpc_ok g" and "\<And>c. gs_conn g k = Some c \<Longrightarrow> conn_ok c \<Longrightarrow> conn_ok (f c) \<and> ID (gc_agent (f c)) = ID (gc_agent c)"
  shows "grpc_ok (set_conn k f g)"
proof -
  have "y < gs_next (set_conn k f g) \<and> conn_ok c" if "gs_conn (set_conn k f g) y = Some c" for y c
    using that assms by (auto simp: grpc_ok_def set_conn_def split: if_splits)
  moreover have "\<exists>c. gs_conn (set_conn k f g) y = Some c \<and> ID (gc_agent c) = i" if "gs_streams (set_conn k f g) i = Some y" for i y
  proof -
    have "gs_streams g i = Some y" using that by (simp add: set_conn_def)
    then obtain c where c: "gs_conn g y = Some c" "ID (gc_agent c) = i" using assms(1) unfolding grpc_ok_def by blast
    have "conn_ok c" using assms(1) c(1) unfolding grpc_ok_def by blast
    then show ?thesis using assms(2) c by (cases "y = k") (auto simp: set_conn_def)
  qed
  ultimately show ?thesis by (simp add: grpc_ok_def)
qed

lemma grpc_ok_SendCommand:
  assumes "grpc_ok g" and "command_agent cmd = Some i"
  shows "grpc_ok (fst (SendCommand i cmd g))"
proof (cases "gs_streams g i")
  case None
  then show ?thesis using assms(1) by (simp add: SendCommand_def)
next
  case (Some k)
  then obtain c where c: "gs_conn g k = Some c" "ID (gc_agent c) = i" using assms(1) unfolding grpc_ok_def by blast
  show ?thesis
  proof (cases "length (gc_send c) < command_capacity")
    case True
    have "grpc_ok (set_conn k (\<lambda>c. c\<lparr>gc_send := gc_send c @ [cmd]\<rparr>) g)"
      by (rule grpc_ok_set_conn [OF assms(1)]) (use c True assms(2) in \<open>auto simp: conn_ok_def\<close>)
    then show ?thesis using Some c True by (simp add: SendCommand_def)
  next
    case False
    then show ?thesis using Some c assms(1) by (simp add: SendCommand_def)
  qed
qed

lemma grpc_ok_dispatch: "grpc_ok g \<Longrightarrow> grpc_ok (dispatch ef g)"
proof (cases ef)
  case (GrpcDisconnect aid)
  assume g: "grpc_ok g"
  have "grpc_ok (set_conn k (\<lambda>c. c\<lparr>gc_cancelled := True\<rparr>) g)" for k
    by (rule grpc_ok_set_conn [OF g]) (simp add: conn_ok_def)
  then show ?thesis using g GrpcDisconnect by (simp add: dispatch_def DisconnectAgent_def split: option.split)
qed (simp_all add: dispatch_def grpc_ok_SendCommand)

lemma grpc_ok_open:
  assumes "grpc_ok (snd s)"
  shows "grpc_ok (snd (fst (open_stream ok e flt now nid i token first s)))"
proof -
  obtain d g where s: "s = (d, g)" by (cases s)
  show ?thesis
  proof (cases "authenticateStream ok i token d")
    case (Inl m)
    then show ?thesis using assms s by (simp add: open_stream_def)
  next
    case (Inr a)
    obtain d3 a3 where h: "handleEvent e flt now nid (a\<lparr>ag_Status := AgentOnline, ag_LastSeenAt := Some now\<rparr>) first
        (fst (ResolveAlerts flt now (ag_OrganizationID a) AlertAgentOffline (''agent-offline:'' @ ID a)
          (set_agent now (ID a) (\<lambda>x. x\<lparr>ag_Status := AgentOnline, ag_LastSeenAt := Some now\<rparr>) d))) = (d3, a3)"
      by fastforce
    have id: "ID a3 = ID a" using handleEvent_ID [OF h] by simp
    have g: "grpc_ok g" using assms s by simp
    have "gs_conn g (gs_next g) = None" using g by (cases "gs_conn g (gs_next g)") (auto simp: grpc_ok_def)
    moreover have "gs_streams g x \<noteq> Some (gs_next g)" for x
      using g \<open>gs_conn g (gs_next g) = None\<close> unfolding grpc_ok_def by fastforce
    ultimately have "grpc_ok \<lparr>gs_streams = (gs_streams g)(ID a \<mapsto> gs_next g),
        gs_conn = (gs_conn g)(gs_next g \<mapsto> \<lparr>gc_agent = a3, gc_send = [], gc_sent = [], gc_cancelled = False\<rparr>),
        gs_next = gs_next g + 1\<rparr>"
      using g id by (auto simp: grpc_ok_def conn_ok_def less_Suc_eq split: if_splits)
    then show ?thesis using s Inr h by (simp add: open_stream_def Let_def)
  qed
qed

lemma grpc_ok_close:
  assumes "grpc_ok (snd s)"
  shows "grpc_ok (snd (close_stream now k s))"
proof -
  obtain d g where s: "s = (d, g)" by (cases s)
  have g: "grpc_ok g" using assms s by simp
  show ?thesis
  proof (cases "gs_conn g k")
    case None
    then show ?thesis using g s by (simp add: close_stream_def)
  next
    case (Some c)
    let ?g = "g\<lparr>gs_streams := (gs_streams g)(ID (gc_agent c) := None), gs_conn := (gs_conn g)(k := None)\<rparr>"
    have "y < gs_next ?g \<and> conn_ok x" if "gs_conn ?g y = Some x" for y x
      using that g by (auto simp: grpc_ok_def split: if_splits)
    moreover have "\<exists>x. gs_conn ?g y = Some x \<and> ID (gc_agent x) = i" if "gs_streams ?g i = Some y" for i y
    proof -
      have i: "i \<noteq> ID (gc_agent c)" "gs_streams g i = Some y" using that by (auto split: if_splits)
      then obtain x where x: "gs_conn g y = Some x" "ID (gc_agent x) = i" using g unfolding grpc_ok_def by blast
      then have "y \<noteq> k" using Some i(1) by auto
      then show ?thesis using x by simp
    qed
    ultimately have "grpc_ok ?g" unfolding grpc_ok_def by blast
    then show ?thesis using s Some by (simp add: close_stream_def)
  qed
qed

lemma grpc_ok_step: "grpc_step ok e s s' \<Longrightarrow> grpc_ok (snd s) \<Longrightarrow> grpc_ok (snd s')"
proof (induction rule: grpc_step.induct)
  case (received s flt now nid k ev)
  obtain d g where s: "s = (d, g)" by (cases s)
  show ?case
  proof (cases "gs_conn g k")
    case None
    then show ?thesis using received s by (simp add: receive_event_def)
  next
    case (Some c)
    obtain d' a' where h: "handleEvent e flt now nid (gc_agent c) ev d = (d', a')" by fastforce
    have "grpc_ok (set_conn k (\<lambda>c. c\<lparr>gc_agent := a'\<rparr>) g)"
      by (rule grpc_ok_set_conn) (use received s Some handleEvent_ID [OF h] in \<open>auto simp: conn_ok_def\<close>)
    then show ?thesis using s Some h by (simp add: receive_event_def)
  qed
next
  case (sent d g k)
  show ?case
  proof (cases "gs_conn g k")
    case None
    then show ?thesis using sent by (simp add: send_next_def)
  next
    case (Some c)
    show ?thesis
    proof (cases "gc_send c")
      case Nil
      then show ?thesis using sent Some by (simp add: send_next_def)
    next
      case (Cons cmd rest)
      have "grpc_ok (set_conn k (\<lambda>c. c\<lparr>gc_send := rest, gc_sent := gc_sent c @ [cmd]\<rparr>) g)"
        by (rule grpc_ok_set_conn) (use sent Some Cons in \<open>auto simp: conn_ok_def\<close>)
      then show ?thesis using Some Cons by (simp add: send_next_def)
    qed
  qed
qed (simp_all add: grpc_ok_open grpc_ok_close grpc_ok_dispatch)

lemma grpc_ok_reachable: "(grpc_step ok e)\<^sup>*\<^sup>* (d0, NewServer) s \<Longrightarrow> grpc_ok (snd s)"
proof (induction rule: rtranclp_induct)
  case base
  show ?case by (simp add: NewServer_def grpc_ok_def)
next
  case (step s s')
  then show ?case using grpc_ok_step by blast
qed

text \<open>C32. Commands reach the agent they are meant for: whatever streams open, break, reconnect and close, in whatever
  order handlers dispatch, every command sent or waiting on a stream names the agent that authenticated that stream,
  and no more than 16 wait.\<close>

theorem commands_reach_their_agent:
  assumes "(grpc_step ok e)\<^sup>*\<^sup>* (d0, NewServer) (d, g)" and "gs_conn g k = Some c"
    and "cmd \<in> set (gc_sent c @ gc_send c)"
  shows "command_agent cmd = Some (ID (gc_agent c)) \<and> length (gc_send c) \<le> 16"
proof -
  have "conn_ok c" using grpc_ok_reachable [OF assms(1)] assms(2) by (auto simp: grpc_ok_def)
  then show ?thesis using assms(3) by (auto simp: conn_ok_def command_capacity_def)
qed

definition quiet_env :: env where
  "quiet_env = \<lparr>mail_on = False, url_scheme = (\<lambda>_. None)\<rparr>"

definition opened_state :: "db \<times> grpc_server" where
  "opened_state = fst (open_stream sample_bcrypt quiet_env no_faults 9 ''a1'' ''g1'' ''secret'' EvNone (sample_agent_db, NewServer))"

theorem commands_reach_their_agent_witness:
  "\<exists>c. gs_conn (dispatch (GrpcRunBackup ''g1'' ''r1'' ''j1'') (snd opened_state)) 0 = Some c \<and>
     gc_send c = [GrpcRunBackup ''g1'' ''r1'' ''j1''] \<and> ID (gc_agent c) = ''g1'' \<and> length (gc_send c) \<le> 16"
proof -
  let ?cmd = "GrpcRunBackup ''g1'' ''r1'' ''j1''"
  have "case gs_conn (dispatch ?cmd (snd opened_state)) 0 of None \<Rightarrow> False | Some c \<Rightarrow> gc_send c = [?cmd]" by code_simp
  then obtain c where c: "gs_conn (dispatch ?cmd (snd opened_state)) 0 = Some c" "gc_send c = [?cmd]"
    by (auto split: option.splits)
  have "(grpc_step sample_bcrypt quiet_env)\<^sup>*\<^sup>* (sample_agent_db, NewServer) opened_state"
    unfolding opened_state_def by (rule r_into_rtranclp) (rule grpc_step.opened)
  moreover have "grpc_step sample_bcrypt quiet_env opened_state (fst opened_state, dispatch ?cmd (snd opened_state))"
    using grpc_step.dispatched [of sample_bcrypt quiet_env "fst opened_state" "snd opened_state" ?cmd] by simp
  ultimately have "(grpc_step sample_bcrypt quiet_env)\<^sup>*\<^sup>* (sample_agent_db, NewServer)
      (fst opened_state, dispatch ?cmd (snd opened_state))" by (rule rtranclp.rtrancl_into_rtrancl)
  from commands_reach_their_agent [OF this c(1), of ?cmd] c show ?thesis by auto
qed

text \<open>When an agent has reconnected before its old stream ends, the end of the old stream takes the new one's entry:
  the agent counts as disconnected and offline, and no command reaches it although its stream is open.\<close>

lemma stale_close_hides_agent:
  assumes "gs_conn g old = Some c" and "ID (gc_agent c) = i" and "gs_streams g i = Some new" and "new \<noteq> old"
    and "close_stream now old (d, g) = (d', g')"
  shows "\<not> IsAgentConnected i g' \<and> gs_conn g' new = gs_conn g new \<and> SendCommand i cmd g' = (g', False) \<and>
    (\<forall>a\<in>set (db_agents d'). live a \<and> ID a = i \<longrightarrow> ag_Status a = AgentOffline)"
proof -
  have "d' = set_agent now i (\<lambda>x. x\<lparr>ag_Status := AgentOffline\<rparr>) d"
    and g: "g' = g\<lparr>gs_streams := (gs_streams g)(i := None), gs_conn := (gs_conn g)(old := None)\<rparr>"
    using assms by (simp_all add: close_stream_def)
  moreover have "\<forall>a\<in>set (update_rows now (\<lambda>x. ID x = i) (\<lambda>x. x\<lparr>ag_Status := AgentOffline\<rparr>) t). live a \<and> ID a = i \<longrightarrow> ag_Status a = AgentOffline"
    for t :: "agent list"
    by (induction t) (auto simp: update_rows_def)
  ultimately have "\<forall>a\<in>set (db_agents d'). live a \<and> ID a = i \<longrightarrow> ag_Status a = AgentOffline"
    by (simp add: set_agent_def)
  then show ?thesis using g assms(4) by (simp add: IsAgentConnected_def SendCommand_def)
qed

end
