(* ===== verification/ServerUrl.thy ===== *)
theory ServerUrl
  imports Paths
begin

text \<open>
  The setup program's view of a server address (\<open>agent/setup/url.go\<close>): the canonical form in which it compares and
  stores addresses, the policy that plain HTTP is for the local machine only, and the joining of paths.  Go's URL parser
  and the escaping of a rendered host and path are a parameter; \<open>url_lib_ok\<close> states what they do with a canonical
  address.  A bare question mark at the end of an address (\<open>ForceQuery\<close>) survives normalization.
\<close>

record parsed_url =
  u_Scheme :: string
  u_Host :: string
  u_Hostname :: string
  u_Port :: string
  u_EscapedPath :: string
  u_ForceQuery :: bool

record url_lib =
  ul_Parse :: "string \<Rightarrow> parsed_url option"
  ul_EscapeHost :: "string \<Rightarrow> string"
  ul_Escape :: "string \<Rightarrow> string"

definition errInvalidScheme :: string where
  "errInvalidScheme = ''server URL must start with https:// (http:// is allowed only for localhost)''"

definition errInsecureRemote :: string where
  "errInsecureRemote = ''plain HTTP to a non-loopback host is not allowed '' @ em_dash @ '' use https://''"

definition errMissingHost :: string where
  "errMissingHost = ''server URL has no host''"

definition isLoopback :: "string \<Rightarrow> bool" where
  "isLoopback host \<longleftrightarrow> host = '''' \<or> host = ''localhost'' \<or> host = ''127.0.0.1'' \<or> host = ''::1''"

text \<open>A missing scheme is \<open>https\<close>, or \<open>http\<close> for the local machine.\<close>

definition with_scheme :: "string \<Rightarrow> string" where
  "with_scheme s =
     (if contains ''://'' s then s
      else let host = takeWhile (\<lambda>c. c \<noteq> CHR '':'') (takeWhile (\<lambda>c. c \<noteq> sep) s) in
        if isLoopback (to_lower host) then ''http://'' @ s else ''https://'' @ s)"

definition default_port :: "string \<Rightarrow> string \<Rightarrow> bool" where
  "default_port scheme port \<longleftrightarrow> scheme = ''https'' \<and> port = ''443'' \<or> scheme = ''http'' \<and> port = ''80''"

definition clean_url_path :: "string \<Rightarrow> string" where
  "clean_url_path escaped =
     (let p = Clean (trim_space escaped) in if p = ''.'' \<or> p = ''/'' then '''' else p)"

definition NormalizeServerURL :: "url_lib \<Rightarrow> string \<Rightarrow> string + string" where
  "NormalizeServerURL L raw =
     (let s = trim_space raw in
      if s = '''' then Inl ''server URL is required''
      else (case ul_Parse L (with_scheme s) of
          None \<Rightarrow> Inl ''server URL is not a valid URL''
        | Some u \<Rightarrow>
            let scheme = to_lower (u_Scheme u); hostname = to_lower (u_Hostname u) in
            if scheme \<noteq> ''http'' \<and> scheme \<noteq> ''https'' then Inl errInvalidScheme
            else if hostname = '''' then Inl errMissingHost
            else Inr (scheme @ ''://'' @
              ul_EscapeHost L (hostname @
                (if u_Port u \<noteq> '''' \<and> \<not> default_port scheme (u_Port u) then '':'' @ u_Port u else '''')) @
              ul_Escape L (clean_url_path (u_EscapedPath u)) @ (if u_ForceQuery u then ''?'' else ''''))))"

definition ValidateServerURL :: "url_lib \<Rightarrow> string \<Rightarrow> string option" where
  "ValidateServerURL L raw =
     (case NormalizeServerURL L raw of
        Inl e \<Rightarrow> Some e
      | Inr norm \<Rightarrow>
          (case ul_Parse L (trim_space norm) of
             None \<Rightarrow> Some ''server URL is not a valid URL''
           | Some p \<Rightarrow>
               if to_lower (u_Scheme p) = ''http'' \<and> \<not> isLoopback (to_lower (u_Hostname p)) then Some errInsecureRemote
               else if trim_space (u_Host p) = '''' then Some errMissingHost else None))"

definition trim_slashes :: "string \<Rightarrow> string" where
  "trim_slashes s = rev (dropWhile (\<lambda>c. c = sep) (rev (dropWhile (\<lambda>c. c = sep) s)))"

definition JoinURL :: "string \<Rightarrow> string list \<Rightarrow> string" where
  "JoinURL base parts =
     foldl (\<lambda>b p. let q = trim_slashes p in if q = '''' then b else b @ ''/'' @ q) (trim_suffix ''/'' base) parts"

subsection \<open>Canonical addresses\<close>

definition in_range :: "char \<Rightarrow> char \<Rightarrow> char \<Rightarrow> bool" where
  "in_range a b c \<longleftrightarrow> (of_char a :: nat) \<le> of_char c \<and> (of_char c :: nat) \<le> of_char b"

definition port_char :: "char \<Rightarrow> bool" where
  "port_char c \<longleftrightarrow> in_range (CHR ''0'') (CHR ''9'') c"

definition host_char :: "char \<Rightarrow> bool" where
  "host_char c \<longleftrightarrow> in_range (CHR ''a'') (CHR ''z'') c \<or> port_char c \<or> c = CHR ''-'' \<or> c = CHR ''.''"

definition path_char :: "char \<Rightarrow> bool" where
  "path_char c \<longleftrightarrow> host_char c \<or> in_range (CHR ''A'') (CHR ''Z'') c \<or> c = CHR ''_'' \<or> c = CHR ''~'' \<or> c = sep"

definition plain_host :: "string \<Rightarrow> bool" where
  "plain_host h \<longleftrightarrow> h \<noteq> '''' \<and> list_all host_char h"

definition plain_port :: "string \<Rightarrow> bool" where
  "plain_port p \<longleftrightarrow> list_all port_char p"

definition plain_path :: "string \<Rightarrow> bool" where
  "plain_path p \<longleftrightarrow> (p = '''' \<or> IsAbs p) \<and> list_all path_char p"

definition port_part :: "string \<Rightarrow> string" where
  "port_part port = (if port = '''' then '''' else '':'' @ port)"

definition canonical :: "string \<Rightarrow> string \<Rightarrow> string \<Rightarrow> string \<Rightarrow> string" where
  "canonical scheme host port path = scheme @ ''://'' @ host @ port_part port @ path"

text \<open>What the parser does with an address of plain letters: it takes it apart, and a plain path needs no escape.\<close>

definition url_lib_ok :: "url_lib \<Rightarrow> bool" where
  "url_lib_ok L \<longleftrightarrow>
     (\<forall>scheme host port path. scheme \<in> {''http'', ''https''} \<and> plain_host host \<and> plain_port port \<and> plain_path path \<longrightarrow>
        ul_Parse L (canonical scheme host port path) =
          Some \<lparr>u_Scheme = scheme, u_Host = host @ port_part port, u_Hostname = host, u_Port = port, u_EscapedPath = path,
                u_ForceQuery = False\<rparr>) \<and>
     (\<forall>path. plain_path path \<longrightarrow> ul_Escape L path = path) \<and>
     (\<forall>host port. plain_host host \<and> plain_port port \<longrightarrow> ul_EscapeHost L (host @ port_part port) = host @ port_part port)"

lemma url_lib_ok_parse:
  "url_lib_ok L \<Longrightarrow> scheme \<in> {''http'', ''https''} \<Longrightarrow> plain_host host \<Longrightarrow> plain_port port \<Longrightarrow> plain_path path \<Longrightarrow>
   ul_Parse L (canonical scheme host port path) =
     Some \<lparr>u_Scheme = scheme, u_Host = host @ port_part port, u_Hostname = host, u_Port = port, u_EscapedPath = path,
           u_ForceQuery = False\<rparr>"
  unfolding url_lib_ok_def by blast

lemma url_lib_ok_host:
  "url_lib_ok L \<Longrightarrow> plain_host host \<Longrightarrow> plain_port port \<Longrightarrow> ul_EscapeHost L (host @ port_part port) = host @ port_part port"
  unfolding url_lib_ok_def by blast

lemma url_lib_ok_escape: "url_lib_ok L \<Longrightarrow> plain_path path \<Longrightarrow> ul_Escape L path = path"
  unfolding url_lib_ok_def by blast

lemma lower_plain: "host_char c \<Longrightarrow> lower_char c = c"
  by (auto simp: lower_char_def host_char_def port_char_def in_range_def)

lemma to_lower_plain: "plain_host h \<Longrightarrow> to_lower h = h"
  unfolding plain_host_def to_lower_def using lower_plain by (simp add: map_idI list_all_iff)

lemma not_space: "path_char c \<or> c = CHR '':'' \<Longrightarrow> \<not> is_space c"
  by (auto simp: is_space_def path_char_def host_char_def port_char_def in_range_def sep_def)

lemma host_path_char: "host_char c \<Longrightarrow> path_char c" "port_char c \<Longrightarrow> path_char c"
  by (simp_all add: path_char_def host_char_def)

lemma trim_space_none: "(\<And>c. c \<in> set s \<Longrightarrow> \<not> is_space c) \<Longrightarrow> trim_space s = s"
proof -
  assume a: "\<And>c. c \<in> set s \<Longrightarrow> \<not> is_space c"
  have "dropWhile is_space s = s" using a by (cases s) auto
  moreover have "dropWhile is_space (rev s) = rev s" using a by (cases "rev s") (auto simp: rev_eq_Cons_iff)
  ultimately show ?thesis by (simp add: trim_space_def)
qed

lemma set_join_with: "set (join_with d cs) \<subseteq> \<Union> (set ` set cs) \<union> set d"
  by (induction d cs rule: join_with.induct) auto

lemma set_split_on: "w \<in> set (split_on d s) \<Longrightarrow> set w \<subseteq> set s"
proof (induction s arbitrary: w)
  case Nil
  then show ?case by simp
next
  case (Cons a s)
  show ?case
  proof (cases "a = d")
    case True
    then show ?thesis using Cons by fastforce
  next
    case False
    obtain x xs where s: "split_on d s = x # xs" by (cases "split_on d s") simp_all
    then have "w = a # x \<or> w \<in> set xs" using Cons.prems False by simp
    moreover have "set v \<subseteq> set s" if "v = x \<or> v \<in> set xs" for v using Cons.IH [of v] s that by simp
    ultimately show ?thesis by fastforce
  qed
qed

lemma clean_comps_chars:
  assumes "c \<in> set (clean_comps r st cs)"
  shows "c \<in> set st \<union> set cs"
  using assms
proof (induction r st cs rule: clean_comps.induct)
  case (1 r st)
  then show ?case by simp
next
  case (2 r st c cs)
  then show ?case by (auto split: if_splits list.splits)
qed

lemma set_Clean: "set (Clean p) \<subseteq> set p \<union> {sep, CHR ''.''}"
proof -
  have c: "set w \<subseteq> set p" if "w \<in> set (comps p)" for w
  proof -
    have "w \<in> set (split_on sep p)" using that clean_comps_chars unfolding comps_def by fastforce
    then show ?thesis by (rule set_split_on)
  qed
  have "set (join_with [sep] (comps p)) \<subseteq> set p \<union> {sep}"
    using set_join_with [of "[sep]" "comps p"] c by fastforce
  then show ?thesis by (auto simp: Clean_def render_def)
qed

lemma clean_url_path_plain:
  assumes "plain_path p"
  shows "plain_path (clean_url_path p)" and "clean_url_path (clean_url_path p) = clean_url_path p"
proof -
  have "trim_space p = p"
    by (rule trim_space_none) (use assms not_space in \<open>simp add: plain_path_def list_all_iff\<close>)
  then have q: "clean_url_path p = (if Clean p = ''.'' \<or> Clean p = ''/'' then '''' else Clean p)"
    by (simp add: clean_url_path_def Let_def)
  have empty: "Clean '''' = ''.''" by (simp add: Clean_def comps_def render_def IsAbs_def has_prefix_def)
  have "path_char sep" "path_char (CHR ''.'')" by (simp_all add: path_char_def host_char_def)
  then have "list_all path_char (Clean p)"
    using set_Clean [of p] assms by (fastforce simp: plain_path_def list_all_iff)
  moreover have "IsAbs (Clean p)" if "Clean p \<noteq> ''.''" using assms that empty by (auto simp: plain_path_def)
  ultimately show pl: "plain_path (clean_url_path p)" unfolding q by (simp add: plain_path_def)
  have "trim_space (clean_url_path p) = clean_url_path p"
    by (rule trim_space_none) (use pl not_space in \<open>simp add: plain_path_def list_all_iff\<close>)
  then show "clean_url_path (clean_url_path p) = clean_url_path p"
    by (simp add: clean_url_path_def [of "clean_url_path p"] Let_def) (simp add: q empty)
qed

lemma canonical_parts:
  assumes "scheme \<in> {''http'', ''https''}" and "plain_host host" and "plain_port port" and "plain_path path"
  shows "trim_space (canonical scheme host port path) = canonical scheme host port path"
    and "with_scheme (canonical scheme host port path) = canonical scheme host port path"
    and "canonical scheme host port path \<noteq> ''''"
proof -
  have "list_all path_char (''http'' @ ''https'' @ ''//'')" by code_simp
  then have "path_char c \<or> c = CHR '':''" if "c \<in> set (canonical scheme host port path)" for c
    using that assms host_path_char
    by (auto simp: canonical_def port_part_def plain_host_def plain_port_def plain_path_def list_all_iff split: if_splits)
  then show "trim_space (canonical scheme host port path) = canonical scheme host port path"
    by (intro trim_space_none not_space)
  have "contains ''://'' (canonical scheme host port path)"
    unfolding contains_iff canonical_def by (metis append.assoc)
  then show "with_scheme (canonical scheme host port path) = canonical scheme host port path"
    by (simp add: with_scheme_def)
  show "canonical scheme host port path \<noteq> ''''" using assms(1) by (auto simp: canonical_def)
qed

lemma port_fold: "(if p \<noteq> '''' \<and> \<not> d then '':'' @ p else '''') = port_part (if d then '''' else p)"
  by (simp add: port_part_def)

lemma normalize_canonical:
  assumes "url_lib_ok L" and "scheme \<in> {''http'', ''https''}" and "plain_host host" and "plain_port port"
    and "\<not> default_port scheme port" and "plain_path path" and "clean_url_path path = path"
  shows "NormalizeServerURL L (canonical scheme host port path) = Inr (canonical scheme host port path)"
proof -
  note parts = canonical_parts [OF assms(2,3,4,6)]
  have l: "to_lower scheme = scheme" using assms(2) by (auto simp: to_lower_def lower_char_def)
  have h: "host \<noteq> ''''" using assms(3) by (simp add: plain_host_def)
  have sch: "\<not> (scheme \<noteq> ''http'' \<and> scheme \<noteq> ''https'')" using assms(2) by simp
  show ?thesis
    unfolding NormalizeServerURL_def Let_def parts url_lib_ok_parse [OF assms(1-4,6)] port_fold
    by (simp add: l h sch parts assms(5,7) to_lower_plain [OF assms(3)] url_lib_ok_escape [OF assms(1,6)]
        url_lib_ok_host [OF assms(1,3,4)] del: de_Morgan_conj)
      (use sch in \<open>auto simp: canonical_def\<close>)
qed

lemma NormalizeServerURL_Inr:
  assumes "NormalizeServerURL L raw = Inr n" and "ul_Parse L (with_scheme (trim_space raw)) = Some u"
  obtains scheme host where "scheme = to_lower (u_Scheme u)" "scheme \<in> {''http'', ''https''}" "host = to_lower (u_Hostname u)"
    "n = scheme @ ''://'' @ ul_EscapeHost L (host @ port_part (if default_port scheme (u_Port u) then '''' else u_Port u)) @
       ul_Escape L (clean_url_path (u_EscapedPath u)) @ (if u_ForceQuery u then ''?'' else '''')"
proof -
  have ne: "trim_space raw \<noteq> ''''" using assms(1) by (auto simp: NormalizeServerURL_def)
  let ?s = "to_lower (u_Scheme u)"
  have sch: "?s = ''http'' \<or> ?s = ''https''" and h: "to_lower (u_Hostname u) \<noteq> ''''"
    using assms ne by (simp_all add: NormalizeServerURL_def Let_def split: if_split_asm)
  have "n = ?s @ ''://'' @ ul_EscapeHost L (to_lower (u_Hostname u) @ port_part (if default_port ?s (u_Port u) then '''' else u_Port u)) @
       ul_Escape L (clean_url_path (u_EscapedPath u)) @ (if u_ForceQuery u then ''?'' else '''')"
    using assms ne sch h unfolding NormalizeServerURL_def Let_def port_fold by auto
  then show ?thesis using that sch by blast
qed


definition toy_url :: url_lib where
  "toy_url = \<lparr>ul_Parse = (\<lambda>s.
       let scheme = takeWhile (\<lambda>c. c \<noteq> CHR '':'') s; rest = drop (length scheme + 3) s;
           authority = takeWhile (\<lambda>c. c \<noteq> CHR ''/'') rest
       in Some \<lparr>u_Scheme = scheme, u_Host = authority, u_Hostname = takeWhile (\<lambda>c. c \<noteq> CHR '':'') authority,
                u_Port = drop 1 (dropWhile (\<lambda>c. c \<noteq> CHR '':'') authority),
                u_EscapedPath = dropWhile (\<lambda>c. c \<noteq> CHR ''/'') rest, u_ForceQuery = False\<rparr>),
     ul_EscapeHost = (\<lambda>h. h), ul_Escape = (\<lambda>p. p)\<rparr>"

lemma take_drop_while_seam:
  assumes "\<forall>c\<in>set w. P c" and "t = [] \<or> \<not> P (hd t)"
  shows "takeWhile P (w @ t) = w" "dropWhile P (w @ t) = t"
  using assms by (induction w) (cases t; simp)+

lemma toy_url_ok: "url_lib_ok toy_url"
proof -
  have "ul_Parse toy_url (canonical scheme host port path) =
      Some \<lparr>u_Scheme = scheme, u_Host = host @ port_part port, u_Hostname = host, u_Port = port, u_EscapedPath = path,
            u_ForceQuery = False\<rparr>"
    if a: "scheme \<in> {''http'', ''https''}" "plain_host host" "plain_port port" "plain_path path" for scheme host port path
  proof -
    have "\<not> host_char (CHR '':'')" "\<not> host_char (CHR ''/'')" "\<not> port_char (CHR ''/'')"
      by (simp_all add: host_char_def port_char_def in_range_def)
    then have h: "\<forall>c\<in>set host. c \<noteq> CHR '':'' \<and> c \<noteq> CHR ''/''" and p: "\<forall>c\<in>set port. c \<noteq> CHR ''/''"
      using a(2,3) by (auto simp: plain_host_def plain_port_def list_all_iff)
    have s: "takeWhile (\<lambda>c. c \<noteq> CHR '':'') (canonical scheme host port path) = scheme"
    proof -
      have "takeWhile (\<lambda>c. c \<noteq> CHR '':'') (sch @ CHR '':'' # t) = sch" if "sch \<in> {''http'', ''https''}" for sch t :: string
        using that by auto
      from this [OF a(1), of "''//'' @ host @ port_part port @ path"] show ?thesis by (simp add: canonical_def)
    qed
    have r: "drop (length scheme + 3) (canonical scheme host port path) = (host @ port_part port) @ path"
      by (simp add: canonical_def)
    have w: "\<forall>c\<in>set (host @ port_part port). c \<noteq> CHR ''/''" using h p by (auto simp: port_part_def)
    have q: "path = '''' \<or> (\<exists>t. path = CHR ''/'' # t)"
      using a(4) by (auto simp: plain_path_def IsAbs_def has_prefix_iff sep_def)
    have t: "path = [] \<or> \<not> hd path \<noteq> CHR ''/''" using q by auto
    have au: "takeWhile (\<lambda>c. c \<noteq> CHR ''/'') ((host @ port_part port) @ path) = host @ port_part port"
      "dropWhile (\<lambda>c. c \<noteq> CHR ''/'') ((host @ port_part port) @ path) = path"
      by (rule take_drop_while_seam [OF w t])+
    have ho: "takeWhile (\<lambda>c. c \<noteq> CHR '':'') (host @ port_part port) = host"
      "drop 1 (dropWhile (\<lambda>c. c \<noteq> CHR '':'') (host @ port_part port)) = port"
      using h by (auto simp: port_part_def takeWhile_append2 dropWhile_append2)
    show ?thesis
      unfolding toy_url_def url_lib.simps Let_def s r au ho ..
  qed
  then show ?thesis by (simp add: url_lib_ok_def toy_url_def)
qed


text \<open>Joining never leaves two slashes at the seam, whatever slashes the parts bring.\<close>

lemma JoinURL_seam:
  "JoinURL base [p] = (if trim_slashes p = '''' then trim_suffix ''/'' base else trim_suffix ''/'' base @ ''/'' @ trim_slashes p)"
  by (simp add: JoinURL_def Let_def)

lemma trim_slashes_ends: "trim_slashes p \<noteq> '''' \<Longrightarrow> hd (trim_slashes p) \<noteq> sep \<and> last (trim_slashes p) \<noteq> sep"
proof -
  let ?a = "dropWhile (\<lambda>c. c = sep) p" and ?b = "dropWhile (\<lambda>c. c = sep) (rev (dropWhile (\<lambda>c. c = sep) p))"
  assume "trim_slashes p \<noteq> ''''"
  then have b: "?b \<noteq> []" by (simp add: trim_slashes_def)
  have "last (trim_slashes p) = hd ?b" using b by (simp add: trim_slashes_def last_rev)
  moreover have "hd ?b \<noteq> sep" using hd_dropWhile [OF b] by simp
  moreover have "hd (trim_slashes p) = last ?b" using b by (simp add: trim_slashes_def hd_rev)
  moreover have "last ?b = hd ?a"
  proof -
    have "last ?b = last (rev ?a)" using b by (metis last_appendR takeWhile_dropWhile_id)
    moreover have "?a \<noteq> []" using b by (metis dropWhile.simps(1) rev.simps(1))
    ultimately show ?thesis by (simp add: last_rev)
  qed
  moreover have "hd ?a \<noteq> sep"
  proof -
    have "?a \<noteq> []" using b by (metis dropWhile.simps(1) rev.simps(1))
    then show ?thesis using hd_dropWhile [of "\<lambda>c. c = sep" p] by simp
  qed
  ultimately show ?thesis by simp
qed

end
