(* ===== verification/Installer.thy ===== *)
theory Installer
  imports ServerUrl Connect
begin

text \<open>
  The setup program (\<open>agent/setup\<close>: controller, installer, enrollment client, systemd service) and the file-based
  credential store (\<open>agent/internal/credstore/store.go\<close>).  The host is its files and the \<open>systemctl\<close> calls made so
  far.  Every file operation that writes, and every read, draws its outcome from the platform parameter: a write may
  be refused, or torn, leaving a prefix of the text behind.  The HTTP server, \<open>systemctl\<close>, the JSON library and the
  URL parser are parameters too.  Progress callbacks, which only inform the user interface, are left out, and a
  program that polls a locked file is the list of its probes.
\<close>

subsection \<open>The host\<close>

datatype outcome = Fine | Refused string | Torn nat string

record credentials =
  cd_AgentID :: string
  cd_AgentToken :: string

record file_settings =
  fs_ServerURL :: string
  fs_Hostname :: string
  fs_PollInterval :: string
  fs_AgentID :: string
  fs_ConfigVersion :: int

record platform =
  pf_Outcome :: "nat \<Rightarrow> outcome"
  pf_ReadFault :: "nat \<Rightarrow> string option"
  pf_Systemctl :: "nat \<Rightarrow> string list \<Rightarrow> (string \<times> string) option"
  pf_Locked :: "nat \<Rightarrow> string option"
  pf_Patience :: nat
  pf_Root :: bool
  pf_ConfigDir :: string
  pf_Health :: "string \<Rightarrow> string + nat"
  pf_Enroll :: "string \<Rightarrow> (string \<times> string) list \<Rightarrow> string + nat \<times> string"
  pf_EnrollBody :: "string \<Rightarrow> (string \<times> string) option"
  pf_PutSettings :: "file_settings \<Rightarrow> string"
  pf_GetSettings :: "string \<Rightarrow> file_settings option"
  pf_PutCredentials :: "credentials \<Rightarrow> string"
  pf_GetCredentials :: "string \<Rightarrow> credentials option"
  pf_Url :: url_lib

record host =
  ho_files :: "string \<Rightarrow> string option"
  ho_writes :: nat
  ho_reads :: nat
  ho_cmds :: "string list list"

definition written :: "host \<Rightarrow> host" where
  "written h = h\<lparr>ho_writes := ho_writes h + 1\<rparr>"

definition put_file :: "string \<Rightarrow> string \<Rightarrow> host \<Rightarrow> host" where
  "put_file path body h = h\<lparr>ho_files := (ho_files h)(path \<mapsto> body)\<rparr>"

definition write_file :: "platform \<Rightarrow> string \<Rightarrow> string \<Rightarrow> host \<Rightarrow> host \<times> string option" where
  "write_file P path body h =
     (case pf_Outcome P (ho_writes h) of
        Fine \<Rightarrow> (put_file path body (written h), None)
      | Refused m \<Rightarrow> (written h, Some m)
      | Torn n m \<Rightarrow> (put_file path (take n body) (written h), Some m))"

definition make_dir :: "platform \<Rightarrow> host \<Rightarrow> host \<times> string option" where
  "make_dir P h =
     (case pf_Outcome P (ho_writes h) of Fine \<Rightarrow> (written h, None) | Refused m \<Rightarrow> (written h, Some m) | Torn _ m \<Rightarrow> (written h, Some m))"

text \<open>\<open>os.Remove\<close>, whose callers tolerate a missing file.\<close>

definition removeFile :: "platform \<Rightarrow> string \<Rightarrow> host \<Rightarrow> host \<times> string option" where
  "removeFile P path h =
     (case pf_Outcome P (ho_writes h) of
        Fine \<Rightarrow> ((written h)\<lparr>ho_files := (ho_files h)(path := None)\<rparr>, None)
      | Refused m \<Rightarrow> (written h, Some m)
      | Torn _ m \<Rightarrow> (written h, Some m))"

definition read_file :: "platform \<Rightarrow> string \<Rightarrow> host \<Rightarrow> host \<times> (string + string)" where
  "read_file P path h =
     (h\<lparr>ho_reads := ho_reads h + 1\<rparr>,
      case pf_ReadFault P (ho_reads h) of
        Some m \<Rightarrow> Inl m
      | None \<Rightarrow> (case ho_files h path of
          None \<Rightarrow> Inl (''open '' @ path @ '': no such file or directory'') | Some data \<Rightarrow> Inr data))"

definition fileExisted :: "platform \<Rightarrow> string \<Rightarrow> host \<Rightarrow> host \<times> bool" where
  "fileExisted P path h =
     (h\<lparr>ho_reads := ho_reads h + 1\<rparr>, pf_ReadFault P (ho_reads h) = None \<and> ho_files h path \<noteq> None)"

definition systemctl :: "platform \<Rightarrow> string list \<Rightarrow> host \<Rightarrow> host \<times> (string \<times> string) option" where
  "systemctl P args h = (h\<lparr>ho_cmds := ho_cmds h @ [args]\<rparr>, pf_Systemctl P (length (ho_cmds h)) args)"

subsection \<open>The credential store\<close>

definition complete :: "credentials \<Rightarrow> bool" where
  "complete c \<longleftrightarrow> cd_AgentID c \<noteq> '''' \<and> cd_AgentToken c \<noteq> ''''"

definition store_Save :: "platform \<Rightarrow> string \<Rightarrow> credentials \<Rightarrow> host \<Rightarrow> host \<times> string option" where
  "store_Save P path c h =
     (if \<not> complete c then (h, Some ''refusing to save incomplete credentials'')
      else (case make_dir P h of
          (h1, Some m) \<Rightarrow> (h1, Some (''create credential dir: '' @ m))
        | (h1, None) \<Rightarrow> write_file P path (pf_PutCredentials P c) h1))"

definition store_Load :: "platform \<Rightarrow> string \<Rightarrow> host \<Rightarrow> host \<times> (string + credentials)" where
  "store_Load P path h =
     (case read_file P path h of
        (h1, Inl m) \<Rightarrow> (h1, Inl m)
      | (h1, Inr data) \<Rightarrow>
          (h1, case pf_GetCredentials P data of
             None \<Rightarrow> Inl ''invalid credential file''
           | Some c \<Rightarrow> if complete c then Inr c else Inl ''incomplete credential file''))"

definition store_Delete :: "platform \<Rightarrow> string \<Rightarrow> host \<Rightarrow> host \<times> string option" where
  "store_Delete P path h = removeFile P path h"

subsection \<open>The installer\<close>

record installer =
  is_AgentExeSource :: string
  is_InstallDir :: string
  is_ConfigDir :: string
  is_Store :: "string option"

definition InstalledExePath :: "installer \<Rightarrow> string" where
  "InstalledExePath n = Join2 (is_InstallDir n) ''vaultguard-agent''"

definition ConfigFilePath :: "installer \<Rightarrow> string" where
  "ConfigFilePath n = Join2 (is_ConfigDir n) ''config.json''"

definition systemdUnitPath :: string where
  "systemdUnitPath = ''/etc/systemd/system/vaultguard-agent.service''"

fun ensure_dirs :: "platform \<Rightarrow> string list \<Rightarrow> host \<Rightarrow> host \<times> string option" where
  "ensure_dirs P [] h = (h, None)"
| "ensure_dirs P (d # ds) h =
     (if d = '''' then (h, Some ''installer directory not set'')
      else (case make_dir P h of
          (h1, Some m) \<Rightarrow> (h1, Some (''create directory '' @ d @ '': '' @ m)) | (h1, None) \<Rightarrow> ensure_dirs P ds h1))"

definition EnsureDirs :: "platform \<Rightarrow> installer \<Rightarrow> host \<Rightarrow> host \<times> string option" where
  "EnsureDirs P n h = ensure_dirs P [is_InstallDir n, is_ConfigDir n] h"

definition CopyExecutable :: "platform \<Rightarrow> installer \<Rightarrow> host \<Rightarrow> host \<times> string option" where
  "CopyExecutable P n h =
     (if is_AgentExeSource n = '''' then (h, Some ''agent executable source not set'')
      else (case read_file P (is_AgentExeSource n) h of
          (h1, Inl m) \<Rightarrow> (h1, Some (''open agent executable: '' @ m))
        | (h1, Inr body) \<Rightarrow>
            (case pf_Outcome P (ho_writes h1) of
               Fine \<Rightarrow> (put_file (InstalledExePath n) body (written h1), None)
             | Refused m \<Rightarrow> (written h1, Some (''write agent executable: '' @ m))
             | Torn k m \<Rightarrow> (put_file (InstalledExePath n) (take k body) (written h1), Some (''copy agent executable: '' @ m)))))"

definition WriteConfigFile :: "platform \<Rightarrow> string \<Rightarrow> file_settings \<Rightarrow> host \<Rightarrow> host \<times> string option" where
  "WriteConfigFile P path fs h =
     (case make_dir P h of (h1, Some m) \<Rightarrow> (h1, Some m) | (h1, None) \<Rightarrow> write_file P path (pf_PutSettings P fs) h1)"

definition WriteAgentConfig :: "platform \<Rightarrow> installer \<Rightarrow> string \<Rightarrow> string \<Rightarrow> string \<Rightarrow> host \<Rightarrow> host \<times> string option" where
  "WriteAgentConfig P n serverURL hostname agentID h =
     (case NormalizeServerURL (pf_Url P) serverURL of
        Inl m \<Rightarrow> (h, Some m)
      | Inr addr \<Rightarrow>
          (case ValidateServerURL (pf_Url P) addr of
             Some m \<Rightarrow> (h, Some m)
           | None \<Rightarrow> WriteConfigFile P (ConfigFilePath n)
               \<lparr>fs_ServerURL = addr, fs_Hostname = hostname, fs_PollInterval = '''', fs_AgentID = agentID,
                fs_ConfigVersion = 1\<rparr> h))"

definition SaveCredential :: "platform \<Rightarrow> installer \<Rightarrow> string \<Rightarrow> string \<Rightarrow> host \<Rightarrow> host \<times> string option" where
  "SaveCredential P n agentID token h =
     (case is_Store n of
        None \<Rightarrow> (h, Some ''credential store not configured'')
      | Some path \<Rightarrow> store_Save P path \<lparr>cd_AgentID = agentID, cd_AgentToken = token\<rparr> h)"

definition HasCredential :: "platform \<Rightarrow> installer \<Rightarrow> host \<Rightarrow> host \<times> bool" where
  "HasCredential P n h =
     (case is_Store n of
        None \<Rightarrow> (h, False)
      | Some path \<Rightarrow> (case store_Load P path h of (h1, Inl _) \<Rightarrow> (h1, False) | (h1, Inr c) \<Rightarrow> (h1, complete c)))"

definition ReadConfigFile :: "platform \<Rightarrow> string \<Rightarrow> host \<Rightarrow> host \<times> file_settings option" where
  "ReadConfigFile P path h =
     (case read_file P path h of (h1, Inl _) \<Rightarrow> (h1, None) | (h1, Inr data) \<Rightarrow> (h1, pf_GetSettings P data))"

definition SavedServerURL :: "platform \<Rightarrow> host \<Rightarrow> host \<times> string" where
  "SavedServerURL P h =
     (case ReadConfigFile P (Join2 (pf_ConfigDir P) ''config.json'') h of
        (h1, None) \<Rightarrow> (h1, '''') | (h1, Some fs) \<Rightarrow> (h1, trim_space (fs_ServerURL fs)))"

subsection \<open>The service\<close>

definition lf :: string where "lf = [CHR 0x0A]"

definition SystemdUnit :: "string \<Rightarrow> string \<Rightarrow> string" where
  "SystemdUnit exePath configPath =
     ''[Unit]'' @ lf @ ''Description=VaultGuard Agent'' @ lf @ ''After=network-online.target'' @ lf @
     ''Wants=network-online.target'' @ lf @ lf @
     ''[Service]'' @ lf @ ''Type=simple'' @ lf @ ''ExecStart='' @ exePath @ '' -config '' @ configPath @ lf @
     ''Restart=on-failure'' @ lf @ ''RestartSec=10'' @ lf @ lf @
     ''[Install]'' @ lf @ ''WantedBy=multi-user.target'' @ lf"

definition ctl_error :: "string \<Rightarrow> string \<times> string \<Rightarrow> string" where
  "ctl_error verb e = ''systemctl '' @ verb @ '': '' @ fst e @ '': '' @ snd e"

definition InstallService :: "platform \<Rightarrow> installer \<Rightarrow> host \<Rightarrow> host \<times> string option" where
  "InstallService P n h =
     (case write_file P systemdUnitPath (SystemdUnit (InstalledExePath n) (ConfigFilePath n)) h of
        (h1, Some m) \<Rightarrow> (h1, Some (''write systemd unit (need root?): '' @ m))
      | (h1, None) \<Rightarrow>
          (case systemctl P [''daemon-reload''] h1 of
             (h2, Some e) \<Rightarrow> (h2, Some (ctl_error ''daemon-reload'' e))
           | (h2, None) \<Rightarrow>
               (case systemctl P [''enable'', ''vaultguard-agent''] h2 of
                  (h3, Some e) \<Rightarrow> (h3, Some (ctl_error ''enable'' e)) | (h3, None) \<Rightarrow> (h3, None))))"

definition StartService :: "platform \<Rightarrow> host \<Rightarrow> host \<times> string option" where
  "StartService P h =
     (case systemctl P [''start'', ''vaultguard-agent''] h of
        (h1, Some e) \<Rightarrow> (h1, Some (ctl_error ''start'' e)) | (h1, None) \<Rightarrow> (h1, None))"

definition RestartService :: "platform \<Rightarrow> host \<Rightarrow> host \<times> string option" where
  "RestartService P h =
     (case systemctl P [''restart'', ''vaultguard-agent''] h of
        (h1, Some e) \<Rightarrow> (h1, Some (ctl_error ''restart'' e)) | (h1, None) \<Rightarrow> (h1, None))"

definition StopServiceQuiet :: "platform \<Rightarrow> host \<Rightarrow> host \<times> string option" where
  "StopServiceQuiet P h =
     (case systemctl P [''stop'', ''vaultguard-agent''] h of
        (h1, None) \<Rightarrow> (h1, None)
      | (h1, Some e) \<Rightarrow>
          let msg = to_lower (fst e) in
          if contains ''not found'' msg \<or> contains ''not loaded'' msg \<or> contains ''could not be found'' msg then (h1, None)
          else (h1, Some (ctl_error ''stop'' e)))"

definition UninstallService :: "platform \<Rightarrow> host \<Rightarrow> host \<times> string option" where
  "UninstallService P h =
     (case systemctl P [''disable'', ''vaultguard-agent''] h of
        (h1, r) \<Rightarrow>
          let absent = (case r of None \<Rightarrow> True | Some e \<Rightarrow> let msg = to_lower (fst e) in
                contains ''not found'' msg \<or> contains ''no such file'' msg \<or> contains ''does not exist'' msg) in
          if \<not> absent then (h1, Some (ctl_error ''disable'' (the r)))
          else (case removeFile P systemdUnitPath h1 of
              (h2, Some m) \<Rightarrow> (h2, Some (''remove systemd unit: '' @ m))
            | (h2, None) \<Rightarrow> (fst (systemctl P [''daemon-reload''] h2), None)))"

definition RequireAdmin :: "platform \<Rightarrow> string option" where
  "RequireAdmin P = (if pf_Root P then None else Some (''root privileges required '' @ em_dash @ '' re-run with sudo''))"

fun uninstall_steps :: "(string \<times> string \<times> (host \<Rightarrow> host \<times> string option)) list \<Rightarrow> string list \<Rightarrow> host \<Rightarrow> host \<times> string option" where
  "uninstall_steps [] completed h = (h, None)"
| "uninstall_steps ((step, finished, f) # rest) completed h =
     (case f h of
        (h1, Some m) \<Rightarrow>
          (h1, Some (''uninstall failed at '' @ step @ '': '' @ m @ '' (completed: '' @ join_with '', '' completed @ '')''))
      | (h1, None) \<Rightarrow> uninstall_steps rest (completed @ [finished]) h1)"

definition Uninstall :: "platform \<Rightarrow> installer \<Rightarrow> host \<Rightarrow> host \<times> string option" where
  "Uninstall P n h =
     uninstall_steps
       ([(''stop service'', ''service stopped'', StopServiceQuiet P),
         (''remove service'', ''service removed'', UninstallService P)] @
        (if InstalledExePath n = '''' then []
         else [(''remove agent binary'', ''binary removed'', removeFile P (InstalledExePath n))]) @
        (case is_Store n of None \<Rightarrow> []
         | Some path \<Rightarrow> [(''remove local credential'', ''credential removed'', store_Delete P path)]))
       [] h"

subsection \<open>Enrollment\<close>

record machine_info =
  mi_MachineName :: string
  mi_Platform :: string
  mi_Architecture :: string
  mi_AgentVersion :: string
  mi_OS :: string

definition sanitizeError :: "string \<Rightarrow> string" where
  "sanitizeError msg =
     (let s = take 200 (trim_space (takeWhile (\<lambda>c. c \<noteq> CHR 0x0A) msg)) in if s = '''' then ''unknown error'' else s)"

definition CheckConnectivity :: "platform \<Rightarrow> string \<Rightarrow> string option" where
  "CheckConnectivity P serverURL =
     (case ValidateServerURL (pf_Url P) serverURL of
        Some m \<Rightarrow> Some m
      | None \<Rightarrow>
          (case pf_Health P (JoinURL serverURL [''health'']) of
             Inl m \<Rightarrow> Some (''cannot reach VaultGuard server: '' @ sanitizeError m)
           | Inr code \<Rightarrow>
               if code \<noteq> 200 \<and> code \<noteq> 503
               then Some (''server answered '' @ itoa (int code) @ '', expected the VaultGuard API'') else None))"

definition EnrollMachine :: "platform \<Rightarrow> string \<Rightarrow> string \<Rightarrow> machine_info \<Rightarrow> string + string \<times> string" where
  "EnrollMachine P serverURL token info =
     (if trim_space token = '''' then Inl ''enrollment token is required''
      else (case pf_Enroll P (JoinURL serverURL [''agents'', ''enroll''])
              [(''enrollment_token'', trim_space token), (''machine_name'', mi_MachineName info),
               (''platform'', mi_Platform info), (''architecture'', mi_Architecture info),
               (''agent_version'', mi_AgentVersion info), (''os'', mi_OS info)] of
          Inl m \<Rightarrow> Inl (''enrollment request failed: '' @ sanitizeError m)
        | Inr (code, body) \<Rightarrow>
            if code = 401 then Inl (''enrollment token invalid or expired '' @ em_dash @ '' generate a fresh one in the dashboard'')
            else if code < 200 \<or> 300 \<le> code then Inl (''enrollment failed (server answered '' @ itoa (int code) @ '')'')
            else (case pf_EnrollBody P (take 1048576 body) of
                None \<Rightarrow> Inl ''enrollment response unreadable''
              | Some (aid, atoken) \<Rightarrow>
                  if aid = '''' \<or> atoken = '''' then Inl ''enrollment response incomplete'' else Inr (aid, atoken))))"

subsection \<open>The controller\<close>

record setup_result =
  sr_AgentID :: string
  sr_MachineName :: string

definition no_credential :: string where
  "no_credential = ''no existing agent credential found '' @ em_dash @ '' paste an enrollment token for first-time setup''"

text \<open>Fresh install or upgrade.\<close>

definition planRun :: "string \<Rightarrow> string \<Rightarrow> bool \<Rightarrow> bool \<Rightarrow> string + bool" where
  "planRun saved entered hasToken hasCredential =
     (if saved \<noteq> '''' \<and> saved \<noteq> entered
      then (if \<not> hasToken then Inl (''the server URL has changed '' @ em_dash @ '' this agent must be re-enrolled with the new server, so an enrollment token is required (the existing credential belongs to the previous server and was left untouched)'')
            else Inr True)
      else if hasToken then Inr True
      else if hasCredential then Inr False
      else Inl no_credential)"

definition isNotInstalled :: "string \<Rightarrow> bool" where
  "isNotInstalled e \<longleftrightarrow>
     (let msg = to_lower e in contains ''not installed'' msg \<or> contains ''not found'' msg \<or> contains ''does not exist'' msg)"

definition isAlreadyExists :: "string \<Rightarrow> bool" where
  "isAlreadyExists e \<longleftrightarrow> contains ''already exists'' (to_lower e)"

definition right_arrow :: string where
  "right_arrow = '' '' @ [CHR 0xE2, CHR 0x86, CHR 0x92] @ '' ''"

definition wrapCopyError :: "string \<Rightarrow> string" where
  "wrapCopyError e =
     (let msg = to_lower e in
      if contains ''being used by another process'' msg \<or> contains ''access is denied'' msg
      then ''the installed agent is still running and holding its binary. Stop it first '' @ em_dash @
        '' services.msc'' @ right_arrow @ ''VaultGuardAgent'' @ right_arrow @ ''Stop (or Task Manager'' @ right_arrow @
        ''End task on VaultGuard-Agent.exe) '' @ em_dash @ '' then retry''
      else e)"

text \<open>The polls that fit before the deadline, and one after it.\<close>

fun wait_polls :: "(nat \<Rightarrow> string option) \<Rightarrow> nat \<Rightarrow> nat \<Rightarrow> string option" where
  "wait_polls lock k 0 = lock k"
| "wait_polls lock k (Suc n) = (case lock k of None \<Rightarrow> None | Some _ \<Rightarrow> wait_polls lock (k + 1) n)"

definition waitReplaceable :: "platform \<Rightarrow> string option" where
  "waitReplaceable P = wait_polls (pf_Locked P) 0 (pf_Patience P)"

definition stopAndWait :: "platform \<Rightarrow> host \<Rightarrow> host \<times> string option" where
  "stopAndWait P h = (fst (StopServiceQuiet P h), waitReplaceable P)"

definition host_name :: "machine_info \<Rightarrow> string" where
  "host_name info = (if mi_MachineName info = '''' then ''unknown-host'' else mi_MachineName info)"

text \<open>The binary of an upgrade, if one is to be installed.\<close>

definition replace_binary :: "platform \<Rightarrow> installer \<Rightarrow> host \<Rightarrow> host \<times> string option" where
  "replace_binary P n h =
     (if is_AgentExeSource n = '''' then (h, None)
      else (case stopAndWait P h of
          (h1, Some m) \<Rightarrow> (h1, Some m)
        | (h1, None) \<Rightarrow>
            (case CopyExecutable P n h1 of (h2, Some m) \<Rightarrow> (h2, Some (wrapCopyError m)) | (h2, None) \<Rightarrow> (h2, None))))"

definition stored_agent_id :: "platform \<Rightarrow> installer \<Rightarrow> host \<Rightarrow> host \<times> string" where
  "stored_agent_id P n h =
     (case is_Store n of
        None \<Rightarrow> (h, '''')
      | Some path \<Rightarrow> (case store_Load P path h of (h1, Inl _) \<Rightarrow> (h1, '''') | (h1, Inr c) \<Rightarrow> (h1, cd_AgentID c)))"

definition restart_or_install :: "platform \<Rightarrow> installer \<Rightarrow> host \<Rightarrow> host \<times> string option" where
  "restart_or_install P n h =
     (case RestartService P h of
        (h1, None) \<Rightarrow> (h1, None)
      | (h1, Some m) \<Rightarrow>
          if \<not> isNotInstalled m then (h1, Some m)
          else (case InstallService P n h1 of (h2, Some m) \<Rightarrow> (h2, Some m) | (h2, None) \<Rightarrow> StartService P h2))"

definition runUpgrade :: "platform \<Rightarrow> installer \<Rightarrow> machine_info \<Rightarrow> string \<Rightarrow> host \<Rightarrow> host \<times> (string + setup_result)" where
  "runUpgrade P n info serverURL h =
     (case HasCredential P n h of
        (h1, False) \<Rightarrow> (h1, Inl no_credential)
      | (h1, True) \<Rightarrow>
      (case EnsureDirs P n h1 of
        (h2, Some m) \<Rightarrow> (h2, Inl m)
      | (h2, None) \<Rightarrow>
      (case replace_binary P n h2 of
        (h3, Some m) \<Rightarrow> (h3, Inl m)
      | (h3, None) \<Rightarrow>
      (case stored_agent_id P n h3 of
        (h4, agentID) \<Rightarrow>
      (case WriteAgentConfig P n serverURL (host_name info) agentID h4 of
        (h5, Some m) \<Rightarrow> (h5, Inl m)
      | (h5, None) \<Rightarrow>
      (case restart_or_install P n h5 of
        (h6, Some m) \<Rightarrow> (h6, Inl m)
      | (h6, None) \<Rightarrow> (h6, Inr \<lparr>sr_AgentID = agentID, sr_MachineName = host_name info\<rparr>)))))))"

text \<open>What a fresh installation takes back, newest first, when it fails.\<close>

datatype undo = UndoBinary | UndoConfig | UndoService

fun undo_name :: "undo \<Rightarrow> string" where
  "undo_name UndoBinary = ''agent binary''"
| "undo_name UndoConfig = ''config file''"
| "undo_name UndoService = ''windows service''"

definition run_undo :: "platform \<Rightarrow> installer \<Rightarrow> undo \<Rightarrow> host \<Rightarrow> host \<times> string option" where
  "run_undo P n u h =
     (case u of
        UndoBinary \<Rightarrow> removeFile P (InstalledExePath n) h
      | UndoConfig \<Rightarrow> removeFile P (ConfigFilePath n) h
      | UndoService \<Rightarrow> UninstallService P h)"

fun run_undos :: "platform \<Rightarrow> installer \<Rightarrow> undo list \<Rightarrow> host \<Rightarrow> host \<times> string list" where
  "run_undos P n [] h = (h, [])"
| "run_undos P n (u # us) h =
     (case run_undo P n u h of
        (h1, r) \<Rightarrow> (case run_undos P n us h1 of
          (h2, names) \<Rightarrow> (h2, if r = None then undo_name u # names else names)))"

definition rollback :: "platform \<Rightarrow> installer \<Rightarrow> string \<Rightarrow> undo list \<Rightarrow> host \<Rightarrow> host \<times> (string + setup_result)" where
  "rollback P n cause rollbacks h =
     (case run_undos P n (rev rollbacks) h of
        (h1, undone) \<Rightarrow>
          (h1, Inl (''installation failed: '' @ sanitizeError cause @
             (if undone = [] then ''''
              else '' (rolled back: '' @ join_with '', '' undone @ ''; credential preserved '' @ em_dash @
                '' re-run setup to retry without a new token)''))))"

definition install_binary :: "platform \<Rightarrow> installer \<Rightarrow> host \<Rightarrow> host \<times> string option \<times> undo list" where
  "install_binary P n h =
     (if is_AgentExeSource n = '''' then (h, None, [])
      else (case stopAndWait P h of
          (h1, Some m) \<Rightarrow> (h1, Some m, [])
        | (h1, None) \<Rightarrow>
            (case fileExisted P (InstalledExePath n) h1 of
               (h2, existed) \<Rightarrow>
                 (case CopyExecutable P n h2 of
                    (h3, Some m) \<Rightarrow> (h3, Some (wrapCopyError m), [])
                  | (h3, None) \<Rightarrow> (h3, None, if existed then [] else [UndoBinary])))))"

definition install_config :: "platform \<Rightarrow> installer \<Rightarrow> machine_info \<Rightarrow> string \<Rightarrow> string \<Rightarrow> host \<Rightarrow> host \<times> string option \<times> undo list" where
  "install_config P n info serverURL agentID h =
     (case fileExisted P (ConfigFilePath n) h of
        (h1, existed) \<Rightarrow>
          (case WriteAgentConfig P n serverURL (host_name info) agentID h1 of
             (h2, Some m) \<Rightarrow> (h2, Some m, []) | (h2, None) \<Rightarrow> (h2, None, if existed then [] else [UndoConfig])))"

definition install_service ::
    "platform \<Rightarrow> installer \<Rightarrow> undo list \<Rightarrow> setup_result \<Rightarrow> host \<Rightarrow> host \<times> (string + setup_result)" where
  "install_service P n us result h =
     (case InstallService P n h of
        (h1, r) \<Rightarrow>
          if r \<noteq> None \<and> \<not> isAlreadyExists (the r) then rollback P n (the r) us h1
          else (case StartService P h1 of
              (h2, Some m) \<Rightarrow> rollback P n m (us @ [UndoService]) h2 | (h2, None) \<Rightarrow> (h2, Inr result)))"

definition runFreshInstall ::
    "platform \<Rightarrow> installer \<Rightarrow> machine_info \<Rightarrow> string \<Rightarrow> string \<Rightarrow> host \<Rightarrow> host \<times> (string + setup_result)" where
  "runFreshInstall P n info serverURL token h =
     (case CheckConnectivity P serverURL of
        Some m \<Rightarrow> (h, Inl m)
      | None \<Rightarrow>
      (case EnrollMachine P serverURL token info of
        Inl m \<Rightarrow> (h, Inl m)
      | Inr (agentID, agentToken) \<Rightarrow>
      (case EnsureDirs P n h of
        (h1, Some m) \<Rightarrow> (h1, Inl m)
      | (h1, None) \<Rightarrow>
      (case install_binary P n h1 of
        (h2, Some m, us) \<Rightarrow> rollback P n m us h2
      | (h2, None, us) \<Rightarrow>
      (case install_config P n info serverURL agentID h2 of
        (h3, Some m, _) \<Rightarrow> rollback P n m us h3
      | (h3, None, vs) \<Rightarrow>
      (case SaveCredential P n agentID agentToken h3 of
        (h4, Some m) \<Rightarrow> rollback P n m (us @ vs) h4
      | (h4, None) \<Rightarrow> install_service P n (us @ vs) \<lparr>sr_AgentID = agentID, sr_MachineName = host_name info\<rparr> h4))))))"

definition restored_note :: string where
  "restored_note = '' Previous credential restored '' @ em_dash @ '' the agent still points at the old server''"

definition withCredentialBackup ::
    "platform \<Rightarrow> string \<Rightarrow> (host \<Rightarrow> host \<times> (string + setup_result)) \<Rightarrow> host \<Rightarrow> host \<times> (string + setup_result)" where
  "withCredentialBackup P path fn h =
     (case store_Load P path h of
        (h1, Inl _) \<Rightarrow> fn h1
      | (h1, Inr backup) \<Rightarrow>
          (case fn h1 of
             (h2, Inr r) \<Rightarrow> (h2, Inr r)
           | (h2, Inl m) \<Rightarrow> (fst (store_Save P path backup h2), Inl (m @ restored_note))))"

definition Run :: "platform \<Rightarrow> installer \<Rightarrow> machine_info \<Rightarrow> string \<Rightarrow> string \<Rightarrow> host \<Rightarrow> host \<times> (string + setup_result)" where
  "Run P n info serverURL token h =
     (case NormalizeServerURL (pf_Url P) serverURL of
        Inl m \<Rightarrow> (h, Inl m)
      | Inr addr \<Rightarrow>
      (case ValidateServerURL (pf_Url P) addr of
        Some m \<Rightarrow> (h, Inl m)
      | None \<Rightarrow>
      (case RequireAdmin P of
        Some m \<Rightarrow> (h, Inl m)
      | None \<Rightarrow>
      (case SavedServerURL P h of
        (h1, saved) \<Rightarrow>
      (case HasCredential P n h1 of
        (h2, hasCredential) \<Rightarrow>
      (case planRun saved addr (trim_space token \<noteq> '''') hasCredential of
        Inl m \<Rightarrow> (h2, Inl m)
      | Inr False \<Rightarrow> runUpgrade P n info addr h2
      | Inr True \<Rightarrow>
      (case HasCredential P n h2 of
        (h3, True) \<Rightarrow> withCredentialBackup P (the (is_Store n)) (runFreshInstall P n info addr (trim_space token)) h3
      | (h3, False) \<Rightarrow> runFreshInstall P n info addr (trim_space token) h3)))))))"

subsection \<open>What each step may touch\<close>

lemma files_simps [simp]:
  "ho_files (written h) = ho_files h" "ho_files (put_file path body h) = (ho_files h)(path \<mapsto> body)"
  "ho_writes (written h) = ho_writes h + 1" "ho_writes (put_file path body h) = ho_writes h"
  "ho_files (fst (make_dir P h)) = ho_files h" "ho_files (fst (read_file P path h)) = ho_files h"
  "ho_files (fst (fileExisted P path h)) = ho_files h" "ho_files (fst (systemctl P args h)) = ho_files h"
  by (simp_all add: written_def put_file_def make_dir_def read_file_def fileExisted_def systemctl_def split: outcome.split)

lemma read_file_eq: "read_file P path h = (h', r) \<Longrightarrow> ho_files h' = ho_files h"
  by (auto simp: read_file_def)

lemma make_dir_eq: "make_dir P h = (h', r) \<Longrightarrow> ho_files h' = ho_files h"
  using files_simps(5) [of P h] by simp

lemma systemctl_eq: "systemctl P args h = (h', r) \<Longrightarrow> ho_files h' = ho_files h"
  by (auto simp: systemctl_def)

lemma fileExisted_eq: "fileExisted P path h = (h', r) \<Longrightarrow> ho_files h' = ho_files h"
  by (auto simp: fileExisted_def)

lemma store_Load_eq: "store_Load P path h = (h', r) \<Longrightarrow> ho_files h' = ho_files h"
  by (auto simp: store_Load_def dest: read_file_eq split: prod.splits sum.splits)

lemma HasCredential_eq: "HasCredential P n h = (h', b) \<Longrightarrow> ho_files h' = ho_files h"
  by (auto simp: HasCredential_def dest: store_Load_eq split: option.splits prod.splits sum.splits)

lemma SavedServerURL_eq: "SavedServerURL P h = (h', s) \<Longrightarrow> ho_files h' = ho_files h"
  by (auto simp: SavedServerURL_def ReadConfigFile_def dest: read_file_eq split: option.splits prod.splits sum.splits)

lemma stored_agent_id_eq: "stored_agent_id P n h = (h', s) \<Longrightarrow> ho_files h' = ho_files h"
  by (auto simp: stored_agent_id_def dest: store_Load_eq split: option.splits prod.splits sum.splits)

lemma ensure_dirs_eq: "ensure_dirs P ds h = (h', r) \<Longrightarrow> ho_files h' = ho_files h"
  by (induction P ds h rule: ensure_dirs.induct) (auto dest!: make_dir_eq split: if_splits prod.splits option.splits)

lemma EnsureDirs_eq: "EnsureDirs P n h = (h', r) \<Longrightarrow> ho_files h' = ho_files h"
  unfolding EnsureDirs_def by (rule ensure_dirs_eq)

lemma write_file_other: "write_file P path body h = (h', r) \<Longrightarrow> p \<noteq> path \<Longrightarrow> ho_files h' p = ho_files h p"
  by (auto simp: write_file_def split: outcome.splits)

lemma removeFile_other: "removeFile P path h = (h', r) \<Longrightarrow> p \<noteq> path \<Longrightarrow> ho_files h' p = ho_files h p"
  by (auto simp: removeFile_def split: outcome.splits)

lemma CopyExecutable_other:
  "CopyExecutable P n h = (h', r) \<Longrightarrow> p \<noteq> InstalledExePath n \<Longrightarrow> ho_files h' p = ho_files h p"
  by (auto simp: CopyExecutable_def dest!: read_file_eq split: if_splits prod.splits sum.splits outcome.splits)

lemma WriteAgentConfig_other:
  assumes "WriteAgentConfig P n url host aid h = (h', r)" and "p \<noteq> ConfigFilePath n"
  shows "ho_files h' p = ho_files h p"
  using assms by (auto simp: WriteAgentConfig_def WriteConfigFile_def dest!: make_dir_eq write_file_other [where p = p]
      split: sum.splits option.splits prod.splits)

lemma StopServiceQuiet_eq: "StopServiceQuiet P h = (h', r) \<Longrightarrow> ho_files h' = ho_files h"
  by (auto simp: StopServiceQuiet_def Let_def dest: systemctl_eq split: prod.splits option.splits if_splits)

lemma StartService_eq: "StartService P h = (h', r) \<Longrightarrow> ho_files h' = ho_files h"
  by (auto simp: StartService_def dest: systemctl_eq split: prod.splits option.splits)

lemma RestartService_eq: "RestartService P h = (h', r) \<Longrightarrow> ho_files h' = ho_files h"
  by (auto simp: RestartService_def dest: systemctl_eq split: prod.splits option.splits)

lemma stopAndWait_eq: "stopAndWait P h = (h', r) \<Longrightarrow> ho_files h' = ho_files h"
  using StopServiceQuiet_eq [of P h "fst (StopServiceQuiet P h)" "snd (StopServiceQuiet P h)"] by (auto simp: stopAndWait_def)

lemma InstallService_other:
  assumes "InstallService P n h = (h', r)" and "p \<noteq> systemdUnitPath"
  shows "ho_files h' p = ho_files h p"
  using assms by (auto simp: InstallService_def dest!: systemctl_eq write_file_other [where p = p] split: prod.splits option.splits)

lemma UninstallService_other:
  assumes "UninstallService P h = (h', r)" and "p \<noteq> systemdUnitPath"
  shows "ho_files h' p = ho_files h p"
  using assms by (auto simp: UninstallService_def Let_def dest!: systemctl_eq removeFile_other [where p = p]
      split: prod.splits option.splits if_splits)

text \<open>The files an installation owns; the credential is not among them.\<close>

definition owned :: "installer \<Rightarrow> string set" where
  "owned n = {InstalledExePath n, ConfigFilePath n, systemdUnitPath}"

lemma run_undo_other: "run_undo P n u h = (h', r) \<Longrightarrow> p \<notin> owned n \<Longrightarrow> ho_files h' p = ho_files h p"
  by (cases u) (auto simp: run_undo_def owned_def dest: removeFile_other UninstallService_other)

lemma run_undos_other: "run_undos P n us h = (h', names) \<Longrightarrow> p \<notin> owned n \<Longrightarrow> ho_files h' p = ho_files h p"
proof (induction P n us h arbitrary: h' names rule: run_undos.induct)
  case (1 P n h)
  then show ?case by simp
next
  case (2 P n u us h)
  obtain h1 r where u: "run_undo P n u h = (h1, r)" by (rule prod.exhaust)
  obtain h2 ns where us: "run_undos P n us h1 = (h2, ns)" by (rule prod.exhaust)
  have "h' = h2" using "2.prems"(1) u us by simp
  then show ?case using "2.IH" [OF u [symmetric] us "2.prems"(2)] run_undo_other [OF u "2.prems"(2)] by simp
qed

lemma rollback_other: "rollback P n m us h = (h', r) \<Longrightarrow> p \<notin> owned n \<Longrightarrow> ho_files h' p = ho_files h p"
  by (auto simp: rollback_def dest: run_undos_other split: prod.splits)

lemma rollback_fails: "rollback P n m us h \<noteq> (h', Inr r)"
  by (simp add: rollback_def split: prod.split)

lemma replace_binary_other:
  assumes "replace_binary P n h = (h', r)" and "p \<notin> owned n"
  shows "ho_files h' p = ho_files h p"
  using assms by (auto simp: replace_binary_def owned_def dest!: stopAndWait_eq CopyExecutable_other [where p = p]
      split: if_splits prod.splits option.splits)

lemma restart_or_install_other:
  assumes "restart_or_install P n h = (h', r)" and "p \<noteq> systemdUnitPath"
  shows "ho_files h' p = ho_files h p"
  using assms by (auto simp: restart_or_install_def dest!: RestartService_eq StartService_eq InstallService_other [where p = p]
      split: if_splits prod.splits option.splits)

lemma runUpgrade_other:
  assumes "runUpgrade P n info url h = (h', r)" and "p \<notin> owned n"
  shows "ho_files h' p = ho_files h p"
proof -
  have c: "p \<noteq> ConfigFilePath n" "p \<noteq> systemdUnitPath" using assms(2) by (simp_all add: owned_def)
  show ?thesis
    using assms(1) by (auto simp: runUpgrade_def
        dest!: HasCredential_eq EnsureDirs_eq replace_binary_other [OF _ assms(2)] stored_agent_id_eq
          WriteAgentConfig_other [OF _ c(1)] restart_or_install_other [OF _ c(2)]
        split: prod.splits bool.splits option.splits)
qed

subsection \<open>The credential\<close>

definition credential_at :: "platform \<Rightarrow> installer \<Rightarrow> host \<Rightarrow> credentials \<Rightarrow> bool" where
  "credential_at P n h c \<longleftrightarrow>
     (case is_Store n of
        None \<Rightarrow> False
      | Some path \<Rightarrow> (case ho_files h path of None \<Rightarrow> False | Some data \<Rightarrow> pf_GetCredentials P data = Some c \<and> complete c))"

definition reads_ok :: "platform \<Rightarrow> bool" where
  "reads_ok P \<longleftrightarrow> (\<forall>k. pf_ReadFault P k = None)"

lemma credential_load:
  assumes "reads_ok P" and "credential_at P n h c"
  obtains path h' where "is_Store n = Some path" "store_Load P path h = (h', Inr c)"
proof -
  obtain path data where p: "is_Store n = Some path" "ho_files h path = Some data" "pf_GetCredentials P data = Some c" "complete c"
    using assms(2) by (auto simp: credential_at_def split: option.splits)
  have "pf_ReadFault P (ho_reads h) = None" using assms(1) by (simp add: reads_ok_def)
  then have "store_Load P path h = (h\<lparr>ho_reads := ho_reads h + 1\<rparr>, Inr c)"
    using p by (simp add: store_Load_def read_file_def)
  then show ?thesis using that p(1) by blast
qed

lemma HasCredential_at:
  assumes "reads_ok P" and "credential_at P n h c" and "HasCredential P n h = (h', b)"
  shows b
proof -
  obtain path h1 where l: "is_Store n = Some path" "store_Load P path h = (h1, Inr c)"
    using assms(1,2) by (rule credential_load)
  have "complete c" using assms(2) by (auto simp: credential_at_def split: option.splits)
  then show ?thesis using assms(3) l by (simp add: HasCredential_def)
qed

lemma credential_at_same:
  assumes "credential_at P n h c" and "\<And>path. is_Store n = Some path \<Longrightarrow> ho_files h' path = ho_files h path"
  shows "credential_at P n h' c"
  using assms by (auto simp: credential_at_def split: option.splits)

lemma store_Save_done:
  assumes "store_Save P path c h = (h', r)" and "complete c"
    and "pf_Outcome P (ho_writes h' - 1) = Fine" and "pf_Outcome P (ho_writes h' - 2) = Fine"
  shows "ho_files h' path = Some (pf_PutCredentials P c)"
proof (cases "pf_Outcome P (ho_writes h)")
  case Fine
  then have w: "write_file P path (pf_PutCredentials P c) (written h) = (h', r)"
    using assms(1,2) by (simp add: store_Save_def make_dir_def)
  then have "ho_writes h' = ho_writes h + 2" by (auto simp: write_file_def split: outcome.splits)
  then have "pf_Outcome P (ho_writes h + 1) = Fine" using assms(3) by simp
  then show ?thesis using w by (auto simp: write_file_def)
qed (use assms in \<open>auto simp: store_Save_def make_dir_def\<close>)

text \<open>How a run can fail.\<close>

lemma Run_Inl_cases:
  assumes "Run P n info url token h = (h', Inl m)"
  obtains (untouched) "ho_files h' = ho_files h"
    | (upgraded) h1 u where "ho_files h1 = ho_files h" "runUpgrade P n info u h1 = (h', Inl m)"
    | (guarded) h1 u t where "ho_files h1 = ho_files h"
        "withCredentialBackup P (the (is_Store n)) (runFreshInstall P n info u t) h1 = (h', Inl m)"
    | (unguarded) h0 h1 where "ho_files h0 = ho_files h" "HasCredential P n h0 = (h1, False)"
proof (cases "NormalizeServerURL (pf_Url P) url")
  case (Inl x)
  then show ?thesis using assms untouched by (simp add: Run_def)
next
  case (Inr u)
  obtain h1 saved where s: "SavedServerURL P h = (h1, saved)" by (rule prod.exhaust)
  obtain h2 has where c: "HasCredential P n h1 = (h2, has)" by (rule prod.exhaust)
  obtain h3 again where a: "HasCredential P n h2 = (h3, again)" by (rule prod.exhaust)
  have f: "ho_files h1 = ho_files h" "ho_files h2 = ho_files h" "ho_files h3 = ho_files h"
    using SavedServerURL_eq [OF s] HasCredential_eq [OF c] HasCredential_eq [OF a] by simp_all
  show ?thesis
  proof (cases "ValidateServerURL (pf_Url P) u = None \<and> RequireAdmin P = None")
    case False
    then show ?thesis using assms untouched Inr by (auto simp: Run_def split: option.splits)
  next
    case True
    show ?thesis
    proof (cases "planRun saved u (trim_space token \<noteq> '''') has")
      case (Inl x)
      then show ?thesis using assms untouched f True Inr s c by (simp add: Run_def)
    next
      case plan: (Inr fresh)
      show ?thesis
      proof (cases fresh)
        case False
        then show ?thesis using assms upgraded f True Inr s c plan by (simp add: Run_def)
      next
        case fresh: True
        show ?thesis
        proof (cases again)
          case False
          then show ?thesis using unguarded [of h2 h3] f a by simp
        next
          case again: True
          then have "withCredentialBackup P (the (is_Store n)) (runFreshInstall P n info u (trim_space token)) h3 = (h', Inl m)"
            using assms True Inr s c a plan fresh by (simp add: Run_def)
          then show ?thesis using guarded f by blast
        qed
      qed
    qed
  qed
qed

text \<open>C28. A failed run of the setup never costs the machine its credential: where an agent was enrolled before, it still is
  with the same id and token, whatever failed and whatever the setup had already written, provided the files can be read
  and the last two file operations, those that put the credential back, succeed.\<close>

theorem failed_setup_keeps_credential:
  assumes "Run P n info url token h = (h', Inl m)" and "credential_at P n h c" and "reads_ok P"
    and "pf_GetCredentials P (pf_PutCredentials P c) = Some c" and "\<forall>path. is_Store n = Some path \<longrightarrow> path \<notin> owned n"
    and "pf_Outcome P (ho_writes h' - 1) = Fine" and "pf_Outcome P (ho_writes h' - 2) = Fine"
  shows "credential_at P n h' c"
  using assms(1)
proof (cases rule: Run_Inl_cases)
  case untouched
  then show ?thesis using credential_at_same [OF assms(2)] by simp
next
  case (upgraded h1 u)
  show ?thesis
    by (rule credential_at_same [OF assms(2)]) (use upgraded assms(5) runUpgrade_other in metis)
next
  case (guarded h1 u t)
  have "credential_at P n h1 c" by (rule credential_at_same [OF assms(2)]) (use guarded in simp)
  then obtain path h2 where l: "is_Store n = Some path" "store_Load P path h1 = (h2, Inr c)"
    using assms(3) credential_load by metis
  obtain h3 r where r: "runFreshInstall P n info u t h2 = (h3, r)" by (rule prod.exhaust)
  have comp: "complete c" using assms(2) by (auto simp: credential_at_def split: option.splits)
  obtain x where "store_Save P path c h3 = (h', x)"
    using guarded(2) l r by (cases r) (auto simp: withCredentialBackup_def prod_eq_iff)
  then have "ho_files h' path = Some (pf_PutCredentials P c)" using comp assms(6,7) by (rule store_Save_done)
  then show ?thesis using l(1) comp assms(4) by (simp add: credential_at_def)
next
  case (unguarded h0 h1)
  have "credential_at P n h0 c" by (rule credential_at_same [OF assms(2)]) (use unguarded in simp)
  then show ?thesis using HasCredential_at [OF assms(3) _ unguarded(2)] by blast
qed

text \<open>An upgrade, a successful run without a token, keeps the agent's identity.\<close>

lemma store_Load_found:
  assumes "store_Load P path h = (h1, Inr c)"
  obtains data where "ho_files h path = Some data" "pf_GetCredentials P data = Some c" "complete c"
proof -
  obtain h2 r where r: "read_file P path h = (h2, r)" by (rule prod.exhaust)
  then obtain data where d: "r = Inr data" using assms by (cases r) (simp_all add: store_Load_def)
  have "pf_GetCredentials P data = Some c \<and> complete c"
    using assms r d by (simp add: store_Load_def split: option.split_asm if_split_asm)
  moreover have "ho_files h path = Some data"
    using r d by (simp add: read_file_def split: option.split_asm)
  ultimately show ?thesis using that by blast
qed

lemma HasCredential_exists:
  assumes "HasCredential P n h = (h', True)"
  obtains c where "credential_at P n h c"
proof -
  obtain path where p: "is_Store n = Some path" using assms by (cases "is_Store n") (simp_all add: HasCredential_def)
  obtain h1 r where l: "store_Load P path h = (h1, r)" by (rule prod.exhaust)
  obtain c where "r = Inr c" using assms p l by (cases r) (simp_all add: HasCredential_def)
  with l obtain data where "ho_files h path = Some data" "pf_GetCredentials P data = Some c" "complete c"
    using store_Load_found by metis
  then show ?thesis using that p by (simp add: credential_at_def)
qed

lemma stored_agent_id_at:
  assumes "reads_ok P" and "credential_at P n h c"
  obtains h' where "stored_agent_id P n h = (h', cd_AgentID c)"
proof -
  obtain path h1 where "is_Store n = Some path" "store_Load P path h = (h1, Inr c)"
    using assms by (rule credential_load)
  then show ?thesis using that by (simp add: stored_agent_id_def)
qed

lemma write_file_done: "write_file P path body h = (h', None) \<Longrightarrow> ho_files h' path = Some body"
  by (cases "pf_Outcome P (ho_writes h)") (auto simp: write_file_def)

lemma WriteConfigFile_done:
  assumes "WriteConfigFile P path fs h = (h', None)"
  shows "ho_files h' path = Some (pf_PutSettings P fs)"
proof -
  obtain h1 r where "make_dir P h = (h1, r)" by (rule prod.exhaust)
  then have "write_file P path (pf_PutSettings P fs) h1 = (h', None)"
    using assms by (cases r) (simp_all add: WriteConfigFile_def)
  then show ?thesis by (rule write_file_done)
qed

lemma WriteAgentConfig_done:
  assumes "WriteAgentConfig P n url host aid h = (h', None)"
  obtains fs where "NormalizeServerURL (pf_Url P) url = Inr (fs_ServerURL fs)" "fs_AgentID fs = aid"
    "ho_files h' (ConfigFilePath n) = Some (pf_PutSettings P fs)"
proof (cases "NormalizeServerURL (pf_Url P) url")
  case (Inl x)
  then show ?thesis using assms by (simp add: WriteAgentConfig_def)
next
  case (Inr addr)
  let ?fs = "\<lparr>fs_ServerURL = addr, fs_Hostname = host, fs_PollInterval = '''', fs_AgentID = aid, fs_ConfigVersion = 1\<rparr>"
  have "WriteConfigFile P (ConfigFilePath n) ?fs h = (h', None)"
    using assms Inr by (cases "ValidateServerURL (pf_Url P) addr") (simp_all add: WriteAgentConfig_def)
  from WriteConfigFile_done [OF this] show ?thesis using that [of ?fs] Inr by simp
qed

lemma runUpgrade_Inr:
  assumes "runUpgrade P n info u h = (h', Inr res)"
  obtains h1 h2 h3 h4 h5 aid where "HasCredential P n h = (h1, True)" "EnsureDirs P n h1 = (h2, None)"
    "replace_binary P n h2 = (h3, None)" "stored_agent_id P n h3 = (h4, aid)"
    "WriteAgentConfig P n u (host_name info) aid h4 = (h5, None)" "restart_or_install P n h5 = (h', None)"
    "res = \<lparr>sr_AgentID = aid, sr_MachineName = host_name info\<rparr>"
  using assms by (auto simp: runUpgrade_def split: prod.splits bool.splits option.splits)

lemma Run_upgrade:
  assumes "Run P n info url token h = (h', Inr res)" and "trim_space token = ''''"
  obtains h1 addr where "ho_files h1 = ho_files h" "NormalizeServerURL (pf_Url P) url = Inr addr"
    "ValidateServerURL (pf_Url P) addr = None" "runUpgrade P n info addr h1 = (h', Inr res)"
proof -
  obtain addr where addr: "NormalizeServerURL (pf_Url P) url = Inr addr" "ValidateServerURL (pf_Url P) addr = None"
    "RequireAdmin P = None"
    using assms(1) by (auto simp: Run_def split: sum.splits option.splits)
  obtain h1 saved where s: "SavedServerURL P h = (h1, saved)" by (rule prod.exhaust)
  obtain h2 has where c: "HasCredential P n h1 = (h2, has)" by (rule prod.exhaust)
  have no: "planRun saved addr False has \<noteq> Inr True" by (simp add: planRun_def)
  have "planRun saved addr False has = Inr False"
  proof (cases "planRun saved addr False has")
    case (Inl x)
    then show ?thesis using assms addr s c by (simp add: Run_def)
  next
    case (Inr b)
    then show ?thesis using no by (cases b) simp_all
  qed
  then have "runUpgrade P n info addr h2 = (h', Inr res)" using assms addr s c by (simp add: Run_def)
  moreover have "ho_files h2 = ho_files h" using SavedServerURL_eq [OF s] HasCredential_eq [OF c] by simp
  ultimately show ?thesis using that addr by blast
qed

text \<open>An upgrade keeps the agent: a successful run without a token leaves the stored credential as it was, reports its
  agent id and writes that id and the canonical server address into the configuration.\<close>

theorem upgrade_preserves_identity:
  assumes "Run P n info url token h = (h', Inr res)" and "trim_space token = ''''" and "reads_ok P"
    and "\<forall>path. is_Store n = Some path \<longrightarrow> path \<notin> owned n" and "ConfigFilePath n \<noteq> systemdUnitPath"
  shows "\<exists>c addr fs. credential_at P n h c \<and> credential_at P n h' c \<and> sr_AgentID res = cd_AgentID c \<and>
    NormalizeServerURL (pf_Url P) url = Inr addr \<and> NormalizeServerURL (pf_Url P) addr = Inr (fs_ServerURL fs) \<and>
    ho_files h' (ConfigFilePath n) = Some (pf_PutSettings P fs) \<and> fs_AgentID fs = cd_AgentID c"
proof -
  obtain h0 addr where a: "ho_files h0 = ho_files h" "NormalizeServerURL (pf_Url P) url = Inr addr"
    and up: "runUpgrade P n info addr h0 = (h', Inr res)"
    using assms(1,2) by (rule Run_upgrade)
  obtain h1 h2 h3 h4 h5 aid where st: "HasCredential P n h0 = (h1, True)" "EnsureDirs P n h1 = (h2, None)"
    "replace_binary P n h2 = (h3, None)" "stored_agent_id P n h3 = (h4, aid)"
    "WriteAgentConfig P n addr (host_name info) aid h4 = (h5, None)" "restart_or_install P n h5 = (h', None)"
    and res: "res = \<lparr>sr_AgentID = aid, sr_MachineName = host_name info\<rparr>"
    using up by (rule runUpgrade_Inr)
  obtain c where c: "credential_at P n h0 c" using st(1) by (rule HasCredential_exists)
  have "credential_at P n h c" by (rule credential_at_same [OF c]) (simp add: a)
  moreover have "credential_at P n h' c"
    by (rule credential_at_same [OF c]) (use assms(4) runUpgrade_other [OF up] in blast)
  moreover have "credential_at P n h3 c"
    by (rule credential_at_same [OF c])
      (use assms(4) HasCredential_eq [OF st(1)] EnsureDirs_eq [OF st(2)] replace_binary_other [OF st(3)] in metis)
  then obtain h9 where "stored_agent_id P n h3 = (h9, cd_AgentID c)" using assms(3) stored_agent_id_at by blast
  then have "aid = cd_AgentID c" using st(4) by simp
  moreover obtain fs where w: "NormalizeServerURL (pf_Url P) addr = Inr (fs_ServerURL fs)" "fs_AgentID fs = aid"
    "ho_files h5 (ConfigFilePath n) = Some (pf_PutSettings P fs)"
    using st(5) by (rule WriteAgentConfig_done)
  moreover have "ho_files h' (ConfigFilePath n) = ho_files h5 (ConfigFilePath n)"
    using restart_or_install_other [OF st(6)] assms(5) by simp
  moreover have "sr_AgentID res = aid" by (simp add: res)
  ultimately show ?thesis using a(2) by metis
qed

subsection \<open>A machine that moves to a new server\<close>

text \<open>A concrete machine for the witnesses: enrolled with one server, its service installed, the binary staged.\<close>

definition config_path :: string where "config_path = ''/c/config.json''"
definition key_path :: string where "key_path = ''/k''"
definition old_url :: string where "old_url = ''https://o''"
definition new_url :: string where "new_url = ''https://n''"

definition toy_installer :: installer where
  "toy_installer = \<lparr>is_AgentExeSource = '''', is_InstallDir = ''/o'', is_ConfigDir = ''/c'', is_Store = Some key_path\<rparr>"

definition toy_info :: machine_info where
  "toy_info = \<lparr>mi_MachineName = ''db1'', mi_Platform = ''linux'', mi_Architecture = ''amd64'', mi_AgentVersion = ''1'', mi_OS = ''linux''\<rparr>"

definition settings_for :: "string \<Rightarrow> string \<Rightarrow> file_settings" where
  "settings_for u a = \<lparr>fs_ServerURL = u, fs_Hostname = ''db1'', fs_PollInterval = '''', fs_AgentID = a, fs_ConfigVersion = 1\<rparr>"

definition lines_of :: "string \<Rightarrow> string \<Rightarrow> string" where
  "lines_of a b = a @ lf @ b"

definition toy_platform :: "bool \<Rightarrow> platform" where
  "toy_platform starts =
     \<lparr>pf_Outcome = (\<lambda>_. Fine), pf_ReadFault = (\<lambda>_. None),
      pf_Systemctl = (\<lambda>_ args. if hd args = ''start'' \<and> \<not> starts then Some (''failed'', ''exit status 1'') else None),
      pf_Locked = (\<lambda>_. None), pf_Patience = 60, pf_Root = True, pf_ConfigDir = ''/c'',
      pf_Health = (\<lambda>_. Inr 200), pf_Enroll = (\<lambda>_ _. Inr (201, '''')), pf_EnrollBody = (\<lambda>_. Some (''a2'', ''s2'')),
      pf_PutSettings = (\<lambda>fs. lines_of (fs_ServerURL fs) (fs_AgentID fs)),
      pf_GetSettings = (\<lambda>s. case split_on (CHR 0x0A) s of [u, a] \<Rightarrow> Some (settings_for u a) | _ \<Rightarrow> None),
      pf_PutCredentials = (\<lambda>c. lines_of (cd_AgentID c) (cd_AgentToken c)),
      pf_GetCredentials = (\<lambda>s. case split_on (CHR 0x0A) s of
         [i, t] \<Rightarrow> Some \<lparr>cd_AgentID = i, cd_AgentToken = t\<rparr> | _ \<Rightarrow> None),
      pf_Url = toy_url\<rparr>"

definition old_credential :: credentials where
  "old_credential = \<lparr>cd_AgentID = ''a1'', cd_AgentToken = ''s1''\<rparr>"

definition old_text :: string where "old_text = lines_of ''a1'' ''s1''"

definition enrolled_host :: host where
  "enrolled_host =
     \<lparr>ho_files = [config_path \<mapsto> lines_of old_url ''a1'', key_path \<mapsto> old_text, systemdUnitPath \<mapsto> ''unit''],
      ho_writes = 0, ho_reads = 0, ho_cmds = []\<rparr>"

definition failed_move :: "host \<times> (string + setup_result)" where
  "failed_move = Run (toy_platform False) toy_installer toy_info new_url ''t1'' enrolled_host"

lemma toy_steps [simp]:
  "pf_Outcome (toy_platform b) k = Fine" "pf_ReadFault (toy_platform b) k = None"
  "pf_Systemctl (toy_platform b) k args = (if hd args = ''start'' \<and> \<not> b then Some (''failed'', ''exit status 1'') else None)"
  "pf_Root (toy_platform b)" "pf_ConfigDir (toy_platform b) = ''/c''" "pf_Health (toy_platform b) u = Inr 200"
  "pf_Enroll (toy_platform b) u kvs = Inr (201, '''')" "pf_EnrollBody (toy_platform b) t = Some (''a2'', ''s2'')"
  "pf_Url (toy_platform b) = toy_url" "pf_PutSettings (toy_platform b) fs = lines_of (fs_ServerURL fs) (fs_AgentID fs)"
  "pf_PutCredentials (toy_platform b) c = lines_of (cd_AgentID c) (cd_AgentToken c)"
  by (simp_all add: toy_platform_def)

lemma toy_eval [simp]:
  "NormalizeServerURL toy_url new_url = Inr new_url" "ValidateServerURL toy_url new_url = None"
  "NormalizeServerURL toy_url old_url = Inr old_url" "ValidateServerURL toy_url old_url = None"
  "ConfigFilePath toy_installer = config_path"
  "Join2 ''/c'' ''config.json'' = config_path" "trim_space ''t1'' = ''t1''" "trim_space '''' = ''''"
  "trim_space old_url = old_url" "trim_space new_url = new_url" "old_url \<noteq> new_url" "old_url \<noteq> ''''" "new_url \<noteq> ''''"
  by code_simp+

lemma toy_paths [simp]:
  "config_path \<noteq> key_path" "key_path \<noteq> config_path" "config_path \<noteq> systemdUnitPath" "systemdUnitPath \<noteq> config_path"
  "key_path \<noteq> systemdUnitPath" "systemdUnitPath \<noteq> key_path" "key_path \<noteq> InstalledExePath toy_installer"
  "is_Store toy_installer = Some key_path" "is_AgentExeSource toy_installer = ''''"
  by code_simp+

lemma toy_codec [simp]:
  "pf_GetCredentials (toy_platform b) old_text = Some old_credential"
  "pf_GetSettings (toy_platform b) (lines_of old_url ''a1'') = Some (settings_for old_url ''a1'')"
  "pf_GetSettings (toy_platform b) (lines_of new_url ''a2'') = Some (settings_for new_url ''a2'')"
  by (simp_all add: toy_platform_def lines_of_def lf_def old_credential_def old_text_def old_url_def new_url_def)

lemma old_credential_facts [simp]:
  "complete old_credential" "lines_of (cd_AgentID old_credential) (cd_AgentToken old_credential) = old_text"
  by (simp_all add: complete_def old_credential_def old_text_def)

lemma enrolled_files [simp]:
  "ho_files enrolled_host key_path = Some old_text" "ho_files enrolled_host config_path = Some (lines_of old_url ''a1'')"
  by (simp_all add: enrolled_host_def)

text \<open>The steps of the machine, each a change of its files.\<close>

definition reread :: "host \<Rightarrow> host" where "reread h = h\<lparr>ho_reads := ho_reads h + 1\<rparr>"

lemma reread_files [simp]: "ho_files (reread h) = ho_files h" by (simp add: reread_def)

lemma toy_write [simp]:
  "make_dir (toy_platform b) h = (written h, None)"
  "write_file (toy_platform b) p t h = (put_file p t (written h), None)"
  "fileExisted (toy_platform b) p h = (reread h, ho_files h p \<noteq> None)"
  by (simp_all add: make_dir_def write_file_def fileExisted_def reread_def)

lemma toy_read: "ho_files h p = Some t \<Longrightarrow> read_file (toy_platform b) p h = (reread h, Inr t)"
  by (simp add: read_file_def reread_def)

lemma toy_load: "ho_files h key_path = Some old_text \<Longrightarrow> store_Load (toy_platform b) key_path h = (reread h, Inr old_credential)"
  by (simp add: store_Load_def toy_read)

lemma toy_has: "ho_files h key_path = Some old_text \<Longrightarrow> HasCredential (toy_platform b) toy_installer h = (reread h, True)"
  by (simp add: HasCredential_def toy_load)

lemma toy_saved: "SavedServerURL (toy_platform b) enrolled_host = (reread enrolled_host, old_url)"
  by (simp add: SavedServerURL_def ReadConfigFile_def toy_read) (simp add: settings_for_def)

lemma toy_dirs: "EnsureDirs (toy_platform b) toy_installer h = (written (written h), None)"
  by (simp add: EnsureDirs_def) (simp add: toy_installer_def)

lemma toy_config:
  "u = new_url \<or> u = old_url \<Longrightarrow> WriteAgentConfig (toy_platform b) toy_installer u m a h =
     (put_file config_path (lines_of u a) (written (written h)), None)"
  by (auto simp: WriteAgentConfig_def WriteConfigFile_def)

lemma toy_save:
  "complete c \<Longrightarrow> store_Save (toy_platform b) key_path c h =
     (put_file key_path (lines_of (cd_AgentID c) (cd_AgentToken c)) (written (written h)), None)"
  by (simp add: store_Save_def)

lemma toy_install:
  obtains h' t where "InstallService (toy_platform b) toy_installer h = (h', None)"
    "ho_files h' = (ho_files h)(systemdUnitPath \<mapsto> t)"
  by (simp add: InstallService_def systemctl_def)

lemma toy_start:
  obtains h' m where "StartService (toy_platform False) h = (h', Some m)" "ho_files h' = ho_files h"
  by (simp add: StartService_def systemctl_def)

lemma toy_uninstall:
  obtains h' where "UninstallService (toy_platform b) h = (h', None)" "ho_files h' = (ho_files h)(systemdUnitPath := None)"
  by (simp add: UninstallService_def removeFile_def systemctl_def)

lemma toy_enroll:
  "CheckConnectivity (toy_platform b) new_url = None"
  "EnrollMachine (toy_platform b) new_url ''t1'' toy_info = Inr (''a2'', ''s2'')"
  by (simp_all add: CheckConnectivity_def EnrollMachine_def)

lemma failed_move_facts:
  obtains h' m where "failed_move = (h', Inl m)" "ho_files h' config_path = Some (lines_of new_url ''a2'')"
    "ho_files h' key_path = Some old_text" "ho_files h' systemdUnitPath = None"
proof -
  let ?P = "toy_platform False" and ?n = toy_installer
  define h1 where "h1 = reread (reread (reread enrolled_host))"
  have f1: "ho_files h1 = ho_files enrolled_host" by (simp add: h1_def)
  have plan: "planRun old_url new_url True b = Inr True" for b by (simp add: planRun_def)
  have "failed_move = withCredentialBackup ?P key_path (runFreshInstall ?P ?n toy_info new_url ''t1'') h1"
    by (simp add: failed_move_def Run_def toy_saved toy_has plan RequireAdmin_def h1_def)
  moreover define h2 where "h2 = reread h1"
  ultimately have m: "failed_move = (case runFreshInstall ?P ?n toy_info new_url ''t1'' h2 of
      (h, Inr r) \<Rightarrow> (h, Inr r) | (h, Inl m) \<Rightarrow> (fst (store_Save ?P key_path old_credential h), Inl (m @ restored_note)))"
    by (simp add: withCredentialBackup_def toy_load f1)
  define h3 where "h3 = put_file key_path (lines_of ''a2'' ''s2'') (written (written
      (put_file config_path (lines_of new_url ''a2'') (written (written (reread (written (written h2))))))))"
  have "SaveCredential ?P ?n ''a2'' ''s2'' h = (put_file key_path (lines_of ''a2'' ''s2'') (written (written h)), None)" for h
    by (simp add: SaveCredential_def toy_save complete_def)
  then have fresh: "runFreshInstall ?P ?n toy_info new_url ''t1'' h2 =
      install_service ?P ?n [] \<lparr>sr_AgentID = ''a2'', sr_MachineName = host_name toy_info\<rparr> h3"
    by (simp add: runFreshInstall_def toy_enroll toy_dirs install_binary_def install_config_def toy_config h3_def f1 h2_def)
  obtain h4 t where i: "InstallService ?P ?n h3 = (h4, None)" "ho_files h4 = (ho_files h3)(systemdUnitPath \<mapsto> t)"
    by (rule toy_install)
  obtain h5 e where s: "StartService ?P h4 = (h5, Some e)" "ho_files h5 = ho_files h4"
    by (rule toy_start)
  obtain h6 where u: "UninstallService ?P h5 = (h6, None)" "ho_files h6 = (ho_files h5)(systemdUnitPath := None)"
    by (rule toy_uninstall)
  obtain msg where "runFreshInstall ?P ?n toy_info new_url ''t1'' h2 = (h6, Inl msg)"
    using fresh i(1) s(1) u(1) by (simp add: install_service_def rollback_def run_undo_def)
  then have "failed_move = (put_file key_path old_text (written (written h6)), Inl (msg @ restored_note))"
    using m by (simp add: toy_save)
  then show ?thesis
    by (rule that) (simp_all add: u(2) s(2) i(2) h3_def)
qed

theorem failed_setup_keeps_credential_witness:
  "(\<exists>m. snd failed_move = Inl m) \<and> credential_at (toy_platform False) toy_installer (fst failed_move) old_credential"
proof -
  obtain h' m where m: "failed_move = (h', Inl m)" by (rule failed_move_facts)
  have o: "\<And>path. is_Store toy_installer = Some path \<Longrightarrow> path \<notin> owned toy_installer" by (simp add: owned_def)
  have c: "credential_at (toy_platform False) toy_installer enrolled_host old_credential" by (simp add: credential_at_def)
  have r: "reads_ok (toy_platform False)" by (simp add: reads_ok_def)
  have g: "pf_GetCredentials (toy_platform False) (pf_PutCredentials (toy_platform False) old_credential) = Some old_credential"
    by simp
  have "credential_at (toy_platform False) toy_installer h' old_credential"
    using failed_setup_keeps_credential [OF m [unfolded failed_move_def] c r g] o by simp
  then show ?thesis unfolding m by simp
qed

text \<open>What that failed move leaves behind.  The configuration names the new server while the old credential is back in
  place, although the message says the agent still points at the old server; and the service that was installed before
  is gone, although only what this run installed should be rolled back.  A later run without a token then counts as an
  upgrade and hands the old server's credential to the new one.\<close>

lemma failed_move_strands_config:
  "map_option (map_option fs_ServerURL \<circ> pf_GetSettings (toy_platform False))
     (ho_files (fst failed_move) (ConfigFilePath toy_installer)) = Some (Some new_url)"
proof -
  obtain h' m where m: "failed_move = (h', Inl m)" and f: "ho_files h' config_path = Some (lines_of new_url ''a2'')"
    by (rule failed_move_facts)
  show ?thesis unfolding m by (simp add: f settings_for_def)
qed

lemma failed_move_removes_service: "ho_files (fst failed_move) systemdUnitPath = None"
proof -
  obtain h' m where m: "failed_move = (h', Inl m)" and f: "ho_files h' systemdUnitPath = None" by (rule failed_move_facts)
  show ?thesis unfolding m by (simp add: f)
qed

lemma retry_counts_as_upgrade: "planRun new_url new_url False True = Inr False"
  by (simp add: planRun_def)

definition upgrade :: "host \<times> (string + setup_result)" where
  "upgrade = Run (toy_platform True) toy_installer toy_info old_url '''' enrolled_host"

lemma toy_restart:
  obtains h' where "RestartService (toy_platform b) h = (h', None)" "ho_files h' = ho_files h"
  by (simp add: RestartService_def systemctl_def)

lemma upgrade_succeeds:
  obtains h' where "upgrade = (h', Inr \<lparr>sr_AgentID = ''a1'', sr_MachineName = host_name toy_info\<rparr>)"
proof -
  let ?P = "toy_platform True" and ?n = toy_installer
  define h1 where "h1 = reread (reread enrolled_host)"
  have f1: "ho_files h1 = ho_files enrolled_host" by (simp add: h1_def)
  have plan: "planRun old_url old_url False True = Inr False" by (simp add: planRun_def)
  have up: "upgrade = runUpgrade ?P ?n toy_info old_url h1"
    by (simp add: upgrade_def Run_def toy_saved toy_has plan RequireAdmin_def h1_def)
  have id: "stored_agent_id ?P ?n h = (reread h, ''a1'')" if "ho_files h key_path = Some old_text" for h
    using that by (simp add: stored_agent_id_def toy_load) (simp add: old_credential_def)
  define h4 where "h4 = put_file config_path (lines_of old_url ''a1'') (written (written (reread (written (written (reread h1))))))"
  obtain h5 where "RestartService ?P h4 = (h5, None)" "ho_files h5 = ho_files h4" by (rule toy_restart)
  then have "runUpgrade ?P ?n toy_info old_url h1 = (h5, Inr \<lparr>sr_AgentID = ''a1'', sr_MachineName = host_name toy_info\<rparr>)"
    by (simp add: runUpgrade_def toy_has f1 toy_dirs replace_binary_def id toy_config restart_or_install_def h4_def)
  from up [unfolded this] show ?thesis by (rule that)
qed

theorem upgrade_preserves_identity_witness:
  "\<exists>h' res. upgrade = (h', Inr res) \<and> credential_at (toy_platform True) toy_installer h' old_credential \<and> sr_AgentID res = ''a1''"
proof -
  let ?P = "toy_platform True" and ?n = toy_installer
  obtain h' where r: "upgrade = (h', Inr \<lparr>sr_AgentID = ''a1'', sr_MachineName = host_name toy_info\<rparr>)"
    by (rule upgrade_succeeds)
  have o: "\<And>path. is_Store toy_installer = Some path \<Longrightarrow> path \<notin> owned toy_installer" by (simp add: owned_def)
  have ok: "reads_ok ?P" by (simp add: reads_ok_def)
  have at: "credential_at ?P ?n enrolled_host old_credential" by (simp add: credential_at_def)
  obtain c where c: "credential_at ?P ?n enrolled_host c" "credential_at ?P ?n h' c"
    using upgrade_preserves_identity [OF r [unfolded upgrade_def] _ ok] o by auto
  have "c = old_credential" using c(1) at by (simp add: credential_at_def)
  then show ?thesis using c(2) unfolding r by simp
qed

end
