(* ===== verification/Startup.thy ===== *)
theory Startup
  imports Installer
begin

text \<open>
  How an installed agent starts: \<open>LoadConfig\<close> of \<open>agent/internal/agent/config.go\<close> (environment over configuration
  file over defaults), \<open>ResolveCredentials\<close> of \<open>credentials.go\<close> with the state file of older installations, and the
  folder browser \<open>browse.go\<close>.  The files are those of the setup program's host.  The environment (after
  \<open>agent.env\<close>), the host name, \<open>time.ParseDuration\<close>, the JSON library and the HTTP exchange are parameters; a start
  also yields the requests it made.  Unix paths only.
\<close>

subsection \<open>Configuration\<close>

record environment =
  en_Getenv :: "string \<Rightarrow> string"
  en_Hostname :: "string option"
  en_Executable :: "string option"
  en_Duration :: "string \<Rightarrow> int option"
  en_LaxSettings :: "string \<Rightarrow> file_settings"
  en_PutState :: "credentials \<Rightarrow> string"
  en_GetState :: "string \<Rightarrow> credentials option"
  en_Post :: "string \<Rightarrow> (string \<times> string) list \<Rightarrow> string + string"
  en_Reply :: "string \<Rightarrow> string + credentials"
  en_OS :: string
  en_Arch :: string
  en_OutboundIP :: string

record agent_config =
  cf_Server :: string
  cf_RegistrationKey :: string
  cf_EnrollmentToken :: string
  cf_ConfigFile :: string
  cf_StateFile :: string
  cf_Hostname :: string
  cf_PollInterval :: int
  cf_BrowseAddr :: string
  cf_BrowseToken :: string
  cf_DashboardOrigin :: string
  cf_PG :: pg_config
  cf_MSSQL :: mssql_config
  cf_MongoURI :: string
  cf_TLSSkipVerify :: bool
  cf_JobTimeout :: int

definition Version :: string where "Version = ''0.4.0''"

fun firstNonEmpty :: "string list \<Rightarrow> string" where
  "firstNonEmpty [] = ''''"
| "firstNonEmpty (v # vs) = (if v \<noteq> '''' then v else firstNonEmpty vs)"

definition defaultHostname :: "environment \<Rightarrow> string" where
  "defaultHostname E = (case en_Hostname E of None \<Rightarrow> ''unknown-host'' | Some h \<Rightarrow> if h \<noteq> '''' then h else ''unknown-host'')"

definition path_dir :: "string \<Rightarrow> string" where
  "path_dir p = Clean (rev (dropWhile (\<lambda>c. c \<noteq> sep) (rev p)))"

definition CredentialDir :: "platform \<Rightarrow> environment \<Rightarrow> string" where
  "CredentialDir P E = (let d = en_Getenv E ''AGENT_CREDENTIAL_DIR'' in if d \<noteq> '''' then d else pf_ConfigDir P)"

definition DefaultConfigFile :: "platform \<Rightarrow> string" where
  "DefaultConfigFile P = Join2 (pf_ConfigDir P) ''config.json''"

definition configFilePath :: "platform \<Rightarrow> environment \<Rightarrow> string" where
  "configFilePath P E = (let p = en_Getenv E ''AGENT_CONFIG_FILE'' in if p \<noteq> '''' then p else DefaultConfigFile P)"

definition no_settings :: file_settings where
  "no_settings = \<lparr>fs_ServerURL = '''', fs_Hostname = '''', fs_PollInterval = '''', fs_AgentID = '''', fs_ConfigVersion = 0\<rparr>"

definition loadConfigFile :: "platform \<Rightarrow> environment \<Rightarrow> string \<Rightarrow> host \<Rightarrow> host \<times> file_settings" where
  "loadConfigFile P E path h =
     (case read_file P path h of (h1, Inl _) \<Rightarrow> (h1, no_settings) | (h1, Inr data) \<Rightarrow> (h1, en_LaxSettings E data))"

definition jobTimeout :: "environment \<Rightarrow> int" where
  "jobTimeout E =
     (let v = en_Getenv E ''AGENT_JOB_TIMEOUT''; six = 6 * 3600 * second in
      if v = '''' then six else (case en_Duration E v of None \<Rightarrow> six | Some d \<Rightarrow> if 0 < d then d else six))"

text \<open>At least five seconds between two polls.\<close>

definition poll_or :: "environment \<Rightarrow> string \<Rightarrow> int" where
  "poll_or E v = (case en_Duration E v of None \<Rightarrow> 30 * second | Some d \<Rightarrow> if 5 * second \<le> d then d else 30 * second)"

definition poll_interval :: "environment \<Rightarrow> file_settings \<Rightarrow> int" where
  "poll_interval E fs =
     (let v = en_Getenv E ''AGENT_POLL_INTERVAL'' in
      if v \<noteq> '''' then poll_or E v else if fs_PollInterval fs \<noteq> '''' then poll_or E (fs_PollInterval fs) else 30 * second)"

definition state_file :: "environment \<Rightarrow> string" where
  "state_file E =
     (let s = en_Getenv E ''AGENT_STATE_FILE'' in
      if s \<noteq> '''' then s
      else (case en_Executable E of None \<Rightarrow> ''agent-state.json'' | Some exe \<Rightarrow> Join2 (path_dir exe) ''agent-state.json''))"

definition browse_addr :: "environment \<Rightarrow> string" where
  "browse_addr E =
     (let a = en_Getenv E ''AGENT_BROWSE_ADDR''; v = en_Getenv E ''AGENT_BROWSE_PORT'';
          b = (if a \<noteq> '''' then a else if v \<noteq> '''' then ''127.0.0.1:'' @ v else ''127.0.0.1:7546'')
      in if b = ''off'' then '''' else b)"

text \<open>\<open>Atoi\<close> yields 0 or a bound where \<open>strconv.Atoi\<close> reports an error, which the range check refuses as well.\<close>

definition pg_port :: "environment \<Rightarrow> int" where
  "pg_port E =
     (let v = en_Getenv E ''AGENT_PG_PORT'' in
      if v \<noteq> '''' \<and> 1 \<le> Atoi v \<and> Atoi v \<le> 65535 then Atoi v else 5432)"

definition LoadConfig :: "platform \<Rightarrow> environment \<Rightarrow> host \<Rightarrow> host \<times> agent_config" where
  "LoadConfig P E h =
     (case loadConfigFile P E (configFilePath P E) h of
        (h1, fs) \<Rightarrow>
          (h1,
           \<lparr>cf_Server = firstNonEmpty [en_Getenv E ''AGENT_SERVER'', fs_ServerURL fs, ''http://localhost:7541/vaultguard/api''],
            cf_RegistrationKey = en_Getenv E ''AGENT_REGISTRATION_KEY'',
            cf_EnrollmentToken = en_Getenv E ''AGENT_ENROLLMENT_TOKEN'',
            cf_ConfigFile = configFilePath P E, cf_StateFile = state_file E,
            cf_Hostname = firstNonEmpty [en_Getenv E ''AGENT_HOSTNAME'', fs_Hostname fs, defaultHostname E],
            cf_PollInterval = poll_interval E fs, cf_BrowseAddr = browse_addr E,
            cf_BrowseToken = en_Getenv E ''AGENT_BROWSE_TOKEN'',
            cf_DashboardOrigin = firstNonEmpty [en_Getenv E ''AGENT_DASHBOARD_ORIGIN'', ''http://localhost:7540''],
            cf_PG = \<lparr>pg_Host = firstNonEmpty [en_Getenv E ''AGENT_PG_HOST'', ''localhost''], pg_Port = pg_port E,
                     pg_User = firstNonEmpty [en_Getenv E ''AGENT_PG_USER'', ''postgres''],
                     pg_Password = en_Getenv E ''AGENT_PG_PASSWORD''\<rparr>,
            cf_MSSQL = \<lparr>ms_Server = firstNonEmpty [en_Getenv E ''AGENT_MSSQL_SERVER'', ''localhost''],
                        ms_User = en_Getenv E ''AGENT_MSSQL_USER'', ms_Password = en_Getenv E ''AGENT_MSSQL_PASSWORD'',
                        ms_BackupDir = en_Getenv E ''AGENT_MSSQL_BACKUP_DIR''\<rparr>,
            cf_MongoURI = firstNonEmpty [en_Getenv E ''AGENT_MONGO_URI'', ''mongodb://localhost:27017''],
            cf_TLSSkipVerify = (to_lower (en_Getenv E ''AGENT_TLS_SKIP_VERIFY'') = ''true''),
            cf_JobTimeout = jobTimeout E\<rparr>))"

subsection \<open>Credentials\<close>

definition loadState :: "platform \<Rightarrow> environment \<Rightarrow> string \<Rightarrow> host \<Rightarrow> host \<times> credentials option" where
  "loadState P E path h =
     (case read_file P path h of
        (h1, Inl _) \<Rightarrow> (h1, None)
      | (h1, Inr data) \<Rightarrow> (h1, case en_GetState E data of None \<Rightarrow> None | Some s \<Rightarrow> if complete s then Some s else None))"

definition saveState :: "platform \<Rightarrow> environment \<Rightarrow> string \<Rightarrow> credentials \<Rightarrow> host \<Rightarrow> host \<times> string option" where
  "saveState P E path s h = write_file P path (en_PutState E s) h"

definition sanitizeClientError :: "string \<Rightarrow> string" where
  "sanitizeClientError msg = take 300 (takeWhile (\<lambda>c. c \<noteq> CHR 0x0A) msg)"

definition client_Enroll :: "environment \<Rightarrow> string \<Rightarrow> (string \<times> string) list \<Rightarrow> string + credentials" where
  "client_Enroll E server body =
     (case en_Post E (server @ ''/agents/enroll'') body of
        Inl m \<Rightarrow> Inl (sanitizeClientError m)
      | Inr data \<Rightarrow>
          (case en_Reply E data of
             Inl m \<Rightarrow> Inl m
           | Inr out \<Rightarrow> if \<not> complete out then Inl ''enrollment response incomplete'' else Inr out))"

definition client_Register :: "environment \<Rightarrow> string \<Rightarrow> string \<Rightarrow> string \<Rightarrow> string + credentials" where
  "client_Register E server key hostname =
     (case en_Post E (server @ ''/agents/register'')
         [(''registration_key'', key), (''hostname'', hostname), (''os'', en_OS E), (''version'', Version),
          (''ip_address'', en_OutboundIP E)] of
        Inl m \<Rightarrow> Inl m | Inr data \<Rightarrow> en_Reply E data)"

definition enroll_body :: "environment \<Rightarrow> agent_config \<Rightarrow> (string \<times> string) list" where
  "enroll_body E c =
     [(''enrollment_token'', cf_EnrollmentToken c), (''machine_name'', cf_Hostname c), (''platform'', en_OS E),
      (''architecture'', en_Arch E), (''agent_version'', Version), (''hostname'', cf_Hostname c), (''os'', en_OS E),
      (''ip_address'', en_OutboundIP E)]"

definition not_enrolled :: string where
  "not_enrolled = ''no credential stored and neither AGENT_ENROLLMENT_TOKEN nor AGENT_REGISTRATION_KEY is set; enroll this machine from the VaultGuard dashboard first''"

text \<open>The last component is the path of the request that was made, if one was.\<close>

definition ResolveCredentials ::
    "platform \<Rightarrow> environment \<Rightarrow> agent_config \<Rightarrow> string \<Rightarrow> host \<Rightarrow> host \<times> (string + credentials) \<times> string option" where
  "ResolveCredentials P E c key h =
     (case store_Load P key h of
        (h1, Inr creds) \<Rightarrow> (h1, Inr creds, None)
      | (h1, Inl _) \<Rightarrow>
      (case loadState P E (cf_StateFile c) h1 of
        (h2, Some s) \<Rightarrow> (fst (store_Save P key s h2), Inr s, None)
      | (h2, None) \<Rightarrow>
          if cf_EnrollmentToken c \<noteq> '''' then
            (case client_Enroll E (cf_Server c) (enroll_body E c) of
               Inl m \<Rightarrow> (h2, Inl (''enrollment failed: '' @ m), Some ''/agents/enroll'')
             | Inr s \<Rightarrow>
                 (case store_Save P key s h2 of
                    (h3, Some m) \<Rightarrow> (h3, Inl (''save credential: '' @ m), Some ''/agents/enroll'')
                  | (h3, None) \<Rightarrow> (h3, Inr s, Some ''/agents/enroll'')))
          else if cf_RegistrationKey c \<noteq> '''' then
            (case client_Register E (cf_Server c) (cf_RegistrationKey c) (cf_Hostname c) of
               Inl m \<Rightarrow> (h2, Inl (''registration failed: '' @ m), Some ''/agents/register'')
             | Inr s \<Rightarrow>
                 (case saveState P E (cf_StateFile c) s h2 of
                    (h3, Some m) \<Rightarrow> (h3, Inl (''save state: '' @ m), Some ''/agents/register'')
                  | (h3, None) \<Rightarrow> (h3, Inr s, Some ''/agents/register'')))
          else (h2, Inl not_enrolled, None)))"

subsection \<open>Every configuration is usable\<close>

text \<open>C36. Whatever the environment and the configuration file hold, readable or not, the configuration the agent starts
  with is usable: it polls at most every five seconds, a job's time limit is positive, the PostgreSQL port is a port,
  and the server, the host name, the state file and the allowed dashboard origin are never empty.\<close>

theorem config_usable:
  "let c = snd (LoadConfig P E h) in
     5 * second \<le> cf_PollInterval c \<and> 0 < cf_JobTimeout c \<and> 1 \<le> pg_Port (cf_PG c) \<and> pg_Port (cf_PG c) \<le> 65535 \<and>
     cf_Server c \<noteq> '''' \<and> cf_Hostname c \<noteq> '''' \<and> cf_StateFile c \<noteq> '''' \<and> cf_DashboardOrigin c \<noteq> '''' \<and>
     pg_Host (cf_PG c) \<noteq> '''' \<and> ms_Server (cf_MSSQL c) \<noteq> '''' \<and> cf_BrowseAddr c \<noteq> ''off''"
proof -
  obtain h1 fs where f: "loadConfigFile P E (configFilePath P E) h = (h1, fs)" by (rule prod.exhaust)
  have "5 * second \<le> poll_or E v" for v by (simp add: poll_or_def second_def split: option.split)
  then have poll: "5 * second \<le> poll_interval E fs" by (simp add: poll_interval_def Let_def second_def)
  have job: "0 < jobTimeout E" by (simp add: jobTimeout_def Let_def second_def split: option.split)
  have port: "1 \<le> pg_port E \<and> pg_port E \<le> 65535" by (simp add: pg_port_def Let_def)
  have nonempty: "Join2 a (x # xs) \<noteq> ''''" for a x xs
    using Clean_nonempty by (simp add: Join2_def)
  then have state: "state_file E \<noteq> ''''" by (simp add: state_file_def Let_def split: option.split)
  have host: "defaultHostname E \<noteq> ''''" by (simp add: defaultHostname_def split: option.split)
  have browse: "browse_addr E \<noteq> ''off''" by (simp add: browse_addr_def Let_def)
  show ?thesis by (simp add: LoadConfig_def f poll job port state host browse Let_def)
qed

subsection \<open>A second start\<close>

text \<open>JSON text that was cut short does not parse.\<close>

definition truncation_safe :: "platform \<Rightarrow> credentials \<Rightarrow> bool" where
  "truncation_safe P s \<longleftrightarrow>
     (\<forall>n. pf_GetCredentials P (take n (pf_PutCredentials P s)) = (if n < length (pf_PutCredentials P s) then None else Some s))"

lemma truncation_safe_full: "truncation_safe P s \<Longrightarrow> pf_GetCredentials P (pf_PutCredentials P s) = Some s"
  unfolding truncation_safe_def by (metis order.irrefl take_all_iff order_refl)

lemma truncation_safe_cut: "truncation_safe P s \<Longrightarrow> pf_GetCredentials P (take n (pf_PutCredentials P s)) \<in> {None, Some s}"
  unfolding truncation_safe_def by simp

definition stored :: "platform \<Rightarrow> string \<Rightarrow> host \<Rightarrow> credentials option" where
  "stored P key h =
     (case ho_files h key of
        None \<Rightarrow> None
      | Some data \<Rightarrow> (case pf_GetCredentials P data of None \<Rightarrow> None | Some c \<Rightarrow> if complete c then Some c else None))"

definition remembered :: "environment \<Rightarrow> string \<Rightarrow> host \<Rightarrow> credentials option" where
  "remembered E path h =
     (case ho_files h path of
        None \<Rightarrow> None
      | Some data \<Rightarrow> (case en_GetState E data of None \<Rightarrow> None | Some s \<Rightarrow> if complete s then Some s else None))"

lemma store_Load_stored:
  assumes "reads_ok P" and "store_Load P key h = (h', r)"
  shows "stored P key h = (case r of Inl _ \<Rightarrow> None | Inr c \<Rightarrow> Some c)" and "ho_files h' = ho_files h"
proof -
  have f: "pf_ReadFault P (ho_reads h) = None" using assms(1) by (simp add: reads_ok_def)
  then show "stored P key h = (case r of Inl _ \<Rightarrow> None | Inr c \<Rightarrow> Some c)"
    using assms(2) by (auto simp: store_Load_def read_file_def stored_def split: option.splits)
  show "ho_files h' = ho_files h" using assms(2) by (rule store_Load_eq)
qed

lemma loadState_remembered:
  assumes "reads_ok P" and "loadState P E path h = (h', r)"
  shows "remembered E path h = r" and "ho_files h' = ho_files h"
proof -
  have f: "pf_ReadFault P (ho_reads h) = None" using assms(1) by (simp add: reads_ok_def)
  then show "remembered E path h = r"
    using assms(2) by (auto simp: loadState_def read_file_def remembered_def split: option.splits)
  show "ho_files h' = ho_files h"
    using assms(2) by (auto simp: loadState_def dest: read_file_eq split: prod.splits sum.splits)
qed

lemma store_Save_stored:
  assumes "store_Save P key s h = (h', r)" and "truncation_safe P s" and "complete s"
  shows "stored P key h' = stored P key h \<or> stored P key h' = None \<or> stored P key h' = Some s"
    and "r = None \<Longrightarrow> stored P key h' = Some s" and "p \<noteq> key \<Longrightarrow> ho_files h' p = ho_files h p"
proof -
  note cut = truncation_safe_cut [OF assms(2)] and full = truncation_safe_full [OF assms(2)]
  obtain h1 r1 where d: "make_dir P h = (h1, r1)" by (rule prod.exhaust)
  have f: "ho_files h1 = ho_files h" using d by (rule make_dir_eq)
  show "stored P key h' = stored P key h \<or> stored P key h' = None \<or> stored P key h' = Some s"
  proof (cases r1)
    case None
    then have w: "write_file P key (pf_PutCredentials P s) h1 = (h', r)"
      using assms(1,3) d by (simp add: store_Save_def)
    show ?thesis
    proof (cases "pf_Outcome P (ho_writes h1)")
      case (Torn n m)
      then have "ho_files h' key = Some (take n (pf_PutCredentials P s))" using w by (auto simp: write_file_def)
      then show ?thesis using cut [of n] by (auto simp: stored_def assms(3))
    qed (use w f full assms(3) in \<open>auto simp: write_file_def stored_def\<close>)
  next
    case (Some m)
    then show ?thesis using assms(1,3) d f by (auto simp: store_Save_def stored_def)
  qed
  show "stored P key h' = Some s" if "r = None"
  proof -
    have "write_file P key (pf_PutCredentials P s) h1 = (h', None)"
      using assms(1,3) d that by (cases r1) (simp_all add: store_Save_def)
    from write_file_done [OF this] show ?thesis using full assms(3) by (simp add: stored_def)
  qed
  show "ho_files h' p = ho_files h p" if "p \<noteq> key"
    using assms(1,3) d f that by (cases r1) (auto simp: store_Save_def dest: write_file_other)
qed

text \<open>What a start does, by what it finds.\<close>

lemma ResolveCredentials_stored:
  assumes "reads_ok P" and "stored P key h = Some s"
  obtains h' where "ResolveCredentials P E c key h = (h', Inr s, None)" "ho_files h' = ho_files h"
proof -
  obtain h' r where l: "store_Load P key h = (h', r)" by (rule prod.exhaust)
  then have "r = Inr s" using store_Load_stored(1) [OF assms(1) l] assms(2) by (cases r) simp_all
  then show ?thesis using that l store_Load_stored(2) [OF assms(1) l] by (simp add: ResolveCredentials_def)
qed

lemma ResolveCredentials_unstored:
  assumes "reads_ok P" and "stored P key h = None"
  obtains h2 where "ho_files h2 = ho_files h"
    "loadState P E (cf_StateFile c) (fst (store_Load P key h)) = (h2, remembered E (cf_StateFile c) h)"
    "\<exists>m. snd (store_Load P key h) = Inl m"
proof -
  obtain h1 r where l: "store_Load P key h = (h1, r)" by (rule prod.exhaust)
  note sl = store_Load_stored [OF assms(1) l]
  obtain h2 q where q: "loadState P E (cf_StateFile c) h1 = (h2, q)" by (rule prod.exhaust)
  note ls = loadState_remembered [OF assms(1) q]
  have "remembered E (cf_StateFile c) h1 = remembered E (cf_StateFile c) h" using sl(2) by (simp add: remembered_def)
  moreover have "\<exists>m. r = Inl m" using sl(1) assms(2) by (cases r) simp_all
  ultimately show ?thesis using that [of h2] l q ls sl(2) by simp
qed

lemma ResolveCredentials_remembered:
  assumes "reads_ok P" and "stored P key h = None" and "remembered E (cf_StateFile c) h = Some s"
  obtains h2 where "ho_files h2 = ho_files h"
    "ResolveCredentials P E c key h = (fst (store_Save P key s h2), Inr s, None)"
proof -
  obtain h2 where h2: "ho_files h2 = ho_files h"
    "loadState P E (cf_StateFile c) (fst (store_Load P key h)) = (h2, Some s)" "\<exists>m. snd (store_Load P key h) = Inl m"
    using ResolveCredentials_unstored [OF assms(1,2), of E c] assms(3) by auto
  then have "ResolveCredentials P E c key h = (fst (store_Save P key s h2), Inr s, None)"
    by (auto simp: ResolveCredentials_def split: prod.split)
  then show ?thesis using that h2(1) by blast
qed

text \<open>C29. Once an agent has started it starts again: the next start finds the same credential on the machine and makes no
  request, so one-time tokens and registration keys are used once.  This holds for a credential from the store, for one
  adopted from an old state file even if copying it into the store failed half-way, and for a new enrollment or
  registration.\<close>

theorem start_again_same_credential:
  assumes "ResolveCredentials P E c key h = (h', Inr s, made)" and "reads_ok P" and "key \<noteq> cf_StateFile c" and "complete s"
    and "truncation_safe P s" and "en_GetState E (en_PutState E s) = Some s"
  shows "\<exists>h2. ResolveCredentials P E c key h' = (h2, Inr s, None)"
proof -
  have again: "\<exists>h2. ResolveCredentials P E c key h' = (h2, Inr s, None)"
    if "stored P key h' = Some s \<or> stored P key h' = None \<and> remembered E (cf_StateFile c) h' = Some s"
    using that ResolveCredentials_stored [OF assms(2)] ResolveCredentials_remembered [OF assms(2)] by metis
  show ?thesis
  proof (cases "stored P key h")
    case (Some t)
    obtain h1 where "ResolveCredentials P E c key h = (h1, Inr t, None)" "ho_files h1 = ho_files h"
      using assms(2) Some by (rule ResolveCredentials_stored)
    then have "stored P key h' = Some s" using assms(1) Some by (simp add: stored_def)
    then show ?thesis using again by blast
  next
    case None
    show ?thesis
    proof (cases "remembered E (cf_StateFile c) h")
      case (Some t)
      obtain h2 where h2: "ho_files h2 = ho_files h"
        "ResolveCredentials P E c key h = (fst (store_Save P key t h2), Inr t, None)"
        using assms(2) None Some by (rule ResolveCredentials_remembered)
      then have t: "t = s" and h': "h' = fst (store_Save P key s h2)" using assms(1) by simp_all
      obtain r where sv: "store_Save P key s h2 = (h', r)" using h' by (metis prod.collapse)
      note st = store_Save_stored [OF sv assms(5,4)]
      have "stored P key h2 = None" using None h2(1) by (simp add: stored_def)
      then have "stored P key h' = None \<or> stored P key h' = Some s" using st(1) by auto
      moreover have "remembered E (cf_StateFile c) h' = Some s"
        using st(3) [of "cf_StateFile c"] assms(3) h2(1) Some t by (auto simp: remembered_def)
      ultimately show ?thesis using again by blast
    next
      case unknown: None
      obtain h2 where h2: "ho_files h2 = ho_files h"
        "loadState P E (cf_StateFile c) (fst (store_Load P key h)) = (h2, None)" "\<exists>m. snd (store_Load P key h) = Inl m"
        using ResolveCredentials_unstored [OF assms(2) None, of E c] unknown by auto
      obtain h1 m where l: "store_Load P key h = (h1, Inl m)" using h2(3) by (metis prod.collapse)
      show ?thesis
      proof (cases "cf_EnrollmentToken c = ''''")
        case False
        then have "store_Save P key s h2 = (h', None)"
          using assms(1) l h2(2) by (auto simp: ResolveCredentials_def split: sum.split_asm prod.split_asm option.split_asm)
        then show ?thesis using store_Save_stored(2) [OF _ assms(5,4)] again by blast
      next
        case True
        then have w: "saveState P E (cf_StateFile c) s h2 = (h', None)"
          using assms(1) l h2(2) by (auto simp: ResolveCredentials_def split: sum.split_asm prod.split_asm option.split_asm if_split_asm)
        then have "ho_files h' (cf_StateFile c) = Some (en_PutState E s)" unfolding saveState_def by (rule write_file_done)
        then have "remembered E (cf_StateFile c) h' = Some s" using assms(4,6) by (simp add: remembered_def)
        moreover have "ho_files h' key = ho_files h key"
          using w assms(3) h2(1) write_file_other unfolding saveState_def by metis
        then have "stored P key h' = None" using None by (simp add: stored_def)
        ultimately show ?thesis using again by blast
      qed
    qed
  qed
qed

subsection \<open>From the setup to the first start\<close>

lemma SaveCredential_done:
  assumes "SaveCredential P n aid tok h = (h', None)"
  obtains path where "is_Store n = Some path" "complete \<lparr>cd_AgentID = aid, cd_AgentToken = tok\<rparr>"
    "ho_files h' path = Some (pf_PutCredentials P \<lparr>cd_AgentID = aid, cd_AgentToken = tok\<rparr>)"
    "\<forall>p. p \<noteq> path \<longrightarrow> ho_files h' p = ho_files h p"
proof -
  let ?c = "\<lparr>cd_AgentID = aid, cd_AgentToken = tok\<rparr>"
  obtain path where p: "is_Store n = Some path" using assms by (cases "is_Store n") (simp_all add: SaveCredential_def)
  have s: "store_Save P path ?c h = (h', None)" using assms p by (simp add: SaveCredential_def)
  have c: "complete ?c" using s by (cases "complete ?c") (simp_all add: store_Save_def)
  obtain h1 r where d: "make_dir P h = (h1, r)" by (rule prod.exhaust)
  have w: "write_file P path (pf_PutCredentials P ?c) h1 = (h', None)"
    using s c d by (cases r) (simp_all add: store_Save_def)
  show ?thesis
    by (rule that [OF p c write_file_done [OF w]]) (use w make_dir_eq [OF d] write_file_other in metis)
qed

lemma runFreshInstall_Inr:
  assumes "runFreshInstall P n info u t h = (h', Inr res)"
  obtains h2 h3 h4 h5 aid tok vs where "EnrollMachine P u t info = Inr (aid, tok)"
    "install_config P n info u aid h2 = (h3, None, vs)" "SaveCredential P n aid tok h3 = (h4, None)"
    "InstallService P n h4 = (h5, snd (InstallService P n h4))" "StartService P h5 = (h', None)"
    "res = \<lparr>sr_AgentID = aid, sr_MachineName = host_name info\<rparr>"
proof -
  obtain aid tok where e: "CheckConnectivity P u = None" "EnrollMachine P u t info = Inr (aid, tok)"
    using assms by (auto simp: runFreshInstall_def split: option.split_asm sum.split_asm)
  obtain h1 r1 where d: "EnsureDirs P n h = (h1, r1)" by (rule prod.exhaust)
  have r1: "r1 = None" using assms e d by (cases r1) (simp_all add: runFreshInstall_def)
  obtain h2 r2 us where b: "install_binary P n h1 = (h2, r2, us)" by (rule prod_cases3)
  have r2: "r2 = None" using assms e d r1 b rollback_fails by (cases r2) (simp_all add: runFreshInstall_def)
  obtain h3 r3 vs where c: "install_config P n info u aid h2 = (h3, r3, vs)" by (rule prod_cases3)
  have r3: "r3 = None" using assms e d r1 b r2 c rollback_fails by (cases r3) (simp_all add: runFreshInstall_def)
  obtain h4 r4 where s: "SaveCredential P n aid tok h3 = (h4, r4)" by (rule prod.exhaust)
  have r4: "r4 = None" using assms e d r1 b r2 c r3 s rollback_fails by (cases r4) (simp_all add: runFreshInstall_def)
  have i: "install_service P n (us @ vs) \<lparr>sr_AgentID = aid, sr_MachineName = host_name info\<rparr> h4 = (h', Inr res)"
    using assms e d r1 b r2 c r3 s r4 by (simp add: runFreshInstall_def)
  obtain h5 r5 where v: "InstallService P n h4 = (h5, r5)" by (rule prod.exhaust)
  obtain h6 r6 where g: "StartService P h5 = (h6, r6)" by (rule prod.exhaust)
  have "r6 = None \<and> h6 = h' \<and> res = \<lparr>sr_AgentID = aid, sr_MachineName = host_name info\<rparr>"
    using i v g rollback_fails by (cases r6) (auto simp: install_service_def split: if_splits)
  then show ?thesis using that [OF e(2)] c r3 s r4 v g by simp
qed

lemma Run_Inr_cases:
  assumes "Run P n info url token h = (h', Inr res)"
  obtains h0 addr where "NormalizeServerURL (pf_Url P) url = Inr addr" "ho_files h0 = ho_files h"
    "runUpgrade P n info addr h0 = (h', Inr res) \<or> trim_space token \<noteq> '''' \<and> runFreshInstall P n info addr (trim_space token) h0 = (h', Inr res)"
proof -
  obtain addr where a: "NormalizeServerURL (pf_Url P) url = Inr addr" "ValidateServerURL (pf_Url P) addr = None"
    "RequireAdmin P = None"
    using assms by (auto simp: Run_def split: sum.splits option.splits)
  obtain h1 saved where s: "SavedServerURL P h = (h1, saved)" by (rule prod.exhaust)
  obtain h2 has where c: "HasCredential P n h1 = (h2, has)" by (rule prod.exhaust)
  obtain h3 again where g: "HasCredential P n h2 = (h3, again)" by (rule prod.exhaust)
  have f: "ho_files h2 = ho_files h" "ho_files h3 = ho_files h"
    using SavedServerURL_eq [OF s] HasCredential_eq [OF c] HasCredential_eq [OF g] by simp_all
  obtain fresh where plan: "planRun saved addr (trim_space token \<noteq> '''') has = Inr fresh"
    using assms a s c by (cases "planRun saved addr (trim_space token \<noteq> '''') has") (simp_all add: Run_def)
  show ?thesis
  proof (cases fresh)
    case False
    then have "runUpgrade P n info addr h2 = (h', Inr res)" using assms a s c plan by (simp add: Run_def)
    then show ?thesis using that a(1) f(1) by blast
  next
    case True
    have tok: "trim_space token \<noteq> ''''" using plan True by (auto simp: planRun_def split: if_splits)
    let ?f = "runFreshInstall P n info addr (trim_space token)"
    show ?thesis
    proof (cases again)
      case False
      then have "?f h3 = (h', Inr res)" using assms a s c g plan True by (simp add: Run_def)
      then show ?thesis using that a(1) f(2) tok by blast
    next
      case again: True
      then have w: "withCredentialBackup P (the (is_Store n)) ?f h3 = (h', Inr res)"
        using assms a s c g plan True by (simp add: Run_def)
      obtain h4 r where l: "store_Load P (the (is_Store n)) h3 = (h4, r)" by (rule prod.exhaust)
      have "?f h4 = (h', Inr res)"
      proof (cases r)
        case (Inl m)
        then show ?thesis using w l by (simp add: withCredentialBackup_def)
      next
        case (Inr b)
        then show ?thesis using w l by (cases "?f h4"; cases "snd (?f h4)") (auto simp: withCredentialBackup_def)
      qed
      then show ?thesis using that [of addr h4] a(1) f(2) store_Load_eq [OF l] tok by simp
    qed
  qed
qed

lemma install_config_done:
  assumes "install_config P n info u aid h = (h', None, vs)"
  obtains fs where "NormalizeServerURL (pf_Url P) u = Inr (fs_ServerURL fs)" "fs_AgentID fs = aid"
    "ho_files h' (ConfigFilePath n) = Some (pf_PutSettings P fs)"
proof -
  obtain h1 ex where x: "fileExisted P (ConfigFilePath n) h = (h1, ex)" by (rule prod.exhaust)
  obtain h2 r where w: "WriteAgentConfig P n u (host_name info) aid h1 = (h2, r)" by (rule prod.exhaust)
  have "h2 = h'" "r = None" using assms x w by (cases r; simp add: install_config_def)+
  then have "WriteAgentConfig P n u (host_name info) aid h1 = (h', None)" using w by simp
  then show ?thesis using that by (rule WriteAgentConfig_done)
qed

lemma NormalizeServerURL_nonempty: "NormalizeServerURL L u = Inr n \<Longrightarrow> n \<noteq> ''''"
  by (auto simp: NormalizeServerURL_def Let_def split: if_splits option.splits)

text \<open>What was read from a JSON reply can be written as JSON and read back.\<close>

definition reply_law :: "platform \<Rightarrow> bool" where
  "reply_law P \<longleftrightarrow>
     (\<forall>body aid tok. pf_EnrollBody P body = Some (aid, tok) \<longrightarrow>
        pf_GetCredentials P (pf_PutCredentials P \<lparr>cd_AgentID = aid, cd_AgentToken = tok\<rparr>) =
          Some \<lparr>cd_AgentID = aid, cd_AgentToken = tok\<rparr>)"

lemma EnrollMachine_reply:
  assumes "EnrollMachine P u t info = Inr (aid, tok)"
  obtains body where "pf_EnrollBody P body = Some (aid, tok)"
  using assms by (auto simp: EnrollMachine_def split: if_split_asm sum.split_asm prod.split_asm option.split_asm)

text \<open>What a successful setup leaves on the machine.\<close>

lemma setup_leaves:
  assumes "Run P n info url token h = (h', Inr res)" and "is_Store n = Some key" and "key \<notin> owned n"
    and "ConfigFilePath n \<noteq> systemdUnitPath" and "reads_ok P" and "reply_law P"
  obtains c addr fs where "NormalizeServerURL (pf_Url P) url = Inr addr" "NormalizeServerURL (pf_Url P) addr = Inr (fs_ServerURL fs)"
    "ho_files h' (ConfigFilePath n) = Some (pf_PutSettings P fs)" "stored P key h' = Some c" "sr_AgentID res = cd_AgentID c"
proof -
  obtain h0 addr where a: "NormalizeServerURL (pf_Url P) url = Inr addr" "ho_files h0 = ho_files h"
    and way: "runUpgrade P n info addr h0 = (h', Inr res) \<or>
      trim_space token \<noteq> '''' \<and> runFreshInstall P n info addr (trim_space token) h0 = (h', Inr res)"
    using assms(1) by (rule Run_Inr_cases)
  have at: "stored P key x = Some c" if "credential_at P n x c" for x c
    using that assms(2) by (auto simp: credential_at_def stored_def split: option.splits)
  show ?thesis
  proof (cases "runUpgrade P n info addr h0 = (h', Inr res)")
    case True
    obtain h1 h2 h3 h4 h5 aid where st: "HasCredential P n h0 = (h1, True)" "EnsureDirs P n h1 = (h2, None)"
      "replace_binary P n h2 = (h3, None)" "stored_agent_id P n h3 = (h4, aid)"
      "WriteAgentConfig P n addr (host_name info) aid h4 = (h5, None)" "restart_or_install P n h5 = (h', None)"
      and res: "res = \<lparr>sr_AgentID = aid, sr_MachineName = host_name info\<rparr>"
      using True by (rule runUpgrade_Inr)
    obtain c where c: "credential_at P n h0 c" using st(1) by (rule HasCredential_exists)
    have "ho_files h3 key = ho_files h0 key"
      using HasCredential_eq [OF st(1)] EnsureDirs_eq [OF st(2)] replace_binary_other [OF st(3) assms(3)] by simp
    then have "credential_at P n h3 c" using credential_at_same [OF c, of h3] assms(2) by simp
    then obtain h9 where "stored_agent_id P n h3 = (h9, cd_AgentID c)" using assms(5) stored_agent_id_at by blast
    then have id: "sr_AgentID res = cd_AgentID c" using st(4) res by simp
    obtain fs where fs: "NormalizeServerURL (pf_Url P) addr = Inr (fs_ServerURL fs)" "fs_AgentID fs = aid"
      "ho_files h5 (ConfigFilePath n) = Some (pf_PutSettings P fs)"
      using st(5) by (rule WriteAgentConfig_done)
    have cfg: "ho_files h' (ConfigFilePath n) = Some (pf_PutSettings P fs)"
      using restart_or_install_other [OF st(6) assms(4)] fs(3) by simp
    have "credential_at P n h' c"
      using credential_at_same [OF c, of h'] runUpgrade_other [OF True assms(3)] assms(2) by simp
    then show ?thesis using that [OF a(1) fs(1) cfg _ id] at by blast
  next
    case False
    then have "runFreshInstall P n info addr (trim_space token) h0 = (h', Inr res)" using way by blast
    then obtain h2 h3 h4 h5 aid tok vs where e: "EnrollMachine P addr (trim_space token) info = Inr (aid, tok)"
      and st: "install_config P n info addr aid h2 = (h3, None, vs)"
      "SaveCredential P n aid tok h3 = (h4, None)" "InstallService P n h4 = (h5, snd (InstallService P n h4))"
      "StartService P h5 = (h', None)" and res: "res = \<lparr>sr_AgentID = aid, sr_MachineName = host_name info\<rparr>"
      by (rule runFreshInstall_Inr)
    obtain fs where fs: "NormalizeServerURL (pf_Url P) addr = Inr (fs_ServerURL fs)"
      "ho_files h3 (ConfigFilePath n) = Some (pf_PutSettings P fs)"
      using st(1) by (rule install_config_done)
    let ?c = "\<lparr>cd_AgentID = aid, cd_AgentToken = tok\<rparr>"
    obtain path where p: "is_Store n = Some path" "complete ?c" "ho_files h4 path = Some (pf_PutCredentials P ?c)"
      "\<forall>p. p \<noteq> path \<longrightarrow> ho_files h4 p = ho_files h3 p"
      using st(2) by (rule SaveCredential_done)
    have key: "path = key" "key \<noteq> systemdUnitPath" "ConfigFilePath n \<noteq> key" using p(1) assms(2,3) by (auto simp: owned_def)
    have keep: "ho_files h' q = ho_files h4 q" if "q \<noteq> systemdUnitPath" for q
      using StartService_eq [OF st(4)] InstallService_other [OF st(3) that] by simp
    obtain body where "pf_EnrollBody P body = Some (aid, tok)" using e by (rule EnrollMachine_reply)
    then have "pf_GetCredentials P (pf_PutCredentials P ?c) = Some ?c" using assms(6) unfolding reply_law_def by blast
    then have "stored P key h' = Some ?c" using keep key(1,2) p(2,3) by (simp add: stored_def)
    moreover have "ho_files h' (ConfigFilePath n) = Some (pf_PutSettings P fs)"
      using keep [OF assms(4)] p(4) key(1,3) fs(2) by simp
    moreover have "sr_AgentID res = cd_AgentID ?c" by (simp add: res)
    ultimately show ?thesis using that a(1) fs(1) by blast
  qed
qed

text \<open>C27. What the setup sets up works: after a successful run, an installation or an upgrade, the agent starts against the
  canonical form of the entered address with the credential of the agent id the setup reported, and needs no request
  for that.\<close>

theorem setup_then_start:
  assumes "Run P n info url token h = (h', Inr res)" and "is_Store n = Some key" and "key \<notin> owned n"
    and "ConfigFilePath n \<noteq> systemdUnitPath" and "reads_ok P" and "reply_law P"
    and "NormalizeServerURL (pf_Url P) url = Inr addr" and "NormalizeServerURL (pf_Url P) addr = Inr addr"
    and "configFilePath P E = ConfigFilePath n" and "en_Getenv E ''AGENT_SERVER'' = ''''"
    and "\<forall>fs. fs_ServerURL fs = addr \<longrightarrow> fs_ServerURL (en_LaxSettings E (pf_PutSettings P fs)) = addr"
    and "LoadConfig P E h' = (h1, cfg)"
  shows "cf_Server cfg = addr \<and>
    (\<exists>c h2. ResolveCredentials P E cfg key h1 = (h2, Inr c, None) \<and> cd_AgentID c = sr_AgentID res)"
proof -
  obtain c addr' fs where l: "NormalizeServerURL (pf_Url P) url = Inr addr'" "NormalizeServerURL (pf_Url P) addr' = Inr (fs_ServerURL fs)"
    "ho_files h' (ConfigFilePath n) = Some (pf_PutSettings P fs)" "stored P key h' = Some c" "sr_AgentID res = cd_AgentID c"
    using assms(1-6) by (rule setup_leaves)
  have u: "fs_ServerURL fs = addr" using l(1,2) assms(7,8) by simp
  have "pf_ReadFault P (ho_reads h') = None" using assms(5) by (simp add: reads_ok_def)
  then have r: "loadConfigFile P E (configFilePath P E) h' =
      (h'\<lparr>ho_reads := ho_reads h' + 1\<rparr>, en_LaxSettings E (pf_PutSettings P fs))"
    using l(3) by (simp add: loadConfigFile_def read_file_def assms(9))
  have "cf_Server cfg = addr" and h1: "ho_files h1 = ho_files h'"
    using assms(11,12) u NormalizeServerURL_nonempty [OF assms(8)] by (auto simp: LoadConfig_def r assms(10))
  moreover have "stored P key h1 = Some c" using l(4) h1 by (simp add: stored_def)
  then obtain h2 where "ResolveCredentials P E cfg key h1 = (h2, Inr c, None)"
    using assms(5) ResolveCredentials_stored by blast
  ultimately show ?thesis using l(5) by simp
qed

subsection \<open>Witnesses\<close>

definition toy_environment :: environment where
  "toy_environment =
     \<lparr>en_Getenv = (\<lambda>v. if v = ''AGENT_ENROLLMENT_TOKEN'' then ''t1'' else ''''), en_Hostname = Some ''db1'', en_Executable = None,
      en_Duration = (\<lambda>_. None), en_LaxSettings = (\<lambda>s. no_settings\<lparr>fs_ServerURL := takeWhile (\<lambda>c. c \<noteq> CHR 0x0A) s\<rparr>),
      en_PutState = (\<lambda>c. lines_of (cd_AgentID c) (cd_AgentToken c)), en_GetState = (\<lambda>_. Some old_credential),
      en_Post = (\<lambda>_ _. Inr ''reply''), en_Reply = (\<lambda>_. Inr old_credential), en_OS = ''linux'', en_Arch = ''amd64'',
      en_OutboundIP = ''''\<rparr>"

lemma toy_environment_simps [simp]:
  "en_Getenv toy_environment v = (if v = ''AGENT_ENROLLMENT_TOKEN'' then ''t1'' else '''')"
  "en_LaxSettings toy_environment s = no_settings\<lparr>fs_ServerURL := takeWhile (\<lambda>c. c \<noteq> CHR 0x0A) s\<rparr>"
  "en_Post toy_environment u b = Inr ''reply''" "en_Reply toy_environment d = Inr old_credential"
  "en_PutState toy_environment c = lines_of (cd_AgentID c) (cd_AgentToken c)" "en_GetState toy_environment d = Some old_credential"
  by (simp_all add: toy_environment_def)

theorem setup_then_start_witness:
  "let (h1, cfg) = LoadConfig (toy_platform True) toy_environment (fst upgrade) in
     cf_Server cfg = old_url \<and>
     (\<exists>c h2. ResolveCredentials (toy_platform True) toy_environment cfg key_path h1 = (h2, Inr c, None) \<and> cd_AgentID c = ''a1'')"
proof -
  let ?P = "toy_platform True"
  obtain h' where r: "upgrade = (h', Inr \<lparr>sr_AgentID = ''a1'', sr_MachineName = host_name toy_info\<rparr>)"
    by (rule upgrade_succeeds)
  obtain h1 cfg where l: "LoadConfig ?P toy_environment h' = (h1, cfg)" by (rule prod.exhaust)
  have "is_Store toy_installer = Some key_path" "key_path \<notin> owned toy_installer"
    "ConfigFilePath toy_installer \<noteq> systemdUnitPath" "reads_ok ?P"
    by (simp_all add: owned_def reads_ok_def)
  moreover have "reply_law ?P" by (simp add: reply_law_def) (simp add: toy_platform_def lines_of_def lf_def)
  moreover have "NormalizeServerURL (pf_Url ?P) old_url = Inr old_url" by simp
  moreover have "configFilePath ?P toy_environment = ConfigFilePath toy_installer"
    by (simp add: configFilePath_def DefaultConfigFile_def)
  moreover have "\<forall>fs. fs_ServerURL fs = old_url \<longrightarrow> fs_ServerURL (en_LaxSettings toy_environment (pf_PutSettings ?P fs)) = old_url"
    by (simp add: lines_of_def lf_def) (simp add: old_url_def)
  moreover have "en_Getenv toy_environment ''AGENT_SERVER'' = ''''" by simp
  ultimately have "cf_Server cfg = old_url \<and>
      (\<exists>c h2. ResolveCredentials ?P toy_environment cfg key_path h1 = (h2, Inr c, None) \<and> cd_AgentID c = ''a1'')"
    using setup_then_start [OF r [unfolded upgrade_def], of key_path old_url toy_environment h1 cfg] l by simp
  then show ?thesis by (simp add: r l)
qed

text \<open>A machine without a credential; its store tears the text when told to.\<close>

definition brittle_platform :: platform where
  "brittle_platform = (toy_platform True)\<lparr>pf_GetCredentials := (\<lambda>s. if s = old_text then Some old_credential else None)\<rparr>"

definition bare_host :: host where
  "bare_host = \<lparr>ho_files = Map.empty, ho_writes = 0, ho_reads = 0, ho_cmds = []\<rparr>"

definition first_config :: agent_config where
  "first_config = snd (LoadConfig brittle_platform toy_environment bare_host)"

definition first_start :: "host \<times> (string + credentials) \<times> string option" where
  "first_start = ResolveCredentials brittle_platform toy_environment first_config key_path bare_host"

theorem start_again_same_credential_witness:
  "snd (snd first_start) = Some ''/agents/enroll'' \<and>
   (\<exists>h2. ResolveCredentials brittle_platform toy_environment first_config key_path (fst first_start) = (h2, Inr old_credential, None))"
proof -
  let ?P = brittle_platform and ?E = toy_environment
  have b [simp]: "pf_Outcome ?P k = Fine" "pf_ReadFault ?P k = None" "pf_PutCredentials ?P c = lines_of (cd_AgentID c) (cd_AgentToken c)"
    "pf_GetCredentials ?P s = (if s = old_text then Some old_credential else None)" for k c s
    by (simp_all add: brittle_platform_def)
  have read: "read_file ?P p h = (reread h, Inl (''open '' @ p @ '': no such file or directory''))" if "ho_files h p = None" for p h
    using that by (simp add: read_file_def reread_def)
  have save: "store_Save ?P key_path old_credential h = (put_file key_path old_text (written (written h)), None)" for h
    by (simp add: store_Save_def make_dir_def write_file_def)
  have tok: "cf_EnrollmentToken first_config = ''t1''" "cf_StateFile first_config \<noteq> key_path"
    by (simp_all add: first_config_def LoadConfig_def state_file_def Let_def split: prod.split)
      (simp_all add: toy_environment_def key_path_def)
  obtain h' where f: "first_start = (h', Inr old_credential, Some ''/agents/enroll'')"
    unfolding first_start_def ResolveCredentials_def
    by (simp add: store_Load_def loadState_def read tok(1) client_Enroll_def save bare_host_def)
  have "truncation_safe ?P old_credential" by (auto simp: truncation_safe_def)
  then have "\<exists>h2. ResolveCredentials ?P ?E first_config key_path h' = (h2, Inr old_credential, None)"
    using start_again_same_credential [OF f [unfolded first_start_def]] tok(2) by (simp add: reads_ok_def)
  then show ?thesis unfolding f by simp
qed

end
