(* ===== verification/Discover.thy ===== *)
theory Discover
  imports Startup Tools "HOL-Library.List_Lexorder" "HOL-Library.Char_ord"
begin

text \<open>
  The agent's local helper for the dashboard: the folder browser (\<open>browse.go\<close>), database discovery with the
  customer's tools (\<open>postgres.go\<close>, \<open>sqlserver.go\<close>, the discovery part of \<open>mongo_exec.go\<close> and \<open>mongo_native.go\<close>) and
  the search for database servers by their wire protocols (\<open>detect.go\<close>).  Parameters are the file system's answers,
  the search for tools (\<open>bin\<close>), what a command prints, what a port answers to the bytes sent, the JSON decoder and the
  MongoDB driver.  Every handler also yields the command lines it ran, with the variables added to their environment.
\<close>

type_synonym command_log = "(string list \<times> string list) list"

record machine_view =
  mv_IsDir :: "string \<Rightarrow> bool option"
  mv_ReadDir :: "string \<Rightarrow> (string \<times> bool) list option"
  mv_Bin :: "string \<Rightarrow> string + string"
  mv_Exec :: "string list \<Rightarrow> string list \<Rightarrow> tool_output"
  mv_Answer :: "int \<Rightarrow> string \<Rightarrow> string option"
  mv_JsonNames :: "string \<Rightarrow> string list option"
  mv_Driver :: "string \<Rightarrow> string + (string + string list)"

subsection \<open>Folders\<close>

record browse_entry =
  be_Name :: string
  be_Path :: string

record browse_response =
  bs_CWD :: string
  bs_Parent :: string
  bs_Roots :: "string list"
  bs_Entries :: "browse_entry list"

definition driveRoots :: "string list" where
  "driveRoots = [''/'']"

definition handleBrowse :: "machine_view \<Rightarrow> string \<Rightarrow> (nat \<times> string) + browse_response" where
  "handleBrowse V query =
     (let reqPath = trim_space query; dir = (if reqPath = '''' then hd driveRoots else Clean reqPath) in
      if mv_IsDir V dir \<noteq> Some True then Inl (400, ''not a readable directory'')
      else (case mv_ReadDir V dir of
          None \<Rightarrow> Inl (403, ''cannot list directory'')
        | Some entries \<Rightarrow>
            Inr \<lparr>bs_CWD = dir, bs_Parent = (if path_dir dir \<noteq> dir then path_dir dir else ''''), bs_Roots = driveRoots,
                 bs_Entries = sort_key be_Name
                   (map (\<lambda>e. \<lparr>be_Name = fst e, be_Path = Join2 dir (fst e)\<rparr>) (filter snd entries))\<rparr>))"

subsection \<open>Databases\<close>

record sql_database =
  sd_Name :: string
  sd_State :: string

record databases_response =
  dr_Databases :: "sql_database list"
  dr_Source :: string
  dr_Error :: string

definition databases_reply :: "string + sql_database list \<times> string \<Rightarrow> databases_response" where
  "databases_reply r =
     (case r of
        Inl e \<Rightarrow> \<lparr>dr_Databases = [], dr_Source = '''', dr_Error = e\<rparr>
      | Inr (dbs, src) \<Rightarrow> \<lparr>dr_Databases = dbs, dr_Source = src, dr_Error = ''''\<rparr>)"

definition output_lines :: "string \<Rightarrow> string list" where
  "output_lines out = filter (\<lambda>l. l \<noteq> '''') (map trim_space (split_on nl_char out))"

definition named :: "string list \<Rightarrow> sql_database list" where
  "named = map (\<lambda>n. \<lparr>sd_Name = n, sd_State = ''''\<rparr>)"

record pg_request =
  pr_Host :: string
  pr_Port :: int
  pr_User :: string
  pr_Password :: string

definition name_char :: "char \<Rightarrow> bool" where
  "name_char c \<longleftrightarrow> in_range (CHR ''a'') (CHR ''z'') c \<or> in_range (CHR ''A'') (CHR ''Z'') c \<or> in_range (CHR ''0'') (CHR ''9'') c \<or>
     c = CHR ''.'' \<or> c = CHR ''_'' \<or> c = CHR ''-''"

definition validPgHost :: "string \<Rightarrow> bool" where
  "validPgHost h \<longleftrightarrow> h \<noteq> '''' \<and> list_all name_char h \<and> length h \<le> 255"

definition validPgUser :: "string \<Rightarrow> bool" where
  "validPgUser u \<longleftrightarrow> u \<noteq> '''' \<and> list_all name_char u \<and> length u \<le> 63"

definition pg_with_defaults :: "pg_request \<Rightarrow> pg_request" where
  "pg_with_defaults r =
     \<lparr>pr_Host = (if pr_Host r = '''' then ''localhost'' else pr_Host r), pr_Port = (if pr_Port r = 0 then 5432 else pr_Port r),
      pr_User = (if pr_User r = '''' then ''postgres'' else pr_User r), pr_Password = pr_Password r\<rparr>"

definition pg_valid :: "pg_request \<Rightarrow> bool" where
  "pg_valid r \<longleftrightarrow> validPgHost (pr_Host r) \<and> 1 \<le> pr_Port r \<and> pr_Port r \<le> 65535 \<and> validPgUser (pr_User r)"

definition psql_args :: "string \<Rightarrow> string \<Rightarrow> int \<Rightarrow> string \<Rightarrow> string list" where
  "psql_args psql host port user =
     [psql, ''-h'', host, ''-p'', itoa port, ''-U'', user, ''-d'', ''postgres'', ''-t'', ''-A'', ''-c'',
      ''SELECT datname FROM pg_database WHERE datistemplate = false ORDER BY datname;'']"

definition no_databases :: string where "no_databases = ''connected but no databases returned''"

definition discoverPgDatabases :: "machine_view \<Rightarrow> pg_request \<Rightarrow> command_log \<times> (string + sql_database list \<times> string)" where
  "discoverPgDatabases V r =
     (case mv_Bin V ''psql'' of
        Inl e \<Rightarrow> ([], Inl e)
      | Inr psql \<Rightarrow>
          let argv = psql_args psql (pr_Host r) (pr_Port r) (pr_User r);
              env = (if pr_Password r \<noteq> '''' then [''PGPASSWORD='' @ pr_Password r] else []);
              out = mv_Exec V argv env; dbs = named (output_lines (co_Stdout out))
          in ([(argv, env)],
              if \<not> co_Ok out
              then Inl (''psql '' @ pr_Host r @ '':'' @ itoa (pr_Port r) @ '' as '' @ pr_User r @ '': '' @ firstLine (stderr_of out))
              else if dbs = [] then Inl no_databases else Inr (dbs, ''psql '' @ pr_Host r)))"

definition bar :: char where "bar = CHR 0x7C"

text \<open>One line of \<open>sqlcmd\<close>: name and state around a bar; blank lines and the row count are skipped.\<close>

definition sqlcmd_row :: "string \<Rightarrow> sql_database option" where
  "sqlcmd_row raw =
     (let line = trim_space raw; name = trim_space (takeWhile (\<lambda>c. c \<noteq> bar) line);
          rest = drop 1 (dropWhile (\<lambda>c. c \<noteq> bar) line) in
      if line = '''' \<or> has_prefix ''('' line \<or> name = '''' then None
      else Some \<lparr>sd_Name = name, sd_State = trim_space rest\<rparr>)"

definition sqlcmd_args :: "string \<Rightarrow> string list" where
  "sqlcmd_args server =
     [''sqlcmd'', ''-S'', server, ''-E'', ''-h'', ''-1'', ''-W'', ''-s'', [bar], ''-Q'',
      ''SET NOCOUNT ON; SELECT name + '' @ [CHR 0x27, bar, CHR 0x27] @ '' + state_desc FROM sys.databases ORDER BY name;'']"

definition powershell_args :: "string \<Rightarrow> string list" where
  "powershell_args server =
     (let q = [CHR 0x27] in
      [''powershell'', ''-NoProfile'', ''-NonInteractive'', ''-Command'',
       ''$c = New-Object System.Data.SqlClient.SqlConnection('' @ q @ ''Server='' @ server @
       '';Integrated Security=True;Connection Timeout=5'' @ q @ '');'' @ '' $c.Open();'' @
       '' $r = (New-Object System.Data.SqlClient.SqlCommand('' @ q @ ''SELECT name FROM sys.databases ORDER BY name'' @ q @
       '', $c)).ExecuteReader();'' @ '' while ($r.Read()) { $r.GetString(0) }; $c.Close()''])"

definition query_reply :: "string \<Rightarrow> sql_database list \<Rightarrow> string + sql_database list" where
  "query_reply server dbs =
     (if dbs = [] then Inl (server @ '': query succeeded but returned no databases'') else Inr dbs)"

definition querySQLCmd :: "machine_view \<Rightarrow> string \<Rightarrow> string + sql_database list" where
  "querySQLCmd V server =
     (let out = mv_Exec V (sqlcmd_args server) [] in
      if \<not> co_Ok out then Inl (server @ '': '' @ stderr_of out)
      else query_reply server (List.map_filter sqlcmd_row (split_on nl_char (co_Stdout out))))"

definition queryPowerShell :: "machine_view \<Rightarrow> string \<Rightarrow> string + sql_database list" where
  "queryPowerShell V server =
     (let out = mv_Exec V (powershell_args server) [] in
      if \<not> co_Ok out then Inl (server @ '': '' @ firstLine (stderr_of out))
      else query_reply server (named (output_lines (co_Stdout out))))"

definition local_servers :: "string list" where
  "local_servers = [''localhost'', ''localhost'' @ [CHR 0x5C] @ ''SQLEXPRESS'']"

text \<open>The first server that answers, with the commands tried.\<close>

fun first_answer :: "string \<Rightarrow> (string \<Rightarrow> string list) \<Rightarrow> (string \<Rightarrow> string + sql_database list) \<Rightarrow> string list \<Rightarrow>
    command_log \<times> (sql_database list \<times> string) option" where
  "first_answer tool args ask [] = ([], None)"
| "first_answer tool args ask (s # ss) =
     (case ask s of
        Inr dbs \<Rightarrow> ([(args s, [])], Some (dbs, tool @ '' '' @ s))
      | Inl _ \<Rightarrow> (case first_answer tool args ask ss of (log, r) \<Rightarrow> ((args s, []) # log, r)))"

definition no_sql_server :: string where
  "no_sql_server = ''no local SQL Server reachable (tried sqlcmd and the built-in .NET client against localhost, localhost'' @
     [CHR 0x5C] @ ''SQLEXPRESS). Install SQL Server Command Line Utilities, or type the database name manually''"

definition discoverDatabases :: "machine_view \<Rightarrow> command_log \<times> (string + sql_database list \<times> string)" where
  "discoverDatabases V =
     (let (log, r) = (case mv_Bin V ''sqlcmd'' of
            Inl _ \<Rightarrow> ([], None) | Inr _ \<Rightarrow> first_answer ''sqlcmd'' sqlcmd_args (querySQLCmd V) local_servers) in
      case r of
        Some x \<Rightarrow> (log, Inr x)
      | None \<Rightarrow> (case first_answer ''powershell'' powershell_args (queryPowerShell V) local_servers of
          (log2, Some x) \<Rightarrow> (log @ log2, Inr x) | (log2, None) \<Rightarrow> (log @ log2, Inl no_sql_server)))"

definition validMongoURI :: "string \<Rightarrow> bool" where
  "validMongoURI uri \<longleftrightarrow> (has_prefix ''mongodb://'' uri \<or> has_prefix ''mongodb+srv://'' uri) \<and> length uri \<le> 2048"

definition mongosh_script :: string where
  "mongosh_script = (let q = [CHR 0x27] in
     ''JSON.stringify(db.getMongo().getDBNames().filter(function(n){return n!=='' @ q @ ''admin'' @ q @ ''&&n!=='' @ q @ ''local'' @ q @
     ''&&n!=='' @ q @ ''config'' @ q @ ''}))'')"

definition mongosh_args :: "string \<Rightarrow> string \<Rightarrow> string list" where
  "mongosh_args mongosh uri = [mongosh, uri, ''--quiet'', ''--eval'', mongosh_script]"

definition discoverMongoShell :: "machine_view \<Rightarrow> string \<Rightarrow> string \<Rightarrow> string + string list" where
  "discoverMongoShell V mongosh uri =
     (let out = mv_Exec V (mongosh_args mongosh uri) [] in
      if \<not> co_Ok out then Inl (firstLine (redacted (stderr_of out)))
      else (case mv_JsonNames V (trim_space (co_Stdout out)) of
          None \<Rightarrow> Inl no_databases | Some names \<Rightarrow> if names = [] then Inl no_databases else Inr names))"

definition DiscoverMongoNative :: "machine_view \<Rightarrow> string \<Rightarrow> string + string list" where
  "DiscoverMongoNative V uri =
     (case mv_Driver V uri of
        Inl e \<Rightarrow> Inl (''connect: '' @ firstLine (redacted e))
      | Inr (Inl e) \<Rightarrow> Inl (firstLine (redacted e))
      | Inr (Inr names) \<Rightarrow>
          let out = filter (\<lambda>n. n \<noteq> ''admin'' \<and> n \<noteq> ''local'' \<and> n \<noteq> ''config'') names in
          if out = [] then Inl no_databases else Inr out)"

definition discoverMongoDatabases :: "machine_view \<Rightarrow> string \<Rightarrow> command_log \<times> (string + string list)" where
  "discoverMongoDatabases V uri =
     (case mv_Bin V ''mongosh'' of
        Inr mongosh \<Rightarrow> ([(mongosh_args mongosh uri, [])], discoverMongoShell V mongosh uri)
      | Inl _ \<Rightarrow> ([], DiscoverMongoNative V uri))"

subsection \<open>Servers, by their protocols\<close>

record detected_instance =
  di_Type :: string
  di_Product :: string
  di_Host :: string
  di_Port :: int
  di_Source :: string

record detect_response =
  de_Instances :: "detected_instance list"
  de_Scanned :: "int list"
  de_Error :: string

definition byte :: "nat \<Rightarrow> char" where
  "byte n = char_of (n mod 256)"

definition be16 :: "nat \<Rightarrow> string" where
  "be16 n = [byte (n div 2 ^ 8), byte n]"

definition be32 :: "nat \<Rightarrow> string" where
  "be32 n = [byte (n div 2 ^ 24), byte (n div 2 ^ 16), byte (n div 2 ^ 8), byte n]"

definition le32 :: "nat \<Rightarrow> string" where
  "le32 n = rev (be32 n)"

definition le32_value :: "string \<Rightarrow> nat" where
  "le32_value s = foldr (\<lambda>c v. of_char c + 256 * v) s 0"

definition pg_probe :: string where
  "pg_probe = be32 8 @ be32 80877103"

definition mssql_probe :: string where
  "mssql_probe =
     [byte 18, byte 1] @ be16 15 @ [byte 0, byte 0, byte 1, byte 0] @
     [byte 1] @ be16 14 @ be16 1 @ [byte 255] @ [byte 0]"

definition bsonBool :: "string \<Rightarrow> bool \<Rightarrow> string" where
  "bsonBool name v = [byte 8] @ name @ [byte 0] @ [byte (if v then 1 else 0)]"

definition bsonString :: "string \<Rightarrow> string \<Rightarrow> string" where
  "bsonString name v = [byte 2] @ name @ [byte 0] @ le32 (length v + 1) @ v @ [byte 0]"

definition bsonDoc :: "string list \<Rightarrow> string" where
  "bsonDoc elems = (let body = concat elems @ [byte 0] in le32 (length body + 4) @ body)"

definition is_master :: string where
  "is_master = bsonDoc [bsonBool ''isMaster'' True, bsonString (CHR ''$'' # ''db'') ''admin'']"

definition mongo_probe :: string where
  "mongo_probe = le32 (16 + 4 + 1 + length is_master) @ le32 1 @ le32 0 @ le32 2013 @ le32 0 @ [byte 0] @ is_master"

text \<open>\<open>mv_Answer\<close> is what a fresh connection to the loopback port sends back, \<open>None\<close> if it cannot be opened or written.\<close>

definition probePostgres :: "machine_view \<Rightarrow> int \<Rightarrow> bool" where
  "probePostgres V port =
     (case mv_Answer V port pg_probe of None \<Rightarrow> False | Some r \<Rightarrow> r \<noteq> [] \<and> (hd r = CHR ''S'' \<or> hd r = CHR ''N''))"

definition probeMSSQL :: "machine_view \<Rightarrow> int \<Rightarrow> bool" where
  "probeMSSQL V port = (case mv_Answer V port mssql_probe of None \<Rightarrow> False | Some r \<Rightarrow> 8 \<le> length r \<and> hd r = byte 4)"

definition probeMongo :: "machine_view \<Rightarrow> int \<Rightarrow> bool" where
  "probeMongo V port =
     (case mv_Answer V port mongo_probe of
        None \<Rightarrow> False
      | Some r \<Rightarrow> 16 \<le> length r \<and> (let op = le32_value (take 4 (drop 12 r)) in op = 2013 \<or> op = 2004))"

definition found_engine :: "int \<Rightarrow> string \<Rightarrow> string \<Rightarrow> detected_instance" where
  "found_engine port name kind =
     \<lparr>di_Type = kind, di_Product = name, di_Host = ''127.0.0.1'', di_Port = port, di_Source = ''protocol handshake''\<rparr>"

definition identifyPort :: "machine_view \<Rightarrow> int \<Rightarrow> detected_instance option" where
  "identifyPort V port =
     (if probePostgres V port then Some (found_engine port ''PostgreSQL'' ''POSTGRES'')
      else if probeMSSQL V port then Some (found_engine port ''SQL Server'' ''MSSQL'')
      else if probeMongo V port then Some (found_engine port ''MongoDB'' ''MONGODB'')
      else None)"

definition detectPorts :: "int list" where
  "detectPorts = [5432, 5433, 1433, 27017, 27018]"

text \<open>The probes run side by side; the result is sorted by port, so their order does not matter.\<close>

definition detect :: "machine_view \<Rightarrow> bool \<Rightarrow> detect_response" where
  "detect V timed_out =
     \<lparr>de_Instances = sort_key di_Port (List.map_filter (identifyPort V) detectPorts), de_Scanned = detectPorts,
      de_Error = (if timed_out then ''scan timed out before finishing every port'' else '''')\<rparr>"

subsection \<open>The local server\<close>

record local_request =
  lr_Path :: string
  lr_Method :: string
  lr_Token :: string
  lr_Query :: string
  lr_PgBody :: "pg_request option"
  lr_MongoBody :: "string option"
  lr_TimedOut :: bool

datatype local_reply =
    Failed nat string
  | Empty204
  | Healthy
  | Folders browse_response
  | Databases databases_response
  | Engines detect_response

definition handlePgDatabases :: "machine_view \<Rightarrow> local_request \<Rightarrow> command_log \<times> local_reply" where
  "handlePgDatabases V q =
     (if lr_Method q = ''OPTIONS'' then ([], Empty204)
      else if lr_Method q \<noteq> ''POST'' then ([], Failed 405 ''use POST'')
      else (case lr_PgBody q of
          None \<Rightarrow> ([], Failed 400 ''invalid request body'')
        | Some body \<Rightarrow>
            let r = pg_with_defaults body in
            if \<not> pg_valid r then ([], Failed 400 ''invalid host, port, or user'')
            else (case discoverPgDatabases V r of (log, x) \<Rightarrow> (log, Databases (databases_reply x)))))"

definition handleMongoDatabases :: "machine_view \<Rightarrow> local_request \<Rightarrow> command_log \<times> local_reply" where
  "handleMongoDatabases V q =
     (if lr_Method q = ''OPTIONS'' then ([], Empty204)
      else if lr_Method q \<noteq> ''POST'' then ([], Failed 405 ''use POST'')
      else (case lr_MongoBody q of
          None \<Rightarrow> ([], Failed 400 ''invalid request body'')
        | Some raw \<Rightarrow>
            let uri = trim_space raw in
            if \<not> validMongoURI uri then ([], Failed 400 ''invalid MongoDB connection string (expected mongodb://...)'')
            else (case discoverMongoDatabases V uri of (log, x) \<Rightarrow>
                (log, Databases (databases_reply (case x of Inl e \<Rightarrow> Inl e | Inr names \<Rightarrow> Inr (named names, ''mongosh'')))))))"

definition handleDatabases :: "machine_view \<Rightarrow> command_log \<times> local_reply" where
  "handleDatabases V = (case discoverDatabases V of (log, x) \<Rightarrow> (log, Databases (databases_reply x)))"

definition handleDetect :: "machine_view \<Rightarrow> local_request \<Rightarrow> local_reply" where
  "handleDetect V q =
     (if lr_Method q = ''OPTIONS'' then Empty204
      else if lr_Method q \<noteq> ''GET'' then Failed 405 ''use GET'' else Engines (detect V (lr_TimedOut q)))"

definition guarded :: "string \<Rightarrow> local_request \<Rightarrow> command_log \<times> local_reply \<Rightarrow> command_log \<times> local_reply" where
  "guarded browseToken q handler =
     (if browseToken \<noteq> '''' \<and> lr_Token q \<noteq> browseToken then ([], Failed 401 ''unauthorized'') else handler)"

definition serve :: "machine_view \<Rightarrow> string \<Rightarrow> local_request \<Rightarrow> command_log \<times> local_reply" where
  "serve V browseToken q =
     (let p = lr_Path q in
      if p = ''/browse'' then guarded browseToken q ([], case handleBrowse V (lr_Query q) of Inl (c, e) \<Rightarrow> Failed c e | Inr r \<Rightarrow> Folders r)
      else if p = ''/databases'' then guarded browseToken q (handleDatabases V)
      else if p = ''/pg-databases'' then guarded browseToken q (handlePgDatabases V q)
      else if p = ''/mongo-databases'' then guarded browseToken q (handleMongoDatabases V q)
      else if p = ''/detect'' then guarded browseToken q ([], handleDetect V q)
      else if p = ''/health'' then ([], Healthy)
      else ([], Failed 404 ''404 page not found''))"

subsection \<open>What a request can make the agent run\<close>

definition harmless :: "machine_view \<Rightarrow> string list \<times> string list \<Rightarrow> bool" where
  "harmless V cmd \<longleftrightarrow>
     (\<exists>s\<in>set local_servers. cmd = (sqlcmd_args s, []) \<or> cmd = (powershell_args s, [])) \<or>
     (\<exists>psql r. mv_Bin V ''psql'' = Inr psql \<and> pg_valid r \<and> fst cmd = psql_args psql (pr_Host r) (pr_Port r) (pr_User r) \<and>
        snd cmd \<in> {[], [''PGPASSWORD='' @ pr_Password r]}) \<or>
     (\<exists>mongosh uri. mv_Bin V ''mongosh'' = Inr mongosh \<and> validMongoURI uri \<and> cmd = (mongosh_args mongosh uri, []))"

lemma first_answer_log: "cmd \<in> set (fst (first_answer tool args ask ss)) \<Longrightarrow> \<exists>s\<in>set ss. cmd = (args s, [])"
  by (induction ss) (auto split: sum.splits prod.splits)

lemma discoverDatabases_log:
  assumes "cmd \<in> set (fst (discoverDatabases V))"
  shows "\<exists>s\<in>set local_servers. cmd = (sqlcmd_args s, []) \<or> cmd = (powershell_args s, [])"
proof -
  obtain l1 r1 where a: "first_answer ''sqlcmd'' sqlcmd_args (querySQLCmd V) local_servers = (l1, r1)" by (rule prod.exhaust)
  obtain l2 r2 where b: "first_answer ''powershell'' powershell_args (queryPowerShell V) local_servers = (l2, r2)" by (rule prod.exhaust)
  have "cmd \<in> set l1 \<or> cmd \<in> set l2"
    using assms by (auto simp: discoverDatabases_def a b split: sum.splits option.splits)
  then show ?thesis
    using first_answer_log [of cmd "''sqlcmd''" sqlcmd_args] first_answer_log [of cmd "''powershell''" powershell_args] a b
    by (metis fst_conv)
qed

lemma handlePg_log:
  assumes "cmd \<in> set (fst (handlePgDatabases V q))"
  shows "harmless V cmd"
proof -
  obtain body psql where b: "lr_PgBody q = Some body" "pg_valid (pg_with_defaults body)" "mv_Bin V ''psql'' = Inr psql"
    using assms by (auto simp: handlePgDatabases_def discoverPgDatabases_def Let_def split: if_splits option.splits sum.splits)
  then have "cmd = (psql_args psql (pr_Host (pg_with_defaults body)) (pr_Port (pg_with_defaults body)) (pr_User (pg_with_defaults body)),
      if pr_Password (pg_with_defaults body) \<noteq> '''' then [''PGPASSWORD='' @ pr_Password (pg_with_defaults body)] else [])"
    using assms by (simp add: handlePgDatabases_def discoverPgDatabases_def Let_def split: if_split_asm)
  then show ?thesis using b(2,3) unfolding harmless_def by auto
qed

lemma handleMongo_log:
  assumes "cmd \<in> set (fst (handleMongoDatabases V q))"
  shows "harmless V cmd"
proof -
  obtain raw mongosh where b: "lr_MongoBody q = Some raw" "validMongoURI (trim_space raw)" "mv_Bin V ''mongosh'' = Inr mongosh"
    using assms by (auto simp: handleMongoDatabases_def discoverMongoDatabases_def Let_def split: if_splits option.splits sum.splits)
  then have "cmd = (mongosh_args mongosh (trim_space raw), [])"
    using assms by (simp add: handleMongoDatabases_def discoverMongoDatabases_def Let_def split: if_split_asm)
  then show ?thesis using b(2,3) unfolding harmless_def by blast
qed

text \<open>C30. The local helper runs nothing a caller made up: without the configured token it runs nothing at all, and otherwise
  every command is one of the fixed SQL Server queries, the fixed catalogue query of \<open>psql\<close> with a host, port and user
  that passed validation and the password only in the environment, or the fixed \<open>mongosh\<close> script against a MongoDB URI.\<close>

theorem discovery_runs_only_fixed_queries:
  assumes "cmd \<in> set (fst (serve V browseToken q))"
  shows "(browseToken \<noteq> '''' \<longrightarrow> lr_Token q = browseToken) \<and> harmless V cmd"
proof -
  have g: "(browseToken \<noteq> '''' \<longrightarrow> lr_Token q = browseToken) \<and> cmd \<in> set (fst h)"
    if "cmd \<in> set (fst (guarded browseToken q h))" for h
    using that by (auto simp: guarded_def split: if_split_asm)
  consider "cmd \<in> set (fst (guarded browseToken q (handleDatabases V)))"
    | "cmd \<in> set (fst (guarded browseToken q (handlePgDatabases V q)))"
    | "cmd \<in> set (fst (guarded browseToken q (handleMongoDatabases V q)))"
    using assms by (auto simp: serve_def Let_def guarded_def split: if_split_asm)
  then show ?thesis
  proof cases
    case 1
    then have "cmd \<in> set (fst (discoverDatabases V))" using g by (fastforce simp: handleDatabases_def split: prod.splits)
    then have "harmless V cmd" using discoverDatabases_log unfolding harmless_def by blast
    then show ?thesis using g [OF 1] by blast
  next
    case 2
    then show ?thesis using g [OF 2] handlePg_log by blast
  next
    case 3
    then show ?thesis using g [OF 3] handleMongo_log by blast
  qed
qed

lemma name_char_plain: "name_char c \<Longrightarrow> c \<notin> {CHR 0x20, CHR 0x27, CHR 0x22, CHR 0x3B, CHR 0x0A, CHR 0x2F}"
  by (auto simp: name_char_def in_range_def)

text \<open>Detection names an engine only for a port that answered in its protocol, each port once, in ascending order.\<close>

lemma identifyPort_sound:
  "identifyPort V port = Some d \<Longrightarrow> di_Port d = port \<and> (di_Type d = ''POSTGRES'' \<and> probePostgres V port \<or>
     di_Type d = ''MSSQL'' \<and> probeMSSQL V port \<or> di_Type d = ''MONGODB'' \<and> probeMongo V port)"
  by (auto simp: identifyPort_def found_engine_def split: if_splits)

lemma detect_sound:
  "d \<in> set (de_Instances (detect V b)) \<Longrightarrow> di_Port d \<in> set detectPorts \<and> identifyPort V (di_Port d) = Some d"
proof -
  assume "d \<in> set (de_Instances (detect V b))"
  then obtain port where "port \<in> set detectPorts" "identifyPort V port = Some d"
    by (auto simp: detect_def map_filter_def)
  then show ?thesis using identifyPort_sound by metis
qed

lemma detect_complete:
  "port \<in> set detectPorts \<Longrightarrow> identifyPort V port = Some d \<Longrightarrow> d \<in> set (de_Instances (detect V b))"
  by (force simp: detect_def map_filter_def)

text \<open>The probes are well formed: each length field counts the bytes of its packet.\<close>

lemma probe_lengths:
  "length pg_probe = 8" "length mssql_probe = 15"
  "le32_value (take 4 is_master) = length is_master" "le32_value (take 4 mongo_probe) = length mongo_probe"
  by (simp_all add: pg_probe_def mssql_probe_def mongo_probe_def is_master_def bsonDoc_def bsonBool_def bsonString_def be16_def
      be32_def le32_def le32_value_def byte_def Let_def)

lemma handleBrowse_entries:
  assumes "handleBrowse V query = Inr r"
  obtains entries where "mv_ReadDir V (bs_CWD r) = Some entries" "mv_IsDir V (bs_CWD r) = Some True"
    "sorted (map be_Name (bs_Entries r))" "set (map be_Name (bs_Entries r)) = {n. (n, True) \<in> set entries}"
proof -
  let ?dir = "if trim_space query = '''' then hd driveRoots else Clean (trim_space query)"
  have d: "mv_IsDir V ?dir = Some True" using assms by (simp add: handleBrowse_def Let_def split: if_split_asm)
  obtain entries where e: "mv_ReadDir V ?dir = Some entries"
    using assms d by (cases "mv_ReadDir V ?dir") (simp_all add: handleBrowse_def Let_def split: if_split_asm)
  have cwd: "bs_CWD r = ?dir"
    and l: "bs_Entries r = sort_key be_Name (map (\<lambda>e. \<lparr>be_Name = fst e, be_Path = Join2 ?dir (fst e)\<rparr>) (filter snd entries))"
    using assms d e by (auto simp: handleBrowse_def Let_def simp del: sort_key_simps)
  have "set (map be_Name (bs_Entries r)) = {n. (n, True) \<in> set entries}" by (force simp: l)
  then show ?thesis using that [of entries] cwd d e l by simp
qed

definition toy_view :: machine_view where
  "toy_view = \<lparr>mv_IsDir = (\<lambda>_. Some True), mv_ReadDir = (\<lambda>_. Some []), mv_Bin = (\<lambda>t. Inr t),
     mv_Exec = (\<lambda>_ _. \<lparr>co_Ok = True, co_Stdout = ''shop'', co_Stderr = '''', co_Error = ''''\<rparr>),
     mv_Answer = (\<lambda>_ _. None), mv_JsonNames = (\<lambda>_. None), mv_Driver = (\<lambda>_. Inl ''down'')\<rparr>"

definition toy_lookup :: local_request where
  "toy_lookup = \<lparr>lr_Path = ''/pg-databases'', lr_Method = ''POST'', lr_Token = ''t'', lr_Query = '''',
     lr_PgBody = Some \<lparr>pr_Host = ''db'', pr_Port = 0, pr_User = '''', pr_Password = ''pw''\<rparr>, lr_MongoBody = None, lr_TimedOut = False\<rparr>"

theorem discovery_runs_only_fixed_queries_witness:
  "harmless toy_view (psql_args ''psql'' ''db'' 5432 ''postgres'', [''PGPASSWORD=pw''])"
proof -
  have v: "pg_valid \<lparr>pr_Host = ''db'', pr_Port = 5432, pr_User = ''postgres'', pr_Password = ''pw''\<rparr>" by code_simp
  have "fst (serve toy_view ''t'' toy_lookup) = [(psql_args ''psql'' ''db'' 5432 ''postgres'', [''PGPASSWORD=pw''])]"
    by (simp add: serve_def toy_lookup_def guarded_def handlePgDatabases_def pg_with_defaults_def v discoverPgDatabases_def toy_view_def Let_def)
  then show ?thesis using discovery_runs_only_fixed_queries [of _ toy_view "''t''" toy_lookup] by simp
qed

end
